(* ===== verification/Go_Prelude.thy ===== *)
theory Go_Prelude
  imports Main "HOL-Library.AList" "HOL-Library.List_Lexorder" "HOL-Library.Char_ord"
    "HOL-Library.Product_Lexorder" "HOL-Library.Multiset"
begin

text \<open>
  What every component of the model shares: Go's time values, errors, strings, slices and
  maps, and the generic lemmas on them.

  \<^item> Time and duration are integers in nanoseconds; 0 is the zero \<^verbatim>\<open>time.Time\<close>
    (\<^verbatim>\<open>IsZero\<close>), and every clock reading is positive. An operation that reads the clock
    takes the reading as an argument.
  \<^item> A Go \<^verbatim>\<open>string\<close> is a list of bytes. The functions of package \<^verbatim>\<open>strings\<close> are
    modelled exactly on ASCII text; on bytes above 127 the case mappings and the white-space
    test leave the byte alone.
  \<^item> A Go map is an association list with distinct keys. Its order stands for the order in
    which one \<^verbatim>\<open>range\<close> loop happens to visit the map: properties are proved for every
    order.
  \<^item> \<^verbatim>\<open>sort.Slice\<close> with a comparator is a sort by the comparator's key.
  \<^item> An \<^verbatim>\<open>error\<close> is \<^verbatim>\<open>os.ErrNotExist\<close> or a message.
\<close>

named_theorems go_str \<open>unfolding rules of the string functions\<close>
named_theorems go_map \<open>rules of the map operations\<close>

subsection \<open>Time, errors\<close>

type_synonym time = int
type_synonym duration = int

definition IsZero :: "time \<Rightarrow> bool" where
  "IsZero t \<longleftrightarrow> t = 0"

lemma IsZero_simps [simp]: "IsZero 0" "0 < t \<Longrightarrow> \<not> IsZero t"
  by (auto simp: IsZero_def)

definition second_ns :: duration where
  "second_ns = 1000000000"

definition minute_ns :: duration where
  "minute_ns = 60 * second_ns"

definition hour_ns :: duration where
  "hour_ns = 60 * minute_ns"

lemmas ns_defs = second_ns_def minute_ns_def hour_ns_def

datatype error = ErrNotExist | Err string

fun error_text :: "error \<Rightarrow> string" where
  "error_text ErrNotExist = ''file does not exist''"
| "error_text (Err m) = m"

text \<open>
  A call returns a value, returns an error, or panics (a nil pointer or a slice out of range).
\<close>

datatype 'a outcome = Ok 'a | Fail error | Panic

fun obind :: "'a outcome \<Rightarrow> ('a \<Rightarrow> 'b outcome) \<Rightarrow> 'b outcome" where
  "obind (Ok x) f = f x"
| "obind (Fail e) f = Fail e"
| "obind Panic f = Panic"

lemma obind_Ok_iff: "obind m f = Ok y \<longleftrightarrow> (\<exists>x. m = Ok x \<and> f x = Ok y)"
  by (cases m) auto

lemma obind_Panic_iff: "obind m f = Panic \<longleftrightarrow> m = Panic \<or> (\<exists>x. m = Ok x \<and> f x = Panic)"
  by (cases m) auto

subsection \<open>Package strings\<close>

definition lower_char :: "char \<Rightarrow> char" where
  "lower_char c = (let n = (of_char c :: nat)
     in if 65 \<le> n \<and> n \<le> 90 then char_of (n + 32) else c)"

definition upper_char :: "char \<Rightarrow> char" where
  "upper_char c = (let n = (of_char c :: nat)
     in if 97 \<le> n \<and> n \<le> 122 then char_of (n - 32) else c)"

definition ToLower :: "string \<Rightarrow> string" where
  "ToLower s = map lower_char s"

definition ToUpper :: "string \<Rightarrow> string" where
  "ToUpper s = map upper_char s"

definition HasPrefix :: "string \<Rightarrow> string \<Rightarrow> bool" where
  "HasPrefix s p \<longleftrightarrow> take (length p) s = p"

definition HasSuffix :: "string \<Rightarrow> string \<Rightarrow> bool" where
  "HasSuffix s q \<longleftrightarrow> length q \<le> length s \<and> drop (length s - length q) s = q"

definition TrimPrefix :: "string \<Rightarrow> string \<Rightarrow> string" where
  "TrimPrefix s p = (if HasPrefix s p then drop (length p) s else s)"

definition TrimSuffix :: "string \<Rightarrow> string \<Rightarrow> string" where
  "TrimSuffix s q = (if HasSuffix s q then take (length s - length q) s else s)"

fun Contains :: "string \<Rightarrow> string \<Rightarrow> bool" where
  "Contains [] sub \<longleftrightarrow> sub = []"
| "Contains (c # s) sub \<longleftrightarrow> HasPrefix (c # s) sub \<or> Contains s sub"

definition trim_while :: "(char \<Rightarrow> bool) \<Rightarrow> string \<Rightarrow> string" where
  "trim_while P s = rev (dropWhile P (rev (dropWhile P s)))"

definition Trim :: "string \<Rightarrow> string \<Rightarrow> string" where
  "Trim s cutset = trim_while (\<lambda>c. c \<in> set cutset) s"

definition is_space :: "char \<Rightarrow> bool" where
  "is_space c \<longleftrightarrow> (of_char c :: nat) \<in> {9, 10, 11, 12, 13, 32}"

definition TrimSpace :: "string \<Rightarrow> string" where
  "TrimSpace s = trim_while is_space s"

definition EqualFold :: "string \<Rightarrow> string \<Rightarrow> bool" where
  "EqualFold s t \<longleftrightarrow> ToLower s = ToLower t"

fun fields_acc :: "string \<Rightarrow> string \<Rightarrow> string list" where
  "fields_acc acc [] = (if acc = [] then [] else [rev acc])"
| "fields_acc acc (c # s) =
     (if is_space c then (if acc = [] then fields_acc [] s else rev acc # fields_acc [] s)
      else fields_acc (c # acc) s)"

definition Fields :: "string \<Rightarrow> string list" where
  "Fields s = fields_acc [] s"

text \<open>\<^verbatim>\<open>strings.Cut\<close> and \<^verbatim>\<open>strings.SplitN (s, sep, 2)\<close> at a one-byte separator.\<close>

definition cut_before :: "char \<Rightarrow> string \<Rightarrow> string" where
  "cut_before c s = takeWhile (\<lambda>x. x \<noteq> c) s"

definition cut_after :: "char \<Rightarrow> string \<Rightarrow> string" where
  "cut_after c s = drop 1 (dropWhile (\<lambda>x. x \<noteq> c) s)"

fun Join :: "string list \<Rightarrow> string \<Rightarrow> string" where
  "Join [] sep = []"
| "Join [x] sep = x"
| "Join (x # y # ys) sep = x @ sep @ Join (y # ys) sep"

text \<open>
  \<^verbatim>\<open>bufio.Scanner\<close> over lines: the pieces between newlines, a trailing carriage return
  dropped. The scanner's buffer holds 65536 bytes: a line that long or longer stops the scan
  with an error.
\<close>

fun raw_lines :: "string \<Rightarrow> string \<Rightarrow> string list" where
  "raw_lines acc [] = (if acc = [] then [] else [rev acc])"
| "raw_lines acc (c # s) =
     (if c = CHR 0x0A then rev acc # raw_lines [] s else raw_lines (c # acc) s)"

definition drop_cr :: "string \<Rightarrow> string" where
  "drop_cr l = (if l \<noteq> [] \<and> last l = CHR 0x0D then butlast l else l)"

definition max_token :: nat where
  "max_token = 65536"

definition scan_lines :: "string \<Rightarrow> string list" where
  "scan_lines s = map drop_cr (takeWhile (\<lambda>l. length l < max_token) (raw_lines [] s))"

definition scan_err :: "string \<Rightarrow> error option" where
  "scan_err s = (if list_all (\<lambda>l. length l < max_token) (raw_lines [] s) then None
     else Some (Err ''bufio.Scanner: token too long''))"

lemma scan_lines_complete:
  "scan_err s = None \<Longrightarrow> scan_lines s = map drop_cr (raw_lines [] s)"
  by (auto simp: scan_err_def scan_lines_def list_all_iff takeWhile_eq_all_conv[THEN iffD2]
      split: if_splits)

subsection \<open>Printing numbers and quoted strings\<close>

definition digit_char :: "nat \<Rightarrow> char" where
  "digit_char n = char_of (48 + n)"

fun show_nat :: "nat \<Rightarrow> string" where
  "show_nat n = (if n < 10 then [digit_char n] else show_nat (n div 10) @ [digit_char (n mod 10)])"

declare show_nat.simps [simp del]

definition show_int :: "int \<Rightarrow> string" where
  "show_int i = (if i < 0 then CHR ''-'' # show_nat (nat (- i)) else show_nat (nat i))"

definition show_bool :: "bool \<Rightarrow> string" where
  "show_bool b = (if b then ''true'' else ''false'')"

definition hex_digit :: "nat \<Rightarrow> char" where
  "hex_digit n = (if n < 10 then char_of (48 + n) else char_of (87 + n))"

definition quote_char :: "char \<Rightarrow> string" where
  "quote_char c = (let n = (of_char c :: nat) in
     if n = 34 then [CHR 0x5C, CHR 0x22] else if n = 92 then [CHR 0x5C, CHR 0x5C]
     else if n = 7 then [CHR 0x5C, CHR ''a''] else if n = 8 then [CHR 0x5C, CHR ''b'']
     else if n = 12 then [CHR 0x5C, CHR ''f''] else if n = 10 then [CHR 0x5C, CHR ''n'']
     else if n = 13 then [CHR 0x5C, CHR ''r''] else if n = 9 then [CHR 0x5C, CHR ''t'']
     else if n = 11 then [CHR 0x5C, CHR ''v'']
     else if n < 32 \<or> n = 127 then [CHR 0x5C, CHR ''x'', hex_digit (n div 16), hex_digit (n mod 16)]
     else [c])"

definition quote :: "string \<Rightarrow> string" where
  "quote s = CHR 0x22 # concat (map quote_char s) @ [CHR 0x22]"

subsection \<open>Lemmas on strings\<close>

lemma HasPrefix_append [simp]: "HasPrefix (p @ s) p"
  by (simp add: HasPrefix_def)

lemma HasPrefix_iff [go_str]: "HasPrefix s p \<longleftrightarrow> (\<exists>r. s = p @ r)"
  by (auto simp: HasPrefix_def) (metis append_take_drop_id)

lemma HasSuffix_iff [go_str]: "HasSuffix s q \<longleftrightarrow> (\<exists>r. s = r @ q)"
  by (auto simp: HasSuffix_def) (metis append_take_drop_id)

lemma HasSuffix_append [simp]: "HasSuffix (r @ q) q"
  by (auto simp: HasSuffix_iff)

lemma TrimPrefix_append [simp]: "TrimPrefix (p @ s) p = s"
  by (simp add: TrimPrefix_def)

lemma TrimSuffix_append [simp]: "TrimSuffix (s @ q) q = s"
  by (simp add: TrimSuffix_def)

lemma Contains_iff [go_str]: "Contains s sub \<longleftrightarrow> (\<exists>a b. s = a @ sub @ b)"
proof (induction s)
  case (Cons c s)
  show ?case
  proof
    assume "Contains (c # s) sub"
    then consider "HasPrefix (c # s) sub" | "Contains s sub" by auto
    then show "\<exists>a b. c # s = a @ sub @ b"
    proof cases
      case 1
      then show ?thesis by (metis HasPrefix_iff append_Nil)
    next
      case 2
      then show ?thesis using Cons.IH by (metis append_Cons)
    qed
  next
    assume "\<exists>a b. c # s = a @ sub @ b"
    then obtain a b where ab: "c # s = a @ sub @ b" by blast
    show "Contains (c # s) sub"
    proof (cases a)
      case Nil
      with ab have "HasPrefix (c # s) sub" by (metis HasPrefix_append append_Nil)
      then show ?thesis by simp
    next
      case (Cons x xs)
      with ab have "s = xs @ sub @ b" by simp
      then show ?thesis using Cons.IH by auto
    qed
  qed
qed auto

text \<open>Splitting a nonempty list: the first part is empty, or takes the head.\<close>

lemma ex_split_Cons:
  "(\<exists>p q. x # xs = p @ q \<and> A p q) \<longleftrightarrow> A [] (x # xs) \<or> (\<exists>p q. xs = p @ q \<and> A (x # p) q)"
proof (intro iffI; elim exE conjE disjE)
  fix p q assume "x # xs = p @ q" "A p q"
  then show "A [] (x # xs) \<or> (\<exists>p q. xs = p @ q \<and> A (x # p) q)" by (cases p) auto
next
  assume "A [] (x # xs)"
  then show "\<exists>p q. x # xs = p @ q \<and> A p q" by (metis append_Nil)
next
  fix p q assume "xs = p @ q" "A (x # p) q"
  then show "\<exists>p q. x # xs = p @ q \<and> A p q" by (metis append_Cons)
qed

lemma of_char_char_of_nat: "n < 256 \<Longrightarrow> of_char (char_of n) = (n :: nat)"
  by simp

lemma lower_char_idem [simp]: "lower_char (lower_char c) = lower_char c"
  by (auto simp: lower_char_def Let_def of_char_char_of_nat)

lemma ToLower_idem [simp]: "ToLower (ToLower s) = ToLower s"
  by (simp add: ToLower_def)

lemma length_ToLower [simp]: "length (ToLower s) = length s"
  by (simp add: ToLower_def)

lemma ToLower_append [simp]: "ToLower (s @ t) = ToLower s @ ToLower t"
  by (simp add: ToLower_def)

lemma ToLower_Nil [simp]: "ToLower [] = []" "ToLower s = [] \<longleftrightarrow> s = []"
  by (simp_all add: ToLower_def)

subsection \<open>Slices and 64-bit integers\<close>

text \<open>
  Go's \<^verbatim>\<open>int\<close> and \<^verbatim>\<open>int64\<close> are 64-bit two's complement. The model uses \<open>int\<close>
  and applies \<open>wrap64\<close> where an operand comes from outside and a sum may overflow. A slice
  expression panics out of range: \<open>go_slice\<close> is then \<open>None\<close>.
\<close>

definition wrap64 :: "int \<Rightarrow> int" where
  "wrap64 x = (x + 2 ^ 63) mod 2 ^ 64 - 2 ^ 63"

definition max_int64 :: int where
  "max_int64 = 2 ^ 63 - 1"

definition is_int64 :: "int \<Rightarrow> bool" where
  "is_int64 x \<longleftrightarrow> - (2 ^ 63) \<le> x \<and> x < 2 ^ 63"

lemma wrap64_id: "is_int64 x \<Longrightarrow> wrap64 x = x"
  by (auto simp: wrap64_def is_int64_def)

definition go_slice :: "int \<Rightarrow> int \<Rightarrow> 'a list \<Rightarrow> 'a list option" where
  "go_slice lo hi xs =
     (if 0 \<le> lo \<and> lo \<le> hi \<and> hi \<le> int (length xs)
      then Some (take (nat (hi - lo)) (drop (nat lo) xs)) else None)"

definition keep_last :: "nat \<Rightarrow> 'a list \<Rightarrow> 'a list" where
  "keep_last n xs = (if length xs > n then drop (length xs - n) xs else xs)"

lemma keep_last_drop: "keep_last n xs = drop (length xs - n) xs"
  by (simp add: keep_last_def)

lemma keep_last_append: "keep_last n (keep_last n xs @ ys) = keep_last n (xs @ ys)"
proof (cases "length xs \<le> n")
  case False
  then have "length ys + (length xs - n) = length xs + length ys - n" by simp
  with False show ?thesis by (simp add: keep_last_drop drop_append)
qed (simp add: keep_last_drop)

lemma length_keep_last: "length (keep_last n xs) = min n (length xs)"
  by (simp add: keep_last_def)

lemma length_keep_last_le [simp]: "length (keep_last n xs) \<le> n"
  by (simp add: keep_last_def)

lemma set_keep_last: "set (keep_last n xs) \<subseteq> set xs"
  by (auto simp: keep_last_def dest: in_set_dropD)

lemma keep_last_snoc: "0 < n \<Longrightarrow> keep_last n (xs @ [x]) = keep_last (n - 1) xs @ [x]"
  by (auto simp: keep_last_def)

lemma last_keep_last_snoc: "0 < n \<Longrightarrow> last (keep_last n (xs @ [x])) = x"
  by (simp add: keep_last_snoc)

subsection \<open>Maps\<close>

type_synonym ('k, 'v) gomap = "('k \<times> 'v) list"

definition wf_map :: "('k, 'v) gomap \<Rightarrow> bool" where
  "wf_map m \<longleftrightarrow> distinct (map fst m)"

abbreviation lookup :: "('k, 'v) gomap \<Rightarrow> 'k \<Rightarrow> 'v option" where
  "lookup \<equiv> map_of"

abbreviation put :: "'k \<Rightarrow> 'v \<Rightarrow> ('k, 'v) gomap \<Rightarrow> ('k, 'v) gomap" where
  "put \<equiv> AList.update"

abbreviation del :: "'k \<Rightarrow> ('k, 'v) gomap \<Rightarrow> ('k, 'v) gomap" where
  "del \<equiv> AList.delete"

text \<open>Reading a missing key of a Go map gives the zero value of its type.\<close>

definition get_or :: "'v \<Rightarrow> ('k, 'v) gomap \<Rightarrow> 'k \<Rightarrow> 'v" where
  "get_or z m k = (case lookup m k of None \<Rightarrow> z | Some v \<Rightarrow> v)"

text \<open>Deleting, in a \<^verbatim>\<open>range\<close> loop, the entries a test selects.\<close>

definition del_if :: "('k \<Rightarrow> 'v \<Rightarrow> bool) \<Rightarrow> ('k, 'v) gomap \<Rightarrow> ('k, 'v) gomap" where
  "del_if P m = filter (\<lambda>(k, v). \<not> P k v) m"

lemma wf_map_Nil [simp]: "wf_map []"
  by (simp add: wf_map_def)

lemma wf_map_put [simp]: "wf_map m \<Longrightarrow> wf_map (put k v m)"
  by (simp add: wf_map_def distinct_update)

lemma wf_map_del [simp]: "wf_map m \<Longrightarrow> wf_map (del k m)"
  by (simp add: wf_map_def distinct_delete)

lemma wf_map_filter: "wf_map m \<Longrightarrow> wf_map (filter P m)"
  unfolding wf_map_def by (induction m) auto

lemma wf_map_del_if [simp]: "wf_map m \<Longrightarrow> wf_map (del_if P m)"
  by (simp add: del_if_def wf_map_filter)

lemma lookup_put [simp]: "lookup (put k v m) k' = (if k' = k then Some v else lookup m k')"
  by (simp add: update_conv')

lemma lookup_del [simp]: "lookup (del k m) k' = (if k' = k then None else lookup m k')"
  by (simp add: delete_conv')

lemma lookup_filter:
  "wf_map m \<Longrightarrow> lookup (filter P m) k =
     (case lookup m k of None \<Rightarrow> None | Some v \<Rightarrow> if P (k, v) then Some v else None)"
proof (induction m)
  case Nil
  then show ?case by simp
next
  case (Cons kv m)
  obtain a b where [simp]: "kv = (a, b)" by (cases kv)
  from Cons.prems have m: "wf_map m" and a: "a \<notin> fst ` set m"
    by (auto simp: wf_map_def)
  then have "lookup m a = None" by (simp add: map_of_eq_None_iff)
  with Cons.IH[OF m] show ?case by auto
qed

lemma lookup_del_if:
  "wf_map m \<Longrightarrow> lookup (del_if P m) k =
     (case lookup m k of None \<Rightarrow> None | Some v \<Rightarrow> if P k v then None else Some v)"
  by (auto simp: del_if_def lookup_filter split: option.splits)

lemma in_set_lookup: "wf_map m \<Longrightarrow> (k, v) \<in> set m \<longleftrightarrow> lookup m k = Some v"
  by (auto simp: wf_map_def)

lemma get_or_put [simp]: "get_or z (put k v m) k' = (if k' = k then v else get_or z m k')"
  by (simp add: get_or_def)

lemma get_or_del [simp]: "get_or z (del k m) k' = (if k' = k then z else get_or z m k')"
  by (simp add: get_or_def)

lemmas go_map_rules [go_map] = lookup_put lookup_del lookup_del_if get_or_put get_or_del

text \<open>A put stores at most one new entry; a delete stores none.\<close>

lemma length_put: "length (put k v m) = (if lookup m k = None then Suc (length m) else length m)"
  by (induction m) (auto simp: map_of_eq_None_iff)

lemma length_del_le: "length (del k m) \<le> length m"
  by (simp add: AList.delete_eq)

lemma length_del: "wf_map m \<Longrightarrow> lookup m k = Some v \<Longrightarrow> Suc (length (del k m)) = length m"
proof (induction m)
  case (Cons kv m)
  obtain a b where [simp]: "kv = (a, b)" by (cases kv)
  from Cons.prems have m: "wf_map m" and a: "a \<notin> fst ` set m" by (auto simp: wf_map_def)
  show ?case
  proof (cases "a = k")
    case True
    with a have "del k m = m" by (simp add: delete_idem)
    with True show ?thesis by simp
  next
    case False
    with Cons m show ?thesis by auto
  qed
qed simp

lemma lookup_butlast:
  assumes "wf_map m" "m \<noteq> []"
  shows "lookup (butlast m) k = (if k = fst (last m) then None else lookup m k)"
proof -
  obtain xs a b where m: "m = xs @ [(a, b)]"
    using assms(2) by (metis rev_exhaust surj_pair)
  with assms(1) have "a \<notin> fst ` set xs" by (auto simp: wf_map_def)
  then have "lookup xs a = None" by (simp add: map_of_eq_None_iff)
  with m show ?thesis by (auto simp: map_add_def split: option.split)
qed

lemma wf_map_butlast: "wf_map m \<Longrightarrow> wf_map (butlast m)"
  by (simp add: wf_map_def map_butlast distinct_butlast)

lemma set_put_subset: "set (put k v m) \<subseteq> insert (k, v) (set m)"
  by (induction m) auto

text \<open>Filling a map in a loop: the last element of a key wins.\<close>

lemma lookup_fold_put:
  "lookup (foldl (\<lambda>m x. put (f x) (g x) m) m0 xs) k =
     (case find (\<lambda>x. f x = k) (rev xs) of None \<Rightarrow> lookup m0 k | Some x \<Rightarrow> Some (g x))"
  by (induction xs rule: rev_induct) auto

lemma wf_map_fold_put: "wf_map m0 \<Longrightarrow> wf_map (foldl (\<lambda>m x. put (f x) (g x) m) m0 xs)"
  by (induction xs rule: rev_induct) auto

lemma find_rev_None: "find P (rev xs) = None \<longleftrightarrow> (\<forall>x\<in>set xs. \<not> P x)"
  by (auto simp: find_None_iff)

lemma find_SomeD: "find P xs = Some x \<Longrightarrow> x \<in> set xs \<and> P x"
  by (auto simp: find_Some_iff)

lemma map_keys_iff: "k \<in> fst ` set m \<longleftrightarrow> lookup m k \<noteq> None"
  by (metis map_of_eq_None_iff)

subsection \<open>Distinct lists in first-occurrence order\<close>

fun unique_from :: "'a set \<Rightarrow> 'a list \<Rightarrow> 'a list" where
  "unique_from seen [] = []"
| "unique_from seen (x # xs) =
     (if x \<in> seen then unique_from seen xs else x # unique_from (insert x seen) xs)"

lemma set_unique_from: "set (unique_from seen xs) = set xs - seen"
  by (induction xs arbitrary: seen) auto

lemma distinct_unique_from: "distinct (unique_from seen xs)"
  by (induction xs arbitrary: seen) (auto simp: set_unique_from)

lemma unique_from_id: "distinct xs \<Longrightarrow> set xs \<inter> seen = {} \<Longrightarrow> unique_from seen xs = xs"
  by (induction xs arbitrary: seen) auto

subsection \<open>Sorting by a key with no ties\<close>

lemma sort_key_unique:
  fixes f :: "'a \<Rightarrow> 'b::linorder"
  assumes "mset xs = mset ys" and "distinct (map f xs)"
  shows "sort_key f xs = sort_key f ys"
proof (rule properties_for_sort_key)
  show "mset (sort_key f ys) = mset xs" using assms(1) by simp
  have inj: "inj_on f (set xs)" using assms(2) by (simp add: distinct_map)
  have dy: "distinct (map f ys)"
    using assms by (metis mset_eq_imp_distinct_iff mset_map)
  show "filter (\<lambda>y. f k = f y) (sort_key f ys) = filter (\<lambda>x. f k = f x) xs"
    if k: "k \<in> set (sort_key f ys)" for k
  proof -
    have kx: "k \<in> set xs" using k assms(1) by (metis set_sort mset_eq_setD)
    have one: "filter (\<lambda>x. f k = f x) zs = [k]"
      if "distinct (map f zs)" "k \<in> set zs" for zs
      using that
    proof (induction zs)
      case (Cons z zs)
      show ?case
      proof (cases "z = k")
        case True
        then have "\<forall>x\<in>set zs. f k \<noteq> f x" using Cons.prems(1) by force
        then have "filter (\<lambda>x. f k = f x) zs = []" by (simp add: filter_empty_conv)
        with True show ?thesis by simp
      next
        case False
        then have "k \<in> set zs" using Cons.prems(2) by simp
        moreover have "f k \<noteq> f z" using Cons.prems(1) calculation by (auto simp: image_iff)
        ultimately show ?thesis using Cons by simp
      qed
    qed simp
    have "distinct (map f (sort_key f ys))"
      using dy by (metis mset_eq_imp_distinct_iff mset_map mset_sort)
    then show ?thesis using one[OF assms(2) kx] one[of "sort_key f ys"] k by simp
  qed
  show "sorted (map f (sort_key f ys))" by simp
qed

subsection \<open>Splitting\<close>

text \<open>\<^verbatim>\<open>strings.Split\<close> by a separator of one byte, with the bytes of the current piece.\<close>

fun split_on :: "char \<Rightarrow> string \<Rightarrow> string \<Rightarrow> string list" where
  "split_on c acc [] = [rev acc]"
| "split_on c acc (x # xs) =
     (if x = c then rev acc # split_on c [] xs else split_on c (x # acc) xs)"

lemma split_on_acc: "split_on c acc s = (case split_on c [] s of [] \<Rightarrow> [] | x # xs \<Rightarrow> (rev acc @ x) # xs)"
proof (induction s arbitrary: acc)
  case (Cons a s)
  show ?case
  proof (cases "a = c")
    case False
    then show ?thesis using Cons[of "a # acc"] Cons[of "[a]"] by (auto split: list.split)
  qed simp
qed simp

lemma split_on_ne [simp]: "split_on c acc s \<noteq> []"
  by (induction s arbitrary: acc) auto

end
