(* ===== verification/Policy.thy ===== *)
theory Policy
  imports Go_Prelude
begin

text \<open>
  The policy rules of \<^verbatim>\<open>internal/policy/policy.go\<close>: the YAML rule (\<open>Rule\<close>), its
  compiled form (\<open>CRule\<close>), globs as anchored regular expressions, loading a directory of
  policy files with validation, and the match of a request.

  The YAML decoder is third-party code: \<open>Load\<close> takes it as the parameter \<open>unmarshal\<close>, from
  file contents to a decoded file. A list item that YAML decodes to null is a nil rule pointer
  (\<open>None\<close>). Text is ASCII, where a regular expression's characters are bytes.
\<close>

subsection \<open>Globs\<close>

datatype re_item = DotStar | Dot | Lit char

definition newline :: char where
  "newline = CHR 0x0A"

definition compileGlob :: "string \<Rightarrow> re_item list" where
  "compileGlob glob =
     (if glob = [] then [DotStar]
      else map (\<lambda>r. if r = CHR ''*'' then DotStar else if r = CHR ''?'' then Dot else Lit r) glob)"

text \<open>
  \<^verbatim>\<open>MatchString\<close> of the regular expression anchored at both ends. Without the \<^verbatim>\<open>s\<close>
  flag, a dot of Go's \<^verbatim>\<open>regexp\<close> does not match a newline.
\<close>

fun MatchString :: "re_item list \<Rightarrow> string \<Rightarrow> bool" where
  "MatchString [] s \<longleftrightarrow> s = []"
| "MatchString (Lit c # r) s \<longleftrightarrow> (case s of [] \<Rightarrow> False | x # xs \<Rightarrow> x = c \<and> MatchString r xs)"
| "MatchString (Dot # r) s \<longleftrightarrow>
     (case s of [] \<Rightarrow> False | x # xs \<Rightarrow> x \<noteq> newline \<and> MatchString r xs)"
| "MatchString (DotStar # r) [] \<longleftrightarrow> MatchString r []"
| "MatchString (DotStar # r) (x # xs) \<longleftrightarrow>
     MatchString r (x # xs) \<or> x \<noteq> newline \<and> MatchString (DotStar # r) xs"

text \<open>The language of a pattern: one part of the text per item.\<close>

fun part_ok :: "re_item \<Rightarrow> string \<Rightarrow> bool" where
  "part_ok (Lit c) p \<longleftrightarrow> p = [c]"
| "part_ok Dot p \<longleftrightarrow> (\<exists>x. p = [x] \<and> x \<noteq> newline)"
| "part_ok DotStar p \<longleftrightarrow> newline \<notin> set p"

definition glob_lang :: "re_item list \<Rightarrow> string \<Rightarrow> bool" where
  "glob_lang r s \<longleftrightarrow> (\<exists>ps. list_all2 part_ok r ps \<and> concat ps = s)"

lemma glob_lang_Nil: "glob_lang [] s \<longleftrightarrow> s = []"
  by (auto simp: glob_lang_def)

lemma glob_lang_Cons:
  "glob_lang (i # r) s \<longleftrightarrow> (\<exists>p q. s = p @ q \<and> part_ok i p \<and> glob_lang r q)"
  unfolding glob_lang_def
  by (auto simp: list_all2_Cons1) (metis concat.simps(2) list.rel_intros(2))+

lemma glob_lang_one:
  "glob_lang (Lit c # r) (x # xs) \<longleftrightarrow> x = c \<and> glob_lang r xs"
  "glob_lang (Dot # r) (x # xs) \<longleftrightarrow> x \<noteq> newline \<and> glob_lang r xs"
  "glob_lang (DotStar # r) (x # xs) \<longleftrightarrow>
     glob_lang r (x # xs) \<or> x \<noteq> newline \<and> glob_lang (DotStar # r) xs"
  by (simp_all add: glob_lang_Cons ex_split_Cons) auto

lemma glob_lang_empty:
  "\<not> glob_lang (Lit c # r) []" "\<not> glob_lang (Dot # r) []"
  "glob_lang (DotStar # r) [] \<longleftrightarrow> glob_lang r []"
  by (simp_all add: glob_lang_Cons)

lemma MatchString_lang: "MatchString r s \<longleftrightarrow> glob_lang r s"
  by (induction r s rule: MatchString.induct)
    (simp_all add: glob_lang_Nil glob_lang_one glob_lang_empty split: list.splits)

subsection \<open>Rules\<close>

definition ActionStub :: string where "ActionStub = ''stub''"
definition ActionForwardScrubbed :: string where "ActionForwardScrubbed = ''forward-scrubbed''"
definition ActionForwardMimic :: string where "ActionForwardMimic = ''forward-mimic''"
definition ActionForwardAsis :: string where "ActionForwardAsis = ''forward-asis''"
definition ActionPassthrough :: string where "ActionPassthrough = ''passthrough''"

lemmas action_defs = ActionStub_def ActionForwardScrubbed_def ActionForwardMimic_def
  ActionForwardAsis_def ActionPassthrough_def

definition validAction :: "string \<Rightarrow> bool" where
  "validAction a \<longleftrightarrow> a \<in> {ActionStub, ActionForwardScrubbed, ActionForwardMimic,
     ActionForwardAsis, ActionPassthrough}"

record PMatch =
  pm_Domain :: string
  pm_Path :: string
  pm_Method :: "string list"

record Rule =
  r_Name :: string
  r_Priority :: int
  r_Match :: PMatch
  r_Action :: string
  r_Catalog :: string

text \<open>The compiled rule: the YAML part and what \<^verbatim>\<open>compile\<close> fills in (\<open>None\<close>: nil map).\<close>

record CRule = Rule +
  r_domainRe :: "re_item list"
  r_pathRe :: "re_item list"
  r_methods :: "string list option"

record Default =
  df_Action :: string
  df_Catalog :: string

record policyFile =
  pf_Rules :: "Rule option list"
  pf_Default :: "Default option"

record Decision =
  d_Action :: string
  d_Catalog :: string
  d_Rule :: string
  d_Matched :: bool

record Ruleset =
  rs_rules :: "CRule list"
  rs_def :: Decision

definition rule_compile :: "Rule \<Rightarrow> CRule outcome" where
  "rule_compile r =
     (if r_Name r = [] then Fail (Err ''rule has no name'')
      else if \<not> validAction (r_Action r) then Fail (Err (''invalid action '' @ quote (r_Action r)))
      else if r_Action r = ActionStub \<and> r_Catalog r = []
        then Fail (Err ''stub action requires a catalog entry'')
      else Ok \<lparr>r_Name = r_Name r, r_Priority = r_Priority r, r_Match = r_Match r,
               r_Action = r_Action r, r_Catalog = r_Catalog r,
               r_domainRe = compileGlob (pm_Domain (r_Match r)),
               r_pathRe = compileGlob (pm_Path (r_Match r)),
               r_methods = (if pm_Method (r_Match r) \<noteq> []
                            then Some (map ToUpper (pm_Method (r_Match r))) else None)\<rparr>)"

subsection \<open>Loading a policy directory\<close>

text \<open>
  A directory entry with the outcome of reading it; entries come in the order of
  \<^verbatim>\<open>os.ReadDir\<close>. Entry names hold no slash, and \<open>dir\<close> is a clean path.
\<close>

record dir_entry =
  de_Name :: string
  de_IsDir :: bool
  de_Raw :: "error + string"

definition Ext :: "string \<Rightarrow> string" where
  "Ext name = (if CHR ''.'' \<in> set name
     then CHR ''.'' # rev (takeWhile (\<lambda>c. c \<noteq> CHR ''.'') (rev name)) else [])"

definition is_policy_file :: "dir_entry \<Rightarrow> bool" where
  "is_policy_file e \<longleftrightarrow> \<not> de_IsDir e \<and> ToLower (Ext (de_Name e)) \<in> {''.yaml'', ''.yml''}"

fun load_rules ::
  "string \<Rightarrow> Rule option list \<Rightarrow> string list \<Rightarrow> CRule list \<Rightarrow> (string list \<times> CRule list) outcome" where
  "load_rules fname [] names acc = Ok (names, acc)"
| "load_rules fname (None # rs) names acc = Panic"
| "load_rules fname (Some r # rs) names acc =
     (case rule_compile r of
        Panic \<Rightarrow> Panic
      | Fail e \<Rightarrow> Fail (Err (fname @ '': rule '' @ quote (r_Name r) @ '': '' @ error_text e))
      | Ok c \<Rightarrow>
          if r_Name r \<in> set names
          then Fail (Err (fname @ '': duplicate rule name '' @ quote (r_Name r)))
          else load_rules fname rs (r_Name r # names) (acc @ [c]))"

definition load_default :: "string \<Rightarrow> Default option \<Rightarrow> Decision \<Rightarrow> Decision outcome" where
  "load_default fname df d =
     (case df of
        None \<Rightarrow> Ok d
      | Some x \<Rightarrow>
          if \<not> validAction (df_Action x)
          then Fail (Err (fname @ '': invalid default action '' @ quote (df_Action x)))
          else Ok \<lparr>d_Action = df_Action x, d_Catalog = df_Catalog x, d_Rule = [], d_Matched = False\<rparr>)"

fun load_files ::
  "(string \<Rightarrow> error + policyFile) \<Rightarrow> string \<Rightarrow> dir_entry list \<Rightarrow> string list \<Rightarrow> CRule list \<Rightarrow> Decision
   \<Rightarrow> (CRule list \<times> Decision) outcome" where
  "load_files unmarshal dir [] names rules d = Ok (rules, d)"
| "load_files unmarshal dir (e # es) names rules d =
     (if \<not> is_policy_file e then load_files unmarshal dir es names rules d
      else
        (let path = dir @ ''/'' @ de_Name e in
         case de_Raw e of
           Inl err \<Rightarrow> Fail (Err (''read '' @ path @ '': '' @ error_text err))
         | Inr raw \<Rightarrow>
            (case unmarshal raw of
               Inl err \<Rightarrow> Fail (Err (''parse '' @ path @ '': '' @ error_text err))
             | Inr pf \<Rightarrow>
                obind (load_rules (de_Name e) (pf_Rules pf) names rules)
                  (\<lambda>(names', rules').
                     obind (load_default (de_Name e) (pf_Default pf) d)
                       (\<lambda>d'. load_files unmarshal dir es names' rules' d')))))"

definition safe_default :: Decision where
  "safe_default = \<lparr>d_Action = ActionStub, d_Catalog = ''beacon-204'', d_Rule = [], d_Matched = False\<rparr>"

definition Load ::
  "(string \<Rightarrow> error + policyFile) \<Rightarrow> string \<Rightarrow> error + dir_entry list \<Rightarrow> Ruleset outcome" where
  "Load unmarshal dir entries =
     (case entries of
        Inl err \<Rightarrow>
          if err = ErrNotExist then Ok \<lparr>rs_rules = [], rs_def = safe_default\<rparr>
          else Fail (Err (''read policy dir: '' @ error_text err))
      | Inr es \<Rightarrow>
          obind (load_files unmarshal dir es [] [] safe_default)
            (\<lambda>(rules, d). Ok \<lparr>rs_rules = sort_key r_Priority rules, rs_def = d\<rparr>))"

fun validate_rules :: "Rule option list \<Rightarrow> unit outcome" where
  "validate_rules [] = Ok ()"
| "validate_rules (None # rs) = Panic"
| "validate_rules (Some r # rs) =
     (case rule_compile r of
        Panic \<Rightarrow> Panic
      | Fail e \<Rightarrow> Fail (Err (''rule '' @ quote (r_Name r) @ '': '' @ error_text e))
      | Ok c \<Rightarrow> validate_rules rs)"

definition ValidateBytes :: "(string \<Rightarrow> error + policyFile) \<Rightarrow> string \<Rightarrow> unit outcome" where
  "ValidateBytes unmarshal raw =
     (case unmarshal raw of
        Inl err \<Rightarrow> Fail err
      | Inr pf \<Rightarrow>
          obind (validate_rules (pf_Rules pf))
            (\<lambda>_. case pf_Default pf of
                   Some df \<Rightarrow> if \<not> validAction (df_Action df)
                     then Fail (Err (''invalid default action '' @ quote (df_Action df))) else Ok ()
                 | None \<Rightarrow> Ok ()))"

subsection \<open>Matching\<close>

definition catalog_add :: "string list \<Rightarrow> string \<Rightarrow> string list" where
  "catalog_add out n = (if n \<noteq> [] \<and> n \<notin> set out then out @ [n] else out)"

definition CatalogRefs :: "Ruleset \<Rightarrow> string list" where
  "CatalogRefs rs =
     (let out = foldl (\<lambda>out r. if r_Action r = ActionStub then catalog_add out (r_Catalog r) else out)
                  [] (rs_rules rs)
      in if d_Action (rs_def rs) = ActionStub then catalog_add out (d_Catalog (rs_def rs)) else out)"

definition rule_applies :: "CRule \<Rightarrow> string \<Rightarrow> string \<Rightarrow> string \<Rightarrow> bool" where
  "rule_applies r domain path method \<longleftrightarrow>
     \<not> (case r_methods r of None \<Rightarrow> False | Some ms \<Rightarrow> method \<notin> set ms) \<and>
     MatchString (r_domainRe r) domain \<and> MatchString (r_pathRe r) path"

fun match_rules :: "CRule list \<Rightarrow> Decision \<Rightarrow> string \<Rightarrow> string \<Rightarrow> string \<Rightarrow> Decision" where
  "match_rules [] def domain path method = def\<lparr>d_Matched := False\<rparr>"
| "match_rules (r # rs) def domain path method =
     (if rule_applies r domain path method
      then \<lparr>d_Action = r_Action r, d_Catalog = r_Catalog r, d_Rule = r_Name r, d_Matched = True\<rparr>
      else match_rules rs def domain path method)"

definition Ruleset_Match :: "Ruleset \<Rightarrow> string \<Rightarrow> string \<Rightarrow> string \<Rightarrow> Decision" where
  "Ruleset_Match rs domain path method =
     match_rules (rs_rules rs) (rs_def rs) (ToLower (TrimSuffix domain ''.'')) path (ToUpper method)"

subsection \<open>Facts about globs\<close>

text \<open>A glob read directly: a star is any run without a newline, a question mark any one such
  character.\<close>

definition glob_part :: "char \<Rightarrow> string \<Rightarrow> bool" where
  "glob_part g p \<longleftrightarrow>
     (if g = CHR ''*'' then newline \<notin> set p
      else if g = CHR ''?'' then length p = 1 \<and> newline \<notin> set p
      else p = [g])"

definition glob_spec :: "string \<Rightarrow> string \<Rightarrow> bool" where
  "glob_spec g s \<longleftrightarrow>
     (if g = [] then newline \<notin> set s else (\<exists>ps. list_all2 glob_part g ps \<and> concat ps = s))"

lemma part_ok_item:
  "part_ok (if g = CHR ''*'' then DotStar else if g = CHR ''?'' then Dot else Lit g) = glob_part g"
proof
  fix p
  have one: "(\<exists>x. p = [x] \<and> x \<noteq> newline) \<longleftrightarrow> length p = 1 \<and> newline \<notin> set p"
  proof (cases p)
    case (Cons x xs)
    then show ?thesis by (cases xs) auto
  qed simp
  show "part_ok (if g = CHR ''*'' then DotStar else if g = CHR ''?'' then Dot else Lit g) p
    = glob_part g p"
    using one by (cases "g = CHR ''*''"; cases "g = CHR ''?''") (simp_all add: glob_part_def)
qed

lemma MatchString_glob: "MatchString (compileGlob g) s \<longleftrightarrow> glob_spec g s"
proof (cases "g = []")
  case True
  then show ?thesis
    by (auto simp: MatchString_lang compileGlob_def glob_lang_Cons glob_lang_Nil glob_spec_def)
next
  case False
  then show ?thesis
    by (simp add: MatchString_lang glob_lang_def glob_spec_def compileGlob_def list_all2_map1
        part_ok_item)
qed

lemma glob_spec_chars:
  assumes "glob_spec g s" "c \<in> set s" "newline \<notin> set g"
  shows "c \<noteq> newline"
proof (cases "g = []")
  case False
  then obtain ps where ps: "list_all2 glob_part g ps" "concat ps = s"
    using assms(1) by (auto simp: glob_spec_def)
  then obtain p where p: "p \<in> set ps" "c \<in> set p" using assms(2) by auto
  then obtain x where "x \<in> set g" "glob_part x p"
    using ps(1) by (metis in_set_conv_nth list_all2_conv_all_nth)
  with p assms(3) show ?thesis by (auto simp: glob_part_def split: if_splits)
qed (use assms in \<open>auto simp: glob_spec_def\<close>)

lemma glob_spec_literal:
  assumes "glob_spec g s" "c \<in> set g" "c \<noteq> CHR ''*''" "c \<noteq> CHR ''?''"
  shows "c \<in> set s"
proof -
  obtain ps where ps: "list_all2 glob_part g ps" "concat ps = s"
    using assms(1,2) by (auto simp: glob_spec_def split: if_splits)
  then obtain p where "p \<in> set ps" "glob_part c p"
    using assms(2) by (metis in_set_conv_nth list_all2_conv_all_nth)
  with ps(2) assms(3,4) show ?thesis by (force simp: glob_part_def)
qed

subsection \<open>The ruleset invariant\<close>

definition rule_ok :: "CRule \<Rightarrow> bool" where
  "rule_ok r \<longleftrightarrow> r_Name r \<noteq> [] \<and> validAction (r_Action r) \<and>
     (r_Action r = ActionStub \<longrightarrow> r_Catalog r \<noteq> []) \<and>
     r_domainRe r = compileGlob (pm_Domain (r_Match r)) \<and>
     r_pathRe r = compileGlob (pm_Path (r_Match r)) \<and>
     r_methods r = (case pm_Method (r_Match r) of [] \<Rightarrow> None | ms \<Rightarrow> Some (map ToUpper ms))"

definition ruleset_ok :: "Ruleset \<Rightarrow> bool" where
  "ruleset_ok rs \<longleftrightarrow> list_all rule_ok (rs_rules rs) \<and> distinct (map r_Name (rs_rules rs)) \<and>
     sorted (map r_Priority (rs_rules rs)) \<and> validAction (d_Action (rs_def rs)) \<and>
     \<not> d_Matched (rs_def rs) \<and> d_Rule (rs_def rs) = []"

lemma rule_compile_ok: "rule_compile r = Ok c \<Longrightarrow> rule_ok c \<and> r_Name c = r_Name r"
  by (auto simp: rule_compile_def rule_ok_def split: if_splits list.splits)

lemma load_rules_inv:
  "load_rules f rs names acc = Ok (names', acc') \<Longrightarrow>
   set names = set (map r_Name acc) \<Longrightarrow> list_all rule_ok acc \<Longrightarrow> distinct (map r_Name acc) \<Longrightarrow>
   set names' = set (map r_Name acc') \<and> list_all rule_ok acc' \<and> distinct (map r_Name acc')"
proof (induction f rs names acc rule: load_rules.induct)
  case (3 fname r rs names acc)
  then show ?case
    by (cases "rule_compile r") (auto split: if_splits dest: rule_compile_ok)
qed auto

definition def_ok :: "Decision \<Rightarrow> bool" where
  "def_ok d \<longleftrightarrow> validAction (d_Action d) \<and> \<not> d_Matched d \<and> d_Rule d = []"

lemma load_default_inv: "load_default f df d = Ok d' \<Longrightarrow> def_ok d \<Longrightarrow> def_ok d'"
  by (auto simp: load_default_def def_ok_def split: option.splits if_splits)

lemma load_files_step:
  assumes "load_files u dir (e # es) names rules d = Ok res" and "is_policy_file e"
  obtains raw pf n1 r1 d1 where "de_Raw e = Inr raw" "u raw = Inr pf"
    "load_rules (de_Name e) (pf_Rules pf) names rules = Ok (n1, r1)"
    "load_default (de_Name e) (pf_Default pf) d = Ok d1"
    "load_files u dir es n1 r1 d1 = Ok res"
  using assms by (auto simp: Let_def obind_Ok_iff split: sum.splits)

lemma load_files_inv:
  "load_files u dir es names rules d = Ok (rules', d') \<Longrightarrow>
   set names = set (map r_Name rules) \<Longrightarrow> list_all rule_ok rules \<Longrightarrow> distinct (map r_Name rules) \<Longrightarrow>
   def_ok d \<Longrightarrow> list_all rule_ok rules' \<and> distinct (map r_Name rules') \<and> def_ok d'"
proof (induction es arbitrary: names rules d)
  case (Cons e es)
  show ?case
  proof (cases "is_policy_file e")
    case False
    with Cons show ?thesis by (auto simp: Let_def)
  next
    case True
    from load_files_step[OF Cons.prems(1) True] obtain raw pf n1 r1 d1 where
      "de_Raw e = Inr raw" "u raw = Inr pf" and
      "load_rules (de_Name e) (pf_Rules pf) names rules = Ok (n1, r1)"
      "load_default (de_Name e) (pf_Default pf) d = Ok d1"
      "load_files u dir es n1 r1 d1 = Ok (rules', d')" .
    with Cons.IH[of n1 r1 d1] Cons.prems show ?thesis
      by (blast dest: load_rules_inv load_default_inv)
  qed
qed simp

lemma Load_ruleset_ok: "Load u dir es = Ok rs \<Longrightarrow> ruleset_ok rs"
proof -
  assume L: "Load u dir es = Ok rs"
  have safe: "def_ok safe_default"
    by (simp add: def_ok_def safe_default_def validAction_def)
  show ?thesis
  proof (cases es)
    case (Inl err)
    with L safe show ?thesis
      by (auto simp: Load_def ruleset_ok_def def_ok_def split: if_splits)
  next
    case (Inr l)
    with L obtain rules d where
      "load_files u dir l [] [] safe_default = Ok (rules, d)"
      and rs: "rs = \<lparr>rs_rules = sort_key r_Priority rules, rs_def = d\<rparr>"
      by (auto simp: Load_def obind_Ok_iff)
    then have r: "list_all rule_ok rules" "distinct (map r_Name rules)" "def_ok d"
      using load_files_inv[of u dir l "[]" "[]" safe_default rules d] safe by auto
    have "distinct (map r_Name (sort_key r_Priority rules))"
      using r(2) by (metis mset_eq_imp_distinct_iff mset_map mset_sort)
    with r rs show ?thesis
      by (simp add: ruleset_ok_def def_ok_def list_all_iff)
  qed
qed

text \<open>Loading keeps every rule of every policy file, in file order before the sort.\<close>

definition decodes :: "(string \<Rightarrow> error + policyFile) \<Rightarrow> dir_entry \<Rightarrow> policyFile \<Rightarrow> bool" where
  "decodes u e pf \<longleftrightarrow> (\<exists>raw. de_Raw e = Inr raw \<and> u raw = Inr pf)"

definition compiles_to :: "Rule option \<Rightarrow> CRule \<Rightarrow> bool" where
  "compiles_to r c \<longleftrightarrow> (\<exists>x. r = Some x \<and> rule_compile x = Ok c)"

lemma load_rules_all:
  "load_rules f rs names acc = Ok (names', acc') \<Longrightarrow>
   \<exists>cs. acc' = acc @ cs \<and> list_all2 compiles_to rs cs"
proof (induction f rs names acc rule: load_rules.induct)
  case (3 fname r rs names acc)
  then obtain c where c: "rule_compile r = Ok c"
    and rest: "load_rules fname rs (r_Name r # names) (acc @ [c]) = Ok (names', acc')"
    and fresh: "r_Name r \<notin> set names"
    by (auto split: outcome.splits if_splits)
  from "3.IH"[OF c fresh rest] obtain cs where
    "acc' = (acc @ [c]) @ cs" "list_all2 compiles_to rs cs" by blast
  moreover have "compiles_to (Some r) c" using c by (simp add: compiles_to_def)
  ultimately show ?case by (intro exI[of _ "c # cs"]) simp
qed auto

lemma load_files_all:
  "load_files u dir es names rules d = Ok (rules', d') \<Longrightarrow>
   \<exists>pfs cs. list_all2 (decodes u) (filter is_policy_file es) pfs \<and>
     list_all2 compiles_to (concat (map pf_Rules pfs)) cs \<and> rules' = rules @ cs"
proof (induction es arbitrary: names rules d)
  case (Cons e es)
  show ?case
  proof (cases "is_policy_file e")
    case False
    with Cons show ?thesis by (auto simp: Let_def)
  next
    case True
    from load_files_step[OF Cons.prems True] obtain raw pf n1 r1 d1 where
      pf: "de_Raw e = Inr raw" "u raw = Inr pf" and
      r1: "load_rules (de_Name e) (pf_Rules pf) names rules = Ok (n1, r1)" and
      rest: "load_files u dir es n1 r1 d1 = Ok (rules', d')" .
    from load_rules_all[OF r1] obtain c1 where
      c1: "r1 = rules @ c1" "list_all2 compiles_to (pf_Rules pf) c1" by blast
    from Cons.IH[OF rest] obtain pfs cs where
      "list_all2 (decodes u) (filter is_policy_file es) pfs"
      "list_all2 compiles_to (concat (map pf_Rules pfs)) cs" "rules' = r1 @ cs" by blast
    moreover have "decodes u e pf" using pf by (auto simp: decodes_def)
    ultimately show ?thesis
      using True c1 by (intro exI[of _ "pf # pfs"] exI[of _ "c1 @ cs"]) (auto intro: list_all2_appendI)
  qed
qed auto

subsection \<open>The match loop\<close>

lemma match_rules_find:
  "match_rules rs def domain path method =
     (case filter (\<lambda>r. rule_applies r domain path method) rs of
        [] \<Rightarrow> def\<lparr>d_Matched := False\<rparr>
      | r # _ \<Rightarrow> \<lparr>d_Action = r_Action r, d_Catalog = r_Catalog r, d_Rule = r_Name r, d_Matched = True\<rparr>)"
  by (induction rs) auto

lemma sorted_hd_filter:
  "sorted (map f xs) \<Longrightarrow> filter P xs = y # ys \<Longrightarrow> x \<in> set (y # ys) \<Longrightarrow> f y \<le> f x"
proof -
  assume s: "sorted (map f xs)" and f: "filter P xs = y # ys" and x: "x \<in> set (y # ys)"
  have "sorted (map f (filter P xs))" using s by (rule sorted_filter)
  with f x show ?thesis by auto
qed

lemma set_catalog_add: "set (catalog_add out n) = set out \<union> ({n} - {[]})"
  by (auto simp: catalog_add_def)

lemma set_catalog_fold:
  "set (foldl (\<lambda>out r. if r_Action r = ActionStub then catalog_add out (r_Catalog r) else out) out rs)
   = set out \<union> {r_Catalog r |r. r \<in> set rs \<and> r_Action r = ActionStub \<and> r_Catalog r \<noteq> []}"
  by (induction rs arbitrary: out) (auto simp: set_catalog_add)

lemma set_CatalogRefs:
  "set (CatalogRefs rs) =
     {r_Catalog r |r. r \<in> set (rs_rules rs) \<and> r_Action r = ActionStub \<and> r_Catalog r \<noteq> []} \<union>
     (if d_Action (rs_def rs) = ActionStub then {d_Catalog (rs_def rs)} - {[]} else {})"
  by (auto simp: CatalogRefs_def Let_def set_catalog_add set_catalog_fold)

lemma Match_cases:
  obtains r where "r \<in> set (rs_rules rs)"
    "rule_applies r (ToLower (TrimSuffix domain ''.'')) path (ToUpper method)"
    "Ruleset_Match rs domain path method =
       \<lparr>d_Action = r_Action r, d_Catalog = r_Catalog r, d_Rule = r_Name r, d_Matched = True\<rparr>"
  | "Ruleset_Match rs domain path method = (rs_def rs)\<lparr>d_Matched := False\<rparr>"
    "\<forall>r\<in>set (rs_rules rs).
       \<not> rule_applies r (ToLower (TrimSuffix domain ''.'')) path (ToUpper method)"
proof -
  let ?P = "\<lambda>r. rule_applies r (ToLower (TrimSuffix domain ''.'')) path (ToUpper method)"
  show ?thesis
  proof (cases "filter ?P (rs_rules rs)")
    case Nil
    then have "\<forall>r\<in>set (rs_rules rs). \<not> ?P r" by (simp add: filter_empty_conv)
    with Nil that(2) show ?thesis by (simp add: Ruleset_Match_def match_rules_find)
  next
    case (Cons r rs')
    then have "r \<in> set (rs_rules rs)" "?P r" by (auto dest: filter_eq_ConsD)
    with Cons that(1) show ?thesis by (simp add: Ruleset_Match_def match_rules_find)
  qed
qed

subsection \<open>Validation of one document\<close>

definition compilable :: "Rule option \<Rightarrow> bool" where
  "compilable r \<longleftrightarrow> (\<exists>c. compiles_to r c)"

lemma validate_rules_Panic:
  "validate_rules rs = Panic \<longleftrightarrow> (\<exists>pre post. rs = pre @ None # post \<and> list_all compilable pre)"
proof (induction rs rule: validate_rules.induct)
  case (2 rs)
  show ?case by (auto intro: exI[of _ "[]"])
next
  case (3 r rs)
  have split: "(\<exists>pre post. Some r # rs = pre @ None # post \<and> list_all compilable pre) \<longleftrightarrow>
    (\<exists>pre post. rs = pre @ None # post \<and> compilable (Some r) \<and> list_all compilable pre)"
  proof (intro iffI; elim exE conjE)
    fix pre post assume "Some r # rs = pre @ None # post" "list_all compilable pre"
    then show "\<exists>pre post. rs = pre @ None # post \<and> compilable (Some r) \<and> list_all compilable pre"
      by (cases pre) auto
  next
    fix pre post assume "rs = pre @ None # post" "compilable (Some r)" "list_all compilable pre"
    then have "Some r # rs = (Some r # pre) @ None # post \<and> list_all compilable (Some r # pre)"
      by simp
    then show "\<exists>pre post. Some r # rs = pre @ None # post \<and> list_all compilable pre" by blast
  qed
  show ?case
  proof (cases "rule_compile r")
    case (Ok c)
    then have "compilable (Some r)" by (auto simp: compilable_def compiles_to_def)
    with Ok 3 show ?thesis unfolding split by auto
  next
    case (Fail e)
    then have "\<not> compilable (Some r)" by (auto simp: compilable_def compiles_to_def)
    with Fail show ?thesis unfolding split by auto
  next
    case Panic
    then show ?thesis by (auto simp: rule_compile_def split: if_splits)
  qed
qed simp

lemma validate_rules_Ok:
  "validate_rules rs = Ok () \<longleftrightarrow> (\<exists>cs. list_all2 compiles_to rs cs)"
proof (induction rs rule: validate_rules.induct)
  case (3 r rs)
  then show ?case
    by (cases "rule_compile r") (auto simp: list_all2_Cons1 compiles_to_def)
qed (auto simp: list_all2_Cons1 compiles_to_def)

lemma load_rules_Ok_iff:
  assumes "list_all2 compiles_to rs cs"
  shows "(\<exists>x. load_rules f rs names acc = Ok x) \<longleftrightarrow>
     distinct (map r_Name cs) \<and> set names \<inter> set (map r_Name cs) = {}"
  using assms
proof (induction rs cs arbitrary: names acc rule: list_all2_induct)
  case (Cons r rs c cs)
  then obtain x where x: "r = Some x" "rule_compile x = Ok c" by (auto simp: compiles_to_def)
  then have "r_Name c = r_Name x" by (auto dest: rule_compile_ok)
  with x Cons.IH show ?case by auto
qed auto

lemma compile_names:
  "list_all2 compiles_to rs cs \<Longrightarrow> map r_Name cs = map (r_Name \<circ> the) rs"
  by (induction rs cs rule: list_all2_induct) (auto simp: compiles_to_def dest: rule_compile_ok)

lemma Load_one_file:
  assumes "is_policy_file e" "de_Raw e = Inr raw" "u raw = Inr pf"
    and "ValidateBytes u raw = Ok ()"
  shows "(\<exists>rs. Load u dir (Inr [e]) = Ok rs) \<longleftrightarrow> distinct (map (r_Name \<circ> the) (pf_Rules pf))"
proof -
  obtain v: "validate_rules (pf_Rules pf) = Ok ()"
    and "\<forall>df. pf_Default pf = Some df \<longrightarrow> validAction (df_Action df)"
    using assms(3,4) by (auto simp: ValidateBytes_def obind_Ok_iff split: option.splits if_splits)
  then have d: "\<exists>d. load_default (de_Name e) (pf_Default pf) safe_default = Ok d"
    by (auto simp: load_default_def split: option.splits)
  from v obtain cs where cs: "list_all2 compiles_to (pf_Rules pf) cs"
    by (auto simp: validate_rules_Ok)
  have "(\<exists>rs. Load u dir (Inr [e]) = Ok rs) \<longleftrightarrow>
    (\<exists>x. load_rules (de_Name e) (pf_Rules pf) [] [] = Ok x)"
    using d assms(1-3) by (fastforce simp: Load_def obind_Ok_iff Let_def)
  then show ?thesis using load_rules_Ok_iff[OF cs] compile_names[OF cs] by simp
qed

subsection \<open>Properties\<close>

definition ex_rule :: Rule where
  "ex_rule = \<lparr>r_Name = ''ads'', r_Priority = 10,
     r_Match = \<lparr>pm_Domain = ''*.Example.com'', pm_Path = [], pm_Method = [''get'']\<rparr>,
     r_Action = ''stub'', r_Catalog = ''noop-js''\<rparr>"

definition ex_rule2 :: Rule where
  "ex_rule2 = ex_rule\<lparr>r_Name := ''all'', r_Priority := 5,
     r_Match := \<lparr>pm_Domain = ''*.example.com'', pm_Path = ''/a*'', pm_Method = []\<rparr>\<rparr>"

definition ex_unmarshal :: "string \<Rightarrow> error + policyFile" where
  "ex_unmarshal raw = (if raw = ''ok'' then Inr \<lparr>pf_Rules = [Some ex_rule, Some ex_rule2], pf_Default = None\<rparr>
     else if raw = ''null'' then Inr \<lparr>pf_Rules = [Some ex_rule, None], pf_Default = None\<rparr>
     else Inl (Err ''yaml''))"

definition ex_entry :: dir_entry where
  "ex_entry = \<lparr>de_Name = ''p.yaml'', de_IsDir = False, de_Raw = Inr ''ok''\<rparr>"

definition ex_ruleset :: Ruleset where
  "ex_ruleset = (case Load ex_unmarshal ''policy.d'' (Inr [ex_entry]) of Ok rs \<Rightarrow> rs
     | _ \<Rightarrow> \<lparr>rs_rules = [], rs_def = safe_default\<rparr>)"

lemma ex_Load: "Load ex_unmarshal ''policy.d'' (Inr [ex_entry]) = Ok ex_ruleset"
  by code_simp

text \<open>C9: A glob is matched exactly as it reads: the compiled regular expression accepts a text
  iff the text splits into one part per glob character, where a star is any run and a question
  mark any single character other than a newline, and every other character is itself; the
  empty glob accepts every text without a newline.\<close>

theorem compileGlob_correct: "MatchString (compileGlob g) s \<longleftrightarrow> glob_spec g s"
  by (rule MatchString_glob)

text \<open>A policy directory that loads yields a ruleset in which every rule has a name, a known
  action and, for a stub, a catalog entry; names are distinct, rules are in priority order, and
  the default action is known.\<close>

theorem Load_invariant: "Load u dir es = Ok rs \<Longrightarrow> ruleset_ok rs"
  by (rule Load_ruleset_ok)

theorem Load_invariant_witness: "ruleset_ok ex_ruleset \<and> length (rs_rules ex_ruleset) = 2"
  using Load_invariant[OF ex_Load] by (auto simp: ex_ruleset_def) code_simp

text \<open>Loading loses and invents no rule: the ruleset is the stable sort by priority of the
  compiled rules of all policy files of the directory, in directory and file order, and every
  such file was readable and decoded.\<close>

theorem Load_complete:
  assumes "Load u dir (Inr es) = Ok rs"
  shows "\<exists>pfs cs. list_all2 (decodes u) (filter is_policy_file es) pfs \<and>
    list_all2 compiles_to (concat (map pf_Rules pfs)) cs \<and>
    rs_rules rs = sort_key r_Priority cs"
  using assms by (fastforce simp: Load_def obind_Ok_iff dest: load_files_all)

theorem Load_complete_witness:
  "\<exists>pfs cs. list_all2 (decodes ex_unmarshal) [ex_entry] pfs \<and>
    list_all2 compiles_to (concat (map pf_Rules pfs)) cs \<and>
    rs_rules ex_ruleset = sort_key r_Priority cs"
proof -
  have "filter is_policy_file [ex_entry] = [ex_entry]" by code_simp
  then show ?thesis using Load_complete[OF ex_Load] by simp
qed



text \<open>A stub decision names a catalog entry that \<^verbatim>\<open>CatalogRefs\<close> lists, so the check of the
  references before a ruleset is swapped in covers every decision; a stub decision of a rule (not
  of the default) always names one.\<close>

theorem Match_stub_catalog_listed:
  assumes "Load u dir es = Ok rs"
    and "d_Action (Ruleset_Match rs domain path method) = ActionStub"
  shows "(d_Catalog (Ruleset_Match rs domain path method) \<noteq> [] \<longrightarrow>
      d_Catalog (Ruleset_Match rs domain path method) \<in> set (CatalogRefs rs)) \<and>
    (d_Matched (Ruleset_Match rs domain path method) \<longrightarrow>
      d_Catalog (Ruleset_Match rs domain path method) \<noteq> [])"
proof -
  have ok: "list_all rule_ok (rs_rules rs)"
    using assms(1) Load_ruleset_ok by (simp add: ruleset_ok_def)
  show ?thesis
    by (rule Match_cases[of rs domain path "method"])
      (use assms(2) ok in \<open>auto simp: set_CatalogRefs list_all_iff rule_ok_def\<close>)
qed

theorem Match_stub_catalog_listed_witness:
  "d_Catalog (Ruleset_Match ex_ruleset ''x.example.com'' ''/ab'' ''GET'') \<in> set (CatalogRefs ex_ruleset)"
proof -
  have "d_Action (Ruleset_Match ex_ruleset ''x.example.com'' ''/ab'' ''GET'') = ActionStub"
    and "d_Catalog (Ruleset_Match ex_ruleset ''x.example.com'' ''/ab'' ''GET'') \<noteq> []"
    by code_simp+
  then show ?thesis using Match_stub_catalog_listed[OF ex_Load] by blast
qed

text \<open>A request path that contains a newline is matched by no rule at all (unless a rule's
  own path glob contains a newline): even a rule with an empty path glob, documented to match
  everything, is skipped and the default applies.\<close>

theorem newline_path_matches_no_rule:
  assumes "Load u dir es = Ok rs" and "newline \<in> set path"
    and "\<forall>r\<in>set (rs_rules rs). newline \<notin> set (pm_Path (r_Match r))"
  shows "Ruleset_Match rs domain path method = rs_def rs"
proof -
  have ok: "ruleset_ok rs" using assms(1) by (rule Load_ruleset_ok)
  have "\<not> rule_applies r d path m" if "r \<in> set (rs_rules rs)" for r d m
  proof -
    have "r_pathRe r = compileGlob (pm_Path (r_Match r))"
      using ok that by (auto simp: ruleset_ok_def rule_ok_def list_all_iff)
    then show ?thesis
      using glob_spec_chars[of "pm_Path (r_Match r)" path newline] that assms(2,3)
      by (auto simp: rule_applies_def MatchString_glob)
  qed
  moreover have "(rs_def rs)\<lparr>d_Matched := False\<rparr> = rs_def rs"
    using ok by (cases "rs_def rs") (simp add: ruleset_ok_def)
  ultimately show ?thesis by (metis Match_cases)
qed

theorem newline_path_matches_no_rule_witness:
  "Ruleset_Match ex_ruleset ''x.example.com'' [CHR ''/'', CHR ''a'', CHR 0x0A] ''GET'' = safe_default"
proof -
  have "newline \<in> set [CHR ''/'', CHR ''a'', CHR 0x0A]" by (simp add: newline_def)
  moreover have "\<forall>r\<in>set (rs_rules ex_ruleset). newline \<notin> set (pm_Path (r_Match r))" by code_simp
  ultimately show ?thesis
    using newline_path_matches_no_rule[OF ex_Load, of "[CHR ''/'', CHR ''a'', CHR 0x0A]"]
    by (simp add: ex_ruleset_def) code_simp
qed

text \<open>A rule whose domain glob contains an upper-case letter never decides a request: the
  request's domain is lower-cased before the match and the glob is not.\<close>

theorem uppercase_domain_rule_is_dead:
  assumes "Load u dir es = Ok rs" and "r \<in> set (rs_rules rs)"
    and "c \<in> set (pm_Domain (r_Match r))" and "lower_char c \<noteq> c"
  shows "\<not> (d_Matched (Ruleset_Match rs domain path method) \<and>
            d_Rule (Ruleset_Match rs domain path method) = r_Name r)"
proof
  assume m: "d_Matched (Ruleset_Match rs domain path method) \<and>
    d_Rule (Ruleset_Match rs domain path method) = r_Name r"
  have ok: "ruleset_ok rs" using assms(1) by (rule Load_ruleset_ok)
  obtain r' where r': "r' \<in> set (rs_rules rs)" "r_Name r' = r_Name r"
    "rule_applies r' (ToLower (TrimSuffix domain ''.'')) path (ToUpper method)"
    by (rule Match_cases[of rs domain path "method"]) (use m in auto)
  then have "r' = r"
    using ok assms(2) by (auto simp: ruleset_ok_def distinct_map inj_on_def)
  moreover have "r_domainRe r = compileGlob (pm_Domain (r_Match r))"
    using ok assms(2) by (auto simp: ruleset_ok_def rule_ok_def list_all_iff)
  moreover have "c \<noteq> CHR ''*'' \<and> c \<noteq> CHR ''?''"
    using assms(4) by (auto simp: lower_char_def)
  ultimately have "c \<in> set (ToLower (TrimSuffix domain ''.''))"
    using r'(3) assms(3) glob_spec_literal by (auto simp: rule_applies_def MatchString_glob)
  then show False using assms(4) by (auto simp: ToLower_def)
qed

theorem uppercase_domain_rule_is_dead_witness:
  "\<not> (d_Matched (Ruleset_Match ex_ruleset ''a.Example.com'' ''/b'' ''GET'') \<and>
      d_Rule (Ruleset_Match ex_ruleset ''a.Example.com'' ''/b'' ''GET'') = ''ads'')"
proof -
  let ?r = "rs_rules ex_ruleset ! 1"
  have "1 < length (rs_rules ex_ruleset)" and n: "r_Name ?r = ''ads''"
    and c: "CHR ''E'' \<in> set (pm_Domain (r_Match ?r))" "lower_char CHR ''E'' \<noteq> CHR ''E''"
    by code_simp+
  then have "?r \<in> set (rs_rules ex_ruleset)" by simp
  from uppercase_domain_rule_is_dead[OF ex_Load this c] n show ?thesis by simp
qed

text \<open>Validation of one document panics exactly when a null list item is reached, that is,
  when every rule before it compiles; loading a directory with that document panics likewise, so
  the reload does not keep the current ruleset but ends the process.\<close>

theorem ValidateBytes_panics_on_null_rule:
  "ValidateBytes u raw = Panic \<longleftrightarrow>
     (\<exists>pf pre post. u raw = Inr pf \<and> pf_Rules pf = pre @ None # post \<and> list_all compilable pre)"
proof (cases "u raw")
  case (Inr pf)
  have "(case pf_Default pf of Some df \<Rightarrow> if \<not> validAction (df_Action df)
      then Fail (Err (''invalid default action '' @ quote (df_Action df))) else Ok ()
    | None \<Rightarrow> Ok ()) \<noteq> Panic"
    by (simp split: option.split)
  with Inr show ?thesis
    by (simp add: ValidateBytes_def obind_Panic_iff validate_rules_Panic)
qed (simp add: ValidateBytes_def)

text \<open>A document the admin editor's validation accepts loads as the only file of a directory
  iff its rule names are distinct; validation alone does not check that.\<close>

theorem ValidateBytes_then_Load:
  assumes "is_policy_file e" "de_Raw e = Inr raw" "u raw = Inr pf"
    and "ValidateBytes u raw = Ok ()"
  shows "(\<exists>rs. Load u dir (Inr [e]) = Ok rs) \<longleftrightarrow> distinct (map (r_Name \<circ> the) (pf_Rules pf))"
  using assms by (rule Load_one_file)

theorem ValidateBytes_then_Load_witness: "\<exists>rs. Load ex_unmarshal ''d'' (Inr [ex_entry]) = Ok rs"
proof -
  obtain pf where pf: "ex_unmarshal ''ok'' = Inr pf"
    "distinct (map (r_Name \<circ> the) (pf_Rules pf))" by (simp add: ex_unmarshal_def ex_rule_def ex_rule2_def)
  have "is_policy_file ex_entry" "de_Raw ex_entry = Inr ''ok''"
    "ValidateBytes ex_unmarshal ''ok'' = Ok ()" by code_simp+
  from ValidateBytes_then_Load[OF this(1,2) pf(1) this(3)] pf(2) show ?thesis by blast
qed

end
