(* ===== verification/Interfaces.thy ===== *)
theory Interfaces
  imports Go_Prelude
begin

text \<open>
  The contracts that components of the program share, as locales: what the client may assume of
  an operation, and what follows from it once and for all. Each is interpreted on the model's
  own definitions in the theory of the component that provides it.

  \<^item> \<open>capped_table\<close>: a table that one operation grows and that never exceeds its capacity
    (the unmatched aggregator, the per-address login table, the decoy cache);
  \<^item> \<open>failure_gate\<close>: failures counted per key that block the key for a while (the circuit
    breaker, the login lockouts);
  \<^item> \<open>history_log\<close>: an append-only record kept to its newest entries (rollbacks, feed
    history, audit log);
  \<^item> \<open>ip_resolver\<close>: a name lookup that never succeeds with no address.
\<close>

subsection \<open>Tables with a capacity\<close>

locale capped_table =
  fixes size_of :: "'s \<Rightarrow> nat" and cap :: "'s \<Rightarrow> nat" and ok :: "'s \<Rightarrow> bool"
    and add :: "'x \<Rightarrow> 's \<Rightarrow> 's"
  assumes add_ok: "ok s \<Longrightarrow> ok (add x s)"
    and add_cap: "ok s \<Longrightarrow> cap (add x s) = cap s"
    and add_size: "ok s \<Longrightarrow> size_of s \<le> cap s \<Longrightarrow> size_of (add x s) \<le> cap s"
begin

lemma run_ok: "ok s \<Longrightarrow> ok (fold add xs s)"
  by (induction xs arbitrary: s) (auto intro: add_ok)

lemma run_cap: "ok s \<Longrightarrow> cap (fold add xs s) = cap s"
  by (induction xs arbitrary: s) (auto simp: add_cap add_ok)

lemma run_size: "ok s \<Longrightarrow> size_of s \<le> cap s \<Longrightarrow> size_of (fold add xs s) \<le> cap s"
proof (induction xs arbitrary: s)
  case (Cons x xs)
  then have "ok (add x s)" "size_of (add x s) \<le> cap (add x s)" "cap (add x s) = cap s"
    by (auto intro: add_ok add_size simp: add_cap)
  with Cons.IH[of "add x s"] show ?case by simp
qed simp

end

subsection \<open>Failure counters that block\<close>

text \<open>
  \<open>fails s k\<close> is the number of failures counted for key \<open>k\<close>. Below the threshold a failure
  adds one; the failure that reaches the threshold blocks the key for \<open>hold\<close>. \<open>fresh t s k\<close>
  says that the counter of \<open>k\<close> is not one the provider would discard (or refuse to start) at
  time \<open>t\<close>; \<open>near t t'\<close> that a counter touched at \<open>t\<close> is not discarded yet at \<open>t'\<close>.
\<close>

locale failure_gate =
  fixes fails :: "'s \<Rightarrow> string \<Rightarrow> int" and blocked :: "time \<Rightarrow> 's \<Rightarrow> string \<Rightarrow> bool"
    and fresh :: "time \<Rightarrow> 's \<Rightarrow> string \<Rightarrow> bool" and near :: "time \<Rightarrow> time \<Rightarrow> bool"
    and ok :: "'s \<Rightarrow> bool" and fail :: "time \<Rightarrow> string \<Rightarrow> 's \<Rightarrow> 's"
    and limit :: "'s \<Rightarrow> int" and hold :: "'s \<Rightarrow> duration"
  assumes fail_ok: "0 < t \<Longrightarrow> ok s \<Longrightarrow> ok (fail t k s)"
    and fail_limit: "limit (fail t k s) = limit s" and fail_hold: "hold (fail t k s) = hold s"
    and fail_counts: "0 < t \<Longrightarrow> ok s \<Longrightarrow> fresh t s k \<Longrightarrow> fails s k + 1 < limit s \<Longrightarrow>
      fails (fail t k s) k = fails s k + 1"
    and fail_fresh: "0 < t \<Longrightarrow> ok s \<Longrightarrow> fresh t s k \<Longrightarrow> fails s k + 1 < limit s \<Longrightarrow>
      near t t' \<Longrightarrow> fresh t' (fail t k s) k"
    and fail_blocks: "0 < t \<Longrightarrow> ok s \<Longrightarrow> fresh t s k \<Longrightarrow> fails s k + 1 = limit s \<Longrightarrow> 0 < hold s \<Longrightarrow>
      t \<le> t' \<Longrightarrow> t' < t + hold s \<Longrightarrow> blocked t' (fail t k s) k"
    and fail_frame: "ok s \<Longrightarrow> k' \<noteq> k \<Longrightarrow> 0 < t' \<Longrightarrow> blocked t' (fail t k s) k' = blocked t' s k'"
begin

abbreviation run :: "string \<Rightarrow> time list \<Rightarrow> 's \<Rightarrow> 's" where
  "run k ts s \<equiv> fold (\<lambda>t. fail t k) ts s"

text \<open>
  Failures one after the other, each near the next: the counter adds them up, and the one that
  reaches the limit blocks the key.
\<close>

lemma run_counts:
  "\<lbrakk>\<forall>t\<in>set ts. 0 < t; ok s; successively near ts; ts \<noteq> [] \<Longrightarrow> fresh (hd ts) s k;
    fails s k + int (length ts) < limit s\<rbrakk> \<Longrightarrow>
   ok (run k ts s) \<and> fails (run k ts s) k = fails s k + int (length ts) \<and>
   limit (run k ts s) = limit s \<and> hold (run k ts s) = hold s \<and>
   (\<forall>t'. (if ts = [] then fresh t' s k else near (last ts) t') \<longrightarrow> fresh t' (run k ts s) k)"
proof (induction ts arbitrary: s)
  case (Cons t ts)
  let ?s = "fail t k s"
  have one: "ok ?s" "fails ?s k = fails s k + 1" "limit ?s = limit s" "hold ?s = hold s"
    using Cons.prems by (auto simp: fail_ok fail_counts fail_limit fail_hold)
  have next_fresh: "fresh t' ?s k" if "near t t'" for t'
    using Cons.prems that by (intro fail_fresh) auto
  have "near t (hd ts)" if "ts \<noteq> []" using Cons.prems(3) that by (cases ts) auto
  moreover have "successively near ts" using Cons.prems(3) by (cases ts) auto
  ultimately show ?case
    using Cons.IH[of ?s] Cons.prems one next_fresh by auto
qed auto

lemma run_blocks:
  assumes "\<forall>t\<in>set (ts @ [t]). 0 < t" "ok s" "successively near (ts @ [t])"
    and "fresh (hd (ts @ [t])) s k" "fails s k + int (length (ts @ [t])) = limit s" "0 < hold s"
    and "t \<le> t'" "t' < t + hold s"
  shows "blocked t' (run k (ts @ [t]) s) k"
proof -
  let ?s = "run k ts s"
  have c: "ok ?s \<and> fails ?s k = fails s k + int (length ts) \<and> limit ?s = limit s \<and>
    hold ?s = hold s \<and> (\<forall>t'. (if ts = [] then fresh t' s k else near (last ts) t') \<longrightarrow> fresh t' ?s k)"
    using assms by (intro run_counts) (auto simp: successively_append_iff hd_append)
  moreover have "fresh t ?s k"
    using c assms(3,4) by (auto simp: successively_append_iff split: if_splits)
  ultimately show ?thesis using assms by (auto simp: fail_blocks)
qed

lemma run_frame:
  "\<lbrakk>\<forall>t\<in>set ts. 0 < t; ok s; k' \<noteq> k; 0 < t'\<rbrakk> \<Longrightarrow> blocked t' (run k ts s) k' = blocked t' s k'"
  by (induction ts arbitrary: s) (auto simp: fail_ok fail_frame)

end

subsection \<open>Histories kept to their newest entries\<close>

locale history_log =
  fixes log_of :: "'s \<Rightarrow> 'r list" and note_rec :: "'r \<Rightarrow> 's \<Rightarrow> 's" and keep :: nat
  assumes keep_pos: "0 < keep"
    and note_log: "log_of (note_rec r s) = keep_last keep (log_of s @ [r])"
begin

lemma log_bounded: "length (log_of s) \<le> keep \<Longrightarrow> length (log_of (fold note_rec rs s)) \<le> keep"
  by (induction rs arbitrary: s) (auto simp: note_log)

lemma newest_last: "log_of (note_rec r s) \<noteq> [] \<and> last (log_of (note_rec r s)) = r"
  using keep_pos by (auto simp: note_log keep_last_snoc)

lemma log_run: "log_of (fold note_rec rs s) = keep_last keep (log_of s @ rs)"
  if "length (log_of s) \<le> keep"
  using that
proof (induction rs arbitrary: s)
  case (Cons r rs)
  have "log_of (fold note_rec rs (note_rec r s)) = keep_last keep (log_of (note_rec r s) @ rs)"
    by (rule Cons.IH) (simp add: note_log)
  also have "\<dots> = keep_last keep ((log_of s @ [r]) @ rs)"
    by (simp only: note_log keep_last_append)
  finally show ?case by simp
qed (simp add: keep_last_def)

end

subsection \<open>Name lookup\<close>

locale ip_resolver =
  fixes lookup_ip :: "string \<Rightarrow> error + 'ip list"
  assumes success_nonempty: "lookup_ip host = Inr ips \<Longrightarrow> ips \<noteq> []"

end
