(* ===== verification/Engine.thy ===== *)
theory Engine
  imports Policy Interfaces
begin

text \<open>
  The policy engine of \<^verbatim>\<open>internal/policy/engine.go\<close>: the live ruleset, the temporary
  per-domain overrides and the bounded aggregator of unmatched requests.

  The aggregator's list nodes and the map that points to them are modelled with node numbers: the
  list holds (node, entry) pairs, the map goes from the key to the node. The mutexes make each
  operation one step. \<^verbatim>\<open>AddTempRule\<close> and every other operation takes the clock reading.
\<close>

subsection \<open>The aggregator\<close>

record UnmatchedEntry =
  u_Domain :: string
  u_Path :: string
  u_Count :: int
  u_Last :: time

record aggregator =
  a_max :: nat
  a_ll :: "(nat \<times> UnmatchedEntry) list"
  a_items :: "(string, nat) gomap"
  a_next :: nat

definition newAggregator :: "nat \<Rightarrow> aggregator" where
  "newAggregator mx = \<lparr>a_max = mx, a_ll = [], a_items = [], a_next = 0\<rparr>"

definition agg_key :: "string \<Rightarrow> string \<Rightarrow> string" where
  "agg_key domain path = domain @ '' '' @ path"

definition agg_evict :: "aggregator \<Rightarrow> aggregator" where
  "agg_evict a =
     (if length (a_ll a) \<ge> a_max a
      then (case a_ll a of
              [] \<Rightarrow> a
            | _ \<Rightarrow> (let old = snd (last (a_ll a)) in
                a\<lparr>a_items := del (agg_key (u_Domain old) (u_Path old)) (a_items a),
                  a_ll := butlast (a_ll a)\<rparr>))
      else a)"

definition agg_record :: "time \<Rightarrow> string \<Rightarrow> string \<Rightarrow> aggregator \<Rightarrow> aggregator" where
  "agg_record now domain path a =
     (let key = agg_key domain path in
      case lookup (a_items a) key of
        Some el \<Rightarrow>
          (case lookup (a_ll a) el of
             Some e \<Rightarrow> a\<lparr>a_ll := (el, e\<lparr>u_Count := u_Count e + 1, u_Last := now\<rparr>) # del el (a_ll a)\<rparr>
           | None \<Rightarrow> a)
      | None \<Rightarrow>
          (let a1 = agg_evict a;
               e = \<lparr>u_Domain = domain, u_Path = path, u_Count = 1, u_Last = now\<rparr>
           in a1\<lparr>a_ll := (a_next a1, e) # a_ll a1, a_items := put key (a_next a1) (a_items a1),
                a_next := Suc (a_next a1)\<rparr>))"

definition agg_top :: "int \<Rightarrow> aggregator \<Rightarrow> UnmatchedEntry list" where
  "agg_top n a =
     (let out = sort_key (\<lambda>e. (- u_Count e, u_Domain e)) (map snd (a_ll a))
      in if n > 0 \<and> int (length out) > n then take (nat n) out else out)"

text \<open>Nodes and map agree: exactly the keys of the listed entries are mapped, each to its node.\<close>

abbreviation entry_key :: "UnmatchedEntry \<Rightarrow> string" where
  "entry_key e \<equiv> agg_key (u_Domain e) (u_Path e)"

definition agg_inv :: "aggregator \<Rightarrow> bool" where
  "agg_inv a \<longleftrightarrow> wf_map (a_items a) \<and> wf_map (a_ll a) \<and>
     (\<forall>i\<in>fst ` set (a_ll a). i < a_next a) \<and>
     (\<forall>k i. lookup (a_items a) k = Some i \<longleftrightarrow> (\<exists>e. lookup (a_ll a) i = Some e \<and> entry_key e = k))"

text \<open>The same on a plain list of entries, most recent first.\<close>

definition lru_record :: "nat \<Rightarrow> time \<Rightarrow> string \<Rightarrow> string \<Rightarrow> UnmatchedEntry list \<Rightarrow> UnmatchedEntry list" where
  "lru_record mx now domain path es =
     (case find (\<lambda>e. entry_key e = agg_key domain path) es of
        Some e \<Rightarrow> e\<lparr>u_Count := u_Count e + 1, u_Last := now\<rparr> #
                  filter (\<lambda>e. entry_key e \<noteq> agg_key domain path) es
      | None \<Rightarrow> \<lparr>u_Domain = domain, u_Path = path, u_Count = 1, u_Last = now\<rparr> #
                 (if length es \<ge> mx then butlast es else es))"

definition agg_abs :: "aggregator \<Rightarrow> UnmatchedEntry list" where
  "agg_abs a = map snd (a_ll a)"

lemma agg_inv_new: "agg_inv (newAggregator mx)"
  by (simp add: agg_inv_def newAggregator_def)

lemma agg_inv_keys_inj:
  "agg_inv a \<Longrightarrow> (i, e) \<in> set (a_ll a) \<Longrightarrow> (j, f) \<in> set (a_ll a) \<Longrightarrow> entry_key e = entry_key f \<Longrightarrow>
   i = j \<and> e = f"
  unfolding agg_inv_def by (metis in_set_lookup option.inject)

lemma agg_inv_distinct: "agg_inv a \<Longrightarrow> distinct (map entry_key (agg_abs a))"
proof -
  assume inv: "agg_inv a"
  have "distinct (a_ll a)"
    using inv by (auto simp: agg_inv_def wf_map_def distinct_map)
  moreover have "inj_on (entry_key \<circ> snd) (set (a_ll a))"
  proof (rule inj_onI)
    fix x y assume "x \<in> set (a_ll a)" "y \<in> set (a_ll a)" "(entry_key \<circ> snd) x = (entry_key \<circ> snd) y"
    then show "x = y"
      using agg_inv_keys_inj[OF inv, of "fst x" "snd x" "fst y" "snd y"]
      by (cases x; cases y) auto
  qed
  ultimately show ?thesis by (simp add: agg_abs_def distinct_map)
qed

lemma agg_inv_miss:
  "agg_inv a \<Longrightarrow> lookup (a_items a) key = None \<Longrightarrow> find (\<lambda>e. entry_key e = key) (agg_abs a) = None"
  unfolding find_None_iff
proof
  assume inv: "agg_inv a" and miss: "lookup (a_items a) key = None"
    and "\<exists>e. e \<in> set (agg_abs a) \<and> entry_key e = key"
  then obtain i e where mem: "(i, e) \<in> set (a_ll a)" "entry_key e = key"
    by (auto simp: agg_abs_def)
  moreover have "wf_map (a_ll a)" using inv by (simp add: agg_inv_def)
  ultimately have "lookup (a_ll a) i = Some e" by (simp only: in_set_lookup)
  with mem(2) inv have "lookup (a_items a) key = Some i" unfolding agg_inv_def by blast
  with miss show False by simp
qed

lemma agg_inv_hit:
  assumes inv: "agg_inv a" and hit: "lookup (a_items a) key = Some el"
  obtains e where "lookup (a_ll a) el = Some e" "entry_key e = key"
    "find (\<lambda>e. entry_key e = key) (agg_abs a) = Some e"
    "filter (\<lambda>e. entry_key e \<noteq> key) (agg_abs a) = agg_abs (a\<lparr>a_ll := del el (a_ll a)\<rparr>)"
proof -
  obtain e where e: "lookup (a_ll a) el = Some e" "entry_key e = key"
    using inv hit unfolding agg_inv_def by blast
  have mem: "(el, e) \<in> set (a_ll a)" using e(1) by (rule map_of_SomeD)
  have same: "i = el \<longleftrightarrow> entry_key f = key" if "(i, f) \<in> set (a_ll a)" for i f
  proof
    assume "i = el"
    moreover have "wf_map (a_ll a)" using inv by (simp add: agg_inv_def)
    ultimately have "lookup (a_ll a) el = Some f" using that in_set_lookup by metis
    with e show "entry_key f = key" by simp
  next
    assume "entry_key f = key"
    then show "i = el" using agg_inv_keys_inj[OF inv that mem] e(2) by simp
  qed
  have "e \<in> set (agg_abs a)" using mem by (force simp: agg_abs_def)
  then have "find (\<lambda>e. entry_key e = key) (agg_abs a) \<noteq> None"
    using e(2) by (simp only: find_None_iff) blast
  then obtain f where f: "find (\<lambda>e. entry_key e = key) (agg_abs a) = Some f" by blast
  then have "entry_key f = key" "f \<in> set (agg_abs a)"
    by (auto simp: find_Some_iff)
  then obtain i where "(i, f) \<in> set (a_ll a)" by (auto simp: agg_abs_def)
  with \<open>entry_key f = key\<close> have "f = e"
    using agg_inv_keys_inj[OF inv _ mem, of i f] e(2) by simp
  have "filter (\<lambda>e. entry_key e \<noteq> key) (map snd l) = map snd (del el l)"
    if "set l \<subseteq> set (a_ll a)" for l
    using that by (induction l) (auto dest: same)
  with that[OF e] f \<open>f = e\<close> show ?thesis by (simp add: agg_abs_def)
qed

lemma agg_evict_inv:
  assumes inv: "agg_inv a"
  shows "agg_inv (agg_evict a) \<and> a_next (agg_evict a) = a_next a \<and> a_max (agg_evict a) = a_max a \<and>
    agg_abs (agg_evict a) = (if length (a_ll a) \<ge> a_max a then butlast (agg_abs a) else agg_abs a) \<and>
    (lookup (a_items a) k = None \<longrightarrow> lookup (a_items (agg_evict a)) k = None)"
proof (cases "length (a_ll a) \<ge> a_max a \<and> a_ll a \<noteq> []")
  case False
  then show ?thesis using inv by (auto simp: agg_evict_def agg_abs_def split: list.splits)
next
  case True
  obtain j old where last: "last (a_ll a) = (j, old)" by (cases "last (a_ll a)")
  have ev: "agg_evict a = a\<lparr>a_items := del (entry_key old) (a_items a), a_ll := butlast (a_ll a)\<rparr>"
    using True last by (auto simp: agg_evict_def Let_def split: list.splits)
  have wf: "wf_map (a_ll a)" using inv by (simp add: agg_inv_def)
  have mem: "(j, old) \<in> set (a_ll a)" using True last by (metis last_in_set)
  have "lookup (a_items a) (entry_key old) = Some j"
    using inv mem wf unfolding agg_inv_def by (metis in_set_lookup)
  then have "(lookup (del (entry_key old) (a_items a)) k = Some i) =
    (\<exists>e. lookup (butlast (a_ll a)) i = Some e \<and> entry_key e = k)" for k i
    using inv True last lookup_butlast[OF wf, of i] unfolding agg_inv_def
    by (auto split: if_splits) (metis option.inject)+
  then have "agg_inv (agg_evict a)"
    using inv unfolding ev agg_inv_def
    by (auto simp: wf_map_butlast dest: in_set_butlastD)
  then show ?thesis using True ev by (auto simp: agg_abs_def map_butlast)
qed

lemma agg_push_inv:
  assumes inv: "agg_inv a" and miss: "lookup (a_items a) (entry_key e) = None"
  shows "agg_inv (a\<lparr>a_ll := (a_next a, e) # a_ll a, a_items := put (entry_key e) (a_next a) (a_items a),
            a_next := Suc (a_next a)\<rparr>)"
proof -
  have "a_next a \<notin> fst ` set (a_ll a)" using inv by (auto simp: agg_inv_def)
  then have new: "lookup (a_ll a) (a_next a) = None" by (simp add: map_of_eq_None_iff)
  have "wf_map ((a_next a, e) # a_ll a)"
    using inv \<open>a_next a \<notin> fst ` set (a_ll a)\<close> by (simp add: agg_inv_def wf_map_def)
  moreover have "(lookup (put (entry_key e) (a_next a) (a_items a)) k = Some i) =
    (\<exists>f. lookup ((a_next a, e) # a_ll a) i = Some f \<and> entry_key f = k)" for k i
  proof (cases "k = entry_key e")
    case True
    then have "lookup (a_items a) k \<noteq> Some i" using miss by simp
    then have "\<not> (\<exists>f. lookup (a_ll a) i = Some f \<and> entry_key f = k)"
      using inv by (simp add: agg_inv_def)
    with True show ?thesis by auto
  next
    case False
    then show ?thesis using inv new by (auto simp: agg_inv_def)
  qed
  ultimately show ?thesis
    using inv by (simp add: agg_inv_def less_Suc_eq)
qed

lemma agg_touch_inv:
  assumes inv: "agg_inv a" and hit: "lookup (a_ll a) el = Some e" and key: "entry_key e' = entry_key e"
  shows "agg_inv (a\<lparr>a_ll := (el, e') # del el (a_ll a)\<rparr>)"
proof -
  have "el < a_next a" using inv map_of_SomeD[OF hit] by (auto simp: agg_inv_def)
  moreover have "wf_map ((el, e') # del el (a_ll a))"
    using inv wf_map_del[of "a_ll a" el] by (simp add: agg_inv_def wf_map_def delete_keys)
  moreover have "(lookup (a_items a) k = Some i) =
    (\<exists>f. lookup ((el, e') # del el (a_ll a)) i = Some f \<and> entry_key f = k)" for k i
    using inv hit key unfolding agg_inv_def by auto
  moreover have "set (del el (a_ll a)) \<subseteq> set (a_ll a)" by (simp add: AList.delete_eq)
  ultimately show ?thesis
    using inv unfolding agg_inv_def by auto
qed

lemma agg_record_refines:
  assumes inv: "agg_inv a"
  shows "agg_inv (agg_record now domain path a) \<and> a_max (agg_record now domain path a) = a_max a \<and>
    agg_abs (agg_record now domain path a) = lru_record (a_max a) now domain path (agg_abs a)"
proof (cases "lookup (a_items a) (agg_key domain path)")
  case (Some el)
  then obtain e where e: "lookup (a_ll a) el = Some e" "entry_key e = agg_key domain path"
    "find (\<lambda>e. entry_key e = agg_key domain path) (agg_abs a) = Some e"
    "filter (\<lambda>e. entry_key e \<noteq> agg_key domain path) (agg_abs a) = agg_abs (a\<lparr>a_ll := del el (a_ll a)\<rparr>)"
    using agg_inv_hit[OF inv] by blast
  then show ?thesis
    using Some agg_touch_inv[OF inv e(1), of "e\<lparr>u_Count := u_Count e + 1, u_Last := now\<rparr>"]
    by (simp add: agg_record_def lru_record_def Let_def) (simp add: agg_abs_def)
next
  case None
  let ?e = "\<lparr>u_Domain = domain, u_Path = path, u_Count = 1, u_Last = now\<rparr>"
  note ev = agg_evict_inv[OF inv, of "agg_key domain path"]
  from ev None have push: "agg_inv ((agg_evict a)\<lparr>a_ll := (a_next (agg_evict a), ?e) # a_ll (agg_evict a),
      a_items := put (entry_key ?e) (a_next (agg_evict a)) (a_items (agg_evict a)),
      a_next := Suc (a_next (agg_evict a))\<rparr>)"
    by (intro agg_push_inv) auto
  have "length (agg_abs a) = length (a_ll a)" by (simp add: agg_abs_def)
  with None push ev agg_inv_miss[OF inv None] show ?thesis
    by (simp add: agg_record_def lru_record_def Let_def) (auto simp: agg_abs_def)
qed

text \<open>While the distinct keys fit, nothing is evicted and every count is exact.\<close>

type_synonym agg_request = "time \<times> string \<times> string"

fun req_key :: "agg_request \<Rightarrow> string" where
  "req_key (t, d, p) = agg_key d p"

fun agg_add :: "agg_request \<Rightarrow> aggregator \<Rightarrow> aggregator" where
  "agg_add (t, d, p) a = agg_record t d p a"

definition counts_ok :: "string list \<Rightarrow> UnmatchedEntry list \<Rightarrow> bool" where
  "counts_ok ks es \<longleftrightarrow> distinct (map entry_key es) \<and> entry_key ` set es = set ks \<and>
     (\<forall>e\<in>set es. u_Count e = int (count_list ks (entry_key e)))"

lemma counts_ok_length: "counts_ok ks es \<Longrightarrow> length es = card (set ks)"
proof -
  assume "counts_ok ks es"
  then have "card (set (map entry_key es)) = length (map entry_key es)" "entry_key ` set es = set ks"
    by (simp_all only: counts_ok_def distinct_card)
  then show ?thesis by simp
qed

lemma count_list_snoc: "count_list (ks @ [k]) x = count_list ks x + (if x = k then 1 else 0)"
  by (induction ks) auto

lemma lru_record_counts:
  assumes ok: "counts_ok ks es" and fits: "card (set (ks @ [agg_key d p])) \<le> mx"
  shows "counts_ok (ks @ [agg_key d p]) (lru_record mx t d p es)"
proof (cases "find (\<lambda>e. entry_key e = agg_key d p) es")
  case (Some e)
  then have e: "e \<in> set es" "entry_key e = agg_key d p" by (auto simp: find_Some_iff)
  have "distinct (map entry_key (filter (\<lambda>e. entry_key e \<noteq> agg_key d p) es))"
    using ok by (simp add: counts_ok_def distinct_map_filter)
  with Some e ok show ?thesis
    unfolding counts_ok_def lru_record_def by (auto simp: count_list_snoc)
next
  case None
  then have miss: "agg_key d p \<notin> entry_key ` set es" by (auto simp: find_None_iff)
  then have "agg_key d p \<notin> set ks" using ok by (simp add: counts_ok_def)
  with fits counts_ok_length[OF ok] have "\<not> mx \<le> length es" by simp
  with None miss ok show ?thesis
    unfolding counts_ok_def lru_record_def by (auto simp: count_list_snoc)
qed

lemma agg_add_inv: "agg_inv a \<Longrightarrow> agg_inv (agg_add r a) \<and> a_max (agg_add r a) = a_max a"
  by (cases r) (simp add: agg_record_refines)

lemma agg_run:
  assumes "card (set (map req_key rs)) \<le> mx"
  shows "let a = fold agg_add rs (newAggregator mx) in
    agg_inv a \<and> a_max a = mx \<and> counts_ok (map req_key rs) (agg_abs a)"
  using assms
proof (induction rs rule: rev_induct)
  case Nil
  then show ?case
    using agg_inv_new[of mx] by (simp add: newAggregator_def agg_abs_def counts_ok_def)
next
  case (snoc r rs)
  let ?a = "fold agg_add rs (newAggregator mx)"
  have "card (set (map req_key rs)) \<le> card (set (map req_key (rs @ [r])))"
    by (rule card_mono) auto
  with snoc have a: "agg_inv ?a" "a_max ?a = mx" "counts_ok (map req_key rs) (agg_abs ?a)"
    by (auto simp: Let_def)
  obtain t d p where r: "r = (t, d, p)" by (cases r)
  have "counts_ok (map req_key rs @ [agg_key d p]) (lru_record mx t d p (agg_abs ?a))"
    using a(3) snoc.prems by (intro lru_record_counts) (auto simp: r)
  then show ?case
    using agg_record_refines[OF a(1), of t d p] a(2) by (simp add: r Let_def)
qed

lemma agg_size: "agg_inv a \<Longrightarrow> 0 < a_max a \<Longrightarrow> length (a_ll a) \<le> a_max a \<Longrightarrow>
  length (a_ll (agg_add r a)) \<le> a_max a"
proof -
  assume a: "agg_inv a" "0 < a_max a" "length (a_ll a) \<le> a_max a"
  obtain t d p where r: "r = (t, d, p)" by (cases r)
  have len: "length (agg_abs x) = length (a_ll x)" for x by (simp add: agg_abs_def)
  have "length (lru_record (a_max a) t d p (agg_abs a)) \<le> a_max a"
  proof (cases "find (\<lambda>e. entry_key e = agg_key d p) (agg_abs a)")
    case (Some e)
    then have "e \<in> set (agg_abs a)" "entry_key e = agg_key d p" by (auto simp: find_Some_iff)
    then have "length (filter (\<lambda>e. entry_key e \<noteq> agg_key d p) (agg_abs a)) < length (agg_abs a)"
      by (intro length_filter_less) auto
    with Some a len show ?thesis by (simp add: lru_record_def)
  next
    case None
    with a len show ?thesis by (auto simp: lru_record_def)
  qed
  then show ?thesis using agg_record_refines[OF a(1), of t d p] len by (metis agg_add.simps r)
qed

interpretation agg: capped_table "\<lambda>a. length (a_ll a)" a_max "\<lambda>a. agg_inv a \<and> 0 < a_max a" agg_add
  by unfold_locales (auto simp: agg_add_inv agg_size)

subsection \<open>The engine\<close>

record tempRule =
  t_dec :: Decision
  t_expires :: time

record Engine =
  e_rs :: Ruleset
  e_unmatched :: aggregator
  e_temps :: "(string, tempRule) gomap"

definition NewEngine :: "Ruleset \<Rightarrow> Engine" where
  "NewEngine rs = \<lparr>e_rs = rs, e_unmatched = newAggregator 10000, e_temps = []\<rparr>"

definition AddTempRule ::
  "time \<Rightarrow> string \<Rightarrow> string \<Rightarrow> string \<Rightarrow> duration \<Rightarrow> Engine \<Rightarrow> Engine" where
  "AddTempRule now domain action catalog ttl e =
     e\<lparr>e_temps := put domain
         \<lparr>t_dec = \<lparr>d_Action = action, d_Catalog = catalog, d_Rule = ''temp:'' @ domain, d_Matched = True\<rparr>,
          t_expires = now + ttl\<rparr> (e_temps e)\<rparr>"

definition TempRules :: "time \<Rightarrow> Engine \<Rightarrow> (string, time) gomap \<times> Engine" where
  "TempRules now e =
     (map (\<lambda>(d, t). (d, t_expires t)) (filter (\<lambda>(d, t). now < t_expires t) (e_temps e)),
      e\<lparr>e_temps := del_if (\<lambda>d t. \<not> now < t_expires t) (e_temps e)\<rparr>)"

definition tempFor :: "time \<Rightarrow> string \<Rightarrow> Engine \<Rightarrow> Decision option \<times> Engine" where
  "tempFor now domain e =
     (case lookup (e_temps e) domain of
        None \<Rightarrow> (None, e)
      | Some t \<Rightarrow>
          if now > t_expires t then (None, e\<lparr>e_temps := del domain (e_temps e)\<rparr>)
          else (Some (t_dec t), e))"

definition Swap :: "Ruleset \<Rightarrow> Engine \<Rightarrow> Engine" where
  "Swap rs e = e\<lparr>e_rs := rs\<rparr>"

definition Decide :: "time \<Rightarrow> string \<Rightarrow> string \<Rightarrow> string \<Rightarrow> Engine \<Rightarrow> Decision \<times> Engine" where
  "Decide now domain path method e =
     (case tempFor now domain e of
        (Some d, e1) \<Rightarrow> (d, e1)
      | (None, e1) \<Rightarrow>
          (let d = Ruleset_Match (e_rs e1) domain path method in
           if \<not> d_Matched d
           then (d, e1\<lparr>e_unmatched := agg_record now domain path (e_unmatched e1)\<rparr>)
           else (d, e1)))"

definition UnmatchedTop :: "int \<Rightarrow> Engine \<Rightarrow> UnmatchedEntry list" where
  "UnmatchedTop n e = agg_top n (e_unmatched e)"

definition engine_inv :: "Engine \<Rightarrow> bool" where
  "engine_inv e \<longleftrightarrow> wf_map (e_temps e) \<and> agg_inv (e_unmatched e) \<and>
     a_max (e_unmatched e) = 10000 \<and> length (a_ll (e_unmatched e)) \<le> 10000 \<and>
     (\<forall>d t. lookup (e_temps e) d = Some t \<longrightarrow>
        d_Rule (t_dec t) = ''temp:'' @ d \<and> d_Matched (t_dec t))"

datatype engine_op =
    OpAddTemp time string string string duration
  | OpTempRules time
  | OpSwap Ruleset
  | OpDecide time string string string

fun engine_step :: "Engine \<Rightarrow> engine_op \<Rightarrow> Engine" where
  "engine_step e (OpAddTemp now d a c ttl) = AddTempRule now d a c ttl e"
| "engine_step e (OpTempRules now) = snd (TempRules now e)"
| "engine_step e (OpSwap rs) = Swap rs e"
| "engine_step e (OpDecide now d p m) = snd (Decide now d p m e)"

lemma engine_inv_new: "engine_inv (NewEngine rs)"
  by (simp add: engine_inv_def NewEngine_def agg_inv_new) (simp add: newAggregator_def)

lemma tempFor_inv: "engine_inv e \<Longrightarrow> engine_inv (snd (tempFor now d e))"
  by (auto simp: engine_inv_def tempFor_def split: option.splits if_splits)

lemma record_unmatched_inv:
  assumes "engine_inv e"
  shows "engine_inv (e\<lparr>e_unmatched := agg_record now d p (e_unmatched e)\<rparr>)"
proof -
  let ?a = "e_unmatched e"
  have a: "agg_inv ?a" "a_max ?a = 10000" "length (a_ll ?a) \<le> 10000"
    using assms by (auto simp: engine_inv_def)
  have "agg_inv (agg_record now d p ?a)" "a_max (agg_record now d p ?a) = 10000"
    using a agg_add_inv[of ?a "(now, d, p)"] by auto
  moreover have "length (a_ll (agg_record now d p ?a)) \<le> 10000"
    using a agg_size[of ?a "(now, d, p)"] by simp
  ultimately show ?thesis using assms by (simp add: engine_inv_def)
qed

lemma engine_step_inv: "engine_inv e \<Longrightarrow> engine_inv (engine_step e op)"
proof (cases op)
  case (OpAddTemp now d a c ttl)
  assume "engine_inv e"
  with OpAddTemp show ?thesis by (auto simp: engine_inv_def AddTempRule_def)
next
  case (OpTempRules now)
  assume "engine_inv e"
  with OpTempRules show ?thesis
    by (auto simp: engine_inv_def TempRules_def lookup_del_if split: option.splits if_splits)
next
  case (OpDecide now d p m)
  assume "engine_inv e"
  then have "engine_inv (snd (tempFor now d e))" by (rule tempFor_inv)
  with OpDecide show ?thesis
    by (auto simp: Decide_def Let_def record_unmatched_inv split: prod.splits option.splits)
qed (simp add: engine_inv_def Swap_def)

lemma engine_run_inv: "engine_inv e \<Longrightarrow> engine_inv (foldl engine_step e ops)"
  by (induction ops arbitrary: e) (auto simp: engine_step_inv)

subsection \<open>Properties\<close>

text \<open>In every state the engine can reach, by any sequence of decisions, temporary rules,
  listings and ruleset swaps, the aggregator's list and map agree node by node and hold at most
  10000 entries, and each temporary override is stored as a matched decision named after its
  domain.\<close>

theorem engine_reachable_inv: "engine_inv (foldl engine_step (NewEngine rs) ops)"
  by (rule engine_run_inv[OF engine_inv_new])

text \<open>C11: The aggregator with its linked list and map behaves as a plain recency list: a seen key
  moves to the front with one more hit, a new key is put in front, dropping the last entry when
  the list is full.\<close>

theorem aggregator_refines_lru:
  assumes "agg_inv a"
  shows "agg_abs (agg_record now domain path a) = lru_record (a_max a) now domain path (agg_abs a) \<and>
    agg_inv (agg_record now domain path a)"
  using agg_record_refines[OF assms] by simp

theorem aggregator_refines_lru_witness:
  "agg_abs (agg_record 5 ''d'' ''/p'' (newAggregator 2)) = lru_record 2 5 ''d'' ''/p'' []"
  using aggregator_refines_lru[OF agg_inv_new[of 2], of 5 "''d''" "''/p''"]
  by (simp add: newAggregator_def agg_abs_def)

text \<open>As long as the distinct (domain, path) keys recorded do not exceed the capacity, the
  aggregator lists exactly those keys, each once, with the exact number of times it was seen.\<close>

theorem aggregator_counts_exact:
  assumes "card (set (map req_key rs)) \<le> mx"
  shows "counts_ok (map req_key rs) (agg_abs (fold agg_add rs (newAggregator mx)))"
  using agg_run[OF assms] by (simp add: Let_def)

theorem aggregator_counts_exact_witness:
  "counts_ok [''a /'', ''b /'', ''a /'']
     (agg_abs (fold agg_add [(1, ''a'', ''/''), (2, ''b'', ''/''), (3, ''a'', ''/'')] (newAggregator 2)))"
proof -
  have "card (set (map req_key [(1, ''a'', ''/''), (2, ''b'', ''/''), (3, ''a'', ''/'')])) \<le> 2"
    by code_simp
  from aggregator_counts_exact[OF this] show ?thesis by (simp add: agg_key_def)
qed

text \<open>The top-n listing of unmatched requests returns as many recorded entries as asked for (all
  when n is not positive), in order of decreasing hit count, and leaves out no entry with more
  hits than one it returns.\<close>

theorem UnmatchedTop_is_top:
  "let es = agg_abs (e_unmatched e); out = UnmatchedTop n e in
    sorted (map (\<lambda>x. - u_Count x) out) \<and>
    (\<exists>rest. mset out + mset rest = mset es \<and> (\<forall>x\<in>set out. \<forall>y\<in>set rest. u_Count y \<le> u_Count x)) \<and>
    length out = (if 0 < n \<and> n < int (length es) then nat n else length es)"
proof -
  define es where "es = agg_abs (e_unmatched e)"
  define out where "out = UnmatchedTop n e"
  let ?s = "sort_key (\<lambda>e. (- u_Count e, u_Domain e)) es"
  let ?k = "if 0 < n \<and> n < int (length es) then nat n else length es"
  have out: "out = take ?k ?s"
    by (simp add: out_def es_def UnmatchedTop_def agg_top_def agg_abs_def Let_def)
  have "sorted (map (\<lambda>e. (- u_Count e, u_Domain e)) ?s)" by simp
  then have srt: "sorted (map (\<lambda>e. - u_Count e) ?s)"
    by (auto simp: sorted_iff_nth_mono less_eq_prod_def) fastforce
  have parts: "mset out + mset (drop ?k ?s) = mset es"
    by (metis append_take_drop_id mset_append mset_sort out)
  have "map (\<lambda>e. - u_Count e) out @ map (\<lambda>e. - u_Count e) (drop ?k ?s) = map (\<lambda>e. - u_Count e) ?s"
    unfolding out by (simp only: map_append[symmetric] append_take_drop_id)
  with srt have "sorted (map (\<lambda>e. - u_Count e) out @ map (\<lambda>e. - u_Count e) (drop ?k ?s))"
    by simp
  then have "sorted (map (\<lambda>x. - u_Count x) out)"
    "\<forall>x\<in>set out. \<forall>y\<in>set (drop ?k ?s). u_Count y \<le> u_Count x"
    by (auto simp: sorted_append)
  moreover have "length out = ?k" using out by auto
  ultimately show ?thesis
    using parts unfolding Let_def es_def[symmetric] out_def[symmetric] by blast
qed

theorem UnmatchedTop_is_top_witness:
  "length (UnmatchedTop 1 ((NewEngine ex_ruleset)\<lparr>e_unmatched :=
     fold agg_add [(1, ''a'', ''/''), (2, ''b'', ''/''), (3, ''a'', ''/'')] (newAggregator 2)\<rparr>)) = 1"
proof -
  let ?e = "(NewEngine ex_ruleset)\<lparr>e_unmatched :=
     fold agg_add [(1, ''a'', ''/''), (2, ''b'', ''/''), (3, ''a'', ''/'')] (newAggregator 2)\<rparr>"
  have "length (agg_abs (e_unmatched ?e)) = 2" by code_simp
  then show ?thesis using UnmatchedTop_is_top[where n = 1 and e = ?e] by (simp add: Let_def)
qed

text \<open>A temporary rule decides every request for its domain until its expiry, whatever the
  ruleset says, without touching the statistics; after the expiry the ruleset decides again and
  the override is gone.\<close>

theorem temp_rule_overrides_until_expiry:
  "let e' = AddTempRule now domain action catalog ttl e in
    (t \<le> now + ttl \<longrightarrow> Decide t domain path meth e' =
      (\<lparr>d_Action = action, d_Catalog = catalog, d_Rule = ''temp:'' @ domain, d_Matched = True\<rparr>, e')) \<and>
    (t > now + ttl \<longrightarrow> fst (Decide t domain path meth e') = Ruleset_Match (e_rs e) domain path meth \<and>
      lookup (e_temps (snd (Decide t domain path meth e'))) domain = None)"
  by (auto simp: Decide_def tempFor_def AddTempRule_def Let_def)

theorem temp_rule_overrides_until_expiry_witness:
  "d_Action (fst (Decide 15 ''a.b'' ''/'' ''GET''
     (AddTempRule 10 ''a.b'' ''forward-asis'' [] 5 (NewEngine ex_ruleset)))) = ''forward-asis''"
  using temp_rule_overrides_until_expiry[where t = 15 and now = 10 and ttl = 5 and domain = "''a.b''"
      and action = "''forward-asis''" and catalog = "[]" and path = "''/''" and meth = "''GET''"
      and e = "NewEngine ex_ruleset"] by (simp add: Let_def)

text \<open>The override is keyed by the exact spelling of the domain, while rules match
  case-insensitively: a request for the same domain in another case is decided by the ruleset, as
  if no override had been installed.\<close>

theorem temp_rule_misses_other_case:
  assumes "ToLower domain' = ToLower domain" and "domain' \<noteq> domain"
    and "lookup (e_temps e) domain' = None"
    and "\<not> HasSuffix domain ''.''" and "\<not> HasSuffix domain' ''.''"
  shows "fst (Decide t domain' path method (AddTempRule now domain action catalog ttl e)) =
      Ruleset_Match (e_rs e) domain path method"
  using assms
  by (simp add: Decide_def tempFor_def AddTempRule_def Let_def Ruleset_Match_def TrimSuffix_def)

theorem temp_rule_misses_other_case_witness:
  "fst (Decide 11 ''A.b'' ''/'' ''GET'' (AddTempRule 10 ''a.b'' ''forward-asis'' [] 5 (NewEngine ex_ruleset)))
     = Ruleset_Match ex_ruleset ''a.b'' ''/'' ''GET''"
proof -
  have c: "ToLower ''A.b'' = ToLower ''a.b''" by code_simp
  have s: "\<not> HasSuffix ''a.b'' ''.''" "\<not> HasSuffix ''A.b'' ''.''" by code_simp+
  show ?thesis
    using temp_rule_misses_other_case[OF c, of "NewEngine ex_ruleset"] s by (simp add: NewEngine_def)
qed

end
