(* ===== verification/Breaker.thy ===== *)
theory Breaker
  imports Complex_Main Interfaces
begin

text \<open>
  The request guards of the intercept server: the per-domain circuit breaker of
  \<^verbatim>\<open>internal/server/breaker.go\<close> and the token-bucket rate limiter of
  \<^verbatim>\<open>internal/server/limits.go\<close>.

  Each operation holds the mutex, so it is one step, and takes the clock reading. The limiter's
  \<^verbatim>\<open>float64\<close> arithmetic is modelled in exact rationals.
\<close>

subsection \<open>The circuit breaker\<close>

record breakerState =
  bs_failures :: int
  bs_openUntil :: time

record breaker =
  br_threshold :: int
  br_cooldown :: duration
  br_state :: "(string, breakerState) gomap"

definition newBreaker :: "int \<Rightarrow> duration \<Rightarrow> breaker" where
  "newBreaker threshold cooldown =
     \<lparr>br_threshold = (if threshold \<le> 0 then 5 else threshold),
      br_cooldown = (if cooldown \<le> 0 then 30 * second_ns else cooldown),
      br_state = []\<rparr>"

definition br_Allow :: "time \<Rightarrow> string \<Rightarrow> breaker \<Rightarrow> bool \<times> breaker" where
  "br_Allow now domain b =
     (case lookup (br_state b) domain of
        None \<Rightarrow> (True, b)
      | Some s \<Rightarrow>
          if IsZero (bs_openUntil s) then (True, b)
          else if now < bs_openUntil s then (False, b)
          else (True, b\<lparr>br_state := put domain \<lparr>bs_failures = 0, bs_openUntil = 0\<rparr> (br_state b)\<rparr>))"

definition RecordSuccess :: "string \<Rightarrow> breaker \<Rightarrow> breaker" where
  "RecordSuccess domain b =
     (case lookup (br_state b) domain of
        None \<Rightarrow> b
      | Some s \<Rightarrow> b\<lparr>br_state := put domain (s\<lparr>bs_failures := 0, bs_openUntil := 0\<rparr>) (br_state b)\<rparr>)"

definition RecordFailure :: "time \<Rightarrow> string \<Rightarrow> breaker \<Rightarrow> breaker" where
  "RecordFailure now domain b =
     (let s = get_or \<lparr>bs_failures = 0, bs_openUntil = 0\<rparr> (br_state b) domain;
          s1 = s\<lparr>bs_failures := bs_failures s + 1\<rparr>;
          s2 = (if bs_failures s1 \<ge> br_threshold b \<and> IsZero (bs_openUntil s1)
                then s1\<lparr>bs_openUntil := now + br_cooldown b\<rparr> else s1)
      in b\<lparr>br_state := put domain s2 (br_state b)\<rparr>)"

definition br_Open :: "time \<Rightarrow> breaker \<Rightarrow> string \<Rightarrow> bool" where
  "br_Open now b domain \<longleftrightarrow>
     (case lookup (br_state b) domain of
        None \<Rightarrow> False
      | Some s \<Rightarrow> \<not> IsZero (bs_openUntil s) \<and> now < bs_openUntil s)"

definition br_failures :: "breaker \<Rightarrow> string \<Rightarrow> int" where
  "br_failures b domain =
     bs_failures (get_or \<lparr>bs_failures = 0, bs_openUntil = 0\<rparr> (br_state b) domain)"

definition br_closed :: "breaker \<Rightarrow> string \<Rightarrow> bool" where
  "br_closed b domain \<longleftrightarrow>
     IsZero (bs_openUntil (get_or \<lparr>bs_failures = 0, bs_openUntil = 0\<rparr> (br_state b) domain))"

lemma Allow_iff_not_Open: "fst (br_Allow now domain b) \<longleftrightarrow> \<not> br_Open now b domain"
  by (auto simp: br_Allow_def br_Open_def split: option.splits)

interpretation br: failure_gate br_failures br_Open "\<lambda>t b d. br_closed b d" "\<lambda>_ _. True"
    "\<lambda>b. 0 < br_cooldown b" RecordFailure br_threshold br_cooldown
  by unfold_locales
    (auto simp: RecordFailure_def Let_def br_failures_def br_closed_def br_Open_def get_or_def
      IsZero_def split: option.splits)

text \<open>The life of the breaker under any sequence of operations.\<close>

datatype breaker_op = BAllow time string | BSuccess string | BFailure time string

fun breaker_step :: "breaker \<Rightarrow> breaker_op \<Rightarrow> breaker" where
  "breaker_step b (BAllow t d) = snd (br_Allow t d b)"
| "breaker_step b (BSuccess d) = RecordSuccess d b"
| "breaker_step b (BFailure t d) = RecordFailure t d b"

text \<open>
  Invariant: counts are not negative; an open window has at least the threshold of failures
  behind it; below the threshold the window is closed; and the window is open once the threshold
  is reached.
\<close>

definition breaker_inv :: "breaker \<Rightarrow> bool" where
  "breaker_inv b \<longleftrightarrow> wf_map (br_state b) \<and> 0 < br_threshold b \<and> 0 < br_cooldown b \<and>
     (\<forall>d s. lookup (br_state b) d = Some s \<longrightarrow>
        0 \<le> bs_failures s \<and> (IsZero (bs_openUntil s) \<longleftrightarrow> bs_failures s < br_threshold b))"

fun op_time :: "breaker_op \<Rightarrow> time" where
  "op_time (BAllow t d) = t"
| "op_time (BSuccess d) = 1"
| "op_time (BFailure t d) = t"

lemma breaker_inv_new: "breaker_inv (newBreaker threshold cooldown)"
  by (auto simp: breaker_inv_def newBreaker_def ns_defs)

lemma Allow_inv: "breaker_inv b \<Longrightarrow> breaker_inv (snd (br_Allow t d b))"
  by (auto simp: breaker_inv_def br_Allow_def split: option.splits)

lemma RecordSuccess_inv: "breaker_inv b \<Longrightarrow> breaker_inv (RecordSuccess d b)"
  by (auto simp: breaker_inv_def RecordSuccess_def split: option.splits)

lemma RecordFailure_inv: "breaker_inv b \<Longrightarrow> 0 < t \<Longrightarrow> breaker_inv (RecordFailure t d b)"
  unfolding breaker_inv_def RecordFailure_def
  by (auto simp: Let_def get_or_def IsZero_def split: option.splits)

lemma breaker_run_inv:
  "breaker_inv b \<Longrightarrow> \<forall>op\<in>set ops. 0 < op_time op \<Longrightarrow> breaker_inv (foldl breaker_step b ops)"
proof (induction ops arbitrary: b)
  case (Cons op ops)
  then have "breaker_inv (breaker_step b op)"
    by (cases op) (auto intro: Allow_inv RecordSuccess_inv RecordFailure_inv)
  with Cons show ?case by simp
qed simp

subsection \<open>The rate limiter\<close>

record rateLimiter =
  rl_rate :: rat
  rl_burst :: rat
  rl_tokens :: rat
  rl_last :: time

definition newRateLimiter :: "time \<Rightarrow> int \<Rightarrow> rateLimiter option" where
  "newRateLimiter now perSec =
     (if perSec \<le> 0 then None
      else Some \<lparr>rl_rate = of_int perSec, rl_burst = of_int perSec, rl_tokens = of_int perSec,
                 rl_last = now\<rparr>)"

definition Seconds :: "duration \<Rightarrow> rat" where
  "Seconds d = of_int d / of_int second_ns"

definition rl_refill :: "time \<Rightarrow> rateLimiter \<Rightarrow> rateLimiter" where
  "rl_refill now l =
     (let tk = rl_tokens l + Seconds (now - rl_last l) * rl_rate l
      in l\<lparr>rl_tokens := (if tk > rl_burst l then rl_burst l else tk), rl_last := now\<rparr>)"

definition rl_Allow :: "time \<Rightarrow> rateLimiter option \<Rightarrow> bool \<times> rateLimiter option" where
  "rl_Allow now ol =
     (case ol of
        None \<Rightarrow> (True, None)
      | Some l \<Rightarrow>
          (let l1 = rl_refill now l in
           if rl_tokens l1 \<ge> 1 then (True, Some (l1\<lparr>rl_tokens := rl_tokens l1 - 1\<rparr>))
           else (False, Some l1)))"

text \<open>The number of requests admitted among those at the given times.\<close>

fun admitted :: "time list \<Rightarrow> rateLimiter option \<Rightarrow> nat" where
  "admitted [] ol = 0"
| "admitted (t # ts) ol =
     (case rl_Allow t ol of (ok, ol') \<Rightarrow> (if ok then 1 else 0) + admitted ts ol')"

lemma Seconds_nonneg: "0 \<le> d \<Longrightarrow> 0 \<le> Seconds d"
  by (simp add: Seconds_def ns_defs)

lemma Seconds_add: "Seconds (a + b) = Seconds a + Seconds b"
  by (simp add: Seconds_def add_divide_distrib)

lemma rl_refill_fields [simp]:
  "rl_rate (rl_refill now l) = rl_rate l" "rl_burst (rl_refill now l) = rl_burst l"
  "rl_last (rl_refill now l) = now"
  by (simp_all add: rl_refill_def Let_def)

lemma rl_refill_tokens_le:
  "rl_tokens (rl_refill now l) \<le> rl_tokens l + Seconds (now - rl_last l) * rl_rate l"
  "rl_tokens (rl_refill now l) \<le> rl_burst l"
  by (simp_all add: rl_refill_def Let_def)

lemma admitted_bound:
  assumes "sorted (rl_last l # ts)" "0 \<le> rl_rate l" "0 \<le> rl_tokens l" "0 \<le> rl_burst l"
  shows "of_nat (admitted ts (Some l)) \<le>
    rl_tokens l + Seconds (last (rl_last l # ts) - rl_last l) * rl_rate l"
  using assms
proof (induction ts arbitrary: l)
  case Nil
  then show ?case by (simp add: Seconds_def)
next
  case (Cons t ts)
  let ?l1 = "rl_refill t l"
  have t: "rl_last l \<le> t" "sorted (t # ts)" using Cons.prems(1) by auto
  have nonneg: "0 \<le> rl_tokens ?l1"
    using Cons.prems t Seconds_nonneg[of "t - rl_last l"] by (auto simp: rl_refill_def Let_def)
  define L where "L = last (t # ts)"
  have last: "last (rl_last l # t # ts) = L" by (simp add: L_def)
  have sum: "Seconds (L - rl_last l) * rl_rate l =
      Seconds (t - rl_last l) * rl_rate l + Seconds (L - t) * rl_rate l"
    by (simp add: Seconds_add[symmetric] distrib_right[symmetric])
  have tok: "rl_tokens ?l1 \<le> rl_tokens l + Seconds (t - rl_last l) * rl_rate l"
    by (rule rl_refill_tokens_le)
  show ?case
  proof (cases "rl_tokens ?l1 \<ge> 1")
    case True
    let ?l2 = "?l1\<lparr>rl_tokens := rl_tokens ?l1 - 1\<rparr>"
    have "of_nat (admitted ts (Some ?l2)) \<le>
      rl_tokens ?l2 + Seconds (last (rl_last ?l2 # ts) - rl_last ?l2) * rl_rate ?l2"
      using Cons.prems t True by (intro Cons.IH) auto
    moreover have "rl_last ?l2 = t" "rl_rate ?l2 = rl_rate l" "rl_tokens ?l2 = rl_tokens ?l1 - 1"
      by simp_all
    ultimately have "of_nat (admitted ts (Some ?l2)) \<le> rl_tokens ?l1 - 1 + Seconds (L - t) * rl_rate l"
      by (simp only: L_def)
    with True tok show ?thesis
      by (simp only: last sum) (simp add: rl_Allow_def Let_def)
  next
    case False
    have "of_nat (admitted ts (Some ?l1)) \<le>
      rl_tokens ?l1 + Seconds (last (rl_last ?l1 # ts) - rl_last ?l1) * rl_rate ?l1"
      using Cons.prems t nonneg by (intro Cons.IH) auto
    then have "of_nat (admitted ts (Some ?l1)) \<le> rl_tokens ?l1 + Seconds (L - t) * rl_rate l"
      by (simp only: L_def rl_refill_fields)
    with False tok show ?thesis
      by (simp only: last sum) (simp add: rl_Allow_def Let_def)
  qed
qed

subsection \<open>Properties\<close>

text \<open>In every state a breaker can reach, no count is negative, and a domain's window is open
  exactly when its failures have reached the threshold.\<close>

theorem breaker_reachable_inv:
  assumes "\<forall>op\<in>set ops. 0 < op_time op"
  shows "breaker_inv (foldl breaker_step (newBreaker threshold cooldown) ops)"
  by (rule breaker_run_inv[OF breaker_inv_new assms])

theorem breaker_reachable_inv_witness:
  "breaker_inv (foldl breaker_step (newBreaker 2 0) [BFailure 1 ''d'', BFailure 2 ''d'', BAllow 3 ''d''])"
  using breaker_reachable_inv[of "[BFailure 1 ''d'', BFailure 2 ''d'', BAllow 3 ''d'']"] by simp

text \<open>After as many consecutive failures of a domain as the threshold, at whatever times,
  requests to it are refused until the cooldown has passed since the last one, while every other
  domain is treated as before.\<close>

theorem breaker_opens_after_threshold:
  assumes "\<forall>t\<in>set (ts @ [t]). 0 < t" "0 < br_cooldown b" "br_closed b d"
    and "br_failures b d + int (length (ts @ [t])) = br_threshold b"
  shows "let b' = fold (\<lambda>t. RecordFailure t d) (ts @ [t]) b in
    (t \<le> t' \<and> t' < t + br_cooldown b \<longrightarrow> \<not> fst (br_Allow t' d b')) \<and>
    (d' \<noteq> d \<and> 0 < t' \<longrightarrow> fst (br_Allow t' d' b') = fst (br_Allow t' d' b))"
proof -
  have near: "successively (\<lambda>_ _. True) (ts @ [t])"
    by (simp add: successively_conv_nth)
  show ?thesis
    using br.run_blocks[OF assms(1,2) near _ assms(4), of t'] br.run_frame[OF assms(1,2), of d' d t'] assms
    by (auto simp: Allow_iff_not_Open Let_def)
qed

theorem breaker_opens_after_threshold_witness:
  "\<not> fst (br_Allow 20 ''d'' (fold (\<lambda>t. RecordFailure t ''d'') ([3] @ [7]) (newBreaker 2 30))) \<and>
   fst (br_Allow 20 ''e'' (fold (\<lambda>t. RecordFailure t ''d'') ([3] @ [7]) (newBreaker 2 30)))"
proof -
  have "\<forall>t\<in>set ([3] @ [7]). (0::int) < t" "0 < br_cooldown (newBreaker 2 30)"
    "br_closed (newBreaker 2 30) ''d''"
    "br_failures (newBreaker 2 30) ''d'' + int (length ([3::int] @ [7])) = br_threshold (newBreaker 2 30)"
    by (simp_all add: newBreaker_def br_closed_def br_failures_def get_or_def)
  note h = breaker_opens_after_threshold[OF this, of 20 "''e''"]
  have "br_cooldown (newBreaker 2 30) = 30" "fst (br_Allow 20 ''e'' (newBreaker 2 30))"
    by (simp_all add: newBreaker_def br_Allow_def)
  with h show ?thesis by (simp add: Let_def)
qed

text \<open>When the cooldown has passed, one request is not a probe: the first
  \<^verbatim>\<open>Allow\<close> clears the failure count, and every further request is allowed too until the
  domain has failed as often again as the threshold.\<close>

theorem half_open_admits_all:
  assumes "lookup (br_state b) d = Some s" "0 < bs_openUntil s" "bs_openUntil s \<le> t"
    and "1 < br_threshold b"
  shows "let b1 = snd (br_Allow t d b); b2 = RecordFailure t' d b1 in
    fst (br_Allow t d b) \<and> fst (br_Allow t'' d b1) \<and> fst (br_Allow t'' d b2)"
  using assms by (auto simp: br_Allow_def RecordFailure_def get_or_def Let_def)

theorem half_open_admits_all_witness:
  "fst (br_Allow 60 ''d'' (RecordFailure 55 ''d''
     (snd (br_Allow 50 ''d'' ((newBreaker 2 30)\<lparr>br_state := [(''d'', \<lparr>bs_failures = 2, bs_openUntil = 40\<rparr>)]\<rparr>)))))"
  using half_open_admits_all[where b = "(newBreaker 2 30)\<lparr>br_state := [(''d'', \<lparr>bs_failures = 2, bs_openUntil = 40\<rparr>)]\<rparr>"
      and d = "''d''" and s = "\<lparr>bs_failures = 2, bs_openUntil = 40\<rparr>" and t = 50 and t' = 55 and t'' = 60]
  by (simp add: newBreaker_def Let_def)

text \<open>C37: A rate limiter of n requests per second admits, by any time t, at most n requests plus n
  for each second since it was created, however the requests are spread.\<close>

theorem limiter_rate_bound:
  assumes "newRateLimiter t0 n = Some l" and "sorted (t0 # ts)"
  shows "of_nat (admitted ts (Some l)) \<le> of_int n + Seconds (last (t0 # ts) - t0) * of_int n"
  using admitted_bound[of l ts] assms by (auto simp: newRateLimiter_def split: if_splits)

theorem limiter_rate_bound_witness:
  "(of_nat (admitted [1, 2, 3] (newRateLimiter 1 2)) :: rat) \<le> 2 + Seconds 2 * 2"
proof -
  obtain l where l: "newRateLimiter 1 2 = Some l" by (simp add: newRateLimiter_def)
  show ?thesis using limiter_rate_bound[OF l, of "[1, 2, 3]"] by (simp add: l)
qed

end
