(* ===== verification/RuleCatalog.thy ===== *)
theory RuleCatalog
  imports Go_Prelude
begin

text \<open>
  The rule-catalog entries of \<^verbatim>\<open>internal/rulecatalog\<close> and their parsers
  (\<^verbatim>\<open>parse.go\<close>): Adblock/AdGuard rules, hosts files, RPZ lines and AdGuard Home's query
  log, normalisation, identifiers and the merge by priority, and the fetching of the sources.

  SHA-256 (hex) is the parameter \<open>digest\<close>; HTTP is the parameter \<open>get\<close>, from a URL to a
  transport error or the status and body; the JSON decoders of AdGuard Home's answers are
  parameters. Clock readings are arguments.
\<close>

subsection \<open>Data\<close>

definition LayerDNS :: string where "LayerDNS = ''dns''"
definition LayerHTTP :: string where "LayerHTTP = ''http''"
definition LayerDOM :: string where "LayerDOM = ''dom''"
definition ReviewCandidate :: string where "ReviewCandidate = ''candidate''"
definition ReviewApproved :: string where "ReviewApproved = ''approved''"
definition ReviewRejected :: string where "ReviewRejected = ''rejected''"
definition ReviewNeedsTest :: string where "ReviewNeedsTest = ''needs_test''"
definition ReviewDisabled :: string where "ReviewDisabled = ''disabled''"

lemmas catalog_consts = LayerDNS_def LayerHTTP_def LayerDOM_def ReviewCandidate_def ReviewApproved_def
  ReviewRejected_def ReviewNeedsTest_def ReviewDisabled_def

record Source =
  src_Type :: string
  src_Name :: string
  src_URL :: string

record Match =
  m_Domain :: string
  m_Path :: string

record Entry =
  en_ID :: string
  en_Source :: Source
  en_OriginalRule :: string
  en_Match :: Match
  en_Category :: string
  en_Layer :: string
  en_ResourceType :: string
  en_Risk :: string
  en_Confidence :: string
  en_ReviewStatus :: string
  en_Verified :: bool
  en_ActionCandidates :: "string list"
  en_ExpectedCatalog :: string
  en_RewriteState :: string
  en_CNAMEChain :: "string list"
  en_CNAMETarget :: string
  en_CloakingDetected :: bool
  en_TrackerVendor :: string
  en_CNAMEConfidence :: string
  en_AGHQueryLogRef :: string
  en_JSGlobals :: "string list"
  en_JSAPIShape :: string
  en_StubTemplate :: string
  en_TestedSites :: "string list"
  en_FailureMode :: string
  en_PromotionCount :: int
  en_DemotionCount :: int
  en_TempAllowCount :: int
  en_FalsePositiveCount :: int
  en_Unsupported :: bool
  en_UpdatedAt :: time

text \<open>The zero entry of a source, rule text and match, that the parsers fill in.\<close>

definition blank_entry :: "Source \<Rightarrow> string \<Rightarrow> string \<Rightarrow> string \<Rightarrow> Entry" where
  "blank_entry src rule domain path =
     \<lparr>en_ID = [], en_Source = src, en_OriginalRule = rule, en_Match = \<lparr>m_Domain = domain, m_Path = path\<rparr>,
      en_Category = [], en_Layer = [], en_ResourceType = [], en_Risk = [], en_Confidence = [],
      en_ReviewStatus = [], en_Verified = False, en_ActionCandidates = [], en_ExpectedCatalog = [],
      en_RewriteState = [], en_CNAMEChain = [], en_CNAMETarget = [], en_CloakingDetected = False,
      en_TrackerVendor = [], en_CNAMEConfidence = [], en_AGHQueryLogRef = [], en_JSGlobals = [], en_JSAPIShape = [],
      en_StubTemplate = [], en_TestedSites = [], en_FailureMode = [], en_PromotionCount = 0,
      en_DemotionCount = 0, en_TempAllowCount = 0, en_FalsePositiveCount = 0, en_Unsupported = False, en_UpdatedAt = 0\<rparr>"

subsection \<open>Normalisation and identifiers\<close>

definition or_default :: "string \<Rightarrow> string \<Rightarrow> string" where
  "or_default s d = (if s = [] then d else s)"

definition normalize :: "time \<Rightarrow> Entry \<Rightarrow> Entry" where
  "normalize now e =
     (let e1 = e\<lparr>en_Match := (en_Match e)\<lparr>m_Domain := ToLower (TrimSuffix (m_Domain (en_Match e)) ''.'')\<rparr>,
                 en_Layer := or_default (en_Layer e) LayerDNS,
                 en_Category := or_default (en_Category e) ''tracker'',
                 en_Risk := or_default (en_Risk e) ''medium'',
                 en_Confidence := or_default (en_Confidence e) ''medium'',
                 en_ReviewStatus := or_default (en_ReviewStatus e) ReviewCandidate,
                 en_UpdatedAt := (if IsZero (en_UpdatedAt e) then now else en_UpdatedAt e)\<rparr>;
          e2 = (if en_ExpectedCatalog e1 = [] \<and> en_ResourceType e1 = ''script'' \<and> en_Verified e1
                then e1\<lparr>en_ExpectedCatalog := ''noop-sdk''\<rparr> else e1)
      in if en_CNAMEConfidence e2 = [] \<and> en_CNAMETarget e2 \<noteq> []
         then e2\<lparr>en_CNAMEConfidence := en_Confidence e2\<rparr> else e2)"

definition sep0 :: string where "sep0 = [CHR 0x00]"

definition stableID :: "(string \<Rightarrow> string) \<Rightarrow> Entry \<Rightarrow> string" where
  "stableID digest e =
     ''rc_'' @ take 16 (digest (src_Type (en_Source e) @ sep0 @ src_Name (en_Source e) @ sep0 @
       en_OriginalRule e @ sep0 @ m_Domain (en_Match e) @ sep0 @ m_Path (en_Match e)))"

definition safeCNAMEHost :: "string \<Rightarrow> bool" where
  "safeCNAMEHost host \<longleftrightarrow>
     list_ex (\<lambda>token. Contains (ToLower host) token)
       [''cdn'', ''static'', ''assets'', ''login'', ''accounts'', ''auth'']"

definition domainMatches :: "string \<Rightarrow> string \<Rightarrow> bool" where
  "domainMatches domain pattern \<longleftrightarrow>
     (let p = TrimPrefix (TrimPrefix pattern ''*.'') ''.''
      in domain = p \<or> HasSuffix domain (CHR ''.'' # p))"

definition cleanChain :: "string list \<Rightarrow> string list" where
  "cleanChain xs =
     filter (\<lambda>v. v \<noteq> []) (map (\<lambda>v. TrimSuffix (ToLower (TrimSpace v)) ''.'') xs)"

subsection \<open>Parsing one line\<close>

text \<open>
  \<^verbatim>\<open>strings.IndexAny (s, "^/")\<close> splits the rule part; \<open>Trim\<close> and the prefixes are those
  of the prelude.
\<close>

definition is_sep :: "char \<Rightarrow> bool" where
  "is_sep c \<longleftrightarrow> c = CHR 0x5E \<or> c = CHR ''/''"

definition parseAdblock :: "string \<Rightarrow> Source \<Rightarrow> Entry option" where
  "parseAdblock line src =
     (let allow = HasPrefix line ''@@''; raw = TrimPrefix line ''@@'' in
      if Contains raw ''##'' \<or> Contains raw ''#?#''
      then
        (let domain = TrimPrefix (cut_before CHR ''#'' raw) ''||'' in
         if domain = [] then None
         else Some ((blank_entry src line domain [])
           \<lparr>en_Layer := LayerDOM, en_ResourceType := ''dom'', en_Category := ''dom_selector'',
            en_Risk := ''low'', en_Confidence := ''high'', en_Unsupported := True,
            en_ActionCandidates := [''unsupported-layer''], en_RewriteState := ''unsupported_layer''\<rparr>))
      else if \<not> HasPrefix raw ''||'' then None
      else
        (let body = TrimPrefix raw ''||'';
             rulePart = cut_before CHR ''$'' body;
             opts = cut_after CHR ''$'' body;
             rest = dropWhile (\<lambda>c. \<not> is_sep c) rulePart;
             path = (if rest = [] then [] else Trim (TrimPrefix rest [CHR 0x5E]) ''*'');
             domain = Trim (takeWhile (\<lambda>c. \<not> is_sep c) rulePart) [CHR ''|'', CHR 0x5E, CHR ''*'', CHR ''/'']
         in if domain = [] then None
            else
              (let e = (blank_entry src line domain path)
                    \<lparr>en_Layer := LayerDNS, en_Category := ''tracker'', en_Risk := ''medium'',
                     en_Confidence := ''medium'', en_ActionCandidates := [''stub'', ''forward-asis''],
                     en_RewriteState := ''candidate''\<rparr>;
                   lo = ToLower opts
               in Some
                 (if allow
                  then e\<lparr>en_Category := ''allow_exception'', en_Risk := ''low'',
                         en_ReviewStatus := ReviewApproved, en_Verified := True,
                         en_ActionCandidates := [''allow'', ''forward-asis''], en_RewriteState := ''allow''\<rparr>
                  else if Contains lo ''script''
                  then e\<lparr>en_Layer := LayerHTTP, en_ResourceType := ''script'', en_Category := ''ad_sdk'',
                         en_Risk := ''high'',
                         en_ActionCandidates := [''empty-js'', ''noop-sdk'', ''forward-asis''],
                         en_ExpectedCatalog := ''noop-sdk'',
                         en_JSAPIShape := ''unknown noop-compatible API'',
                         en_StubTemplate := ''generic-noop-v1''\<rparr>
                  else if Contains lo ''image''
                  then e\<lparr>en_Layer := LayerHTTP, en_ResourceType := ''image'',
                         en_Category := ''tracking_pixel'',
                         en_ActionCandidates := [''stub:pixel'', ''forward-asis''],
                         en_ExpectedCatalog := ''pixel''\<rparr>
                  else if Contains lo ''xmlhttprequest'' \<or> Contains lo ''ping''
                  then e\<lparr>en_Layer := LayerHTTP, en_ResourceType := ''beacon'',
                         en_ActionCandidates := [''stub:beacon-204'', ''forward-asis''],
                         en_ExpectedCatalog := ''beacon-204''\<rparr>
                  else e))))"

definition hosts_ips :: "string list" where
  "hosts_ips = [''0.0.0.0'', ''127.0.0.1'', ''::'', ''::1'']"

definition parseHosts :: "string \<Rightarrow> Source \<Rightarrow> Entry option" where
  "parseHosts line src =
     (case Fields line of
        ip # f1 # _ \<Rightarrow>
          if ip \<notin> set hosts_ips then None
          else
            (let domain = TrimSuffix f1 ''.'' in
             if domain = ''localhost'' \<or> Contains domain '':'' then None
             else Some ((blank_entry src line domain [])
               \<lparr>en_Layer := LayerDNS, en_Category := ''tracker'', en_ResourceType := ''domain'',
                en_Risk := ''medium'', en_Confidence := ''high'',
                en_ActionCandidates := [''agh-custom-rule'', ''stub:beacon-204''],
                en_RewriteState := ''candidate''\<rparr>))
      | _ \<Rightarrow> None)"

definition parseRPZ :: "string \<Rightarrow> Source \<Rightarrow> Entry option" where
  "parseRPZ line src =
     (case Fields line of
        f0 # f1 # f2 # _ \<Rightarrow>
          if ToUpper f1 \<noteq> ''CNAME'' then None
          else
            (let domain = TrimSuffix f0 ''.'';
                 target = TrimSuffix f2 ''.'';
                 e = (blank_entry src line domain [])
                   \<lparr>en_Layer := LayerDNS, en_Category := ''tracker'', en_ResourceType := ''domain'',
                    en_Risk := ''medium'', en_Confidence := ''high'',
                    en_ActionCandidates := [''agh-rewrite'', ''agh-custom-rule''],
                    en_RewriteState := ''candidate''\<rparr>;
                 e1 = (if target \<noteq> [] \<and> target \<noteq> ''*''
                       then e\<lparr>en_CNAMETarget := target, en_CNAMEChain := [domain, target],
                              en_CloakingDetected := (target \<noteq> ''.'')\<rparr>
                       else e)
             in if domain = [] then None else Some e1)
      | _ \<Rightarrow> None)"

definition skip_line :: "string \<Rightarrow> bool" where
  "skip_line line \<longleftrightarrow> line = [] \<or> HasPrefix line ''!'' \<or> HasPrefix line ''# ''"

definition parse_line :: "Source \<Rightarrow> string \<Rightarrow> Entry option" where
  "parse_line src l =
     (let line = TrimSpace l in
      if skip_line line then None
      else case parseAdblock line src of
             Some e \<Rightarrow> Some e
           | None \<Rightarrow> (case parseHosts line src of Some e \<Rightarrow> Some e | None \<Rightarrow> parseRPZ line src))"

definition finish_entry :: "(string \<Rightarrow> string) \<Rightarrow> time \<Rightarrow> Entry \<Rightarrow> Entry" where
  "finish_entry digest now e =
     (let e1 = normalize now e in e1\<lparr>en_ID := stableID digest e1\<rparr>)"

definition ParseRules :: "(string \<Rightarrow> string) \<Rightarrow> time \<Rightarrow> string \<Rightarrow> Source \<Rightarrow> error + Entry list" where
  "ParseRules digest now text src =
     (case scan_err text of
        Some e \<Rightarrow> Inl e
      | None \<Rightarrow> Inr (map (finish_entry digest now) (List.map_filter (parse_line src) (scan_lines text))))"

subsection \<open>Merging\<close>

definition priority :: "Entry \<Rightarrow> int" where
  "priority e =
     (if en_Category e = ''allow_exception'' then 100
      else if src_Type (en_Source e) = ''adguard_custom'' then 80
      else if en_Layer e = LayerHTTP then 60
      else 10)"

definition merge_key :: "Entry \<Rightarrow> string" where
  "merge_key e = m_Domain (en_Match e) @ sep0 @ m_Path (en_Match e)"

definition merge_one :: "(string, Entry) gomap \<Rightarrow> Entry \<Rightarrow> (string, Entry) gomap" where
  "merge_one byKey e =
     (case lookup byKey (merge_key e) of
        None \<Rightarrow> put (merge_key e) e byKey
      | Some prev \<Rightarrow> if priority e \<ge> priority prev then put (merge_key e) e byKey else byKey)"

definition mergePriority :: "Entry list \<Rightarrow> Entry list" where
  "mergePriority es = map snd (foldl merge_one [] es)"

subsection \<open>Fetching the sources\<close>

type_synonym http_get = "string \<Rightarrow> error + (int \<times> string)"

definition status_ok :: "int \<Rightarrow> bool" where
  "status_ok code \<longleftrightarrow> 200 \<le> code \<and> code < 300"

definition fetch :: "http_get \<Rightarrow> string \<Rightarrow> error + string" where
  "fetch get rawurl =
     (case get rawurl of
        Inl e \<Rightarrow> Inl (Err (''fetch '' @ rawurl @ '': '' @ error_text e))
      | Inr (code, body) \<Rightarrow>
          if \<not> status_ok code then Inl (Err (''fetch '' @ rawurl @ '': status '' @ show_int code))
          else Inr (take (32 * 2 ^ 20) body))"

record aghFilter =
  af_Enabled :: bool
  af_URL :: string

record aghFilteringStatus =
  as_Filters :: "aghFilter list"
  as_UserRules :: "string list"
  as_AllowlistRules :: "string list"

record aghQueryRow =
  qr_Name :: string
  qr_Answer :: "(string \<times> string) list"
  qr_Reason :: string

text \<open>The JSON decoders and \<^verbatim>\<open>url.Parse\<close> (an error, or the URL as it is requested).\<close>

record agh_api =
  api_get :: http_get
  api_url :: "string \<Rightarrow> error + string"
  api_status :: "string \<Rightarrow> error + aghFilteringStatus"
  api_log :: "string \<Rightarrow> error + aghQueryRow list"

definition TrimRight :: "string \<Rightarrow> char \<Rightarrow> string" where
  "TrimRight s c = rev (dropWhile (\<lambda>x. x = c) (rev s))"

definition fetchAGHFilteringStatus :: "agh_api \<Rightarrow> string \<Rightarrow> error + string list \<times> string list" where
  "fetchAGHFilteringStatus api base =
     (case api_url api (TrimRight base CHR ''/'' @ ''/control/filtering/status'') of
        Inl e \<Rightarrow> Inl e
      | Inr u \<Rightarrow>
          (case api_get api u of
             Inl e \<Rightarrow> Inl (Err (''fetch AGH filtering status: '' @ error_text e))
           | Inr (code, body) \<Rightarrow>
               if \<not> status_ok code
               then Inl (Err (''fetch AGH filtering status: status '' @ show_int code))
               else
                 (case api_status api (take (4 * 2 ^ 20) body) of
                    Inl e \<Rightarrow> Inl (Err (''parse AGH filtering status: '' @ error_text e))
                  | Inr st \<Rightarrow>
                      Inr (map af_URL (filter (\<lambda>f. af_Enabled f \<and> af_URL f \<noteq> []) (as_Filters st)),
                           as_UserRules st @ as_AllowlistRules st))))"

definition cname_targets :: "aghQueryRow \<Rightarrow> string list" where
  "cname_targets row =
     map (\<lambda>(ty, v). TrimSuffix (ToLower v) ''.'')
       (filter (\<lambda>(ty, v). EqualFold ty ''CNAME'' \<and> v \<noteq> []) (qr_Answer row))"

definition query_entry :: "time \<Rightarrow> aghQueryRow \<Rightarrow> Entry option" where
  "query_entry now row =
     (let domain = TrimSuffix (ToLower (qr_Name row)) ''.'';
          targets = cname_targets row;
          target = (if targets = [] then [] else last targets)
      in if domain = [] \<or> target = [] then None
         else
           (let conf = (if safeCNAMEHost target then ''low'' else ''medium'') in
            Some (normalize now ((blank_entry \<lparr>src_Type = ''adguard_query_log'', src_Name = ''query_log'', src_URL = []\<rparr>
                    (qr_Reason row) domain [])
              \<lparr>en_Layer := LayerDNS, en_ResourceType := ''domain'', en_Category := ''tracker'',
               en_Risk := ''medium'', en_Confidence := conf, en_CNAMEChain := domain # targets,
               en_CNAMETarget := target, en_CNAMEConfidence := conf,
               en_CloakingDetected := \<not> safeCNAMEHost target,
               en_ActionCandidates := [''agh-rewrite'', ''agh-custom-rule''],
               en_RewriteState := ''agh_rewrite_candidate'', en_AGHQueryLogRef := domain\<rparr>))))"

definition fetchAGHQueryLogCNAME ::
  "(string \<Rightarrow> string) \<Rightarrow> time \<Rightarrow> agh_api \<Rightarrow> string \<Rightarrow> error + Entry list" where
  "fetchAGHQueryLogCNAME digest now api base =
     (case api_url api (TrimRight base CHR ''/'' @ ''/control/querylog'') of
        Inl e \<Rightarrow> Inl e
      | Inr u \<Rightarrow>
          (case api_get api u of
             Inl e \<Rightarrow> Inl (Err (''fetch AGH query log: '' @ error_text e))
           | Inr (code, body) \<Rightarrow>
               if \<not> status_ok code then Inl (Err (''fetch AGH query log: status '' @ show_int code))
               else
                 (case api_log api (take (8 * 2 ^ 20) body) of
                    Inl e \<Rightarrow> Inl (Err (''parse AGH query log: '' @ error_text e))
                  | Inr rows \<Rightarrow>
                      Inr (map (\<lambda>e. e\<lparr>en_ID := stableID digest e\<rparr>)
                        (List.map_filter (query_entry now) rows)))))"

text \<open>\<^verbatim>\<open>SyncConfig\<close> without the HTTP client; \<^verbatim>\<open>Build\<close> fetches and merges the sources.\<close>

record SyncConfig =
  sc_Enabled :: bool
  sc_BaseURL :: string
  sc_SyncFilters :: bool
  sc_SyncCustomRules :: bool
  sc_SyncAllowDeny :: bool
  sc_SyncQueryLog :: bool
  sc_CNAMEEnabled :: bool
  sc_CNAMEUseQueryLog :: bool
  sc_FilterURLs :: "string list"
  sc_CustomRules :: "string list"

definition agh_config :: "agh_api \<Rightarrow> SyncConfig \<Rightarrow> error + SyncConfig" where
  "agh_config api cfg =
     (if sc_Enabled cfg \<and> sc_BaseURL cfg \<noteq> [] \<and> (sc_SyncFilters cfg \<or> sc_SyncCustomRules cfg)
      then
        (case fetchAGHFilteringStatus api (sc_BaseURL cfg) of
           Inl e \<Rightarrow> Inl e
         | Inr (urls, rules) \<Rightarrow>
             Inr (cfg\<lparr>sc_FilterURLs := (if sc_SyncFilters cfg then sc_FilterURLs cfg @ urls else sc_FilterURLs cfg),
                      sc_CustomRules := (if sc_SyncCustomRules cfg then sc_CustomRules cfg @ rules
                                         else sc_CustomRules cfg)\<rparr>))
      else Inr cfg)"

text \<open>The filter lists, with the number of sources read; on an error, the count so far.\<close>

fun build_filters ::
  "(string \<Rightarrow> string) \<Rightarrow> time \<Rightarrow> agh_api \<Rightarrow> string list \<Rightarrow> Entry list \<Rightarrow> int \<Rightarrow> (error + Entry list) \<times> int" where
  "build_filters digest now api [] out n = (Inr out, n)"
| "build_filters digest now api (u0 # us) out n =
     (let u = TrimSpace u0 in
      if u = [] then build_filters digest now api us out n
      else
        (case fetch (api_get api) u of
           Inl e \<Rightarrow> (Inl e, n)
         | Inr body \<Rightarrow>
             (case ParseRules digest now body \<lparr>src_Type = ''adguard_filter'', src_Name = u, src_URL = u\<rparr> of
                Inl e \<Rightarrow> (Inl e, n)
              | Inr es \<Rightarrow> build_filters digest now api us (out @ es) (n + 1))))"

definition build_custom ::
  "(string \<Rightarrow> string) \<Rightarrow> time \<Rightarrow> SyncConfig \<Rightarrow> Entry list \<Rightarrow> int \<Rightarrow> (error + Entry list) \<times> int" where
  "build_custom digest now cfg out n =
     (if sc_SyncCustomRules cfg \<and> sc_CustomRules cfg \<noteq> []
      then
        (case ParseRules digest now (Join (sc_CustomRules cfg) [CHR 0x0A])
                \<lparr>src_Type = ''adguard_custom'', src_Name = ''custom_rules'', src_URL = []\<rparr> of
           Inl e \<Rightarrow> (Inl e, n)
         | Inr es \<Rightarrow> (Inr (out @ es), n + 1))
      else (Inr out, n))"

definition build_cname ::
  "(string \<Rightarrow> string) \<Rightarrow> time \<Rightarrow> agh_api \<Rightarrow> SyncConfig \<Rightarrow> Entry list \<Rightarrow> int \<Rightarrow> (error + Entry list) \<times> int" where
  "build_cname digest now api cfg out n =
     (if sc_Enabled cfg \<and> sc_SyncQueryLog cfg \<and> sc_CNAMEEnabled cfg \<and> sc_CNAMEUseQueryLog cfg \<and>
         sc_BaseURL cfg \<noteq> []
      then
        (case fetchAGHQueryLogCNAME digest now api (sc_BaseURL cfg) of
           Inl e \<Rightarrow> (Inl e, n)
         | Inr es \<Rightarrow> if es \<noteq> [] then (Inr (out @ es), n + 1) else (Inr out, n))
      else (Inr out, n))"

definition rule_Build ::
  "(string \<Rightarrow> string) \<Rightarrow> time \<Rightarrow> agh_api \<Rightarrow> SyncConfig \<Rightarrow> (error + Entry list) \<times> int" where
  "rule_Build digest now api cfg0 =
     (case agh_config api cfg0 of
        Inl e \<Rightarrow> (Inl e, 0)
      | Inr cfg \<Rightarrow>
          (case (if sc_SyncFilters cfg then build_filters digest now api (sc_FilterURLs cfg) [] 0 else (Inr [], 0)) of
             (Inl e, n) \<Rightarrow> (Inl e, n)
           | (Inr out, n) \<Rightarrow>
               (case build_custom digest now cfg out n of
                  (Inl e, n) \<Rightarrow> (Inl e, n)
                | (Inr out, n) \<Rightarrow>
                    (case build_cname digest now api cfg out n of
                       (Inl e, n) \<Rightarrow> (Inl e, n)
                     | (Inr out, n) \<Rightarrow> (Inr (mergePriority out), n)))))"

subsection \<open>Facts\<close>

text \<open>An entry in the form every stored entry has.\<close>

definition normal :: "Entry \<Rightarrow> bool" where
  "normal e \<longleftrightarrow> ToLower (m_Domain (en_Match e)) = m_Domain (en_Match e) \<and>
     en_Layer e \<noteq> [] \<and> en_Category e \<noteq> [] \<and> en_Risk e \<noteq> [] \<and> en_Confidence e \<noteq> [] \<and> en_ReviewStatus e \<noteq> []"

lemma normalize_normal: "normal (normalize now e)"
  by (simp add: normal_def normalize_def Let_def or_default_def catalog_consts)

lemma normalize_ID [simp]: "en_ID (normalize now e) = en_ID e"
  by (simp add: normalize_def Let_def)

lemma ParseRules_entries:
  assumes "ParseRules digest now text src = Inr es" "e \<in> set es"
  shows "normal e \<and> en_ID e = stableID digest e \<and>
    (\<exists>l\<in>set (scan_lines text). \<exists>e0. parse_line src l = Some e0 \<and> e = finish_entry digest now e0)"
proof -
  obtain e0 l where "parse_line src l = Some e0" "l \<in> set (scan_lines text)" "e = finish_entry digest now e0"
    using assms by (auto simp: ParseRules_def map_filter_def split: option.splits)
  moreover have "normal (finish_entry digest now e0)" "en_ID (finish_entry digest now e0) = stableID digest (finish_entry digest now e0)"
    using normalize_normal[of now e0] by (simp_all add: finish_entry_def Let_def normal_def stableID_def)
  ultimately show ?thesis by blast
qed

text \<open>The merge keeps, of the entries with a key, the last among those of greatest priority.\<close>

definition best_of :: "Entry list \<Rightarrow> Entry option" where
  "best_of es = foldl (\<lambda>b e. case b of None \<Rightarrow> Some e
                       | Some p \<Rightarrow> if priority e \<ge> priority p then Some e else Some p) None es"

lemma best_of_snoc [simp]:
  "best_of [] = None"
  "best_of (es @ [e]) = (case best_of es of None \<Rightarrow> Some e
     | Some p \<Rightarrow> if priority e \<ge> priority p then Some e else Some p)"
  by (simp_all add: best_of_def)

lemma best_of_None: "best_of es = None \<longleftrightarrow> es = []"
  by (cases es rule: rev_cases) (auto split: option.splits)

lemma best_of_max: "best_of es = Some b \<Longrightarrow> b \<in> set es \<and> (\<forall>e\<in>set es. priority e \<le> priority b)"
proof (induction es arbitrary: b rule: rev_induct)
  case (snoc e es)
  show ?case
  proof (cases "best_of es")
    case None
    with snoc.prems show ?thesis by (auto simp: best_of_None)
  next
    case (Some p)
    with snoc show ?thesis by (auto split: if_splits)
  qed
qed simp

lemma merge_invariant:
  "wf_map (foldl merge_one [] es) \<and>
   (\<forall>k. lookup (foldl merge_one [] es) k = best_of (filter (\<lambda>e. merge_key e = k) es))"
proof (induction es rule: rev_induct)
  case (snoc e es)
  then show ?case
    by (auto simp: merge_one_def split: option.splits)
qed simp

lemma mergePriority_iff:
  "e \<in> set (mergePriority es) \<longleftrightarrow> best_of (filter (\<lambda>x. merge_key x = merge_key e) es) = Some e"
proof -
  let ?m = "foldl merge_one [] es"
  have wf: "wf_map ?m" and lk: "\<And>k. lookup ?m k = best_of (filter (\<lambda>x. merge_key x = k) es)"
    using merge_invariant[of es] by auto
  have key: "k = merge_key x" if "lookup ?m k = Some x" for k x
    using that lk best_of_max[of "filter (\<lambda>x. merge_key x = k) es" x] by auto
  have "e \<in> set (mergePriority es) \<longleftrightarrow> (\<exists>k. (k, e) \<in> set ?m)"
    by (force simp: mergePriority_def)
  also have "\<dots> \<longleftrightarrow> (\<exists>k. lookup ?m k = Some e)" by (simp only: in_set_lookup[OF wf])
  also have "\<dots> \<longleftrightarrow> lookup ?m (merge_key e) = Some e" using key by blast
  finally show ?thesis by (simp only: lk)
qed

lemma mergePriority_distinct: "distinct (map merge_key (mergePriority es))"
proof -
  let ?m = "foldl merge_one [] es"
  have wf: "wf_map ?m" using merge_invariant[of es] by blast
  have "merge_key x = k" if "(k, x) \<in> set ?m" for k x
  proof -
    have "lookup ?m k = Some x" using that wf by (simp only: in_set_lookup)
    then have "best_of (filter (\<lambda>e. merge_key e = k) es) = Some x" using merge_invariant[of es] by simp
    then show ?thesis using best_of_max by fastforce
  qed
  then have "map merge_key (mergePriority es) = map fst ?m" by (auto simp: mergePriority_def)
  with wf show ?thesis by (simp only: wf_map_def)
qed

lemma parseAdblock_script:
  assumes "HasPrefix l ''||''" "\<not> HasPrefix l ''@@''" "\<not> Contains l ''##''" "\<not> Contains l ''#?#''"
    and "TrimPrefix l ''||'' = body" "cut_before CHR ''$'' body = rp"
    and "Contains (ToLower (cut_after CHR ''$'' body)) ''script''"
    and "Trim (takeWhile (\<lambda>c. \<not> is_sep c) rp) [CHR ''|'', CHR 0x5E, CHR ''*'', CHR ''/''] = d" "d \<noteq> []"
  shows "\<exists>e. parseAdblock l src = Some e \<and> en_ResourceType e = ''script'' \<and> en_Risk e = ''high'' \<and>
    en_ExpectedCatalog e = ''noop-sdk'' \<and> m_Domain (en_Match e) = d"
  using assms by (simp add: parseAdblock_def TrimPrefix_def[of l "''@@''"] Let_def blank_entry_def)

subsection \<open>Properties\<close>

text \<open>Of the entries for one domain and path the merge keeps exactly one, the last of those with
  the greatest priority: an allow exception beats every other rule, a custom rule every list
  rule.\<close>

theorem mergePriority_keeps_best:
  "distinct (map merge_key (mergePriority es)) \<and>
   (\<forall>e\<in>set es. \<exists>b\<in>set (mergePriority es). merge_key b = merge_key e \<and> priority e \<le> priority b) \<and>
   (\<forall>b\<in>set (mergePriority es). b \<in> set es \<and>
      (\<forall>e\<in>set es. merge_key e = merge_key b \<longrightarrow> priority e \<le> priority b) \<and>
      (\<forall>xs e. es = xs @ [e] \<and> merge_key e = merge_key b \<and> priority e = priority b \<longrightarrow> b = e))"
proof -
  have "\<exists>b\<in>set (mergePriority es). merge_key b = merge_key e \<and> priority e \<le> priority b"
    if e: "e \<in> set es" for e
  proof -
    let ?f = "filter (\<lambda>x. merge_key x = merge_key e) es"
    have "?f \<noteq> []" using e by (auto simp: filter_empty_conv)
    then obtain b where b: "best_of ?f = Some b" using best_of_None by blast
    then have k: "merge_key b = merge_key e" "\<forall>x\<in>set ?f. priority x \<le> priority b"
      using best_of_max[OF b] by auto
    then have "b \<in> set (mergePriority es)" using b by (simp add: mergePriority_iff)
    with k e show ?thesis by auto
  qed
  moreover have "b \<in> set es \<and> (\<forall>e\<in>set es. merge_key e = merge_key b \<longrightarrow> priority e \<le> priority b) \<and>
      (\<forall>xs e. es = xs @ [e] \<and> merge_key e = merge_key b \<and> priority e = priority b \<longrightarrow> b = e)"
    if "b \<in> set (mergePriority es)" for b
  proof -
    have b: "best_of (filter (\<lambda>x. merge_key x = merge_key b) es) = Some b"
      using that by (simp only: mergePriority_iff)
    then show ?thesis using best_of_max[OF b] by (auto split: option.splits if_splits)
  qed
  ultimately show ?thesis using mergePriority_distinct by blast
qed

definition ex_src :: Source where
  "ex_src = \<lparr>src_Type = ''adguard_filter'', src_Name = ''l'', src_URL = ''l''\<rparr>"

definition ex_block :: Entry where
  "ex_block = blank_entry ex_src ''||a.b^'' ''a.b'' []"

definition ex_except :: Entry where
  "ex_except = (blank_entry ex_src ''@@||a.b^'' ''a.b'' [])\<lparr>en_Category := ''allow_exception''\<rparr>"

theorem mergePriority_keeps_best_witness: "ex_except \<in> set (mergePriority [ex_block, ex_except, ex_block])"
proof -
  have p: "priority ex_block = 10" "priority ex_except = 100"
    by (simp_all add: ex_block_def ex_except_def blank_entry_def priority_def LayerHTTP_def ex_src_def)
  have "ex_except \<in> set [ex_block, ex_except, ex_block]" by simp
  then obtain b where b: "b \<in> set (mergePriority [ex_block, ex_except, ex_block])" "100 \<le> priority b"
    using mergePriority_keeps_best[of "[ex_block, ex_except, ex_block]"] p(2) by metis
  then have "b \<in> set [ex_block, ex_except, ex_block]"
    using mergePriority_keeps_best[of "[ex_block, ex_except, ex_block]"] by blast
  with b p(1) have "b = ex_except" by auto
  with b(1) show ?thesis by simp
qed

text \<open>Every entry parsed from a rule list comes from one line of it, is normalised (lower-case
  domain; layer, category, risk, confidence and review status set) and carries the identifier
  derived from its source, rule text and match.\<close>

theorem parsed_entries_are_normal:
  assumes "ParseRules digest now text src = Inr es" "e \<in> set es"
  shows "normal e \<and> en_ID e = stableID digest e \<and>
    (\<exists>l\<in>set (scan_lines text). \<exists>e0. parse_line src l = Some e0 \<and> e = finish_entry digest now e0)"
  using assms by (rule ParseRules_entries)

theorem parsed_entries_are_normal_witness:
  "\<exists>es. ParseRules (\<lambda>s. s) 5 ''0.0.0.0 Ads.Example.com'' ex_src = Inr es \<and> normal (hd es)"
proof -
  have l0: "scan_lines ''0.0.0.0 Ads.Example.com'' = [''0.0.0.0 Ads.Example.com'']"
    "scan_err ''0.0.0.0 Ads.Example.com'' = None"
    by (simp_all add: scan_lines_def scan_err_def max_token_def drop_cr_def)
  have l: "TrimSpace ''0.0.0.0 Ads.Example.com'' = ''0.0.0.0 Ads.Example.com''"
    "skip_line ''0.0.0.0 Ads.Example.com'' = False" "Fields ''0.0.0.0 Ads.Example.com'' = [''0.0.0.0'', ''Ads.Example.com'']"
    "Contains (TrimSuffix ''Ads.Example.com'' ''.'') '':'' = False" "TrimSuffix ''Ads.Example.com'' ''.'' = ''Ads.Example.com''"
    "Contains ''0.0.0.0 Ads.Example.com'' ''##'' = False" "Contains ''0.0.0.0 Ads.Example.com'' ''#?#'' = False"
    "TrimPrefix ''0.0.0.0 Ads.Example.com'' ''@@'' = ''0.0.0.0 Ads.Example.com''"
    "HasPrefix ''0.0.0.0 Ads.Example.com'' ''||'' = False"
    by code_simp+
  then obtain e0 where "parse_line ex_src ''0.0.0.0 Ads.Example.com'' = Some e0"
    by (simp add: parse_line_def parseHosts_def parseAdblock_def hosts_ips_def Let_def)
  with l0 have es: "ParseRules (\<lambda>s. s) 5 ''0.0.0.0 Ads.Example.com'' ex_src = Inr [finish_entry (\<lambda>s. s) 5 e0]"
    by (simp add: ParseRules_def map_filter_simps)
  from parsed_entries_are_normal[OF this] show ?thesis using es by simp
qed

text \<open>A line of a hosts file blocks exactly its first name: an address of the four null addresses,
  white space and a name give one high-confidence DNS entry for the name without its final dot,
  unless the name is \<^verbatim>\<open>localhost\<close> or contains a colon.\<close>

theorem parseHosts_iff:
  "parseHosts line src = Some e \<longleftrightarrow>
     (\<exists>ip name rest. Fields line = ip # name # rest \<and> ip \<in> set hosts_ips \<and>
        TrimSuffix name ''.'' \<noteq> ''localhost'' \<and> \<not> Contains (TrimSuffix name ''.'') '':'' \<and>
        e = (blank_entry src line (TrimSuffix name ''.'') [])
              \<lparr>en_Layer := LayerDNS, en_Category := ''tracker'', en_ResourceType := ''domain'',
               en_Risk := ''medium'', en_Confidence := ''high'',
               en_ActionCandidates := [''agh-custom-rule'', ''stub:beacon-204''],
               en_RewriteState := ''candidate''\<rparr>)"
  by (auto simp: parseHosts_def Let_def split: list.splits)

text \<open>The options of an Adblock rule are searched as text: an option that excludes scripts is
  read as one that names them, so a block rule for everything but scripts becomes a high-risk
  script entry with a stub proposed for it.\<close>

theorem negated_script_option_is_script:
  assumes "d \<noteq> []" "set d \<inter> {CHR ''#'', CHR 0x5E, CHR ''/'', CHR ''$'', CHR ''|'', CHR ''*''} = {}"
  shows "\<exists>e. parseAdblock (''||'' @ d @ [CHR 0x5E] @ ''$~script'') src = Some e \<and>
    en_ResourceType e = ''script'' \<and> en_Risk e = ''high'' \<and> en_ExpectedCatalog e = ''noop-sdk'' \<and>
    m_Domain (en_Match e) = d"
proof -
  let ?l = "''||'' @ d @ [CHR 0x5E] @ ''$~script''"
  have "CHR ''#'' \<notin> set ?l" using assms(2) by auto
  then have "\<not> Contains ?l sub" if "CHR ''#'' \<in> set sub" for sub
    using that unfolding Contains_iff by (metis Un_iff set_append)
  then have c: "\<not> Contains ?l ''##''" "\<not> Contains ?l ''#?#''" by (simp_all del: Contains.simps)
  have a: "\<not> HasPrefix ?l ''@@''" by (simp add: HasPrefix_def)
  have b: "cut_before CHR ''$'' (d @ [CHR 0x5E] @ ''$~script'') = d @ [CHR 0x5E]"
      "cut_after CHR ''$'' (d @ [CHR 0x5E] @ ''$~script'') = ''~script''"
    using assms(2) by (auto simp: cut_before_def cut_after_def takeWhile_append dropWhile_append)
  have s: "dropWhile (\<lambda>c. \<not> is_sep c) (d @ [CHR 0x5E]) = [CHR 0x5E]"
      "takeWhile (\<lambda>c. \<not> is_sep c) (d @ [CHR 0x5E]) = d"
    using assms(2) by (auto simp: is_sep_def takeWhile_append dropWhile_append)
  have keep: "dropWhile (\<lambda>c. c \<in> {CHR ''|'', CHR 0x5E, CHR ''*'', CHR ''/''}) xs = xs" if "set xs = set d" for xs
  proof (cases xs)
    case (Cons x ys)
    then have "x \<in> set d" using that by auto
    then have "x \<notin> {CHR ''|'', CHR 0x5E, CHR ''*'', CHR ''/''}" using assms(2) by blast
    then show ?thesis unfolding Cons by (simp only: dropWhile.simps if_False)
  qed simp
  have t: "Trim d [CHR ''|'', CHR 0x5E, CHR ''*'', CHR ''/''] = d"
    unfolding Trim_def trim_while_def list.set by (simp only: keep[of d] keep[of "rev d"] set_rev rev_rev_ident refl)
  have o: "Contains (ToLower ''~script'') ''script''" by code_simp
  have p: "HasPrefix ?l ''||''" "TrimPrefix ?l ''||'' = d @ [CHR 0x5E] @ ''$~script''"
    using HasPrefix_append[of "''||''"] TrimPrefix_append[of "''||''"] by blast+
  show ?thesis 
    using parseAdblock_script[OF p(1) a c p(2) b(1), unfolded b(2) s(2), OF o t assms(1)] .
qed

theorem negated_script_option_is_script_witness:
  "\<exists>e. parseAdblock (''||'' @ ''a.b'' @ [CHR 0x5E] @ ''$~script'') ex_src = Some e \<and> en_Risk e = ''high''"
  using negated_script_option_is_script[of "''a.b''" ex_src] by auto

end
