(* ===== verification/RuleStore.thy ===== *)
theory RuleStore
  imports RuleCatalog
begin

text \<open>
  The rule-catalog store of \<^verbatim>\<open>internal/rulecatalog/catalog.go\<close>: the entries by identifier,
  their review operations, filtered listing, lookup of the best entry for a request, analytics
  and the replacement of the contents by a sync.

  The lock makes each operation one step. A save takes the outcome of its file operations as the
  argument \<open>io\<close> and writes the entries in identifier order with the status.
\<close>

subsection \<open>State\<close>

record Status =
  ss_LastRun :: time
  ss_LastSuccess :: time
  ss_LastError :: string
  ss_Entries :: int
  ss_Sources :: int
  ss_AGHEnabled :: bool
  ss_QueryLogSync :: bool

definition zero_status :: Status where
  "zero_status = \<lparr>ss_LastRun = 0, ss_LastSuccess = 0, ss_LastError = [], ss_Entries = 0, ss_Sources = 0,
     ss_AGHEnabled = False, ss_QueryLogSync = False\<rparr>"

record RStore =
  rs_path :: string
  rs_entries :: "(string, Entry) gomap"
  rs_status :: Status
  rs_file :: "(Entry list \<times> Status) option"

definition rc_saveLocked :: "error option \<Rightarrow> RStore \<Rightarrow> error option \<times> RStore" where
  "rc_saveLocked io s =
     (if rs_path s = [] then (None, s)
      else
        (case io of
           Some e \<Rightarrow> (Some e, s)
         | None \<Rightarrow> (None, s\<lparr>rs_file := Some (sort_key en_ID (map snd (rs_entries s)), rs_status s)\<rparr>)))"

definition with_id :: "(string \<Rightarrow> string) \<Rightarrow> Entry \<Rightarrow> Entry" where
  "with_id digest e = (if en_ID e = [] then e\<lparr>en_ID := stableID digest e\<rparr> else e)"

text \<open>\<^verbatim>\<open>Open\<close>: the file's contents, or an error reading it, and the JSON decoder.\<close>

definition open_entry :: "(string \<Rightarrow> string) \<Rightarrow> time \<Rightarrow> (string, Entry) gomap \<Rightarrow> Entry \<Rightarrow> (string, Entry) gomap" where
  "open_entry digest now m e0 = (let e = with_id digest e0 in put (en_ID e) (normalize now e) m)"

definition rc_Open ::
  "(string \<Rightarrow> string) \<Rightarrow> time \<Rightarrow> (string \<Rightarrow> error + Entry list \<times> Status) \<Rightarrow> string \<Rightarrow> error + string \<Rightarrow>
   error + RStore" where
  "rc_Open digest now unmarshal path file =
     (let empty = \<lparr>rs_path = path, rs_entries = [], rs_status = zero_status, rs_file = None\<rparr> in
      case file of
        Inr raw \<Rightarrow>
          if raw = [] then Inr empty
          else
            (case unmarshal raw of
               Inl e \<Rightarrow> Inl (Err (''parse rule catalog: '' @ error_text e))
             | Inr (es, st) \<Rightarrow>
                 (let m = foldl (open_entry digest now) [] es
                  in Inr (empty\<lparr>rs_entries := m, rs_status := st\<lparr>ss_Entries := int (length m)\<rparr>,
                                rs_file := Some (es, st)\<rparr>)))
      | Inl e \<Rightarrow> if e \<noteq> ErrNotExist then Inl e else Inr empty)"

subsection \<open>Replacing and writing entries\<close>

definition replace_entry :: "(string \<Rightarrow> string) \<Rightarrow> time \<Rightarrow> (string, Entry) gomap \<Rightarrow> Entry \<Rightarrow> (string, Entry) gomap" where
  "replace_entry digest now m e0 = (let e = with_id digest (normalize now e0) in put (en_ID e) e m)"

definition rc_Replace ::
  "(string \<Rightarrow> string) \<Rightarrow> time \<Rightarrow> error option \<Rightarrow> Entry list \<Rightarrow> Status \<Rightarrow> RStore \<Rightarrow> error option \<times> RStore" where
  "rc_Replace digest now io es st s =
     (let m = foldl (replace_entry digest now) [] es
      in rc_saveLocked io (s\<lparr>rs_entries := m, rs_status := st\<lparr>ss_Entries := int (length m)\<rparr>\<rparr>))"

definition rc_Upsert ::
  "(string \<Rightarrow> string) \<Rightarrow> time \<Rightarrow> error option \<Rightarrow> Entry \<Rightarrow> RStore \<Rightarrow> error option \<times> RStore" where
  "rc_Upsert digest now io e s =
     (let m = replace_entry digest now (rs_entries s) e
      in rc_saveLocked io (s\<lparr>rs_entries := m, rs_status := (rs_status s)\<lparr>ss_Entries := int (length m)\<rparr>\<rparr>))"

text \<open>The operations that read one entry and write it back.\<close>

definition rc_modify ::
  "error option \<Rightarrow> string \<Rightarrow> (Entry \<Rightarrow> error + Entry) \<Rightarrow> RStore \<Rightarrow> (error + Entry) \<times> RStore" where
  "rc_modify io eid f s =
     (case lookup (rs_entries s) eid of
        None \<Rightarrow> (Inl ErrNotExist, s)
      | Some e \<Rightarrow>
          (case f e of
             Inl err \<Rightarrow> (Inl err, s)
           | Inr e' \<Rightarrow>
               (case rc_saveLocked io (s\<lparr>rs_entries := put eid e' (rs_entries s)\<rparr>) of
                  (Some err, s') \<Rightarrow> (Inl err, s')
                | (None, s') \<Rightarrow> (Inr e', s'))))"

definition review_states :: "string list" where
  "review_states = [[], ReviewCandidate, ReviewApproved, ReviewRejected, ReviewNeedsTest, ReviewDisabled]"

definition review_entry :: "time \<Rightarrow> string \<Rightarrow> bool option \<Rightarrow> Entry \<Rightarrow> error + Entry" where
  "review_entry now status verified e =
     (if status \<notin> set review_states then Inl (Err (''invalid review_status '' @ quote status))
      else Inr (e\<lparr>en_ReviewStatus := (if status \<noteq> [] then status else en_ReviewStatus e),
                  en_Verified := (case verified of None \<Rightarrow> en_Verified e | Some v \<Rightarrow> v),
                  en_UpdatedAt := now\<rparr>))"

definition promote_entry :: "time \<Rightarrow> Entry \<Rightarrow> error + Entry" where
  "promote_entry now e =
     Inr (e\<lparr>en_Verified := True, en_ReviewStatus := ReviewApproved,
            en_PromotionCount := en_PromotionCount e + 1, en_UpdatedAt := now\<rparr>)"

definition downgrade_entry :: "time \<Rightarrow> Entry \<Rightarrow> error + Entry" where
  "downgrade_entry now e =
     Inr (e\<lparr>en_Verified := False, en_ReviewStatus := ReviewDisabled,
            en_DemotionCount := en_DemotionCount e + 1,
            en_FalsePositiveCount := en_FalsePositiveCount e + 1, en_UpdatedAt := now\<rparr>)"

definition cname_entry ::
  "time \<Rightarrow> string list \<Rightarrow> string \<Rightarrow> string \<Rightarrow> string \<Rightarrow> string \<Rightarrow> Entry \<Rightarrow> error + Entry" where
  "cname_entry now chain target vendor confidence queryRef e =
     (let t = TrimSuffix (ToLower target) ''.'';
          cloak = (t \<noteq> [] \<and> \<not> safeCNAMEHost t)
      in Inr (e\<lparr>en_CNAMEChain := cleanChain chain, en_CNAMETarget := t, en_TrackerVendor := vendor,
                en_CNAMEConfidence := confidence, en_AGHQueryLogRef := queryRef,
                en_CloakingDetected := cloak,
                en_RewriteState := (if cloak \<and> en_RewriteState e = [] then ''agh_rewrite_candidate''
                                    else en_RewriteState e),
                en_UpdatedAt := now\<rparr>))"

definition rc_Review where
  "rc_Review now io eid status verified = rc_modify io eid (review_entry now status verified)"

definition rc_Promote where
  "rc_Promote now io eid = rc_modify io eid (promote_entry now)"

definition rc_Downgrade where
  "rc_Downgrade now io eid = rc_modify io eid (downgrade_entry now)"

definition rc_MarkCNAME where
  "rc_MarkCNAME now io eid chain target vendor confidence queryRef =
     rc_modify io eid (cname_entry now chain target vendor confidence queryRef)"

record rewriteCandidate =
  rw_domain :: string
  rw_custom_rule :: string
  rw_rewrite_candidate :: string

definition rc_RewriteCandidate :: "string \<Rightarrow> RStore \<Rightarrow> error + rewriteCandidate" where
  "rc_RewriteCandidate eid s =
     (case lookup (rs_entries s) eid of
        None \<Rightarrow> Inl ErrNotExist
      | Some e \<Rightarrow>
          (let domain = m_Domain (en_Match e) in
           if domain = [] then Inl (Err ''entry has no domain'')
           else
             (let rule = ''||'' @ domain @ [CHR 0x5E];
                  rule' = (if en_Category e = ''allow_exception'' then ''@@'' @ rule else rule)
              in Inr \<lparr>rw_domain = domain, rw_custom_rule = rule',
                      rw_rewrite_candidate = domain @ '' A <mirage-chaff-ip>''\<rparr>)))"

subsection \<open>Reading\<close>

definition filter_ok :: "Entry \<Rightarrow> string \<Rightarrow> string \<Rightarrow> bool" where
  "filter_ok e k v \<longleftrightarrow>
     (if v = [] then True
      else if k = ''domain'' then domainMatches (m_Domain (en_Match e)) v \<or> domainMatches v (m_Domain (en_Match e))
      else if k = ''category'' then en_Category e = v
      else if k = ''risk'' then en_Risk e = v
      else if k = ''verified'' then (v = ''true'') = en_Verified e
      else if k = ''review_status'' then en_ReviewStatus e = v
      else if k = ''source_type'' then src_Type (en_Source e) = v
      else True)"

definition matchesFilter :: "Entry \<Rightarrow> (string, string) gomap \<Rightarrow> bool" where
  "matchesFilter e f \<longleftrightarrow> list_all (\<lambda>(k, v). filter_ok e k v) f"

text \<open>The comparator of \<^verbatim>\<open>List\<close> as a key: domain first, then identifier.\<close>

definition list_key :: "Entry \<Rightarrow> string \<times> string" where
  "list_key e = (m_Domain (en_Match e), en_ID e)"

definition rc_List :: "(string, string) gomap \<Rightarrow> RStore \<Rightarrow> Entry list" where
  "rc_List f s = sort_key list_key (filter (\<lambda>e. matchesFilter e f) (map snd (rs_entries s)))"

definition rc_Get :: "string \<Rightarrow> RStore \<Rightarrow> Entry option" where
  "rc_Get eid s = lookup (rs_entries s) eid"

definition lookup_score :: "string \<Rightarrow> string \<Rightarrow> Entry \<Rightarrow> nat option" where
  "lookup_score domain path e =
     (let d = m_Domain (en_Match e); p = m_Path (en_Match e) in
      if d = [] \<or> \<not> domainMatches domain d then None
      else if p = [] then Some (length d)
      else if HasPrefix path p \<or> Contains path p then Some (length d + (length p + 1000))
      else None)"

definition lookup_step ::
  "string \<Rightarrow> string \<Rightarrow> (Entry \<times> nat) option \<Rightarrow> Entry \<Rightarrow> (Entry \<times> nat) option" where
  "lookup_step domain path best e =
     (case lookup_score domain path e of
        None \<Rightarrow> best
      | Some sc \<Rightarrow>
          (case best of None \<Rightarrow> Some (e, sc) | Some (b, sb) \<Rightarrow> if sc > sb then Some (e, sc) else best))"

definition rc_Lookup :: "string \<Rightarrow> string \<Rightarrow> RStore \<Rightarrow> Entry option" where
  "rc_Lookup domain path s =
     map_option fst (foldl (lookup_step (ToLower (TrimSuffix domain ''.'')) path) None (map snd (rs_entries s)))"

definition rc_Status :: "RStore \<Rightarrow> Status" where
  "rc_Status s = (rs_status s)\<lparr>ss_Entries := int (length (rs_entries s))\<rparr>"

definition countBy :: "(Entry \<Rightarrow> string) \<Rightarrow> Entry list \<Rightarrow> (string, int) gomap" where
  "countBy field es =
     foldl (\<lambda>m e. let k = (if field e = [] then ''unknown'' else field e) in put k (get_or 0 m k + 1) m) [] es"

definition limitEntries :: "Entry list \<Rightarrow> nat \<Rightarrow> Entry list" where
  "limitEntries es n = (let s = sort_key (\<lambda>e. m_Domain (en_Match e)) es in if length s > n then take n s else s)"

definition countBool :: "Entry list \<Rightarrow> bool \<Rightarrow> int" where
  "countBool es want = int (length (filter (\<lambda>e. en_Verified e = want) es))"

record Analytics =
  an_total :: int
  an_by :: "(string \<times> (string, int) gomap) list"
  an_high_unverified :: "Entry list"
  an_unsupported_dom :: "Entry list"
  an_cname_candidates :: "Entry list"
  an_js_stub_candidates :: "Entry list"

definition rc_Analytics :: "RStore \<Rightarrow> Analytics" where
  "rc_Analytics s =
     (let es = map snd (rs_entries s) in
      \<lparr>an_total = int (length (rs_entries s)),
       an_by = [(''by_category'', countBy en_Category es), (''by_risk'', countBy en_Risk es),
                (''by_verified'', [(''true'', countBool es True), (''false'', countBool es False)]),
                (''by_review_status'', countBy en_ReviewStatus es),
                (''by_source_type'', countBy (\<lambda>e. src_Type (en_Source e)) es),
                (''by_resource_type'', countBy en_ResourceType es),
                (''by_expected_catalog'', countBy en_ExpectedCatalog es)],
       an_high_unverified = limitEntries (filter (\<lambda>e. en_Risk e = ''high'' \<and> \<not> en_Verified e) es) 50,
       an_unsupported_dom = limitEntries (filter (\<lambda>e. en_Layer e = LayerDOM \<or> en_Unsupported e) es) 50,
       an_cname_candidates = limitEntries (filter (\<lambda>e. en_CloakingDetected e \<or> en_CNAMETarget e \<noteq> []) es) 50,
       an_js_stub_candidates =
         limitEntries (filter (\<lambda>e. en_ResourceType e = ''script'' \<and> (en_FailureMode e \<noteq> [] \<or> \<not> en_Verified e)) es) 50\<rparr>)"

definition VerifiedStubCatalog :: "Entry \<Rightarrow> string \<Rightarrow> string option" where
  "VerifiedStubCatalog e site =
     (if \<not> en_Verified e \<or> en_ResourceType e \<noteq> ''script'' \<or> en_ExpectedCatalog e = [] \<or>
         en_ReviewStatus e = ReviewDisabled then None
      else if en_TestedSites e = [] then Some (en_ExpectedCatalog e)
      else
        (let s = ToLower (TrimSuffix site ''.'') in
         if list_ex (\<lambda>t. let t' = ToLower (TrimSuffix (TrimSpace t) ''.'')
                         in t' \<noteq> [] \<and> (s = t' \<or> HasSuffix s (CHR ''.'' # t'))) (en_TestedSites e)
         then Some (en_ExpectedCatalog e) else None))"

subsection \<open>Sync\<close>

definition rc_Sync ::
  "(string \<Rightarrow> string) \<Rightarrow> time \<Rightarrow> agh_api \<Rightarrow> SyncConfig \<Rightarrow> error option \<Rightarrow> error option \<Rightarrow> RStore \<Rightarrow> Status \<times> RStore" where
  "rc_Sync digest now api cfg io io' s =
     (case rule_Build digest now api cfg of
        (r, sources) \<Rightarrow>
          (let st = \<lparr>ss_LastRun = now, ss_LastSuccess = 0, ss_LastError = [], ss_Entries = 0,
                     ss_Sources = sources, ss_AGHEnabled = sc_Enabled cfg,
                     ss_QueryLogSync = sc_SyncQueryLog cfg\<rparr>
           in case r of
                Inl err \<Rightarrow>
                  (let st1 = st\<lparr>ss_LastError := error_text err\<rparr>
                   in (st1, snd (rc_Replace digest now io (rc_List [] s) st1 s)))
              | Inr es \<Rightarrow>
                  (let st1 = st\<lparr>ss_LastSuccess := now\<rparr> in
                   case rc_Replace digest now io es st1 s of
                     (None, s1) \<Rightarrow> (rc_Status s1, s1)
                   | (Some err, s1) \<Rightarrow>
                       (let st2 = st1\<lparr>ss_LastError := error_text err\<rparr>
                        in (st2, snd (rc_Replace digest now io' es st2 s1))))))"

subsection \<open>Facts\<close>

definition keyed :: "(string, Entry) gomap \<Rightarrow> bool" where
  "keyed m \<longleftrightarrow> wf_map m \<and> (\<forall>k e. lookup m k = Some e \<longrightarrow> en_ID e = k \<and> k \<noteq> [] \<and> normal e)"

definition rc_inv :: "RStore \<Rightarrow> bool" where
  "rc_inv s \<longleftrightarrow> keyed (rs_entries s) \<and> ss_Entries (rs_status s) = int (length (rs_entries s))"

lemma rc_save [simp]:
  "rs_entries (snd (rc_saveLocked io s)) = rs_entries s" "rs_status (snd (rc_saveLocked io s)) = rs_status s"
  "rs_path (snd (rc_saveLocked io s)) = rs_path s"
  by (auto simp: rc_saveLocked_def split: option.splits)

lemma with_id_props: "en_ID (with_id digest e) \<noteq> []" "normal (with_id digest e) = normal e"
  by (auto simp: with_id_def stableID_def normal_def)

lemma keyed_put: "keyed m \<Longrightarrow> normal e \<Longrightarrow> en_ID e \<noteq> [] \<Longrightarrow> keyed (put (en_ID e) e m)"
  by (auto simp: keyed_def)

lemma replace_entry_keyed: "keyed m \<Longrightarrow> keyed (replace_entry digest now m e)"
  unfolding replace_entry_def Let_def
  by (intro keyed_put) (simp_all add: with_id_props normalize_normal)

lemma replace_all_keyed: "keyed m \<Longrightarrow> keyed (foldl (replace_entry digest now) m es)"
  by (induction es arbitrary: m) (auto simp: replace_entry_keyed)

lemma keyed_Nil [simp]: "keyed []"
  by (simp add: keyed_def)

lemma open_entry_keyed: "keyed m \<Longrightarrow> keyed (open_entry digest now m e)"
  unfolding open_entry_def Let_def
  using keyed_put[of m "normalize now (with_id digest e)"]
  by (simp add: with_id_props normalize_normal)

lemma open_all_keyed: "keyed m \<Longrightarrow> keyed (foldl (open_entry digest now) m es)"
  by (induction es arbitrary: m) (auto simp: open_entry_keyed)

lemma rc_Open_inv: "rc_Open digest now u path file = Inr s \<Longrightarrow> rc_inv s"
  by (auto simp: rc_Open_def Let_def rc_inv_def zero_status_def open_all_keyed
      split: sum.splits if_splits prod.splits)

lemma rc_Replace_inv: "rc_inv (snd (rc_Replace digest now io es st s))"
  by (simp add: rc_Replace_def rc_inv_def Let_def replace_all_keyed)

lemma rc_Upsert_inv: "rc_inv s \<Longrightarrow> rc_inv (snd (rc_Upsert digest now io e s))"
  by (simp add: rc_Upsert_def rc_inv_def Let_def replace_entry_keyed)

text \<open>An update of one entry that keeps what the invariant needs.\<close>

definition keeps_shape :: "(Entry \<Rightarrow> error + Entry) \<Rightarrow> bool" where
  "keeps_shape f \<longleftrightarrow> (\<forall>e e'. f e = Inr e' \<longrightarrow> en_ID e' = en_ID e \<and> (normal e \<longrightarrow> normal e'))"

lemma shape_review: "keeps_shape (review_entry now st v)"
  by (auto simp: keeps_shape_def review_entry_def normal_def)

lemma shape_others:
  "keeps_shape (promote_entry now)" "keeps_shape (downgrade_entry now)"
  "keeps_shape (cname_entry now chain t v c q)"
  by (auto simp: keeps_shape_def promote_entry_def downgrade_entry_def cname_entry_def normal_def Let_def
      catalog_consts)

lemma rc_modify_result:
  "rc_modify io eid f s =
     (case lookup (rs_entries s) eid of
        None \<Rightarrow> (Inl ErrNotExist, s)
      | Some e \<Rightarrow>
          (case f e of
             Inl err \<Rightarrow> (Inl err, s)
           | Inr e' \<Rightarrow>
               (let r = rc_saveLocked io (s\<lparr>rs_entries := put eid e' (rs_entries s)\<rparr>)
                in (case fst r of None \<Rightarrow> Inr e' | Some err \<Rightarrow> Inl err, snd r))))"
  by (auto simp: rc_modify_def Let_def split: option.splits sum.splits prod.splits)

lemma rc_modify_entries:
  "rs_entries (snd (rc_modify io eid f s)) =
     (case lookup (rs_entries s) eid of
        None \<Rightarrow> rs_entries s
      | Some e \<Rightarrow> (case f e of Inl _ \<Rightarrow> rs_entries s | Inr e' \<Rightarrow> put eid e' (rs_entries s)))"
  "rs_status (snd (rc_modify io eid f s)) = rs_status s"
  by (simp_all add: rc_modify_result Let_def split: option.splits sum.splits)

lemma rc_modify_inv:
  assumes "rc_inv s" "keeps_shape f"
  shows "rc_inv (snd (rc_modify io eid f s))"
proof (cases "lookup (rs_entries s) eid")
  case (Some e)
  with assms(1) have e: "en_ID e = eid" "eid \<noteq> []" "normal e" by (auto simp: rc_inv_def keyed_def)
  show ?thesis
  proof (cases "f e")
    case (Inr e')
    with assms(2) e have "en_ID e' = eid" "normal e'" by (auto simp: keeps_shape_def)
    then have "keyed (put eid e' (rs_entries s))"
      using keyed_put[of "rs_entries s" e'] assms(1) e(2) by (simp add: rc_inv_def)
    moreover have "length (put eid e' (rs_entries s)) = length (rs_entries s)"
      using Some by (simp add: length_put)
    ultimately show ?thesis
      using Some Inr assms(1) by (simp add: rc_inv_def rc_modify_entries)
  qed (use Some assms(1) in \<open>simp add: rc_inv_def rc_modify_entries\<close>)
qed (use assms(1) in \<open>simp add: rc_inv_def rc_modify_entries\<close>)

lemma rc_Sync_inv: "rc_inv (snd (rc_Sync digest now api cfg io io' s))"
proof -
  obtain r n where b: "rule_Build digest now api cfg = (r, n)" by fastforce
  show ?thesis
  proof (cases r)
    case (Inl err)
    with b show ?thesis by (simp add: rc_Sync_def Let_def rc_Replace_inv)
  next
    case (Inr es)
    let ?st = "\<lparr>ss_LastRun = now, ss_LastSuccess = now, ss_LastError = [], ss_Entries = 0,
                ss_Sources = n, ss_AGHEnabled = sc_Enabled cfg, ss_QueryLogSync = sc_SyncQueryLog cfg\<rparr>"
    obtain x s1 where x: "rc_Replace digest now io es ?st s = (x, s1)" by fastforce
    have "rc_inv s1" using rc_Replace_inv[of digest now io es ?st s] x by simp
    with b Inr x show ?thesis
      by (cases x) (simp_all add: rc_Sync_def Let_def rc_Replace_inv)
  qed
qed

datatype rc_op =
    RReplace time "error option" "Entry list" Status
  | RUpsert time "error option" Entry
  | RReview time "error option" string string "bool option"
  | RPromote time "error option" string
  | RDowngrade time "error option" string
  | RMarkCNAME time "error option" string "string list" string string string string
  | RSync time agh_api SyncConfig "error option" "error option"

fun rc_step :: "(string \<Rightarrow> string) \<Rightarrow> RStore \<Rightarrow> rc_op \<Rightarrow> RStore" where
  "rc_step digest s (RReplace t io es st) = snd (rc_Replace digest t io es st s)"
| "rc_step digest s (RUpsert t io e) = snd (rc_Upsert digest t io e s)"
| "rc_step digest s (RReview t io i st v) = snd (rc_Review t io i st v s)"
| "rc_step digest s (RPromote t io i) = snd (rc_Promote t io i s)"
| "rc_step digest s (RDowngrade t io i) = snd (rc_Downgrade t io i s)"
| "rc_step digest s (RMarkCNAME t io i ch tg v c q) = snd (rc_MarkCNAME t io i ch tg v c q s)"
| "rc_step digest s (RSync t api cfg io io') = snd (rc_Sync digest t api cfg io io' s)"

lemmas rc_entry_ops = rc_Review_def rc_Promote_def rc_Downgrade_def rc_MarkCNAME_def

lemma rc_step_inv: "rc_inv s \<Longrightarrow> rc_inv (rc_step digest s op)"
  by (cases op) (simp_all add: rc_Replace_inv rc_Upsert_inv rc_Sync_inv rc_entry_ops rc_modify_inv
      shape_review shape_others)

lemma rc_run_inv: "rc_inv s \<Longrightarrow> rc_inv (foldl (rc_step digest) s ops)"
  by (induction ops arbitrary: s) (auto simp: rc_step_inv)

text \<open>Listing: the keys of the comparator have no ties.\<close>

lemma distinct_mapD: "distinct (map f xs) \<Longrightarrow> distinct xs"
  by (simp add: distinct_map)

lemma keyed_list_keys: "keyed m \<Longrightarrow> distinct (map list_key (map snd m))"
proof -
  assume k: "keyed m"
  then have wf: "wf_map m" by (simp add: keyed_def)
  have "en_ID (snd x) = fst x" if "x \<in> set m" for x
    using k that in_set_lookup[OF wf] by (cases x) (auto simp: keyed_def)
  then have "map en_ID (map snd m) = map fst m" by simp
  then have "distinct (map en_ID (map snd m))" using wf by (simp only: wf_map_def)
  moreover have "map en_ID (map snd m) = map snd (map list_key (map snd m))" by (simp add: list_key_def)
  ultimately have "distinct (map snd (map list_key (map snd m)))" by (simp only:)
  then show ?thesis by (rule distinct_mapD)
qed

lemma Replace_entries:
  "rs_entries (snd (rc_Replace digest now io es st s)) = foldl (replace_entry digest now) [] es"
  by (simp add: rc_Replace_def Let_def)

lemma Replace_status:
  "rs_status (snd (rc_Replace digest now io es st s)) =
     st\<lparr>ss_Entries := int (length (foldl (replace_entry digest now) [] es))\<rparr>"
  by (simp add: rc_Replace_def Let_def)

lemma keyed_entries:
  assumes "keyed m"
  shows "e \<in> snd ` set m \<longleftrightarrow> lookup m (en_ID e) = Some e"
proof
  have wf: "wf_map m" using assms by (simp add: keyed_def)
  assume "e \<in> snd ` set m"
  then obtain i where "(i, e) \<in> set m" by auto
  then have "lookup m i = Some e" using wf by (simp only: in_set_lookup)
  moreover from this assms have "en_ID e = i" by (auto simp: keyed_def)
  ultimately show "lookup m (en_ID e) = Some e" by simp
next
  assume "lookup m (en_ID e) = Some e"
  then show "e \<in> snd ` set m" by (force dest: map_of_SomeD)
qed

lemma List_set:
  "rc_inv s \<Longrightarrow> set (rc_List f s) = {e. rc_Get (en_ID e) s = Some e \<and> matchesFilter e f}"
  using keyed_entries[of "rs_entries s"] by (auto simp: rc_List_def rc_Get_def rc_inv_def)

lemma List_all: "rc_inv s \<Longrightarrow> set (rc_List [] s) = {e. rc_Get (en_ID e) s = Some e}"
  by (simp add: List_set matchesFilter_def)

text \<open>Lookup: a scan for the greatest score.\<close>

lemma lookup_scan:
  assumes "foldl (lookup_step d p) None es = r"
  shows "case r of
      None \<Rightarrow> \<forall>e\<in>set es. lookup_score d p e = None
    | Some (b, sb) \<Rightarrow> b \<in> set es \<and> lookup_score d p b = Some sb \<and>
        (\<forall>e\<in>set es. \<forall>sc. lookup_score d p e = Some sc \<longrightarrow> sc \<le> sb)"
  using assms
proof (induction es arbitrary: r rule: rev_induct)
  case (snoc e es)
  note IH = snoc.IH[OF refl]
  have r: "r = lookup_step d p (foldl (lookup_step d p) None es) e" using snoc.prems by simp
  show ?case
  proof (cases "lookup_score d p e")
    case None
    with r have "r = foldl (lookup_step d p) None es" by (simp add: lookup_step_def)
    with IH None show ?thesis by (auto split: option.splits)
  next
    case sc: (Some sc)
    show ?thesis
    proof (cases "foldl (lookup_step d p) None es")
      case None
      then have "\<forall>e\<in>set es. lookup_score d p e = None" using IH by simp
      moreover have "r = Some (e, sc)" using None sc r by (simp only: lookup_step_def option.case)
      ultimately show ?thesis using sc by simp
    next
      case (Some x)
      obtain b sb where x: "x = (b, sb)" by (cases x)
      with Some IH have b: "b \<in> set es" "lookup_score d p b = Some sb"
        "\<And>e sc. e \<in> set es \<Longrightarrow> lookup_score d p e = Some sc \<Longrightarrow> sc \<le> sb" by auto
      have "r = (if sb < sc then Some (e, sc) else Some (b, sb))" using Some x sc r by (simp add: lookup_step_def)
      with b sc show ?thesis by (auto dest: b(3))
    qed
  qed
qed simp

subsection \<open>Properties\<close>



text \<open>A listing contains exactly the entries that match the filter, in order of domain and then
  identifier, and does not depend on the order in which the map is visited.\<close>

theorem List_is_deterministic:
  assumes "rc_inv s" "rc_inv s'" "mset (rs_entries s) = mset (rs_entries s')"
  shows "rc_List f s = rc_List f s' \<and> sorted (map list_key (rc_List f s)) \<and>
    set (rc_List f s) = {e. rc_Get (en_ID e) s = Some e \<and> matchesFilter e f}"
proof (intro conjI)
  let ?es = "\<lambda>s. filter (\<lambda>e. matchesFilter e f) (map snd (rs_entries s))"
  have "mset (?es s) = mset (?es s')" using assms(3) by simp
  moreover have "distinct (map list_key (?es s))"
    using keyed_list_keys[of "rs_entries s"] assms(1)
    by (simp only: rc_inv_def distinct_map_filter)
  ultimately show "rc_List f s = rc_List f s'"
    unfolding rc_List_def by (rule sort_key_unique)
  show "sorted (map list_key (rc_List f s))" by (simp add: rc_List_def)
  show "set (rc_List f s) = {e. rc_Get (en_ID e) s = Some e \<and> matchesFilter e f}"
    using assms(1) by (rule List_set)
qed

definition ex_rstore :: RStore where
  "ex_rstore = snd (rc_Replace (\<lambda>s. s) 5 None [ex_block\<lparr>en_ID := ''i1''\<rparr>, ex_except\<lparr>en_ID := ''i2''\<rparr>] zero_status
     \<lparr>rs_path = [], rs_entries = [], rs_status = zero_status, rs_file = None\<rparr>)"

theorem List_is_deterministic_witness:
  "sorted (map list_key (rc_List [(''risk'', ''medium'')] ex_rstore))"
proof -
  have "rc_inv ex_rstore" unfolding ex_rstore_def by (rule rc_Replace_inv)
  then show ?thesis using List_is_deterministic[of ex_rstore ex_rstore] by blast
qed

text \<open>Lookup finds an entry exactly when some entry's domain covers the request's and its path,
  if it has one, occurs in the request's; the entry found has the greatest score, so an entry with
  a path beats every entry whose domain is less than a thousand characters longer without.\<close>

theorem Lookup_finds_best:
  "case rc_Lookup domain path s of
     None \<Rightarrow> \<forall>e\<in>snd ` set (rs_entries s). lookup_score (ToLower (TrimSuffix domain ''.'')) path e = None
   | Some b \<Rightarrow> b \<in> snd ` set (rs_entries s) \<and>
       (\<exists>sb. lookup_score (ToLower (TrimSuffix domain ''.'')) path b = Some sb \<and>
         (\<forall>e\<in>snd ` set (rs_entries s). \<forall>sc.
            lookup_score (ToLower (TrimSuffix domain ''.'')) path e = Some sc \<longrightarrow> sc \<le> sb))"
  using lookup_scan[where d = "ToLower (TrimSuffix domain ''.'')" and p = path
      and es = "map snd (rs_entries s)", OF refl]
  unfolding rc_Lookup_def by (auto split: option.splits)

theorem Lookup_finds_best_witness:
  "rc_Lookup ''x.org'' ''/'' ex_rstore = None \<or> rc_Lookup ''x.org'' ''/'' ex_rstore \<noteq> None \<and>
   the (rc_Lookup ''x.org'' ''/'' ex_rstore) \<in> snd ` set (rs_entries ex_rstore)"
  using Lookup_finds_best[where domain = "''x.org''" and path = "''/''" and s = ex_rstore] by (auto split: option.splits)

text \<open>A stub is taken from an entry's metadata only when the entry is verified, is for a script,
  names a catalog entry and is not disabled, and the page is on a tested site or one below it
  (any site when none is listed); after a downgrade it never is, until a review restores it.\<close>

theorem verified_stub_needs_review:
  assumes "VerifiedStubCatalog e site = Some c"
  shows "en_Verified e \<and> en_ResourceType e = ''script'' \<and> c = en_ExpectedCatalog e \<and> c \<noteq> [] \<and>
    en_ReviewStatus e \<noteq> ReviewDisabled \<and>
    (en_TestedSites e = [] \<or>
      (\<exists>t\<in>set (en_TestedSites e). let t' = ToLower (TrimSuffix (TrimSpace t) ''.'') in
         t' \<noteq> [] \<and> (ToLower (TrimSuffix site ''.'') = t' \<or>
           HasSuffix (ToLower (TrimSuffix site ''.'')) (CHR ''.'' # t')))) \<and>
    (\<forall>e'. downgrade_entry now e = Inr e' \<longrightarrow> VerifiedStubCatalog e' site' = None)"
  using assms
  by (auto simp: VerifiedStubCatalog_def Let_def list_ex_iff downgrade_entry_def split: if_splits)

theorem verified_stub_needs_review_witness:
  "\<forall>e'. downgrade_entry 7 (ex_block\<lparr>en_Verified := True, en_ResourceType := ''script'',
     en_ExpectedCatalog := ''noop-sdk''\<rparr>) = Inr e' \<longrightarrow> VerifiedStubCatalog e' ''a.b'' = None"
proof -
  have "VerifiedStubCatalog (ex_block\<lparr>en_Verified := True, en_ResourceType := ''script'',
     en_ExpectedCatalog := ''noop-sdk''\<rparr>) ''a.b'' = Some ''noop-sdk''"
    by (simp add: VerifiedStubCatalog_def ex_block_def blank_entry_def ReviewDisabled_def)
  from verified_stub_needs_review[OF this] show ?thesis by blast
qed

text \<open>A successful sync replaces the whole store by what the sources give: the entries afterwards
  do not depend on those before, so every review, promotion, downgrade and CNAME mark is
  lost, even for a rule the sources still list.\<close>

theorem Sync_discards_reviews:
  assumes "rule_Build digest now api cfg = (Inr es, n)"
  shows "rs_entries (snd (rc_Sync digest now api cfg io io' s)) = foldl (replace_entry digest now) [] es \<and>
    rs_entries (snd (rc_Sync digest now api cfg io io' s)) = rs_entries (snd (rc_Sync digest now api cfg io io' s'))"
proof -
  have "rs_entries (snd (rc_Sync digest now api cfg io io' s)) = foldl (replace_entry digest now) [] es" for s
  proof -
    let ?st = "\<lparr>ss_LastRun = now, ss_LastSuccess = now, ss_LastError = [], ss_Entries = 0,
                ss_Sources = n, ss_AGHEnabled = sc_Enabled cfg, ss_QueryLogSync = sc_SyncQueryLog cfg\<rparr>"
    obtain x s1 where x: "rc_Replace digest now io es ?st s = (x, s1)" by fastforce
    have "rs_entries s1 = foldl (replace_entry digest now) [] es"
      using Replace_entries[of digest now io es ?st s] by (simp only: x snd_conv)
    with assms x show ?thesis
      by (cases x) (simp_all add: rc_Sync_def Let_def Replace_entries)
  qed
  then show ?thesis by simp
qed

definition ex_api :: agh_api where
  "ex_api = \<lparr>api_get = (\<lambda>_. Inl (Err ''offline'')), api_url = Inr, api_status = (\<lambda>_. Inl (Err ''json'')),
     api_log = (\<lambda>_. Inl (Err ''json''))\<rparr>"

definition ex_cfg :: SyncConfig where
  "ex_cfg = \<lparr>sc_Enabled = False, sc_BaseURL = [], sc_SyncFilters = False, sc_SyncCustomRules = False,
     sc_SyncAllowDeny = False, sc_SyncQueryLog = False, sc_CNAMEEnabled = False, sc_CNAMEUseQueryLog = False,
     sc_FilterURLs = [], sc_CustomRules = []\<rparr>"

theorem Sync_discards_reviews_witness:
  "rs_entries (snd (rc_Sync (\<lambda>s. s) 9 ex_api ex_cfg None None ex_rstore)) = []"
proof -
  have "rule_Build (\<lambda>s. s) 9 ex_api ex_cfg = (Inr [], 0)"
    by (simp add: rule_Build_def agh_config_def build_custom_def build_cname_def ex_cfg_def mergePriority_def)
  from Sync_discards_reviews[OF this] show ?thesis by simp
qed

text \<open>A failed sync keeps every entry but replaces the status: the time of the last success is
  forgotten.\<close>

theorem failed_Sync_forgets_success:
  assumes "rc_inv s" "rule_Build digest now api cfg = (Inl err, n)"
    and "\<forall>e\<in>snd ` set (rs_entries s). normalize now e = e"
  shows "let s' = snd (rc_Sync digest now api cfg io io' s) in
    (\<forall>i. rc_Get i s' = rc_Get i s) \<and> ss_LastSuccess (rs_status s') = 0 \<and>
    ss_LastError (rs_status s') = error_text err"
proof -
  have k: "keyed (rs_entries s)" using assms(1) by (simp add: rc_inv_def)
  have all: "set (rc_List [] s) = {e. rc_Get (en_ID e) s = Some e}"
    using List_all[OF assms(1)] by simp
  have same: "replace_entry digest now m e = put (en_ID e) e m" if "e \<in> set (rc_List [] s)" for m e
  proof -
    have g: "rc_Get (en_ID e) s = Some e" using that all by simp
    then have "en_ID e \<noteq> []" using k unfolding keyed_def rc_Get_def by blast
    moreover have "e \<in> snd ` set (rs_entries s)"
      using g k unfolding rc_Get_def by (simp only: keyed_entries)
    then have "normalize now e = e" using assms(3) by blast
    ultimately show ?thesis by (simp add: replace_entry_def with_id_def)
  qed
  have step: "lookup (foldl (replace_entry digest now) m es) i =
      (if \<exists>e\<in>set es. en_ID e = i then rc_Get i s else lookup m i)" if "set es \<subseteq> set (rc_List [] s)" for m es i
    using that
  proof (induction es arbitrary: m)
    case (Cons e es)
    then have "rc_Get (en_ID e) s = Some e" "replace_entry digest now m e = put (en_ID e) e m"
      using all same by auto
    with Cons show ?case by auto
  qed simp
  have "(\<exists>e\<in>set (rc_List [] s). en_ID e = i) \<longleftrightarrow> rc_Get i s \<noteq> None" for i
  proof
    assume "rc_Get i s \<noteq> None"
    then obtain e where e: "rc_Get i s = Some e" by blast
    then have "en_ID e = i" using k unfolding keyed_def rc_Get_def by blast
    with e show "\<exists>e\<in>set (rc_List [] s). en_ID e = i" unfolding all by blast
  qed (unfold all, blast)
  then have "lookup (foldl (replace_entry digest now) [] (rc_List [] s)) i = rc_Get i s" for i
    using step[OF subset_refl, of "[]" i] by auto
  moreover have "rc_Sync digest now api cfg io io' s =
      (let st = \<lparr>ss_LastRun = now, ss_LastSuccess = 0, ss_LastError = error_text err, ss_Entries = 0,
                 ss_Sources = n, ss_AGHEnabled = sc_Enabled cfg, ss_QueryLogSync = sc_SyncQueryLog cfg\<rparr>
       in (st, snd (rc_Replace digest now io (rc_List [] s) st s)))"
    by (simp add: rc_Sync_def assms(2) Let_def)
  ultimately show ?thesis by (simp add: Let_def Replace_entries Replace_status rc_Get_def)
qed

theorem failed_Sync_forgets_success_witness:
  "ss_LastSuccess (rs_status (snd (rc_Sync (\<lambda>s. s) 9 ex_api
     (ex_cfg\<lparr>sc_Enabled := True, sc_SyncFilters := True, sc_BaseURL := ''http://a''\<rparr>) None None
     \<lparr>rs_path = [], rs_entries = [], rs_status = zero_status\<lparr>ss_LastSuccess := 4\<rparr>, rs_file = None\<rparr>))) = 0"
proof -
  let ?s = "\<lparr>rs_path = [], rs_entries = [], rs_status = zero_status\<lparr>ss_LastSuccess := 4\<rparr>, rs_file = None\<rparr>"
  have "rc_inv ?s" by (simp add: rc_inv_def zero_status_def)
  moreover have "rule_Build (\<lambda>s. s) 9 ex_api
      (ex_cfg\<lparr>sc_Enabled := True, sc_SyncFilters := True, sc_BaseURL := ''http://a''\<rparr>) =
      (Inl (Err (''fetch AGH filtering status: '' @ ''offline'')), 0)"
    by (simp add: rule_Build_def agh_config_def fetchAGHFilteringStatus_def ex_cfg_def ex_api_def)
  moreover have "\<forall>e\<in>snd ` set (rs_entries ?s). normalize 9 e = e" by simp
  ultimately have "let s' = snd (rc_Sync (\<lambda>s. s) 9 ex_api
      (ex_cfg\<lparr>sc_Enabled := True, sc_SyncFilters := True, sc_BaseURL := ''http://a''\<rparr>) None None ?s) in
    (\<forall>i. rc_Get i s' = rc_Get i ?s) \<and> ss_LastSuccess (rs_status s') = 0 \<and>
    ss_LastError (rs_status s') = error_text (Err (''fetch AGH filtering status: '' @ ''offline''))"
    by (rule failed_Sync_forgets_success)
  then show ?thesis unfolding Let_def by blast
qed

end
