(* ===== verification/Resolver.thy ===== *)
theory Resolver
  imports Interfaces
begin

text \<open>
  The independent resolver, \<^verbatim>\<open>internal/resolver/resolver.go\<close>: the forms of an upstream, the
  ordered attempt over the upstreams, and DNS over HTTPS with the checks on its answers.

  The DNS message library, the HTTP client and the resolver of the standard library with its
  dialer are arguments, collected in \<open>dns_env\<close>. A message is what its parser yields: the header,
  then questions and answers, each an item or the error the parser stops with.
  \<^verbatim>\<open>net.SplitHostPort\<close> and \<^verbatim>\<open>net.JoinHostPort\<close> are modelled as the library has them.
\<close>

subsection \<open>Addresses\<close>

text \<open>An address by its family, which is what \<^verbatim>\<open>To4\<close> tells, and its text.\<close>

datatype ip = IPv4 string | IPv6 string

fun ip_text :: "ip \<Rightarrow> string" where
  "ip_text (IPv4 s) = s"
| "ip_text (IPv6 s) = s"

definition last_index :: "char \<Rightarrow> string \<Rightarrow> nat option" where
  "last_index c s = (if c \<in> set s then Some (length s - 1 - length (takeWhile (\<lambda>x. x \<noteq> c) (rev s))) else None)"

definition index_of :: "char \<Rightarrow> string \<Rightarrow> nat option" where
  "index_of c s = (if c \<in> set s then Some (length (takeWhile (\<lambda>x. x \<noteq> c) s)) else None)"

definition addr_err :: "string \<Rightarrow> string \<Rightarrow> error" where
  "addr_err hp why = Err (''address '' @ hp @ '': '' @ why)"

definition sq :: "char \<Rightarrow> string" where
  "sq c = [CHR 0x27, c, CHR 0x27]"

definition SplitHostPort :: "string \<Rightarrow> error + string \<times> string" where
  "SplitHostPort hp =
     (case last_index CHR '':'' hp of
        None \<Rightarrow> Inl (addr_err hp ''missing port in address'')
      | Some i \<Rightarrow>
          if hd hp = CHR ''[''
          then (case index_of CHR '']'' hp of
                  None \<Rightarrow> Inl (addr_err hp (''missing '' @ sq CHR '']'' @ '' in address''))
                | Some en \<Rightarrow>
                    if en + 1 = length hp then Inl (addr_err hp ''missing port in address'')
                    else if en + 1 = i then
                      if CHR ''['' \<in> set (drop 1 hp) then Inl (addr_err hp (''unexpected '' @ sq CHR ''['' @ '' in address''))
                      else if CHR '']'' \<in> set (drop (en + 1) hp) then Inl (addr_err hp (''unexpected '' @ sq CHR '']'' @ '' in address''))
                      else Inr (take (en - 1) (drop 1 hp), drop (i + 1) hp)
                    else if hp ! (en + 1) = CHR '':'' then Inl (addr_err hp ''too many colons in address'')
                    else Inl (addr_err hp ''missing port in address''))
          else if CHR '':'' \<in> set (take i hp) then Inl (addr_err hp ''too many colons in address'')
          else if CHR ''['' \<in> set hp then Inl (addr_err hp (''unexpected '' @ sq CHR ''['' @ '' in address''))
          else if CHR '']'' \<in> set hp then Inl (addr_err hp (''unexpected '' @ sq CHR '']'' @ '' in address''))
          else Inr (take i hp, drop (i + 1) hp))"

definition JoinHostPort :: "string \<Rightarrow> string \<Rightarrow> string" where
  "JoinHostPort host port =
     (if CHR '':'' \<in> set host then ''['' @ host @ '']:'' @ port else host @ '':'' @ port)"

subsection \<open>DNS over HTTPS\<close>

datatype rrtype = TypeA | TypeAAAA | TypeOther nat

record question =
  qu_Name :: string
  qu_Type :: rrtype

record answer =
  an_Name :: string
  an_Type :: rrtype
  an_Resource :: "error + ip"
  an_Skip :: "error option"

record dns_message =
  dm_Response :: bool
  dm_RCodeSuccess :: bool
  dm_RCode :: string
  dm_Questions :: "(error + question) list"
  dm_Answers :: "(error + answer) list"

record 'w dns_env =
  de_NewName :: "string \<Rightarrow> error + string"
  de_Pack :: "string \<Rightarrow> rrtype \<Rightarrow> error + 'w list"
  de_URLParse :: "string \<Rightarrow> error option"
  de_Post :: "string \<Rightarrow> 'w list \<Rightarrow> error + int \<times> (error + 'w list)"
  de_Start :: "'w list \<Rightarrow> error + dns_message"
  de_NetLookup :: "bool \<Rightarrow> string \<Rightarrow> string \<Rightarrow> error + ip list"
  de_ParseIP :: "string \<Rightarrow> ip option"

definition dnsName :: "string \<Rightarrow> string" where
  "dnsName host = (if \<not> HasSuffix host ''.'' then host @ ''.'' else host)"

fun match_questions :: "string \<Rightarrow> rrtype \<Rightarrow> (error + question) list \<Rightarrow> bool \<Rightarrow> error + bool" where
  "match_questions name typ [] matched = Inr matched"
| "match_questions name typ (Inl e # qs) matched = Inl e"
| "match_questions name typ (Inr q # qs) matched =
     match_questions name typ qs (matched \<or> (qu_Type q = typ \<and> EqualFold (qu_Name q) name))"

definition answer_wanted :: "string \<Rightarrow> rrtype \<Rightarrow> answer \<Rightarrow> bool" where
  "answer_wanted name typ a \<longleftrightarrow> an_Type a = typ \<and> EqualFold (an_Name a) name"

fun read_answers :: "string \<Rightarrow> rrtype \<Rightarrow> (error + answer) list \<Rightarrow> ip list \<Rightarrow> error + ip list" where
  "read_answers name typ [] ips = Inr ips"
| "read_answers name typ (Inl e # as) ips = Inl e"
| "read_answers name typ (Inr a # as) ips =
     (if answer_wanted name typ a \<and> an_Type a \<in> {TypeA, TypeAAAA}
      then (case an_Resource a of Inl e \<Rightarrow> Inl e | Inr x \<Rightarrow> read_answers name typ as (ips @ [x]))
      else (case an_Skip a of Some e \<Rightarrow> Inl e | None \<Rightarrow> read_answers name typ as ips))"

definition parseAnswers :: "error + dns_message \<Rightarrow> string \<Rightarrow> rrtype \<Rightarrow> error + ip list" where
  "parseAnswers started name typ =
     (case started of
        Inl e \<Rightarrow> Inl e
      | Inr m \<Rightarrow>
          if \<not> dm_Response m then Inl (Err ''DoH: reply is not a response'')
          else if \<not> dm_RCodeSuccess m then Inl (Err (''DoH: server returned '' @ dm_RCode m))
          else
            (case match_questions name typ (dm_Questions m) False of
               Inl e \<Rightarrow> Inl e
             | Inr False \<Rightarrow> Inl (Err ''DoH: response question does not match query'')
             | Inr True \<Rightarrow> read_answers name typ (dm_Answers m) []))"

definition doh_body_max :: nat where
  "doh_body_max = 64 * 1024"

definition dohQuery :: "'w dns_env \<Rightarrow> string \<Rightarrow> string \<Rightarrow> rrtype \<Rightarrow> error + ip list" where
  "dohQuery E endpoint host qt =
     (case de_NewName E (dnsName host) of
        Inl e \<Rightarrow> Inl e
      | Inr name \<Rightarrow>
          (case de_Pack E name qt of
             Inl e \<Rightarrow> Inl e
           | Inr wire \<Rightarrow>
               (case de_URLParse E endpoint of
                  Some e \<Rightarrow> Inl e
                | None \<Rightarrow>
                    (case de_Post E endpoint wire of
                       Inl e \<Rightarrow> Inl e
                     | Inr (status, body) \<Rightarrow>
                         if status \<noteq> 200 then Inl (Err (''DoH status '' @ show_int status))
                         else
                           (case body of
                              Inl e \<Rightarrow> Inl e
                            | Inr bytes \<Rightarrow> parseAnswers (de_Start E (take doh_body_max bytes)) name qt)))))"

definition answers_or_none :: "error + ip list \<Rightarrow> ip list" where
  "answers_or_none r = (case r of Inl e \<Rightarrow> [] | Inr ips \<Rightarrow> ips)"

definition dohLookup :: "'w dns_env \<Rightarrow> string \<Rightarrow> string \<Rightarrow> error + ip list" where
  "dohLookup E endpoint host =
     (let ips = concat (map (\<lambda>qt. answers_or_none (dohQuery E endpoint host qt)) [TypeA, TypeAAAA]) in
      if ips = [] then Inl (Err (''DoH: no address for '' @ quote host)) else Inr ips)"

subsection \<open>Upstreams\<close>

text \<open>A lookup function of the code is a closure over one of these.\<close>

datatype upstream = DoH (up_endpoint: string) | DoT (up_addr: string) | PlainDNS (up_addr: string)

definition with_port :: "string \<Rightarrow> string \<Rightarrow> string" where
  "with_port addr port = (case SplitHostPort addr of Inl e \<Rightarrow> JoinHostPort addr port | Inr hp \<Rightarrow> addr)"

definition buildLookup :: "string \<Rightarrow> upstream" where
  "buildLookup up =
     (if HasPrefix up ''https://'' then DoH up
      else if HasPrefix up ''tls://'' then DoT (with_port (TrimPrefix up ''tls://'') ''853'')
      else PlainDNS (with_port (TrimPrefix up ''udp://'') ''53''))"

fun run_lookup :: "'w dns_env \<Rightarrow> upstream \<Rightarrow> string \<Rightarrow> error + ip list" where
  "run_lookup E (DoH endpoint) host = dohLookup E endpoint host"
| "run_lookup E (DoT addr) host = de_NetLookup E True addr host"
| "run_lookup E (PlainDNS addr) host = de_NetLookup E False addr host"

definition New_Resolver :: "string list \<Rightarrow> error + upstream list" where
  "New_Resolver ups =
     (if ups = [] then Inl (Err ''no upstream resolvers configured'') else Inr (map buildLookup ups))"

fun try_lookups :: "(string \<Rightarrow> error + ip list) list \<Rightarrow> string \<Rightarrow> error option \<Rightarrow> error + ip list" where
  "try_lookups [] host lastErr =
     Inl (case lastErr of None \<Rightarrow> Err (''no address found for '' @ quote host) | Some e \<Rightarrow> e)"
| "try_lookups (lf # lfs) host lastErr =
     (case lf host of
        Inl e \<Rightarrow> try_lookups lfs host (Some e)
      | Inr ips \<Rightarrow> if ips \<noteq> [] then Inr ips else try_lookups lfs host lastErr)"

definition LookupIP :: "'w dns_env \<Rightarrow> upstream list \<Rightarrow> string \<Rightarrow> error + ip list" where
  "LookupIP E ups host =
     (case de_ParseIP E host of
        Some x \<Rightarrow> Inr [x]
      | None \<Rightarrow> try_lookups (map (run_lookup E) ups) host None)"

text \<open>
  \<^verbatim>\<open>dialViaResolver\<close> of the forwarder (the mimic handler has the same function): the
  addresses of a host are tried in order. The result is the connection and the error.
\<close>

fun dial_each ::
  "(string \<Rightarrow> error + 'c) \<Rightarrow> string \<Rightarrow> string list \<Rightarrow> error option \<Rightarrow> 'c option \<times> error option" where
  "dial_each dial port [] lastErr = (None, lastErr)"
| "dial_each dial port (a # as) lastErr =
     (case dial (JoinHostPort a port) of
        Inr c \<Rightarrow> (Some c, None)
      | Inl e \<Rightarrow> dial_each dial port as (Some e))"

definition dialViaResolver ::
  "(string \<Rightarrow> error + 'ip list) \<Rightarrow> ('ip \<Rightarrow> string) \<Rightarrow> (string \<Rightarrow> error + 'c) \<Rightarrow> string \<Rightarrow> 'c option \<times> error option" where
  "dialViaResolver look ip_str dial addr =
     (case SplitHostPort addr of
        Inl e \<Rightarrow> (None, Some e)
      | Inr (host, port) \<Rightarrow>
          (case look host of
             Inl e \<Rightarrow> (None, Some e)
           | Inr ips \<Rightarrow> dial_each dial port (map ip_str ips) None))"

fun_cases read_answersE: "read_answers name typ (Inr a # as) ips = Inr r"

subsection \<open>Facts\<close>

lemma first_Suc:
  "(\<exists>i<Suc n. P i \<and> (\<forall>j<i. Q j)) \<longleftrightarrow> P 0 \<or> (Q 0 \<and> (\<exists>i<n. P (Suc i) \<and> (\<forall>j<i. Q (Suc j))))"
proof
  assume "\<exists>i<Suc n. P i \<and> (\<forall>j<i. Q j)"
  then obtain i where i: "i < Suc n" "P i" "\<forall>j<i. Q j" by blast
  then show "P 0 \<or> (Q 0 \<and> (\<exists>i<n. P (Suc i) \<and> (\<forall>j<i. Q (Suc j))))" by (cases i) auto
next
  assume "P 0 \<or> (Q 0 \<and> (\<exists>i<n. P (Suc i) \<and> (\<forall>j<i. Q (Suc j))))"
  then show "\<exists>i<Suc n. P i \<and> (\<forall>j<i. Q j)"
  proof (elim disjE conjE exE)
    fix i assume "Q 0" "i < n" "P (Suc i)" "\<forall>j<i. Q (Suc j)"
    then have "\<forall>j<Suc i. Q j" by (auto simp: less_Suc_eq_0_disj)
    with \<open>i < n\<close> \<open>P (Suc i)\<close> show ?thesis by (intro exI[of _ "Suc i"]) simp
  qed auto
qed

lemma try_lookups_iff:
  "try_lookups lfs host le = Inr ips \<longleftrightarrow>
     (\<exists>i<length lfs. ((lfs ! i) host = Inr ips \<and> ips \<noteq> []) \<and>
        (\<forall>j<i. answers_or_none ((lfs ! j) host) = []))"
proof (induction lfs arbitrary: le)
  case (Cons lf lfs)
  show ?case
    unfolding length_Cons first_Suc nth_Cons_0 nth_Cons_Suc
    by (cases "lf host") (auto simp: Cons.IH answers_or_none_def)
qed simp

interpretation res: ip_resolver "LookupIP E ups"
  by unfold_locales (auto simp: LookupIP_def try_lookups_iff split: option.splits)

text \<open>
  A dialer over a lookup that never succeeds with no address gives a connection or an error,
  never neither (which the caller would take for a connection).
\<close>

lemma dial_each_err: "fst (dial_each dial port as le) = None \<Longrightarrow> as \<noteq> [] \<or> le \<noteq> None \<Longrightarrow> snd (dial_each dial port as le) \<noteq> None"
  by (induction as arbitrary: le) (auto split: sum.splits)

lemma dial_each_conn:
  "fst (dial_each dial port as le) = Some c \<longleftrightarrow>
     (\<exists>i<length as. dial (JoinHostPort (as ! i) port) = Inr c \<and> (\<forall>j<i. isl (dial (JoinHostPort (as ! j) port))))"
proof (induction as arbitrary: le)
  case (Cons a as)
  show ?case unfolding length_Cons first_Suc nth_Cons_0 nth_Cons_Suc
    by (cases "dial (JoinHostPort a port)") (auto simp: Cons.IH)
qed simp

lemma dial_each_one: "fst (dial_each dial port as le) \<noteq> None \<Longrightarrow> snd (dial_each dial port as le) = None"
  by (induction as arbitrary: le) (auto split: sum.splits)

context ip_resolver begin

lemma dial_answers:
  "(fst (dialViaResolver lookup_ip ip_str dial addr) = None) \<longleftrightarrow> (snd (dialViaResolver lookup_ip ip_str dial addr) \<noteq> None)"
  using success_nonempty dial_each_one
  by (fastforce simp: dialViaResolver_def dest: dial_each_err split: sum.splits)

end

lemma match_questions_iff:
  "match_questions name typ qs b = Inr True \<longleftrightarrow>
     (\<forall>x\<in>set qs. \<exists>q. x = Inr q) \<and> (b \<or> (\<exists>q. Inr q \<in> set qs \<and> qu_Type q = typ \<and> EqualFold (qu_Name q) name))"
proof (induction qs arbitrary: b)
  case (Cons x qs)
  show ?case by (cases x) (auto simp: Cons.IH)
qed simp

lemma read_answers_some:
  "read_answers name typ as ips = Inr r \<Longrightarrow>
     map Inr (drop (length ips) r) =
       map an_Resource (filter (\<lambda>a. answer_wanted name typ a \<and> an_Type a \<in> {TypeA, TypeAAAA}) (map projr as)) \<and>
     take (length ips) r = ips \<and> (\<forall>x\<in>set as. \<not> isl x)"
proof (induction as arbitrary: ips)
  case (Cons x as)
  then obtain a where x: "x = Inr a" by (cases x) auto
  show ?case
  proof (cases "answer_wanted name typ a \<and> an_Type a \<in> {TypeA, TypeAAAA}")
    case True
    with Cons.prems x obtain y where y: "an_Resource a = Inr y" "read_answers name typ as (ips @ [y]) = Inr r"
      by (auto split: sum.splits if_splits)
    from Cons.IH[OF y(2)] have h: "map Inr (drop (Suc (length ips)) r) =
        map an_Resource (filter (\<lambda>a. answer_wanted name typ a \<and> an_Type a \<in> {TypeA, TypeAAAA}) (map projr as))"
      "take (Suc (length ips)) r = ips @ [y]" "\<forall>x\<in>set as. \<not> isl x" by auto
    have "r = take (Suc (length ips)) r @ drop (Suc (length ips)) r" by simp
    then have r: "r = ips @ y # drop (Suc (length ips)) r" using h(2) by simp
    then have "drop (length ips) r = y # drop (Suc (length ips)) r" "take (length ips) r = ips"
      by (metis append_eq_conv_conj)+
    with True h x y show ?thesis by simp
  next
    case False
    with Cons.prems x have "read_answers name typ as ips = Inr r"
      by (auto split: option.splits if_splits)
    from Cons.IH[OF this] False x show ?thesis by auto
  qed
qed simp

lemma last_index_append [simp]: "c \<notin> set t \<Longrightarrow> last_index c (s @ c # t) = Some (length s)"
  by (simp add: last_index_def takeWhile_append takeWhile_eq_all_conv[THEN iffD2])

lemma index_of_append [simp]: "c \<notin> set s \<Longrightarrow> index_of c (s @ c # t) = Some (length s)"
  by (simp add: index_of_def takeWhile_append takeWhile_eq_all_conv[THEN iffD2])

lemma Split_Join:
  assumes "CHR ''['' \<notin> set host \<union> set port" "CHR '']'' \<notin> set host \<union> set port" "CHR '':'' \<notin> set port"
  shows "SplitHostPort (JoinHostPort host port) = Inr (host, port)"
proof (cases "CHR '':'' \<in> set host")
  case True
  have l: "last_index CHR '':'' (''['' @ host @ '']:'' @ port) = Some (length host + 2)"
    using last_index_append[OF assms(3), of "''['' @ host @ '']''"] by simp
  have i: "index_of CHR '']'' (''['' @ host @ '']:'' @ port) = Some (length host + 1)"
    using index_of_append[of "CHR '']''" "''['' @ host" "'':'' @ port"] assms(2) by simp
  show ?thesis using True l i assms by (simp add: JoinHostPort_def SplitHostPort_def)
next
  case False
  have l: "last_index CHR '':'' (host @ '':'' @ port) = Some (length host)"
    using last_index_append[OF assms(3), of host] by simp
  have "hd (host @ '':'' @ port) \<noteq> CHR ''[''" using assms(1) by (cases host) auto
  with False l assms show ?thesis by (simp add: JoinHostPort_def SplitHostPort_def)
qed

subsection \<open>Properties\<close>

text \<open>A name lookup answers with the addresses of the first upstream, in the configured order, that
  gives any: an error or an empty answer moves on to the next one, and only when none answers is
  there an error. An address literal is its own answer.\<close>

theorem LookupIP_first_answer:
  "LookupIP E ups host = Inr ips \<longleftrightarrow>
     (case de_ParseIP E host of
        Some x \<Rightarrow> ips = [x]
      | None \<Rightarrow> \<exists>i<length ups. (run_lookup E (ups ! i) host = Inr ips \<and> ips \<noteq> []) \<and>
          (\<forall>j<i. answers_or_none (run_lookup E (ups ! j) host) = []))"
  by (auto simp: LookupIP_def try_lookups_iff split: option.split)

text \<open>C39: An answer over HTTPS is taken only from a successful response that echoes the question, and then
  it is exactly the addresses of the answer records with the asked name and type, in their order:
  records for another name or type never get in.\<close>

theorem doh_takes_only_asked_records:
  assumes "parseAnswers started name typ = Inr ips" "typ \<in> {TypeA, TypeAAAA}"
  shows "\<exists>m. started = Inr m \<and> dm_Response m \<and> dm_RCodeSuccess m \<and>
    (\<exists>q. Inr q \<in> set (dm_Questions m) \<and> qu_Type q = typ \<and> EqualFold (qu_Name q) name) \<and>
    map Inr ips = map an_Resource (filter (\<lambda>a. an_Type a = typ \<and> EqualFold (an_Name a) name) (map projr (dm_Answers m)))"
proof -
  from assms(1) obtain m where m: "started = Inr m" "dm_Response m" "dm_RCodeSuccess m"
    "match_questions name typ (dm_Questions m) False = Inr True" "read_answers name typ (dm_Answers m) [] = Inr ips"
    by (auto simp: parseAnswers_def split: sum.splits if_splits bool.splits)
  have "(\<lambda>a. answer_wanted name typ a \<and> an_Type a \<in> {TypeA, TypeAAAA}) =
      (\<lambda>a. an_Type a = typ \<and> EqualFold (an_Name a) name)"
    using assms(2) by (auto simp: answer_wanted_def fun_eq_iff)
  with read_answers_some[OF m(5)] m show ?thesis by (auto simp: match_questions_iff)
qed

definition ex_net :: "nat dns_env" where
  "ex_net = \<lparr>de_NewName = Inr, de_Pack = (\<lambda>_ _. Inr []), de_URLParse = (\<lambda>_. None), de_Post = (\<lambda>_ _. Inl (Err ''down'')),
     de_Start = (\<lambda>_. Inl (Err ''down'')), de_NetLookup = (\<lambda>tls addr _. if tls then Inl (Err ''down'') else Inr [IPv4 ''1.2.3.4'']),
     de_ParseIP = (\<lambda>_. None)\<rparr>"

theorem LookupIP_first_answer_witness:
  "LookupIP ex_net [DoT ''a:853'', PlainDNS ''b:53''] ''x.y'' = Inr [IPv4 ''1.2.3.4'']"
  by (subst LookupIP_first_answer) (auto simp: ex_net_def answers_or_none_def intro!: exI[of _ 1])

definition ex_reply :: dns_message where
  "ex_reply = \<lparr>dm_Response = True, dm_RCodeSuccess = True, dm_RCode = [],
     dm_Questions = [Inr \<lparr>qu_Name = ''a.b.'', qu_Type = TypeA\<rparr>],
     dm_Answers = [Inr \<lparr>an_Name = ''x.y.'', an_Type = TypeA, an_Resource = Inr (IPv4 ''9.9.9.9''), an_Skip = None\<rparr>,
       Inr \<lparr>an_Name = ''A.b.'', an_Type = TypeA, an_Resource = Inr (IPv4 ''1.2.3.4''), an_Skip = None\<rparr>]\<rparr>"

theorem doh_takes_only_asked_records_witness:
  "parseAnswers (Inr ex_reply) ''a.b.'' TypeA = Inr [IPv4 ''1.2.3.4''] \<and>
   (\<exists>q. Inr q \<in> set (dm_Questions ex_reply) \<and> qu_Type q = TypeA \<and> EqualFold (qu_Name q) ''a.b.'')"
proof -
  have p: "parseAnswers (Inr ex_reply) ''a.b.'' TypeA = Inr [IPv4 ''1.2.3.4'']" by code_simp
  from doh_takes_only_asked_records[OF this] p show ?thesis by auto
qed

text \<open>A plain or TLS upstream without brackets is dialled at a well-formed address: the given port, or
  the default port when it has none, for a bare IPv6 address too.\<close>

theorem upstream_address_is_dialable:
  assumes "CHR ''['' \<notin> set addr" "CHR '']'' \<notin> set addr" "CHR '':'' \<notin> set port"
    and "CHR ''['' \<notin> set port" "CHR '']'' \<notin> set port"
  shows "SplitHostPort (with_port addr port) =
    (case SplitHostPort addr of Inr hp \<Rightarrow> Inr hp | Inl e \<Rightarrow> Inr (addr, port))"
  using assms by (auto simp: with_port_def Split_Join split: sum.split)

theorem upstream_address_is_dialable_witness:
  "SplitHostPort (with_port ''::1'' ''53'') = Inr (''::1'', ''53'') \<and> buildLookup ''::1'' = PlainDNS ''[::1]:53''"
proof -
  have "SplitHostPort (with_port ''::1'' ''53'') =
      (case SplitHostPort ''::1'' of Inr hp \<Rightarrow> Inr hp | Inl e \<Rightarrow> Inr (''::1'', ''53''))"
    by (rule upstream_address_is_dialable) simp_all
  moreover have "isl (SplitHostPort ''::1'')" "buildLookup ''::1'' = PlainDNS ''[::1]:53''" by code_simp+
  ultimately show ?thesis by (cases "SplitHostPort ''::1''") auto
qed

text \<open>A bracketed IPv6 address without a port is accepted as an upstream but is given a second pair of
  brackets: the address it is dialled at is malformed, so this upstream can never answer.\<close>

theorem bracketed_upstream_is_malformed:
  assumes "CHR '':'' \<in> set h" "CHR ''['' \<notin> set h" "CHR '']'' \<notin> set h"
  shows "\<exists>a e. buildLookup (''['' @ h @ '']'') = PlainDNS a \<and> a = ''[['' @ h @ '']]:53'' \<and> SplitHostPort a = Inl e"
proof -
  have i: "index_of CHR '']'' (''['' @ h @ '']'') = Some (length h + 1)"
    using index_of_append[of "CHR '']''" "''['' @ h" "[]"] assms(3) by simp
  obtain k where k: "last_index CHR '':'' (''['' @ h @ '']'') = Some k"
    using assms(1) by (simp add: last_index_def)
  have bad: "\<exists>e. SplitHostPort (''['' @ h @ '']'') = Inl e"
    using i k by (simp add: SplitHostPort_def)
  have "buildLookup (''['' @ h @ '']'') = PlainDNS (with_port (''['' @ h @ '']'') ''53'')"
    by (simp add: buildLookup_def HasPrefix_def TrimPrefix_def)
  also have "with_port (''['' @ h @ '']'') ''53'' = ''[['' @ h @ '']]:53''"
    using bad assms(1) by (auto simp: with_port_def JoinHostPort_def)
  finally have b: "buildLookup (''['' @ h @ '']'') = PlainDNS (''[['' @ h @ '']]:53'')" .
  have l: "last_index CHR '':'' (''[['' @ h @ '']]:53'') = Some (length h + 4)"
    using last_index_append[of "CHR '':''" "''53''" "''[['' @ h @ '']]''"] by simp
  have i2: "index_of CHR '']'' (''[['' @ h @ '']]:53'') = Some (length h + 2)"
    using index_of_append[of "CHR '']''" "''[['' @ h" "'']:53''"] assms(3) by simp
  have "(''[['' @ h @ '']]:53'') ! (length h + 2 + 1) = CHR '']''" by (simp add: nth_append)
  with l i2 have "\<exists>e. SplitHostPort (''[['' @ h @ '']]:53'') = Inl e" by (simp add: SplitHostPort_def)
  with b show ?thesis by auto
qed

theorem bracketed_upstream_is_malformed_witness:
  "\<exists>e. SplitHostPort ''[[::1]]:53'' = Inl e"
  using bracketed_upstream_is_malformed[of "''::1''"] by auto

text \<open>Dialing through the resolver gives a connection or an error, exactly one of them, and the
  connection is to the first address of the host that answers, in the order of the resolver.\<close>

theorem dial_connects_first_reachable:
  "(fst (dialViaResolver (LookupIP E ups) ip_text dial addr) = None \<longleftrightarrow>
      snd (dialViaResolver (LookupIP E ups) ip_text dial addr) \<noteq> None) \<and>
   (\<forall>c. fst (dialViaResolver (LookupIP E ups) ip_text dial addr) = Some c \<longrightarrow>
     (\<exists>host port ips i. SplitHostPort addr = Inr (host, port) \<and> LookupIP E ups host = Inr ips \<and> i < length ips \<and>
       dial (JoinHostPort (ip_text (ips ! i)) port) = Inr c \<and>
       (\<forall>j<i. isl (dial (JoinHostPort (ip_text (ips ! j)) port)))))"
proof (intro conjI allI impI)
  show "fst (dialViaResolver (LookupIP E ups) ip_text dial addr) = None \<longleftrightarrow>
      snd (dialViaResolver (LookupIP E ups) ip_text dial addr) \<noteq> None"
    by (rule res.dial_answers)
next
  fix c assume c: "fst (dialViaResolver (LookupIP E ups) ip_text dial addr) = Some c"
  then obtain host port ips where h: "SplitHostPort addr = Inr (host, port)" "LookupIP E ups host = Inr ips"
    and d: "fst (dial_each dial port (map ip_text ips) None) = Some c"
    by (auto simp: dialViaResolver_def split: sum.splits)
  from d obtain i where "i < length ips" "dial (JoinHostPort (ip_text (ips ! i)) port) = Inr c"
      "\<forall>j<i. isl (dial (JoinHostPort (ip_text (ips ! j)) port))"
    unfolding dial_each_conn by auto
  with h show "\<exists>host port ips i. SplitHostPort addr = Inr (host, port) \<and> LookupIP E ups host = Inr ips \<and> i < length ips \<and>
       dial (JoinHostPort (ip_text (ips ! i)) port) = Inr c \<and>
       (\<forall>j<i. isl (dial (JoinHostPort (ip_text (ips ! j)) port)))" by blast
qed

end
