(* ===== verification/AghTypes.thy ===== *)
theory AghTypes
  imports RuleCatalog Resolver
begin

text \<open>
  The data of the managed AdGuard Home feeds, \<^verbatim>\<open>internal/aghmanaged/manager.go\<close>: sources,
  catalog overrides, rollback and feed records, the configuration, and the manager's state with
  its file, together with the small helpers over them.

  What the code takes from other packages is collected in the environment \<open>env\<close>: the SHA-256
  digest in hex, \<^verbatim>\<open>time.ParseDuration\<close>, the RFC 3339 text of a time and
  \<^verbatim>\<open>net.ParseIP\<close>. Addresses are those of theory Resolver.
\<close>

subsection \<open>Environment and configuration\<close>

record env =
  env_digest :: "string \<Rightarrow> string"
  env_parseDuration :: "string \<Rightarrow> duration option"
  env_rfc3339 :: "time \<Rightarrow> string"
  env_parseIP :: "string \<Rightarrow> ip option"

record AGHManagedScheduler =
  sd_Enabled :: bool
  sd_DefaultSyncInterval :: string
  sd_SyncTimeout :: string
  sd_MaxParallelSyncs :: int
  sd_Jitter :: string
  sd_StaleSourceTTL :: string
  sd_LargeChangeThresholdPercent :: int
  sd_LargeChangeThresholdCount :: int
  sd_LargeChangeRequiresReview :: bool

record AGHManagedConfig =
  cf_Enabled :: bool
  cf_FeedPath :: string
  cf_TargetName :: string
  cf_TargetMode :: string
  cf_StaticIPv4 :: "string list"
  cf_StaticIPv6 :: "string list"
  cf_EmergencyEmpty :: bool
  cf_AutoEmergencyEmptyOnTargetFailure :: bool
  cf_DefaultPreset :: string
  cf_StaleTargetTTL :: string
  cf_Scheduler :: AGHManagedScheduler

subsection \<open>Sources, overrides, records\<close>

definition SourceFilterURL :: string where "SourceFilterURL = ''filter_url''"
definition SourceManual :: string where "SourceManual = ''manual''"
definition SourceAGHCustomRules :: string where "SourceAGHCustomRules = ''agh_custom_rules''"
definition SourceAGHQueryLogCNAME :: string where "SourceAGHQueryLogCNAME = ''agh_query_log_cname''"
definition StaleFeedPolicyExclude :: string where "StaleFeedPolicyExclude = ''exclude''"
definition StaleFeedPolicyKeep :: string where "StaleFeedPolicyKeep = ''keep''"

lemmas source_consts = SourceFilterURL_def SourceManual_def SourceAGHCustomRules_def
  SourceAGHQueryLogCNAME_def StaleFeedPolicyExclude_def StaleFeedPolicyKeep_def

record MSource =
  so_ID :: string
  so_Type :: string
  so_Name :: string
  so_URL :: string
  so_Content :: string
  so_Enabled :: bool
  so_SyncInterval :: string
  so_NextSync :: time
  so_LastSyncStarted :: time
  so_LastSuccess :: time
  so_LastError :: string
  so_LastDurationMS :: int
  so_ConsecutiveFails :: int
  so_Entries :: int
  so_Added :: int
  so_Removed :: int
  so_Changed :: int
  so_Unsupported :: int
  so_AllowExceptions :: int
  so_PendingReview :: bool
  so_Priority :: int
  so_StaleFeedPolicy :: string
  so_Health :: string

record CatalogOverride =
  ov_Category :: string
  ov_ResourceType :: string
  ov_Risk :: string
  ov_Confidence :: string
  ov_ReviewStatus :: string
  ov_Verified :: "bool option"
  ov_ExpectedCatalog :: string
  ov_Action :: string
  ov_RewriteEnabled :: "bool option"
  ov_RewriteReason :: string
  ov_Notes :: string
  ov_LastChangedBy :: string

definition zero_override :: CatalogOverride where
  "zero_override = \<lparr>ov_Category = [], ov_ResourceType = [], ov_Risk = [], ov_Confidence = [],
     ov_ReviewStatus = [], ov_Verified = None, ov_ExpectedCatalog = [], ov_Action = [],
     ov_RewriteEnabled = None, ov_RewriteReason = [], ov_Notes = [], ov_LastChangedBy = []\<rparr>"

record RollbackRecord =
  rb_ID :: string
  rb_Time :: time
  rb_Action :: string
  rb_EntryIDs :: "string list"
  rb_Before :: "(string, CatalogOverride) gomap"
  rb_BeforeExists :: "(string, bool) gomap"
  rb_After :: "(string, CatalogOverride) gomap"
  rb_Summary :: string

record FeedGenerationRecord =
  fg_Time :: time
  fg_IncludedCount :: int
  fg_ExcludedCount :: int
  fg_AddedCount :: int
  fg_RemovedCount :: int
  fg_ConflictCount :: int
  fg_TargetMode :: string
  fg_EmergencyEmpty :: bool

record SourceRef =
  sr_ID :: string
  sr_Name :: string
  sr_Type :: string
  sr_URL :: string
  sr_Priority :: int

subsection \<open>The manager's state\<close>

text \<open>\<open>state\<close> is what the file holds; the HTTP client and the resolver are arguments of the
  operations that use them.\<close>

record state =
  st_Sources :: "MSource list"
  st_Entries :: "Entry list"
  st_Pending :: "(string, Entry list) gomap"
  st_Overrides :: "(string, CatalogOverride) gomap"
  st_EmergencyEmpty :: "bool option"
  st_PresetOverride :: string
  st_Rollbacks :: "RollbackRecord list"
  st_FeedIncludedAtByID :: "(string, time) gomap"
  st_FeedHistory :: "FeedGenerationRecord list"
  st_FeedSnapshotIDs :: "string list"

record Manager =
  mg_cfg :: AGHManagedConfig
  mg_sources :: "(string, MSource) gomap"
  mg_entries :: "(string, Entry) gomap"
  mg_pending :: "(string, Entry list) gomap"
  mg_overrides :: "(string, CatalogOverride) gomap"
  mg_rollbacks :: "RollbackRecord list"
  mg_feedSeen :: "(string, time) gomap"
  mg_feedSnapshot :: "string list"
  mg_feedHistory :: "FeedGenerationRecord list"
  mg_preset :: string
  mg_targetIPs :: "ip list"
  mg_lastResolve :: time
  mg_lastResolveErr :: string
  mg_lastGenerated :: time
  mg_file :: "state option"

text \<open>The snapshot, a set of identifiers in Go, is a list without duplicates.\<close>

definition copyStateLocked :: "Manager \<Rightarrow> state" where
  "copyStateLocked m =
     \<lparr>st_Sources = sort_key so_ID (map snd (mg_sources m)),
      st_Entries = sort_key en_ID (map snd (mg_entries m)),
      st_Pending = mg_pending m, st_Overrides = mg_overrides m,
      st_EmergencyEmpty = Some (cf_EmergencyEmpty (mg_cfg m)),
      st_PresetOverride = mg_preset m, st_Rollbacks = mg_rollbacks m,
      st_FeedIncludedAtByID = mg_feedSeen m, st_FeedHistory = mg_feedHistory m,
      st_FeedSnapshotIDs = sort (mg_feedSnapshot m)\<rparr>"

definition persistState :: "error option \<Rightarrow> Manager \<Rightarrow> error option \<times> Manager" where
  "persistState io m =
     (case io of Some e \<Rightarrow> (Some e, m) | None \<Rightarrow> (None, m\<lparr>mg_file := Some (copyStateLocked m)\<rparr>))"

text \<open>An operation that ends by persisting returns its value with the outcome of the save.\<close>

definition persisted :: "error option \<Rightarrow> 'a \<Rightarrow> Manager \<Rightarrow> ('a \<times> error option) \<times> Manager" where
  "persisted io v m = (case persistState io m of (e, m') \<Rightarrow> ((v, e), m'))"

definition newManager :: "AGHManagedConfig \<Rightarrow> Manager" where
  "newManager cfg = \<lparr>mg_cfg = cfg, mg_sources = [], mg_entries = [], mg_pending = [], mg_overrides = [],
     mg_rollbacks = [], mg_feedSeen = [], mg_feedSnapshot = [], mg_feedHistory = [], mg_preset = [],
     mg_targetIPs = [], mg_lastResolve = 0, mg_lastResolveErr = [], mg_lastGenerated = 0, mg_file = None\<rparr>"

definition load_state :: "AGHManagedConfig \<Rightarrow> state \<Rightarrow> Manager" where
  "load_state cfg st =
     (newManager cfg)
       \<lparr>mg_cfg := (case st_EmergencyEmpty st of None \<Rightarrow> cfg | Some b \<Rightarrow> cfg\<lparr>cf_EmergencyEmpty := b\<rparr>),
        mg_sources := foldl (\<lambda>m s. put (so_ID s) s m) [] (st_Sources st),
        mg_entries := foldl (\<lambda>m e. put (en_ID e) e m) [] (st_Entries st),
        mg_pending := st_Pending st, mg_overrides := st_Overrides st,
        mg_rollbacks := st_Rollbacks st, mg_feedSeen := st_FeedIncludedAtByID st,
        mg_feedSnapshot := unique_from {} (st_FeedSnapshotIDs st),
        mg_feedHistory := st_FeedHistory st, mg_preset := st_PresetOverride st,
        mg_file := Some st\<rparr>"

definition agh_Open ::
  "error option \<Rightarrow> error + string \<Rightarrow> (string \<Rightarrow> error + state) \<Rightarrow> AGHManagedConfig \<Rightarrow> error + Manager" where
  "agh_Open mkdir file unmarshal cfg =
     (case mkdir of
        Some e \<Rightarrow> Inl e
      | None \<Rightarrow>
          (case file of
             Inr raw \<Rightarrow>
               if raw = [] then Inr (newManager cfg)
               else
                 (case unmarshal raw of
                    Inl e \<Rightarrow> Inl (Err (''parse managed rewrites: '' @ error_text e))
                  | Inr st \<Rightarrow> Inr (load_state cfg st))
           | Inl e \<Rightarrow> if e \<noteq> ErrNotExist then Inl e else Inr (newManager cfg)))"

definition SetConfig :: "AGHManagedConfig \<Rightarrow> Manager \<Rightarrow> Manager" where
  "SetConfig cfg m = m\<lparr>mg_cfg := cfg\<lparr>cf_EmergencyEmpty := cf_EmergencyEmpty (mg_cfg m)\<rparr>\<rparr>"

subsection \<open>Helpers\<close>

definition nonempty :: "string \<Rightarrow> string \<Rightarrow> string" where
  "nonempty v fallback = (if v = [] then fallback else v)"

definition validSourceType :: "string \<Rightarrow> bool" where
  "validSourceType typ \<longleftrightarrow>
     typ \<in> {SourceFilterURL, SourceManual, SourceAGHCustomRules, SourceAGHQueryLogCNAME}"

definition validStaleFeedPolicy :: "string \<Rightarrow> bool" where
  "validStaleFeedPolicy p \<longleftrightarrow> p \<in> {StaleFeedPolicyExclude, StaleFeedPolicyKeep}"

definition isRemoteSource :: "string \<Rightarrow> bool" where
  "isRemoteSource typ \<longleftrightarrow> typ \<in> {SourceFilterURL, SourceAGHCustomRules, SourceAGHQueryLogCNAME}"

text \<open>\<^verbatim>\<open>fmt.Sscanf (s, "%d")\<close>: leading spaces, a sign, at least one digit; 64 bits.\<close>

definition digit_val :: "char \<Rightarrow> nat option" where
  "digit_val c = (let n = (of_char c :: nat) in if 48 \<le> n \<and> n \<le> 57 then Some (n - 48) else None)"

fun scan_digits :: "string \<Rightarrow> nat option \<Rightarrow> nat option" where
  "scan_digits [] acc = acc"
| "scan_digits (c # s) acc =
     (case digit_val c of
        None \<Rightarrow> acc
      | Some d \<Rightarrow> scan_digits s (Some ((case acc of None \<Rightarrow> 0 | Some a \<Rightarrow> a) * 10 + d)))"

definition scan_int :: "string \<Rightarrow> int option" where
  "scan_int s0 =
     (let s = dropWhile (\<lambda>c. c = CHR '' '' \<or> c = CHR 0x09) s0;
          neg = (s \<noteq> [] \<and> hd s = CHR ''-'');
          ds = (if s \<noteq> [] \<and> (hd s = CHR ''-'' \<or> hd s = CHR ''+'') then tl s else s)
      in case scan_digits ds None of
           None \<Rightarrow> None
         | Some n \<Rightarrow>
             (let i = (if neg then - int n else int n) in if is_int64 i then Some i else None))"

definition durationOr :: "env \<Rightarrow> string \<Rightarrow> duration \<Rightarrow> duration" where
  "durationOr E raw fallback =
     (if raw = [] then fallback
      else
        (case env_parseDuration E raw of
           Some d \<Rightarrow> d
         | None \<Rightarrow>
             if HasSuffix raw ''d''
             then (case scan_int (TrimSuffix raw ''d'') of
                     Some n \<Rightarrow> wrap64 (n * (24 * hour_ns))
                   | None \<Rightarrow> fallback)
             else fallback))"

definition staleSourceDuration :: "env \<Rightarrow> string \<Rightarrow> duration" where
  "staleSourceDuration E raw = (if raw = ''0'' then 0 else durationOr E raw (72 * hour_ns))"

definition isStaleSource :: "time \<Rightarrow> MSource \<Rightarrow> duration \<Rightarrow> bool" where
  "isStaleSource now src ttl \<longleftrightarrow>
     ttl > 0 \<and> isRemoteSource (so_Type src) \<and> \<not> IsZero (so_LastSuccess src) \<and> now - so_LastSuccess src > ttl"

definition staleFeedPolicy :: "MSource \<Rightarrow> string" where
  "staleFeedPolicy src = (if so_StaleFeedPolicy src = [] then StaleFeedPolicyExclude else so_StaleFeedPolicy src)"

text \<open>\<open>r\<close> is the random draw below the jitter.\<close>

definition nextSync :: "env \<Rightarrow> time \<Rightarrow> int \<Rightarrow> string \<Rightarrow> string \<Rightarrow> time" where
  "nextSync E now r interval jitter =
     (let d = durationOr E interval (12 * hour_ns);
          j = durationOr E jitter 0
      in now + (if j > 0 then d + r mod j else d))"

definition sourceID :: "env \<Rightarrow> MSource \<Rightarrow> string" where
  "sourceID E src =
     ''src_'' @ take 12 (env_digest E
       (so_Type src @ sep0 @ so_Name src @ sep0 @
        (if so_Type src = SourceManual then so_Content src else so_URL src)))"

definition effectivePreset :: "AGHManagedConfig \<Rightarrow> string \<Rightarrow> string" where
  "effectivePreset cfg override = (if override \<noteq> [] then override else nonempty (cf_DefaultPreset cfg) ''balanced'')"

definition validPreset :: "string \<Rightarrow> bool" where
  "validPreset p \<longleftrightarrow> p \<in> {''conservative'', ''balanced'', ''aggressive''}"

definition conf_rank :: "string \<Rightarrow> int" where
  "conf_rank v =
     (let l = ToLower v in
      if l = ''low'' then 1 else if l = ''medium'' \<or> l = [] then 2 else if l = ''high'' then 3 else 0)"

definition confidenceAtLeast :: "string \<Rightarrow> string \<Rightarrow> bool" where
  "confidenceAtLeast got mn \<longleftrightarrow> conf_rank got \<ge> conf_rank mn"

definition rewriteEnabled :: "Entry \<Rightarrow> CatalogOverride \<Rightarrow> AGHManagedConfig \<Rightarrow> bool" where
  "rewriteEnabled e ov cfg \<longleftrightarrow>
     (case ov_RewriteEnabled ov of
        Some b \<Rightarrow> b
      | None \<Rightarrow>
          (let p = nonempty (cf_DefaultPreset cfg) ''balanced'' in
           if p = ''conservative'' then en_ReviewStatus e = ReviewApproved \<and> en_Verified e
           else if p = ''aggressive'' then en_ReviewStatus e \<noteq> ReviewRejected \<and> en_ReviewStatus e \<noteq> ReviewDisabled
           else en_ReviewStatus e = ReviewApproved \<or> en_ReviewStatus e = ReviewNeedsTest \<or>
             (en_ReviewStatus e = ReviewCandidate \<and> confidenceAtLeast (en_Confidence e) ''medium'')))"

definition pick :: "string \<Rightarrow> string \<Rightarrow> string" where
  "pick new old = (if new \<noteq> [] then new else old)"

definition pick_opt :: "'a option \<Rightarrow> 'a option \<Rightarrow> 'a option" where
  "pick_opt new old = (case new of None \<Rightarrow> old | Some v \<Rightarrow> Some v)"

definition mergeOverride :: "CatalogOverride \<Rightarrow> CatalogOverride \<Rightarrow> CatalogOverride" where
  "mergeOverride dst src =
     dst\<lparr>ov_Category := pick (ov_Category src) (ov_Category dst),
         ov_ResourceType := pick (ov_ResourceType src) (ov_ResourceType dst),
         ov_Risk := pick (ov_Risk src) (ov_Risk dst),
         ov_Confidence := pick (ov_Confidence src) (ov_Confidence dst),
         ov_ReviewStatus := pick (ov_ReviewStatus src) (ov_ReviewStatus dst),
         ov_Verified := pick_opt (ov_Verified src) (ov_Verified dst),
         ov_ExpectedCatalog := pick (ov_ExpectedCatalog src) (ov_ExpectedCatalog dst),
         ov_Action := pick (ov_Action src) (ov_Action dst),
         ov_RewriteEnabled := pick_opt (ov_RewriteEnabled src) (ov_RewriteEnabled dst),
         ov_RewriteReason := pick (ov_RewriteReason src) (ov_RewriteReason dst),
         ov_Notes := pick (ov_Notes src) (ov_Notes dst)\<rparr>"

text \<open>The optional actor of a change: \<open>None\<close> when the caller passes none.\<close>

definition setLastChangedBy :: "string option \<Rightarrow> CatalogOverride \<Rightarrow> CatalogOverride" where
  "setLastChangedBy by ov =
     (case by of
        None \<Rightarrow> ov
      | Some a \<Rightarrow> if TrimSpace a \<noteq> [] then ov\<lparr>ov_LastChangedBy := TrimSpace a\<rparr> else ov)"

definition override_of :: "Manager \<Rightarrow> string \<Rightarrow> CatalogOverride" where
  "override_of m eid = get_or zero_override (mg_overrides m) eid"

definition apply_override :: "CatalogOverride \<Rightarrow> Entry \<Rightarrow> Entry" where
  "apply_override ov e =
     e\<lparr>en_Category := pick (ov_Category ov) (en_Category e),
       en_ResourceType := pick (ov_ResourceType ov) (en_ResourceType e),
       en_Risk := pick (ov_Risk ov) (en_Risk e),
       en_Confidence := pick (ov_Confidence ov) (en_Confidence e),
       en_ReviewStatus := pick (ov_ReviewStatus ov) (en_ReviewStatus e),
       en_Verified := (case ov_Verified ov of None \<Rightarrow> en_Verified e | Some b \<Rightarrow> b),
       en_ExpectedCatalog := pick (ov_ExpectedCatalog ov) (en_ExpectedCatalog e)\<rparr>"

definition applyOverrideLocked :: "Manager \<Rightarrow> Entry \<Rightarrow> Entry" where
  "applyOverrideLocked m e = apply_override (override_of m (en_ID e)) e"

definition ParseManualDomains :: "string \<Rightarrow> string" where
  "ParseManualDomains text =
     concat (map (\<lambda>d. (if HasPrefix d ''||'' \<or> Contains d '' '' then d else ''||'' @ d @ [CHR 0x5E]) @ [CHR 0x0A])
       (filter (\<lambda>d. d \<noteq> [] \<and> \<not> HasPrefix d ''#'') (map TrimSpace (scan_lines text))))"

lemma apply_override_simps [simp]:
  "en_ID (apply_override ov e) = en_ID e" "en_Match (apply_override ov e) = en_Match e"
  "en_Source (apply_override ov e) = en_Source e" "en_Layer (apply_override ov e) = en_Layer e"
  "en_Unsupported (apply_override ov e) = en_Unsupported e"
  by (simp_all add: apply_override_def)

lemma applyOverride_simps [simp]:
  "en_ID (applyOverrideLocked m e) = en_ID e" "en_Match (applyOverrideLocked m e) = en_Match e"
  "en_Source (applyOverrideLocked m e) = en_Source e"
  by (simp_all add: applyOverrideLocked_def)

lemma persisted_snd: "snd (persisted io v m) = snd (persistState io m)" "fst (persisted io v m) = (v, io)"
  by (auto simp: persisted_def persistState_def split: option.splits)

lemma persistState_same [simp]:
  "mg_cfg (snd (persistState io m)) = mg_cfg m" "mg_sources (snd (persistState io m)) = mg_sources m"
  "mg_entries (snd (persistState io m)) = mg_entries m" "mg_pending (snd (persistState io m)) = mg_pending m"
  "mg_overrides (snd (persistState io m)) = mg_overrides m" "mg_rollbacks (snd (persistState io m)) = mg_rollbacks m"
  "mg_feedSeen (snd (persistState io m)) = mg_feedSeen m" "mg_feedHistory (snd (persistState io m)) = mg_feedHistory m"
  "mg_feedSnapshot (snd (persistState io m)) = mg_feedSnapshot m" "mg_preset (snd (persistState io m)) = mg_preset m"
  "mg_targetIPs (snd (persistState io m)) = mg_targetIPs m"
  by (auto simp: persistState_def split: option.splits)

end
