(* ===== verification/Go_Codec.thy ===== *)
theory Go_Codec
  imports Go_Prelude
begin

text \<open>
  The encodings of the standard library that the program relies on, each with the law that makes
  it one: decimal integers (\<^verbatim>\<open>strconv.ParseInt\<close> reads back what \<^verbatim>\<open>FormatInt\<close>
  prints), hexadecimal, unpadded URL-safe base64, big-endian integers and the query part of a URL
  (\<^verbatim>\<open>url.QueryEscape\<close>, \<^verbatim>\<open>url.ParseQuery\<close>, \<^verbatim>\<open>Values.Encode\<close>).
\<close>

named_theorems codec \<open>lengths and alphabets of the encodings\<close>

subsection \<open>Decimal integers\<close>

definition is_digit :: "char \<Rightarrow> bool" where
  "is_digit c \<longleftrightarrow> 48 \<le> (of_char c :: nat) \<and> (of_char c :: nat) \<le> 57"

definition digit_value :: "char \<Rightarrow> nat" where
  "digit_value c = of_char c - 48"

definition dec_value :: "string \<Rightarrow> nat" where
  "dec_value s = foldl (\<lambda>n c. 10 * n + digit_value c) 0 s"

text \<open>\<^verbatim>\<open>strconv.ParseInt (s, 10, 64)\<close>: an optional sign and at least one digit.\<close>

definition ParseInt :: "string \<Rightarrow> error + int" where
  "ParseInt s =
     (let neg = (s \<noteq> [] \<and> hd s = CHR ''-'');
          ds = (if s \<noteq> [] \<and> (hd s = CHR ''-'' \<or> hd s = CHR ''+'') then tl s else s);
          n = int (dec_value ds)
      in if ds = [] \<or> \<not> list_all is_digit ds then Inl (Err ''invalid syntax'')
         else if neg then (if n \<le> 2 ^ 63 then Inr (- n) else Inl (Err ''value out of range''))
         else if n < 2 ^ 63 then Inr n else Inl (Err ''value out of range''))"

lemma digit_char_props [simp]:
  assumes "n < 10"
  shows "is_digit (digit_char n)" "digit_value (digit_char n) = n"
  using assms by (simp_all add: is_digit_def digit_value_def digit_char_def)

lemma dec_value_snoc: "dec_value (s @ [c]) = 10 * dec_value s + digit_value c"
  by (simp add: dec_value_def)

lemma show_nat_dec:
  "list_all is_digit (show_nat n) \<and> show_nat n \<noteq> [] \<and> dec_value (show_nat n) = n"
proof (induction n rule: show_nat.induct)
  case (1 n)
  show ?case
  proof (cases "n < 10")
    case True
    then show ?thesis by (simp add: show_nat.simps[of n] dec_value_def)
  next
    case False
    with 1 show ?thesis by (simp add: show_nat.simps[of n] dec_value_snoc)
  qed
qed

lemma show_nat_no_sign: "CHR ''-'' \<notin> set (show_nat n)" "CHR ''+'' \<notin> set (show_nat n)" "CHR '','' \<notin> set (show_nat n)"
  using show_nat_dec[of n] by (auto simp: list_all_iff is_digit_def)

lemma ParseInt_show: "is_int64 i \<Longrightarrow> ParseInt (show_int i) = Inr i"
proof (cases "i < 0")
  case True
  assume "is_int64 i"
  with True show_nat_dec[of "nat (- i)"] show ?thesis by (auto simp: ParseInt_def show_int_def is_int64_def Let_def)
next
  case False
  assume i: "is_int64 i"
  have "hd (show_nat (nat i)) \<noteq> CHR ''-'' \<and> hd (show_nat (nat i)) \<noteq> CHR ''+''"
    using show_nat_no_sign[of "nat i"] show_nat_dec[of "nat i"] by (metis hd_in_set)
  with False i show_nat_dec[of "nat i"] show ?thesis by (auto simp: ParseInt_def show_int_def is_int64_def Let_def)
qed

lemma ParseInt_range: "ParseInt s = Inr i \<Longrightarrow> is_int64 i"
  by (auto simp: ParseInt_def is_int64_def Let_def split: if_splits)

subsection \<open>Hexadecimal\<close>

definition hex_pair :: "char \<Rightarrow> string" where
  "hex_pair c = (let n = (of_char c :: nat) in [hex_digit (n div 16), hex_digit (n mod 16)])"

definition hex_encode :: "string \<Rightarrow> string" where
  "hex_encode s = concat (map hex_pair s)"

definition hex_upper :: "nat \<Rightarrow> char" where
  "hex_upper n = (if n < 10 then char_of (48 + n) else char_of (55 + n))"

definition is_hex :: "char \<Rightarrow> bool" where
  "is_hex c \<longleftrightarrow> (let n = (of_char c :: nat) in 48 \<le> n \<and> n \<le> 57 \<or> 97 \<le> n \<and> n \<le> 102 \<or> 65 \<le> n \<and> n \<le> 70)"

definition unhex :: "char \<Rightarrow> nat" where
  "unhex c = (let n = (of_char c :: nat) in if n \<le> 57 then n - 48 else if 97 \<le> n then n - 87 else n - 55)"

lemma byte_lt: "(of_char c :: nat) < 256"
  by (metis nat_of_char_less_256)

lemma hex_upper_props [simp]:
  assumes "n < 16"
  shows "is_hex (hex_upper n)" "unhex (hex_upper n) = n"
  using assms by (auto simp: is_hex_def unhex_def hex_upper_def Let_def)

lemma length_hex_encode [codec]: "length (hex_encode s) = 2 * length s"
  by (induction s) (simp_all add: hex_encode_def hex_pair_def Let_def)

subsection \<open>Big-endian integers\<close>

definition be_bytes :: "nat \<Rightarrow> nat \<Rightarrow> string" where
  "be_bytes w n = map (\<lambda>i. char_of (n div 256 ^ i mod 256)) (rev [0..<w])"

definition be_value :: "string \<Rightarrow> nat" where
  "be_value s = foldl (\<lambda>n c. 256 * n + of_char c) 0 s"

lemma length_be_bytes [codec]: "length (be_bytes w n) = w"
  by (simp add: be_bytes_def)

lemma be_bytes_Suc: "be_bytes (Suc w) n = be_bytes w (n div 256) @ [char_of (n mod 256)]"
proof -
  have "rev [0..<Suc w] = map Suc (rev [0..<w]) @ [0]"
    by (metis rev.simps(2) rev_map map_Suc_upt upt_conv_Cons zero_less_Suc)
  then show ?thesis by (simp add: be_bytes_def div_mult2_eq)
qed

lemma be_value_bytes: "be_value (be_bytes w n) = n mod 256 ^ w"
proof (induction w arbitrary: n)
  case (Suc w)
  have "be_value (be_bytes (Suc w) n) = 256 * be_value (be_bytes w (n div 256)) + n mod 256"
    unfolding be_bytes_Suc by (simp add: be_value_def)
  also have "\<dots> = 256 * (n div 256 mod 256 ^ w) + n mod 256" by (simp add: Suc.IH)
  also have "\<dots> = n mod (256 * 256 ^ w)" by (simp add: mod_mult2_eq)
  finally show ?case by simp
qed (simp add: be_bytes_def be_value_def)

subsection \<open>Unpadded base64 for URLs\<close>

definition b64_alphabet :: string where
  "b64_alphabet = ''ABCDEFGHIJKLMNOPQRSTUVWXYZabcdefghijklmnopqrstuvwxyz0123456789-_''"

definition b64_char :: "nat \<Rightarrow> char" where
  "b64_char n = b64_alphabet ! (n mod 64)"

fun b64_bytes :: "nat list \<Rightarrow> string" where
  "b64_bytes (a # b # c # s) =
     b64_char (a div 4) # b64_char ((a mod 4) * 16 + b div 16) # b64_char ((b mod 16) * 4 + c div 64) #
     b64_char (c mod 64) # b64_bytes s"
| "b64_bytes [a, b] = [b64_char (a div 4), b64_char ((a mod 4) * 16 + b div 16), b64_char ((b mod 16) * 4)]"
| "b64_bytes [a] = [b64_char (a div 4), b64_char ((a mod 4) * 16)]"
| "b64_bytes [] = []"

definition RawURLEncode :: "string \<Rightarrow> string" where
  "RawURLEncode s = b64_bytes (map of_char s)"

text \<open>The padded standard encoding differs in two letters and in the padding.\<close>

definition StdEncode :: "string \<Rightarrow> string" where
  "StdEncode s =
     map (\<lambda>c. if c = CHR ''-'' then CHR ''+'' else if c = CHR ''_'' then CHR ''/'' else c) (RawURLEncode s) @
     replicate ((3 - length s mod 3) mod 3) (CHR ''='')"

lemma length_b64_alphabet: "length b64_alphabet = 64"
  by (simp add: b64_alphabet_def)

lemma b64_char_in: "b64_char n \<in> set b64_alphabet"
  unfolding b64_char_def by (rule nth_mem) (simp add: length_b64_alphabet)

lemma set_b64_bytes: "set (b64_bytes s) \<subseteq> set b64_alphabet"
  by (induction s rule: b64_bytes.induct) (auto simp: b64_char_in)

lemma set_RawURLEncode [codec]: "set (RawURLEncode s) \<subseteq> set b64_alphabet"
  by (simp add: RawURLEncode_def set_b64_bytes)

lemma length_b64_bytes: "length (b64_bytes s) = (4 * length s + 2) div 3"
  by (induction s rule: b64_bytes.induct) auto

lemma length_RawURLEncode [codec]: "length (RawURLEncode s) = (4 * length s + 2) div 3"
  by (simp add: RawURLEncode_def length_b64_bytes)

subsection \<open>The query of a URL\<close>

definition unreserved :: "char \<Rightarrow> bool" where
  "unreserved c \<longleftrightarrow>
     (let n = (of_char c :: nat) in 48 \<le> n \<and> n \<le> 57 \<or> 65 \<le> n \<and> n \<le> 90 \<or> 97 \<le> n \<and> n \<le> 122) \<or> c \<in> set ''-_.~''"

definition escape_char :: "char \<Rightarrow> string" where
  "escape_char c =
     (if unreserved c then [c] else if c = CHR '' '' then ''+''
      else (let n = (of_char c :: nat) in [CHR ''%'', hex_upper (n div 16), hex_upper (n mod 16)]))"

definition QueryEscape :: "string \<Rightarrow> string" where
  "QueryEscape s = concat (map escape_char s)"

text \<open>\<^verbatim>\<open>None\<close> is the escape error.\<close>

fun QueryUnescape :: "string \<Rightarrow> string option" where
  "QueryUnescape [] = Some []"
| "QueryUnescape (c # s) =
     (if c = CHR ''%'' then
        (case s of
           a # b # s' \<Rightarrow>
             if is_hex a \<and> is_hex b
             then map_option ((#) (char_of (16 * unhex a + unhex b))) (QueryUnescape s') else None
         | _ \<Rightarrow> None)
      else if c = CHR ''+'' then map_option ((#) CHR '' '') (QueryUnescape s)
      else map_option ((#) c) (QueryUnescape s))"

lemma unescape_char: "QueryUnescape (escape_char c @ s) = map_option ((#) c) (QueryUnescape s)"
proof -
  have d: "(of_char c :: nat) div 16 < 16" "(of_char c :: nat) mod 16 < 16"
    using byte_lt[of c] by (auto intro: less_mult_imp_div_less)
  have plain: "c \<noteq> CHR ''%'' \<and> c \<noteq> CHR ''+''" if "unreserved c"
    using that by (auto simp: unreserved_def)
  have bck: "char_of (16 * ((of_char c :: nat) div 16) + (of_char c :: nat) mod 16) = c" by simp
  show ?thesis using d plain bck by (auto simp: escape_char_def Let_def)
qed

lemma QueryUnescape_escape: "QueryUnescape (QueryEscape s) = Some s"
  by (induction s) (simp_all add: QueryEscape_def unescape_char)

lemma QueryEscape_inj: "QueryEscape s = QueryEscape t \<longleftrightarrow> s = t"
  by (metis QueryUnescape_escape option.inject)

lemma escape_safe:
  assumes "x \<in> set (QueryEscape s)"
  shows "x \<noteq> CHR ''&'' \<and> x \<noteq> CHR ''='' \<and> x \<noteq> CHR '';''"
proof -
  have hex: "hex_upper n \<noteq> CHR ''&'' \<and> hex_upper n \<noteq> CHR ''='' \<and> hex_upper n \<noteq> CHR '';''" if "n < 16" for n
  proof -
    have "is_hex (hex_upper n)" using that by simp
    then show ?thesis by (auto simp: is_hex_def Let_def)
  qed
  from assms obtain c where c: "x \<in> set (escape_char c)" by (auto simp: QueryEscape_def)
  have d: "(of_char c :: nat) div 16 < 16" "(of_char c :: nat) mod 16 < 16"
    using byte_lt[of c] by (auto intro: less_mult_imp_div_less)
  from c d hex show ?thesis by (auto simp: escape_char_def unreserved_def Let_def split: if_splits)
qed

lemma QueryEscape_Nil: "QueryEscape s = [] \<longleftrightarrow> s = []"
  by (cases s) (auto simp: QueryEscape_def escape_char_def Let_def)

text \<open>The pieces between ampersands.\<close>

fun split_amp :: "string \<Rightarrow> string \<Rightarrow> string list" where
  "split_amp cur [] = [cur]"
| "split_amp cur (c # s) = (if c = CHR ''&'' then cur # split_amp [] s else split_amp (cur @ [c]) s)"

type_synonym query_values = "(string, string list) gomap"

text \<open>
  One piece: a semicolon or a malformed escape drops it, and so does an empty piece.
\<close>

definition query_piece :: "string \<Rightarrow> (string \<times> string) option" where
  "query_piece p =
     (if p = [] \<or> CHR '';'' \<in> set p then None
      else (case QueryUnescape (cut_before CHR ''='' p) of
              None \<Rightarrow> None
            | Some k \<Rightarrow>
                (case QueryUnescape (cut_after CHR ''='' p) of None \<Rightarrow> None | Some v \<Rightarrow> Some (k, v))))"

definition add_value :: "query_values \<Rightarrow> string \<times> string \<Rightarrow> query_values" where
  "add_value m kv = put (fst kv) (get_or [] m (fst kv) @ [snd kv]) m"

text \<open>\<^verbatim>\<open>URL.Query\<close> is \<^verbatim>\<open>ParseQuery\<close> with the error dropped.\<close>

definition ParseQuery :: "string \<Rightarrow> query_values" where
  "ParseQuery q = foldl add_value [] (List.map_filter query_piece (split_amp [] q))"

text \<open>Whether \<^verbatim>\<open>ParseQuery\<close> reports an error: a piece it had to drop.\<close>

definition query_err :: "string \<Rightarrow> bool" where
  "query_err q \<longleftrightarrow> list_ex (\<lambda>p. p \<noteq> [] \<and> query_piece p = None) (split_amp [] q)"

definition encode_pair :: "string \<times> string \<Rightarrow> string" where
  "encode_pair kv = QueryEscape (fst kv) @ ''='' @ QueryEscape (snd kv)"

definition query_pairs :: "query_values \<Rightarrow> (string \<times> string) list" where
  "query_pairs m = concat (map (\<lambda>k. map (Pair k) (get_or [] m k)) (sort (map fst m)))"

definition Values_Encode :: "query_values \<Rightarrow> string" where
  "Values_Encode m = Join (map encode_pair (query_pairs m)) ''&''"

lemma split_amp_append: "split_amp cur (a @ CHR ''&'' # b) = split_amp cur a @ split_amp [] b"
  by (induction a arbitrary: cur) auto

lemma split_amp_plain: "CHR ''&'' \<notin> set a \<Longrightarrow> split_amp cur a = [cur @ a]"
  by (induction a arbitrary: cur) auto

lemma split_amp_Join:
  "\<forall>p\<in>set ps. CHR ''&'' \<notin> set p \<Longrightarrow> split_amp [] (Join ps ''&'') = (if ps = [] then [[]] else ps)"
proof (induction ps rule: induct_list012)
  case (3 p q ps)
  then show ?case using split_amp_append[of "[]" p "Join (q # ps) ''&''"] by (simp add: split_amp_plain)
qed (auto simp: split_amp_plain)

lemma cut_eq:
  "CHR ''='' \<notin> set a \<Longrightarrow> cut_before CHR ''='' (a @ CHR ''='' # b) = a"
  "CHR ''='' \<notin> set a \<Longrightarrow> cut_after CHR ''='' (a @ CHR ''='' # b) = b"
  by (induction a) (auto simp: cut_before_def cut_after_def)

lemma query_piece_encode: "query_piece (encode_pair kv) = Some kv"
proof -
  have "CHR ''='' \<notin> set (QueryEscape (fst kv))" "CHR '';'' \<notin> set (encode_pair kv)"
    using escape_safe by (fastforce simp: encode_pair_def)+
  moreover have "encode_pair kv \<noteq> []" by (simp add: encode_pair_def)
  ultimately show ?thesis
    by (simp add: query_piece_def encode_pair_def cut_eq QueryUnescape_escape)
qed

lemma encode_pair_no_amp: "CHR ''&'' \<notin> set (encode_pair kv)"
  using escape_safe by (fastforce simp: encode_pair_def)

lemma ParseQuery_pairs: "ParseQuery (Join (map encode_pair ps) ''&'') = foldl add_value [] ps"
proof -
  have "split_amp [] (Join (map encode_pair ps) ''&'') = (if ps = [] then [[]] else map encode_pair ps)"
    by (subst split_amp_Join) (auto simp: encode_pair_no_amp)
  moreover have "List.map_filter query_piece (map encode_pair ps) = ps"
    by (induction ps) (simp_all add: query_piece_encode List.map_filter_simps)
  moreover have "List.map_filter query_piece [[]] = []" by (simp add: List.map_filter_simps query_piece_def)
  ultimately show ?thesis by (auto simp: ParseQuery_def)
qed

lemma add_values:
  "get_or [] (foldl add_value m ps) k = get_or [] m k @ map snd (filter (\<lambda>p. fst p = k) ps)"
  by (induction ps arbitrary: m) (auto simp: add_value_def)

lemma wf_add_values: "wf_map m \<Longrightarrow> wf_map (foldl add_value m ps)"
  by (induction ps arbitrary: m) (auto simp: add_value_def)

lemma wf_ParseQuery [simp]: "wf_map (ParseQuery q)"
  unfolding ParseQuery_def by (rule wf_add_values) simp

lemma dom_add_values: "fst ` set (foldl add_value m ps) = fst ` set m \<union> fst ` set ps"
proof (induction ps arbitrary: m)
  case (Cons p ps)
  have "fst ` set (add_value m p) = insert (fst p) (fst ` set m)"
    by (simp add: add_value_def dom_update)
  with Cons.IH[of "add_value m p"] show ?case by auto
qed simp

lemma query_pairs_of:
  assumes "wf_map m"
  shows "map snd (filter (\<lambda>p. fst p = k) (query_pairs m)) = get_or [] m k"
proof -
  have part: "map snd (filter (\<lambda>p. fst p = k) (concat (map (\<lambda>k. map (Pair k) (get_or [] m k)) ks))) =
      (if k \<in> set ks then get_or [] m k else [])" if "distinct ks" for ks
    using that
  proof (induction ks)
    case (Cons a ks)
    then show ?case by (cases "a = k") (simp_all add: filter_map comp_def)
  qed simp
  have "distinct (sort (map fst m))" using assms by (simp add: wf_map_def)
  moreover have "get_or [] m k = []" if "k \<notin> fst ` set m"
    using that by (simp add: map_keys_iff get_or_def)
  ultimately show ?thesis using part[of "sort (map fst m)"] by (simp add: query_pairs_def)
qed

text \<open>Reading an encoded query gives back the values of every key.\<close>

lemma ParseQuery_Encode:
  assumes "wf_map m"
  shows "get_or [] (ParseQuery (Values_Encode m)) k = get_or [] m k"
  unfolding Values_Encode_def ParseQuery_pairs add_values query_pairs_of[OF assms] by (simp add: get_or_def)

lemma ParseQuery_Encode_keys:
  assumes "wf_map m"
  shows "fst ` set (ParseQuery (Values_Encode m)) = {k. get_or [] m k \<noteq> []}"
proof -
  have "fst ` set (query_pairs m) = {k \<in> fst ` set m. get_or [] m k \<noteq> []}"
  proof (intro set_eqI iffI)
    fix k assume "k \<in> fst ` set (query_pairs m)"
    then show "k \<in> {k \<in> fst ` set m. get_or [] m k \<noteq> []}" by (force simp: query_pairs_def)
  next
    fix k assume k: "k \<in> {k \<in> fst ` set m. get_or [] m k \<noteq> []}"
    then obtain v vs where "get_or [] m k = v # vs" by (auto simp: neq_Nil_conv)
    with k have "(k, v) \<in> set (query_pairs m)" by (force simp: query_pairs_def)
    then show "k \<in> fst ` set (query_pairs m)" by force
  qed
  also have "\<dots> = {k. get_or [] m k \<noteq> []}"
    by (auto simp: map_keys_iff get_or_def split: option.splits)
  finally show ?thesis unfolding Values_Encode_def ParseQuery_pairs dom_add_values by simp
qed

end
