(* ===== verification/Config.thy ===== *)
theory Config
  imports AghTypes Go_Codec
begin

text \<open>
  The configuration of \<^verbatim>\<open>internal/config/config.go\<close>: its sections, the defaults, loading over
  them and the validation that every start and reload goes through.

  The TOML decoder, the read of the file, \<^verbatim>\<open>time.ParseDuration\<close> and \<^verbatim>\<open>net.ParseIP\<close> are
  arguments. The section of the managed feed is the record of theory \<open>AghTypes\<close>. The warning
  about a newer schema version is output only.
\<close>

subsection \<open>Sections\<close>

record ListenConfig =
  li_HTTP :: string
  li_HTTPS :: string
  li_IPv6 :: bool

record ProtocolsConfig =
  pr_HTTP1 :: bool
  pr_HTTP2 :: bool
  pr_QUIC :: bool
  pr_HTTP3 :: bool

record CertConfig =
  ct_IntermediateCert :: string
  ct_IntermediateKey :: string
  ct_KeyType :: string
  ct_CacheMax :: int
  ct_CacheTTLHours :: int
  ct_CacheDir :: string

record MimicConfig =
  mc_Enabled :: bool
  mc_MaxBytes :: int
  mc_CacheMax :: int
  mc_AllowVideo :: bool

record ResourcesConfig =
  rc_MaxConns :: int
  rc_RateLimit :: int
  rc_BodyMaxBytes :: int

record cfgDebugScope =
  ds_Domain :: string
  ds_Client :: string
  ds_TTL :: string

record LogConfig =
  lg_Level :: string
  lg_Mode :: string
  lg_Retention :: string
  lg_Redact :: bool
  lg_DebugScope :: "cfgDebugScope list"

record ObservabilityCatalogConfig =
  oc_Enabled :: bool
  oc_PrometheusLabels :: "string list"
  oc_EmitSIEMCatalogFields :: bool

record ObservabilityConfig =
  oy_Listen :: string
  oy_Metrics :: bool
  oy_Catalog :: ObservabilityCatalogConfig

record OIDCConfig =
  oi_Enabled :: bool
  oi_Issuer :: string
  oi_ClientID :: string
  oi_ClientSecret :: string
  oi_RedirectURL :: string
  oi_GroupsClaim :: string
  oi_RoleMap :: "(string, string) gomap"

record AdminConfig =
  ad_Enabled :: bool
  ad_Listen :: string
  ad_SecureCookies :: bool
  ad_OIDC :: OIDCConfig

record PathsConfig =
  pa_PolicyDir :: string
  pa_CatalogDir :: string
  pa_StateDir :: string
  pa_AGHEnv :: string

record CNAMEConfig =
  cn_Enabled :: bool
  cn_UseQueryLog :: bool
  cn_KnownTrackerSources :: "string list"
  cn_CandidateMinConfidence :: string

record AGHSyncConfig =
  ag_Enabled :: bool
  ag_BaseURL :: string
  ag_EnvFile :: string
  ag_SyncInterval :: string
  ag_SyncFilters :: bool
  ag_SyncCustomRules :: bool
  ag_SyncAllowDeny :: bool
  ag_SyncQueryLog :: bool
  ag_FilterURLs :: "string list"
  ag_CustomRules :: "string list"
  ag_CNAME :: CNAMEConfig

record RuleCatalogConfig =
  rg_Path :: string
  rg_RefreshOnReload :: bool

record UnknownProfileActions =
  ua_SuspiciousDomain :: string
  ua_TrackingPixel :: string
  ua_Beacon :: string
  ua_Javascript :: string
  ua_APIJSON :: string

record UnknownProfileConfig =
  up_Enabled :: bool
  up_Default :: string
  up_Safe :: UnknownProfileActions
  up_Balanced :: UnknownProfileActions
  up_Aggressive :: UnknownProfileActions

record Config =
  c_Version :: int
  c_Listen :: ListenConfig
  c_Protocols :: ProtocolsConfig
  c_Cert :: CertConfig
  c_Resolvers :: "string list"
  c_Mode :: string
  c_Mimic :: MimicConfig
  c_Resources :: ResourcesConfig
  c_Log :: LogConfig
  c_Observability :: ObservabilityConfig
  c_Admin :: AdminConfig
  c_AGHManaged :: AGHManagedConfig
  c_Paths :: PathsConfig
  c_AGHSync :: AGHSyncConfig
  c_RuleCatalog :: RuleCatalogConfig
  c_UnknownProfile :: UnknownProfileConfig
  c_ScrubbedUA :: string
  c_path :: string

definition SchemaVersion :: int where
  "SchemaVersion = 1"

definition Defaults :: Config where
  "Defaults =
     \<lparr>c_Version = SchemaVersion,
      c_Listen = \<lparr>li_HTTP = '':80'', li_HTTPS = '':443'', li_IPv6 = True\<rparr>,
      c_Protocols = \<lparr>pr_HTTP1 = True, pr_HTTP2 = True, pr_QUIC = False, pr_HTTP3 = False\<rparr>,
      c_Cert = \<lparr>ct_IntermediateCert = ''/etc/mirage-chaff/ca/intermediate.crt'',
        ct_IntermediateKey = ''/etc/mirage-chaff/ca/intermediate.key'', ct_KeyType = ''ecdsa'', ct_CacheMax = 2048,
        ct_CacheTTLHours = 168, ct_CacheDir = ''/var/lib/mirage-chaff/certcache''\<rparr>,
      c_Resolvers = [''https://1.1.1.1/dns-query''],
      c_Mode = ''full'',
      c_Mimic = \<lparr>mc_Enabled = True, mc_MaxBytes = 8388608, mc_CacheMax = 512, mc_AllowVideo = False\<rparr>,
      c_Resources = \<lparr>rc_MaxConns = 1024, rc_RateLimit = 0, rc_BodyMaxBytes = 33554432\<rparr>,
      c_Log = \<lparr>lg_Level = ''info'', lg_Mode = ''redacted'', lg_Retention = ''7d'', lg_Redact = True, lg_DebugScope = []\<rparr>,
      c_Observability = \<lparr>oy_Listen = ''127.0.0.1:9256'', oy_Metrics = True,
        oy_Catalog = \<lparr>oc_Enabled = True,
          oc_PrometheusLabels = [''category'', ''risk'', ''verified'', ''review_status'', ''source_type''],
          oc_EmitSIEMCatalogFields = True\<rparr>\<rparr>,
      c_Admin = \<lparr>ad_Enabled = False, ad_Listen = ''127.0.0.1:8443'', ad_SecureCookies = False,
        ad_OIDC = \<lparr>oi_Enabled = False, oi_Issuer = [], oi_ClientID = [], oi_ClientSecret = [], oi_RedirectURL = [],
          oi_GroupsClaim = [], oi_RoleMap = []\<rparr>\<rparr>,
      c_AGHManaged = \<lparr>cf_Enabled = False, cf_FeedPath = ''/agh/managed-rewrites.txt'', cf_TargetName = ''mirage-chaff.lan'',
        cf_TargetMode = ''resolved_ip'', cf_StaticIPv4 = [], cf_StaticIPv6 = [], cf_EmergencyEmpty = False,
        cf_AutoEmergencyEmptyOnTargetFailure = False, cf_DefaultPreset = ''balanced'', cf_StaleTargetTTL = ''24h'',
        cf_Scheduler = \<lparr>sd_Enabled = True, sd_DefaultSyncInterval = ''12h'', sd_SyncTimeout = ''30s'',
          sd_MaxParallelSyncs = 2, sd_Jitter = ''10m'', sd_StaleSourceTTL = ''72h'', sd_LargeChangeThresholdPercent = 25,
          sd_LargeChangeThresholdCount = 500, sd_LargeChangeRequiresReview = True\<rparr>\<rparr>,
      c_Paths = \<lparr>pa_PolicyDir = ''/etc/mirage-chaff/policy.d'', pa_CatalogDir = ''/etc/mirage-chaff/catalog'',
        pa_StateDir = ''/var/lib/mirage-chaff'', pa_AGHEnv = ''/etc/mirage-chaff/agh.env''\<rparr>,
      c_AGHSync = \<lparr>ag_Enabled = False, ag_BaseURL = ''http://127.0.0.1:3000'', ag_EnvFile = ''/etc/mirage-chaff/agh.env'',
        ag_SyncInterval = ''1h'', ag_SyncFilters = True, ag_SyncCustomRules = True, ag_SyncAllowDeny = True,
        ag_SyncQueryLog = False, ag_FilterURLs = [], ag_CustomRules = [],
        ag_CNAME = \<lparr>cn_Enabled = True, cn_UseQueryLog = True, cn_KnownTrackerSources = [''rule_catalog''],
          cn_CandidateMinConfidence = ''medium''\<rparr>\<rparr>,
      c_RuleCatalog = \<lparr>rg_Path = ''/var/lib/mirage-chaff/rule-catalog.json'', rg_RefreshOnReload = True\<rparr>,
      c_UnknownProfile = \<lparr>up_Enabled = True, up_Default = ''safe'',
        up_Safe = \<lparr>ua_SuspiciousDomain = ''observe'', ua_TrackingPixel = ''forward'', ua_Beacon = ''forward'',
          ua_Javascript = ''forward'', ua_APIJSON = ''forward''\<rparr>,
        up_Balanced = \<lparr>ua_SuspiciousDomain = ''observe'', ua_TrackingPixel = ''stub:pixel'', ua_Beacon = ''stub:beacon-204'',
          ua_Javascript = ''forward'', ua_APIJSON = ''forward''\<rparr>,
        up_Aggressive = \<lparr>ua_SuspiciousDomain = ''stub:beacon-204'', ua_TrackingPixel = ''stub:pixel'',
          ua_Beacon = ''stub:beacon-204'', ua_Javascript = ''candidate-log'', ua_APIJSON = ''forward''\<rparr>\<rparr>,
      c_ScrubbedUA = [],
      c_path = []\<rparr>"

text \<open>The decoder gets the bytes and the configuration it writes over.\<close>

definition Config_Load ::
  "(string \<Rightarrow> error + string) \<Rightarrow> (string \<Rightarrow> Config \<Rightarrow> error + Config) \<Rightarrow> string \<Rightarrow> error + Config" where
  "Config_Load rd unmarshal path =
     (let cfg = Defaults\<lparr>c_path := path\<rparr> in
      case rd path of
        Inl e \<Rightarrow> if e = ErrNotExist then Inr cfg else Inl (Err (''read '' @ path @ '': '' @ error_text e))
      | Inr raw \<Rightarrow>
          (case unmarshal raw cfg of
             Inl e \<Rightarrow> Inl (Err (''parse '' @ path @ '': '' @ error_text e))
           | Inr c \<Rightarrow> Inr (c\<lparr>c_path := path\<rparr>)))"

subsection \<open>Validation\<close>

definition targetMode :: "string \<Rightarrow> string" where
  "targetMode m = (if m = [] then ''resolved_ip'' else m)"

fun check_v4s :: "(string \<Rightarrow> ip option) \<Rightarrow> string list \<Rightarrow> int \<Rightarrow> error + int" where
  "check_v4s parseIP [] n = Inr n"
| "check_v4s parseIP (raw # rs) n =
     (case parseIP raw of
        Some (IPv4 _) \<Rightarrow> check_v4s parseIP rs (n + 1)
      | _ \<Rightarrow> Inl (Err (''agh_managed_rewrites.static_ipv4: invalid IPv4 address '' @ quote raw)))"

fun check_v6s :: "(string \<Rightarrow> ip option) \<Rightarrow> string list \<Rightarrow> int \<Rightarrow> error + int" where
  "check_v6s parseIP [] n = Inr n"
| "check_v6s parseIP (raw # rs) n =
     (case parseIP raw of
        Some (IPv6 _) \<Rightarrow> check_v6s parseIP rs (n + 1)
      | _ \<Rightarrow> Inl (Err (''agh_managed_rewrites.static_ipv6: invalid IPv6 address '' @ quote raw)))"

definition checkStaticIPs :: "(string \<Rightarrow> ip option) \<Rightarrow> string list \<Rightarrow> string list \<Rightarrow> error option" where
  "checkStaticIPs parseIP v4s v6s =
     (case check_v4s parseIP v4s 0 of
        Inl e \<Rightarrow> Some e
      | Inr n \<Rightarrow>
          (case check_v6s parseIP v6s n of
             Inl e \<Rightarrow> Some e
           | Inr k \<Rightarrow>
               if k = 0 then Some (Err ''agh_managed_rewrites.static_ip target mode requires at least one static IPv4 or IPv6 address'')
               else None))"

text \<open>
  \<^verbatim>\<open>fmt.Sscanf (s, "%d", &n)\<close>: leading blanks are skipped, and what follows the digits is
  not looked at.
\<close>

definition Sscanf_d :: "string \<Rightarrow> int option" where
  "Sscanf_d s =
     (let s1 = dropWhile (\<lambda>c. c = CHR '' '' \<or> c = CHR 0x09 \<or> c = CHR 0x0D) s;
          sign = takeWhile (\<lambda>c. c = CHR ''+'' \<or> c = CHR ''-'') (take 1 s1);
          ds = takeWhile is_digit (drop (length sign) s1)
      in case ParseInt (sign @ ds) of Inl _ \<Rightarrow> None | Inr n \<Rightarrow> Some n)"

definition checkDuration :: "(string \<Rightarrow> duration option) \<Rightarrow> string \<Rightarrow> string \<Rightarrow> error option" where
  "checkDuration parseDuration field raw =
     (if raw = [] then None
      else if parseDuration raw \<noteq> None then None
      else if HasSuffix raw ''d'' \<and> (case Sscanf_d (TrimSuffix raw ''d'') of None \<Rightarrow> False | Some n \<Rightarrow> 0 < n) then None
      else Some (Err (field @ '': invalid duration '' @ quote raw @ '' (use Go duration like '' @ quote ''12h'' @
             '' or day suffix like '' @ quote ''7d'' @ '')'')))"

text \<open>The errors in the order of the code: the first test that fails is the result.\<close>

fun first_error :: "(bool \<times> error) list \<Rightarrow> error option" where
  "first_error [] = None"
| "first_error ((bad, e) # xs) = (if bad then Some e else first_error xs)"

definition check_head :: "Config \<Rightarrow> error option" where
  "check_head c = first_error
     [(c_Mode c \<notin> {''full'', ''stub-only''}, Err (''mode: must be '' @ quote ''full'' @ '' or '' @ quote ''stub-only'' @ '', got '' @ quote (c_Mode c))),
      (ct_KeyType (c_Cert c) \<notin> {''ecdsa'', ''rsa''}, Err (''cert.key_type: must be '' @ quote ''ecdsa'' @ '' or '' @ quote ''rsa'' @ '', got '' @ quote (ct_KeyType (c_Cert c)))),
      (pr_HTTP3 (c_Protocols c) \<and> \<not> pr_QUIC (c_Protocols c), Err ''protocols.http3 requires protocols.quic = true''),
      (li_HTTPS (c_Listen c) = [], Err ''listen.https must be set''),
      (c_Resolvers c = [], Err ''upstream.resolvers must not be empty (must NOT point at AdGuard Home)''),
      (lg_Mode (c_Log c) \<notin> {[], ''off'', ''redacted'', ''stats'', ''debug'', ''full''}, Err (''log.mode: must be off|redacted|stats|debug|full, got '' @ quote (lg_Mode (c_Log c)))),
      (up_Default (c_UnknownProfile c) \<notin> {[], ''safe'', ''balanced'', ''aggressive''}, Err (''unknown_profile.default: must be safe|balanced|aggressive, got '' @ quote (up_Default (c_UnknownProfile c)))),
      (rg_Path (c_RuleCatalog c) = [], Err ''rule_catalog.path must be set''),
      (cf_FeedPath (c_AGHManaged c) = [], Err ''agh_managed_rewrites.feed_path must be set''),
      (cf_TargetMode (c_AGHManaged c) \<notin> {[], ''resolved_ip'', ''cname'', ''static_ip''}, Err (''agh_managed_rewrites.target_mode: must be resolved_ip|cname|static_ip, got '' @ quote (cf_TargetMode (c_AGHManaged c))))]"

definition check_target :: "(string \<Rightarrow> ip option) \<Rightarrow> AGHManagedConfig \<Rightarrow> error option" where
  "check_target parseIP m =
     (let t = targetMode (cf_TargetMode m) in
      if t = ''resolved_ip'' \<or> t = ''cname''
      then (if cf_TargetName m = [] then Some (Err ''agh_managed_rewrites.target_name must be set for resolved_ip/cname target mode'') else None)
      else if t = ''static_ip'' then checkStaticIPs parseIP (cf_StaticIPv4 m) (cf_StaticIPv6 m)
      else None)"

definition check_rest :: "Config \<Rightarrow> error option" where
  "check_rest c = first_error
     [(cf_DefaultPreset (c_AGHManaged c) \<notin> {[], ''conservative'', ''balanced'', ''aggressive''}, Err (''agh_managed_rewrites.default_preset: must be conservative|balanced|aggressive, got '' @ quote (cf_DefaultPreset (c_AGHManaged c)))),
      (sd_LargeChangeThresholdPercent (cf_Scheduler (c_AGHManaged c)) < 0, Err ''agh_managed_rewrites.scheduler.large_change_threshold_percent must be >= 0''),
      (sd_LargeChangeThresholdCount (cf_Scheduler (c_AGHManaged c)) < 0, Err ''agh_managed_rewrites.scheduler.large_change_threshold_count must be >= 0''),
      (oy_Listen (c_Observability c) = [], Err ''observability.listen must be set (health/metrics must stay up even when admin is disabled)'')]"

fun check_durations :: "(string \<Rightarrow> duration option) \<Rightarrow> (string \<times> string) list \<Rightarrow> error option" where
  "check_durations parseDuration [] = None"
| "check_durations parseDuration ((field, val) # fds) =
     (case checkDuration parseDuration field val of Some e \<Rightarrow> Some e | None \<Rightarrow> check_durations parseDuration fds)"

definition or_else :: "'a option \<Rightarrow> 'a option \<Rightarrow> 'a option" where
  "or_else a b = (case a of None \<Rightarrow> b | Some x \<Rightarrow> Some x)"

definition Config_Check :: "(string \<Rightarrow> duration option) \<Rightarrow> (string \<Rightarrow> ip option) \<Rightarrow> Config \<Rightarrow> error option" where
  "Config_Check parseDuration parseIP c =
     (let sch = cf_Scheduler (c_AGHManaged c) in
      or_else (check_head c) (or_else (check_target parseIP (c_AGHManaged c)) (or_else (check_rest c)
        (or_else (check_durations parseDuration
           [(''agh_managed_rewrites.scheduler.default_sync_interval'', sd_DefaultSyncInterval sch),
            (''agh_managed_rewrites.scheduler.sync_timeout'', sd_SyncTimeout sch),
            (''agh_managed_rewrites.scheduler.jitter'', sd_Jitter sch),
            (''agh_managed_rewrites.scheduler.stale_source_ttl'', sd_StaleSourceTTL sch)])
          (if c_ScrubbedUA c \<noteq> [] \<and> TrimSpace (c_ScrubbedUA c) = []
           then Some (Err ''scrubbed_ua: must not be blank or whitespace-only (omit the field to use the built-in default)'')
           else None)))))"

subsection \<open>Facts\<close>

lemma or_else_None [simp]: "or_else a b = None \<longleftrightarrow> a = None \<and> b = None"
  by (auto simp: or_else_def split: option.split)

lemma first_error_None: "first_error [] = None" "first_error ((b, e) # xs) = None \<longleftrightarrow> \<not> b \<and> first_error xs = None"
  by simp_all

lemma check_head_None:
  "check_head c = None \<longleftrightarrow>
     c_Mode c \<in> {''full'', ''stub-only''} \<and> ct_KeyType (c_Cert c) \<in> {''ecdsa'', ''rsa''} \<and>
     (pr_HTTP3 (c_Protocols c) \<longrightarrow> pr_QUIC (c_Protocols c)) \<and> li_HTTPS (c_Listen c) \<noteq> [] \<and> c_Resolvers c \<noteq> [] \<and>
     lg_Mode (c_Log c) \<in> {[], ''off'', ''redacted'', ''stats'', ''debug'', ''full''} \<and>
     up_Default (c_UnknownProfile c) \<in> {[], ''safe'', ''balanced'', ''aggressive''} \<and>
     rg_Path (c_RuleCatalog c) \<noteq> [] \<and> cf_FeedPath (c_AGHManaged c) \<noteq> [] \<and>
     cf_TargetMode (c_AGHManaged c) \<in> {[], ''resolved_ip'', ''cname'', ''static_ip''}"
  unfolding check_head_def first_error_None by blast

lemma check_rest_None:
  "check_rest c = None \<longleftrightarrow>
     cf_DefaultPreset (c_AGHManaged c) \<in> {[], ''conservative'', ''balanced'', ''aggressive''} \<and>
     0 \<le> sd_LargeChangeThresholdPercent (cf_Scheduler (c_AGHManaged c)) \<and>
     0 \<le> sd_LargeChangeThresholdCount (cf_Scheduler (c_AGHManaged c)) \<and> oy_Listen (c_Observability c) \<noteq> []"
  unfolding check_rest_def first_error_None not_less by blast

lemma check_durations_None:
  "check_durations pd fds = None \<longleftrightarrow> (\<forall>(f, v)\<in>set fds. checkDuration pd f v = None)"
  by (induction pd fds rule: check_durations.induct) (auto split: option.split)

lemma check_v4s_Inr: "check_v4s p rs n = Inr k \<Longrightarrow> k = n + int (length rs) \<and> (\<forall>r\<in>set rs. \<exists>a. p r = Some (IPv4 a))"
  by (induction p rs n rule: check_v4s.induct) (auto split: option.splits ip.splits)

lemma check_v6s_Inr: "check_v6s p rs n = Inr k \<Longrightarrow> k = n + int (length rs) \<and> (\<forall>r\<in>set rs. \<exists>a. p r = Some (IPv6 a))"
  by (induction p rs n rule: check_v6s.induct) (auto split: option.splits ip.splits)

lemma checkStaticIPs_None:
  "checkStaticIPs p v4s v6s = None \<Longrightarrow>
     (v4s \<noteq> [] \<or> v6s \<noteq> []) \<and> (\<forall>r\<in>set v4s. \<exists>a. p r = Some (IPv4 a)) \<and> (\<forall>r\<in>set v6s. \<exists>a. p r = Some (IPv6 a))"
  by (auto simp: checkStaticIPs_def split: sum.splits if_splits dest!: check_v4s_Inr check_v6s_Inr)

subsection \<open>Properties\<close>

text \<open>C31: What a checked configuration gives the rest of the program: a mode it knows, at least one resolver
  (so that the resolver can be built), HTTP/3 only with QUIC, a listener for TLS and one for health,
  and a managed feed whose target is a name, or literal addresses of the right family.\<close>

theorem checked_config_is_usable:
  assumes "Config_Check pd parseIP c = None"
  shows "c_Mode c \<in> {''full'', ''stub-only''} \<and>
    (\<exists>ups. New_Resolver (c_Resolvers c) = Inr ups \<and> length ups = length (c_Resolvers c) \<and> ups \<noteq> []) \<and>
    (pr_HTTP3 (c_Protocols c) \<longrightarrow> pr_QUIC (c_Protocols c)) \<and>
    li_HTTPS (c_Listen c) \<noteq> [] \<and> oy_Listen (c_Observability c) \<noteq> [] \<and>
    (case targetMode (cf_TargetMode (c_AGHManaged c)) = ''static_ip'' of
       False \<Rightarrow> cf_TargetName (c_AGHManaged c) \<noteq> []
     | True \<Rightarrow> (cf_StaticIPv4 (c_AGHManaged c) \<noteq> [] \<or> cf_StaticIPv6 (c_AGHManaged c) \<noteq> []) \<and>
         (\<forall>r\<in>set (cf_StaticIPv4 (c_AGHManaged c)). \<exists>a. parseIP r = Some (IPv4 a)) \<and>
         (\<forall>r\<in>set (cf_StaticIPv6 (c_AGHManaged c)). \<exists>a. parseIP r = Some (IPv6 a)))"
proof -
  have head: "check_head c = None" and target: "check_target parseIP (c_AGHManaged c) = None" and rest: "check_rest c = None"
    using assms by (simp_all add: Config_Check_def Let_def)
  have modes: "targetMode (cf_TargetMode (c_AGHManaged c)) \<in> {''resolved_ip'', ''cname'', ''static_ip''}"
    using head unfolding check_head_None by (auto simp: targetMode_def)
  have "c_Mode c \<in> {''full'', ''stub-only''}" "c_Resolvers c \<noteq> []" "pr_HTTP3 (c_Protocols c) \<longrightarrow> pr_QUIC (c_Protocols c)"
    "li_HTTPS (c_Listen c) \<noteq> []"
    using head unfolding check_head_None by blast+
  moreover have "oy_Listen (c_Observability c) \<noteq> []" using rest unfolding check_rest_None by blast
  moreover have "case targetMode (cf_TargetMode (c_AGHManaged c)) = ''static_ip'' of
       False \<Rightarrow> cf_TargetName (c_AGHManaged c) \<noteq> []
     | True \<Rightarrow> (cf_StaticIPv4 (c_AGHManaged c) \<noteq> [] \<or> cf_StaticIPv6 (c_AGHManaged c) \<noteq> []) \<and>
         (\<forall>r\<in>set (cf_StaticIPv4 (c_AGHManaged c)). \<exists>a. parseIP r = Some (IPv4 a)) \<and>
         (\<forall>r\<in>set (cf_StaticIPv6 (c_AGHManaged c)). \<exists>a. parseIP r = Some (IPv6 a))"
    using target modes checkStaticIPs_None[of parseIP "cf_StaticIPv4 (c_AGHManaged c)" "cf_StaticIPv6 (c_AGHManaged c)"]
    by (auto simp: check_target_def Let_def split: if_splits bool.split)
  ultimately show ?thesis by (simp add: New_Resolver_def)
qed

definition ex_durations :: "string \<Rightarrow> duration option" where
  "ex_durations s = (if s \<in> set [''12h'', ''30s'', ''10m'', ''72h''] then Some hour_ns else None)"

lemma defaults_check: "Config_Check ex_durations (\<lambda>_. None) Defaults = None"
  by code_simp

theorem checked_config_is_usable_witness:
  "\<exists>ups. New_Resolver (c_Resolvers Defaults) = Inr ups \<and> ups \<noteq> []"
  using checked_config_is_usable[OF defaults_check] by blast

text \<open>A day count with other text before the \<^verbatim>\<open>d\<close> passes the check.\<close>

lemma checkDuration_accepts_junk: "checkDuration (\<lambda>_. None) ''f'' ''7xd'' = None \<and> ParseInt ''7x'' = Inl (Err ''invalid syntax'')"
  by code_simp

end
