(* ===== verification/Observability.thy ===== *)
theory Observability
  imports Go_Codec Interfaces
begin

text \<open>
  The recorder of \<^verbatim>\<open>internal/observability/record.go\<close>: the ring of recent records, the
  counters, the redaction of URLs and the text of the metrics; and the readiness flag and routes
  of \<^verbatim>\<open>observability.go\<close>.

  JSON is not modelled: a log line is the record it prints. The counters are unbounded integers,
  except in \<open>itoa\<close>, which is modelled on 64 bits.
\<close>

subsection \<open>Records\<close>

record LogRecord =
  lr_Time :: time
  lr_Domain :: string
  lr_Path :: string
  lr_Method :: string
  lr_Action :: string
  lr_Rule :: string
  lr_Status :: int
  lr_Bytes :: int
  lr_ContentType :: string
  lr_MediaType :: string
  lr_Rewritten :: bool
  lr_Client :: string
  lr_CatalogID :: string
  lr_CatalogSource :: string
  lr_Category :: string
  lr_Layer :: string
  lr_ResourceType :: string
  lr_Risk :: string
  lr_Confidence :: string
  lr_ReviewStatus :: string
  lr_Verified :: bool
  lr_RewriteState :: string
  lr_CNAMETarget :: string
  lr_TrackerVendor :: string
  lr_CNAMEConfidence :: string
  lr_ExpectedCatalog :: string
  lr_StubTemplate :: string
  lr_UnknownProfile :: string
  lr_FallbackReason :: string
  lr_RedactionMode :: string

definition zero_record :: LogRecord where
  "zero_record =
     \<lparr>lr_Time = 0, lr_Domain = [], lr_Path = [], lr_Method = [], lr_Action = [], lr_Rule = [], lr_Status = 0,
      lr_Bytes = 0, lr_ContentType = [], lr_MediaType = [], lr_Rewritten = False, lr_Client = [], lr_CatalogID = [],
      lr_CatalogSource = [], lr_Category = [], lr_Layer = [], lr_ResourceType = [], lr_Risk = [], lr_Confidence = [],
      lr_ReviewStatus = [], lr_Verified = False, lr_RewriteState = [], lr_CNAMETarget = [], lr_TrackerVendor = [],
      lr_CNAMEConfidence = [], lr_ExpectedCatalog = [], lr_StubTemplate = [], lr_UnknownProfile = [],
      lr_FallbackReason = [], lr_RedactionMode = []\<rparr>"

record DebugScope =
  db_Domain :: string
  db_Client :: string
  db_Expires :: time

record rec_options =
  ro_Redact :: bool
  ro_Mode :: string
  ro_DebugScopes :: "DebugScope list"
  ro_CatalogMetrics :: bool
  ro_EmitCatalogLog :: bool

type_synonym catalogMetricKey = "string \<times> string \<times> string \<times> string \<times> string"

record Recorder =
  rd_redact :: bool
  rd_mode :: string
  rd_debugScopes :: "DebugScope list"
  rd_catalogMetrics :: bool
  rd_emitCatalogLog :: bool
  rd_ring :: "LogRecord list"
  rd_next :: nat
  rd_full :: bool
  rd_byAction :: "(string, int) gomap"
  rd_byStatus :: "(int, int) gomap"
  rd_byDomain :: "(string, int) gomap"
  rd_byRule :: "(string, int) gomap"
  rd_byCatalog :: "(string, int) gomap"
  rd_byCatalogClass :: "(catalogMetricKey, int) gomap"
  rd_total :: int
  rd_bytesTotal :: int

definition ob_nonempty :: "string \<Rightarrow> string \<Rightarrow> string" where
  "ob_nonempty v fallback = (if v = [] then fallback else v)"

definition NewRecorderWithOptions :: "rec_options \<Rightarrow> int \<Rightarrow> Recorder" where
  "NewRecorderWithOptions opts ringSize =
     \<lparr>rd_redact = ro_Redact opts, rd_mode = ob_nonempty (ro_Mode opts) ''redacted'',
      rd_debugScopes = ro_DebugScopes opts, rd_catalogMetrics = ro_CatalogMetrics opts,
      rd_emitCatalogLog = ro_EmitCatalogLog opts,
      rd_ring = replicate (nat (if ringSize \<le> 0 then 1024 else ringSize)) zero_record,
      rd_next = 0, rd_full = False, rd_byAction = [], rd_byStatus = [], rd_byDomain = [], rd_byRule = [],
      rd_byCatalog = [], rd_byCatalogClass = [], rd_total = 0, rd_bytesTotal = 0\<rparr>"

definition SetRedact :: "bool \<Rightarrow> Recorder \<Rightarrow> Recorder" where
  "SetRedact v r = r\<lparr>rd_redact := v\<rparr>"

definition SetOptions :: "rec_options \<Rightarrow> Recorder \<Rightarrow> Recorder" where
  "SetOptions opts r =
     r\<lparr>rd_redact := ro_Redact opts, rd_mode := (if ro_Mode opts = [] then ''redacted'' else ro_Mode opts),
       rd_debugScopes := ro_DebugScopes opts, rd_catalogMetrics := ro_CatalogMetrics opts,
       rd_emitCatalogLog := ro_EmitCatalogLog opts\<rparr>"

subsection \<open>Redaction\<close>

definition RedactURL :: "string \<Rightarrow> string" where
  "RedactURL raw =
     (if CHR ''?'' \<notin> set raw then raw
      else
        (let path = cut_before CHR ''?'' raw; query = cut_after CHR ''?'' raw in
         if query_err query then path @ ''?REDACTED''
         else path @ ''?'' @ Join (map (\<lambda>k. k @ ''=REDACTED'') (sort (map fst (ParseQuery query)))) ''&''))"

definition scope_matches :: "time \<Rightarrow> LogRecord \<Rightarrow> DebugScope \<Rightarrow> bool" where
  "scope_matches now rec s \<longleftrightarrow>
     \<not> (\<not> IsZero (db_Expires s) \<and> db_Expires s < now) \<and>
     \<not> (db_Domain s \<noteq> [] \<and> lr_Domain rec \<noteq> db_Domain s \<and> \<not> HasSuffix (lr_Domain rec) (''.'' @ db_Domain s)) \<and>
     \<not> (db_Client s \<noteq> [] \<and> db_Client s \<noteq> lr_Client rec)"

definition debugMatch :: "time \<Rightarrow> Recorder \<Rightarrow> LogRecord \<Rightarrow> bool" where
  "debugMatch now r rec \<longleftrightarrow> list_ex (scope_matches now rec) (rd_debugScopes r)"

definition applyPolicyLocked :: "time \<Rightarrow> Recorder \<Rightarrow> LogRecord \<Rightarrow> LogRecord" where
  "applyPolicyLocked now r rec0 =
     (let rec = rec0\<lparr>lr_RedactionMode := rd_mode r\<rparr> in
      if rd_mode r = ''off'' then rec\<lparr>lr_Path := []\<rparr>
      else if rd_mode r = ''stats'' then rec\<lparr>lr_Path := [], lr_Method := []\<rparr>
      else if rd_mode r = ''full'' then rec
      else if rd_mode r = ''debug'' then
        (if debugMatch now r rec then rec else rec\<lparr>lr_Path := RedactURL (lr_Path rec)\<rparr>)
      else if rd_redact r then rec\<lparr>lr_Path := RedactURL (lr_Path rec)\<rparr> else rec)"

definition hasCatalogClass :: "LogRecord \<Rightarrow> bool" where
  "hasCatalogClass rec \<longleftrightarrow> lr_Category rec \<noteq> [] \<or> lr_Risk rec \<noteq> [] \<or> lr_ReviewStatus rec \<noteq> [] \<or> lr_CatalogSource rec \<noteq> []"

definition clearCatalogFields :: "LogRecord \<Rightarrow> LogRecord" where
  "clearCatalogFields rec =
     rec\<lparr>lr_CatalogID := [], lr_CatalogSource := [], lr_Category := [], lr_Layer := [], lr_ResourceType := [],
       lr_Risk := [], lr_Confidence := [], lr_ReviewStatus := [], lr_Verified := False, lr_RewriteState := [],
       lr_CNAMETarget := [], lr_TrackerVendor := [], lr_CNAMEConfidence := [], lr_ExpectedCatalog := [],
       lr_StubTemplate := []\<rparr>"

subsection \<open>Recording\<close>

definition bump :: "'k \<Rightarrow> ('k, int) gomap \<Rightarrow> ('k, int) gomap" where
  "bump k m = put k (get_or 0 m k + 1) m"

definition class_key :: "LogRecord \<Rightarrow> catalogMetricKey" where
  "class_key rec =
     (ob_nonempty (lr_Category rec) ''unknown'', ob_nonempty (lr_Risk rec) ''unknown'', show_bool (lr_Verified rec),
      ob_nonempty (lr_ReviewStatus rec) ''unknown'', ob_nonempty (lr_CatalogSource rec) ''unknown'')"

definition store_record :: "time \<Rightarrow> LogRecord \<Rightarrow> Recorder \<Rightarrow> Recorder" where
  "store_record now rec r =
     (let next' = (rd_next r + 1) mod length (rd_ring r) in
      r\<lparr>rd_ring := (rd_ring r)[rd_next r := applyPolicyLocked now r rec],
        rd_next := next',
        rd_full := (if next' = 0 then True else rd_full r),
        rd_byAction := bump (lr_Action rec) (rd_byAction r),
        rd_byStatus := bump (lr_Status rec) (rd_byStatus r),
        rd_byDomain := (if lr_Domain rec \<noteq> [] then bump (lr_Domain rec) (rd_byDomain r) else rd_byDomain r),
        rd_byRule := (if lr_Rule rec \<noteq> [] then bump (lr_Rule rec) (rd_byRule r) else rd_byRule r),
        rd_byCatalog := (if lr_CatalogID rec \<noteq> [] then bump (lr_CatalogID rec) (rd_byCatalog r) else rd_byCatalog r),
        rd_byCatalogClass := (if rd_catalogMetrics r \<and> hasCatalogClass rec
          then bump (class_key rec) (rd_byCatalogClass r) else rd_byCatalogClass r),
        rd_total := rd_total r + 1,
        rd_bytesTotal := rd_bytesTotal r + lr_Bytes rec\<rparr>)"

definition logged_line :: "time \<Rightarrow> LogRecord \<Rightarrow> Recorder \<Rightarrow> LogRecord option" where
  "logged_line now rec r =
     (if rd_mode r = ''off'' then None
      else
        (let l0 = applyPolicyLocked now r rec;
             l1 = (if \<not> rd_emitCatalogLog r then clearCatalogFields l0 else l0)
         in Some (if rd_redact r \<and> (rd_mode r = [] \<or> rd_mode r = ''redacted'')
                  then l1\<lparr>lr_Path := RedactURL (lr_Path l1)\<rparr> else l1)))"

definition Recorder_Log :: "time \<Rightarrow> LogRecord \<Rightarrow> Recorder \<Rightarrow> LogRecord option \<times> Recorder" where
  "Recorder_Log now rec r = (logged_line now rec r, store_record now rec r)"

subsection \<open>Reading back\<close>

definition buffered :: "Recorder \<Rightarrow> LogRecord list" where
  "buffered r =
     (if rd_full r then drop (rd_next r) (rd_ring r) @ take (rd_next r) (rd_ring r)
      else take (rd_next r) (rd_ring r))"

definition reapply :: "time \<Rightarrow> Recorder \<Rightarrow> LogRecord list \<Rightarrow> LogRecord list" where
  "reapply now r xs =
     (if rd_redact r \<or> rd_mode r = ''stats'' \<or> rd_mode r = ''off'' then map (applyPolicyLocked now r) xs else xs)"

definition SnapshotSince :: "time \<Rightarrow> int \<Rightarrow> Recorder \<Rightarrow> LogRecord list \<times> int" where
  "SnapshotSince now sinceSeq r =
     (let seq = rd_total r; newCount = seq - sinceSeq in
      if newCount \<le> 0 then ([], seq)
      else
        (let b = buffered r;
             b' = (if newCount < int (length b) then drop (length b - nat newCount) b else b)
         in (reapply now r b', seq)))"

definition Seq :: "Recorder \<Rightarrow> int" where
  "Seq r = rd_total r"

definition Snapshot :: "time \<Rightarrow> int \<Rightarrow> Recorder \<Rightarrow> LogRecord list" where
  "Snapshot now n r =
     (let out = reapply now r (buffered r) in
      if 0 < n \<and> n < int (length out) then drop (length out - nat n) out else out)"

subsection \<open>Metrics\<close>

definition statusClass :: "int \<Rightarrow> string" where
  "statusClass code =
     (if 200 \<le> code \<and> code < 300 then ''2xx'' else if 300 \<le> code \<and> code < 400 then ''3xx''
      else if 400 \<le> code \<and> code < 500 then ''4xx'' else if 500 \<le> code then ''5xx'' else ''other'')"

fun itoa_digits :: "nat \<Rightarrow> string \<Rightarrow> string" where
  "itoa_digits n buf = (if 0 < n then itoa_digits (n div 10) (digit_char (n mod 10) # buf) else buf)"

declare itoa_digits.simps [simp del]

definition itoa :: "int \<Rightarrow> string" where
  "itoa n0 =
     (if n0 = 0 then ''0''
      else
        (let neg = n0 < 0; n = (if neg then wrap64 (- n0) else n0); buf = itoa_digits (nat n) [] in
         if neg then CHR ''-'' # buf else buf))"

definition replace_char :: "char \<Rightarrow> string \<Rightarrow> string \<Rightarrow> string" where
  "replace_char c t s = concat (map (\<lambda>x. if x = c then t else [x]) s)"

definition prom :: "string \<Rightarrow> string" where
  "prom v = replace_char (CHR 0x22) [CHR 0x5C, CHR 0x22] (replace_char (CHR 0x5C) [CHR 0x5C, CHR 0x5C] v)"

definition dquoted :: "string \<Rightarrow> string" where
  "dquoted s = [CHR 0x22] @ s @ [CHR 0x22]"

definition nl :: string where "nl = [CHR 0x0A]"

definition status_classes :: "(int, int) gomap \<Rightarrow> (string, int) gomap" where
  "status_classes m = foldl (\<lambda>c (code, n). put (statusClass code) (get_or 0 c (statusClass code) + n) c) [] m"

definition class_line :: "catalogMetricKey \<times> int \<Rightarrow> string" where
  "class_line kn =
     (case kn of ((cat, risk, ver, rvw, src), n) \<Rightarrow>
        ''mirage_chaff_catalog_requests_total{category='' @ dquoted (prom cat) @ '',risk='' @ dquoted (prom risk) @
        '',verified='' @ dquoted (prom ver) @ '',review_status='' @ dquoted (prom rvw) @
        '',source_type='' @ dquoted (prom src) @ ''}'' @ '' '' @ itoa n @ nl)"

definition class_sort :: "(catalogMetricKey, int) gomap \<Rightarrow> (catalogMetricKey \<times> int) list" where
  "class_sort m = sort_key (\<lambda>((cat, risk, ver, rvw, src), n). cat @ risk @ rvw) m"

definition WriteMetrics :: "Recorder \<Rightarrow> string" where
  "WriteMetrics r =
     ''# HELP mirage_chaff_requests_total Requests handled, by action.'' @ nl @
     ''# TYPE mirage_chaff_requests_total counter'' @ nl @
     concat (map (\<lambda>a. ''mirage_chaff_requests_total{action='' @ dquoted a @ ''} '' @ itoa (get_or 0 (rd_byAction r) a) @ nl)
       (sort (map fst (rd_byAction r)))) @
     ''# HELP mirage_chaff_responses_total Responses by HTTP status class.'' @ nl @
     ''# TYPE mirage_chaff_responses_total counter'' @ nl @
     (let classes = status_classes (rd_byStatus r) in
      concat (map (\<lambda>c. if 0 < get_or 0 classes c
          then ''mirage_chaff_responses_total{class='' @ dquoted c @ ''} '' @ itoa (get_or 0 classes c) @ nl else [])
        [''2xx'', ''3xx'', ''4xx'', ''5xx'', ''other''])) @
     ''# HELP mirage_chaff_response_bytes_total Total response bytes served.'' @ nl @
     ''# TYPE mirage_chaff_response_bytes_total counter'' @ nl @
     ''mirage_chaff_response_bytes_total '' @ itoa (rd_bytesTotal r) @ nl @
     (if rd_catalogMetrics r
      then ''# HELP mirage_chaff_catalog_requests_total Requests by low-cardinality catalog classification.'' @ nl @
           ''# TYPE mirage_chaff_catalog_requests_total counter'' @ nl @
           concat (map class_line (class_sort (rd_byCatalogClass r)))
      else [])"

definition topStringMap :: "(string, int) gomap \<Rightarrow> int \<Rightarrow> (string \<times> int) list" where
  "topStringMap m n =
     (let out = sort_key (\<lambda>(k, c). (- c, k)) m in if 0 < n \<and> n < int (length out) then take (nat n) out else out)"

record rec_analytics =
  ra_total :: int
  ra_bytes :: int
  ra_log_mode :: string
  ra_by_action :: "(string, int) gomap"
  ra_top_domains :: "(string \<times> int) list"
  ra_top_rules :: "(string \<times> int) list"
  ra_top_catalog :: "(string \<times> int) list"

definition Recorder_Analytics :: "Recorder \<Rightarrow> rec_analytics" where
  "Recorder_Analytics r =
     \<lparr>ra_total = rd_total r, ra_bytes = rd_bytesTotal r, ra_log_mode = rd_mode r, ra_by_action = rd_byAction r,
      ra_top_domains = topStringMap (rd_byDomain r) 50, ra_top_rules = topStringMap (rd_byRule r) 50,
      ra_top_catalog = topStringMap (rd_byCatalog r) 50\<rparr>"

subsection \<open>Facts about redaction\<close>

lemma query_cut: "CHR ''?'' \<notin> set p \<Longrightarrow> cut_before CHR ''?'' (p @ CHR ''?'' # q) = p"
  "CHR ''?'' \<notin> set p \<Longrightarrow> cut_after CHR ''?'' (p @ CHR ''?'' # q) = q"
  by (induction p) (auto simp: cut_before_def cut_after_def)

lemma RedactURL_query:
  "CHR ''?'' \<notin> set p \<Longrightarrow> RedactURL (p @ CHR ''?'' # q) =
     p @ (if query_err q then ''?REDACTED''
          else ''?'' @ Join (map (\<lambda>k. k @ ''=REDACTED'') (sort (map fst (ParseQuery q)))) ''&'')"
  by (simp add: RedactURL_def query_cut)

lemma sorted_keys_eq:
  fixes m m' :: "('k :: linorder, 'v) gomap"
  assumes "wf_map m" "wf_map m'" "fst ` set m = fst ` set m'"
  shows "sort (map fst m) = sort (map fst m')"
proof -
  have "sort (map fst m) = sorted_list_of_set (set (map fst m))"
    using assms(1) unfolding wf_map_def by (metis sorted_list_of_set_sort_remdups distinct_remdups_id)
  moreover have "sort (map fst m') = sorted_list_of_set (set (map fst m'))"
    using assms(2) unfolding wf_map_def by (metis sorted_list_of_set_sort_remdups distinct_remdups_id)
  moreover have "set (map fst m) = set (map fst m')" using assms(3) by simp
  ultimately show ?thesis by (simp only:)
qed

lemma RedactURL_values_hidden:
  assumes "CHR ''?'' \<notin> set p" "query_err q \<longleftrightarrow> query_err q'" "fst ` set (ParseQuery q) = fst ` set (ParseQuery q')"
  shows "RedactURL (p @ CHR ''?'' # q) = RedactURL (p @ CHR ''?'' # q')"
  using assms sorted_keys_eq[OF wf_ParseQuery wf_ParseQuery assms(3)] by (simp add: RedactURL_query)

definition redacting :: "Recorder \<Rightarrow> bool" where
  "redacting r \<longleftrightarrow> rd_redact r \<and> rd_mode r \<noteq> ''full'' \<and> rd_mode r \<noteq> ''debug''"

lemma applyPolicy_path:
  assumes "redacting r"
  shows "lr_Path (applyPolicyLocked now r rec) \<in> {[], RedactURL (lr_Path rec)}"
  using assms by (auto simp: applyPolicyLocked_def redacting_def Let_def)

lemma class_of_path:
  "hasCatalogClass (rec\<lparr>lr_Path := x\<rparr>) = hasCatalogClass rec" "class_key (rec\<lparr>lr_Path := x\<rparr>) = class_key rec"
  by (simp_all add: hasCatalogClass_def class_key_def)

lemma applyPolicy_cong:
  assumes "redacting r" "RedactURL p = RedactURL p'"
  shows "applyPolicyLocked now r (rec\<lparr>lr_Path := p\<rparr>) = applyPolicyLocked now r (rec\<lparr>lr_Path := p'\<rparr>)"
  using assms by (auto simp: applyPolicyLocked_def redacting_def Let_def)

subsection \<open>Facts about the ring\<close>

text \<open>
  The abstraction of the ring: the stored records, oldest first. Storing one is appending it and
  dropping the oldest beyond the capacity.
\<close>

definition ring_ok :: "Recorder \<Rightarrow> bool" where
  "ring_ok r \<longleftrightarrow> rd_next r < length (rd_ring r)"

lemma New_ring: "ring_ok (NewRecorderWithOptions opts n)" "buffered (NewRecorderWithOptions opts n) = []"
  by (auto simp: ring_ok_def buffered_def NewRecorderWithOptions_def)

lemma take_update_last: "n < length xs \<Longrightarrow> take (Suc n) (xs[n := x]) = take n xs @ [x]"
  by (simp add: take_Suc_conv_app_nth)

lemma buffered_store:
  assumes "ring_ok r"
  shows "buffered (store_record now rec r) = keep_last (length (rd_ring r)) (buffered r @ [applyPolicyLocked now r rec])"
proof -
  let ?n = "rd_next r" and ?ring = "rd_ring r" and ?x = "applyPolicyLocked now r rec"
  have n: "?n < length ?ring" using assms by (simp add: ring_ok_def)
  have cons: "drop ?n ?ring = ?ring ! ?n # drop (Suc ?n) ?ring" using n by (rule Cons_nth_drop_Suc[symmetric])
  show ?thesis
  proof (cases "Suc ?n < length ?ring")
    case True
    then have next': "(?n + 1) mod length ?ring = Suc ?n" by simp
    show ?thesis
    proof (cases "rd_full r")
      case True
      have "buffered (store_record now rec r) = drop (Suc ?n) ?ring @ take ?n ?ring @ [?x]"
        using True n next' by (simp add: buffered_def store_record_def Let_def take_update_last del: take_Suc)
      moreover have "keep_last (length ?ring) (buffered r @ [?x]) = drop (Suc ?n) ?ring @ take ?n ?ring @ [?x]"
      proof -
        obtain m where m: "length ?ring = Suc m" using n by (cases "length ?ring") auto
        have "length (buffered r) = Suc m" using True n m by (simp add: buffered_def)
        then have "keep_last (length ?ring) (buffered r @ [?x]) = drop 1 (buffered r @ [?x])"
          using m by (simp add: keep_last_drop)
        with True cons show ?thesis by (simp add: buffered_def)
      qed
      ultimately show ?thesis by simp
    next
      case False
      with n next' show ?thesis
        by (simp add: buffered_def store_record_def Let_def take_update_last keep_last_def del: take_Suc)
    qed
  next
    case False
    with n have last: "Suc ?n = length ?ring" by simp
    then have next': "(?n + 1) mod length ?ring = 0" by simp
    have new: "buffered (store_record now rec r) = take ?n ?ring @ [?x]"
      using n last next' take_update_last[OF n, of ?x] by (simp add: buffered_def store_record_def Let_def)
    have "drop (Suc ?n) ?ring = []" using last by simp
    with n last cons new show ?thesis by (auto simp: buffered_def keep_last_drop)
  qed
qed

lemma ring_ok_store: "ring_ok r \<Longrightarrow> ring_ok (store_record now rec r)"
  unfolding ring_ok_def store_record_def Let_def by simp (metis gr_implies_not0 mod_less_divisor neq0_conv)

lemma store_simps [simp]:
  "length (rd_ring (store_record now rec r)) = length (rd_ring r)" "rd_total (store_record now rec r) = rd_total r + 1"
  "rd_redact (store_record now rec r) = rd_redact r" "rd_mode (store_record now rec r) = rd_mode r"
  "rd_debugScopes (store_record now rec r) = rd_debugScopes r"
  by (simp_all add: store_record_def Let_def)

lemma policy_store [simp]: "applyPolicyLocked now (store_record t rec r) = applyPolicyLocked now r"
  by (auto simp: applyPolicyLocked_def debugMatch_def Let_def fun_eq_iff)

lemma run_store:
  assumes "ring_ok r" "length (buffered r) \<le> length (rd_ring r)"
  shows "ring_ok (fold (\<lambda>(t, rec). store_record t rec) recs r) \<and>
    buffered (fold (\<lambda>(t, rec). store_record t rec) recs r) =
      keep_last (length (rd_ring r)) (buffered r @ map (\<lambda>(t, rec). applyPolicyLocked t r rec) recs) \<and>
    rd_total (fold (\<lambda>(t, rec). store_record t rec) recs r) = rd_total r + int (length recs) \<and>
    length (rd_ring (fold (\<lambda>(t, rec). store_record t rec) recs r)) = length (rd_ring r) \<and>
    reapply now (fold (\<lambda>(t, rec). store_record t rec) recs r) = reapply now r"
  using assms
proof (induction recs arbitrary: r)
  case Nil
  then show ?case by (simp add: keep_last_def)
next
  case (Cons tr recs)
  obtain t rec where [simp]: "tr = (t, rec)" by (cases tr)
  let ?r = "store_record t rec r"
  have "ring_ok ?r" "length (buffered ?r) \<le> length (rd_ring ?r)"
    using Cons.prems by (simp_all add: ring_ok_store buffered_store)
  from Cons.IH[OF this] show ?case
    using Cons.prems by (simp add: buffered_store keep_last_append) (auto simp: reapply_def fun_eq_iff)
qed

lemma newest_of_kept:
  assumes "length ys = k"
  shows "drop (length (keep_last m (xs @ ys)) - k) (keep_last m (xs @ ys)) = keep_last m ys"
proof -
  consider "length xs + k \<le> m" | "k \<le> m" "m < length xs + k" | "m < k" by linarith
  then show ?thesis
    using assms by cases (simp_all add: length_keep_last keep_last_drop)
qed

lemma buffered_bound: "ring_ok r \<Longrightarrow> length (buffered r) \<le> length (rd_ring r)"
  by (simp add: buffered_def ring_ok_def)

subsection \<open>Properties\<close>

text \<open>C12: The ring refines an unbounded log: after any sequence of records it holds exactly the newest of
  them, in order, up to its size, and the total counts every one.\<close>

theorem recorder_refines_log:
  assumes "0 < size_r"
  shows "let r0 = NewRecorderWithOptions opts size_r; r = fold (\<lambda>(t, rec). store_record t rec) recs r0 in
    buffered r = keep_last (nat size_r) (map (\<lambda>(t, rec). applyPolicyLocked t r0 rec) recs) \<and>
    rd_total r = int (length recs) \<and> length (rd_ring r) = nat size_r"
proof -
  let ?r = "NewRecorderWithOptions opts size_r"
  have "length (rd_ring ?r) = nat size_r" "rd_total ?r = 0" using assms by (simp_all add: NewRecorderWithOptions_def)
  with run_store[of ?r recs, OF New_ring(1) buffered_bound[OF New_ring(1)]] show ?thesis
    by (simp add: New_ring(2) Let_def)
qed

definition ex_opts :: rec_options where
  "ex_opts = \<lparr>ro_Redact = True, ro_Mode = [], ro_DebugScopes = [], ro_CatalogMetrics = False, ro_EmitCatalogLog = False\<rparr>"

theorem recorder_refines_log_witness:
  "map lr_Status (buffered (fold (\<lambda>(t, rec). store_record t rec)
     [(1, zero_record\<lparr>lr_Status := 1\<rparr>), (2, zero_record\<lparr>lr_Status := 2\<rparr>), (3, zero_record\<lparr>lr_Status := 3\<rparr>)]
     (NewRecorderWithOptions ex_opts 2))) = [2, 3]"
  using recorder_refines_log[of 2 ex_opts "[(1, zero_record\<lparr>lr_Status := 1\<rparr>), (2, zero_record\<lparr>lr_Status := 2\<rparr>), (3, zero_record\<lparr>lr_Status := 3\<rparr>)]"]
  by (simp add: Let_def keep_last_def applyPolicyLocked_def NewRecorderWithOptions_def ob_nonempty_def ex_opts_def)

text \<open>C40: A live stream misses nothing and repeats nothing: a reader that comes back with the sequence
  number it was given, before more records than the ring holds have passed, gets exactly the
  records logged since, in order; one that comes back late gets the newest ones.\<close>

theorem stream_delivers_exactly_once:
  assumes "ring_ok r" "snd (SnapshotSince now0 since r) = seq"
  shows "let r' = fold (\<lambda>(t, rec). store_record t rec) recs r in
    SnapshotSince now seq r' =
      (reapply now r (keep_last (length (rd_ring r)) (map (\<lambda>(t, rec). applyPolicyLocked t r rec) recs)),
       seq + int (length recs))"
proof -
  let ?xs = "map (\<lambda>(t, rec). applyPolicyLocked t r rec) recs"
  have seq: "seq = rd_total r" using assms(2) by (auto simp: SnapshotSince_def Let_def split: if_splits)
  note run = run_store[of r recs, OF assms(1) buffered_bound[OF assms(1)]]
  have nil: "reapply t r [] = []" for t by (simp add: reapply_def)
  define m where "m = length (rd_ring r)"
  define b where "b = keep_last m (buffered r @ ?xs)"
  have part: "(if int (length recs) < int (length b) then drop (length b - length recs) b else b) = keep_last m ?xs"
    using newest_of_kept[of ?xs "length recs" m "buffered r"] by (auto simp: b_def)
  show ?thesis
  proof (cases "recs = []")
    case True
    then show ?thesis by (simp add: seq SnapshotSince_def Let_def nil keep_last_def)
  next
    case False
    let ?r' = "fold (\<lambda>(t, rec). store_record t rec) recs r"
    have r': "buffered ?r' = b" "rd_total ?r' = seq + int (length recs)" "reapply now ?r' = reapply now r"
      using run by (simp_all add: seq m_def b_def)
    have n: "\<not> seq + int (length recs) - seq \<le> 0" "seq + int (length recs) - seq = int (length recs)" using False by simp_all
    show ?thesis
      unfolding SnapshotSince_def Let_def r' using n part by (simp add: m_def split: if_splits)
  qed
qed

theorem stream_delivers_exactly_once_witness:
  "fst (SnapshotSince 9 0 (fold (\<lambda>(t, rec). store_record t rec) [(1, zero_record), (2, zero_record)] (NewRecorderWithOptions ex_opts 4))) =
     reapply 9 (NewRecorderWithOptions ex_opts 4)
       [applyPolicyLocked 1 (NewRecorderWithOptions ex_opts 4) zero_record,
        applyPolicyLocked 2 (NewRecorderWithOptions ex_opts 4) zero_record]"
proof -
  have "snd (SnapshotSince 1 0 (NewRecorderWithOptions ex_opts 4)) = 0"
    by (simp add: SnapshotSince_def NewRecorderWithOptions_def Let_def)
  moreover have "length (rd_ring (NewRecorderWithOptions ex_opts 4)) = 4" by (simp add: NewRecorderWithOptions_def)
  ultimately show ?thesis
    using stream_delivers_exactly_once[OF New_ring(1), of 1 0 ex_opts 4 0 "[(1, zero_record), (2, zero_record)]" 9]
    by (simp add: Let_def keep_last_def)
qed

text \<open>No query value leaks: unless full detail or debugging was asked for, two requests that differ only
  in the values of their query parameters leave the same record in the ring and the same line in
  the log.\<close>

theorem redaction_hides_values:
  assumes "redacting r" "CHR ''?'' \<notin> set p"
    and "query_err q \<longleftrightarrow> query_err q'" "fst ` set (ParseQuery q) = fst ` set (ParseQuery q')"
  shows "Recorder_Log now (rec\<lparr>lr_Path := p @ CHR ''?'' # q\<rparr>) r = Recorder_Log now (rec\<lparr>lr_Path := p @ CHR ''?'' # q'\<rparr>) r"
proof -
  have eq: "applyPolicyLocked now r (rec\<lparr>lr_Path := p @ CHR ''?'' # q\<rparr>) = applyPolicyLocked now r (rec\<lparr>lr_Path := p @ CHR ''?'' # q'\<rparr>)"
    by (rule applyPolicy_cong[OF assms(1) RedactURL_values_hidden[OF assms(2-4)]])
  show ?thesis
    unfolding Recorder_Log_def logged_line_def store_record_def Let_def eq
    by (simp add: class_of_path)
qed

theorem redaction_hides_values_witness:
  "Recorder_Log 5 (zero_record\<lparr>lr_Path := ''/p?uid=1''\<rparr>) (NewRecorderWithOptions ex_opts 2) =
   Recorder_Log 5 (zero_record\<lparr>lr_Path := ''/p?uid=2''\<rparr>) (NewRecorderWithOptions ex_opts 2)"
proof -
  have "redacting (NewRecorderWithOptions ex_opts 2)" by code_simp
  moreover have "query_err ''uid=1'' = query_err ''uid=2''" by code_simp
  moreover have "map fst (ParseQuery ''uid=1'') = map fst (ParseQuery ''uid=2'')" by code_simp
  then have "fst ` set (ParseQuery ''uid=1'') = fst ` set (ParseQuery ''uid=2'')" by (metis set_map)
  ultimately show ?thesis
    using redaction_hides_values[of "NewRecorderWithOptions ex_opts 2" "''/p''" "''uid=1''" "''uid=2''" 5 zero_record] by simp
qed

lemma itoa_digits_show: "0 < n \<Longrightarrow> itoa_digits n buf = show_nat n @ buf"
proof (induction n buf rule: itoa_digits.induct)
  case (1 n buf)
  show ?case
  proof (cases "n < 10")
    case True
    with 1(2) show ?thesis by (simp add: itoa_digits.simps[of n] itoa_digits.simps[of 0] show_nat.simps[of n])
  next
    case False
    then have "0 < n div 10" by simp
    from 1(1)[OF 1(2) this] False 1(2) show ?thesis by (simp add: itoa_digits.simps[of n] show_nat.simps[of n])
  qed
qed

lemma digit_zero: "digit_char 0 = CHR ''0''"
  by code_simp

text \<open>The hand-written printing of counters is decimal: it agrees with the reference for every 64-bit
  integer but the smallest.\<close>

theorem itoa_is_decimal:
  assumes "is_int64 n" "n \<noteq> - (2 ^ 63)"
  shows "itoa n = show_int n"
proof -
  have "is_int64 (- n)" using assms by (simp add: is_int64_def)
  then have "wrap64 (- n) = - n" by (rule wrap64_id)
  then show ?thesis by (auto simp: itoa_def show_int_def itoa_digits_show show_nat.simps[of 0] digit_zero Let_def)
qed

theorem itoa_is_decimal_witness: "itoa (-120) = show_int (-120)"
  using itoa_is_decimal[of "-120"] by (simp add: is_int64_def)

lemma itoa_smallest: "itoa (- (2 ^ 63)) = ''-''"
  by (simp add: itoa_def wrap64_def itoa_digits.simps Let_def)

text \<open>A key is printed decoded: redacting twice can invent parameters.\<close>

lemma redaction_not_idempotent:
  "RedactURL ''/p?a%26b=1'' = ''/p?a&b=REDACTED'' \<and> RedactURL ''/p?a&b=REDACTED'' = ''/p?a=REDACTED&b=REDACTED''"
  by code_simp

end
