(* ===== verification/Go_Http.thy ===== *)
theory Go_Http
  imports Go_Codec
begin

text \<open>
  What the handlers use of package \<^verbatim>\<open>net/http\<close>: headers under their canonical names, the
  response as it has been written so far (status, headers, body), and the request as the
  intercepting handlers read it: the method, the authority, the server name of the TLS session,
  the path, the raw query, \<^verbatim>\<open>URL.RequestURI\<close>, \<^verbatim>\<open>URL.String\<close> and the headers.
\<close>

subsection \<open>Headers\<close>

type_synonym headers = "(string, string list) gomap"

definition token_char :: "char \<Rightarrow> bool" where
  "token_char c \<longleftrightarrow>
     (let n = (of_char c :: nat) in 48 \<le> n \<and> n \<le> 57 \<or> 65 \<le> n \<and> n \<le> 90 \<or> 97 \<le> n \<and> n \<le> 122) \<or>
     c \<in> set ''!#$%&*+-.^_|~'' \<or> c = CHR 0x27 \<or> c = CHR 0x60"

fun canon_acc :: "bool \<Rightarrow> string \<Rightarrow> string" where
  "canon_acc up [] = []"
| "canon_acc up (c # s) = (if up then upper_char c else lower_char c) # canon_acc (c = CHR ''-'') s"

definition CanonicalHeaderKey :: "string \<Rightarrow> string" where
  "CanonicalHeaderKey k = (if list_all token_char k then canon_acc True k else k)"

definition header_set :: "string \<Rightarrow> string \<Rightarrow> headers \<Rightarrow> headers" where
  "header_set k v h = put (CanonicalHeaderKey k) [v] h"

definition header_get :: "string \<Rightarrow> headers \<Rightarrow> string" where
  "header_get k h = (case get_or [] h (CanonicalHeaderKey k) of [] \<Rightarrow> [] | v # _ \<Rightarrow> v)"

definition header_del :: "string \<Rightarrow> headers \<Rightarrow> headers" where
  "header_del k h = del (CanonicalHeaderKey k) h"

definition header_add :: "string \<Rightarrow> string \<Rightarrow> headers \<Rightarrow> headers" where
  "header_add k v h = put (CanonicalHeaderKey k) (get_or [] h (CanonicalHeaderKey k) @ [v]) h"

record http_response =
  hr_Status :: int
  hr_Headers :: headers
  hr_Body :: string
  hr_Wrote :: bool

definition blank_response :: http_response where
  "blank_response = \<lparr>hr_Status = 200, hr_Headers = [], hr_Body = [], hr_Wrote = False\<rparr>"

text \<open>Only the first status written counts; headers set after it do not.\<close>

definition set_header :: "string \<Rightarrow> string \<Rightarrow> http_response \<Rightarrow> http_response" where
  "set_header k v w = (if hr_Wrote w then w else w\<lparr>hr_Headers := header_set k v (hr_Headers w)\<rparr>)"

definition write_header :: "int \<Rightarrow> http_response \<Rightarrow> http_response" where
  "write_header code w = (if hr_Wrote w then w else w\<lparr>hr_Status := code, hr_Wrote := True\<rparr>)"

definition write_body :: "string \<Rightarrow> http_response \<Rightarrow> http_response" where
  "write_body b w = w\<lparr>hr_Wrote := True, hr_Body := hr_Body w @ b\<rparr>"

subsection \<open>Requests\<close>

record intercept_request =
  ir_Method :: string
  ir_Host :: string
  ir_ServerName :: "string option"
  ir_Path :: string
  ir_RawQuery :: string
  ir_URI :: string
  ir_URL :: string
  ir_Headers :: headers

subsection \<open>Facts about headers\<close>

lemma get_set_header [simp]:
  "header_get k (header_set k' v h) = (if CanonicalHeaderKey k = CanonicalHeaderKey k' then v else header_get k h)"
  by (simp add: header_get_def header_set_def)

lemma get_del_header [simp]:
  "header_get k (header_del k' h) = (if CanonicalHeaderKey k = CanonicalHeaderKey k' then [] else header_get k h)"
  by (simp add: header_get_def header_del_def)

lemma header_keys:
  "fst ` set (header_del k h) = fst ` set h - {CanonicalHeaderKey k}"
  "fst ` set (header_set k v h) = insert (CanonicalHeaderKey k) (fst ` set h)"
  by (simp_all add: header_del_def header_set_def dom_update set_eq_iff map_keys_iff)

lemma wf_headers:
  "wf_map h \<Longrightarrow> wf_map (header_del k h)" "wf_map h \<Longrightarrow> wf_map (header_set k v h)"
  "wf_map h \<Longrightarrow> wf_map (header_add k v h)"
  by (simp_all add: header_del_def header_set_def header_add_def)

lemma set_header_simps [simp]:
  "hr_Wrote (set_header k v w) = hr_Wrote w" "hr_Status (set_header k v w) = hr_Status w"
  "hr_Body (set_header k v w) = hr_Body w"
  "\<not> hr_Wrote w \<Longrightarrow> hr_Headers (set_header k v w) = header_set k v (hr_Headers w)"
  by (simp_all add: set_header_def)

lemma write_header_simps [simp]:
  "hr_Headers (write_header c w) = hr_Headers w" "hr_Body (write_header c w) = hr_Body w"
  "hr_Wrote (write_header c w)"
  "\<not> hr_Wrote w \<Longrightarrow> hr_Status (write_header c w) = c"
  by (simp_all add: write_header_def)

lemma set_all_headers:
  "hr_Wrote (foldl (\<lambda>w (k, v). set_header k v w) w hs) = hr_Wrote w"
  "hr_Status (foldl (\<lambda>w (k, v). set_header k v w) w hs) = hr_Status w"
  "hr_Body (foldl (\<lambda>w (k, v). set_header k v w) w hs) = hr_Body w"
  by (induction hs arbitrary: w) (auto split: prod.split)

lemma set_all_headers_get:
  "\<not> hr_Wrote w \<Longrightarrow> CanonicalHeaderKey k \<notin> CanonicalHeaderKey ` fst ` set hs \<Longrightarrow>
     header_get k (hr_Headers (foldl (\<lambda>w (k, v). set_header k v w) w hs)) = header_get k (hr_Headers w)"
  by (induction hs arbitrary: w) (auto split: prod.splits)

end
