(* ===== verification/StubCatalog.thy ===== *)
theory StubCatalog
  imports Go_Http
begin

text \<open>
  Decoy responses: the catalog of \<^verbatim>\<open>internal/catalog/catalog.go\<close> and the stub action of
  \<^verbatim>\<open>internal/stub/stub.go\<close>.

  The YAML decoder and the file reads are arguments. What the code uses of the standard library
  is modelled: the multipart writer with its check of the boundary, and \<^verbatim>\<open>filepath.Clean\<close>
  and \<^verbatim>\<open>filepath.Join\<close>. The map of definitions is visited in list order.
\<close>

subsection \<open>Paths\<close>

fun path_comps :: "string \<Rightarrow> string \<Rightarrow> string list" where
  "path_comps cur [] = [cur]"
| "path_comps cur (c # s) = (if c = CHR ''/'' then cur # path_comps [] s else path_comps (cur @ [c]) s)"

text \<open>One component on the stack of those kept, last first.\<close>

definition clean_step :: "bool \<Rightarrow> string \<Rightarrow> string list \<Rightarrow> string list" where
  "clean_step rooted c st =
     (if c = [] \<or> c = ''.'' then st
      else if c = ''..'' then
        (case st of
           [] \<Rightarrow> if rooted then [] else [''..'']
         | x # xs \<Rightarrow> if x = ''..'' then ''..'' # st else xs)
      else c # st)"

definition clean_stack :: "bool \<Rightarrow> string list \<Rightarrow> string list \<Rightarrow> string list" where
  "clean_stack rooted cs st = fold (clean_step rooted) cs st"

definition path_rooted :: "string \<Rightarrow> bool" where
  "path_rooted p \<longleftrightarrow> HasPrefix p ''/''"

definition path_kept :: "string \<Rightarrow> string list" where
  "path_kept p = rev (clean_stack (path_rooted p) (path_comps [] p) [])"

definition Clean :: "string \<Rightarrow> string" where
  "Clean p =
     (if path_rooted p then CHR ''/'' # Join (path_kept p) ''/''
      else if path_kept p = [] then ''.'' else Join (path_kept p) ''/'')"

definition Join2 :: "string \<Rightarrow> string \<Rightarrow> string" where
  "Join2 a b = (if a = [] \<and> b = [] then [] else if a = [] then Clean b else Clean (a @ ''/'' @ b))"

subsection \<open>Entries\<close>

record Body =
  bd_Inline :: "string option"
  bd_File :: string

record Part =
  pt_Headers :: "(string, string) gomap"
  pt_Body :: Body

record Multipart =
  mp_Type :: string
  mp_Parts :: "Part list"

record CatEntry =
  ce_Status :: int
  ce_Headers :: "(string, string) gomap"
  ce_Body :: "Body option"
  ce_Multipart :: "Multipart option"
  ce_body :: "string option"
  ce_contentType :: string

type_synonym Catalog = "(string, CatEntry) gomap"

type_synonym reader = "string \<Rightarrow> error + string"

definition body_path :: "string \<Rightarrow> string \<Rightarrow> string" where
  "body_path dir f = Join2 dir (Clean (''/'' @ f))"

definition readBody :: "reader \<Rightarrow> string \<Rightarrow> Body \<Rightarrow> string \<Rightarrow> error + string option" where
  "readBody rd dir b ctx =
     (case bd_Inline b of
        Some s \<Rightarrow> if bd_File b \<noteq> [] then Inl (Err (ctx @ '': body has both inline and file'')) else Inr (Some s)
      | None \<Rightarrow>
          if bd_File b \<noteq> [] then
            (case rd (body_path dir (bd_File b)) of
               Inl e \<Rightarrow> Inl (Err (ctx @ '': read body file: '' @ error_text e))
             | Inr data \<Rightarrow> Inr (Some data))
          else Inr None)"

definition crlf :: string where "crlf = [CHR 0x0D, CHR 0x0A]"

definition boundary_char :: "char \<Rightarrow> bool" where
  "boundary_char c \<longleftrightarrow>
     (let n = (of_char c :: nat) in 48 \<le> n \<and> n \<le> 57 \<or> 65 \<le> n \<and> n \<le> 90 \<or> 97 \<le> n \<and> n \<le> 122) \<or>
     c \<in> set ''()+_,-./:=?'' \<or> c = CHR 0x27"

definition boundary_ok :: "string \<Rightarrow> bool" where
  "boundary_ok b \<longleftrightarrow> b \<noteq> [] \<and> length b \<le> 70 \<and> list_all (\<lambda>c. boundary_char c \<or> c = CHR '' '') b \<and> last b \<noteq> CHR '' ''"

definition part_header :: "Part \<Rightarrow> string" where
  "part_header p =
     (let h = foldl (\<lambda>h (k, v). header_set k v h) [] (pt_Headers p) in
      concat (map (\<lambda>k. concat (map (\<lambda>v. k @ '': '' @ v @ crlf) (get_or [] h k))) (sort (map fst h))))"

fun write_parts ::
  "reader \<Rightarrow> string \<Rightarrow> string \<Rightarrow> string \<Rightarrow> nat \<Rightarrow> Part list \<Rightarrow> string \<Rightarrow> error + string" where
  "write_parts rd dir name bnd idx [] buf = Inr (buf @ crlf @ ''--'' @ bnd @ ''--'' @ crlf)"
| "write_parts rd dir name bnd idx (p # ps) buf =
     (case readBody rd dir (pt_Body p) (''catalog '' @ quote name @ '' part '' @ show_nat idx) of
        Inl e \<Rightarrow> Inl e
      | Inr b \<Rightarrow>
          write_parts rd dir name bnd (Suc idx) ps
            (buf @ (if idx = 0 then ''--'' @ bnd @ crlf else crlf @ ''--'' @ bnd @ crlf) @ part_header p @ crlf @
             (case b of None \<Rightarrow> [] | Some s \<Rightarrow> s)))"

definition resolveMultipart :: "reader \<Rightarrow> string \<Rightarrow> string \<Rightarrow> Multipart \<Rightarrow> CatEntry \<Rightarrow> error + CatEntry" where
  "resolveMultipart rd dir name mp e =
     (let typ = (if mp_Type mp = [] then ''multipart/mixed'' else mp_Type mp);
          bnd = ''mirage-chaff-'' @ name
      in if \<not> boundary_ok bnd
         then Inl (Err (''catalog '' @ quote name @ '': mime: invalid boundary''))
         else
           (case write_parts rd dir name bnd 0 (mp_Parts mp) [] of
              Inl err \<Rightarrow> Inl err
            | Inr buf \<Rightarrow>
                Inr (e\<lparr>ce_Multipart := Some (mp\<lparr>mp_Type := typ\<rparr>), ce_body := Some buf,
                       ce_contentType := typ @ ''; boundary='' @ bnd\<rparr>)))"

definition resolve_entry :: "reader \<Rightarrow> string \<Rightarrow> string \<Rightarrow> CatEntry \<Rightarrow> error + CatEntry" where
  "resolve_entry rd dir name e0 =
     (let e = (if ce_Status e0 = 0 then e0\<lparr>ce_Status := 200\<rparr> else e0) in
      case ce_Multipart e of
        Some mp \<Rightarrow>
          if ce_Body e \<noteq> None then Inl (Err (''catalog '' @ quote name @ '': cannot set both body and multipart''))
          else resolveMultipart rd dir name mp e
      | None \<Rightarrow>
          (case ce_Body e of
             None \<Rightarrow> Inr e
           | Some b \<Rightarrow>
               (case readBody rd dir b (''catalog '' @ name) of
                  Inl err \<Rightarrow> Inl err
                | Inr s \<Rightarrow> Inr (e\<lparr>ce_body := s\<rparr>))))"

fun resolve_all :: "reader \<Rightarrow> string \<Rightarrow> (string \<times> CatEntry option) list \<Rightarrow> Catalog \<Rightarrow> error + Catalog" where
  "resolve_all rd dir [] c = Inr c"
| "resolve_all rd dir ((name, None) # ds) c = Inl (Err (''catalog entry '' @ quote name @ '' is empty''))"
| "resolve_all rd dir ((name, Some e) # ds) c =
     (case resolve_entry rd dir name e of
        Inl err \<Rightarrow> Inl err
      | Inr e' \<Rightarrow> resolve_all rd dir ds (put name e' c))"

definition Catalog_Load ::
  "reader \<Rightarrow> (string \<Rightarrow> error + (string \<times> CatEntry option) list) \<Rightarrow> string \<Rightarrow> error + Catalog" where
  "Catalog_Load rd unmarshal dir =
     (case rd (Join2 dir ''catalog.yaml'') of
        Inl e \<Rightarrow> Inl (Err (''read catalog: '' @ error_text e))
      | Inr raw \<Rightarrow>
          (case unmarshal raw of
             Inl e \<Rightarrow> Inl (Err (''parse catalog: '' @ error_text e))
           | Inr defs \<Rightarrow> resolve_all rd dir defs []))"

definition Catalog_Names :: "Catalog \<Rightarrow> string list" where
  "Catalog_Names c = sort (map fst c)"

definition Catalog_Get :: "Catalog \<Rightarrow> string \<Rightarrow> CatEntry option" where
  "Catalog_Get c name = lookup c name"

definition entry_write :: "CatEntry \<Rightarrow> http_response \<Rightarrow> http_response" where
  "entry_write e w0 =
     (let w1 = foldl (\<lambda>w (k, v). set_header k v w) w0 (ce_Headers e);
          w2 = (if ce_contentType e \<noteq> [] then set_header ''Content-Type'' (ce_contentType e) w1 else w1);
          w3 = (case ce_body e of None \<Rightarrow> w2 | Some b \<Rightarrow> set_header ''Content-Length'' (show_nat (length b)) w2);
          w4 = write_header (ce_Status e) w3
      in case ce_body e of None \<Rightarrow> w4 | Some b \<Rightarrow> if b = [] then w4 else write_body b w4)"

definition Render :: "Catalog \<Rightarrow> string \<Rightarrow> http_response \<Rightarrow> error option \<times> http_response" where
  "Render c name w =
     (case lookup c name of
        None \<Rightarrow> (Some (Err (''catalog entry '' @ quote name @ '' not found'')), w)
      | Some e \<Rightarrow> (None, entry_write e w))"

subsection \<open>The stub action\<close>

definition applyCORS :: "intercept_request \<Rightarrow> http_response \<Rightarrow> http_response" where
  "applyCORS r w0 =
     (let origin = header_get ''Origin'' (ir_Headers r);
          w1 = (if origin \<noteq> []
                then set_header ''Access-Control-Allow-Credentials'' ''true''
                       (set_header ''Vary'' ''Origin'' (set_header ''Access-Control-Allow-Origin'' origin w0))
                else set_header ''Access-Control-Allow-Origin'' ''*'' w0)
      in if ir_Method r \<noteq> ''OPTIONS'' then w1
         else
           (let reqMethod = header_get ''Access-Control-Request-Method'' (ir_Headers r);
                reqHeaders = header_get ''Access-Control-Request-Headers'' (ir_Headers r);
                w2 = set_header ''Access-Control-Allow-Methods''
                       (if reqMethod = [] then ''GET, POST, OPTIONS'' else reqMethod) w1;
                w3 = (if reqHeaders \<noteq> [] then set_header ''Access-Control-Allow-Headers'' reqHeaders w2 else w2)
            in set_header ''Access-Control-Max-Age'' ''600'' w3))"

definition stub_Serve :: "intercept_request \<Rightarrow> Catalog option \<Rightarrow> string \<Rightarrow> http_response \<Rightarrow> http_response" where
  "stub_Serve r cat name w0 =
     (let w = applyCORS r w0 in
      if ir_Method r = ''OPTIONS'' then write_header 204 (set_header ''Content-Length'' ''0'' w)
      else
        (case cat of
           None \<Rightarrow> write_header 204 w
         | Some c \<Rightarrow>
             (case Render c name w of
                (None, w') \<Rightarrow> w'
              | (Some _, w') \<Rightarrow> write_header 204 w')))"

subsection \<open>Facts about paths\<close>

lemma path_comps_append: "path_comps cur (a @ CHR ''/'' # b) = path_comps cur a @ path_comps [] b"
  by (induction a arbitrary: cur) auto

definition plain_comp :: "string \<Rightarrow> bool" where
  "plain_comp c \<longleftrightarrow> c \<notin> {[], ''.'', ''..''} \<and> CHR ''/'' \<notin> set c"

lemma path_comps_noslash: "CHR ''/'' \<notin> set a \<Longrightarrow> path_comps cur a = [cur @ a]"
  by (induction a arbitrary: cur) auto

lemma path_comps_no_sep: "c \<in> set (path_comps cur a) \<Longrightarrow> CHR ''/'' \<notin> set cur \<Longrightarrow> CHR ''/'' \<notin> set c"
proof (induction a arbitrary: cur)
  case (Cons x a)
  show ?case using Cons.prems Cons.IH[of "[]"] Cons.IH[of "cur @ [x]"] by (auto split: if_splits)
qed simp

lemma path_comps_Join:
  "q \<noteq> [] \<Longrightarrow> \<forall>c\<in>set q. CHR ''/'' \<notin> set c \<Longrightarrow> path_comps [] (Join q ''/'') = q"
proof (induction q rule: induct_list012)
  case (3 x y zs)
  then show ?case using path_comps_append[of "[]" x "Join (y # zs) ''/''"] by (simp add: path_comps_noslash)
qed (auto simp: path_comps_noslash)

lemma clean_stack_append: "clean_stack r (cs @ ds) st = clean_stack r ds (clean_stack r cs st)"
  by (simp add: clean_stack_def)

lemma rooted_stack_plain:
  "\<forall>c\<in>set cs. CHR ''/'' \<notin> set c \<Longrightarrow> \<forall>c\<in>set st. plain_comp c \<Longrightarrow> \<forall>c\<in>set (clean_stack True cs st). plain_comp c"
proof (induction cs arbitrary: st)
  case (Cons c cs)
  have "\<forall>x\<in>set (clean_step True c st). plain_comp x"
    using Cons.prems by (cases st) (auto simp: clean_step_def plain_comp_def)
  with Cons show ?case by (simp add: clean_stack_def)
qed (simp add: clean_stack_def)

lemma push_plain: "\<forall>c\<in>set q. plain_comp c \<Longrightarrow> clean_stack r q st = rev q @ st"
proof (induction q arbitrary: st)
  case (Cons c q)
  then have "clean_step r c st = c # st" by (simp add: clean_step_def plain_comp_def)
  with Cons show ?case by (simp add: clean_stack_def)
qed (simp add: clean_stack_def)

lemma path_rooted_append: "dir \<noteq> [] \<Longrightarrow> path_rooted (dir @ x) = path_rooted dir"
  by (cases dir) (auto simp: path_rooted_def HasPrefix_def)

text \<open>A cleaned rooted path below a directory.\<close>

lemma kept_below:
  assumes "dir \<noteq> []" "\<forall>c\<in>set q. plain_comp c"
  shows "path_kept (dir @ ''/'' @ CHR ''/'' # Join q ''/'') = path_kept dir @ q"
proof -
  have comps: "path_comps [] (dir @ ''/'' @ CHR ''/'' # Join q ''/'') =
      path_comps [] dir @ [[]] @ path_comps [] (Join q ''/'')"
    using path_comps_append[of "[]" dir "CHR ''/'' # Join q ''/''"] by simp
  have "clean_stack r (path_comps [] (Join q ''/'')) st = rev q @ st" for r st
  proof (cases "q = []")
    case True
    then show ?thesis by (simp add: clean_stack_def clean_step_def)
  next
    case False
    with assms(2) have "path_comps [] (Join q ''/'') = q" by (intro path_comps_Join) (auto simp: plain_comp_def)
    with push_plain[OF assms(2)] show ?thesis by simp
  qed
  then show ?thesis
    unfolding path_kept_def path_rooted_append[OF assms(1)] comps
    by (simp add: clean_stack_append) (simp add: clean_stack_def clean_step_def)
qed

subsection \<open>The CORS headers\<close>

lemma cors_simps [simp]:
  "hr_Wrote (applyCORS r w) = hr_Wrote w" "hr_Status (applyCORS r w) = hr_Status w"
  "hr_Body (applyCORS r w) = hr_Body w"
  by (simp_all add: applyCORS_def Let_def)

subsection \<open>Properties\<close>

text \<open>A decoy body file is read from below the catalog directory and from nowhere else: whatever the
  entry names, with parent directories or an absolute path, the path read is the cleaned catalog
  directory followed by components none of which is empty, a dot or a double dot.\<close>

theorem body_file_stays_in_catalog:
  assumes "dir \<noteq> []"
  shows "\<exists>q. (\<forall>c\<in>set q. plain_comp c) \<and>
    body_path dir f =
      (if path_rooted dir then CHR ''/'' # Join (path_kept dir @ q) ''/''
       else if path_kept dir @ q = [] then ''.'' else Join (path_kept dir @ q) ''/'')"
proof -
  define q where "q = path_kept (''/'' @ f)"
  have r: "path_rooted (''/'' @ f)" by (simp add: path_rooted_def HasPrefix_def)
  have "\<forall>c\<in>set (path_comps [] (''/'' @ f)). CHR ''/'' \<notin> set c" using path_comps_no_sep[of _ "[]"] by fastforce
  then have plain: "\<forall>c\<in>set q. plain_comp c"
    using rooted_stack_plain[of "path_comps [] (''/'' @ f)" "[]"] r by (simp add: q_def path_kept_def del: path_comps.simps)
  have "Clean (''/'' @ f) = CHR ''/'' # Join q ''/''" using r by (simp add: Clean_def q_def)
  then have "body_path dir f = Clean (dir @ ''/'' @ CHR ''/'' # Join q ''/'')"
    using assms by (simp add: body_path_def Join2_def)
  moreover have "path_rooted (dir @ ''/'' @ CHR ''/'' # Join q ''/'') = path_rooted dir"
    by (rule path_rooted_append[OF assms])
  ultimately show ?thesis using plain kept_below[OF assms plain] by (intro exI[of _ q]) (simp add: Clean_def)
qed

theorem body_file_stays_in_catalog_witness:
  "body_path ''/etc/mc'' ''../../x/../passwd'' = ''/etc/mc/passwd'' \<and>
   (\<exists>q. \<forall>c\<in>set q. plain_comp c)"
proof -
  have "body_path ''/etc/mc'' ''../../x/../passwd'' = ''/etc/mc/passwd''" by code_simp
  with body_file_stays_in_catalog[of "''/etc/mc''" "''../../x/../passwd''"] show ?thesis by blast
qed

text \<open>A stub always answers, without an upstream: a preflight with 204, a request for an unknown entry
  with an empty 204, any other with exactly the entry's status and body. Unless the entry sets
  the headers itself, a request with an origin gets that origin and credentials, and one without
  gets the wildcard and no credentials.\<close>

theorem stub_always_answers:
  assumes "cat = Some c" "e = lookup c name"
  shows "let w = stub_Serve r cat name blank_response in hr_Wrote w \<and>
    (ir_Method r = ''OPTIONS'' \<longrightarrow> hr_Status w = 204 \<and> hr_Body w = []) \<and>
    (ir_Method r \<noteq> ''OPTIONS'' \<and> e = None \<longrightarrow> hr_Status w = 204 \<and> hr_Body w = []) \<and>
    (ir_Method r \<noteq> ''OPTIONS'' \<longrightarrow> (\<forall>x. e = Some x \<longrightarrow>
       hr_Status w = ce_Status x \<and> hr_Body w = (case ce_body x of None \<Rightarrow> [] | Some b \<Rightarrow> b))) \<and>
    ((\<forall>x. e = Some x \<longrightarrow> (\<forall>k\<in>{''Access-Control-Allow-Origin'', ''Access-Control-Allow-Credentials''}.
        k \<notin> CanonicalHeaderKey ` fst ` set (ce_Headers x))) \<longrightarrow>
      header_get ''Access-Control-Allow-Origin'' (hr_Headers w) =
        (if header_get ''Origin'' (ir_Headers r) = [] then ''*'' else header_get ''Origin'' (ir_Headers r)) \<and>
      header_get ''Access-Control-Allow-Credentials'' (hr_Headers w) =
        (if header_get ''Origin'' (ir_Headers r) = [] then [] else ''true''))"
proof -
  have keys: "CanonicalHeaderKey ''Access-Control-Allow-Origin'' = ''Access-Control-Allow-Origin''"
    "CanonicalHeaderKey ''Access-Control-Allow-Credentials'' = ''Access-Control-Allow-Credentials''"
    "CanonicalHeaderKey ''Vary'' = ''Vary''" "CanonicalHeaderKey ''Content-Type'' = ''Content-Type''"
    "CanonicalHeaderKey ''Content-Length'' = ''Content-Length''"
    "CanonicalHeaderKey ''Access-Control-Allow-Methods'' = ''Access-Control-Allow-Methods''"
    "CanonicalHeaderKey ''Access-Control-Allow-Headers'' = ''Access-Control-Allow-Headers''"
    "CanonicalHeaderKey ''Access-Control-Max-Age'' = ''Access-Control-Max-Age''"
    by code_simp+
  let ?w0 = "applyCORS r blank_response"
  have b: "\<not> hr_Wrote blank_response" "hr_Status blank_response = 200" "hr_Body blank_response = []"
    "header_get k (hr_Headers blank_response) = []" for k
    by (simp_all add: blank_response_def header_get_def get_or_def)
  have cors: "header_get ''Access-Control-Allow-Origin'' (hr_Headers ?w0) =
        (if header_get ''Origin'' (ir_Headers r) = [] then ''*'' else header_get ''Origin'' (ir_Headers r))"
    "header_get ''Access-Control-Allow-Credentials'' (hr_Headers ?w0) =
        (if header_get ''Origin'' (ir_Headers r) = [] then [] else ''true'')"
    using b by (simp_all add: applyCORS_def Let_def keys)
  show ?thesis
  proof (cases "ir_Method r = ''OPTIONS''")
    case True
    with b cors show ?thesis using assms(1) by (simp add: stub_Serve_def Let_def keys)
  next
    case False
    show ?thesis
    proof (cases "lookup c name")
      case None
      with False b cors assms show ?thesis by (simp add: stub_Serve_def Render_def Let_def)
    next
      case (Some x)
      let ?w1 = "foldl (\<lambda>w (k, v). set_header k v w) ?w0 (ce_Headers x)"
      have w1: "\<not> hr_Wrote ?w1" "hr_Body ?w1 = []" using b by (simp_all add: set_all_headers)
      have get: "header_get k (hr_Headers ?w1) = header_get k (hr_Headers ?w0)"
        if "k \<notin> CanonicalHeaderKey ` fst ` set (ce_Headers x)" "CanonicalHeaderKey k = k" for k
        using that b by (intro set_all_headers_get) simp_all
      from False Some w1 assms cors get keys show ?thesis
        by (simp add: stub_Serve_def Render_def entry_write_def write_body_def Let_def split: option.split)
    qed
  qed
qed

definition ex_request :: intercept_request where
  "ex_request = \<lparr>ir_Method = ''GET'', ir_Host = ''ads.example:443'', ir_ServerName = None, ir_Path = ''/p.gif'', ir_RawQuery = [],
     ir_URI = ''/p.gif'', ir_URL = ''/p.gif'', ir_Headers = [(''Origin'', [''https://site''])]\<rparr>"

definition ex_cat_entry :: CatEntry where
  "ex_cat_entry = \<lparr>ce_Status = 204, ce_Headers = [], ce_Body = None, ce_Multipart = None, ce_body = None, ce_contentType = []\<rparr>"

theorem stub_always_answers_witness:
  "hr_Status (stub_Serve ex_request (Some [(''beacon-204'', ex_cat_entry)]) ''beacon-204'' blank_response) = 204"
  using stub_always_answers[OF refl refl, where c = "[(''beacon-204'', ex_cat_entry)]" and name = "''beacon-204''" and r = ex_request]
  by (simp add: Let_def ex_request_def ex_cat_entry_def)

text \<open>A catalog that loads is complete: every entry has a status, an entry with a body of its own or
  with parts has its bytes, read at load time, and rendering a listed name never fails.\<close>

theorem loaded_catalog_is_complete:
  assumes "Catalog_Load rd unmarshal dir = Inr c" "Catalog_Get c name = Some e"
  shows "ce_Status e \<noteq> 0 \<and> (ce_Multipart e \<noteq> None \<longrightarrow> ce_body e \<noteq> None) \<and>
    (\<forall>b. ce_Multipart e = None \<and> ce_Body e = Some b \<and> (bd_Inline b \<noteq> None \<or> bd_File b \<noteq> []) \<longrightarrow> ce_body e \<noteq> None) \<and>
    fst (Render c name w) = None"
proof -
  have one: "ce_Status e' \<noteq> 0 \<and> (ce_Multipart e' \<noteq> None \<longrightarrow> ce_body e' \<noteq> None) \<and>
      (\<forall>b. ce_Multipart e' = None \<and> ce_Body e' = Some b \<and> (bd_Inline b \<noteq> None \<or> bd_File b \<noteq> []) \<longrightarrow> ce_body e' \<noteq> None)"
    if "resolve_entry rd dir n e0 = Inr e'" for n e0 e'
    using that
    by (auto simp: resolve_entry_def resolveMultipart_def readBody_def Let_def split: option.splits sum.splits if_splits)
  have all: "resolve_all rd dir ds c0 = Inr c' \<Longrightarrow> lookup c' n = Some e' \<Longrightarrow>
      lookup c0 n = Some e' \<or> (\<exists>e0. resolve_entry rd dir n e0 = Inr e')" for ds c0 c' n e'
  proof (induction rd dir ds c0 rule: resolve_all.induct)
    case (3 rd dir name e ds c)
    then show ?case by (force split: sum.splits if_splits)
  qed auto
  from assms(1) obtain defs where "resolve_all rd dir defs [] = Inr c"
    by (auto simp: Catalog_Load_def split: sum.splits)
  with all assms(2) obtain e0 where "resolve_entry rd dir name e0 = Inr e" by (force simp: Catalog_Get_def)
  from one[OF this] assms(2) show ?thesis by (simp add: Render_def Catalog_Get_def)
qed

definition ex_read :: reader where
  "ex_read p = (if p = ''c/catalog.yaml'' then Inr ''doc'' else Inl ErrNotExist)"

theorem loaded_catalog_is_complete_witness:
  "\<exists>c. Catalog_Load ex_read (\<lambda>_. Inr [(''b'', Some (ex_cat_entry\<lparr>ce_Status := 0\<rparr>))]) ''c'' = Inr c \<and>
     (\<forall>e. Catalog_Get c ''b'' = Some e \<longrightarrow> ce_Status e \<noteq> 0)"
proof -
  have "\<not> isl (Catalog_Load ex_read (\<lambda>_. Inr [(''b'', Some (ex_cat_entry\<lparr>ce_Status := 0\<rparr>))]) ''c'')" by code_simp
  then obtain c where c: "Catalog_Load ex_read (\<lambda>_. Inr [(''b'', Some (ex_cat_entry\<lparr>ce_Status := 0\<rparr>))]) ''c'' = Inr c"
    by (cases "Catalog_Load ex_read (\<lambda>_. Inr [(''b'', Some (ex_cat_entry\<lparr>ce_Status := 0\<rparr>))]) ''c''") auto
  with loaded_catalog_is_complete[OF c] show ?thesis by blast
qed

end
