(* ===== verification/Go_Lru.thy ===== *)
theory Go_Lru
  imports Go_Prelude
begin

text \<open>
  The eviction two of the caches share (decoys in \<^verbatim>\<open>internal/mimic/handler.go\<close>, leaf certificates in
  \<^verbatim>\<open>internal/certgen/certgen.go\<close>): while the map is over its capacity, the entry used least recently is
  deleted. \<open>used\<close> reads the time an entry was last used.
\<close>

text \<open>The entry used least recently, the first of them in the order of the loop.\<close>

fun lru_oldest :: "('e \<Rightarrow> time) \<Rightarrow> ('k \<times> 'e) option \<Rightarrow> ('k, 'e) gomap \<Rightarrow> ('k \<times> 'e) option" where
  "lru_oldest used best [] = best"
| "lru_oldest used best ((k, e) # m) =
     lru_oldest used (case best of
        None \<Rightarrow> Some (k, e)
      | Some (bk, be) \<Rightarrow> if used e < used be then Some (k, e) else Some (bk, be)) m"

lemma lru_oldest_in: "lru_oldest used best m = Some ke \<Longrightarrow> ke \<in> set m \<or> best = Some ke"
  by (induction used best m rule: lru_oldest.induct) (auto split: option.splits if_splits)

lemma lru_oldest_some: "best \<noteq> None \<or> m \<noteq> [] \<Longrightarrow> lru_oldest used best m \<noteq> None"
  by (induction used best m rule: lru_oldest.induct) (auto split: option.splits)

lemma length_del_less: "k \<in> fst ` set m \<Longrightarrow> length (del k m) < length m"
  by (induction m) (auto simp: le_imp_less_Suc AList.delete_eq)

function lru_evict :: "('e \<Rightarrow> time) \<Rightarrow> nat \<Rightarrow> ('k, 'e) gomap \<Rightarrow> ('k, 'e) gomap" where
  "lru_evict used n m =
     (if n < length m
      then (case lru_oldest used None m of None \<Rightarrow> m | Some (k, e) \<Rightarrow> lru_evict used n (del k m))
      else m)"
  by pat_completeness auto
termination
proof (relation "measure (\<lambda>(used, n, m). length m)", goal_cases)
  case (2 used n m x k e)
  then have "(k, e) \<in> set m" using lru_oldest_in by fastforce
  then have "k \<in> fst ` set m" by force
  then show ?case by (simp add: length_del_less)
qed simp

declare lru_evict.simps [simp del]

lemma lru_evict_size: "length (lru_evict used n m) \<le> n"
proof (induction used n m rule: lru_evict.induct)
  case (1 used n m)
  have "n < length m \<Longrightarrow> lru_oldest used None m \<noteq> None" using lru_oldest_some[of None m used] by fastforce
  with 1 show ?case by (subst lru_evict.simps) (auto split: option.splits)
qed

lemma lru_evict_wf: "wf_map m \<Longrightarrow> wf_map (lru_evict used n m)"
proof (induction used n m rule: lru_evict.induct)
  case (1 used n m)
  then show ?case by (subst lru_evict.simps) (auto split: option.splits)
qed

lemma lru_oldest_min:
  "lru_oldest used best m = Some (k, e) \<Longrightarrow>
     (\<forall>(k', e') \<in> set m. used e \<le> used e') \<and> (\<forall>k' e'. best = Some (k', e') \<longrightarrow> used e \<le> used e')"
proof (induction used best m rule: lru_oldest.induct)
  case (2 used best k' e' m)
  then show ?case by (fastforce split: option.splits if_splits)
qed auto

text \<open>An entry used later than every other survives the eviction.\<close>

lemma lru_keeps_newest:
  "\<lbrakk>wf_map m; 0 < n; lookup m k = Some e; \<forall>k' e'. lookup m k' = Some e' \<and> k' \<noteq> k \<longrightarrow> used e' < used e\<rbrakk> \<Longrightarrow>
     lookup (lru_evict used n m) k = Some e"
proof (induction used n m rule: lru_evict.induct)
  case (1 used n m)
  show ?case
  proof (cases "n < length m")
    case False
    with 1(4) show ?thesis by (subst lru_evict.simps) simp
  next
    case True
    then obtain k1 e1 where o: "lru_oldest used None m = Some (k1, e1)"
      using lru_oldest_some[of None m used] by (cases m) auto
    have in1: "(k1, e1) \<in> set m" using lru_oldest_in[OF o] by simp
    have "k1 \<noteq> k"
    proof
      assume "k1 = k"
      with in1 1(2,4) have e1: "e1 = e" by (simp add: in_set_lookup)
      have "\<exists>p\<in>set m. fst p \<noteq> k"
      proof (rule ccontr)
        assume "\<not> ?thesis"
        then have "set (map fst m) \<subseteq> {k}" by auto
        then have "card (set (map fst m)) \<le> 1" by (metis card.empty card_insert_disjoint card_mono empty_iff finite.emptyI finite_insert One_nat_def)
        then have "length m \<le> 1" using 1(2) distinct_card[of "map fst m"] by (simp add: wf_map_def)
        with True 1(3) show False by simp
      qed
      then obtain k2 e2 where p: "(k2, e2) \<in> set m" "k2 \<noteq> k" by auto
      then have "used e2 < used e" using 1(2,5) by (simp add: in_set_lookup)
      moreover have "used e \<le> used e2" using lru_oldest_min[OF o] p e1 by fastforce
      ultimately show False by simp
    qed
    moreover have "lookup (lru_evict used n (del k1 m)) k = Some e" if "k1 \<noteq> k"
      using that 1(2-5) by (intro 1(1)[OF True o refl]) auto
    ultimately show ?thesis using True o by (subst lru_evict.simps) simp
  qed
qed

lemma lru_evict_sub: "wf_map m \<Longrightarrow> lookup (lru_evict used n m) k = Some e \<Longrightarrow> lookup m k = Some e"
proof (induction used n m rule: lru_evict.induct)
  case (1 used n m)
  show ?case
  proof (cases "n < length m")
    case True
    then obtain k1 e1 where o: "lru_oldest used None m = Some (k1, e1)"
      using lru_oldest_some[of None m used] by (cases m) auto
    have "lru_evict used n m = lru_evict used n (del k1 m)" using True o by (subst lru_evict.simps) simp
    with 1(1)[OF True o refl] 1(2,3) have "lookup (del k1 m) k = Some e" by simp
    then show ?thesis by (simp split: if_splits)
  next
    case False
    with 1(3) show ?thesis by (subst (asm) lru_evict.simps) simp
  qed
qed

end
