(* ===== verification/Mimic.thy ===== *)
theory Mimic
  imports Go_Lru Go_Http Resolver
begin

text \<open>
  Mimic decoys: the generator of \<^verbatim>\<open>internal/mimic/generator.go\<close> and the handler of
  \<^verbatim>\<open>internal/mimic/handler.go\<close> with its bounded cache.

  SHA-256 is an argument; \<open>Sum256\<close> gives it the type \<^verbatim>\<open>[32]byte\<close> of the library. The HEAD
  request of a probe, the random nonce and the readings of the clock are arguments too. Buffers
  are allocated without failure. The cache is a Go map: \<open>storeDecoy\<close> looks for its oldest
  entry in the order of the list.
\<close>

subsection \<open>Shapes and media\<close>

definition ModeDeterministic :: string where "ModeDeterministic = ''deterministic''"
definition ModePerRequest :: string where "ModePerRequest = ''per-request''"

definition MediaImage :: string where "MediaImage = ''image''"
definition MediaJS :: string where "MediaJS = ''js''"
definition MediaBinary :: string where "MediaBinary = ''binary''"
definition MediaVideo :: string where "MediaVideo = ''video''"

lemmas media_defs = MediaImage_def MediaJS_def MediaBinary_def MediaVideo_def

record Shape =
  sh_ContentType :: string
  sh_Length :: int
  sh_Media :: string

definition zero_shape :: Shape where
  "zero_shape = \<lparr>sh_ContentType = [], sh_Length = 0, sh_Media = []\<rparr>"

definition ClassifyContentType :: "string \<Rightarrow> string" where
  "ClassifyContentType ct0 =
     (let ct1 = ToLower (TrimSpace ct0);
          ct = (if CHR '';'' \<in> set ct1 then TrimSpace (cut_before CHR '';'' ct1) else ct1)
      in if HasPrefix ct ''video/'' then MediaVideo
         else if HasPrefix ct ''image/'' then MediaImage
         else if ct = ''application/javascript'' \<or> ct = ''text/javascript'' \<or> ct = ''application/x-javascript''
         then MediaJS
         else MediaBinary)"

definition ClassifyExt :: "string \<Rightarrow> string" where
  "ClassifyExt path =
     (case last_index CHR ''.'' path of
        None \<Rightarrow> []
      | Some i \<Rightarrow>
          (let ext = ToLower (drop (i + 1) path) in
           if ext \<in> set [''mp4'', ''webm'', ''m4s'', ''ts'', ''mov'', ''m3u8'', ''mpd''] then MediaVideo
           else if ext \<in> set [''gif'', ''png'', ''jpg'', ''jpeg'', ''webp'', ''bmp''] then MediaImage
           else if ext \<in> set [''js'', ''mjs''] then MediaJS
           else []))"

subsection \<open>Generation\<close>

definition gif1x1 :: string where
  "gif1x1 = map char_of ([0x47, 0x49, 0x46, 0x38, 0x39, 0x61, 0x01, 0x00, 0x01, 0x00, 0x80, 0x00, 0x00,
     0xff, 0xff, 0xff, 0x00, 0x00, 0x00, 0x21, 0xf9, 0x04, 0x01, 0x00, 0x00, 0x00,
     0x00, 0x2c, 0x00, 0x00, 0x00, 0x00, 0x01, 0x00, 0x01, 0x00, 0x00, 0x02, 0x01,
     0x44, 0x00, 0x3b] :: nat list)"

definition png1x1 :: string where
  "png1x1 = map char_of ([0x89, 0x50, 0x4e, 0x47, 0x0d, 0x0a, 0x1a, 0x0a, 0x00, 0x00, 0x00, 0x0d, 0x49,
     0x48, 0x44, 0x52, 0x00, 0x00, 0x00, 0x01, 0x00, 0x00, 0x00, 0x01, 0x08, 0x06,
     0x00, 0x00, 0x00, 0x1f, 0x15, 0xc4, 0x89, 0x00, 0x00, 0x00, 0x0d, 0x49, 0x44,
     0x41, 0x54, 0x78, 0x9c, 0x62, 0x00, 0x01, 0x00, 0x00, 0x05, 0x00, 0x01, 0x0d,
     0x0a, 0x2d, 0xb4, 0x00, 0x00, 0x00, 0x00, 0x49, 0x45, 0x4e, 0x44, 0xae, 0x42,
     0x60, 0x82] :: nat list)"

definition Sum256 :: "(string \<Rightarrow> string) \<Rightarrow> string \<Rightarrow> string" where
  "Sum256 sha s = take 32 (sha s @ replicate 32 (CHR 0x00))"

text \<open>The loop appends one block per round until \<open>n\<close> bytes are there.\<close>

function stream_loop :: "(string \<Rightarrow> string) \<Rightarrow> string \<Rightarrow> nat \<Rightarrow> nat \<Rightarrow> string \<Rightarrow> string" where
  "stream_loop sha base n counter out =
     (if length out < n
      then stream_loop sha base n (Suc counter) (out @ Sum256 sha (base @ be_bytes 8 counter))
      else out)"
  by pat_completeness auto
termination
  by (relation "measure (\<lambda>(sha, base, n, counter, out). n - length out)") (auto simp: Sum256_def)

declare stream_loop.simps [simp del]

definition keystream :: "(string \<Rightarrow> string) \<Rightarrow> string \<Rightarrow> int \<Rightarrow> string" where
  "keystream sha seed n =
     (if n \<le> 0 then [] else take (nat n) (stream_loop sha (Sum256 sha seed) (nat n) 0 []))"

definition padText :: "(string \<Rightarrow> string) \<Rightarrow> string \<Rightarrow> int \<Rightarrow> string" where
  "padText sha seed n =
     (let enc = RawURLEncode (keystream sha seed ((n + 3) div 4 * 3));
          enc' = (if int (length enc) < n then enc @ replicate (nat (n - int (length enc))) (CHR ''A'') else enc)
      in take (nat n) enc')"

definition js_noop :: string where
  "js_noop = ''var __mc=0;'' @ [CHR 0x0A]"

definition js_prefix :: string where "js_prefix = ''/* ''"
definition js_suffix :: string where "js_suffix = ''*/'' @ [CHR 0x0A] @ js_noop"

definition genJS :: "(string \<Rightarrow> string) \<Rightarrow> string \<Rightarrow> int \<Rightarrow> string" where
  "genJS sha seed len =
     (let overhead = int (length js_prefix + length js_suffix) in
      if len \<le> overhead then js_noop else js_prefix @ padText sha seed (len - overhead) @ js_suffix)"

definition image_base :: "Shape \<Rightarrow> string" where
  "image_base shape = (if Contains (ToLower (sh_ContentType shape)) ''png'' then png1x1 else gif1x1)"

definition genImage :: "(string \<Rightarrow> string) \<Rightarrow> string \<Rightarrow> Shape \<Rightarrow> string" where
  "genImage sha seed shape =
     (let base = image_base shape in
      if sh_Length shape \<le> int (length base) then base
      else base @ keystream sha seed (sh_Length shape - int (length base)))"

definition Generate_decoy :: "(string \<Rightarrow> string) \<Rightarrow> string \<Rightarrow> Shape \<Rightarrow> error + string" where
  "Generate_decoy sha seed shape =
     (if sh_Length shape < 0 then Inl (Err ''mimic: negative length'')
      else if sh_Media shape = MediaJS then Inr (genJS sha seed (sh_Length shape))
      else if sh_Media shape = MediaImage then Inr (genImage sha seed shape)
      else Inr (keystream sha seed (sh_Length shape)))"

definition GenerateRange :: "(string \<Rightarrow> string) \<Rightarrow> string \<Rightarrow> Shape \<Rightarrow> int \<Rightarrow> int \<Rightarrow> string outcome" where
  "GenerateRange sha seed shape start end =
     (case Generate_decoy sha seed shape of
        Inl e \<Rightarrow> Fail e
      | Inr full \<Rightarrow>
          if start < 0 \<or> int (length full) \<le> start then Fail (Err ''mimic: range start out of bounds'')
          else
            (let en = (if int (length full) \<le> end then int (length full) - 1 else end) in
             case go_slice start (en + 1) full of None \<Rightarrow> Panic | Some b \<Rightarrow> Ok b))"

definition decoy_Hash :: "(string \<Rightarrow> string) \<Rightarrow> string \<Rightarrow> Shape \<Rightarrow> error + string" where
  "decoy_Hash sha seed shape =
     (case Generate_decoy sha seed shape of Inl e \<Rightarrow> Inl e | Inr b \<Rightarrow> Inr (Sum256 sha b))"

subsection \<open>The handler\<close>

record CachedDecoy =
  cd_Shape :: Shape
  cd_Seed :: string
  cd_Hash :: string

record cacheEntry =
  en_decoy :: CachedDecoy
  en_used :: time

record Mimic_Handler =
  mh_mode :: string
  mh_maxBytes :: int
  mh_allowVideo :: bool
  mh_cacheMax :: nat
  mh_cache :: "(string, cacheEntry) gomap"

record mimic_options =
  mo_MaxBytes :: int
  mo_Mode :: string
  mo_AllowVideo :: bool
  mo_CacheMax :: int

definition New_Mimic :: "mimic_options \<Rightarrow> Mimic_Handler" where
  "New_Mimic o1 =
     \<lparr>mh_mode = (if mo_Mode o1 = [] then ModeDeterministic else mo_Mode o1),
      mh_maxBytes = (if mo_MaxBytes o1 \<le> 0 then 8388608 else mo_MaxBytes o1),
      mh_allowVideo = mo_AllowVideo o1,
      mh_cacheMax = (if mo_CacheMax o1 \<le> 0 then 512 else nat (mo_CacheMax o1)),
      mh_cache = []\<rparr>"

definition decoy_Lookup :: "time \<Rightarrow> string \<Rightarrow> Mimic_Handler \<Rightarrow> CachedDecoy option \<times> Mimic_Handler" where
  "decoy_Lookup now url h =
     (case lookup (mh_cache h) url of
        None \<Rightarrow> (None, h)
      | Some e \<Rightarrow> (Some (en_decoy e), h\<lparr>mh_cache := put url (e\<lparr>en_used := now\<rparr>) (mh_cache h)\<rparr>))"

abbreviation evict_loop :: "nat \<Rightarrow> (string, cacheEntry) gomap \<Rightarrow> (string, cacheEntry) gomap" where
  "evict_loop \<equiv> lru_evict en_used"

definition storeDecoy :: "time \<Rightarrow> string \<Rightarrow> CachedDecoy \<Rightarrow> Mimic_Handler \<Rightarrow> Mimic_Handler" where
  "storeDecoy now url d h =
     h\<lparr>mh_cache := evict_loop (mh_cacheMax h) (put url \<lparr>en_decoy = d, en_used = now\<rparr> (mh_cache h))\<rparr>"

definition defaultContentType :: "string \<Rightarrow> string \<Rightarrow> string" where
  "defaultContentType media path =
     (if media = MediaJS then ''application/javascript''
      else if media = MediaImage then
        (if HasSuffix (ToLower path) ''.png'' then ''image/png'' else ''image/gif'')
      else if media = MediaVideo then
        (if HasSuffix (ToLower path) ''.webm'' then ''video/webm''
         else if HasSuffix (ToLower path) ''.m3u8'' then ''application/vnd.apple.mpegurl''
         else if HasSuffix (ToLower path) ''.mpd'' then ''application/dash+xml''
         else if HasSuffix (ToLower path) ''.ts'' then ''video/mp2t''
         else ''video/mp4'')
      else ''application/octet-stream'')"

definition defaultLength :: "string \<Rightarrow> int" where
  "defaultLength media =
     (if media = MediaJS then 256 else if media = MediaImage then int (length gif1x1) else 1024)"

definition parseRange :: "string \<Rightarrow> int \<Rightarrow> (int \<times> int) option" where
  "parseRange h sz =
     (if \<not> HasPrefix h ''bytes='' then None
      else
        (let spec = TrimPrefix h ''bytes='' in
         if CHR '','' \<in> set spec then None
         else
           (case index_of CHR ''-'' spec of
              None \<Rightarrow> None
            | Some dash \<Rightarrow>
                (let startS = take dash spec; endS = drop (dash + 1) spec in
                 if startS = [] \<and> endS \<noteq> [] then
                   (case ParseInt endS of
                      Inl _ \<Rightarrow> None
                    | Inr n0 \<Rightarrow>
                        if n0 \<le> 0 then None
                        else (let n = (if sz < n0 then sz else n0) in Some (sz - n, sz - 1)))
                 else if startS \<noteq> [] then
                   (case ParseInt startS of
                      Inl _ \<Rightarrow> None
                    | Inr s \<Rightarrow>
                        if s < 0 \<or> sz \<le> s then None
                        else if endS = [] then Some (s, sz - 1)
                        else
                          (case ParseInt endS of
                             Inl _ \<Rightarrow> None
                           | Inr e \<Rightarrow> if e < s then None else Some (s, if sz \<le> e then sz - 1 else e)))
                 else None))))"

text \<open>\<^verbatim>\<open>None\<close> is a panic of the slice expression.\<close>

definition mimic_write ::
  "intercept_request \<Rightarrow> Shape \<Rightarrow> string \<Rightarrow> http_response \<Rightarrow> http_response option" where
  "mimic_write r shape full w0 =
     (let w1 = set_header ''Cache-Control'' ''no-store'' (set_header ''Accept-Ranges'' ''bytes''
                 (set_header ''Content-Type'' (sh_ContentType shape) w0));
          rng = header_get ''Range'' (ir_Headers r)
      in case (if rng \<noteq> [] then parseRange rng (int (length full)) else None) of
           Some (start, en) \<Rightarrow>
             (let w2 = write_header 206
                 (set_header ''Content-Length'' (show_int (en - start + 1))
                   (set_header ''Content-Range''
                     (''bytes '' @ show_int start @ ''-'' @ show_int en @ ''/'' @ show_nat (length full)) w1))
              in if ir_Method r \<noteq> ''HEAD''
                 then map_option (\<lambda>b. write_body b w2) (go_slice start (en + 1) full)
                 else Some w2)
         | None \<Rightarrow>
             (let w2 = write_header 200 (set_header ''Content-Length'' (show_nat (length full)) w1)
              in Some (if ir_Method r \<noteq> ''HEAD'' then write_body full w2 else w2)))"

definition hostOnly :: "string \<Rightarrow> string" where
  "hostOnly h = (case SplitHostPort h of Inr (host, _) \<Rightarrow> host | Inl _ \<Rightarrow> h)"

text \<open>
  The client's HEAD request: URL and host header to the content type and length of the answer;
  \<^verbatim>\<open>None\<close> when the request cannot be built or fails.
\<close>

type_synonym head_client = "string \<Rightarrow> string \<Rightarrow> (string \<times> int) option"

definition probe :: "head_client \<Rightarrow> intercept_request \<Rightarrow> Shape" where
  "probe head r =
     (case head (''https://'' @ ir_Host r @ ir_URI r) (hostOnly (ir_Host r)) of
        None \<Rightarrow> zero_shape
      | Some (ct, len) \<Rightarrow> zero_shape\<lparr>sh_ContentType := ct, sh_Length := len\<rparr>)"

text \<open>The shape of a URL not in the cache; \<^verbatim>\<open>None\<close> when video is not opted in.\<close>

definition new_shape :: "head_client \<Rightarrow> intercept_request \<Rightarrow> bool \<Rightarrow> Shape option" where
  "new_shape head r allow =
     (let media0 = ClassifyExt (ir_Path r);
          shape = probe head r;
          media = (if media0 = [] then ClassifyContentType (sh_ContentType shape) else media0)
      in if media = MediaVideo \<and> \<not> allow then None
         else
           (let s1 = shape\<lparr>sh_Media := media\<rparr>;
                s2 = (if sh_ContentType s1 = [] then s1\<lparr>sh_ContentType := defaultContentType media (ir_Path r)\<rparr> else s1)
            in Some (if sh_Length s2 \<le> 0 then s2\<lparr>sh_Length := defaultLength media\<rparr> else s2)))"

record mimic_env =
  me_sha :: "string \<Rightarrow> string"
  me_head :: head_client
  me_nonce :: string
  me_now :: time
  me_now2 :: time

definition mimic_seed :: "mimic_env \<Rightarrow> Mimic_Handler \<Rightarrow> string \<Rightarrow> string" where
  "mimic_seed E h url = (if mh_mode h = ModePerRequest then url @ ''#'' @ hex_encode (me_nonce E) else url)"

definition serve_shape ::
  "mimic_env \<Rightarrow> intercept_request \<Rightarrow> Shape \<Rightarrow> http_response \<Rightarrow> Mimic_Handler \<Rightarrow>
     (bool \<times> http_response \<times> Mimic_Handler) option" where
  "serve_shape E r shape w h =
     (if sh_Media shape = MediaVideo \<and> \<not> mh_allowVideo h then Some (False, w, h)
      else if mh_maxBytes h < sh_Length shape then Some (False, w, h)
      else
        (let seed = mimic_seed E h (ir_URL r) in
         case Generate_decoy (me_sha E) seed shape of
           Inl _ \<Rightarrow> Some (False, w, h)
         | Inr full \<Rightarrow>
             (let h' = storeDecoy (me_now2 E) (ir_URL r)
                 \<lparr>cd_Shape = shape, cd_Seed = seed, cd_Hash = Sum256 (me_sha E) full\<rparr> h
              in map_option (\<lambda>w'. (True, w', h')) (mimic_write r shape full w))))"

definition mimic_Serve ::
  "mimic_env \<Rightarrow> intercept_request \<Rightarrow> http_response \<Rightarrow> Mimic_Handler \<Rightarrow>
     (bool \<times> http_response \<times> Mimic_Handler) option" where
  "mimic_Serve E r w h =
     (case decoy_Lookup (me_now E) (ir_URL r) h of
        (Some cached, h1) \<Rightarrow> serve_shape E r (cd_Shape cached) w h1
      | (None, h1) \<Rightarrow>
          (case new_shape (me_head E) r (mh_allowVideo h1) of
             None \<Rightarrow> Some (False, w, h1)
           | Some shape \<Rightarrow> serve_shape E r shape w h1))"

subsection \<open>Facts about the generator\<close>

lemma length_Sum256 [simp]: "length (Sum256 sha s) = 32"
  by (simp add: Sum256_def)

lemma stream_loop_enough: "n \<le> length (stream_loop sha base n counter out)"
proof (induction sha base n counter out rule: stream_loop.induct)
  case (1 sha base n counter out)
  then show ?case by (subst stream_loop.simps) auto
qed

lemma length_keystream [codec]: "length (keystream sha seed n) = nat n"
  using stream_loop_enough[of "nat n" sha "Sum256 sha seed" 0 "[]"]
  by (simp add: keystream_def)

text \<open>The padding of a script never falls back to the letter \<open>A\<close>.\<close>

lemma padText_enough: "0 < n \<Longrightarrow> n \<le> int (length (RawURLEncode (keystream sha seed ((n + 3) div 4 * 3))))"
  by (simp add: codec nat_mult_distrib)

lemma length_padText [codec]: "0 < n \<Longrightarrow> length (padText sha seed n) = nat n"
  using padText_enough[of n sha seed] by (simp add: padText_def Let_def)

lemma set_padText: "0 < n \<Longrightarrow> set (padText sha seed n) \<subseteq> set b64_alphabet"
  using padText_enough[of n sha seed] set_RawURLEncode by (fastforce simp: padText_def Let_def dest: in_set_takeD)

lemma js_lengths: "length js_prefix = 3" "length js_suffix = 15" "length js_noop = 12"
  by (simp_all add: js_prefix_def js_suffix_def js_noop_def)

lemma image_lengths: "length gif1x1 = 42" "length png1x1 = 67"
  by (simp_all add: gif1x1_def png1x1_def)

lemma image_base_pos: "0 < length (image_base shape)"
  by (simp add: image_base_def gif1x1_def png1x1_def)

definition decoy_length :: "Shape \<Rightarrow> int" where
  "decoy_length shape =
     (if sh_Media shape = MediaJS then (if sh_Length shape \<le> 18 then 12 else sh_Length shape)
      else if sh_Media shape = MediaImage
      then max (sh_Length shape) (int (length (image_base shape)))
      else sh_Length shape)"

lemma Generate_Inl_iff: "isl (Generate_decoy sha seed shape) \<longleftrightarrow> sh_Length shape < 0"
  by (simp add: Generate_decoy_def)

lemma Generate_length: "Generate_decoy sha seed shape = Inr b \<Longrightarrow> int (length b) = decoy_length shape"
  by (auto simp: Generate_decoy_def genJS_def genImage_def decoy_length_def codec js_lengths Let_def
      max_def split: if_splits)

subsection \<open>Facts about ranges\<close>

lemma parseRange_bounds:
  assumes "parseRange h n = Some (s, e)" "0 \<le> n"
  shows "0 \<le> s \<and> s \<le> e + 1 \<and> e + 1 \<le> n \<and> (0 < n \<longrightarrow> s \<le> e)"
  using assms by (auto simp: parseRange_def Let_def split: if_splits option.splits sum.splits)

lemma index_of_split: "CHR ''-'' \<notin> set a \<Longrightarrow> index_of CHR ''-'' (a @ CHR ''-'' # b) = Some (length a)"
  by (induction a) (auto simp: index_of_def)

lemma parseRange_show:
  assumes "0 \<le> a" "a \<le> b" "is_int64 b" "a < n"
  shows "parseRange (''bytes='' @ show_int a @ ''-'' @ show_int b) n = Some (a, min b (n - 1))"
    and "parseRange (''bytes='' @ show_int a @ ''-'') n = Some (a, n - 1)"
proof -
  have a: "is_int64 a" using assms by (simp add: is_int64_def)
  have ds: "CHR ''-'' \<notin> set (show_int i) \<and> CHR '','' \<notin> set (show_int i) \<and> show_int i \<noteq> []" if "0 \<le> i" for i
    using that show_nat_no_sign[of "nat i"] show_nat_dec[of "nat i"] by (simp add: show_int_def)
  have tp: "TrimPrefix (''bytes='' @ x) ''bytes='' = x" "HasPrefix (''bytes='' @ x) ''bytes=''" for x :: string
    by (simp_all only: TrimPrefix_append HasPrefix_append)
  have ix: "index_of CHR ''-'' (show_int a @ ''-'' @ x) = Some (length (show_int a))" for x
    using index_of_split[of "show_int a" x] ds[of a] assms(1) by simp
  from ds[of a] ds[of b] assms ParseInt_show[OF a] ParseInt_show[OF assms(3)]
  show "parseRange (''bytes='' @ show_int a @ ''-'' @ show_int b) n = Some (a, min b (n - 1))"
    unfolding parseRange_def tp Let_def ix by (simp add: min_def HasPrefix_def)
  from ds[of a] assms ParseInt_show[OF a] ix[of "[]"]
  show "parseRange (''bytes='' @ show_int a @ ''-'') n = Some (a, n - 1)"
    unfolding parseRange_def tp Let_def by (simp add: HasPrefix_def)
qed

subsection \<open>Facts about the cache\<close>

text \<open>What every operation keeps of the handler: distinct keys and the size of the cache.\<close>

definition mimic_ok :: "Mimic_Handler \<Rightarrow> bool" where
  "mimic_ok h \<longleftrightarrow> wf_map (mh_cache h) \<and> 0 < mh_cacheMax h \<and> length (mh_cache h) \<le> mh_cacheMax h"

lemma New_Mimic_ok: "mimic_ok (New_Mimic o1)"
  by (simp add: mimic_ok_def New_Mimic_def)

lemma storeDecoy_ok: "mimic_ok h \<Longrightarrow> mimic_ok (storeDecoy now url d h)"
  by (simp add: mimic_ok_def storeDecoy_def lru_evict_size lru_evict_wf)

lemma decoy_Lookup_ok: "mimic_ok h \<Longrightarrow> mimic_ok (snd (decoy_Lookup now url h))"
  by (auto simp: mimic_ok_def decoy_Lookup_def length_put split: option.splits)

interpretation decoys: capped_table "\<lambda>h. length (mh_cache h)" mh_cacheMax mimic_ok
  "\<lambda>(now, url, d). storeDecoy now url d"
proof (unfold_locales, goal_cases)
  case (1 s x)
  then show ?case by (cases x) (simp add: storeDecoy_ok)
next
  case (2 s x)
  then show ?case by (cases x) (simp add: storeDecoy_def)
next
  case (3 s x)
  then show ?case by (cases x) (simp add: storeDecoy_def lru_evict_size)
qed

subsection \<open>Facts about serving\<close>

definition range_of :: "intercept_request \<Rightarrow> string \<Rightarrow> (int \<times> int) option" where
  "range_of r full = parseRange (header_get ''Range'' (ir_Headers r)) (int (length full))"

lemma range_or_none:
  "(if header_get ''Range'' (ir_Headers r) \<noteq> [] then parseRange (header_get ''Range'' (ir_Headers r)) n else None) =
   parseRange (header_get ''Range'' (ir_Headers r)) n"
  by (simp add: parseRange_def HasPrefix_def)

definition part_of :: "(int \<times> int) option \<Rightarrow> string \<Rightarrow> string" where
  "part_of rng full = (case rng of None \<Rightarrow> full | Some (s, e) \<Rightarrow> take (nat (e + 1 - s)) (drop (nat s) full))"

lemma mimic_write_eq:
  assumes "\<not> hr_Wrote w"
  shows "\<exists>w'. mimic_write r shape full w = Some w' \<and> hr_Wrote w' \<and>
    hr_Status w' = (if range_of r full = None then 200 else 206) \<and>
    hr_Body w' = (if ir_Method r = ''HEAD'' then hr_Body w else hr_Body w @ part_of (range_of r full) full)"
proof (cases "range_of r full")
  case None
  with assms show ?thesis
    unfolding mimic_write_def range_or_none Let_def by (simp add: range_of_def part_of_def write_body_def)
next
  case (Some se)
  obtain s e where [simp]: "se = (s, e)" by (cases se)
  have "0 \<le> s \<and> s \<le> e + 1 \<and> e + 1 \<le> int (length full)"
    using Some parseRange_bounds[of _ "int (length full)" s e] by (simp add: range_of_def)
  then have "go_slice s (e + 1) full = Some (part_of (range_of r full) full)"
    using Some by (simp add: go_slice_def part_of_def)
  with Some assms show ?thesis
    unfolding mimic_write_def range_or_none Let_def by (simp add: range_of_def write_body_def)
qed

lemma serve_shape_Some:
  assumes "\<not> hr_Wrote w"
  shows "\<exists>ok w' h'. serve_shape E r shape w h = Some (ok, w', h') \<and>
    (if sh_Media shape = MediaVideo \<and> \<not> mh_allowVideo h \<or> mh_maxBytes h < sh_Length shape \<or> sh_Length shape < 0
     then \<not> ok \<and> w' = w \<and> h' = h
     else ok \<and> (\<exists>full. Generate_decoy (me_sha E) (mimic_seed E h (ir_URL r)) shape = Inr full \<and>
       mimic_write r shape full w = Some w' \<and>
       h' = storeDecoy (me_now2 E) (ir_URL r)
         \<lparr>cd_Shape = shape, cd_Seed = mimic_seed E h (ir_URL r), cd_Hash = Sum256 (me_sha E) full\<rparr> h))"
proof (cases "Generate_decoy (me_sha E) (mimic_seed E h (ir_URL r)) shape")
  case (Inl e)
  then have "sh_Length shape < 0" using Generate_Inl_iff[of "me_sha E" "mimic_seed E h (ir_URL r)" shape] by simp
  with Inl show ?thesis by (auto simp: serve_shape_def Let_def)
next
  case (Inr full)
  then have "\<not> sh_Length shape < 0" using Generate_Inl_iff[of "me_sha E" "mimic_seed E h (ir_URL r)" shape] by simp
  moreover obtain w' where "mimic_write r shape full w = Some w'" using mimic_write_eq[OF assms] by blast
  ultimately show ?thesis using Inr by (auto simp: serve_shape_def Let_def)
qed

lemma lookup_handler_simps [simp]:
  "mh_allowVideo (snd (decoy_Lookup t u h)) = mh_allowVideo h" "mh_maxBytes (snd (decoy_Lookup t u h)) = mh_maxBytes h"
  "mh_mode (snd (decoy_Lookup t u h)) = mh_mode h" "mh_cacheMax (snd (decoy_Lookup t u h)) = mh_cacheMax h"
  by (simp_all add: decoy_Lookup_def split: option.split)

lemma store_handler_simps [simp]:
  "mh_allowVideo (storeDecoy t u d h) = mh_allowVideo h" "mh_maxBytes (storeDecoy t u d h) = mh_maxBytes h"
  "mh_mode (storeDecoy t u d h) = mh_mode h" "mh_cacheMax (storeDecoy t u d h) = mh_cacheMax h"
  by (simp_all add: storeDecoy_def)

text \<open>The shape a request is served with, from the cache or by a probe.\<close>

definition shape_for :: "mimic_env \<Rightarrow> intercept_request \<Rightarrow> Mimic_Handler \<Rightarrow> Shape option" where
  "shape_for E r h =
     (case lookup (mh_cache h) (ir_URL r) of
        Some e \<Rightarrow> Some (cd_Shape (en_decoy e))
      | None \<Rightarrow> new_shape (me_head E) r (mh_allowVideo h))"

lemma mimic_Serve_shape:
  "mimic_Serve E r w h =
     (let h1 = snd (decoy_Lookup (me_now E) (ir_URL r) h) in
      case shape_for E r h of None \<Rightarrow> Some (False, w, h1) | Some shape \<Rightarrow> serve_shape E r shape w h1)"
  by (auto simp: mimic_Serve_def shape_for_def decoy_Lookup_def Let_def split: option.splits)

lemma mimic_seed_lookup [simp]: "mimic_seed E (snd (decoy_Lookup t u h)) url = mimic_seed E h url"
  by (simp add: mimic_seed_def)

lemma new_shape_pos: "new_shape head r allow = Some shape \<Longrightarrow> 0 < sh_Length shape \<and> (sh_Media shape = MediaVideo \<longrightarrow> allow)"
  by (auto simp: new_shape_def defaultLength_def image_lengths Let_def split: if_splits)

lemma mimic_Serve_cases:
  assumes "\<not> hr_Wrote w"
  obtains (declined) h1 where "h1 = snd (decoy_Lookup (me_now E) (ir_URL r) h)" "mimic_Serve E r w h = Some (False, w, h1)"
      "\<And>shape. shape_for E r h = Some shape \<Longrightarrow> sh_Media shape = MediaVideo \<and> \<not> mh_allowVideo h \<or>
        mh_maxBytes h < sh_Length shape \<or> sh_Length shape < 0"
    | (served) h1 shape full w' where "h1 = snd (decoy_Lookup (me_now E) (ir_URL r) h)"
      "shape_for E r h = Some shape" "sh_Media shape = MediaVideo \<longrightarrow> mh_allowVideo h"
      "sh_Length shape \<le> mh_maxBytes h" "0 \<le> sh_Length shape"
      "Generate_decoy (me_sha E) (mimic_seed E h (ir_URL r)) shape = Inr full"
      "mimic_write r shape full w = Some w'"
      "mimic_Serve E r w h = Some (True, w', storeDecoy (me_now2 E) (ir_URL r)
         \<lparr>cd_Shape = shape, cd_Seed = mimic_seed E h (ir_URL r), cd_Hash = Sum256 (me_sha E) full\<rparr> h1)"
proof (cases "shape_for E r h")
  case None
  then show ?thesis using declined[OF refl] by (simp add: mimic_Serve_shape Let_def)
next
  case (Some shape)
  let ?h1 = "snd (decoy_Lookup (me_now E) (ir_URL r) h)"
  have "mimic_Serve E r w h = serve_shape E r shape w ?h1" using Some by (simp add: mimic_Serve_shape Let_def)
  with serve_shape_Some[OF assms, of E r shape ?h1] Some declined[OF refl] served[OF refl Some]
  show ?thesis by (auto split: if_splits)
qed

subsection \<open>Properties\<close>

text \<open>A decoy has exactly the length that was asked for, except where the medium has a minimum: a script
  of at most 18 bytes becomes the 12-byte no-op and an image no longer than the base image
  becomes the base image. Only a negative length is refused.\<close>

theorem decoy_has_the_length:
  "(isl (Generate_decoy sha seed shape) \<longleftrightarrow> sh_Length shape < 0) \<and>
   (\<forall>b. Generate_decoy sha seed shape = Inr b \<longrightarrow>
     (if sh_Media shape = MediaJS \<and> sh_Length shape \<le> 18 then b = js_noop
      else if sh_Media shape = MediaImage \<and> sh_Length shape \<le> int (length (image_base shape)) then b = image_base shape
      else int (length b) = sh_Length shape))"
proof (intro conjI allI impI)
  fix b assume b: "Generate_decoy sha seed shape = Inr b"
  from Generate_length[OF b] b
  show "if sh_Media shape = MediaJS \<and> sh_Length shape \<le> 18 then b = js_noop
      else if sh_Media shape = MediaImage \<and> sh_Length shape \<le> int (length (image_base shape)) then b = image_base shape
      else int (length b) = sh_Length shape"
    by (auto simp: Generate_decoy_def genJS_def genImage_def decoy_length_def js_lengths media_defs Let_def split: if_splits)
qed (rule Generate_Inl_iff)

theorem decoy_has_the_length_witness:
  "\<exists>b. Generate_decoy (\<lambda>_. []) ''/a.js'' \<lparr>sh_ContentType = [], sh_Length = 40, sh_Media = MediaJS\<rparr> = Inr b \<and> length b = 40"
proof -
  let ?s = "\<lparr>sh_ContentType = [], sh_Length = 40, sh_Media = MediaJS\<rparr>"
  obtain b where "Generate_decoy (\<lambda>_. []) ''/a.js'' ?s = Inr b"
    by (simp add: Generate_decoy_def)
  with decoy_has_the_length[of "\<lambda>_. []" "''/a.js''" ?s] show ?thesis by (simp add: media_defs)
qed

text \<open>A script decoy does nothing: it is the no-op, or a single comment, whose text has no byte that
  could end it, followed by the no-op.\<close>

theorem js_decoy_is_inert:
  assumes "sh_Media shape = MediaJS" "Generate_decoy sha seed shape = Inr b"
  shows "b = js_noop \<or> (\<exists>pad. b = ''/* '' @ pad @ ''*/'' @ [CHR 0x0A] @ js_noop \<and> CHR ''*'' \<notin> set pad \<and> CHR ''/'' \<notin> set pad)"
proof (cases "sh_Length shape \<le> 18")
  case True
  with assms show ?thesis by (auto simp: Generate_decoy_def genJS_def js_lengths Let_def split: if_splits)
next
  case False
  define pad where "pad = padText sha seed (sh_Length shape - 18)"
  have "b = ''/* '' @ pad @ ''*/'' @ [CHR 0x0A] @ js_noop"
    using False assms by (simp add: Generate_decoy_def genJS_def js_lengths Let_def js_prefix_def js_suffix_def pad_def split: if_splits)
  moreover have "set pad \<subseteq> set b64_alphabet" using False set_padText by (simp add: pad_def)
  moreover have "CHR ''*'' \<notin> set b64_alphabet" "CHR ''/'' \<notin> set b64_alphabet" by (simp_all add: b64_alphabet_def)
  ultimately show ?thesis by blast
qed

theorem js_decoy_is_inert_witness:
  "\<exists>b pad. Generate_decoy (\<lambda>_. []) ''/a.js'' \<lparr>sh_ContentType = [], sh_Length = 40, sh_Media = MediaJS\<rparr> = Inr b \<and>
     (b = js_noop \<or> b = ''/* '' @ pad @ ''*/'' @ [CHR 0x0A] @ js_noop \<and> CHR ''*'' \<notin> set pad)"
proof -
  let ?s = "\<lparr>sh_ContentType = [], sh_Length = 40, sh_Media = MediaJS\<rparr>"
  obtain b where b: "Generate_decoy (\<lambda>_. []) ''/a.js'' ?s = Inr b"
    by (simp add: Generate_decoy_def)
  with js_decoy_is_inert[OF _ b] show ?thesis by auto
qed



text \<open>Serving never panics, and it answers all or nothing: when it declines (video that is not opted in,
  a shape over the limit) nothing has been written and no decoy is stored; when it answers, the
  shape was allowed and within the limit.\<close>

theorem mimic_answers_or_declines:
  assumes "\<not> hr_Wrote w"
  shows "\<exists>ok w' h'. mimic_Serve E r w h = Some (ok, w', h') \<and>
    (\<not> ok \<longrightarrow> w' = w \<and> fst ` set (mh_cache h') = fst ` set (mh_cache h)) \<and>
    (ok \<longrightarrow> hr_Wrote w' \<and> (\<exists>shape. shape_for E r h = Some shape \<and> sh_Length shape \<le> mh_maxBytes h \<and>
       (sh_Media shape = MediaVideo \<longrightarrow> mh_allowVideo h)))"
  using assms
proof (cases rule: mimic_Serve_cases[where E = E and r = r and h = h])
  case (declined h1)
  have "fst ` set (mh_cache h1) = fst ` set (mh_cache h)"
    unfolding declined(1) by (auto simp: decoy_Lookup_def dom_update map_keys_iff split: option.split)
  with declined show ?thesis by (intro exI[of _ False]) simp
next
  case (served h1 shape full w')
  from mimic_write_eq[OF assms, of r shape full] served(7) have "hr_Wrote w'" by auto
  with served show ?thesis by (intro exI[of _ True] exI[of _ w']) auto
qed

definition ex_mimic_env :: mimic_env where
  "ex_mimic_env = \<lparr>me_sha = (\<lambda>s. s), me_head = (\<lambda>u h. Some (''text/javascript'', 9)), me_nonce = [], me_now = 5, me_now2 = 6\<rparr>"

definition ex_mimic :: Mimic_Handler where
  "ex_mimic = New_Mimic \<lparr>mo_MaxBytes = 0, mo_Mode = [], mo_AllowVideo = False, mo_CacheMax = 2\<rparr>"

definition ex_video_request :: intercept_request where
  "ex_video_request = \<lparr>ir_Method = ''GET'', ir_Host = ''ads.example'', ir_ServerName = None, ir_Path = ''/v.MP4'', ir_RawQuery = [],
     ir_URI = ''/v.MP4'', ir_URL = ''/v.MP4'', ir_Headers = []\<rparr>"

definition ex_pixel_request :: intercept_request where
  "ex_pixel_request = ex_video_request\<lparr>ir_Path := ''/p'', ir_URI := ''/p'', ir_URL := ''/p''\<rparr>"

theorem mimic_answers_or_declines_witness:
  "\<exists>h'. mimic_Serve ex_mimic_env ex_video_request blank_response ex_mimic = Some (False, blank_response, h')"
proof -
  have no: "shape_for ex_mimic_env ex_video_request ex_mimic = None" by code_simp
  have "\<not> hr_Wrote blank_response" by (simp add: blank_response_def)
  from mimic_answers_or_declines[OF this, of ex_mimic_env ex_video_request ex_mimic] no show ?thesis by force
qed

text \<open>Once a URL has been decoyed, every later request for it is answered from the same bytes, without
  asking the origin: whatever the origin would now say and whatever the host of the request, a
  plain request gets the whole body again and a range request that part of it.\<close>

theorem decoy_is_stable:
  assumes "mimic_ok h" "mh_mode h \<noteq> ModePerRequest"
    and clock: "\<forall>k e. lookup (mh_cache h) k = Some e \<longrightarrow> en_used e < me_now2 E"
    and first: "mimic_Serve E r blank_response h = Some (True, w1, h1)"
      "ir_Method r \<noteq> ''HEAD''" "header_get ''Range'' (ir_Headers r) = []"
    and again: "me_sha E' = me_sha E" "ir_URL r' = ir_URL r" "ir_Method r' \<noteq> ''HEAD''"
  shows "\<exists>w2 h2. mimic_Serve E' r' blank_response h1 = Some (True, w2, h2) \<and>
    hr_Status w2 = (if range_of r' (hr_Body w1) = None then 200 else 206) \<and>
    hr_Body w2 = part_of (range_of r' (hr_Body w1)) (hr_Body w1)"
proof -
  have blank: "\<not> hr_Wrote blank_response" "hr_Body blank_response = []" by (simp_all add: blank_response_def)
  from blank(1) show ?thesis
  proof (cases rule: mimic_Serve_cases[where E = E and r = r and h = h])
    case (declined h1')
    with first show ?thesis by simp
  next
    case (served h0 shape full w')
    let ?d = "\<lparr>cd_Shape = shape, cd_Seed = mimic_seed E h (ir_URL r), cd_Hash = Sum256 (me_sha E) full\<rparr>"
    have h1: "h1 = storeDecoy (me_now2 E) (ir_URL r) ?d h0" and "w' = w1" using served first by simp_all
    have "range_of r full = None" using first by (simp add: range_of_def parseRange_def HasPrefix_def)
    with mimic_write_eq[OF blank(1), of r shape full] served(7) first \<open>w' = w1\<close> blank
    have w1: "hr_Body w1 = full" by (auto simp: part_of_def)
    let ?e = "\<lparr>en_decoy = ?d, en_used = me_now2 E\<rparr>"
    have "mimic_ok h0" unfolding served(1) by (rule decoy_Lookup_ok[OF assms(1)])
    then have ok0: "wf_map (mh_cache h0)" "0 < mh_cacheMax h0" by (simp_all add: mimic_ok_def)
    have "lookup (mh_cache h0) k = lookup (mh_cache h) k" if "k \<noteq> ir_URL r" for k
      using that unfolding served(1) by (auto simp: decoy_Lookup_def split: option.split)
    then have "\<forall>k' e'. lookup (put (ir_URL r) ?e (mh_cache h0)) k' = Some e' \<and> k' \<noteq> ir_URL r \<longrightarrow> en_used e' < en_used ?e"
      using clock by simp
    with ok0 have "lookup (mh_cache h1) (ir_URL r) = Some ?e"
      unfolding h1 storeDecoy_def by (simp add: lru_keeps_newest)
    then have shape': "shape_for E' r' h1 = Some shape" using again by (simp add: shape_for_def)
    have same: "mimic_seed E' h1 (ir_URL r') = mimic_seed E h (ir_URL r)"
      "mh_allowVideo h1 = mh_allowVideo h" "mh_maxBytes h1 = mh_maxBytes h"
      using assms(2) again unfolding h1 served(1) by (simp_all add: mimic_seed_def)
    from blank(1) show ?thesis
    proof (cases rule: mimic_Serve_cases[where E = E' and r = r' and h = h1])
      case (declined h3)
      with shape' served same show ?thesis by auto
    next
      case (served h3 shape2 full2 w2)
      with shape' same again \<open>Generate_decoy (me_sha E) (mimic_seed E h (ir_URL r)) shape = Inr full\<close>
      have "full2 = full" by simp
      with mimic_write_eq[OF blank(1), of r' shape2 full2] served again blank w1 show ?thesis by auto
    qed
  qed
qed

inductive mimic_reaches :: "(string \<Rightarrow> string) \<Rightarrow> mimic_options \<Rightarrow> Mimic_Handler \<Rightarrow> bool" for sha o1 where
  start: "mimic_reaches sha o1 (New_Mimic o1)"
| serve: "\<lbrakk>mimic_reaches sha o1 h; me_sha E = sha; \<not> hr_Wrote w; mimic_Serve E r w h = Some (ok, w', h')\<rbrakk> \<Longrightarrow>
    mimic_reaches sha o1 h'"
| look: "\<lbrakk>mimic_reaches sha o1 h; decoy_Lookup now url h = (d, h')\<rbrakk> \<Longrightarrow> mimic_reaches sha o1 h'"

definition true_decoy :: "(string \<Rightarrow> string) \<Rightarrow> bool \<Rightarrow> int \<Rightarrow> CachedDecoy \<Rightarrow> bool" where
  "true_decoy sha allow limit d \<longleftrightarrow>
     decoy_Hash sha (cd_Seed d) (cd_Shape d) = Inr (cd_Hash d) \<and> sh_Length (cd_Shape d) \<le> limit \<and>
     (sh_Media (cd_Shape d) = MediaVideo \<longrightarrow> allow)"

definition decoys_true :: "(string \<Rightarrow> string) \<Rightarrow> Mimic_Handler \<Rightarrow> bool" where
  "decoys_true sha h \<longleftrightarrow>
     (\<forall>url e. lookup (mh_cache h) url = Some e \<longrightarrow> true_decoy sha (mh_allowVideo h) (mh_maxBytes h) (en_decoy e))"

lemma decoys_true_lookup: "decoys_true sha h \<Longrightarrow> decoys_true sha (snd (decoy_Lookup now url h))"
  by (auto simp: decoys_true_def decoy_Lookup_def split: option.splits)

lemma decoys_true_store:
  assumes "mimic_ok h" "decoys_true sha h" "true_decoy sha (mh_allowVideo h) (mh_maxBytes h) d"
  shows "decoys_true sha (storeDecoy now url d h)"
proof -
  let ?m = "put url \<lparr>en_decoy = d, en_used = now\<rparr> (mh_cache h)"
  have wf: "wf_map ?m" using assms(1) by (simp add: mimic_ok_def)
  have sub: "k = url \<and> e = \<lparr>en_decoy = d, en_used = now\<rparr> \<or> lookup (mh_cache h) k = Some e"
    if "lookup (mh_cache (storeDecoy now url d h)) k = Some e" for k e
  proof -
    have "lookup ?m k = Some e" using that by (intro lru_evict_sub[OF wf]) (simp add: storeDecoy_def)
    then show ?thesis by (auto split: if_splits)
  qed
  show ?thesis unfolding decoys_true_def store_handler_simps
  proof (intro allI impI)
    fix k e assume "lookup (mh_cache (storeDecoy now url d h)) k = Some e"
    from sub[OF this] assms(2,3) show "true_decoy sha (mh_allowVideo h) (mh_maxBytes h) (en_decoy e)"
      by (auto simp: decoys_true_def)
  qed
qed

lemma mimic_reaches_inv: "mimic_reaches sha o1 h \<Longrightarrow> mimic_ok h \<and> decoys_true sha h"
proof (induction rule: mimic_reaches.induct)
  case start
  then show ?case by (simp add: New_Mimic_ok) (simp add: decoys_true_def New_Mimic_def)
next
  case (serve h E w r ok w' h')
  then have h0: "mimic_ok (snd (decoy_Lookup (me_now E) (ir_URL r) h))" "decoys_true sha (snd (decoy_Lookup (me_now E) (ir_URL r) h))"
    by (auto intro: decoy_Lookup_ok decoys_true_lookup)
  from serve(3) show ?case
  proof (cases rule: mimic_Serve_cases[where E = E and r = r and h = h])
    case (declined h1)
    with h0 serve show ?thesis by simp
  next
    case (served h1 shape full w1)
    have "true_decoy sha (mh_allowVideo h1) (mh_maxBytes h1)
        \<lparr>cd_Shape = shape, cd_Seed = mimic_seed E h (ir_URL r), cd_Hash = Sum256 (me_sha E) full\<rparr>"
      using served(3-6) serve(2) by (simp add: true_decoy_def decoy_Hash_def served(1))
    with h0 served serve show ?thesis by (auto intro: storeDecoy_ok decoys_true_store)
  qed
next
  case (look h now url d h')
  then have "h' = snd (decoy_Lookup now url h)" by simp
  with look show ?case by (simp add: decoy_Lookup_ok decoys_true_lookup)
qed


lemma ex_mimic_serves:
  "case mimic_Serve ex_mimic_env ex_pixel_request blank_response ex_mimic of
     None \<Rightarrow> False | Some (b, w, h) \<Rightarrow> b \<and> length (hr_Body w) = 12 \<and> fst (decoy_Lookup 7 ''/p'' h) \<noteq> None"
  by code_simp


theorem decoy_is_stable_witness:
  "\<exists>w1 h1 w2 h2. mimic_Serve ex_mimic_env ex_pixel_request blank_response ex_mimic = Some (True, w1, h1) \<and>
     mimic_Serve (ex_mimic_env\<lparr>me_head := \<lambda>_ _. None\<rparr>)
       (ex_pixel_request\<lparr>ir_Host := ''other.example'', ir_Headers := [(''Range'', [''bytes=2-4''])]\<rparr>) blank_response h1 =
       Some (True, w2, h2) \<and> hr_Body w2 = take 3 (drop 2 (hr_Body w1))"
proof -
  let ?r = "ex_pixel_request\<lparr>ir_Host := ''other.example'', ir_Headers := [(''Range'', [''bytes=2-4''])]\<rparr>"
  from ex_mimic_serves obtain w1 h1 where
    s: "mimic_Serve ex_mimic_env ex_pixel_request blank_response ex_mimic = Some (True, w1, h1)" "length (hr_Body w1) = 12"
    by (auto split: option.splits)
  have "CanonicalHeaderKey ''Range'' = ''Range''" by code_simp
  then have rng: "header_get ''Range'' (ir_Headers ?r) = ''bytes=2-4''" by (simp add: header_get_def get_or_def)
  have "mimic_ok ex_mimic" "mh_mode ex_mimic \<noteq> ModePerRequest" "mh_cache ex_mimic = []"
    by (simp_all add: ex_mimic_def New_Mimic_ok) (simp_all add: New_Mimic_def ModeDeterministic_def ModePerRequest_def)
  with decoy_is_stable[OF _ _ _ s(1), of "ex_mimic_env\<lparr>me_head := \<lambda>_ _. None\<rparr>" ?r]
  obtain w2 h2 where w2: "mimic_Serve (ex_mimic_env\<lparr>me_head := \<lambda>_ _. None\<rparr>) ?r blank_response h1 = Some (True, w2, h2)"
      "hr_Body w2 = part_of (range_of ?r (hr_Body w1)) (hr_Body w1)"
    by (auto simp: ex_pixel_request_def ex_video_request_def header_get_def get_or_def)
  have "parseRange ''bytes=2-4'' 12 = Some (2, 4)" by code_simp
  with rng s(2) have "range_of ?r (hr_Body w1) = Some (2, 4)" by (simp add: range_of_def)
  with s w2 show ?thesis by (auto simp: part_of_def)
qed

text \<open>An end before the start is not checked: the slice panics.\<close>

lemma generate_range_can_panic:
  "GenerateRange sha seed \<lparr>sh_ContentType = [], sh_Length = 9, sh_Media = MediaJS\<rparr> 5 2 = Panic"
  by (simp add: GenerateRange_def Generate_decoy_def genJS_def js_lengths go_slice_def)

end
