(* ===== verification/Forward.thy ===== *)
theory Forward
  imports Go_Http Resolver
begin

text \<open>
  Forwarding to the real origin: \<^verbatim>\<open>internal/forward/forward.go\<close>.

  The forwarder is a \<^verbatim>\<open>httputil.ReverseProxy\<close> with three hooks of its own: \<open>rewriteTo\<close> for
  the outgoing request, \<open>modifyResponse\<close> for the answer, and an error handler. What the proxy
  itself does to the headers and the query (the section on the reverse proxy) is modelled from
  the standard library; upgrades to other protocols, trailers and 1xx answers are not. The
  transport is an argument. A response body is the bytes that can be read and whether reading
  them ends in an error.
\<close>

subsection \<open>Requests and responses on the way\<close>

record out_request =
  or_Method :: string
  or_Scheme :: string
  or_URLHost :: string
  or_Host :: string
  or_Path :: string
  or_RawQuery :: string
  or_Headers :: headers

record upstream_response =
  ur_Status :: int
  ur_Headers :: headers
  ur_ContentLength :: int
  ur_Body :: string
  ur_ReadFails :: bool

subsection \<open>Scrubbing\<close>

definition htmlModifyLimit :: int where
  "htmlModifyLimit = 4194304"

definition defaultScrubbedUA :: string where
  "defaultScrubbedUA =
     ''Mozilla/5.0 (X11; Linux x86_64) AppleWebKit/537.36 (KHTML, like Gecko) Chrome/136.0.0.0 Safari/537.36''"

definition trackingIDParams :: "string list" where
  "trackingIDParams =
     [''uid'', ''user_id'', ''userid'', ''cid'', ''client_id'',
      ''clientid'', ''gid'', ''did'', ''device_id'', ''deviceid'',
      ''fbp'', ''fbc'', ''ga'', ''_ga'', ''gclid'', ''idfa'',
      ''aaid'', ''advertising_id'', ''sessionid'', ''session_id'']"

definition trackingHeaders :: "string list" where
  "trackingHeaders =
     [''Cookie'', ''Referer'', ''Referrer'', ''X-Forwarded-For'', ''X-Forwarded-Host'',
      ''X-Forwarded-Proto'', ''X-Real-Ip'', ''X-Client-Ip'', ''X-Device-Id'', ''X-User-Id'',
      ''X-Request-Id'', ''Dnt'', ''Sec-Ch-Ua-Platform-Version'', ''Sec-Ch-Ua-Model'']"

definition trackingStems :: "string list" where
  "trackingStems = [''amzn'', ''ad'', ''track'', ''analytics'', ''telemetry'', ''beacon'', ''fingerprint'']"

text \<open>\<^verbatim>\<open>(?i)^(x-)?(amzn|ad|track|analytics|telemetry|beacon|fingerprint)\<close> on header names.\<close>

definition customTrackingHeader :: "string \<Rightarrow> bool" where
  "customTrackingHeader name \<longleftrightarrow>
     list_ex (\<lambda>st. HasPrefix (ToLower name) st \<or> HasPrefix (ToLower name) (''x-'' @ st)) trackingStems"

definition scrub_headers :: "string \<Rightarrow> headers \<Rightarrow> headers" where
  "scrub_headers ua h0 =
     (let h1 = foldl (\<lambda>h k. header_del k h) h0 trackingHeaders;
          h2 = foldl (\<lambda>h k. if customTrackingHeader k then header_del k h else h) h1 (map fst h1)
      in header_set ''User-Agent'' ua h2)"

definition scrub_query :: "string \<Rightarrow> string" where
  "scrub_query raw =
     (let q = ParseQuery raw;
          tracked = filter (\<lambda>k. ToLower k \<in> set trackingIDParams) (map fst q)
      in if tracked = [] then raw else Values_Encode (foldl (\<lambda>m k. del k m) q tracked))"

definition scrubRequest :: "string \<Rightarrow> out_request \<Rightarrow> out_request" where
  "scrubRequest ua r =
     r\<lparr>or_Headers := scrub_headers ua (or_Headers r), or_RawQuery := scrub_query (or_RawQuery r)\<rparr>"

definition fwd_hostOnly :: "string \<Rightarrow> string" where
  "fwd_hostOnly h = (case SplitHostPort h of Inr (host, _) \<Rightarrow> host | Inl _ \<Rightarrow> h)"

definition rewriteTo :: "bool \<Rightarrow> string \<Rightarrow> string \<Rightarrow> out_request \<Rightarrow> out_request" where
  "rewriteTo scrub ua authority out =
     (let o1 = out\<lparr>or_Scheme := ''https'', or_URLHost := authority, or_Host := fwd_hostOnly authority,
                   or_Headers := header_del ''X-Forwarded-For'' (or_Headers out)\<rparr>
      in if scrub then scrubRequest ua o1 else o1)"

subsection \<open>Answers\<close>

definition isRewritable :: "string \<Rightarrow> bool" where
  "isRewritable ct0 \<longleftrightarrow>
     (let ct = ToLower ct0 in
      HasPrefix ct ''text/html'' \<or> Contains ct ''json'' \<or> Contains ct ''dash+xml'' \<or> Contains ct ''mpegurl'')"

text \<open>A modifier may keep a state, which is passed through.\<close>

type_synonym 's body_modifier = "string \<Rightarrow> string \<Rightarrow> 's \<Rightarrow> (string \<times> bool) \<times> 's"

definition rewriteBody :: "'s body_modifier \<Rightarrow> upstream_response \<Rightarrow> 's \<Rightarrow> upstream_response \<times> 's" where
  "rewriteBody md resp s =
     (let ct = header_get ''Content-Type'' (ur_Headers resp) in
      if \<not> isRewritable ct then (resp, s)
      else if header_get ''Content-Encoding'' (ur_Headers resp) \<noteq> [] then (resp, s)
      else if ur_ContentLength resp < 0 \<or> htmlModifyLimit < ur_ContentLength resp then (resp, s)
      else
        (let over = htmlModifyLimit \<le> int (length (ur_Body resp));
             body = take (nat htmlModifyLimit) (ur_Body resp)
         in if ur_ReadFails resp \<and> \<not> over then (resp\<lparr>ur_Body := body, ur_ReadFails := False\<rparr>, s)
            else
              (case md ct body s of
                 ((newBody0, changed), s') \<Rightarrow>
                   (let newBody = (if changed then newBody0 else body) in
                    (resp\<lparr>ur_Body := newBody, ur_ReadFails := False, ur_ContentLength := int (length newBody),
                         ur_Headers := header_set ''Content-Length'' (show_nat (length newBody)) (ur_Headers resp)\<rparr>,
                     s')))))"

definition modifyResponse ::
  "bool \<Rightarrow> 's body_modifier option \<Rightarrow> upstream_response \<Rightarrow> 's \<Rightarrow> upstream_response \<times> 's" where
  "modifyResponse scrub md resp s =
     (let r1 = (if scrub
                then resp\<lparr>ur_Headers := header_del ''Nel'' (header_del ''Report-To'' (header_del ''P3p''
                       (header_del ''Set-Cookie'' (ur_Headers resp))))\<rparr>
                else resp)
      in case md of None \<Rightarrow> (r1, s) | Some f \<Rightarrow> rewriteBody f r1 s)"

subsection \<open>The reverse proxy\<close>

text \<open>The hop-by-hop headers: those the \<^verbatim>\<open>Connection\<close> header names, then the fixed ones.\<close>

fun split_comma :: "string \<Rightarrow> string \<Rightarrow> string list" where
  "split_comma cur [] = [cur]"
| "split_comma cur (c # s) = (if c = CHR '','' then cur # split_comma [] s else split_comma (cur @ [c]) s)"

definition hopHeaders :: "string list" where
  "hopHeaders = [''Connection'', ''Proxy-Connection'', ''Keep-Alive'', ''Proxy-Authenticate'', ''Proxy-Authorization'',
     ''Te'', ''Trailer'', ''Transfer-Encoding'', ''Upgrade'']"

definition removeHopByHopHeaders :: "headers \<Rightarrow> headers" where
  "removeHopByHopHeaders h =
     (let named = filter (\<lambda>f. f \<noteq> []) (map TrimSpace (concat (map (split_comma []) (get_or [] h ''Connection''))))
      in foldl (\<lambda>h k. header_del k h) h (named @ hopHeaders))"

fun query_clean :: "string \<Rightarrow> bool" where
  "query_clean [] \<longleftrightarrow> True"
| "query_clean (c # s) \<longleftrightarrow>
     (if c = CHR '';'' then False
      else if c = CHR ''%'' then
        (case s of a # b # s' \<Rightarrow> is_hex a \<and> is_hex b \<and> query_clean s' | _ \<Rightarrow> False)
      else query_clean s)"

definition cleanQueryParams :: "string \<Rightarrow> string" where
  "cleanQueryParams s = (if query_clean s then s else Values_Encode (ParseQuery s))"

definition proxy_request :: "intercept_request \<Rightarrow> out_request" where
  "proxy_request r =
     (let h1 = removeHopByHopHeaders (ir_Headers r);
          h2 = foldl (\<lambda>h k. header_del k h) h1 [''Forwarded'', ''X-Forwarded-For'', ''X-Forwarded-Host'', ''X-Forwarded-Proto'']
      in \<lparr>or_Method = ir_Method r, or_Scheme = [], or_URLHost = [], or_Host = ir_Host r, or_Path = ir_Path r,
          or_RawQuery = cleanQueryParams (ir_RawQuery r), or_Headers = h2\<rparr>)"

text \<open>A \<^verbatim>\<open>User-Agent\<close> the client did not send is set to the empty string after the rewrite.\<close>

definition keep_agent_out :: "out_request \<Rightarrow> out_request" where
  "keep_agent_out r =
     (if lookup (or_Headers r) ''User-Agent'' = None
      then r\<lparr>or_Headers := header_set ''User-Agent'' [] (or_Headers r)\<rparr> else r)"

definition copyHeader :: "headers \<Rightarrow> headers \<Rightarrow> headers" where
  "copyHeader dst src = foldl (\<lambda>h (k, vs). foldl (\<lambda>h v. header_add k v h) h vs) dst src"

definition proxy_answer :: "upstream_response \<Rightarrow> http_response \<Rightarrow> http_response" where
  "proxy_answer resp w =
     (let w1 = (if hr_Wrote w then w else w\<lparr>hr_Headers := copyHeader (hr_Headers w) (ur_Headers resp)\<rparr>);
          w2 = write_header (ur_Status resp) w1
      in if ur_Body resp = [] then w2 else write_body (ur_Body resp) w2)"

record 's Forwarder =
  fw_ua :: string
  fw_modifier :: "'s body_modifier option"

definition New_Forwarder :: "string \<Rightarrow> 's body_modifier option \<Rightarrow> 's Forwarder" where
  "New_Forwarder scrubbedUA md =
     (let ua = TrimSpace scrubbedUA in \<lparr>fw_ua = (if ua = [] then defaultScrubbedUA else ua), fw_modifier = md\<rparr>)"

type_synonym transport = "out_request \<Rightarrow> error + upstream_response"
text \<open>The error handler gets the outgoing request.\<close>

type_synonym fail_safe = "out_request \<Rightarrow> error \<Rightarrow> http_response \<Rightarrow> http_response"

definition outgoing :: "'s Forwarder \<Rightarrow> bool \<Rightarrow> intercept_request \<Rightarrow> out_request" where
  "outgoing f scrub r = keep_agent_out (rewriteTo scrub (if scrub then fw_ua f else []) (ir_Host r) (proxy_request r))"

text \<open>The result says whether the error handler ran.\<close>

definition forward_with ::
  "'s Forwarder \<Rightarrow> bool \<Rightarrow> transport \<Rightarrow> fail_safe \<Rightarrow> intercept_request \<Rightarrow> http_response \<Rightarrow> 's \<Rightarrow>
     bool \<times> http_response \<times> 's" where
  "forward_with f scrub tr onError r w s =
     (case tr (outgoing f scrub r) of
        Inl e \<Rightarrow> (True, onError (outgoing f scrub r) e w, s)
      | Inr resp \<Rightarrow>
          (case modifyResponse scrub (fw_modifier f)
             (resp\<lparr>ur_Headers := removeHopByHopHeaders (ur_Headers resp)\<rparr>) s of
             (resp', s') \<Rightarrow> (False, proxy_answer resp' w, s')))"

definition Asis ::
  "'s Forwarder \<Rightarrow> transport \<Rightarrow> fail_safe \<Rightarrow> intercept_request \<Rightarrow> http_response \<Rightarrow> 's \<Rightarrow> bool \<times> http_response \<times> 's" where
  "Asis f = forward_with f False"

definition Scrubbed ::
  "'s Forwarder \<Rightarrow> transport \<Rightarrow> fail_safe \<Rightarrow> intercept_request \<Rightarrow> http_response \<Rightarrow> 's \<Rightarrow> bool \<times> http_response \<times> 's" where
  "Scrubbed f = forward_with f True"

subsection \<open>Facts about header names\<close>

definition canonical_headers :: "headers \<Rightarrow> bool" where
  "canonical_headers h \<longleftrightarrow> (\<forall>k\<in>fst ` set h. CanonicalHeaderKey k = k)"

lemma del_headers_keys: "fst ` set (foldl (\<lambda>h k. header_del k h) h ks) = fst ` set h - CanonicalHeaderKey ` set ks"
  by (induction ks arbitrary: h) (auto simp: header_keys)

lemma del_headers_get:
  "header_get k (foldl (\<lambda>h k. header_del k h) h ks) =
     (if CanonicalHeaderKey k \<in> CanonicalHeaderKey ` set ks then [] else header_get k h)"
  by (induction ks arbitrary: h) auto

lemma del_headers_lookup:
  "lookup (foldl (\<lambda>h k. header_del k h) h ks) k = (if k \<in> CanonicalHeaderKey ` set ks then None else lookup h k)"
  by (induction ks arbitrary: h) (auto simp: header_del_def)

lemma del_custom_lookup:
  "lookup (foldl (\<lambda>h k. if P k then header_del k h else h) h ks) k =
     (if k \<in> CanonicalHeaderKey ` {k\<in>set ks. P k} then None else lookup h k)"
  by (induction ks arbitrary: h) (auto simp: header_del_def)

lemma tracking_canonical: "list_all (\<lambda>k. CanonicalHeaderKey k = k) trackingHeaders"
  by code_simp

lemma agent_canonical: "CanonicalHeaderKey ''User-Agent'' = ''User-Agent''"
  by code_simp

lemma agent_untracked: "''User-Agent'' \<notin> set trackingHeaders" "\<not> customTrackingHeader ''User-Agent''"
  by code_simp+

text \<open>Scrubbing keeps exactly the headers that do not track, and sets the agent.\<close>

lemma scrub_headers_lookup:
  assumes "canonical_headers h"
  shows "lookup (scrub_headers ua h) k =
    (if k = ''User-Agent'' then Some [ua]
     else if k \<in> set trackingHeaders \<or> customTrackingHeader k then None else lookup h k)"
proof -
  let ?h1 = "foldl (\<lambda>h k. header_del k h) h trackingHeaders"
  have canon: "CanonicalHeaderKey ` set trackingHeaders = set trackingHeaders"
    using tracking_canonical by (auto simp: list_all_iff image_iff)
  have h1: "lookup ?h1 k = (if k \<in> set trackingHeaders then None else lookup h k)" for k
    unfolding del_headers_lookup canon by simp
  have keys: "fst ` set ?h1 = fst ` set h - set trackingHeaders" unfolding del_headers_keys canon by simp
  have "CanonicalHeaderKey ` {k \<in> set (map fst ?h1). customTrackingHeader k} = {k \<in> fst ` set ?h1. customTrackingHeader k}"
    using assms keys by (force simp: canonical_headers_def image_iff)
  then have h2: "lookup (foldl (\<lambda>h k. if customTrackingHeader k then header_del k h else h) ?h1 (map fst ?h1)) k =
      (if k \<in> fst ` set ?h1 \<and> customTrackingHeader k then None else lookup ?h1 k)"
    unfolding del_custom_lookup by simp
  show ?thesis
    unfolding scrub_headers_def Let_def header_set_def agent_canonical lookup_put h2
    using h1 by (auto simp: map_keys_iff)
qed

subsection \<open>Facts about the query\<close>

lemma del_keys_lookup: "lookup (foldl (\<lambda>m k. del k m) q ks) k = (if k \<in> set ks then None else lookup q k)"
  by (induction ks arbitrary: q) auto

lemma wf_del_keys: "wf_map q \<Longrightarrow> wf_map (foldl (\<lambda>m k. del k m) q ks)"
  by (induction ks arbitrary: q) auto

text \<open>The scrubbed query: the tracking parameters have no value, every other has the values it had.\<close>

lemma scrub_query_values:
  "get_or [] (ParseQuery (scrub_query raw)) k =
     (if ToLower k \<in> set trackingIDParams then [] else get_or [] (ParseQuery raw) k)"
proof -
  let ?q = "ParseQuery raw"
  let ?t = "filter (\<lambda>k. ToLower k \<in> set trackingIDParams) (map fst ?q)"
  show ?thesis
  proof (cases "?t = []")
    case True
    then have "lookup ?q k = None" if "ToLower k \<in> set trackingIDParams"
      using that by (auto simp: filter_empty_conv map_of_eq_None_iff)
    with True show ?thesis by (simp add: scrub_query_def Let_def get_or_def)
  next
    case False
    have "k \<in> set ?t \<longleftrightarrow> lookup ?q k \<noteq> None \<and> ToLower k \<in> set trackingIDParams"
      using map_keys_iff[of k ?q] by auto
    with False show ?thesis
      unfolding scrub_query_def Let_def
      by (simp add: ParseQuery_Encode wf_del_keys) (auto simp: get_or_def del_keys_lookup split: option.split)
  qed
qed

lemma canonical_del: "canonical_headers h \<Longrightarrow> canonical_headers (foldl (\<lambda>h k. header_del k h) h ks)"
  unfolding canonical_headers_def del_headers_keys by blast

lemma canonical_removeHop: "canonical_headers h \<Longrightarrow> canonical_headers (removeHopByHopHeaders h)"
  unfolding removeHopByHopHeaders_def Let_def by (rule canonical_del)

lemma cleanQueryParams_values: "get_or [] (ParseQuery (cleanQueryParams raw)) k = get_or [] (ParseQuery raw) k"
  by (simp add: cleanQueryParams_def ParseQuery_Encode)

lemma forwarded_canonical:
  "CanonicalHeaderKey ''Forwarded'' = ''Forwarded''" "CanonicalHeaderKey ''X-Forwarded-For'' = ''X-Forwarded-For''"
  "CanonicalHeaderKey ''X-Forwarded-Host'' = ''X-Forwarded-Host''"
  "CanonicalHeaderKey ''X-Forwarded-Proto'' = ''X-Forwarded-Proto''"
  by code_simp+

lemma canonical_header_del: "canonical_headers h \<Longrightarrow> canonical_headers (header_del k h)"
  by (auto simp: canonical_headers_def header_keys)

lemma canonical_proxy: "canonical_headers (ir_Headers r) \<Longrightarrow> canonical_headers (or_Headers (proxy_request r))"
  unfolding proxy_request_def Let_def by (auto intro!: canonical_header_del canonical_removeHop)

lemma proxy_headers_lookup:
  "lookup (or_Headers (proxy_request r)) k =
     (if k \<in> {''Forwarded'', ''X-Forwarded-For'', ''X-Forwarded-Host'', ''X-Forwarded-Proto''} then None
      else lookup (removeHopByHopHeaders (ir_Headers r)) k)"
  unfolding proxy_request_def Let_def out_request.simps del_headers_lookup by (simp add: forwarded_canonical)

subsection \<open>Properties\<close>

text \<open>C13: A scrubbed request tells the origin none of the identifying data: no header of the fixed list or
  of a vendor's shape, the substitute agent in place of the client's, no query parameter of the
  identifier list in any spelling of case; every other parameter keeps the values it had.\<close>

theorem scrubbed_request_hides_identity:
  assumes "canonical_headers (ir_Headers r)"
  shows "let out = outgoing f True r in
    (\<forall>k. k \<in> set trackingHeaders \<or> customTrackingHeader k \<longrightarrow> lookup (or_Headers out) k = None) \<and>
    lookup (or_Headers out) ''User-Agent'' = Some [fw_ua f] \<and>
    (\<forall>k. get_or [] (ParseQuery (or_RawQuery out)) k =
       (if ToLower k \<in> set trackingIDParams then [] else get_or [] (ParseQuery (ir_RawQuery r)) k))"
proof -
  let ?h = "header_del ''X-Forwarded-For'' (or_Headers (proxy_request r))"
  have can: "canonical_headers ?h" using assms by (intro canonical_header_del canonical_proxy)
  have out: "or_Headers (outgoing f True r) = scrub_headers (fw_ua f) ?h"
    using scrub_headers_lookup[OF can, of "fw_ua f" "''User-Agent''"]
    by (simp add: outgoing_def rewriteTo_def scrubRequest_def keep_agent_out_def Let_def)
  have q: "or_RawQuery (outgoing f True r) = scrub_query (cleanQueryParams (ir_RawQuery r))"
    by (simp add: outgoing_def rewriteTo_def scrubRequest_def keep_agent_out_def Let_def proxy_request_def)
  show ?thesis
    unfolding Let_def out q scrub_headers_lookup[OF can] scrub_query_values cleanQueryParams_values
    using agent_untracked by auto
qed

definition ex_tracked_request :: intercept_request where
  "ex_tracked_request = \<lparr>ir_Method = ''GET'', ir_Host = ''ads.example'', ir_ServerName = None, ir_Path = ''/p'',
     ir_RawQuery = ''UID=7&x=1'', ir_URI = ''/p'', ir_URL = ''/p'',
     ir_Headers = [(''Cookie'', [''id=1'']), (''X-Track-Id'', [''9'']), (''Accept'', [''*''])]\<rparr>"

theorem scrubbed_request_hides_identity_witness:
  "lookup (or_Headers (outgoing (New_Forwarder [] None :: unit Forwarder) True ex_tracked_request)) ''X-Track-Id'' = None \<and>
   get_or [] (ParseQuery (or_RawQuery (outgoing (New_Forwarder [] None :: unit Forwarder) True ex_tracked_request))) ''UID'' = []"
proof -
  have can: "canonical_headers (ir_Headers ex_tracked_request)"
  proof -
    have "list_all (\<lambda>k. CanonicalHeaderKey k = k) (map fst (ir_Headers ex_tracked_request))" by code_simp
    then show ?thesis by (simp add: canonical_headers_def list_all_iff)
  qed
  have "customTrackingHeader ''X-Track-Id''" "ToLower ''UID'' \<in> set trackingIDParams" by code_simp+
  with scrubbed_request_hides_identity[OF can, of "New_Forwarder [] None :: unit Forwarder"] show ?thesis by (simp add: Let_def)
qed

text \<open>A request forwarded as it is goes to the host it names over HTTPS with its method, path and every
  query value; of its headers only the hop-by-hop and forwarding ones are dropped, and an agent
  the client did not send stays empty.\<close>

theorem asis_request_is_unchanged:
  "let out = outgoing f False r in
   or_Method out = ir_Method r \<and> or_Path out = ir_Path r \<and> or_Scheme out = ''https'' \<and> or_URLHost out = ir_Host r \<and>
   or_Host out = fwd_hostOnly (ir_Host r) \<and>
   (\<forall>k. get_or [] (ParseQuery (or_RawQuery out)) k = get_or [] (ParseQuery (ir_RawQuery r)) k) \<and>
   (\<forall>k. k \<notin> {''Forwarded'', ''X-Forwarded-For'', ''X-Forwarded-Host'', ''X-Forwarded-Proto'', ''User-Agent''} \<longrightarrow>
      lookup (or_Headers out) k = lookup (removeHopByHopHeaders (ir_Headers r)) k)"
proof -
  have h: "lookup (header_del ''X-Forwarded-For'' (or_Headers (proxy_request r))) k =
      lookup (removeHopByHopHeaders (ir_Headers r)) k"
    if "k \<notin> {''Forwarded'', ''X-Forwarded-For'', ''X-Forwarded-Host'', ''X-Forwarded-Proto''}" for k
    using that by (auto simp: header_del_def forwarded_canonical proxy_headers_lookup)
  show ?thesis
    using h by (auto simp: outgoing_def rewriteTo_def keep_agent_out_def Let_def header_set_def agent_canonical
        proxy_request_def cleanQueryParams_values)
qed

text \<open>A body is only touched when it may be (markup or a manifest, uncompressed, of a known length within
  the limit), and when it has been read in full the length announced, in the header and in the
  response, is the length of the bytes sent; without a change they are the bytes received.\<close>

theorem rewritten_body_is_consistent:
  assumes "fst (rewriteBody md resp s) \<noteq> resp" "\<not> ur_ReadFails resp"
  shows "isRewritable (header_get ''Content-Type'' (ur_Headers resp)) \<and>
    header_get ''Content-Encoding'' (ur_Headers resp) = [] \<and> ur_ContentLength resp \<in> {0..htmlModifyLimit} \<and>
    (let out = fst (rewriteBody md resp s); body = take (nat htmlModifyLimit) (ur_Body resp);
         result = fst (md (header_get ''Content-Type'' (ur_Headers resp)) body s) in
      ur_ContentLength out = int (length (ur_Body out)) \<and>
      header_get ''Content-Length'' (ur_Headers out) = show_nat (length (ur_Body out)) \<and>
      ur_Body out = (if snd result then fst result else body) \<and>
      ur_Status out = ur_Status resp)"
  using assms by (auto simp: rewriteBody_def Let_def split: prod.splits if_splits)

definition ex_page :: upstream_response where
  "ex_page = \<lparr>ur_Status = 200, ur_Headers = [(''Content-Type'', [''text/html''])], ur_ContentLength = 3,
     ur_Body = ''abc'', ur_ReadFails = False\<rparr>"

theorem rewritten_body_is_consistent_witness:
  "header_get ''Content-Length'' (ur_Headers (fst (rewriteBody (\<lambda>_ b s. ((b @ b, True), s)) ex_page ()))) = show_nat 6"
proof -
  let ?md = "\<lambda>(_ :: string) b (s :: unit). ((b @ b :: string, True), s)"
  have "isRewritable (header_get ''Content-Type'' (ur_Headers ex_page))" "header_get ''Content-Encoding'' (ur_Headers ex_page) = []"
    by code_simp+
  then have "ur_ContentLength (fst (rewriteBody ?md ex_page ())) = 6"
    by (simp add: rewriteBody_def Let_def) (simp add: ex_page_def htmlModifyLimit_def)
  then have ne: "fst (rewriteBody ?md ex_page ()) \<noteq> ex_page" by (auto simp: ex_page_def)
  have nf: "\<not> ur_ReadFails ex_page" by (simp add: ex_page_def)
  have "take (nat htmlModifyLimit) ''abc'' = ''abc''" by (simp add: htmlModifyLimit_def)
  with rewritten_body_is_consistent[OF ne nf] show ?thesis by (simp add: Let_def ex_page_def eval_nat_numeral)
qed

text \<open>The answer to a HEAD request has a length and no body: it is announced as empty.\<close>

lemma head_answer_loses_its_length:
  assumes "isRewritable (header_get ''Content-Type'' (ur_Headers resp))"
    "header_get ''Content-Encoding'' (ur_Headers resp) = []" "0 < ur_ContentLength resp"
    "ur_ContentLength resp \<le> htmlModifyLimit" "ur_Body resp = []" "\<not> ur_ReadFails resp" "\<not> snd (fst (md (header_get ''Content-Type'' (ur_Headers resp)) [] s))"
  shows "header_get ''Content-Length'' (ur_Headers (fst (rewriteBody md resp s))) = show_nat 0"
  using assms
  by (cases "md (header_get ''Content-Type'' (ur_Headers resp)) [] s")
    (auto simp: rewriteBody_def Let_def htmlModifyLimit_def split: prod.splits)

lemma add_values_keys: "fst ` set (foldl (\<lambda>h v. header_add k v h) h vs) \<subseteq> insert (CanonicalHeaderKey k) (fst ` set h)"
proof (induction vs arbitrary: h)
  case (Cons v vs)
  have "fst ` set (header_add k v h) = insert (CanonicalHeaderKey k) (fst ` set h)"
    by (simp add: header_add_def dom_update)
  with Cons[of "header_add k v h"] show ?case by simp
qed auto

lemma copyHeader_keys: "fst ` set (copyHeader dst src) \<subseteq> fst ` set dst \<union> CanonicalHeaderKey ` fst ` set src"
  unfolding copyHeader_def
proof (induction src arbitrary: dst)
  case (Cons kv src)
  obtain k vs where [simp]: "kv = (k, vs)" by (cases kv)
  from Cons[of "foldl (\<lambda>h v. header_add k v h) dst vs"] add_values_keys[of k dst vs] show ?case by auto
qed simp

lemma answer_del_canonical:
  "CanonicalHeaderKey ''Set-Cookie'' = ''Set-Cookie''" "CanonicalHeaderKey ''P3p'' = ''P3p''"
  "CanonicalHeaderKey ''Report-To'' = ''Report-To''" "CanonicalHeaderKey ''Nel'' = ''Nel''"
  "CanonicalHeaderKey ''Content-Length'' = ''Content-Length''"
  by code_simp+

lemma rewriteBody_keys: "fst ` set (ur_Headers (fst (rewriteBody md resp s))) \<subseteq> insert ''Content-Length'' (fst ` set (ur_Headers resp))"
  by (auto simp: rewriteBody_def Let_def header_set_def answer_del_canonical dom_update split: prod.splits)

text \<open>The answer to a scrubbed request sets no cookie and no reporting endpoint, whatever the origin
  sent; when the origin cannot be reached the error handler answers, and the caller is told.\<close>

theorem scrubbed_answer_sets_no_cookie:
  assumes "\<forall>resp. tr (outgoing f True r) = Inr resp \<longrightarrow> canonical_headers (ur_Headers resp)"
  shows "case Scrubbed f tr onError r blank_response s of (failed, w, s') \<Rightarrow>
    (failed \<longleftrightarrow> isl (tr (outgoing f True r))) \<and>
    (failed \<longrightarrow> w = onError (outgoing f True r) (projl (tr (outgoing f True r))) blank_response) \<and>
    (\<not> failed \<longrightarrow> hr_Wrote w \<and> (\<forall>k\<in>{''Set-Cookie'', ''P3p'', ''Report-To'', ''Nel''}. lookup (hr_Headers w) k = None))"
proof (cases "tr (outgoing f True r)")
  case (Inl e)
  then show ?thesis by (simp add: Scrubbed_def forward_with_def)
next
  case (Inr resp)
  define resp1 where "resp1 = resp\<lparr>ur_Headers := removeHopByHopHeaders (ur_Headers resp)\<rparr>"
  define out where "out = fst (modifyResponse True (fw_modifier f) resp1 s)"
  let ?bad = "{''Set-Cookie'', ''P3p'', ''Report-To'', ''Nel''}"
  have can: "canonical_headers (ur_Headers resp1)" using assms Inr by (simp add: resp1_def canonical_removeHop)
  let ?h = "header_del ''Nel'' (header_del ''Report-To'' (header_del ''P3p'' (header_del ''Set-Cookie'' (ur_Headers resp1))))"
  have h: "fst ` set ?h = fst ` set (ur_Headers resp1) - ?bad" by (auto simp: header_keys answer_del_canonical)
  have out_h: "fst ` set (ur_Headers out) \<subseteq> insert ''Content-Length'' (fst ` set ?h)"
  proof (cases "fw_modifier f")
    case (Some md)
    then show ?thesis using rewriteBody_keys[of md "resp1\<lparr>ur_Headers := ?h\<rparr>" s]
      by (simp add: out_def modifyResponse_def Let_def)
  qed (auto simp: out_def modifyResponse_def Let_def)
  have "CanonicalHeaderKey ` fst ` set (ur_Headers out) \<inter> ?bad = {}"
    using out_h h can answer_del_canonical by (fastforce simp: canonical_headers_def)
  then have "fst ` set (copyHeader [] (ur_Headers out)) \<inter> ?bad = {}"
    using copyHeader_keys[of "[]" "ur_Headers out"] by auto
  then have "\<forall>k\<in>?bad. lookup (copyHeader [] (ur_Headers out)) k = None" by (auto simp: map_of_eq_None_iff)
  moreover obtain s' where m: "modifyResponse True (fw_modifier f) resp1 s = (out, s')"
    by (cases "modifyResponse True (fw_modifier f) resp1 s") (simp add: out_def)
  ultimately show ?thesis using Inr
    by (simp add: Scrubbed_def forward_with_def m proxy_answer_def Let_def blank_response_def write_body_def flip: resp1_def)
qed

theorem scrubbed_answer_sets_no_cookie_witness:
  "fst (Scrubbed (New_Forwarder [] None) (\<lambda>_. Inr (ex_page\<lparr>ur_Headers := [(''Set-Cookie'', [''id=1''])]\<rparr>)) (\<lambda>_ _ w. w)
     ex_tracked_request blank_response ()) = False \<and>
   lookup (hr_Headers (fst (snd (Scrubbed (New_Forwarder [] None) (\<lambda>_. Inr (ex_page\<lparr>ur_Headers := [(''Set-Cookie'', [''id=1''])]\<rparr>)) (\<lambda>_ _ w. w)
     ex_tracked_request blank_response ())))) ''Set-Cookie'' = None"
proof -
  let ?tr = "\<lambda>(_ :: out_request). Inr (ex_page\<lparr>ur_Headers := [(''Set-Cookie'', [''id=1''])]\<rparr>) :: error + upstream_response"
  let ?f = "New_Forwarder [] None :: unit Forwarder"
  have "\<forall>resp. ?tr (outgoing ?f True ex_tracked_request) = Inr resp \<longrightarrow> canonical_headers (ur_Headers resp)"
    by (simp add: canonical_headers_def answer_del_canonical)
  from scrubbed_answer_sets_no_cookie[where tr = ?tr and f = ?f and r = ex_tracked_request
      and onError = "\<lambda>_ _ w. w" and s = "()", OF this]
  show ?thesis
    by (cases "Scrubbed ?f ?tr (\<lambda>_ _ w. w) ex_tracked_request blank_response ()") simp
qed

text \<open>A forward leaves a state as good as the modifier does.\<close>

lemma rewriteBody_state:
  assumes "\<And>ct b s. P s \<Longrightarrow> P (snd (md ct b s))" "P s"
  shows "P (snd (rewriteBody md resp s))"
  using assms unfolding rewriteBody_def by (simp add: Let_def split_beta)

lemma forward_state:
  assumes "\<And>md ct b s. fw_modifier f = Some md \<Longrightarrow> P s \<Longrightarrow> P (snd (md ct b s))" "P s"
  shows "P (snd (snd (forward_with f scrub tr oe r w s)))"
proof (cases "tr (outgoing f scrub r)")
  case (Inr resp)
  have "P (snd (modifyResponse scrub (fw_modifier f) x s))" for x
    using assms by (cases "fw_modifier f") (simp_all add: modifyResponse_def rewriteBody_state)
  with Inr show ?thesis by (simp add: forward_with_def split_beta)
qed (simp add: forward_with_def assms(2))

end
