(* ===== verification/HashRewrite.thy ===== *)
theory HashRewrite
  imports Go_Codec
begin

text \<open>
  The rewriting of integrity references: \<^verbatim>\<open>internal/hashrewrite/hashrewrite.go\<close>.

  Its regular expressions are written out as matchers that find what the leftmost-first search
  of package \<^verbatim>\<open>regexp\<close> finds. Each has one way to match at a position: what follows a greedy
  run never belongs to its class, and the lazy run of the JSON expression is the shortest one
  whose continuation matches. Case folding is that of ASCII. A hasher may keep a state.
\<close>

subsection \<open>Matching\<close>

definition ci_prefix :: "string \<Rightarrow> string \<Rightarrow> bool" where
  "ci_prefix p s \<longleftrightarrow> HasPrefix (ToLower s) p"

definition word_char :: "char \<Rightarrow> bool" where
  "word_char c \<longleftrightarrow>
     (let n = (of_char c :: nat) in 48 \<le> n \<and> n \<le> 57 \<or> 65 \<le> n \<and> n \<le> 90 \<or> 97 \<le> n \<and> n \<le> 122) \<or> c = CHR ''_''"

definition re_space :: "char \<Rightarrow> bool" where
  "re_space c \<longleftrightarrow> (of_char c :: nat) \<in> {9, 10, 12, 13, 32}"

definition dq :: char where "dq = CHR 0x22"
definition sq1 :: char where "sq1 = CHR 0x27"

text \<open>\<^verbatim>\<open>(?is)<(script|link)\b[^>]*>\<close>: the length of a match at the start of the text.\<close>

definition tag_len :: "string \<Rightarrow> nat option" where
  "tag_len s =
     (if s = [] \<or> hd s \<noteq> CHR ''<'' then None
      else
        (case find (\<lambda>n. ci_prefix n (tl s)) [''script'', ''link''] of
           None \<Rightarrow> None
         | Some n \<Rightarrow>
             (let r = drop (length n) (tl s) in
              if r = [] \<or> word_char (hd r) \<or> CHR ''>'' \<notin> set r then None
              else Some (1 + length n + length (takeWhile (\<lambda>c. c \<noteq> CHR ''>'') r) + 1))))"

text \<open>\<^verbatim>\<open>name\s*=\s*("([^"]*)"|'([^']*)')\<close> at the start of the text: the value and the length.\<close>

definition attr_at :: "string list \<Rightarrow> string \<Rightarrow> (string \<times> nat) option" where
  "attr_at names s =
     (case find (\<lambda>n. ci_prefix n s) names of
        None \<Rightarrow> None
      | Some n \<Rightarrow>
          (let r1 = dropWhile re_space (drop (length n) s) in
           if r1 = [] \<or> hd r1 \<noteq> CHR ''='' then None
           else
             (let r2 = dropWhile re_space (tl r1) in
              if r2 = [] \<or> (hd r2 \<noteq> dq \<and> hd r2 \<noteq> sq1) \<or> hd r2 \<notin> set (tl r2) then None
              else
                (let v = takeWhile (\<lambda>c. c \<noteq> hd r2) (tl r2) in
                 Some (v, length s - length (drop (length v + 1) (tl r2)))))))"

text \<open>The leftmost one that starts at a word boundary, with the offsets of the match.\<close>

fun find_attr :: "string list \<Rightarrow> bool \<Rightarrow> nat \<Rightarrow> string \<Rightarrow> (string \<times> nat \<times> nat) option" where
  "find_attr names pw i [] = None"
| "find_attr names pw i (c # s) =
     (case (if pw then None else attr_at names (c # s)) of
        Some (v, n) \<Rightarrow> Some (v, i, i + n)
      | None \<Rightarrow> find_attr names (word_char c) (i + 1) s)"

text \<open>\<^verbatim>\<open>ReplaceAllFunc\<close> for expressions that match no empty text.\<close>

function replace_all ::
  "(string \<Rightarrow> nat option) \<Rightarrow> (string \<Rightarrow> 's \<Rightarrow> string \<times> 's) \<Rightarrow> string \<Rightarrow> 's \<Rightarrow> string \<times> 's" where
  "replace_all mt f [] st = ([], st)"
| "replace_all mt f (c # s) st =
     (case mt (c # s) of
        Some n \<Rightarrow>
          (let (m, st1) = f (take (max 1 n) (c # s)) st;
               (rest, st2) = replace_all mt f (drop (max 1 n) (c # s)) st1
           in (m @ rest, st2))
      | None \<Rightarrow> (let (rest, st1) = replace_all mt f s st in (c # rest, st1)))"
  by pat_completeness auto
termination
  by (relation "measure (\<lambda>(mt, f, s, st). length s)") (auto simp: max_def)

type_synonym 's hasher = "string \<Rightarrow> 's \<Rightarrow> string option \<times> 's"

definition hr_Integrity :: "string \<Rightarrow> string" where
  "hr_Integrity digest = ''sha256-'' @ StdEncode digest"

subsection \<open>Markup\<close>

definition rewrite_tag :: "'s hasher \<Rightarrow> string \<Rightarrow> 's \<times> nat \<Rightarrow> string \<times> 's \<times> nat" where
  "rewrite_tag h tag sn =
     (case find_attr [''src'', ''href''] False 0 tag of
        None \<Rightarrow> (tag, sn)
      | Some (src, _, _) \<Rightarrow>
          if src = [] then (tag, sn)
          else
            (case find_attr [''integrity''] False 0 tag of
               None \<Rightarrow> (tag, sn)
             | Some (_, a, b) \<Rightarrow>
                 (case h src (fst sn) of
                    (None, s') \<Rightarrow> (tag, s', snd sn)
                  | (Some new, s') \<Rightarrow>
                      (take a tag @ ''integrity='' @ [dq] @ new @ [dq] @ drop b tag, s', snd sn + 1))))"

definition RewriteSRI :: "'s hasher \<Rightarrow> string \<Rightarrow> 's \<Rightarrow> string \<times> 's \<times> nat" where
  "RewriteSRI h html s = replace_all tag_len (rewrite_tag h) html (s, 0)"

subsection \<open>JSON\<close>

text \<open>A quoted name, a colon, and the quote that opens the value: what follows it.\<close>

definition json_open :: "string list \<Rightarrow> string \<Rightarrow> (string \<times> string) option" where
  "json_open names s =
     (case find (\<lambda>n. ci_prefix ([dq] @ n @ [dq]) s) names of
        None \<Rightarrow> None
      | Some n \<Rightarrow>
          (let r1 = dropWhile re_space (drop (length n + 2) s) in
           if r1 = [] \<or> hd r1 \<noteq> CHR '':'' then None
           else
             (let r2 = dropWhile re_space (tl r1) in
              if r2 = [] \<or> hd r2 \<noteq> dq then None
              else Some (take (length n) (tl s), tl r2))))"

text \<open>\<^verbatim>\<open>"integrity"\s*:\s*"([^"]*)"\<close>: the text after it.\<close>

definition json_tail :: "string \<Rightarrow> string option" where
  "json_tail s =
     (case json_open [''integrity''] s of
        None \<Rightarrow> None
      | Some (_, r) \<Rightarrow> if dq \<notin> set r then None else Some (tl (dropWhile (\<lambda>c. c \<noteq> dq) r)))"

fun json_mid :: "string \<Rightarrow> string \<Rightarrow> (string \<times> string) option" where
  "json_mid acc [] = None"
| "json_mid acc (c # s) =
     (case json_tail (c # s) of
        Some rest \<Rightarrow> Some (acc, rest)
      | None \<Rightarrow> if c = CHR 0x7B \<or> c = CHR 0x7D then None else json_mid (acc @ [c]) s)"

text \<open>Key, value, the text between, and the rest after a match at the start.\<close>

definition json_at :: "string \<Rightarrow> (string \<times> string \<times> string \<times> string) option" where
  "json_at s =
     (case json_open [''url'', ''src'', ''uri''] s of
        None \<Rightarrow> None
      | Some (key, r) \<Rightarrow>
          (let v = takeWhile (\<lambda>c. c \<noteq> dq) r in
           if v = [] \<or> dq \<notin> set r then None
           else
             (case json_mid [] (drop (length v + 1) r) of
                None \<Rightarrow> None
              | Some (mid, rest) \<Rightarrow> Some (key, v, mid, rest))))"

definition json_len :: "string \<Rightarrow> nat option" where
  "json_len s = (case json_at s of None \<Rightarrow> None | Some (_, _, _, rest) \<Rightarrow> Some (length s - length rest))"

definition rewrite_json :: "'s hasher \<Rightarrow> string \<Rightarrow> 's \<times> nat \<Rightarrow> string \<times> 's \<times> nat" where
  "rewrite_json h m sn =
     (case json_at m of
        None \<Rightarrow> (m, sn)
      | Some (key, url, mid, _) \<Rightarrow>
          (case h url (fst sn) of
             (None, s') \<Rightarrow> (m, s', snd sn)
           | (Some new, s') \<Rightarrow>
               ([dq] @ key @ [dq] @ '':'' @ [dq] @ url @ [dq] @ mid @ [dq] @ ''integrity'' @ [dq] @ '':'' @ [dq] @ new @ [dq],
                s', snd sn + 1)))"

definition RewriteJSONIntegrity :: "'s hasher \<Rightarrow> string \<Rightarrow> 's \<Rightarrow> string \<times> 's \<times> nat" where
  "RewriteJSONIntegrity h body s = replace_all json_len (rewrite_json h) body (s, 0)"

subsection \<open>Facts\<close>

text \<open>The matches cut the text into pieces without losing a byte; only the matches change.\<close>

definition matched :: "(string \<Rightarrow> nat option) \<Rightarrow> string \<Rightarrow> bool" where
  "matched mt m \<longleftrightarrow> (\<exists>rest n. mt (m @ rest) = Some n \<and> m = take (max 1 n) (m @ rest))"

lemma replace_all_pieces:
  assumes "\<And>m st. fst (f m st) = m \<or> R m (fst (f m st))"
  shows "\<exists>ps. s = concat (map fst ps) \<and> fst (replace_all mt f s st) = concat (map snd ps) \<and>
    (\<forall>(a, b)\<in>set ps. a = b \<or> (matched mt a \<and> R a b))"
  using assms
proof (induction mt f s st rule: replace_all.induct)
  case (1 mt f st)
  show ?case by (intro exI[of _ "[]"]) simp
next
  case (2 mt f c s st)
  show ?case
  proof (cases "mt (c # s)")
    case None
    from 2(1)[OF None 2(3)] obtain ps where ps: "s = concat (map fst ps)" "fst (replace_all mt f s st) = concat (map snd ps)"
      "\<forall>(a, b)\<in>set ps. a = b \<or> (matched mt a \<and> R a b)" by blast
    then show ?thesis using None by (intro exI[of _ "([c], [c]) # ps"]) (simp add: split_beta)
  next
    case (Some n)
    let ?m = "take (max 1 n) (c # s)"
    from 2(2)[OF Some refl _ 2(3), of "fst (f ?m st)" "snd (f ?m st)"] obtain ps where
      ps: "drop (max 1 n) (c # s) = concat (map fst ps)"
      "fst (replace_all mt f (drop (max 1 n) (c # s)) (snd (f ?m st))) = concat (map snd ps)"
      "\<forall>(a, b)\<in>set ps. a = b \<or> (matched mt a \<and> R a b)" by auto
    have "c # s = ?m @ concat (map fst ps)" unfolding ps(1)[symmetric] by (rule append_take_drop_id[symmetric])
    then have "c # s = concat (map fst ((?m, fst (f ?m st)) # ps))" by (simp only: list.map concat.simps fst_conv)
    moreover have "fst (replace_all mt f (c # s) st) = concat (map snd ((?m, fst (f ?m st)) # ps))"
      using Some ps(2) by (simp add: split_beta Let_def)
    moreover have "matched mt ?m"
      unfolding matched_def using Some
      by (intro exI[of _ "drop (max 1 n) (c # s)"] exI[of _ n]) (simp only: append_take_drop_id)
    ultimately show ?thesis using ps(3) 2(3)[of ?m st] by (intro exI[of _ "(?m, fst (f ?m st)) # ps"]) auto
  qed
qed

lemma replace_all_id: "(\<And>m st. f m st = (m, st)) \<Longrightarrow> replace_all mt f s st = (s, st)"
proof (induction mt f s st rule: replace_all.induct)
  case (2 mt f c s st)
  then show ?case by (auto split: option.split simp: Let_def simp del: take_Suc drop_Suc)
qed simp

lemma replace_all_state:
  assumes "\<And>m st. P st \<Longrightarrow> P (snd (f m st))"
  shows "P st \<Longrightarrow> P (snd (replace_all mt f s st))"
  using assms
proof (induction mt f s st rule: replace_all.induct)
  case (2 mt f c s st)
  show ?case
  proof (cases "mt (c # s)")
    case None
    then show ?thesis using 2(1)[OF None 2(3,4)] by (simp add: split_beta)
  next
    case (Some n)
    let ?m = "take (max 1 n) (c # s)"
    have "P (snd (f ?m st))" using 2(3,4) by blast
    then have "P (snd (replace_all mt f (drop (max 1 n) (c # s)) (snd (f ?m st))))"
      using 2(2)[OF Some refl prod.collapse] 2(4) by blast
    then show ?thesis using Some by (simp add: split_beta Let_def del: take_Suc drop_Suc)
  qed
qed simp

text \<open>A rewriting leaves the state as good as the hasher does.\<close>

lemma rewriting_state:
  assumes "\<And>u s. P s \<Longrightarrow> P (snd (h u s))" "P s"
  shows "P (fst (snd (RewriteSRI h html s)))" "P (fst (snd (RewriteJSONIntegrity h html s)))"
proof -
  have h: "h u st = (x, s') \<Longrightarrow> P st \<Longrightarrow> P s'" for u st x s' using assms(1)[of st u] by simp
  have "P (fst st) \<Longrightarrow> P (fst (snd (rewrite_tag h m st)))" "P (fst st) \<Longrightarrow> P (fst (snd (rewrite_json h m st)))" for m st
    by (auto simp: rewrite_tag_def rewrite_json_def split: option.split prod.split dest: h)
  then show "P (fst (snd (RewriteSRI h html s)))" "P (fst (snd (RewriteJSONIntegrity h html s)))"
    using replace_all_state[of "\<lambda>st. P (fst st)" "rewrite_tag h" "(s, 0)" tag_len html]
      replace_all_state[of "\<lambda>st. P (fst st)" "rewrite_json h" "(s, 0)" json_len html] assms(2)
    by (simp_all add: RewriteSRI_def RewriteJSONIntegrity_def split_beta)
qed

definition tag_rewritten :: "'s hasher \<Rightarrow> string \<Rightarrow> string \<Rightarrow> bool" where
  "tag_rewritten h tag out \<longleftrightarrow>
     (\<exists>src a b st new. find_attr [''src'', ''href''] False 0 tag = Some (src, a, b) \<and> src \<noteq> [] \<and>
        fst (h src st) = Some new \<and>
        (\<exists>v i j. find_attr [''integrity''] False 0 tag = Some (v, i, j) \<and>
           out = take i tag @ ''integrity='' @ [dq] @ new @ [dq] @ drop j tag))"

lemma rewrite_tag_cases: "fst (rewrite_tag h tag sn) = tag \<or> tag_rewritten h tag (fst (rewrite_tag h tag sn))"
proof (cases "find_attr [''src'', ''href''] False 0 tag")
  case (Some x)
  obtain src a b where x: "x = (src, a, b)" by (cases x)
  show ?thesis
  proof (cases "src = []")
    case False
    show ?thesis
    proof (cases "find_attr [''integrity''] False 0 tag")
      case (Some y)
      obtain v i j where y: "y = (v, i, j)" by (cases y)
      obtain r s' where h: "h src (fst sn) = (r, s')" by (cases "h src (fst sn)")
      show ?thesis
      proof (cases r)
        case None
        with Some y \<open>find_attr [''src'', ''href''] False 0 tag = Some x\<close> x False h show ?thesis by (simp add: rewrite_tag_def)
      next
        case (Some new)
        with y \<open>find_attr [''integrity''] False 0 tag = Some y\<close> \<open>find_attr [''src'', ''href''] False 0 tag = Some x\<close> x False h
        have "tag_rewritten h tag (fst (rewrite_tag h tag sn))"
          unfolding tag_rewritten_def
          by (intro exI[of _ src] exI[of _ a] exI[of _ b] exI[of _ "fst sn"] exI[of _ new]) (simp add: rewrite_tag_def)
        then show ?thesis ..
      qed
    qed (simp add: rewrite_tag_def Some x)
  qed (simp add: rewrite_tag_def Some x)
qed (simp add: rewrite_tag_def)

subsection \<open>Properties\<close>



text \<open>When no address of a page or manifest was decoyed, it is forwarded byte for byte and reported
  unchanged.\<close>

theorem nothing_decoyed_nothing_rewritten:
  assumes "\<And>u s. h u s = (None, s)"
  shows "RewriteSRI h html s = (html, s, 0) \<and> RewriteJSONIntegrity h html s = (html, s, 0)"
proof -
  have "rewrite_tag h m st = (m, st)" for m st
    by (auto simp: rewrite_tag_def assms split: option.split)
  then have sri: "RewriteSRI h html s = (html, s, 0)" by (simp add: RewriteSRI_def replace_all_id)
  have "rewrite_json h m st = (m, st)" for m st
    by (auto simp: rewrite_json_def assms split: option.split)
  with sri show ?thesis by (simp add: RewriteJSONIntegrity_def replace_all_id)
qed

theorem nothing_decoyed_nothing_rewritten_witness:
  "RewriteSRI (\<lambda>u s. (None, s :: unit)) ''<link href=a>'' () = (''<link href=a>'', (), 0)"
  using nothing_decoyed_nothing_rewritten[of "\<lambda>u s. (None, s :: unit)"] by simp

text \<open>An attribute whose name only ends in \<open>src\<close> is taken for the address.\<close>

definition ex_tag :: string where
  "ex_tag = ''<script data-src='' @ [dq] @ ''/a.js'' @ [dq] @ '' src='' @ [dq] @ ''/b.js'' @ [dq] @ '' integrity='' @ [dq] @ ''x'' @ [dq] @ ''>''"

lemma data_src_is_taken: "map_option fst (find_attr [''src'', ''href''] False 0 ex_tag) = Some ''/a.js''"
  by code_simp

lemma ex_tag_rewritten:
  "RewriteSRI (\<lambda>u s. (if u = ''/a.js'' then Some ''y'' else None, s :: unit)) ex_tag () =
   (''<script data-src='' @ [dq] @ ''/a.js'' @ [dq] @ '' src='' @ [dq] @ ''/b.js'' @ [dq] @ '' integrity='' @ [dq] @ ''y'' @ [dq] @ ''>'', (), 1)"
  by code_simp

end
