(* ===== verification/Server.thy ===== *)
theory Server
  imports Engine Breaker RuleStore Config Observability StubCatalog Mimic Forward HashRewrite
begin

text \<open>
  The request path of \<^verbatim>\<open>internal/server/server.go\<close>: the decision for a request (policy,
  verified stubs, the profile for unknown URLs, the stub-only gate), the circuit breaker around
  the action, and the record of what was done.

  The state holds what the handler reads and writes, each through the model of its own theory.
  The outside world is the record \<open>server_env\<close>: the transport of the forwarder and the HEAD
  client of the mimic handler, each over the resolver it was built with, SHA-256, the random
  nonce, \<^verbatim>\<open>url.Parse\<close> and one clock reading for each place that reads the clock. The request
  body, and so its limit, is not modelled.
\<close>

record Server =
  sv_cfg :: Config
  sv_engine :: Engine
  sv_breaker :: breaker
  sv_limiter :: "rateLimiter option"
  sv_cat :: Catalog
  sv_fwdUA :: string
  sv_fwdRes :: "upstream list"
  sv_mimic :: Mimic_Handler
  sv_mimicRes :: "upstream list"
  sv_resolver :: "upstream list"
  sv_rules :: "RStore option"
  sv_recorder :: Recorder

record server_env =
  se_clock :: "nat \<Rightarrow> time"
  se_transport :: "upstream list \<Rightarrow> transport"
  se_head :: "upstream list \<Rightarrow> head_client"
  se_sha :: "string \<Rightarrow> string"
  se_nonce :: string
  se_request_uri :: "string \<Rightarrow> string option"

definition safeDefaultStub :: string where
  "safeDefaultStub = ''beacon-204''"

subsection \<open>The decision\<close>

definition hostname :: "intercept_request \<Rightarrow> string" where
  "hostname r =
     (let h = (if ir_Host r = [] then (case ir_ServerName r of None \<Rightarrow> [] | Some n \<Rightarrow> n) else ir_Host r) in
      case SplitHostPort h of Inr (host, _) \<Rightarrow> host | Inl _ \<Rightarrow> h)"

definition stubOnlyGate :: "string \<Rightarrow> Decision \<Rightarrow> Decision \<times> bool" where
  "stubOnlyGate m d =
     (if m \<noteq> ''stub-only'' \<or> d_Action d = ActionStub then (d, False)
      else (d\<lparr>d_Action := ActionStub, d_Catalog := (if d_Catalog d = [] then safeDefaultStub else d_Catalog d)\<rparr>, True))"

definition verifiedJSStubDecision :: "Entry option \<Rightarrow> string \<Rightarrow> Catalog \<Rightarrow> Decision option" where
  "verifiedJSStubDecision meta domain cat =
     (case meta of
        None \<Rightarrow> None
      | Some e \<Rightarrow>
          (case VerifiedStubCatalog e domain of
             None \<Rightarrow> None
           | Some name \<Rightarrow>
               Some \<lparr>d_Action = ActionStub,
                     d_Catalog = (if Catalog_Get cat name = None then safeDefaultStub else name),
                     d_Rule = ''catalog:'' @ en_ID e, d_Matched = False\<rparr>))"

definition inferResourceType :: "string \<Rightarrow> string" where
  "inferResourceType path =
     (let p = ToLower path in
      if HasSuffix p ''.js'' then ''script''
      else if HasSuffix p ''.gif'' \<or> HasSuffix p ''.png'' \<or> HasSuffix p ''.jpg'' \<or> HasSuffix p ''.jpeg'' \<or> Contains p ''pixel''
      then ''tracking_pixel''
      else if Contains p ''beacon'' \<or> Contains p ''collect'' \<or> Contains p ''ping'' then ''beacon''
      else if HasSuffix p ''.json'' \<or> Contains p ''/api/'' then ''api_json''
      else ''domain'')"

definition profileDirective :: "UnknownProfileConfig \<Rightarrow> string \<Rightarrow> string \<Rightarrow> Entry option \<Rightarrow> string" where
  "profileDirective cfg profile res meta =
     (let a = (if profile = ''balanced'' then up_Balanced cfg
               else if profile = ''aggressive'' then up_Aggressive cfg else up_Safe cfg)
      in if (case meta of None \<Rightarrow> False | Some e \<Rightarrow> en_Risk e = ''high'') \<and> res = ''domain'' then ua_SuspiciousDomain a
         else if res \<in> {''image'', ''tracking_pixel'', ''pixel''} then ua_TrackingPixel a
         else if res = ''beacon'' then ua_Beacon a
         else if res \<in> {''script'', ''javascript''} then ua_Javascript a
         else if res \<in> {''json'', ''api_json''} then ua_APIJSON a
         else ua_SuspiciousDomain a)"

definition directiveDecision :: "string \<Rightarrow> (string \<times> string) option" where
  "directiveDecision directive =
     (if directive \<in> {''observe'', ''forward'', ''candidate-log''} then Some (ActionForwardAsis, [])
      else if HasPrefix directive ''stub:'' then Some (ActionStub, TrimPrefix directive ''stub:'')
      else None)"

definition unknownFallback :: "UnknownProfileConfig \<Rightarrow> Entry option \<Rightarrow> string \<Rightarrow> Decision option" where
  "unknownFallback cfg meta path =
     (if \<not> up_Enabled cfg then None
      else
        (let profile = (if up_Default cfg = [] then ''safe'' else up_Default cfg);
             rt = (case meta of
                     Some e \<Rightarrow> if en_ResourceType e \<noteq> [] then en_ResourceType e else inferResourceType path
                   | None \<Rightarrow> inferResourceType path);
             directive = profileDirective cfg profile rt meta
         in if directive = [] then None
            else
              (case directiveDecision directive of
                 None \<Rightarrow> None
               | Some (action, catalog) \<Rightarrow>
                   Some \<lparr>d_Action = action, d_Catalog = catalog, d_Rule = ''unknown:'' @ profile @ '':'' @ rt,
                         d_Matched = False\<rparr>)))"

definition rule_meta :: "string \<Rightarrow> string \<Rightarrow> Server \<Rightarrow> Entry option" where
  "rule_meta domain path s = (case sv_rules s of None \<Rightarrow> None | Some rs \<Rightarrow> rc_Lookup domain path rs)"

text \<open>From the policy's decision to the one that is acted on.\<close>

definition refine_decision :: "string \<Rightarrow> string \<Rightarrow> Server \<Rightarrow> Decision \<Rightarrow> Decision" where
  "refine_decision domain path s d0 =
     (let meta = rule_meta domain path s;
          d1 = (if d_Matched d0 then d0
                else case verifiedJSStubDecision meta domain (sv_cat s) of
                       Some fd \<Rightarrow> fd
                     | None \<Rightarrow>
                         (case unknownFallback (c_UnknownProfile (sv_cfg s)) meta path of Some fd \<Rightarrow> fd | None \<Rightarrow> d0))
      in fst (stubOnlyGate (c_Mode (sv_cfg s)) d1))"

subsection \<open>Hooks of the forwarder\<close>

definition hash_hasher :: "server_env \<Rightarrow> Mimic_Handler hasher" where
  "hash_hasher E src h =
     (let key = (case se_request_uri E src of None \<Rightarrow> src | Some u \<Rightarrow> u) in
      case decoy_Lookup (se_clock E 5) key h of
        (None, h') \<Rightarrow> (None, h')
      | (Some d, h') \<Rightarrow> (Some (hr_Integrity (cd_Hash d)), h'))"

definition rewriteHashes :: "server_env \<Rightarrow> Mimic_Handler body_modifier" where
  "rewriteHashes E contentType body h =
     (case RewriteSRI (hash_hasher E) body h of
        (out1, h1, n1) \<Rightarrow>
          (case RewriteJSONIntegrity (hash_hasher E) out1 h1 of
             (out2, h2, n2) \<Rightarrow> ((out2, 0 < n1 + n2), h2)))"

definition server_forwarder :: "server_env \<Rightarrow> Server \<Rightarrow> Mimic_Handler Forwarder" where
  "server_forwarder E s = New_Forwarder (sv_fwdUA s) (Some (rewriteHashes E))"

text \<open>The handler of an upstream error answers the outgoing request, as the proxy passes it on.\<close>

definition failed_request :: "intercept_request \<Rightarrow> out_request \<Rightarrow> intercept_request" where
  "failed_request r out = r\<lparr>ir_Method := or_Method out, ir_Host := or_Host out, ir_Headers := or_Headers out\<rparr>"

definition forwardFailSafe :: "Server \<Rightarrow> intercept_request \<Rightarrow> fail_safe" where
  "forwardFailSafe s r out e w = stub_Serve (failed_request r out) (Some (sv_cat s)) safeDefaultStub w"

subsection \<open>The record\<close>

definition enrichRecord :: "LogRecord \<Rightarrow> Entry \<Rightarrow> LogRecord" where
  "enrichRecord rec e =
     rec\<lparr>lr_CatalogID := en_ID e, lr_CatalogSource := src_Type (en_Source e), lr_Category := en_Category e,
         lr_Layer := en_Layer e, lr_ResourceType := en_ResourceType e, lr_Risk := en_Risk e,
         lr_Confidence := en_Confidence e, lr_ReviewStatus := en_ReviewStatus e, lr_Verified := en_Verified e,
         lr_RewriteState := en_RewriteState e, lr_CNAMETarget := en_CNAMETarget e,
         lr_TrackerVendor := en_TrackerVendor e, lr_CNAMEConfidence := en_CNAMEConfidence e,
         lr_ExpectedCatalog := en_ExpectedCatalog e, lr_StubTemplate := en_StubTemplate e\<rparr>"

definition server_record ::
  "server_env \<Rightarrow> string \<Rightarrow> intercept_request \<Rightarrow> Decision \<Rightarrow> http_response \<Rightarrow> Server \<Rightarrow> Server" where
  "server_record E domain r d w s =
     (let rec0 = zero_record
            \<lparr>lr_Time := se_clock E 6, lr_Domain := domain, lr_Path := ir_URI r, lr_Method := ir_Method r,
             lr_Action := d_Action d, lr_Rule := d_Rule d, lr_Status := hr_Status w,
             lr_Bytes := int (length (hr_Body w)), lr_ContentType := header_get ''Content-Type'' (hr_Headers w)\<rparr>;
          rec1 = (case rule_meta domain (ir_Path r) s of None \<Rightarrow> rec0 | Some e \<Rightarrow> enrichRecord rec0 e);
          rec2 = (if HasPrefix (d_Rule d) ''unknown:''
                  then rec1\<lparr>lr_FallbackReason := d_Rule d, lr_UnknownProfile := up_Default (c_UnknownProfile (sv_cfg s))\<rparr>
                  else rec1)
      in s\<lparr>sv_recorder := snd (Recorder_Log (se_clock E 7) rec2 (sv_recorder s))\<rparr>)"

subsection \<open>The handler\<close>

definition contactsUpstream :: "Decision \<Rightarrow> bool" where
  "contactsUpstream d \<longleftrightarrow>
     d_Action d = ActionForwardAsis \<or> d_Action d = ActionForwardScrubbed \<or> d_Action d = ActionForwardMimic"

definition mimic_env_of :: "server_env \<Rightarrow> Server \<Rightarrow> mimic_env" where
  "mimic_env_of E s =
     \<lparr>me_sha = se_sha E, me_head = se_head E (sv_mimicRes s), me_nonce = se_nonce E, me_now = se_clock E 3,
      me_now2 = se_clock E 4\<rparr>"

text \<open>The action: whether the upstream failed, the response and the state; \<^verbatim>\<open>None\<close> is a panic.\<close>

definition run_action ::
  "server_env \<Rightarrow> intercept_request \<Rightarrow> Decision \<Rightarrow> http_response \<Rightarrow> Server \<Rightarrow> (bool \<times> http_response \<times> Server) option" where
  "run_action E r d w s =
     (let cat = Some (sv_cat s); f = server_forwarder E s; tr = se_transport E (sv_fwdRes s);
          via = (\<lambda>fw. case fw f tr (forwardFailSafe s r) r w (sv_mimic s) of
                   (failed, w', h) \<Rightarrow> Some (failed, w', s\<lparr>sv_mimic := h\<rparr>))
      in if d_Action d = ActionStub then Some (False, stub_Serve r cat (d_Catalog d) w, s)
         else if d_Action d = ActionForwardAsis then via Asis
         else if d_Action d = ActionForwardScrubbed then via Scrubbed
         else if d_Action d = ActionPassthrough then via Asis
         else if d_Action d = ActionForwardMimic then
           (case mimic_Serve (mimic_env_of E s) r w (sv_mimic s) of
              None \<Rightarrow> None
            | Some (True, w', h) \<Rightarrow> Some (False, w', s\<lparr>sv_mimic := h\<rparr>)
            | Some (False, w', h) \<Rightarrow> Some (False, stub_Serve r cat safeDefaultStub w', s\<lparr>sv_mimic := h\<rparr>))
         else Some (False, stub_Serve r cat safeDefaultStub w, s))"

definition rate_limited :: http_response where
  "rate_limited =
     write_body (''rate limited'' @ [CHR 0x0A]) (write_header 429
       (set_header ''X-Content-Type-Options'' ''nosniff'' (set_header ''Content-Type'' ''text/plain; charset=utf-8'' blank_response)))"

text \<open>After the limiter and the decision.\<close>

definition act_on ::
  "server_env \<Rightarrow> intercept_request \<Rightarrow> string \<Rightarrow> Decision \<Rightarrow> Server \<Rightarrow> (http_response \<times> Server) option" where
  "act_on E r domain d s =
     (case (if contactsUpstream d then br_Allow (se_clock E 2) domain (sv_breaker s) else (True, sv_breaker s)) of
        (allowed, b1) \<Rightarrow>
          (let s1 = s\<lparr>sv_breaker := b1\<rparr> in
           if contactsUpstream d \<and> \<not> allowed
           then (let w = stub_Serve r (Some (sv_cat s)) safeDefaultStub blank_response
                 in Some (w, server_record E domain r d w s1))
           else
             (case run_action E r d blank_response s1 of
                None \<Rightarrow> None
              | Some (failed, w, s2) \<Rightarrow>
                  (let b2 = (if \<not> contactsUpstream d then sv_breaker s2
                             else if failed then RecordFailure (se_clock E 8) domain (sv_breaker s2)
                             else RecordSuccess domain (sv_breaker s2))
                   in Some (w, server_record E domain r d w (s2\<lparr>sv_breaker := b2\<rparr>))))))"

definition handleIntercept :: "server_env \<Rightarrow> intercept_request \<Rightarrow> Server \<Rightarrow> (http_response \<times> Server) option" where
  "handleIntercept E r s0 =
     (case rl_Allow (se_clock E 0) (sv_limiter s0) of
        (False, l) \<Rightarrow> Some (rate_limited, s0\<lparr>sv_limiter := l\<rparr>)
      | (True, l) \<Rightarrow>
          (let domain = hostname r in
           case Decide (se_clock E 9) domain (ir_Path r) (ir_Method r) (sv_engine s0) of
             (d0, e) \<Rightarrow>
               (let s = s0\<lparr>sv_limiter := l, sv_engine := e\<rparr>
                in act_on E r domain (refine_decision domain (ir_Path r) s d0) s)))"

subsection \<open>TLS connections\<close>

text \<open>
  Before the TLS session is terminated: a server name whose policy is passthrough, with no path
  known, is spliced to the origin, and the connection is recorded; any other goes on to
  \<open>handleIntercept\<close>. The peek gives \<^verbatim>\<open>None\<close> on an error.
\<close>

datatype routed = Splice string | Terminate

definition route :: "string option \<Rightarrow> Server \<Rightarrow> routed" where
  "route sni s =
     (case sni of
        None \<Rightarrow> Terminate
      | Some n \<Rightarrow>
          if n \<noteq> [] \<and> d_Action (Ruleset_Match (e_rs (sv_engine s)) n [] []) = ActionPassthrough then Splice n else Terminate)"

definition doPassthrough :: "server_env \<Rightarrow> string \<Rightarrow> Server \<Rightarrow> Server" where
  "doPassthrough E sni s =
     s\<lparr>sv_recorder := snd (Recorder_Log (se_clock E 7)
         (zero_record\<lparr>lr_Time := se_clock E 6, lr_Domain := sni, lr_Method := ''CONNECT'', lr_Action := ActionPassthrough\<rparr>)
         (sv_recorder s))\<rparr>"

definition alpn :: "Config \<Rightarrow> string list" where
  "alpn cfg =
     (let a = (if pr_HTTP2 (c_Protocols cfg) then [''h2''] else []) @ (if pr_HTTP1 (c_Protocols cfg) then [''http/1.1''] else [])
      in if a = [] then [''http/1.1''] else a)"

subsection \<open>Facts\<close>

lemma stub_wrote: "hr_Wrote (stub_Serve r (Some c) name w)"
proof (cases "lookup c name")
  case (Some e)
  then show ?thesis
    by (simp add: stub_Serve_def Render_def entry_write_def write_body_def Let_def split: option.split)
qed (simp add: stub_Serve_def Render_def Let_def)

lemma forward_wrote:
  assumes "forward_with f scrub tr (forwardFailSafe s r) r w st = (failed, w', st')"
  shows "hr_Wrote w'"
  using assms
  by (auto simp: forward_with_def forwardFailSafe_def stub_wrote proxy_answer_def write_body_def Let_def
      split: sum.splits prod.splits if_splits)

lemma run_action_total:
  "\<exists>failed w s'. run_action E r d blank_response s = Some (failed, w, s') \<and> hr_Wrote w \<and> sv_recorder s' = sv_recorder s \<and>
     sv_breaker s' = sv_breaker s \<and> sv_cat s' = sv_cat s \<and> sv_engine s' = sv_engine s \<and> sv_limiter s' = sv_limiter s \<and>
     sv_cfg s' = sv_cfg s \<and> sv_fwdUA s' = sv_fwdUA s \<and> sv_fwdRes s' = sv_fwdRes s \<and> sv_rules s' = sv_rules s \<and>
     sv_resolver s' = sv_resolver s \<and> sv_mimicRes s' = sv_mimicRes s"
proof -
  have blank: "\<not> hr_Wrote blank_response" by (simp add: blank_response_def)
  have fwd: "\<exists>failed w st. forward_with (server_forwarder E s) b (se_transport E (sv_fwdRes s)) (forwardFailSafe s r) r blank_response
      (sv_mimic s) = (failed, w, st) \<and> hr_Wrote w" for b
    using forward_wrote by (metis prod_cases3)
  obtain ok w h where m: "mimic_Serve (mimic_env_of E s) r blank_response (sv_mimic s) = Some (ok, w, h)" "ok \<longrightarrow> hr_Wrote w"
    using blank
  proof (cases rule: mimic_Serve_cases[where E = "mimic_env_of E s" and r = r and h = "sv_mimic s"])
    case (declined h1)
    then show ?thesis using that[of False] by simp
  next
    case (served h1 shape full w')
    from mimic_write_eq[OF blank, of r shape full] served(7) have "hr_Wrote w'" by auto
    with served show ?thesis using that[of True] by simp
  qed
  show ?thesis
    using fwd[of True] fwd[of False] m by (cases ok) (auto simp: run_action_def Asis_def Scrubbed_def stub_wrote Let_def)
qed

lemma record_simps [simp]:
  "sv_breaker (server_record E host r d w s) = sv_breaker s" "sv_engine (server_record E host r d w s) = sv_engine s"
  "sv_cat (server_record E host r d w s) = sv_cat s" "sv_mimic (server_record E host r d w s) = sv_mimic s"
  "sv_limiter (server_record E host r d w s) = sv_limiter s" "sv_cfg (server_record E host r d w s) = sv_cfg s"
  "sv_rules (server_record E host r d w s) = sv_rules s" "sv_fwdRes (server_record E host r d w s) = sv_fwdRes s"
  "sv_fwdUA (server_record E host r d w s) = sv_fwdUA s" "sv_resolver (server_record E host r d w s) = sv_resolver s"
  "sv_mimicRes (server_record E host r d w s) = sv_mimicRes s"
  "rd_total (sv_recorder (server_record E host r d w s)) = rd_total (sv_recorder s) + 1"
  by (simp_all add: server_record_def Recorder_Log_def Let_def)

text \<open>What handling the action leaves in place.\<close>

lemma act_on_total:
  "\<exists>w s'. act_on E r host d s = Some (w, s') \<and> hr_Wrote w \<and> rd_total (sv_recorder s') = rd_total (sv_recorder s) + 1 \<and>
     sv_cat s' = sv_cat s \<and> sv_engine s' = sv_engine s \<and> sv_limiter s' = sv_limiter s \<and> sv_cfg s' = sv_cfg s \<and>
     sv_rules s' = sv_rules s \<and> sv_resolver s' = sv_resolver s \<and> sv_fwdRes s' = sv_fwdRes s \<and> sv_fwdUA s' = sv_fwdUA s"
proof -
  obtain al b1 where b: "(if contactsUpstream d then br_Allow (se_clock E 2) host (sv_breaker s) else (True, sv_breaker s)) = (al, b1)"
    by (metis surj_pair)
  obtain failed w s2 where ra: "run_action E r d blank_response (s\<lparr>sv_breaker := b1\<rparr>) = Some (failed, w, s2)" "hr_Wrote w"
    "sv_recorder s2 = sv_recorder s" "sv_cat s2 = sv_cat s" "sv_engine s2 = sv_engine s" "sv_limiter s2 = sv_limiter s"
    "sv_cfg s2 = sv_cfg s" "sv_rules s2 = sv_rules s" "sv_resolver s2 = sv_resolver s" "sv_fwdRes s2 = sv_fwdRes s"
    "sv_fwdUA s2 = sv_fwdUA s"
    using run_action_total[of E r d "s\<lparr>sv_breaker := b1\<rparr>"] by auto
  show ?thesis
    unfolding act_on_def b
    by (cases "contactsUpstream d \<and> \<not> al") (auto simp: ra stub_wrote Let_def)
qed

lemma stub_action_pure:
  assumes "d_Action d = ActionStub"
  shows "act_on E r host d s =
    (let w = stub_Serve r (Some (sv_cat s)) (d_Catalog d) blank_response in Some (w, server_record E host r d w s))"
proof -
  have "\<not> contactsUpstream d" using assms by (simp add: contactsUpstream_def action_defs)
  with assms show ?thesis by (simp add: act_on_def run_action_def Let_def)
qed

lemma stub_only_decision: "c_Mode (sv_cfg s) = ''stub-only'' \<Longrightarrow> d_Action (refine_decision host path s d) = ActionStub"
  by (simp add: refine_decision_def stubOnlyGate_def Let_def)

subsection \<open>Sample state\<close>

definition ex_rs :: "string \<Rightarrow> Ruleset" where
  "ex_rs action =
     (case rule_compile \<lparr>r_Name = ''f'', r_Priority = 1, r_Match = \<lparr>pm_Domain = ''*.example'', pm_Path = [], pm_Method = []\<rparr>,
             r_Action = action, r_Catalog = ''px''\<rparr> of
        Ok c \<Rightarrow> \<lparr>rs_rules = [c], rs_def = safe_default\<rparr>
      | _ \<Rightarrow> \<lparr>rs_rules = [], rs_def = safe_default\<rparr>)"

definition ex_server :: "string \<Rightarrow> string \<Rightarrow> Server" where
  "ex_server action m =
     \<lparr>sv_cfg = Defaults\<lparr>c_Mode := m\<rparr>, sv_engine = NewEngine (ex_rs action), sv_breaker = newBreaker 1 30, sv_limiter = None,
      sv_cat = [(''px'', ex_cat_entry), (safeDefaultStub, ex_cat_entry)], sv_fwdUA = [], sv_fwdRes = [], sv_mimic = ex_mimic,
      sv_mimicRes = [], sv_resolver = [], sv_rules = None, sv_recorder = NewRecorderWithOptions ex_opts 4\<rparr>"

definition ex_env :: server_env where
  "ex_env = \<lparr>se_clock = (\<lambda>n. 10), se_transport = (\<lambda>ups out. Inl (Err ''down'')), se_head = (\<lambda>ups u h. None),
     se_sha = (\<lambda>s. s), se_nonce = [], se_request_uri = (\<lambda>u. None)\<rparr>"

subsection \<open>Properties\<close>


text \<open>C2: In stub-only mode no request reaches an origin: what the origins, through the forwarder's transport
  or the decoy handler's probe, would answer has no influence on the response or on the state.\<close>

theorem stub_only_never_asks_upstream:
  assumes "c_Mode (sv_cfg s) = ''stub-only''"
  shows "handleIntercept (E\<lparr>se_transport := tr, se_head := hd'\<rparr>) r s = handleIntercept E r s"
proof -
  obtain al l where l: "rl_Allow (se_clock E 0) (sv_limiter s) = (al, l)" by (metis surj_pair)
  obtain d e where d: "Decide (se_clock E 9) (hostname r) (ir_Path r) (ir_Method r) (sv_engine s) = (d, e)" by (metis surj_pair)
  let ?s = "s\<lparr>sv_limiter := l, sv_engine := e\<rparr>"
  have stub: "d_Action (refine_decision (hostname r) (ir_Path r) ?s d) = ActionStub"
    using assms by (intro stub_only_decision) simp
  show ?thesis
    by (cases al) (simp_all add: handleIntercept_def l d Let_def stub_action_pure[OF stub] server_record_def)
qed

theorem stub_only_never_asks_upstream_witness:
  "handleIntercept (ex_env\<lparr>se_transport := \<lambda>_ _. Inr ex_page, se_head := se_head ex_env\<rparr>) ex_request
     (ex_server ''forward-asis'' ''stub-only'') = handleIntercept ex_env ex_request (ex_server ''forward-asis'' ''stub-only'')"
  by (rule stub_only_never_asks_upstream) (simp add: ex_server_def)

text \<open>The gate covers requests only: a connection for a passthrough name is spliced in any mode.\<close>

lemma stub_only_still_splices:
  "n \<noteq> [] \<Longrightarrow> d_Action (Ruleset_Match (e_rs (sv_engine s)) n [] []) = ActionPassthrough \<Longrightarrow>
     route (Some n) (s\<lparr>sv_cfg := (sv_cfg s)\<lparr>c_Mode := ''stub-only''\<rparr>\<rparr>) = Splice n"
  by (simp add: route_def)

text \<open>The policy has the last word: a matched decision is acted on as it is, and only an unmatched
  request is answered by a verified stub of the rule catalog or, failing that, by the profile for
  unknown URLs. In stub-only mode the action is a stub in any case, and its catalog entry is kept.\<close>

theorem decision_precedence:
  "let d' = refine_decision host path s d; meta = rule_meta host path s in
   if c_Mode (sv_cfg s) = ''stub-only'' then d_Action d' = ActionStub
   else if d_Matched d then d' = d
   else if verifiedJSStubDecision meta host (sv_cat s) \<noteq> None then d' = the (verifiedJSStubDecision meta host (sv_cat s))
   else if unknownFallback (c_UnknownProfile (sv_cfg s)) meta path \<noteq> None
   then d' = the (unknownFallback (c_UnknownProfile (sv_cfg s)) meta path)
   else d' = d"
  using stub_only_decision[of s host path d]
  by (auto simp: refine_decision_def stubOnlyGate_def Let_def split: option.split)

text \<open>An origin that cannot be reached, for requests the policy forwards.\<close>

definition forwards :: "Server \<Rightarrow> intercept_request \<Rightarrow> bool" where
  "forwards s r \<longleftrightarrow> sv_limiter s = None \<and> c_Mode (sv_cfg s) \<noteq> ''stub-only'' \<and> e_temps (sv_engine s) = [] \<and>
     (let d = Ruleset_Match (e_rs (sv_engine s)) (hostname r) (ir_Path r) (ir_Method r) in
      d_Matched d \<and> d_Action d \<in> {ActionForwardAsis, ActionForwardScrubbed})"

definition unreachable :: "server_env \<Rightarrow> bool" where
  "unreachable E \<longleftrightarrow> (\<forall>ups out. isl (se_transport E ups out))"

lemma unreachable_forward:
  "unreachable E \<Longrightarrow> forward_with f scrub (se_transport E ups) oe r w st =
     (True, oe (outgoing f scrub r) (projl (se_transport E ups (outgoing f scrub r))) w, st)"
  by (auto simp: unreachable_def forward_with_def split: sum.split)
    (metis isl_def sum.disc(2))

lemma forwards_step:
  assumes "forwards s r" "unreachable E" "br_closed (sv_breaker s) (hostname r)"
  shows "\<exists>w s'. handleIntercept E r s = Some (w, s') \<and> forwards s' r \<and>
    sv_breaker s' = RecordFailure (se_clock E 8) (hostname r) (sv_breaker s) \<and> sv_cat s' = sv_cat s"
proof -
  let ?d = "Ruleset_Match (e_rs (sv_engine s)) (hostname r) (ir_Path r) (ir_Method r)"
  have d: "d_Matched ?d" "d_Action ?d \<in> {ActionForwardAsis, ActionForwardScrubbed}" "sv_limiter s = None"
    "c_Mode (sv_cfg s) \<noteq> ''stub-only''" "e_temps (sv_engine s) = []"
    using assms(1) by (auto simp: forwards_def Let_def)
  then have dec: "Decide (se_clock E 9) (hostname r) (ir_Path r) (ir_Method r) (sv_engine s) = (?d, sv_engine s)"
    by (simp add: Decide_def tempFor_def)
  let ?s = "s\<lparr>sv_limiter := None, sv_engine := sv_engine s\<rparr>"
  have s: "?s = s" using d by simp
  have ref: "refine_decision (hostname r) (ir_Path r) s ?d = ?d"
    using d by (simp add: refine_decision_def stubOnlyGate_def Let_def)
  have up: "contactsUpstream ?d" using d by (auto simp: contactsUpstream_def)
  have "br_Allow (se_clock E 2) (hostname r) (sv_breaker s) = (True, sv_breaker s)"
    using assms(3) by (auto simp: br_Allow_def br_closed_def get_or_def split: option.splits)
  moreover obtain w where "run_action E r ?d blank_response s = Some (True, w, s)"
  proof -
    have "\<exists>w. run_action E r ?d blank_response s = Some (True, w, s)"
      using d(2) by (auto simp: run_action_def Asis_def Scrubbed_def action_defs Let_def unreachable_forward[OF assms(2)])
    then show ?thesis using that by blast
  qed
  ultimately have "handleIntercept E r s =
      Some (w, server_record E (hostname r) r ?d w (s\<lparr>sv_breaker := RecordFailure (se_clock E 8) (hostname r) (sv_breaker s)\<rparr>))"
    using d(3) by (simp add: handleIntercept_def rl_Allow_def dec s ref act_on_def up Let_def)
  with assms(1) show ?thesis by (auto simp: forwards_def)
qed

fun handle_all :: "server_env list \<Rightarrow> intercept_request \<Rightarrow> Server \<Rightarrow> Server option" where
  "handle_all [] r s = Some s"
| "handle_all (E # Es) r s = (case handleIntercept E r s of None \<Rightarrow> None | Some (w, s') \<Rightarrow> handle_all Es r s')"

lemma forwards_run:
  "\<lbrakk>forwards s r; \<forall>E\<in>set Es. unreachable E \<and> 0 < se_clock E 8; Es \<noteq> [] \<Longrightarrow> br_closed (sv_breaker s) (hostname r);
    br_failures (sv_breaker s) (hostname r) + int (length Es) \<le> br_threshold (sv_breaker s)\<rbrakk> \<Longrightarrow>
   \<exists>s'. handle_all Es r s = Some s' \<and> forwards s' r \<and> sv_cat s' = sv_cat s \<and>
     sv_breaker s' = br.run (hostname r) (map (\<lambda>E. se_clock E 8) Es) (sv_breaker s)"
proof (induction Es arbitrary: s)
  case (Cons E Es)
  let ?h = "hostname r" and ?b = "sv_breaker s" and ?t = "se_clock E 8"
  have closed: "br_closed ?b ?h" and t: "0 < ?t" "unreachable E" using Cons.prems by auto
  from forwards_step[OF Cons.prems(1) t(2) closed] obtain w s1 where
    s1: "handleIntercept E r s = Some (w, s1)" "forwards s1 r" "sv_breaker s1 = RecordFailure ?t ?h ?b" "sv_cat s1 = sv_cat s"
    by blast
  have thr: "br_threshold (sv_breaker s1) = br_threshold ?b" by (simp add: s1(3) br.fail_limit)
  have next1: "br_closed (sv_breaker s1) ?h \<and> br_failures (sv_breaker s1) ?h = br_failures ?b ?h + 1"
    if "br_failures ?b ?h + 1 < br_threshold ?b"
    using that closed
    by (auto simp: s1(3) RecordFailure_def br_closed_def br_failures_def Let_def get_or_def IsZero_def split: option.splits)
  have "br_failures (sv_breaker s1) ?h + int (length Es) \<le> br_threshold (sv_breaker s1)"
  proof (cases Es)
    case Nil
    have "br_failures (sv_breaker s1) ?h = br_failures ?b ?h + 1"
      by (auto simp: s1(3) RecordFailure_def br_failures_def Let_def)
    with Nil Cons.prems(4) thr show ?thesis by simp
  next
    case (Cons E' Es')
    with Cons.prems(4) next1 thr show ?thesis by simp
  qed
  moreover have "br_closed (sv_breaker s1) ?h" if "Es \<noteq> []"
  proof -
    have "0 < length Es" using that by simp
    with Cons.prems(4) next1 show ?thesis by simp
  qed
  ultimately obtain s' where "handle_all Es r s1 = Some s'" "forwards s' r" "sv_cat s' = sv_cat s1"
      "sv_breaker s' = br.run ?h (map (\<lambda>E. se_clock E 8) Es) (sv_breaker s1)"
    using Cons.IH[of s1] Cons.prems(2) s1(2) by auto
  with s1 show ?case by auto
qed simp


lemma ex_forwards: "forwards (ex_server ''forward-asis'' ''full'') ex_request"
  by code_simp


text \<open>
  A request under a passthrough rule that only matched after the TLS session was terminated goes
  to the origin too, but the breaker is not asked.
\<close>

lemma passthrough_skips_breaker:
  "d_Action d = ActionPassthrough \<Longrightarrow>
     act_on E r host d s =
       (case Asis (server_forwarder E s) (se_transport E (sv_fwdRes s)) (forwardFailSafe s r) r blank_response (sv_mimic s) of
          (failed, w, h) \<Rightarrow> Some (w, server_record E host r d w (s\<lparr>sv_mimic := h\<rparr>)))"
  by (auto simp: act_on_def contactsUpstream_def run_action_def action_defs Let_def split: prod.splits)

definition refs_ok :: "Catalog \<Rightarrow> Ruleset \<Rightarrow> bool" where
  "refs_ok cat rs \<longleftrightarrow> list_all (\<lambda>n. Catalog_Get cat n \<noteq> None) (CatalogRefs rs)"

text \<open>A matched request under a stub rule gets the entry the rule names: the references were checked
  before the rules were put in force, so no stub falls back to an empty answer.\<close>

theorem stub_rules_have_entries:
  assumes "refs_ok (sv_cat s) (e_rs (sv_engine s))" "ruleset_ok (e_rs (sv_engine s))"
    and "d = Ruleset_Match (e_rs (sv_engine s)) (hostname r) (ir_Path r) (ir_Method r)" "d_Matched d" "d_Action d = ActionStub"
    and "tempFor (se_clock E 9) (hostname r) (sv_engine s) = (None, sv_engine s)" "sv_limiter s = None"
  shows "\<exists>e. Catalog_Get (sv_cat s) (d_Catalog d) = Some e \<and>
    map_option fst (handleIntercept E r s) = Some (stub_Serve r (Some (sv_cat s)) (d_Catalog d) blank_response)"
proof -
  have ok: "list_all rule_ok (rs_rules (e_rs (sv_engine s)))" using assms(2) by (simp add: ruleset_ok_def)
  have "d_Catalog d \<in> set (CatalogRefs (e_rs (sv_engine s)))"
    by (rule Match_cases[of "e_rs (sv_engine s)" "hostname r" "ir_Path r" "ir_Method r"])
      (use assms(3-5) ok in \<open>auto simp: set_CatalogRefs list_all_iff rule_ok_def\<close>)
  then obtain e where e: "Catalog_Get (sv_cat s) (d_Catalog d) = Some e" using assms(1) by (auto simp: refs_ok_def list_all_iff)
  have dec: "Decide (se_clock E 9) (hostname r) (ir_Path r) (ir_Method r) (sv_engine s) = (d, sv_engine s)"
    using assms(3,4,6) by (simp add: Decide_def)
  have ref: "refine_decision (hostname r) (ir_Path r) s d = d"
    using assms(4,5) by (simp add: refine_decision_def stubOnlyGate_def Let_def)
  have same: "s\<lparr>sv_limiter := None\<rparr> = s" using assms(7) by simp
  show ?thesis
    using e assms(7) by (simp add: handleIntercept_def rl_Allow_def dec same ref stub_action_pure[OF assms(5)] Let_def)
qed

theorem stub_rules_have_entries_witness:
  "\<exists>e. Catalog_Get (sv_cat (ex_server ''stub'' ''full'')) ''px'' = Some e \<and>
     map_option fst (handleIntercept ex_env ex_request (ex_server ''stub'' ''full'')) =
       Some (stub_Serve ex_request (Some (sv_cat (ex_server ''stub'' ''full''))) ''px'' blank_response)"
proof -
  let ?s = "ex_server ''stub'' ''full''"
  let ?d = "Ruleset_Match (e_rs (sv_engine ?s)) (hostname ex_request) (ir_Path ex_request) (ir_Method ex_request)"
  have "refs_ok (sv_cat ?s) (e_rs (sv_engine ?s))" "d_Matched ?d" "d_Action ?d = ActionStub" "d_Catalog ?d = ''px''"
    by code_simp+
  moreover have "ruleset_ok (e_rs (sv_engine ?s))" by code_simp
  moreover have "tempFor (se_clock ex_env 9) (hostname ex_request) (sv_engine ?s) = (None, sv_engine ?s)" "sv_limiter ?s = None"
    by (simp_all add: ex_server_def NewEngine_def tempFor_def)
  ultimately show ?thesis using stub_rules_have_entries[of ?s ?d ex_request ex_env] by simp
qed

end
