(* ===== verification/AghSources.thy ===== *)
theory AghSources
  imports AghTypes
begin

text \<open>
  The sources of the managed feeds, \<^verbatim>\<open>internal/aghmanaged/manager.go\<close>: listing with health,
  creating and deleting, fetching and syncing, the review of large changes, and the scheduler's
  choice of due sources.

  A sync reads the source under the lock, fetches without it and writes the result under the lock
  again: it is two steps, \<open>sync_begin\<close> and \<open>sync_commit\<close>, between which other operations
  may run. \<open>SyncSource\<close> is the two in a row.
\<close>

subsection \<open>Listing and health\<close>

definition sourceHealthLocked :: "env \<Rightarrow> time \<Rightarrow> Manager \<Rightarrow> MSource \<Rightarrow> string" where
  "sourceHealthLocked E now m src =
     (if \<not> so_Enabled src then ''paused''
      else if so_PendingReview src then ''pending''
      else if isRemoteSource (so_Type src) \<and>
        isStaleSource now src (staleSourceDuration E (sd_StaleSourceTTL (cf_Scheduler (mg_cfg m)))) then ''stale''
      else if so_LastError src \<noteq> [] then ''failing''
      else if IsZero (so_LastSuccess src) then ''never synced''
      else ''healthy'')"

definition ListSources :: "env \<Rightarrow> time \<Rightarrow> Manager \<Rightarrow> MSource list" where
  "ListSources E now m =
     sort_key so_Name (map (\<lambda>src. src\<lparr>so_Health := sourceHealthLocked E now m src\<rparr>) (map snd (mg_sources m)))"

subsection \<open>Creating and deleting\<close>

definition source_defaults :: "env \<Rightarrow> MSource \<Rightarrow> MSource" where
  "source_defaults E src0 =
     (let s1 = (if so_Type src0 = [] then src0\<lparr>so_Type := SourceFilterURL\<rparr> else src0);
          s2 = (if so_Name s1 = [] then s1\<lparr>so_Name := so_URL s1\<rparr> else s1)
      in if so_ID s2 = [] then s2\<lparr>so_ID := sourceID E s2\<rparr> else s2)"

definition source_valid :: "MSource \<Rightarrow> error option" where
  "source_valid s =
     (if \<not> validSourceType (so_Type s) then Some (Err (''invalid source type '' @ quote (so_Type s)))
      else if \<not> validStaleFeedPolicy (so_StaleFeedPolicy s)
        then Some (Err (''invalid stale feed policy '' @ quote (so_StaleFeedPolicy s)))
      else if so_Type s = SourceFilterURL \<and> so_URL s = [] then Some (Err ''url required'')
      else if (so_Type s = SourceAGHCustomRules \<or> so_Type s = SourceAGHQueryLogCNAME) \<and> so_URL s = []
        then Some (Err ''agh base url required'')
      else if so_Type s = SourceManual \<and> so_Content s = [] then Some (Err ''content required'')
      else None)"

definition keep_progress :: "MSource \<Rightarrow> MSource \<Rightarrow> MSource" where
  "keep_progress old src =
     src\<lparr>so_LastSyncStarted := so_LastSyncStarted old, so_LastSuccess := so_LastSuccess old,
         so_LastError := so_LastError old, so_LastDurationMS := so_LastDurationMS old,
         so_ConsecutiveFails := so_ConsecutiveFails old, so_NextSync := so_NextSync old,
         so_Entries := so_Entries old, so_Added := so_Added old, so_Removed := so_Removed old,
         so_Changed := so_Changed old, so_Unsupported := so_Unsupported old,
         so_AllowExceptions := so_AllowExceptions old, so_PendingReview := so_PendingReview old\<rparr>"

definition UpsertSource ::
  "env \<Rightarrow> error option \<Rightarrow> MSource \<Rightarrow> Manager \<Rightarrow> (error + MSource \<times> error option) \<times> Manager" where
  "UpsertSource E io src0 m =
     (let s1 = source_defaults E src0;
          s2 = s1\<lparr>so_SyncInterval := (if so_SyncInterval s1 = [] then sd_DefaultSyncInterval (cf_Scheduler (mg_cfg m))
                                      else so_SyncInterval s1),
                  so_StaleFeedPolicy := (if so_StaleFeedPolicy s1 = [] then StaleFeedPolicyExclude
                                         else so_StaleFeedPolicy s1)\<rparr>
      in case source_valid s2 of
           Some e \<Rightarrow> (Inl e, m)
         | None \<Rightarrow>
             (let s3 = s2\<lparr>so_Health := []\<rparr>;
                  s4 = (case lookup (mg_sources m) (so_ID s3) of None \<Rightarrow> s3 | Some old \<Rightarrow> keep_progress old s3)
              in case persisted io s4 (m\<lparr>mg_sources := put (so_ID s4) s4 (mg_sources m)\<rparr>) of
                   (r, m') \<Rightarrow> (Inr r, m')))"

definition from_source :: "string \<Rightarrow> Entry \<Rightarrow> bool" where
  "from_source sid e \<longleftrightarrow> src_Name (en_Source e) = sid"

definition DeleteSource :: "error option \<Rightarrow> string \<Rightarrow> Manager \<Rightarrow> error option \<times> Manager" where
  "DeleteSource io sid m =
     (let gone = map fst (filter (\<lambda>(k, e). from_source sid e) (mg_entries m))
      in persistState io
        (m\<lparr>mg_sources := del sid (mg_sources m), mg_pending := del sid (mg_pending m),
           mg_entries := del_if (\<lambda>k e. from_source sid e) (mg_entries m),
           mg_overrides := del_if (\<lambda>k v. k \<in> set gone) (mg_overrides m),
           mg_feedSeen := del_if (\<lambda>k v. k \<in> set gone) (mg_feedSeen m)\<rparr>))"

subsection \<open>Fetching\<close>

definition filterURLMaxBytes :: nat where
  "filterURLMaxBytes = 32 * 2 ^ 20"

definition fetchSource ::
  "env \<Rightarrow> time \<Rightarrow> agh_api \<Rightarrow> MSource \<Rightarrow> error + Entry list" where
  "fetchSource E now api src =
     (let parse = (\<lambda>content. ParseRules (env_digest E) now content
                     \<lparr>src_Type = so_Type src, src_Name = so_ID src, src_URL = so_URL src\<rparr>);
          agh = (\<lambda>cfg. fst (rule_Build (env_digest E) now api cfg));
          cfg0 = \<lparr>sc_Enabled = True, sc_BaseURL = so_URL src, sc_SyncFilters = False, sc_SyncCustomRules = False,
                  sc_SyncAllowDeny = False, sc_SyncQueryLog = False, sc_CNAMEEnabled = False,
                  sc_CNAMEUseQueryLog = False, sc_FilterURLs = [], sc_CustomRules = []\<rparr>
      in if so_Type src = SourceManual then parse (so_Content src)
         else if so_Type src = SourceFilterURL
         then (case api_get api (so_URL src) of
                 Inl e \<Rightarrow> Inl e
               | Inr (code, body) \<Rightarrow>
                   if \<not> status_ok code then Inl (Err (''fetch status '' @ show_int code))
                   else if length body > filterURLMaxBytes
                   then Inl (Err (''filter list too large (> '' @ show_nat filterURLMaxBytes @ '' bytes): '' @ so_URL src))
                   else parse body)
         else if so_Type src = SourceAGHCustomRules
         then agh (cfg0\<lparr>sc_SyncCustomRules := True, sc_SyncAllowDeny := True\<rparr>)
         else if so_Type src = SourceAGHQueryLogCNAME
         then agh (cfg0\<lparr>sc_SyncQueryLog := True, sc_CNAMEEnabled := True, sc_CNAMEUseQueryLog := True\<rparr>)
         else Inl (Err (''unsupported source type '' @ quote (so_Type src))))"

subsection \<open>Comparing and applying entries\<close>

definition entriesForSource :: "(string, Entry) gomap \<Rightarrow> string \<Rightarrow> Entry list" where
  "entriesForSource es sid = filter (from_source sid) (map snd es)"

definition entry_changed :: "Entry \<Rightarrow> Entry \<Rightarrow> bool" where
  "entry_changed old e \<longleftrightarrow> en_OriginalRule old \<noteq> en_OriginalRule e \<or> en_Category old \<noteq> en_Category e \<or>
     en_ResourceType old \<noteq> en_ResourceType e"

definition by_id :: "Entry list \<Rightarrow> (string, Entry) gomap" where
  "by_id es = foldl (\<lambda>m e. put (en_ID e) e m) [] es"

definition diffEntries :: "Entry list \<Rightarrow> Entry list \<Rightarrow> int \<times> int \<times> int" where
  "diffEntries prev next =
     (let p = by_id prev; n = by_id next in
      (int (length (filter (\<lambda>e. lookup p (en_ID e) = None) next)),
       int (length (filter (\<lambda>i. lookup n i = None) (map fst p))),
       int (length (filter (\<lambda>e. case lookup p (en_ID e) of None \<Rightarrow> False | Some old \<Rightarrow> entry_changed old e) next))))"

definition countImported :: "Entry list \<Rightarrow> int \<times> int" where
  "countImported es =
     (int (length (filter (\<lambda>e. en_Unsupported e \<or> en_Layer e = LayerDOM) es)),
      int (length (filter (\<lambda>e. en_Category e = ''allow_exception'') es)))"

text \<open>Integer division of Go truncates; the counts are never negative.\<close>

definition largeChange :: "MSource \<Rightarrow> AGHManagedScheduler \<Rightarrow> bool" where
  "largeChange src cfg \<longleftrightarrow>
     (if \<not> sd_LargeChangeRequiresReview cfg then False
      else if sd_LargeChangeThresholdCount cfg > 0 \<and>
        so_Removed src + so_Changed src \<ge> sd_LargeChangeThresholdCount cfg then True
      else if sd_LargeChangeThresholdPercent cfg \<le> 0 \<or> so_Entries src = 0 then False
      else (so_Removed src + so_Changed src) * 100 div so_Entries src \<ge> sd_LargeChangeThresholdPercent cfg)"

definition set_source_name :: "string \<Rightarrow> Entry \<Rightarrow> Entry" where
  "set_source_name sid e = e\<lparr>en_Source := (en_Source e)\<lparr>src_Name := sid\<rparr>\<rparr>"

definition applyEntriesLocked :: "string \<Rightarrow> Entry list \<Rightarrow> Manager \<Rightarrow> Manager" where
  "applyEntriesLocked sid es m =
     (let gone = map fst (filter (\<lambda>(k, e). from_source sid e) (mg_entries m))
      in m\<lparr>mg_entries := foldl (\<lambda>em e. put (en_ID e) (set_source_name sid e) em)
                              (del_if (\<lambda>k e. from_source sid e) (mg_entries m)) es,
           mg_feedSeen := del_if (\<lambda>k v. k \<in> set gone) (mg_feedSeen m)\<rparr>)"

subsection \<open>Sync\<close>

definition sync_begin :: "string \<Rightarrow> Manager \<Rightarrow> MSource option" where
  "sync_begin sid m = lookup (mg_sources m) sid"

text \<open>\<open>start\<close> and \<open>now\<close> are the clock before and after the fetch.\<close>

definition ms_since :: "time \<Rightarrow> time \<Rightarrow> int" where
  "ms_since start now = (now - start) div 1000000"

definition sync_failed ::
  "env \<Rightarrow> time \<Rightarrow> time \<Rightarrow> int \<Rightarrow> string \<Rightarrow> MSource \<Rightarrow> error \<Rightarrow> Manager \<Rightarrow> MSource" where
  "sync_failed E start now r sid src err m =
     src\<lparr>so_LastSyncStarted := start, so_LastDurationMS := ms_since start now,
         so_LastError := error_text err, so_ConsecutiveFails := so_ConsecutiveFails src + 1,
         so_NextSync := nextSync E now r (so_SyncInterval src) (sd_Jitter (cf_Scheduler (mg_cfg m)))\<rparr>"

definition sync_fetched ::
  "env \<Rightarrow> time \<Rightarrow> time \<Rightarrow> int \<Rightarrow> string \<Rightarrow> MSource \<Rightarrow> Entry list \<Rightarrow> Manager \<Rightarrow> MSource" where
  "sync_fetched E start now r sid src es m =
     (case (countImported es, diffEntries (entriesForSource (mg_entries m) sid) es) of
        ((uns, allow), (added, removed, changed)) \<Rightarrow>
          (let s = src\<lparr>so_LastSyncStarted := start, so_LastDurationMS := ms_since start now,
                       so_LastError := [], so_LastSuccess := now, so_ConsecutiveFails := 0,
                       so_NextSync := nextSync E now r (so_SyncInterval src) (sd_Jitter (cf_Scheduler (mg_cfg m))),
                       so_Entries := int (length es), so_Unsupported := uns, so_AllowExceptions := allow,
                       so_Added := added, so_Removed := removed, so_Changed := changed\<rparr>
           in s\<lparr>so_PendingReview := largeChange s (cf_Scheduler (mg_cfg m))\<rparr>))"

definition sync_commit ::
  "env \<Rightarrow> time \<Rightarrow> time \<Rightarrow> int \<Rightarrow> error option \<Rightarrow> string \<Rightarrow> MSource \<Rightarrow> error + Entry list \<Rightarrow> Manager \<Rightarrow>
   (MSource \<times> error option) \<times> Manager" where
  "sync_commit E start now r io sid src fetched m =
     (case fetched of
        Inl err \<Rightarrow>
          (let s = sync_failed E start now r sid src err m
           in ((s, Some err), snd (persistState io (m\<lparr>mg_sources := put sid s (mg_sources m)\<rparr>))))
      | Inr es \<Rightarrow>
          (let s = sync_fetched E start now r sid src es m;
               m1 = m\<lparr>mg_sources := put sid s (mg_sources m)\<rparr>;
               m2 = (if \<not> so_PendingReview s
                     then (applyEntriesLocked sid es m1)\<lparr>mg_pending := del sid (mg_pending m1)\<rparr>
                     else m1\<lparr>mg_pending := put sid es (mg_pending m1)\<rparr>)
           in persisted io s m2))"

definition SyncSource ::
  "env \<Rightarrow> agh_api \<Rightarrow> time \<Rightarrow> time \<Rightarrow> int \<Rightarrow> error option \<Rightarrow> string \<Rightarrow> Manager \<Rightarrow>
   (error + MSource \<times> error option) \<times> Manager" where
  "SyncSource E api start now r io sid m =
     (case sync_begin sid m of
        None \<Rightarrow> (Inl ErrNotExist, m)
      | Some src \<Rightarrow>
          (case sync_commit E start now r io sid src
                  (fetchSource E now api (src\<lparr>so_LastSyncStarted := start\<rparr>)) m of
             (x, m') \<Rightarrow> (Inr x, m')))"

subsection \<open>Review of large changes\<close>

definition ApproveSource :: "error option \<Rightarrow> string \<Rightarrow> Manager \<Rightarrow> (error + MSource \<times> error option) \<times> Manager" where
  "ApproveSource io sid m =
     (case (lookup (mg_sources m) sid, lookup (mg_pending m) sid) of
        (Some src, Some es) \<Rightarrow>
          (case (diffEntries (entriesForSource (mg_entries m) sid) es, countImported es) of
             ((added, removed, changed), (uns, allow)) \<Rightarrow>
               (let s = src\<lparr>so_Added := added, so_Removed := removed, so_Changed := changed,
                            so_Entries := int (length es), so_Unsupported := uns, so_AllowExceptions := allow,
                            so_PendingReview := False\<rparr>;
                    m1 = applyEntriesLocked sid es m;
                    m2 = m1\<lparr>mg_pending := del sid (mg_pending m1), mg_sources := put sid s (mg_sources m1)\<rparr>
                in case persisted io s m2 of (x, m') \<Rightarrow> (Inr x, m')))
      | _ \<Rightarrow> (Inl ErrNotExist, m))"

definition RejectSource :: "error option \<Rightarrow> string \<Rightarrow> Manager \<Rightarrow> (error + MSource \<times> error option) \<times> Manager" where
  "RejectSource io sid m =
     (case (lookup (mg_sources m) sid, lookup (mg_pending m) sid) of
        (Some src, Some es) \<Rightarrow>
          (let s = src\<lparr>so_PendingReview := False\<rparr>;
               m2 = m\<lparr>mg_pending := del sid (mg_pending m), mg_sources := put sid s (mg_sources m)\<rparr>
           in case persisted io s m2 of (x, m') \<Rightarrow> (Inr x, m'))
      | _ \<Rightarrow> (Inl ErrNotExist, m))"

subsection \<open>The scheduler\<close>

definition due_sources :: "env \<Rightarrow> time \<Rightarrow> Manager \<Rightarrow> string list" where
  "due_sources E now m =
     map so_ID (filter (\<lambda>src. so_Enabled src \<and> \<not> (\<not> IsZero (so_NextSync src) \<and> now < so_NextSync src))
       (ListSources E now m))"

text \<open>
  With at most one parallel sync the due sources are synced in order; \<open>clock\<close> gives the readings
  and the random draw of each. With more, they run concurrently: any interleaving of their steps.
\<close>

fun sync_all ::
  "env \<Rightarrow> agh_api \<Rightarrow> (string \<Rightarrow> time \<times> time \<times> int \<times> error option) \<Rightarrow> string list \<Rightarrow> Manager \<Rightarrow> Manager" where
  "sync_all E api clock [] m = m"
| "sync_all E api clock (sid # sids) m =
     (case clock sid of (start, now, r, io) \<Rightarrow>
        sync_all E api clock sids (snd (SyncSource E api start now r io sid m)))"

definition SyncDue ::
  "env \<Rightarrow> agh_api \<Rightarrow> (string \<Rightarrow> time \<times> time \<times> int \<times> error option) \<Rightarrow> time \<Rightarrow> Manager \<Rightarrow> Manager" where
  "SyncDue E api clock now m =
     (if \<not> sd_Enabled (cf_Scheduler (mg_cfg m)) then m else sync_all E api clock (due_sources E now m) m)"

subsection \<open>Facts\<close>

lemma keys_filter:
  "wf_map m \<Longrightarrow> k \<in> set (map fst (filter (\<lambda>(k, v). P v) m)) \<longleftrightarrow> (\<exists>v. lookup m k = Some v \<and> P v)"
  by (force simp: in_set_lookup[symmetric] simp del: map_of_eq_Some_iff)

lemma by_id_lookup: "lookup (by_id es) k = find (\<lambda>e. en_ID e = k) (rev es)"
  by (simp add: by_id_def lookup_fold_put[where g = "\<lambda>e. e"] split: option.split)

lemma by_id_wf: "wf_map (by_id es)"
  by (simp add: by_id_def wf_map_fold_put)

lemma by_id_None: "lookup (by_id es) k = None \<longleftrightarrow> k \<notin> en_ID ` set es"
  by (auto simp: by_id_lookup find_rev_None)

lemma apply_lookup:
  assumes "wf_map (mg_entries m)"
  shows "lookup (mg_entries (applyEntriesLocked sid es m)) k =
    (case find (\<lambda>e. en_ID e = k) (rev es) of
       Some e \<Rightarrow> Some (set_source_name sid e)
     | None \<Rightarrow> (case lookup (mg_entries m) k of None \<Rightarrow> None
                | Some e \<Rightarrow> if from_source sid e then None else Some e))"
  using assms
  by (simp add: applyEntriesLocked_def Let_def lookup_fold_put lookup_del_if split: option.split)

lemma apply_frame [simp]:
  "mg_sources (applyEntriesLocked sid es m) = mg_sources m" "mg_pending (applyEntriesLocked sid es m) = mg_pending m"
  "mg_cfg (applyEntriesLocked sid es m) = mg_cfg m" "mg_overrides (applyEntriesLocked sid es m) = mg_overrides m"
  "mg_rollbacks (applyEntriesLocked sid es m) = mg_rollbacks m"
  "mg_feedHistory (applyEntriesLocked sid es m) = mg_feedHistory m"
  "mg_feedSnapshot (applyEntriesLocked sid es m) = mg_feedSnapshot m"
  "mg_preset (applyEntriesLocked sid es m) = mg_preset m"
  by (simp_all add: applyEntriesLocked_def Let_def)

lemma apply_wf:
  "wf_map (mg_entries m) \<Longrightarrow> wf_map (mg_entries (applyEntriesLocked sid es m))"
  "wf_map (mg_feedSeen m) \<Longrightarrow> wf_map (mg_feedSeen (applyEntriesLocked sid es m))"
  by (simp_all add: applyEntriesLocked_def Let_def wf_map_fold_put)

lemma set_source_name_simps [simp]:
  "en_ID (set_source_name sid e) = en_ID e" "from_source sid (set_source_name sid e)"
  "from_source sid' (set_source_name sid e) \<longleftrightarrow> sid' = sid"
  "en_Match (set_source_name sid e) = en_Match e"
  by (auto simp: set_source_name_def from_source_def)

text \<open>
  The manager's invariant: maps are keyed by identifier, and a source is flagged for review exactly
  when a change of it is pending; the two histories hold at most 50 records.
\<close>

definition agh_inv :: "Manager \<Rightarrow> bool" where
  "agh_inv m \<longleftrightarrow> wf_map (mg_sources m) \<and> wf_map (mg_entries m) \<and> wf_map (mg_pending m) \<and>
     wf_map (mg_overrides m) \<and> wf_map (mg_feedSeen m) \<and>
     (\<forall>k s. lookup (mg_sources m) k = Some s \<longrightarrow> so_ID s = k) \<and>
     (\<forall>k e. lookup (mg_entries m) k = Some e \<longrightarrow> en_ID e = k) \<and>
     (\<forall>k. lookup (mg_pending m) k \<noteq> None \<longleftrightarrow> (\<exists>s. lookup (mg_sources m) k = Some s \<and> so_PendingReview s)) \<and>
     length (mg_rollbacks m) \<le> 50 \<and> length (mg_feedHistory m) \<le> 50"

lemma agh_inv_persist: "agh_inv m \<Longrightarrow> agh_inv (snd (persistState io m))"
  by (simp add: agh_inv_def)

lemma agh_inv_new: "agh_inv (newManager cfg)"
  by (simp add: agh_inv_def newManager_def)

lemma SetConfig_inv: "agh_inv m \<Longrightarrow> agh_inv (SetConfig cfg m)"
  by (simp add: agh_inv_def SetConfig_def)

lemma persisted_split: "(case persisted io v m of (x, m') \<Rightarrow> (Inr x, m')) = (Inr (v, io), snd (persistState io m))"
  using persisted_snd[of io v m] by (cases "persisted io v m") auto

lemma Upsert_source_inv:
  assumes "agh_inv m" "lookup (mg_sources m) (so_ID (source_defaults E src)) = None \<longrightarrow> \<not> so_PendingReview src"
  shows "agh_inv (snd (UpsertSource E io src m))"
proof -
  let ?s2 = "(source_defaults E src)
    \<lparr>so_SyncInterval := (if so_SyncInterval (source_defaults E src) = [] then sd_DefaultSyncInterval (cf_Scheduler (mg_cfg m))
                         else so_SyncInterval (source_defaults E src)),
     so_StaleFeedPolicy := (if so_StaleFeedPolicy (source_defaults E src) = [] then StaleFeedPolicyExclude
                            else so_StaleFeedPolicy (source_defaults E src))\<rparr>"
  have pend: "so_PendingReview (source_defaults E src) = so_PendingReview src"
    by (simp add: source_defaults_def Let_def)
  show ?thesis
  proof (cases "source_valid ?s2")
    case (Some e)
    with assms(1) show ?thesis by (simp add: UpsertSource_def Let_def)
  next
    case None
    with assms pend show ?thesis
      by (auto simp: UpsertSource_def Let_def persisted_split agh_inv_persist agh_inv_def keep_progress_def
          split: option.splits)
  qed
qed

lemma DeleteSource_inv: "agh_inv m \<Longrightarrow> agh_inv (snd (DeleteSource io sid m))"
  unfolding DeleteSource_def Let_def
  by (rule agh_inv_persist)
    (auto simp: agh_inv_def lookup_del_if split: option.splits if_splits)

lemma apply_inv_entries:
  "wf_map (mg_entries m) \<Longrightarrow> \<forall>k e. lookup (mg_entries m) k = Some e \<longrightarrow> en_ID e = k \<Longrightarrow>
   lookup (mg_entries (applyEntriesLocked sid es m)) k = Some e \<Longrightarrow> en_ID e = k"
  by (auto simp: apply_lookup dest: find_SomeD split: option.splits if_splits)

lemma sync_result_simps [simp]:
  "so_ID (sync_failed E start now r sid src err m) = so_ID src"
  "so_PendingReview (sync_failed E start now r sid src err m) = so_PendingReview src"
  "so_ID (sync_fetched E start now r sid src es m) = so_ID src"
  by (simp_all add: sync_failed_def sync_fetched_def Let_def split: prod.split)

lemma sync_commit_inv:
  assumes "agh_inv m" "lookup (mg_sources m) sid = Some src"
  shows "agh_inv (snd (sync_commit E start now r io sid src fetched m))"
proof -
  have id: "so_ID src = sid" using assms by (simp add: agh_inv_def)
  show ?thesis
  proof (cases fetched)
    case (Inl err)
    with assms id show ?thesis by (auto simp: sync_commit_def Let_def agh_inv_def)
  next
    case (Inr es)
    let ?s = "sync_fetched E start now r sid src es m"
    let ?m1 = "m\<lparr>mg_sources := put sid ?s (mg_sources m)\<rparr>"
    show ?thesis
    proof (cases "so_PendingReview ?s")
      case True
      with Inr assms id show ?thesis
        by (auto simp: sync_commit_def Let_def persisted_snd agh_inv_def)
    next
      case False
      have e: "\<forall>k e. lookup (mg_entries (applyEntriesLocked sid es ?m1)) k = Some e \<longrightarrow> en_ID e = k"
        using assms(1) apply_inv_entries[where m = ?m1 and sid = sid and es = es] by (auto simp: agh_inv_def)
      show ?thesis
        using Inr False assms(1) id e
        by (auto simp: sync_commit_def Let_def persisted_snd agh_inv_def apply_wf)
    qed
  qed
qed

lemma SyncSource_inv: "agh_inv m \<Longrightarrow> agh_inv (snd (SyncSource E api start now r io sid m))"
  using sync_commit_inv[of m sid]
  by (auto simp: SyncSource_def sync_begin_def split: option.splits prod.splits) (metis snd_conv)

lemma ApproveSource_inv: "agh_inv m \<Longrightarrow> agh_inv (snd (ApproveSource io sid m))"
proof (cases "lookup (mg_sources m) sid"; cases "lookup (mg_pending m) sid")
  fix src es
  assume inv: "agh_inv m" and s: "lookup (mg_sources m) sid = Some src" "lookup (mg_pending m) sid = Some es"
  have "\<forall>k e. lookup (mg_entries (applyEntriesLocked sid es m)) k = Some e \<longrightarrow> en_ID e = k"
    using inv apply_inv_entries[where m = m and sid = sid and es = es] by (auto simp: agh_inv_def)
  with inv s show ?thesis
    by (auto simp: ApproveSource_def Let_def persisted_split agh_inv_def apply_wf split: prod.split)
qed (simp_all add: ApproveSource_def)

lemma RejectSource_inv: "agh_inv m \<Longrightarrow> agh_inv (snd (RejectSource io sid m))"
  by (auto simp: RejectSource_def Let_def persisted_split agh_inv_def split: option.split)

lemma card_ids: "distinct (map en_ID es) \<Longrightarrow> length es = card (en_ID ` set es)"
  by (metis distinct_card length_map set_map)

lemma diff_counts:
  assumes "distinct (map en_ID prev)" "distinct (map en_ID next)"
  shows "fst (diffEntries prev next) = int (card (en_ID ` set next - en_ID ` set prev))"
    and "fst (snd (diffEntries prev next)) = int (card (en_ID ` set prev - en_ID ` set next))"
proof -
  let ?new = "filter (\<lambda>e. lookup (by_id prev) (en_ID e) = None) next"
  have "distinct (map en_ID ?new)" using assms(2) by (simp add: distinct_map_filter)
  moreover have "en_ID ` set ?new = en_ID ` set next - en_ID ` set prev"
    by (auto simp: by_id_None)
  ultimately show "fst (diffEntries prev next) = int (card (en_ID ` set next - en_ID ` set prev))"
    using card_ids[of ?new] by (simp add: diffEntries_def Let_def)
  let ?old = "filter (\<lambda>i. lookup (by_id next) i = None) (map fst (by_id prev))"
  have "distinct ?old" using by_id_wf[of prev] by (simp add: wf_map_def)
  moreover have "set ?old = en_ID ` set prev - en_ID ` set next"
  proof -
    have "i \<in> set (map fst (by_id prev)) \<longleftrightarrow> i \<in> en_ID ` set prev" for i
      using map_keys_iff[of i "by_id prev"] by (auto simp: by_id_None)
    then have "set (map fst (by_id prev)) = en_ID ` set prev" by blast
    then show ?thesis by (auto simp: by_id_None)
  qed
  ultimately show "fst (snd (diffEntries prev next)) = int (card (en_ID ` set prev - en_ID ` set next))"
    using distinct_card[of ?old] by (simp add: diffEntries_def Let_def)
qed

lemma approve_result:
  assumes "lookup (mg_sources m) sid = Some src" "lookup (mg_pending m) sid = Some es"
  shows "mg_entries (snd (ApproveSource io sid m)) = mg_entries (applyEntriesLocked sid es m)"
    and "mg_pending (snd (ApproveSource io sid m)) = del sid (mg_pending m)"
  using assms by (simp_all add: ApproveSource_def Let_def persisted_split split: prod.split)

lemma reject_result:
  assumes "lookup (mg_sources m) sid = Some src" "lookup (mg_pending m) sid = Some es"
  shows "mg_entries (snd (RejectSource io sid m)) = mg_entries m"
    and "mg_pending (snd (RejectSource io sid m)) = del sid (mg_pending m)"
  using assms by (simp_all add: RejectSource_def Let_def persisted_split)

subsection \<open>Properties\<close>

text \<open>C16: A sync that changes too much changes no entry: the fetched list only waits. Approving it
  then installs exactly that list for the source (the last of entries with one identifier) and
  keeps the other sources' entries whose identifiers it does not take; rejecting it leaves every
  entry as it was. Either way nothing stays pending.\<close>

theorem review_holds_back_large_changes:
  assumes "agh_inv m" "lookup (mg_sources m) sid = Some src"
    and "largeChange (sync_fetched E start now r sid src es m) (cf_Scheduler (mg_cfg m))"
  shows "let m1 = snd (sync_commit E start now r io sid src (Inr es) m);
             ma = snd (ApproveSource io' sid m1); mr = snd (RejectSource io' sid m1) in
    mg_entries m1 = mg_entries m \<and> lookup (mg_pending m1) sid = Some es \<and>
    lookup (mg_pending ma) sid = None \<and> lookup (mg_pending mr) sid = None \<and>
    mg_entries mr = mg_entries m \<and>
    (\<forall>k. lookup (mg_entries ma) k =
      (case find (\<lambda>e. en_ID e = k) (rev es) of
         Some e \<Rightarrow> Some (set_source_name sid e)
       | None \<Rightarrow> (case lookup (mg_entries m) k of None \<Rightarrow> None
                  | Some e \<Rightarrow> if from_source sid e then None else Some e)))"
proof -
  let ?s = "sync_fetched E start now r sid src es m"
  let ?m1 = "snd (sync_commit E start now r io sid src (Inr es) m)"
  have "so_PendingReview ?s"
    using assms(3) by (auto simp: sync_fetched_def largeChange_def Let_def split: prod.splits)
  then have m1: "mg_entries ?m1 = mg_entries m" "mg_sources ?m1 = put sid ?s (mg_sources m)"
    "mg_pending ?m1 = put sid es (mg_pending m)"
    by (simp_all add: sync_commit_def Let_def persisted_snd)
  then have l: "lookup (mg_sources ?m1) sid = Some ?s" "lookup (mg_pending ?m1) sid = Some es" by simp_all
  have "wf_map (mg_entries ?m1)" using assms(1) m1 by (simp add: agh_inv_def)
  then show ?thesis
    using m1 l by (simp add: Let_def approve_result reject_result apply_lookup cong: option.case_cong)
qed

definition ex_env :: env where
  "ex_env = \<lparr>env_digest = (\<lambda>s. s), env_parseDuration = (\<lambda>_. None), env_rfc3339 = show_int, env_parseIP = (\<lambda>s. Some (IPv4 s))\<rparr>"

definition ex_source :: MSource where
  "ex_source = \<lparr>so_ID = ''s1'', so_Type = SourceManual, so_Name = ''list'', so_URL = [], so_Content = ''||a.b^'',
     so_Enabled = True, so_SyncInterval = [], so_NextSync = 0, so_LastSyncStarted = 0, so_LastSuccess = 0,
     so_LastError = [], so_LastDurationMS = 0, so_ConsecutiveFails = 0, so_Entries = 0, so_Added = 0,
     so_Removed = 0, so_Changed = 0, so_Unsupported = 0, so_AllowExceptions = 0, so_PendingReview = False,
     so_Priority = 0, so_StaleFeedPolicy = StaleFeedPolicyExclude, so_Health = []\<rparr>"

definition ex_sched :: AGHManagedScheduler where
  "ex_sched = \<lparr>sd_Enabled = True, sd_DefaultSyncInterval = [], sd_SyncTimeout = [], sd_MaxParallelSyncs = 1,
     sd_Jitter = [], sd_StaleSourceTTL = [], sd_LargeChangeThresholdPercent = 50, sd_LargeChangeThresholdCount = 0,
     sd_LargeChangeRequiresReview = True\<rparr>"

definition ex_config :: AGHManagedConfig where
  "ex_config = \<lparr>cf_Enabled = True, cf_FeedPath = [], cf_TargetName = ''t.local'', cf_TargetMode = [],
     cf_StaticIPv4 = [], cf_StaticIPv6 = [], cf_EmergencyEmpty = False,
     cf_AutoEmergencyEmptyOnTargetFailure = False, cf_DefaultPreset = [], cf_StaleTargetTTL = [],
     cf_Scheduler = ex_sched\<rparr>"

definition ex_entry_of :: "string \<Rightarrow> string \<Rightarrow> string \<Rightarrow> Entry" where
  "ex_entry_of sid eid d = (normalize 1 (blank_entry \<lparr>src_Type = SourceManual, src_Name = sid, src_URL = []\<rparr>
     (''||'' @ d @ [CHR 0x5E]) d []))\<lparr>en_ID := eid\<rparr>"

definition ex_manager :: Manager where
  "ex_manager = (newManager ex_config)\<lparr>mg_sources := [(''s1'', ex_source)],
     mg_entries := [(''e1'', ex_entry_of ''s1'' ''e1'' ''a.b''), (''e2'', ex_entry_of ''s1'' ''e2'' ''c.d'')]\<rparr>"

lemma ex_entry_simps [simp]:
  "en_ID (ex_entry_of sid eid d) = eid" "from_source s' (ex_entry_of sid eid d) \<longleftrightarrow> s' = sid"
  by (auto simp: ex_entry_of_def from_source_def normalize_def Let_def blank_entry_def)

lemma ex_manager_inv: "agh_inv ex_manager"
  by (auto simp: agh_inv_def ex_manager_def newManager_def wf_map_def ex_source_def)

theorem review_holds_back_large_changes_witness:
  "mg_entries (snd (sync_commit ex_env 2 3 0 None ''s1'' ex_source (Inr [ex_entry_of ''s1'' ''e3'' ''x.y'']) ex_manager))
     = mg_entries ex_manager"
proof -
  have s: "lookup (mg_sources ex_manager) ''s1'' = Some ex_source" by (simp add: ex_manager_def)
  have "largeChange (sync_fetched ex_env 2 3 0 ''s1'' ex_source [ex_entry_of ''s1'' ''e3'' ''x.y''] ex_manager)
      (cf_Scheduler (mg_cfg ex_manager))"
    by (simp add: largeChange_def sync_fetched_def countImported_def diffEntries_def by_id_def entriesForSource_def
        ex_manager_def newManager_def ex_config_def ex_sched_def Let_def)
  from review_holds_back_large_changes[OF ex_manager_inv s this] show ?thesis by (simp add: Let_def)
qed

text \<open>The counts of a sync are exact: with no identifier twice, what is added and what is removed
  account for the new number of entries of the source.\<close>

theorem sync_counts_are_exact:
  assumes "distinct (map en_ID prev)" "distinct (map en_ID next)" "diffEntries prev next = (added, removed, changed)"
  shows "int (length next) = int (length prev) + added - removed \<and>
    added = int (card (en_ID ` set next - en_ID ` set prev)) \<and>
    removed = int (card (en_ID ` set prev - en_ID ` set next)) \<and> 0 \<le> changed \<and>
    changed \<le> int (length next) - added"
proof -
  have ar: "added = int (card (en_ID ` set next - en_ID ` set prev))"
    "removed = int (card (en_ID ` set prev - en_ID ` set next))"
    using diff_counts[OF assms(1,2)] assms(3) by simp_all
  have "card (en_ID ` set next) + card (en_ID ` set prev - en_ID ` set next) =
      card (en_ID ` set prev) + card (en_ID ` set next - en_ID ` set prev)"
    using card_Un_disjoint[of "en_ID ` set next" "en_ID ` set prev - en_ID ` set next"]
      card_Un_disjoint[of "en_ID ` set prev" "en_ID ` set next - en_ID ` set prev"]
    by (simp add: Un_commute)
  then have "int (length next) = int (length prev) + added - removed"
    using ar card_ids[OF assms(1)] card_ids[OF assms(2)] by simp
  moreover have "changed + added \<le> int (length next)"
  proof -
    have "length (filter (\<lambda>e. case lookup (by_id prev) (en_ID e) of None \<Rightarrow> False | Some old \<Rightarrow> entry_changed old e) xs) +
        length (filter (\<lambda>e. lookup (by_id prev) (en_ID e) = None) xs) \<le> length xs" for xs
      by (induction xs) (auto split: option.split)
    from this[of "next"] show ?thesis using assms(3) by (auto simp: diffEntries_def Let_def)
  qed
  moreover have "0 \<le> changed" using assms(3) by (auto simp: diffEntries_def Let_def)
  ultimately show ?thesis using ar by simp
qed

theorem sync_counts_are_exact_witness:
  "diffEntries [ex_entry_of ''s'' ''e1'' ''a''] [ex_entry_of ''s'' ''e2'' ''b''] = (1, 1, 0) \<and>
   int (length [ex_entry_of ''s'' ''e2'' ''b'']) = 1 + 1 - 1"
proof -
  have d: "diffEntries [ex_entry_of ''s'' ''e1'' ''a''] [ex_entry_of ''s'' ''e2'' ''b''] = (1, 1, 0)"
    by (simp add: diffEntries_def by_id_def Let_def)
  from sync_counts_are_exact[OF _ _ this] d show ?thesis by simp
qed

text \<open>Deleting a source removes the source, its pending list, all its entries and the overrides of
  those entries, and keeps the entries of every other source and their overrides.\<close>

theorem DeleteSource_removes_all:
  assumes "agh_inv m"
  shows "let m' = snd (DeleteSource io sid m) in
    lookup (mg_sources m') sid = None \<and> lookup (mg_pending m') sid = None \<and>
    (\<forall>k. lookup (mg_entries m') k =
       (case lookup (mg_entries m) k of None \<Rightarrow> None | Some e \<Rightarrow> if from_source sid e then None else Some e)) \<and>
    (\<forall>k e. lookup (mg_entries m) k = Some e \<longrightarrow>
       lookup (mg_overrides m') k = (if from_source sid e then None else lookup (mg_overrides m) k))"
proof -
  have wf: "wf_map (mg_entries m)" "wf_map (mg_overrides m)" using assms by (simp_all add: agh_inv_def)
  show ?thesis
    using keys_filter[OF wf(1), of _ "from_source sid"]
    by (auto simp: DeleteSource_def Let_def lookup_del_if wf simp del: set_map split: option.split)
qed

theorem DeleteSource_removes_all_witness:
  "lookup (mg_entries (snd (DeleteSource None ''s1'' ex_manager))) ''e1'' = None"
  using DeleteSource_removes_all[OF ex_manager_inv, of None "''s1''"]
  by (simp add: Let_def ex_manager_def)

text \<open>A list that comes back empty is applied without review when only the percentage of changes is
  limited: the percentage is taken of the new number of entries, and none is no change. Every
  entry of the source is dropped.\<close>

theorem empty_list_bypasses_review:
  assumes "agh_inv m" "lookup (mg_sources m) sid = Some src"
    and "sd_LargeChangeThresholdCount (cf_Scheduler (mg_cfg m)) \<le> 0"
  shows "let m' = snd (sync_commit E start now r io sid src (Inr []) m) in
    lookup (mg_pending m') sid = None \<and> entriesForSource (mg_entries m') sid = []"
proof -
  let ?s = "sync_fetched E start now r sid src [] m"
  have "\<not> so_PendingReview ?s"
    using assms(3) by (auto simp: sync_fetched_def largeChange_def Let_def split: prod.splits)
  then show ?thesis
    by (auto simp: sync_commit_def Let_def persisted_snd entriesForSource_def applyEntriesLocked_def del_if_def
        filter_empty_conv)
qed

theorem empty_list_bypasses_review_witness:
  "entriesForSource (mg_entries (snd (sync_commit ex_env 2 3 0 None ''s1'' ex_source (Inr []) ex_manager))) ''s1'' = []"
proof -
  have "lookup (mg_sources ex_manager) ''s1'' = Some ex_source"
    "sd_LargeChangeThresholdCount (cf_Scheduler (mg_cfg ex_manager)) \<le> 0"
    by (simp_all add: ex_manager_def newManager_def ex_config_def ex_sched_def)
  from empty_list_bypasses_review[OF ex_manager_inv this] show ?thesis by (simp add: Let_def)
qed

text \<open>A sync writes back the copy of the source it read before the fetch: a source deleted during
  the fetch is there again afterwards with the fetched entries, and an edit made during the fetch
  is lost.\<close>

theorem sync_undoes_concurrent_changes:
  assumes "sync_begin sid m = Some src" "agh_inv m"
    and "\<not> largeChange (sync_fetched E start now r sid src es (snd (DeleteSource io1 sid m))) (cf_Scheduler (mg_cfg m))"
    and "e \<in> set es"
  shows "let m1 = snd (DeleteSource io1 sid m); m2 = snd (sync_commit E start now r io2 sid src (Inr es) m1) in
      lookup (mg_sources m1) sid = None \<and>
      (\<exists>s. lookup (mg_sources m2) sid = Some s \<and> so_Content s = so_Content src \<and> so_URL s = so_URL src) \<and>
      lookup (mg_entries m2) (en_ID e) \<noteq> None \<and>
      (\<forall>m'. \<exists>s. lookup (mg_sources (snd (sync_commit E start now r io2 sid src (Inr es) m'))) sid = Some s \<and>
        so_URL s = so_URL src \<and> so_Content s = so_Content src \<and> so_Enabled s = so_Enabled src \<and>
        so_Priority s = so_Priority src)"
proof -
  have keep: "so_URL (sync_fetched E start now r sid src es x) = so_URL src"
    "so_Content (sync_fetched E start now r sid src es x) = so_Content src"
    "so_Enabled (sync_fetched E start now r sid src es x) = so_Enabled src"
    "so_Priority (sync_fetched E start now r sid src es x) = so_Priority src" for x
    by (simp_all add: sync_fetched_def Let_def split: prod.split)
  have src: "mg_sources (snd (sync_commit E start now r io2 sid src (Inr es) x)) =
      put sid (sync_fetched E start now r sid src es x) (mg_sources x)" for x
    by (simp add: sync_commit_def Let_def persisted_snd)
  let ?m1 = "snd (DeleteSource io1 sid m)"
  have cfg: "mg_cfg ?m1 = mg_cfg m" and wf: "wf_map (mg_entries ?m1)"
    using DeleteSource_inv[OF assms(2), of io1 sid] by (simp_all add: DeleteSource_def Let_def agh_inv_def)
  have "\<not> so_PendingReview (sync_fetched E start now r sid src es ?m1)"
    using assms(3) cfg by (auto simp: sync_fetched_def largeChange_def Let_def split: prod.splits)
  then have "mg_entries (snd (sync_commit E start now r io2 sid src (Inr es) ?m1)) =
      mg_entries (applyEntriesLocked sid es (?m1\<lparr>mg_sources := put sid (sync_fetched E start now r sid src es ?m1) (mg_sources ?m1)\<rparr>))"
    by (simp add: sync_commit_def Let_def persisted_snd)
  moreover have "find (\<lambda>x. en_ID x = en_ID e) (rev es) \<noteq> None"
    using assms(4) by (auto simp: find_None_iff)
  ultimately have "lookup (mg_entries (snd (sync_commit E start now r io2 sid src (Inr es) ?m1))) (en_ID e) \<noteq> None"
    using wf by (auto simp: apply_lookup)
  moreover have "lookup (mg_sources ?m1) sid = None" by (simp add: DeleteSource_def Let_def)
  ultimately show ?thesis by (simp add: Let_def src keep)
qed

theorem sync_undoes_concurrent_changes_witness:
  "lookup (mg_entries (snd (sync_commit ex_env 2 3 0 None ''s1'' ex_source (Inr [ex_entry_of ''s1'' ''e3'' ''x.y''])
     (snd (DeleteSource None ''s1'' ex_manager))))) ''e3'' \<noteq> None"
proof -
  have b: "sync_begin ''s1'' ex_manager = Some ex_source" by (simp add: sync_begin_def ex_manager_def)
  have "\<not> largeChange (sync_fetched ex_env 2 3 0 ''s1'' ex_source [ex_entry_of ''s1'' ''e3'' ''x.y'']
      (snd (DeleteSource None ''s1'' ex_manager))) (cf_Scheduler (mg_cfg ex_manager))"
    by (simp add: largeChange_def sync_fetched_def countImported_def diffEntries_def by_id_def entriesForSource_def
        ex_manager_def newManager_def ex_config_def ex_sched_def Let_def DeleteSource_def del_if_def)
  from sync_undoes_concurrent_changes[OF b ex_manager_inv this, of "ex_entry_of ''s1'' ''e3'' ''x.y''"]
  show ?thesis by (simp add: Let_def)
qed

text \<open>Applying the list of one source takes over every entry whose identifier is in the list, also
  those of another source, and the custom-rule sources of different servers give equal
  identifiers to equal rules: the identifier does not depend on the source the entries are
  fetched for. What the first source listed is then no longer among its entries.\<close>

theorem shared_identifiers_change_owner:
  assumes "wf_map (mg_entries m)" "lookup (mg_entries m) k = Some old" "from_source sid1 old"
    and "sid1 \<noteq> sid2" "e \<in> set es" "en_ID e = k"
  shows "(\<exists>e'. lookup (mg_entries (applyEntriesLocked sid2 es m)) k = Some e' \<and> from_source sid2 e' \<and>
      e' \<notin> set (entriesForSource (mg_entries (applyEntriesLocked sid2 es m)) sid1)) \<and>
    (so_Type src = SourceAGHCustomRules \<longrightarrow>
      fetchSource E now api (src\<lparr>so_ID := sid1\<rparr>) = fetchSource E now api (src\<lparr>so_ID := sid2\<rparr>))"
proof -
  have "find (\<lambda>x. en_ID x = k) (rev es) \<noteq> None" using assms(5,6) by (auto simp: find_None_iff)
  then obtain x where "find (\<lambda>x. en_ID x = k) (rev es) = Some x" by blast
  then have "lookup (mg_entries (applyEntriesLocked sid2 es m)) k = Some (set_source_name sid2 x)"
    using assms(1) by (simp add: apply_lookup)
  moreover have "set_source_name sid2 x \<notin> set (entriesForSource (mg_entries (applyEntriesLocked sid2 es m)) sid1)"
    using assms(4) by (auto simp: entriesForSource_def)
  moreover have "from_source sid2 (set_source_name sid2 x)" by simp
  moreover have "so_Type src = SourceAGHCustomRules \<longrightarrow>
      fetchSource E now api (src\<lparr>so_ID := sid1\<rparr>) = fetchSource E now api (src\<lparr>so_ID := sid2\<rparr>)"
    by (simp add: fetchSource_def source_consts)
  ultimately show ?thesis by blast
qed

definition ex_api' :: agh_api where
  "ex_api' = \<lparr>api_get = (\<lambda>_. Inl (Err ''offline'')), api_url = Inr, api_status = (\<lambda>_. Inl (Err ''json'')),
     api_log = (\<lambda>_. Inl (Err ''json''))\<rparr>"

theorem shared_identifiers_change_owner_witness:
  "\<exists>e'. lookup (mg_entries (applyEntriesLocked ''s2'' [ex_entry_of ''s2'' ''e1'' ''a.b''] ex_manager)) ''e1'' = Some e' \<and>
     from_source ''s2'' e'"
proof -
  have "wf_map (mg_entries ex_manager)" "lookup (mg_entries ex_manager) ''e1'' = Some (ex_entry_of ''s1'' ''e1'' ''a.b'')"
    using ex_manager_inv by (simp_all add: agh_inv_def) (simp add: ex_manager_def)
  from shared_identifiers_change_owner[OF this, of "''s1''" "''s2''" "ex_entry_of ''s2'' ''e1'' ''a.b''"
      "[ex_entry_of ''s2'' ''e1'' ''a.b'']" ex_source ex_env 1 ex_api']
  show ?thesis by auto
qed

end
