(* ===== verification/AghCatalog.thy ===== *)
theory AghCatalog
  imports AghSources
begin

text \<open>
  The editable catalog of the managed feeds, \<^verbatim>\<open>internal/aghmanaged/manager.go\<close>: rows with
  their overrides, filtering and paging, facets, conflicts and their resolution, patches and
  rollbacks.
\<close>

subsection \<open>The order of rows\<close>

text \<open>The comparator of the row sorts, as an order on the pairs it compares.\<close>

datatype row_key = RowKey (rk_domain: string) (rk_id: string)

instantiation row_key :: linorder
begin

definition less_eq_row_key :: "row_key \<Rightarrow> row_key \<Rightarrow> bool" where
  "less_eq_row_key a b \<longleftrightarrow> (if rk_domain a \<noteq> rk_domain b then rk_domain a < rk_domain b else rk_id a \<le> rk_id b)"

definition less_row_key :: "row_key \<Rightarrow> row_key \<Rightarrow> bool" where
  "less_row_key a b \<longleftrightarrow> (if rk_domain a \<noteq> rk_domain b then rk_domain a < rk_domain b else rk_id a < rk_id b)"

instance
proof
  fix a b c :: row_key
  show "a < b \<longleftrightarrow> a \<le> b \<and> \<not> b \<le> a"
    by (auto simp: less_eq_row_key_def less_row_key_def)
  show "a \<le> a" by (simp add: less_eq_row_key_def)
  show "a \<le> b \<Longrightarrow> b \<le> c \<Longrightarrow> a \<le> c"
    by (auto simp: less_eq_row_key_def split: if_splits)
  show "a \<le> b \<Longrightarrow> b \<le> a \<Longrightarrow> a = b"
    by (cases a; cases b) (auto simp: less_eq_row_key_def split: if_splits)
  show "a \<le> b \<or> b \<le> a" by (auto simp: less_eq_row_key_def)
qed

end

subsection \<open>Rows\<close>

record CatalogRow =
  cr_Entry :: Entry
  cr_SourceIDs :: "string list"
  cr_SourceRefs :: "SourceRef list"
  cr_SourcePriority :: int
  cr_Action :: string
  cr_Notes :: string
  cr_RewriteEnabled :: bool
  cr_RewriteReason :: string
  cr_LastChangedBy :: string
  cr_LastFeedIncludedAt :: time

definition sourceRefMapLocked :: "Manager \<Rightarrow> (string, SourceRef) gomap" where
  "sourceRefMapLocked m =
     map (\<lambda>(i, s). (i, \<lparr>sr_ID = i, sr_Name = so_Name s, sr_Type = so_Type s, sr_URL = so_URL s,
                         sr_Priority = so_Priority s\<rparr>)) (mg_sources m)"

definition sourceRefsFromMap :: "(string, SourceRef) gomap \<Rightarrow> string list \<Rightarrow> SourceRef list" where
  "sourceRefsFromMap refs ids =
     map (\<lambda>i. case lookup refs i of Some r \<Rightarrow> r
              | None \<Rightarrow> \<lparr>sr_ID = i, sr_Name = [], sr_Type = [], sr_URL = [], sr_Priority = 0\<rparr>)
       (unique_from {[]} ids)"

definition sourcePriorityLocked :: "Manager \<Rightarrow> string \<Rightarrow> int" where
  "sourcePriorityLocked m sid = (case lookup (mg_sources m) sid of None \<Rightarrow> 0 | Some s \<Rightarrow> so_Priority s)"

definition sourcePrioritiesLocked :: "Manager \<Rightarrow> (string, int) gomap" where
  "sourcePrioritiesLocked m = map (\<lambda>(i, s). (i, so_Priority s)) (mg_sources m)"

definition effective_cfg :: "Manager \<Rightarrow> AGHManagedConfig" where
  "effective_cfg m = (mg_cfg m)\<lparr>cf_DefaultPreset := effectivePreset (mg_cfg m) (mg_preset m)\<rparr>"

definition catalogRowFromEntryLocked :: "Manager \<Rightarrow> Entry \<Rightarrow> CatalogOverride \<Rightarrow> CatalogRow" where
  "catalogRowFromEntryLocked m e ov =
     (let sn = src_Name (en_Source e) in
      \<lparr>cr_Entry = e, cr_SourceIDs = [sn], cr_SourceRefs = sourceRefsFromMap (sourceRefMapLocked m) [sn],
       cr_SourcePriority = sourcePriorityLocked m sn, cr_Action = ov_Action ov, cr_Notes = ov_Notes ov,
       cr_RewriteEnabled = rewriteEnabled e ov (effective_cfg m), cr_RewriteReason = ov_RewriteReason ov,
       cr_LastChangedBy = ov_LastChangedBy ov, cr_LastFeedIncludedAt = get_or 0 (mg_feedSeen m) (en_ID e)\<rparr>)"

definition catalogRowLocked :: "Manager \<Rightarrow> Entry \<Rightarrow> CatalogRow" where
  "catalogRowLocked m e =
     (let e' = applyOverrideLocked m e in catalogRowFromEntryLocked m e' (override_of m (en_ID e')))"

definition row_key_of :: "CatalogRow \<Rightarrow> row_key" where
  "row_key_of r = RowKey (m_Domain (en_Match (cr_Entry r))) (en_ID (cr_Entry r))"

definition sortCatalogRows :: "CatalogRow list \<Rightarrow> CatalogRow list" where
  "sortCatalogRows rows = sort_key row_key_of rows"

subsection \<open>Queries and pages\<close>

record CatalogQuery =
  q_Q :: string
  q_Source :: string
  q_Category :: string
  q_ResourceType :: string
  q_ReviewStatus :: string
  q_RewriteEnabled :: "bool option"
  q_Unsupported :: "bool option"
  q_Limit :: int
  q_Offset :: int

definition zero_query :: CatalogQuery where
  "zero_query = \<lparr>q_Q = [], q_Source = [], q_Category = [], q_ResourceType = [], q_ReviewStatus = [],
     q_RewriteEnabled = None, q_Unsupported = None, q_Limit = 0, q_Offset = 0\<rparr>"

definition ref_words :: "SourceRef list \<Rightarrow> string list" where
  "ref_words refs =
     concat (map (\<lambda>r. [sr_ID r, sr_Name r, sr_Type r, sr_URL r, show_int (sr_Priority r)]) refs)"

definition catalogRowSearchText :: "CatalogRow \<Rightarrow> string" where
  "catalogRowSearchText row =
     (let e = cr_Entry row in
      ToLower (Join
        [en_ID e, m_Domain (en_Match e), m_Path (en_Match e), Join (cr_SourceIDs row) '' '',
         Join (ref_words (cr_SourceRefs row)) '' '', en_Category e, en_ResourceType e, en_Risk e,
         en_ReviewStatus e, en_Confidence e, en_ExpectedCatalog e, cr_Action row, cr_Notes row,
         cr_RewriteReason row, cr_LastChangedBy row, en_OriginalRule e] '' ''))"

definition search_ok :: "string \<Rightarrow> string \<Rightarrow> bool" where
  "search_ok q text \<longleftrightarrow> TrimSpace q = [] \<or> Contains text (ToLower (TrimSpace q))"

definition opt_ok :: "bool option \<Rightarrow> bool \<Rightarrow> bool" where
  "opt_ok want have \<longleftrightarrow> (case want of None \<Rightarrow> True | Some w \<Rightarrow> have = w)"

definition str_ok :: "string \<Rightarrow> string \<Rightarrow> bool" where
  "str_ok want have \<longleftrightarrow> want = [] \<or> have = want"

definition catalogRowMatchesQuery :: "CatalogRow \<Rightarrow> CatalogQuery \<Rightarrow> bool" where
  "catalogRowMatchesQuery row q \<longleftrightarrow>
     (q_Source q = [] \<or> q_Source q \<in> set (cr_SourceIDs row)) \<and>
     str_ok (q_Category q) (en_Category (cr_Entry row)) \<and>
     str_ok (q_ResourceType q) (en_ResourceType (cr_Entry row)) \<and>
     str_ok (q_ReviewStatus q) (en_ReviewStatus (cr_Entry row)) \<and>
     opt_ok (q_RewriteEnabled q) (cr_RewriteEnabled row) \<and>
     opt_ok (q_Unsupported q) (en_Unsupported (cr_Entry row)) \<and>
     search_ok (q_Q q) (catalogRowSearchText row)"

text \<open>
  The slice of a page, shared by the three paging functions of the code: the sum of offset and
  limit is a 64-bit sum, and a slice out of range panics.
\<close>

record 'a page =
  pg_Entries :: "'a list"
  pg_Total :: int
  pg_Limit :: int
  pg_Offset :: int

definition page_slice :: "int \<Rightarrow> int \<Rightarrow> 'a list \<Rightarrow> 'a page option" where
  "page_slice limit offset0 rows =
     (let total = int (length rows);
          offset1 = (if offset0 < 0 then 0 else offset0);
          offset = (if offset1 > total then total else offset1);
          en = (if limit > 0 \<and> wrap64 (offset + limit) < total then wrap64 (offset + limit) else total)
      in map_option (\<lambda>es. \<lparr>pg_Entries = es, pg_Total = total, pg_Limit = limit, pg_Offset = offset\<rparr>)
           (go_slice offset en rows))"

definition catalogPage :: "CatalogRow list \<Rightarrow> CatalogQuery \<Rightarrow> CatalogRow page option" where
  "catalogPage rows q = page_slice (q_Limit q) (q_Offset q) rows"

definition CatalogPage :: "Manager \<Rightarrow> CatalogQuery \<Rightarrow> CatalogRow page option" where
  "CatalogPage m q =
     catalogPage (sortCatalogRows (filter (\<lambda>r. catalogRowMatchesQuery r q)
       (map (catalogRowLocked m) (map snd (mg_entries m))))) q"

definition CatalogRows :: "Manager \<Rightarrow> CatalogRow list option" where
  "CatalogRows m = map_option pg_Entries (CatalogPage m zero_query)"

definition SourceEntriesPage :: "Manager \<Rightarrow> string \<Rightarrow> CatalogQuery \<Rightarrow> error + CatalogRow page option" where
  "SourceEntriesPage m sid q =
     (if lookup (mg_sources m) sid = None then Inl ErrNotExist
      else Inr (catalogPage (sortCatalogRows (filter (\<lambda>r. catalogRowMatchesQuery r q)
             (map (catalogRowLocked m) (entriesForSource (mg_entries m) sid)))) q))"

definition sortedKeys :: "string list \<Rightarrow> string list" where
  "sortedKeys xs = sort (unique_from {} xs)"

record CatalogFacets =
  fc_Sources :: "string list"
  fc_Categories :: "string list"
  fc_ResourceTypes :: "string list"
  fc_ReviewStatuses :: "string list"
  fc_Unsupported :: int
  fc_Supported :: int
  fc_Total :: int

definition agh_CatalogFacets :: "Manager \<Rightarrow> CatalogQuery \<Rightarrow> CatalogFacets" where
  "agh_CatalogFacets m q =
     (let rows = filter (\<lambda>r. catalogRowMatchesQuery r q) (map (catalogRowLocked m) (map snd (mg_entries m)));
          es = map cr_Entry rows;
          keys = (\<lambda>f. sortedKeys (filter (\<lambda>s. s \<noteq> []) (map f es)))
      in \<lparr>fc_Sources = sortedKeys (filter (\<lambda>s. s \<noteq> []) (concat (map cr_SourceIDs rows))),
          fc_Categories = keys en_Category, fc_ResourceTypes = keys en_ResourceType,
          fc_ReviewStatuses = keys en_ReviewStatus,
          fc_Unsupported = int (length (filter en_Unsupported es)),
          fc_Supported = int (length (filter (\<lambda>e. \<not> en_Unsupported e) es)),
          fc_Total = int (length rows)\<rparr>)"

subsection \<open>Conflicts\<close>

record Conflict =
  cn_ID :: string
  cn_Domain :: string
  cn_Path :: string
  cn_SourceIDs :: "string list"
  cn_Reasons :: "string list"
  cn_Entries :: "CatalogRow list"
  cn_ResolutionHint :: string

definition conflictParticipant :: "CatalogRow \<Rightarrow> bool" where
  "conflictParticipant row \<longleftrightarrow> en_Category (cr_Entry row) = ''allow_exception'' \<or> cr_RewriteEnabled row"

definition effectiveMirageAction :: "CatalogRow \<Rightarrow> string" where
  "effectiveMirageAction row =
     (if cr_Action row \<noteq> [] then cr_Action row
      else case en_ActionCandidates (cr_Entry row) of [] \<Rightarrow> [] | a # _ \<Rightarrow> a)"

definition rewriteActionConflictReason :: "CatalogRow \<Rightarrow> string" where
  "rewriteActionConflictReason row =
     (if \<not> cr_RewriteEnabled row \<or> en_Category (cr_Entry row) = ''allow_exception'' then []
      else
        (let a = ToLower (TrimSpace (effectiveMirageAction row)) in
         if a = [] then ''missing mirage action''
         else if a \<in> {''passthrough'', ''forward-asis'', ''forward_as_is''} then ''unsafe mirage action''
         else []))"

definition domainPathKey :: "string \<Rightarrow> string \<Rightarrow> string" where
  "domainPathKey domain path = domain @ sep0 @ path"

definition entryKey :: "Entry \<Rightarrow> string" where
  "entryKey e = domainPathKey (m_Domain (en_Match e)) (m_Path (en_Match e))"

definition splitEntryKey :: "string \<Rightarrow> string \<times> string" where
  "splitEntryKey key = (cut_before CHR 0x00 key, cut_after CHR 0x00 key)"

definition conflictID :: "env \<Rightarrow> string \<Rightarrow> string \<Rightarrow> string" where
  "conflictID E domain path = ''conflict_'' @ take 12 (env_digest E (domainPathKey domain path))"

definition allow_reason :: string where
  "allow_reason = ''allow_exception conflicts with rewrite candidate''"

definition resolutionHint :: "string list \<Rightarrow> string" where
  "resolutionHint reasons =
     (if allow_reason \<in> set reasons
      then ''disable the rewrite candidate or classify it as an allow_exception''
      else ''align category or review_status on the conflicting entries'')"

definition several :: "string list \<Rightarrow> bool" where
  "several xs \<longleftrightarrow> length (unique_from {} xs) > 1"

definition action_reasons :: "CatalogRow list \<Rightarrow> string list" where
  "action_reasons rows = sortedKeys (filter (\<lambda>r. r \<noteq> []) (map rewriteActionConflictReason rows))"

definition participants :: "CatalogRow list \<Rightarrow> CatalogRow list" where
  "participants rows = filter (\<lambda>r. rewriteActionConflictReason r \<noteq> [] \<or> conflictParticipant r) rows"

definition conflict_reasons :: "CatalogRow list \<Rightarrow> string list" where
  "conflict_reasons rows =
     (let ps = participants rows; acts = action_reasons rows in
      if length ps < 2 \<and> acts = [] then []
      else
        (if several (map (\<lambda>r. en_Category (cr_Entry r)) ps) then [''category mismatch''] else []) @
        (if several (map (\<lambda>r. en_ReviewStatus (cr_Entry r)) ps) then [''review_status mismatch''] else []) @
        (if list_ex (\<lambda>r. en_Category (cr_Entry r) = ''allow_exception'') ps \<and>
            list_ex (\<lambda>r. en_Category (cr_Entry r) \<noteq> ''allow_exception'' \<and> cr_RewriteEnabled r) ps
         then [allow_reason] else []) @ acts)"

definition conflict_row ::
  "(string, CatalogOverride) gomap \<Rightarrow> AGHManagedConfig \<Rightarrow> (string, int) gomap \<Rightarrow> (string, SourceRef) gomap \<Rightarrow>
   Entry \<Rightarrow> CatalogRow" where
  "conflict_row overrides cfg prios refs e =
     (let ov = get_or zero_override overrides (en_ID e); sn = src_Name (en_Source e) in
      \<lparr>cr_Entry = e, cr_SourceIDs = [sn], cr_SourceRefs = sourceRefsFromMap refs [sn],
       cr_SourcePriority = get_or 0 prios sn, cr_Action = ov_Action ov, cr_Notes = ov_Notes ov,
       cr_RewriteEnabled = rewriteEnabled e ov cfg, cr_RewriteReason = ov_RewriteReason ov,
       cr_LastChangedBy = ov_LastChangedBy ov, cr_LastFeedIncludedAt = 0\<rparr>)"

definition group_rows :: "CatalogRow list \<Rightarrow> (string, CatalogRow list) gomap" where
  "group_rows rows =
     foldl (\<lambda>g r. put (entryKey (cr_Entry r)) (get_or [] g (entryKey (cr_Entry r)) @ [r]) g) [] rows"

definition make_conflict :: "env \<Rightarrow> string \<Rightarrow> CatalogRow list \<Rightarrow> Conflict" where
  "make_conflict E key rows =
     (case splitEntryKey key of
        (domain, path) \<Rightarrow>
          \<lparr>cn_ID = conflictID E domain path, cn_Domain = domain, cn_Path = path,
           cn_SourceIDs = sortedKeys (concat (map cr_SourceIDs (participants rows))),
           cn_Reasons = conflict_reasons rows,
           cn_Entries = sort_key (\<lambda>r. en_ID (cr_Entry r)) rows,
           cn_ResolutionHint = resolutionHint (conflict_reasons rows)\<rparr>)"

definition buildConflicts ::
  "env \<Rightarrow> Entry list \<Rightarrow> (string, CatalogOverride) gomap \<Rightarrow> AGHManagedConfig \<Rightarrow> (string, int) gomap \<Rightarrow>
   (string, SourceRef) gomap \<Rightarrow> Conflict list" where
  "buildConflicts E entries overrides cfg prios refs =
     (let rows = map (conflict_row overrides cfg prios refs) (filter (\<lambda>e. m_Domain (en_Match e) \<noteq> []) entries)
      in sort_key (\<lambda>c. (cn_Domain c, cn_Path c, cn_ID c))
           (map (\<lambda>(k, rs). make_conflict E k rs)
             (filter (\<lambda>(k, rs). conflict_reasons rs \<noteq> []) (group_rows rows))))"

definition ListConflicts :: "env \<Rightarrow> Manager \<Rightarrow> Conflict list" where
  "ListConflicts E m =
     buildConflicts E (map (applyOverrideLocked m) (map snd (mg_entries m))) (mg_overrides m) (effective_cfg m)
       (sourcePrioritiesLocked m) (sourceRefMapLocked m)"

subsection \<open>Overrides and rollbacks\<close>

definition rollback_keep :: nat where "rollback_keep = 50"

definition captureOverrides ::
  "(string, CatalogOverride) gomap \<Rightarrow> string list \<Rightarrow> (string, CatalogOverride) gomap \<times> (string, bool) gomap" where
  "captureOverrides ovs ids =
     (let us = unique_from {} ids in
      (map (\<lambda>i. (i, get_or zero_override ovs i)) us, map (\<lambda>i. (i, lookup ovs i \<noteq> None)) us))"

text \<open>\<open>now1\<close> is the clock for the identifier, \<open>now\<close> the record's time.\<close>

definition rollback_record ::
  "env \<Rightarrow> time \<Rightarrow> time \<Rightarrow> string \<Rightarrow> string list \<Rightarrow> (string, CatalogOverride) gomap \<times> (string, bool) gomap \<Rightarrow>
   (string, CatalogOverride) gomap \<Rightarrow> string \<Rightarrow> RollbackRecord" where
  "rollback_record E now1 now action ids0 before ovs summary =
     (let ids = unique_from {} ids0 in
      \<lparr>rb_ID = ''rb_'' @ take 12 (env_digest E (action @ sep0 @ Join ids sep0 @ sep0 @ env_rfc3339 E now1)),
       rb_Time = now, rb_Action = action, rb_EntryIDs = ids, rb_Before = fst before,
       rb_BeforeExists = snd before, rb_After = map (\<lambda>i. (i, get_or zero_override ovs i)) ids,
       rb_Summary = summary\<rparr>)"

definition push_rollback :: "RollbackRecord \<Rightarrow> Manager \<Rightarrow> Manager" where
  "push_rollback rec m = m\<lparr>mg_rollbacks := keep_last rollback_keep (mg_rollbacks m @ [rec])\<rparr>"

definition recordRollbackLocked ::
  "env \<Rightarrow> time \<Rightarrow> time \<Rightarrow> string \<Rightarrow> string list \<Rightarrow> (string, CatalogOverride) gomap \<times> (string, bool) gomap \<Rightarrow>
   string \<Rightarrow> Manager \<Rightarrow> Manager" where
  "recordRollbackLocked E now1 now action ids before summary m =
     push_rollback (rollback_record E now1 now action ids before (mg_overrides m) summary) m"

definition write_override :: "string option \<Rightarrow> CatalogOverride \<Rightarrow> string \<Rightarrow> Manager \<Rightarrow> Manager" where
  "write_override by ov eid m =
     m\<lparr>mg_overrides := put eid (setLastChangedBy by (mergeOverride (override_of m eid) ov)) (mg_overrides m)\<rparr>"

definition write_overrides :: "string option \<Rightarrow> CatalogOverride \<Rightarrow> string list \<Rightarrow> Manager \<Rightarrow> Manager" where
  "write_overrides by ov ids m = fold (write_override by ov) ids m"

text \<open>The common part of the operations that change overrides: capture, write, record.\<close>

definition change_overrides ::
  "env \<Rightarrow> time \<Rightarrow> time \<Rightarrow> string \<Rightarrow> string \<Rightarrow> string option \<Rightarrow> CatalogOverride \<Rightarrow> string list \<Rightarrow> Manager \<Rightarrow> Manager" where
  "change_overrides E now1 now action summary by ov ids m =
     recordRollbackLocked E now1 now action ids (captureOverrides (mg_overrides m) ids) summary
       (write_overrides by ov ids m)"

definition row_of_id :: "Manager \<Rightarrow> Entry \<Rightarrow> CatalogRow" where
  "row_of_id m e = catalogRowFromEntryLocked m (applyOverrideLocked m e) (override_of m (en_ID e))"

definition zero_entry :: Entry where
  "zero_entry = blank_entry \<lparr>src_Type = [], src_Name = [], src_URL = []\<rparr> [] [] []"

definition rowsForIDsLocked :: "Manager \<Rightarrow> string list \<Rightarrow> CatalogRow list" where
  "rowsForIDsLocked m ids =
     sort_key row_key_of
       (map (\<lambda>i. catalogRowFromEntryLocked m (applyOverrideLocked m (get_or zero_entry (mg_entries m) i))
                   (override_of m i)) ids)"

definition PatchEntry ::
  "env \<Rightarrow> time \<Rightarrow> time \<Rightarrow> error option \<Rightarrow> string \<Rightarrow> CatalogOverride \<Rightarrow> string option \<Rightarrow> Manager \<Rightarrow>
   (error + CatalogRow \<times> error option) \<times> Manager" where
  "PatchEntry E now1 now io eid ov by m =
     (case lookup (mg_entries m) eid of
        None \<Rightarrow> (Inl ErrNotExist, m)
      | Some e \<Rightarrow>
          (let m1 = change_overrides E now1 now ''catalog patch'' ''patched 1 entry'' by ov [eid] m;
               row = catalogRowFromEntryLocked m1 (applyOverrideLocked m1 e) (override_of m1 eid)
           in case persisted io row m1 of (x, m') \<Rightarrow> (Inr x, m')))"

definition BulkPatchEntries ::
  "env \<Rightarrow> time \<Rightarrow> time \<Rightarrow> error option \<Rightarrow> string list \<Rightarrow> CatalogOverride \<Rightarrow> string option \<Rightarrow> Manager \<Rightarrow>
   (error + CatalogRow list \<times> error option) \<times> Manager" where
  "BulkPatchEntries E now1 now io ids ov by m =
     (if ids = [] then (Inl (Err ''ids required''), m)
      else
        (case find (\<lambda>i. lookup (mg_entries m) i = None) ids of
           Some i \<Rightarrow> (Inl (Err (''entry '' @ quote i @ '' not found'')), m)
         | None \<Rightarrow>
             (let m1 = change_overrides E now1 now ''catalog bulk patch''
                         (''bulk patched '' @ show_nat (length ids) @ '' entries'') by ov ids m
              in case persisted io (rowsForIDsLocked m1 ids) m1 of (x, m') \<Rightarrow> (Inr x, m'))))"

definition conflict_target :: "Conflict \<Rightarrow> string" where
  "conflict_target c =
     (case find (\<lambda>r. en_Category (cr_Entry r) \<noteq> ''allow_exception'' \<and> cr_RewriteEnabled r) (cn_Entries c) of
        Some r \<Rightarrow> en_ID (cr_Entry r)
      | None \<Rightarrow> (case cn_Entries c of [] \<Rightarrow> [] | r # _ \<Rightarrow> en_ID (cr_Entry r)))"

definition ResolveConflict ::
  "env \<Rightarrow> time \<Rightarrow> time \<Rightarrow> error option \<Rightarrow> string \<Rightarrow> CatalogOverride \<Rightarrow> string option \<Rightarrow> Manager \<Rightarrow>
   (error + CatalogRow \<times> error option) \<times> Manager" where
  "ResolveConflict E now1 now io cid ov by m =
     (case find (\<lambda>c. cn_ID c = cid) (ListConflicts E m) of
        None \<Rightarrow> (Inl ErrNotExist, m)
      | Some c \<Rightarrow>
          (let t = conflict_target c in
           if t = [] then (Inl ErrNotExist, m)
           else
             (case lookup (mg_entries m) t of
                None \<Rightarrow> (Inl ErrNotExist, m)
              | Some e \<Rightarrow>
                  (let m1 = change_overrides E now1 now ''conflict resolve'' (''resolved '' @ cid) by ov [t] m;
                       row = catalogRowFromEntryLocked m1 (applyOverrideLocked m1 e) (override_of m1 t)
                   in case persisted io row m1 of (x, m') \<Rightarrow> (Inr x, m')))))"

text \<open>The scan for the participant of highest priority, with whether another has the same.\<close>

fun scan_winner :: "CatalogRow list \<Rightarrow> (CatalogRow \<times> bool) option \<Rightarrow> (CatalogRow \<times> bool) option" where
  "scan_winner [] w = w"
| "scan_winner (r # rs) w =
     (if \<not> conflictParticipant r then scan_winner rs w
      else
        (case w of
           None \<Rightarrow> scan_winner rs (Some (r, False))
         | Some (b, tied) \<Rightarrow>
             if cr_SourcePriority r > cr_SourcePriority b then scan_winner rs (Some (r, False))
             else if cr_SourcePriority r = cr_SourcePriority b then scan_winner rs (Some (b, True))
             else scan_winner rs (Some (b, tied))))"

definition winner_override :: "CatalogRow \<Rightarrow> CatalogOverride" where
  "winner_override w =
     zero_override\<lparr>ov_Category := en_Category (cr_Entry w), ov_ResourceType := en_ResourceType (cr_Entry w),
       ov_Risk := en_Risk (cr_Entry w), ov_Confidence := en_Confidence (cr_Entry w),
       ov_ReviewStatus := en_ReviewStatus (cr_Entry w), ov_Verified := Some (en_Verified (cr_Entry w)),
       ov_ExpectedCatalog := en_ExpectedCatalog (cr_Entry w), ov_Action := cr_Action w\<rparr>"

definition ResolveConflictByPriority ::
  "env \<Rightarrow> time \<Rightarrow> time \<Rightarrow> error option \<Rightarrow> string \<Rightarrow> string option \<Rightarrow> Manager \<Rightarrow>
   (error + CatalogRow list \<times> error option) \<times> Manager" where
  "ResolveConflictByPriority E now1 now io cid by m =
     (case find (\<lambda>c. cn_ID c = cid) (ListConflicts E m) of
        None \<Rightarrow> (Inl ErrNotExist, m)
      | Some c \<Rightarrow>
          (case scan_winner (cn_Entries c) None of
             None \<Rightarrow> (Inl ErrNotExist, m)
           | Some (w, True) \<Rightarrow>
               (Inl (Err (''source priority tie for conflict '' @ cid @ '' at priority '' @
                          show_int (cr_SourcePriority w) @ ''; resolve manually'')), m)
           | Some (w, False) \<Rightarrow>
               (let ids = filter (\<lambda>i. i \<noteq> en_ID (cr_Entry w)) (map (\<lambda>r. en_ID (cr_Entry r)) (cn_Entries c)) in
                if ids = [] then (Inl ErrNotExist, m)
                else
                  (let sn = (case cr_SourceIDs w of [] \<Rightarrow> [] | s # _ \<Rightarrow> s);
                       m1 = change_overrides E now1 now ''conflict source priority resolve''
                              (''resolved '' @ cid @ '' with source '' @ sn @ '' priority '' @
                               show_int (cr_SourcePriority w)) by (winner_override w) ids m
                   in case persisted io (rowsForIDsLocked m1 ids) m1 of (x, m') \<Rightarrow> (Inr x, m')))))"

definition ListRollbacks :: "Manager \<Rightarrow> RollbackRecord list" where
  "ListRollbacks m = sort_key (\<lambda>r. - rb_Time r) (mg_rollbacks m)"

fun find_index :: "('a \<Rightarrow> bool) \<Rightarrow> 'a list \<Rightarrow> nat option" where
  "find_index P [] = None"
| "find_index P (x # xs) = (if P x then Some 0 else map_option Suc (find_index P xs))"

definition restore_override :: "RollbackRecord \<Rightarrow> string \<Rightarrow> (string, CatalogOverride) gomap \<Rightarrow> (string, CatalogOverride) gomap" where
  "restore_override rec eid ovs =
     (if get_or False (rb_BeforeExists rec) eid then put eid (get_or zero_override (rb_Before rec) eid) ovs
      else del eid ovs)"

definition agh_Rollback ::
  "error option \<Rightarrow> string \<Rightarrow> Manager \<Rightarrow> (error + CatalogRow list \<times> error option) \<times> Manager" where
  "agh_Rollback io rid m =
     (case find_index (\<lambda>r. rb_ID r = rid) (mg_rollbacks m) of
        None \<Rightarrow> (Inl ErrNotExist, m)
      | Some idx \<Rightarrow>
          (let rec = mg_rollbacks m ! idx; later = drop (Suc idx) (mg_rollbacks m) in
           case find (\<lambda>i. lookup (mg_entries m) i = None) (rb_EntryIDs rec) of
             Some i \<Rightarrow> (Inl (Err (''entry '' @ quote i @ '' not found'')), m)
           | None \<Rightarrow>
               (case find (\<lambda>i. i \<in> set (rb_EntryIDs rec)) (concat (map rb_EntryIDs later)) of
                  Some i \<Rightarrow> (Inl (Err (''newer rollback candidate overlaps entry '' @ quote i)), m)
                | None \<Rightarrow>
                    (let m1 = m\<lparr>mg_overrides := fold (restore_override rec) (rb_EntryIDs rec) (mg_overrides m),
                                mg_rollbacks := take idx (mg_rollbacks m) @ later\<rparr>
                     in case persisted io (rowsForIDsLocked m1 (rb_EntryIDs rec)) m1 of (x, m') \<Rightarrow> (Inr x, m')))))"

definition SetEmergencyEmpty :: "error option \<Rightarrow> bool \<Rightarrow> Manager \<Rightarrow> error option \<times> Manager" where
  "SetEmergencyEmpty io on m = persistState io (m\<lparr>mg_cfg := (mg_cfg m)\<lparr>cf_EmergencyEmpty := on\<rparr>\<rparr>)"

definition SetPreset :: "error option \<Rightarrow> string \<Rightarrow> Manager \<Rightarrow> error option \<times> Manager" where
  "SetPreset io preset m =
     (if \<not> validPreset preset then (Some (Err (''invalid preset '' @ quote preset)), m)
      else persistState io (m\<lparr>mg_preset := preset\<rparr>))"

subsection \<open>Facts\<close>

interpretation rollbacks: history_log mg_rollbacks push_rollback rollback_keep
  by unfold_locales (simp_all add: rollback_keep_def push_rollback_def)

lemma write_overrides_frame [simp]:
  "mg_entries (write_overrides by ov ids m) = mg_entries m" "mg_sources (write_overrides by ov ids m) = mg_sources m"
  "mg_pending (write_overrides by ov ids m) = mg_pending m" "mg_cfg (write_overrides by ov ids m) = mg_cfg m"
  "mg_feedSeen (write_overrides by ov ids m) = mg_feedSeen m" "mg_rollbacks (write_overrides by ov ids m) = mg_rollbacks m"
  "mg_feedHistory (write_overrides by ov ids m) = mg_feedHistory m"
  "mg_feedSnapshot (write_overrides by ov ids m) = mg_feedSnapshot m"
  "wf_map (mg_overrides m) \<Longrightarrow> wf_map (mg_overrides (write_overrides by ov ids m))"
  unfolding write_overrides_def
  by (induction ids arbitrary: m) (simp_all add: write_override_def)

lemma write_overrides_other:
  "k \<notin> set ids \<Longrightarrow> lookup (mg_overrides (write_overrides by ov ids m)) k = lookup (mg_overrides m) k"
  unfolding write_overrides_def
  by (induction ids arbitrary: m) (auto simp: write_override_def)

lemma change_overrides_simps [simp]:
  "mg_entries (change_overrides E n1 n a s by ov ids m) = mg_entries m"
  "mg_sources (change_overrides E n1 n a s by ov ids m) = mg_sources m"
  "mg_pending (change_overrides E n1 n a s by ov ids m) = mg_pending m"
  "mg_cfg (change_overrides E n1 n a s by ov ids m) = mg_cfg m"
  "mg_feedSeen (change_overrides E n1 n a s by ov ids m) = mg_feedSeen m"
  "mg_feedHistory (change_overrides E n1 n a s by ov ids m) = mg_feedHistory m"
  "mg_overrides (change_overrides E n1 n a s by ov ids m) = mg_overrides (write_overrides by ov ids m)"
  by (simp_all add: change_overrides_def recordRollbackLocked_def push_rollback_def)

lemma change_overrides_inv: "agh_inv m \<Longrightarrow> agh_inv (change_overrides E n1 n a s by ov ids m)"
  by (auto simp: agh_inv_def change_overrides_def recordRollbackLocked_def push_rollback_def
      rollback_keep_def length_keep_last)

lemma PatchEntry_inv: "agh_inv m \<Longrightarrow> agh_inv (snd (PatchEntry E n1 n io eid ov by m))"
  by (simp add: PatchEntry_def Let_def persisted_split agh_inv_persist change_overrides_inv split: option.split)

lemma BulkPatch_inv: "agh_inv m \<Longrightarrow> agh_inv (snd (BulkPatchEntries E n1 n io ids ov by m))"
  by (simp add: BulkPatchEntries_def Let_def persisted_split agh_inv_persist change_overrides_inv split: option.split)

lemma Resolve_inv: "agh_inv m \<Longrightarrow> agh_inv (snd (ResolveConflict E n1 n io cid ov by m))"
  by (simp add: ResolveConflict_def Let_def persisted_split agh_inv_persist change_overrides_inv split: option.split)

lemma ResolvePriority_inv: "agh_inv m \<Longrightarrow> agh_inv (snd (ResolveConflictByPriority E n1 n io cid by m))"
  by (simp add: ResolveConflictByPriority_def Let_def persisted_split agh_inv_persist change_overrides_inv
      split: option.split prod.split bool.split)

lemma restore_wf: "wf_map ovs \<Longrightarrow> wf_map (fold (restore_override rec) ids ovs)"
  by (induction ids arbitrary: ovs) (auto simp: restore_override_def)

lemma restore_lookup:
  "lookup (fold (restore_override rec) ids ovs) k =
     (if k \<in> set ids
      then (if get_or False (rb_BeforeExists rec) k then Some (get_or zero_override (rb_Before rec) k) else None)
      else lookup ovs k)"
  by (induction ids arbitrary: ovs) (auto simp: restore_override_def)

lemma find_index_bound: "find_index P xs = Some i \<Longrightarrow> i < length xs \<and> P (xs ! i)"
  by (induction xs arbitrary: i) (auto split: if_splits)

lemma find_index_last: "P x \<Longrightarrow> \<forall>y\<in>set xs. \<not> P y \<Longrightarrow> find_index P (xs @ [x]) = Some (length xs)"
  by (induction xs) auto

lemma Rollback_inv: "agh_inv m \<Longrightarrow> agh_inv (snd (agh_Rollback io rid m))"
proof (cases "find_index (\<lambda>r. rb_ID r = rid) (mg_rollbacks m)")
  case (Some i)
  assume inv: "agh_inv m"
  have i: "i < length (mg_rollbacks m)" using find_index_bound[OF Some] by simp
  have "length (mg_rollbacks m) - Suc 0 \<le> 50" using inv unfolding agh_inv_def by linarith
  with i Some inv show ?thesis
    by (simp add: agh_Rollback_def Let_def persisted_split agh_inv_persist agh_inv_def restore_wf split: option.split)
qed (simp add: agh_Rollback_def)

lemma SetEmergencyEmpty_inv: "agh_inv m \<Longrightarrow> agh_inv (snd (SetEmergencyEmpty io on m))"
  by (simp add: SetEmergencyEmpty_def agh_inv_persist agh_inv_def)

lemma SetPreset_inv: "agh_inv m \<Longrightarrow> agh_inv (snd (SetPreset io p m))"
  by (simp add: SetPreset_def agh_inv_persist agh_inv_def)

text \<open>What a captured state says of an entry.\<close>

lemma capture_get:
  assumes "captureOverrides ovs ids = (b, be)" "i \<in> set ids"
  shows "get_or False be i = (lookup ovs i \<noteq> None)" "get_or zero_override b i = get_or zero_override ovs i"
proof -
  have i: "i \<in> set (unique_from {} ids)" using assms(2) by (simp add: set_unique_from)
  have l: "lookup (map (\<lambda>i. (i, f i)) xs) i = (if i \<in> set xs then Some (f i) else None)" for f :: "string \<Rightarrow> 'b" and xs
    by (induction xs) auto
  show "get_or False be i = (lookup ovs i \<noteq> None)" "get_or zero_override b i = get_or zero_override ovs i"
    using assms(1) i by (auto simp: captureOverrides_def Let_def get_or_def l)
qed

text \<open>Grouping: the rows of a key, in order.\<close>

lemma group_rows_lookup:
  "wf_map (group_rows rows) \<and>
   lookup (group_rows rows) k =
     (let rs = filter (\<lambda>r. entryKey (cr_Entry r) = k) rows in if rs = [] then None else Some rs)"
proof (induction rows arbitrary: k rule: rev_induct)
  case Nil
  then show ?case by (simp add: group_rows_def)
next
  case (snoc r rows)
  have step: "group_rows (rows @ [r]) =
      put (entryKey (cr_Entry r)) (get_or [] (group_rows rows) (entryKey (cr_Entry r)) @ [r]) (group_rows rows)"
    by (simp add: group_rows_def)
  from snoc.IH[of k] show ?case
    by (cases "k = entryKey (cr_Entry r)") (auto simp: step get_or_def Let_def split: option.split if_splits)
qed

lemma splitEntryKey_join: "CHR 0x00 \<notin> set d \<Longrightarrow> splitEntryKey (domainPathKey d p) = (d, p)"
  by (simp add: splitEntryKey_def domainPathKey_def sep0_def cut_before_def cut_after_def
      takeWhile_append dropWhile_append takeWhile_eq_all_conv[THEN iffD2] dropWhile_eq_Nil_conv[THEN iffD2])

lemma unique_override_category:
  assumes "i \<in> set ids"
  shows "ov_Category (get_or zero_override (mg_overrides (write_overrides by ov ids m)) i) =
      pick (ov_Category ov) (ov_Category (override_of m i)) \<and>
    ov_ReviewStatus (get_or zero_override (mg_overrides (write_overrides by ov ids m)) i) =
      pick (ov_ReviewStatus ov) (ov_ReviewStatus (override_of m i))"
  using assms unfolding write_overrides_def
proof (induction ids arbitrary: m)
  case Nil
  then show ?case by simp
next
  case (Cons j ids)
  let ?m = "write_override by ov j m"
  have j: "ov_Category (override_of ?m j) = pick (ov_Category ov) (ov_Category (override_of m j))"
    "ov_ReviewStatus (override_of ?m j) = pick (ov_ReviewStatus ov) (ov_ReviewStatus (override_of m j))"
    by (auto simp: write_override_def override_of_def setLastChangedBy_def mergeOverride_def split: option.split)
  have other: "override_of ?m i = override_of m i" if "i \<noteq> j"
    using that by (simp add: write_override_def override_of_def get_or_def)
  show ?case
  proof (cases "i \<in> set ids")
    case True
    have IH: "ov_Category (get_or zero_override (mg_overrides (fold (write_override by ov) ids ?m)) i) =
        pick (ov_Category ov) (ov_Category (override_of ?m i)) \<and>
      ov_ReviewStatus (get_or zero_override (mg_overrides (fold (write_override by ov) ids ?m)) i) =
        pick (ov_ReviewStatus ov) (ov_ReviewStatus (override_of ?m i))"
      by (rule Cons.IH[OF True])
    show ?thesis using IH j other by (cases "i = j") (auto simp: pick_def)
  next
    case False
    have ij: "i = j" using False Cons.prems by simp
    have "lookup (mg_overrides (fold (write_override by ov) ids ?m)) j = lookup (mg_overrides ?m) j"
      using False ij write_overrides_other[where k = j and ids = ids and m = "?m"] by (simp add: write_overrides_def)
    then show ?thesis using j ij by (simp add: get_or_def override_of_def)
  qed
qed

lemma wrap64_range: "- (2 ^ 63) \<le> x \<Longrightarrow> x < 2 ^ 63 \<Longrightarrow> wrap64 x = x"
  by (simp add: wrap64_def)

lemma wrap64_over: "2 ^ 63 \<le> x \<Longrightarrow> x < 2 ^ 64 \<Longrightarrow> wrap64 x < 0"
proof -
  assume x: "2 ^ 63 \<le> x" "x < 2 ^ 64"
  have "(x + 2 ^ 63) mod 2 ^ 64 = (x - 2 ^ 63 + 2 ^ 64) mod 2 ^ 64" by (simp add: add.commute)
  also have "\<dots> = (x - 2 ^ 63) mod 2 ^ 64" by (rule mod_add_self2)
  also have "\<dots> = x - 2 ^ 63" using x by (simp add: mod_pos_pos_trivial)
  finally show "wrap64 x < 0" using x by (simp add: wrap64_def)
qed

text \<open>The rows a page is taken of, and the conflicts, by their contents.\<close>

definition conflict_rows :: "Manager \<Rightarrow> CatalogRow list" where
  "conflict_rows m =
     map (conflict_row (mg_overrides m) (effective_cfg m) (sourcePrioritiesLocked m) (sourceRefMapLocked m))
       (filter (\<lambda>e. m_Domain (en_Match e) \<noteq> []) (map (applyOverrideLocked m) (map snd (mg_entries m))))"

definition key_rows :: "Manager \<Rightarrow> string \<Rightarrow> CatalogRow list" where
  "key_rows m k = filter (\<lambda>r. entryKey (cr_Entry r) = k) (conflict_rows m)"

lemma conflict_listed_iff:
  "c \<in> set (ListConflicts E m) \<longleftrightarrow>
     (\<exists>k. key_rows m k \<noteq> [] \<and> conflict_reasons (key_rows m k) \<noteq> [] \<and> c = make_conflict E k (key_rows m k))"
proof -
  let ?g = "group_rows (conflict_rows m)"
  have wf: "wf_map ?g" and lk: "\<And>k. lookup ?g k = (if key_rows m k = [] then None else Some (key_rows m k))"
    using group_rows_lookup[of "conflict_rows m"] by (simp_all add: key_rows_def Let_def)
  have "(k, rs) \<in> set ?g \<longleftrightarrow> key_rows m k \<noteq> [] \<and> rs = key_rows m k" for k rs
    using in_set_lookup[OF wf, of k rs] lk[of k] by auto
  then show ?thesis
    unfolding ListConflicts_def buildConflicts_def Let_def conflict_rows_def[symmetric]
    by (auto simp: image_iff)
qed

lemma in_key_rows:
  assumes "e \<in> set (map snd (mg_entries m))" "m_Domain (en_Match e) \<noteq> []"
  shows "conflict_row (mg_overrides m) (effective_cfg m) (sourcePrioritiesLocked m) (sourceRefMapLocked m)
    (applyOverrideLocked m e) \<in> set (key_rows m (entryKey e))"
  using assms by (auto simp: key_rows_def conflict_rows_def conflict_row_def Let_def entryKey_def)

lemma clash_is_a_reason:
  assumes "e1 \<in> set (map snd (mg_entries m))" "e2 \<in> set (map snd (mg_entries m))"
    and "en_Match e1 = en_Match e2" "m_Domain (en_Match e1) \<noteq> []"
    and "en_Category (applyOverrideLocked m e1) = ''allow_exception''"
    and "en_Category (applyOverrideLocked m e2) \<noteq> ''allow_exception''"
    and "rewriteEnabled (applyOverrideLocked m e2) (override_of m (en_ID e2)) (effective_cfg m)"
  shows "allow_reason \<in> set (conflict_reasons (key_rows m (entryKey e1))) \<and>
    {applyOverrideLocked m e1, applyOverrideLocked m e2} \<subseteq> cr_Entry ` set (key_rows m (entryKey e1))"
proof -
  let ?row = "\<lambda>e. conflict_row (mg_overrides m) (effective_cfg m) (sourcePrioritiesLocked m) (sourceRefMapLocked m)
    (applyOverrideLocked m e)"
  let ?rows = "key_rows m (entryKey e1)"
  have "entryKey e2 = entryKey e1" using assms(3) by (simp add: entryKey_def)
  with assms(1-4) have in1: "?row e1 \<in> set ?rows" and in2: "?row e2 \<in> set ?rows"
    using in_key_rows[of e1 m] in_key_rows[of e2 m] by simp_all
  have c1: "en_Category (cr_Entry (?row e1)) = ''allow_exception''" and e1: "cr_Entry (?row e1) = applyOverrideLocked m e1"
    and c2: "en_Category (cr_Entry (?row e2)) \<noteq> ''allow_exception''" and e2: "cr_Entry (?row e2) = applyOverrideLocked m e2"
    and r2: "cr_RewriteEnabled (?row e2)"
    using assms(5-7) by (simp_all add: conflict_row_def Let_def override_of_def)
  have p: "?row e1 \<in> set (participants ?rows)" "?row e2 \<in> set (participants ?rows)"
    using in1 in2 c1 r2 by (simp_all add: participants_def conflictParticipant_def)
  have two: "\<not> length (participants ?rows) < 2"
  proof
    assume "length (participants ?rows) < 2"
    with p obtain x where "participants ?rows = [x]" by (cases "participants ?rows") auto
    with p c1 c2 show False by auto
  qed
  have "allow_reason \<in> set (conflict_reasons ?rows)"
    using two p c1 c2 r2 by (auto simp: conflict_reasons_def Let_def list_ex_iff)
  then show ?thesis
    using imageI[OF in1, of cr_Entry] imageI[OF in2, of cr_Entry] by (simp add: e1 e2)
qed

lemma rejoin_key:
  assumes "CHR 0x00 \<in> set k"
  shows "domainPathKey (fst (splitEntryKey k)) (snd (splitEntryKey k)) = k"
proof -
  from split_list_first[OF assms] obtain d p where "k = d @ CHR 0x00 # p" "CHR 0x00 \<notin> set d" by blast
  then have "k = domainPathKey d p" "splitEntryKey (domainPathKey d p) = (d, p)"
    using splitEntryKey_join by (simp_all add: domainPathKey_def sep0_def)
  then show ?thesis by simp
qed

definition ex_clash :: Manager where
  "ex_clash = (newManager ex_config)\<lparr>mg_sources := [(''s1'', ex_source)],
     mg_entries := [(''e1'', (ex_entry_of ''s1'' ''e1'' ''a.b'')\<lparr>en_Category := ''allow_exception''\<rparr>),
       (''e2'', (ex_entry_of ''s1'' ''e2'' ''a.b'')\<lparr>en_ReviewStatus := ReviewApproved, en_Category := ''ads''\<rparr>)]\<rparr>"

subsection \<open>Properties\<close>

text \<open>A page holds exactly the rows from the offset on, at most the limit, and says the total. The
  one failure: when offset and limit sum to more than the largest 64-bit number, the sum wraps to
  a negative end and the slice panics.\<close>

theorem catalogPage_exact:
  assumes "is_int64 (q_Limit q)" "int (length rows) < 2 ^ 62"
  shows "let off = nat (min (max 0 (q_Offset q)) (int (length rows))) in
    catalogPage rows q =
      (if 0 < q_Limit q \<and> max_int64 < int off + q_Limit q then None
       else Some \<lparr>pg_Entries = (if 0 < q_Limit q then take (nat (q_Limit q)) (drop off rows) else drop off rows),
                  pg_Total = int (length rows), pg_Limit = q_Limit q, pg_Offset = int off\<rparr>)"
proof -
  define l where "l = q_Limit q"
  define off where "off = (if (if q_Offset q < 0 then 0 else q_Offset q) > int (length rows)
    then int (length rows) else (if q_Offset q < 0 then 0 else q_Offset q))"
  have o: "0 \<le> off" "off \<le> int (length rows)" "int (nat (min (max 0 (q_Offset q)) (int (length rows)))) = off"
    by (auto simp: off_def)
  have l: "l < 2 ^ 63" using assms(1) by (simp add: l_def is_int64_def)
  have slice: "catalogPage rows q =
      map_option (\<lambda>es. \<lparr>pg_Entries = es, pg_Total = int (length rows), pg_Limit = l, pg_Offset = off\<rparr>)
        (go_slice off (if l > 0 \<and> wrap64 (off + l) < int (length rows) then wrap64 (off + l) else int (length rows)) rows)"
    by (simp add: catalogPage_def page_slice_def Let_def off_def l_def)
  consider (all) "l \<le> 0" | (over) "0 < l" "2 ^ 63 \<le> off + l" | (fit) "0 < l" "off + l < 2 ^ 63" by linarith
  then have "catalogPage rows q =
      (if 0 < l \<and> max_int64 < off + l then None
       else Some \<lparr>pg_Entries = (if 0 < l then take (nat l) (drop (nat off) rows) else drop (nat off) rows),
                  pg_Total = int (length rows), pg_Limit = l, pg_Offset = off\<rparr>)"
  proof cases
    case all
    then show ?thesis using o by (simp add: slice go_slice_def)
  next
    case over
    have "wrap64 (off + l) < 0" by (rule wrap64_over) (use over o l assms(2) in simp_all)
    with over o show ?thesis by (auto simp: slice go_slice_def max_int64_def)
  next
    case fit
    have w: "wrap64 (off + l) = off + l" by (rule wrap64_range) (use fit o in simp_all)
    show ?thesis
    proof (cases "off + l < int (length rows)")
      case True
      with fit o show ?thesis by (simp add: slice w go_slice_def max_int64_def)
    next
      case False
      with fit o have "take (nat l) (drop (nat off) rows) = drop (nat off) rows" by simp
      with fit o False show ?thesis by (simp add: slice w go_slice_def max_int64_def)
    qed
  qed
  moreover have "nat (min (max 0 (q_Offset q)) (int (length rows))) = nat off" using o by simp
  ultimately show ?thesis using o(1) by (simp add: Let_def l_def)
qed

theorem catalogPage_exact_witness:
  "catalogPage ([] :: CatalogRow list) (zero_query\<lparr>q_Limit := 5, q_Offset := 7\<rparr>) =
     Some \<lparr>pg_Entries = [], pg_Total = 0, pg_Limit = 5, pg_Offset = 0\<rparr>"
  using catalogPage_exact[of "zero_query\<lparr>q_Limit := 5, q_Offset := 7\<rparr>" "[]"]
  by (simp add: is_int64_def max_int64_def Let_def zero_query_def)

text \<open>A rewrite candidate and an allow exception for the same domain and path are never silently both
  in force: the list of conflicts has an entry that names both rows and gives the clash as a
  reason.\<close>

theorem allow_and_rewrite_clash_is_listed:
  assumes "(k1, e1) \<in> set (mg_entries m)" "(k2, e2) \<in> set (mg_entries m)"
    and "en_Match e1 = en_Match e2" "m_Domain (en_Match e1) \<noteq> []"
    and "en_Category (applyOverrideLocked m e1) = ''allow_exception''"
    and "en_Category (applyOverrideLocked m e2) \<noteq> ''allow_exception''"
    and "rewriteEnabled (applyOverrideLocked m e2) (override_of m (en_ID e2)) (effective_cfg m)"
  shows "\<exists>c\<in>set (ListConflicts E m). allow_reason \<in> set (cn_Reasons c) \<and>
    applyOverrideLocked m e1 \<in> cr_Entry ` set (cn_Entries c) \<and>
    applyOverrideLocked m e2 \<in> cr_Entry ` set (cn_Entries c) \<and>
    (CHR 0x00 \<notin> set (m_Domain (en_Match e1)) \<longrightarrow>
      cn_Domain c = m_Domain (en_Match e1) \<and> cn_Path c = m_Path (en_Match e1))"
proof -
  let ?rows = "key_rows m (entryKey e1)"
  let ?c = "make_conflict E (entryKey e1) ?rows"
  have "e1 \<in> set (map snd (mg_entries m))" "e2 \<in> set (map snd (mg_entries m))"
    using assms(1,2) by force+
  from clash_is_a_reason[OF this assms(3-7)]
  have reason: "allow_reason \<in> set (conflict_reasons ?rows)"
    and rows: "{applyOverrideLocked m e1, applyOverrideLocked m e2} \<subseteq> cr_Entry ` set ?rows" by simp_all
  then have "conflict_reasons ?rows \<noteq> []" "?rows \<noteq> []" by auto
  then have "?c \<in> set (ListConflicts E m)" by (auto simp: conflict_listed_iff)
  with reason rows show ?thesis
    by (intro bexI[of _ ?c]) (auto simp: make_conflict_def entryKey_def splitEntryKey_join split: prod.split)
qed

theorem allow_and_rewrite_clash_is_listed_witness:
  "\<exists>c\<in>set (ListConflicts ex_env ex_clash). allow_reason \<in> set (cn_Reasons c) \<and> cn_Domain c = ''a.b''"
proof -
  have i: "(''e1'', (ex_entry_of ''s1'' ''e1'' ''a.b'')\<lparr>en_Category := ''allow_exception''\<rparr>) \<in> set (mg_entries ex_clash)"
    "(''e2'', (ex_entry_of ''s1'' ''e2'' ''a.b'')\<lparr>en_ReviewStatus := ReviewApproved, en_Category := ''ads''\<rparr>) \<in> set (mg_entries ex_clash)"
    by (simp_all add: ex_clash_def)
  have "ToLower (TrimSuffix ''a.b'' ''.'') = ''a.b''" by code_simp
  then have d: "m_Domain (en_Match (ex_entry_of s i ''a.b'')) = ''a.b''"
    "en_Match (ex_entry_of s ''e1'' ''a.b'') = en_Match (ex_entry_of s ''e2'' ''a.b'')" for s i
    by (simp_all add: ex_entry_of_def normalize_def Let_def blank_entry_def)
  show ?thesis
    using allow_and_rewrite_clash_is_listed[OF i, of ex_env]
    by (auto simp: d applyOverrideLocked_def apply_override_def override_of_def get_or_def ex_clash_def newManager_def
        zero_override_def pick_def rewriteEnabled_def effective_cfg_def effectivePreset_def nonempty_def ex_config_def
        Let_def ReviewApproved_def)
qed

text \<open>What a change of overrides leaves behind, and its rollback.\<close>

lemma fresh_rollback_index:
  assumes "\<forall>r\<in>set (mg_rollbacks m). rb_ID r \<noteq> rb_ID rec" "length (mg_rollbacks m) \<le> 50"
  shows "find_index (\<lambda>r. rb_ID r = rb_ID rec) (keep_last rollback_keep (mg_rollbacks m @ [rec])) =
    Some (length (keep_last rollback_keep (mg_rollbacks m @ [rec])) - 1)"
proof -
  obtain rs where k: "keep_last rollback_keep (mg_rollbacks m @ [rec]) = rs @ [rec]" and "set rs \<subseteq> set (mg_rollbacks m)"
  proof (cases "length (mg_rollbacks m) < 50")
    case True
    then show ?thesis using that[of "mg_rollbacks m"] by (simp add: keep_last_def rollback_keep_def)
  next
    case False
    with assms(2) have "keep_last rollback_keep (mg_rollbacks m @ [rec]) = tl (mg_rollbacks m) @ [rec]"
      by (cases "mg_rollbacks m") (simp_all add: keep_last_def rollback_keep_def)
    then show ?thesis using that[of "tl (mg_rollbacks m)"] by (cases "mg_rollbacks m") auto
  qed
  with assms(1) show ?thesis using find_index_last[of "\<lambda>r. rb_ID r = rb_ID rec" rec rs] by auto
qed

lemma change_then_restore:
  assumes "captureOverrides (mg_overrides m) ids = (b, be)"
    and "rb_Before rec = b" "rb_BeforeExists rec = be" "set (rb_EntryIDs rec) = set ids"
  shows "lookup (fold (restore_override rec) (rb_EntryIDs rec) (mg_overrides (write_overrides by ov ids m))) k =
    lookup (mg_overrides m) k"
proof (cases "k \<in> set ids")
  case True
  show ?thesis using capture_get[OF assms(1) True] True assms(2-4)
    by (auto simp: restore_lookup get_or_def split: option.splits)
next
  case False
  then show ?thesis using assms(4) by (simp add: restore_lookup write_overrides_other)
qed

lemma Rollback_last:
  assumes "find_index (\<lambda>r. rb_ID r = rid) (mg_rollbacks m1) = Some (length pre)" "mg_rollbacks m1 = pre @ [rec]"
    and "\<forall>i\<in>set (rb_EntryIDs rec). lookup (mg_entries m1) i \<noteq> None"
  shows "mg_rollbacks (snd (agh_Rollback io rid m1)) = pre \<and> (\<exists>x. fst (agh_Rollback io rid m1) = Inr x) \<and>
    mg_overrides (snd (agh_Rollback io rid m1)) = fold (restore_override rec) (rb_EntryIDs rec) (mg_overrides m1)"
proof -
  have "find (\<lambda>i. lookup (mg_entries m1) i = None) (rb_EntryIDs rec) = None"
    using assms(3) by (auto simp: find_None_iff)
  then show ?thesis
    unfolding agh_Rollback_def Let_def assms(1) option.case unfolding assms(2) by (simp add: persisted_split)
qed

text \<open>C17: Every patch of the catalog can be taken back: right after a bulk patch, whatever it changed and
  whether the save worked, rolling back the record it left restores the override of every entry
  and takes the record away.\<close>

theorem patch_then_rollback_restores:
  assumes "agh_inv m" "ids \<noteq> []" "\<forall>i\<in>set ids. lookup (mg_entries m) i \<noteq> None"
  shows "let m1 = snd (BulkPatchEntries E n1 n io1 ids ov by m); rec = last (mg_rollbacks m1);
      res = agh_Rollback io2 (rb_ID rec) m1 in
    rb_EntryIDs rec = unique_from {} ids \<and>
    ((\<forall>r\<in>set (mg_rollbacks m). rb_ID r \<noteq> rb_ID rec) \<longrightarrow>
      (\<exists>x. fst res = Inr x) \<and> mg_rollbacks (snd res) = butlast (mg_rollbacks m1) \<and>
      (\<forall>k. lookup (mg_overrides (snd res)) k = lookup (mg_overrides m) k))"
proof -
  let ?m1 = "snd (BulkPatchEntries E n1 n io1 ids ov by m)"
  obtain b be where cap: "captureOverrides (mg_overrides m) ids = (b, be)" by (cases "captureOverrides (mg_overrides m) ids")
  define rec where "rec = rollback_record E n1 n ''catalog bulk patch'' ids (b, be)
    (mg_overrides (write_overrides by ov ids m)) (''bulk patched '' @ show_nat (length ids) @ '' entries'')"
  have none: "find (\<lambda>i. lookup (mg_entries m) i = None) ids = None" using assms(3) by (auto simp: find_None_iff)
  have rb: "mg_rollbacks ?m1 = keep_last rollback_keep (mg_rollbacks m @ [rec])"
    and ov: "mg_overrides ?m1 = mg_overrides (write_overrides by ov ids m)"
    and en: "mg_entries ?m1 = mg_entries m"
    using assms(2) by (simp_all add: BulkPatchEntries_def none Let_def persisted_split change_overrides_def cap
        recordRollbackLocked_def push_rollback_def rec_def)
  obtain pre where pre: "mg_rollbacks ?m1 = pre @ [rec]"
    by (auto simp: rb keep_last_drop rollback_keep_def)
  then have last: "last (mg_rollbacks ?m1) = rec" by simp
  have ids: "rb_EntryIDs rec = unique_from {} ids" "rb_Before rec = b" "rb_BeforeExists rec = be"
    by (simp_all add: rec_def rollback_record_def Let_def)
  have ok: "(\<exists>x. fst (agh_Rollback io2 (rb_ID rec) ?m1) = Inr x) \<and>
      mg_rollbacks (snd (agh_Rollback io2 (rb_ID rec) ?m1)) = butlast (mg_rollbacks ?m1) \<and>
      (\<forall>k. lookup (mg_overrides (snd (agh_Rollback io2 (rb_ID rec) ?m1))) k = lookup (mg_overrides m) k)"
    if fresh: "\<forall>r\<in>set (mg_rollbacks m). rb_ID r \<noteq> rb_ID rec"
  proof -
    have "length (mg_rollbacks m) \<le> 50" using assms(1) by (simp add: agh_inv_def)
    then have idx: "find_index (\<lambda>r. rb_ID r = rb_ID rec) (mg_rollbacks ?m1) = Some (length pre)"
      using fresh_rollback_index[OF fresh] pre by (simp add: rb)
    have here: "\<forall>i\<in>set (rb_EntryIDs rec). lookup (mg_entries ?m1) i \<noteq> None"
      using assms(3) by (simp add: en ids set_unique_from)
    show ?thesis
      using Rollback_last[OF idx pre here, of io2] change_then_restore[OF cap ids(2,3)] ids(1)
      by (simp add: pre ov set_unique_from)
  qed
  from ok show ?thesis unfolding Let_def last ids(1) by blast
qed

theorem patch_then_rollback_restores_witness:
  "let m1 = snd (BulkPatchEntries ex_env 1 2 None [''e1''] (zero_override\<lparr>ov_Category := ''ads''\<rparr>) None ex_manager) in
    \<forall>k. lookup (mg_overrides (snd (agh_Rollback None (rb_ID (last (mg_rollbacks m1))) m1))) k = lookup (mg_overrides ex_manager) k"
proof -
  have "\<forall>i\<in>set [''e1'']. lookup (mg_entries ex_manager) i \<noteq> None" by (simp add: ex_manager_def)
  moreover have "mg_rollbacks ex_manager = []" by (simp add: ex_manager_def newManager_def)
  ultimately show ?thesis
    using patch_then_rollback_restores[OF ex_manager_inv, of "[''e1'']" ex_env 1 2 None
        "zero_override\<lparr>ov_Category := ''ads''\<rparr>" None None]
    by (simp add: Let_def)
qed

text \<open>A rollback never undoes a later change of the same entry: while a newer record touches one of
  its entries it is refused and the state stays as it is.\<close>

theorem rollback_refuses_when_newer_overlaps:
  assumes "find_index (\<lambda>r. rb_ID r = rid) (mg_rollbacks m) = Some idx"
    and "idx < later" "later < length (mg_rollbacks m)"
    and "set (rb_EntryIDs (mg_rollbacks m ! idx)) \<inter> set (rb_EntryIDs (mg_rollbacks m ! later)) \<noteq> {}"
  shows "snd (agh_Rollback io rid m) = m \<and> (\<exists>e. fst (agh_Rollback io rid m) = Inl e)"
proof -
  let ?rec = "mg_rollbacks m ! idx" and ?later = "drop (Suc idx) (mg_rollbacks m)"
  have "mg_rollbacks m ! later \<in> set ?later"
  proof -
    have at: "?later ! (later - Suc idx) = mg_rollbacks m ! later" using assms(2,3) by simp
    have "later - Suc idx < length ?later" using assms(2,3) by simp
    from nth_mem[OF this] show ?thesis by (simp only: at)
  qed
  with assms(4) have "find (\<lambda>i. i \<in> set (rb_EntryIDs ?rec)) (concat (map rb_EntryIDs ?later)) \<noteq> None"
    by (auto simp: find_None_iff)
  then obtain i where i: "find (\<lambda>i. i \<in> set (rb_EntryIDs ?rec)) (concat (map rb_EntryIDs ?later)) = Some i" by blast
  show ?thesis
    by (cases "find (\<lambda>i. lookup (mg_entries m) i = None) (rb_EntryIDs ?rec)")
      (simp_all only: agh_Rollback_def assms(1) Let_def i option.case fst_conv snd_conv sum.inject simp_thms)
qed

definition ex_record :: "string \<Rightarrow> string \<Rightarrow> RollbackRecord" where
  "ex_record rid eid = \<lparr>rb_ID = rid, rb_Time = 1, rb_Action = ''catalog patch'', rb_EntryIDs = [eid], rb_Before = [],
     rb_BeforeExists = [], rb_After = [], rb_Summary = []\<rparr>"

theorem rollback_refuses_when_newer_overlaps_witness:
  "snd (agh_Rollback None ''r1'' (ex_manager\<lparr>mg_rollbacks := [ex_record ''r1'' ''e1'', ex_record ''r2'' ''e1'']\<rparr>)) =
     ex_manager\<lparr>mg_rollbacks := [ex_record ''r1'' ''e1'', ex_record ''r2'' ''e1'']\<rparr>"
  using rollback_refuses_when_newer_overlaps[of "''r1''"
      "ex_manager\<lparr>mg_rollbacks := [ex_record ''r1'' ''e1'', ex_record ''r2'' ''e1'']\<rparr>" 0 1 None]
  by (simp add: ex_record_def)

lemma scan_winner_some:
  "scan_winner rs (Some (b, t)) = Some (w, False) \<Longrightarrow>
     (w = b \<and> \<not> t \<and> (\<forall>r\<in>set rs. conflictParticipant r \<longrightarrow> cr_SourcePriority r < cr_SourcePriority b)) \<or>
     (cr_SourcePriority b < cr_SourcePriority w \<and>
      filter (\<lambda>r. conflictParticipant r \<and> cr_SourcePriority w \<le> cr_SourcePriority r) rs = [w])"
  by (induction rs arbitrary: b t) (force split: if_splits simp: filter_empty_conv)+

lemma scan_winner_none:
  "scan_winner rs None = Some (w, False) \<Longrightarrow>
     filter (\<lambda>r. conflictParticipant r \<and> cr_SourcePriority w \<le> cr_SourcePriority r) rs = [w]"
proof (induction rs)
  case (Cons r rs)
  show ?case
  proof (cases "conflictParticipant r")
    case True
    with Cons.prems have "scan_winner rs (Some (r, False)) = Some (w, False)" by simp
    from scan_winner_some[OF this] True show ?thesis by (auto simp: filter_empty_conv)
  qed (use Cons in simp)
qed simp

text \<open>Resolving a conflict by source priority lets exactly one participant win: the one whose source
  has the strictly highest priority. Every other row of the conflict takes over its category and
  review status, and no override outside the conflict changes.\<close>

theorem priority_resolution_follows_winner:
  assumes "ResolveConflictByPriority E n1 n io cid by m = (Inr res, m')"
  shows "\<exists>c\<in>set (ListConflicts E m). \<exists>w\<in>set (cn_Entries c). cn_ID c = cid \<and> conflictParticipant w \<and>
    (\<forall>r\<in>set (cn_Entries c). conflictParticipant r \<and> r \<noteq> w \<longrightarrow> cr_SourcePriority r < cr_SourcePriority w) \<and>
    (\<forall>r\<in>set (cn_Entries c). en_ID (cr_Entry r) \<noteq> en_ID (cr_Entry w) \<longrightarrow>
      ov_Category (override_of m' (en_ID (cr_Entry r))) =
        pick (en_Category (cr_Entry w)) (ov_Category (override_of m (en_ID (cr_Entry r)))) \<and>
      ov_ReviewStatus (override_of m' (en_ID (cr_Entry r))) =
        pick (en_ReviewStatus (cr_Entry w)) (ov_ReviewStatus (override_of m (en_ID (cr_Entry r))))) \<and>
    (\<forall>k. (\<forall>r\<in>set (cn_Entries c). en_ID (cr_Entry r) \<noteq> k) \<or> k = en_ID (cr_Entry w) \<longrightarrow> override_of m' k = override_of m k)"
proof -
  from assms obtain c where c: "find (\<lambda>c. cn_ID c = cid) (ListConflicts E m) = Some c"
    by (auto simp: ResolveConflictByPriority_def split: option.splits)
  from assms c obtain w where w: "scan_winner (cn_Entries c) None = Some (w, False)"
    by (auto simp: ResolveConflictByPriority_def split: option.splits prod.splits bool.splits)
  define ids where "ids = filter (\<lambda>i. i \<noteq> en_ID (cr_Entry w)) (map (\<lambda>r. en_ID (cr_Entry r)) (cn_Entries c))"
  from assms c w have m': "mg_overrides m' = mg_overrides (write_overrides by (winner_override w) ids m)"
    by (auto simp: ResolveConflictByPriority_def ids_def[symmetric] Let_def persisted_split split: if_splits prod.splits)
  have f: "filter (\<lambda>r. conflictParticipant r \<and> cr_SourcePriority w \<le> cr_SourcePriority r) (cn_Entries c) = [w]"
    by (rule scan_winner_none[OF w])
  have win: "w \<in> set (cn_Entries c)" "conflictParticipant w"
    using arg_cong[OF f, of set] by auto
  have best: "cr_SourcePriority r < cr_SourcePriority w"
    if "r \<in> set (cn_Entries c)" "conflictParticipant r" "r \<noteq> w" for r
    using arg_cong[OF f, of set] that by (auto simp: not_le[symmetric])
  have in_ids: "k \<in> set ids \<longleftrightarrow> k \<noteq> en_ID (cr_Entry w) \<and> (\<exists>r\<in>set (cn_Entries c). en_ID (cr_Entry r) = k)" for k
    by (auto simp: ids_def)
  have other: "override_of m' k = override_of m k" if "k \<notin> set ids" for k
    using that by (simp add: override_of_def get_or_def m' write_overrides_other)
  have took: "ov_Category (override_of m' k) = pick (en_Category (cr_Entry w)) (ov_Category (override_of m k)) \<and>
      ov_ReviewStatus (override_of m' k) = pick (en_ReviewStatus (cr_Entry w)) (ov_ReviewStatus (override_of m k))"
    if "k \<in> set ids" for k
    by (simp add: override_of_def[of m'] m' unique_override_category[OF that] winner_override_def)
  show ?thesis
    using find_SomeD[OF c] win best took other in_ids by (intro bexI[of _ c] bexI[of _ w]) auto
qed

definition ex_ranked :: Manager where
  "ex_ranked = ex_clash\<lparr>mg_sources := [(''s1'', ex_source), (''s2'', ex_source\<lparr>so_ID := ''s2'', so_Priority := 5\<rparr>)],
     mg_entries := [(''e1'', (ex_entry_of ''s1'' ''e1'' ''a.b'')\<lparr>en_Category := ''allow_exception''\<rparr>),
       (''e2'', (ex_entry_of ''s2'' ''e2'' ''a.b'')\<lparr>en_ReviewStatus := ReviewApproved, en_Category := ''ads''\<rparr>)]\<rparr>"

definition ex_ranked_id :: string where
  "ex_ranked_id = conflictID ex_env ''a.b'' []"

theorem priority_resolution_follows_winner_witness:
  "\<exists>c\<in>set (ListConflicts ex_env ex_ranked). cn_ID c = ex_ranked_id \<and> (\<exists>w\<in>set (cn_Entries c). conflictParticipant w \<and>
    (\<forall>r\<in>set (cn_Entries c). conflictParticipant r \<and> r \<noteq> w \<longrightarrow> cr_SourcePriority r < cr_SourcePriority w))"
proof -
  have "\<not> isl (fst (ResolveConflictByPriority ex_env 1 2 None ex_ranked_id None ex_ranked))" by code_simp
  then obtain res m' where "ResolveConflictByPriority ex_env 1 2 None ex_ranked_id None ex_ranked = (Inr res, m')"
    by (cases "ResolveConflictByPriority ex_env 1 2 None ex_ranked_id None ex_ranked"; cases "fst (ResolveConflictByPriority ex_env 1 2 None ex_ranked_id None ex_ranked)") auto
  from priority_resolution_follows_winner[OF this] show ?thesis by blast
qed

end
