(* ===== verification/AghFeed.thy ===== *)
theory AghFeed
  imports AghCatalog
begin

text \<open>
  The generated rewrite feed of the managed sources, \<^verbatim>\<open>internal/aghmanaged/manager.go\<close>: the
  decision for one entry, the lines of a rewrite, the resolution of the target, the generation
  with its history, the preview of a source and the pending diff.

  The resolver is an argument, \<open>None\<close> for a nil interface; its contract is the locale
  \<open>ip_resolver\<close>. A generation takes two clock readings: \<open>t1\<close> after the resolution and \<open>now\<close>,
  which also stands for the readings of the staleness test of each entry. The parts between the
  lock sections run as one step.
\<close>

subsection \<open>One entry\<close>

record FeedItem =
  fi_Domain :: string
  fi_EntryID :: string
  fi_SourceIDs :: "string list"
  fi_SourceRefs :: "SourceRef list"
  fi_Category :: string
  fi_ResourceType :: string
  fi_ReviewStatus :: string
  fi_Confidence :: string
  fi_RewriteEnabled :: bool
  fi_Included :: bool
  fi_Reason :: string
  fi_Lines :: "string list"

definition rewrite_line :: "string \<Rightarrow> string \<Rightarrow> string \<Rightarrow> string" where
  "rewrite_line domain typ target = ''||'' @ domain @ [CHR 0x5E] @ ''$dnsrewrite=NOERROR;'' @ typ @ '';'' @ target"

fun ip_line :: "string \<Rightarrow> ip \<Rightarrow> string" where
  "ip_line domain (IPv4 s) = rewrite_line domain ''A'' s"
| "ip_line domain (IPv6 s) = rewrite_line domain ''AAAA'' s"

definition static_line :: "env \<Rightarrow> bool \<Rightarrow> string \<Rightarrow> string \<Rightarrow> string option" where
  "static_line E v4 domain raw =
     (case env_parseIP E raw of
        Some (IPv4 s) \<Rightarrow> if v4 then Some (ip_line domain (IPv4 s)) else None
      | Some (IPv6 s) \<Rightarrow> if v4 then None else Some (ip_line domain (IPv6 s))
      | None \<Rightarrow> None)"

definition rewriteLines :: "env \<Rightarrow> string \<Rightarrow> AGHManagedConfig \<Rightarrow> ip list \<Rightarrow> error + string list" where
  "rewriteLines E domain cfg ips =
     (let mode = nonempty (cf_TargetMode cfg) ''resolved_ip'' in
      if mode = ''cname'' then
        (if cf_TargetName cfg = [] then Inl (Err ''target_name required'')
         else Inr [rewrite_line domain ''CNAME'' (cf_TargetName cfg)])
      else if mode = ''static_ip'' then
        (let lines = List.map_filter (static_line E True domain) (cf_StaticIPv4 cfg) @
                     List.map_filter (static_line E False domain) (cf_StaticIPv6 cfg)
         in if lines = [] then Inl (Err ''no static IPs'') else Inr lines)
      else
        (let lines = map (ip_line domain) ips in
         if lines = [] then Inl (Err ''target resolution failed'') else Inr lines))"

definition feedItem ::
  "env \<Rightarrow> Entry \<Rightarrow> CatalogOverride \<Rightarrow> AGHManagedConfig \<Rightarrow> ip list \<Rightarrow> bool \<Rightarrow> FeedItem" where
  "feedItem E e ov cfg ips conflict =
     (let item = \<lparr>fi_Domain = m_Domain (en_Match e), fi_EntryID = en_ID e,
            fi_SourceIDs = [src_Name (en_Source e)], fi_SourceRefs = [], fi_Category = en_Category e,
            fi_ResourceType = en_ResourceType e, fi_ReviewStatus = en_ReviewStatus e,
            fi_Confidence = en_Confidence e, fi_RewriteEnabled = rewriteEnabled e ov cfg,
            fi_Included = False, fi_Reason = [], fi_Lines = []\<rparr>;
          out = (\<lambda>reason. item\<lparr>fi_Reason := reason\<rparr>)
      in if m_Domain (en_Match e) = [] then out ''empty domain''
         else if en_Unsupported e \<or> en_Layer e = LayerDOM then out ''unsupported layer''
         else if en_Layer e \<noteq> [] \<and> en_Layer e \<noteq> LayerDNS then out ''http layer''
         else if m_Path (en_Match e) \<noteq> [] then out ''path scoped rule''
         else if en_Category e = ''allow_exception'' then out ''allow exception''
         else if conflict then out ''conflict unresolved''
         else if en_ReviewStatus e = ReviewRejected \<or> en_ReviewStatus e = ReviewDisabled then out ''rejected or disabled''
         else if \<not> fi_RewriteEnabled item then out ''disabled by preset or user''
         else
           (case rewriteLines E (m_Domain (en_Match e)) cfg ips of
              Inl err \<Rightarrow> out (error_text err)
            | Inr lines \<Rightarrow> item\<lparr>fi_Included := True, fi_Reason := ''included'', fi_Lines := lines\<rparr>))"

subsection \<open>The target\<close>

definition resolves :: "AGHManagedConfig \<Rightarrow> bool" where
  "resolves cfg \<longleftrightarrow> cf_TargetMode cfg = [] \<or> cf_TargetMode cfg = ''resolved_ip''"

type_synonym resolver = "(string \<Rightarrow> error + ip list) option"

text \<open>The error of \<open>resolveTarget\<close> comes with addresses that no caller uses.\<close>

definition resolveTarget :: "resolver \<Rightarrow> AGHManagedConfig \<Rightarrow> error + ip list" where
  "resolveTarget res cfg =
     (if cf_TargetName cfg = [] then Inl (Err ''target_name required'')
      else case res of None \<Rightarrow> Inl (Err ''resolver unavailable'') | Some f \<Rightarrow> f (cf_TargetName cfg))"

definition note_resolved :: "time \<Rightarrow> error + ip list \<Rightarrow> Manager \<Rightarrow> Manager" where
  "note_resolved t r m =
     (case r of
        Inr ips \<Rightarrow> m\<lparr>mg_targetIPs := ips, mg_lastResolve := t, mg_lastResolveErr := []\<rparr>
      | Inl e \<Rightarrow> m\<lparr>mg_lastResolveErr := error_text e\<rparr>)"

text \<open>What a generation works with after the resolution: the addresses, the time and error of
  the resolution, and whether the addresses are the cached ones.\<close>

record target =
  tg_ips :: "ip list"
  tg_last :: time
  tg_err :: string
  tg_cache :: bool

definition feed_target :: "env \<Rightarrow> time \<Rightarrow> resolver \<Rightarrow> Manager \<Rightarrow> target \<times> Manager" where
  "feed_target E t1 res m =
     (let cfg = mg_cfg m in
      if \<not> resolves cfg
      then (\<lparr>tg_ips = [], tg_last = mg_lastResolve m, tg_err = mg_lastResolveErr m, tg_cache = False\<rparr>, m)
      else
        (let r = resolveTarget res cfg;
             tg = (case r of
                Inr ips \<Rightarrow> \<lparr>tg_ips = ips, tg_last = t1, tg_err = [], tg_cache = False\<rparr>
              | Inl e \<Rightarrow>
                  (let cached = mg_targetIPs m \<noteq> [] \<and> \<not> IsZero (mg_lastResolve m) \<and>
                         t1 - mg_lastResolve m \<le> durationOr E (cf_StaleTargetTTL cfg) (24 * hour_ns)
                   in \<lparr>tg_ips = (if cached then mg_targetIPs m else []), tg_last = mg_lastResolve m,
                       tg_err = error_text e, tg_cache = cached\<rparr>));
             tg' = (if tg_ips tg = [] \<and> tg_err tg = [] then tg\<lparr>tg_err := ''no target IPs resolved''\<rparr> else tg)
         in (tg', note_resolved t1 r m)))"

subsection \<open>Status and history\<close>

record FeedStatus =
  fs_Enabled :: bool
  fs_FeedPath :: string
  fs_TargetMode :: string
  fs_TargetName :: string
  fs_DefaultPreset :: string
  fs_ResolvedIPs :: "string list"
  fs_StaticIPs :: "string list"
  fs_LastResolve :: time
  fs_LastResolveErr :: string
  fs_TargetCacheUsed :: bool
  fs_ItemCount :: int
  fs_ExcludedCount :: int
  fs_ConflictCount :: int
  fs_EmergencyEmpty :: bool
  fs_Sources :: int
  fs_PendingSources :: int
  fs_StaleSources :: int
  fs_LastSourceSync :: time
  fs_LastGenerated :: time
  fs_History :: "FeedGenerationRecord list"

record Preview =
  pv_Status :: FeedStatus
  pv_Items :: "FeedItem list"
  pv_Lines :: string
  pv_Sources :: "MSource list"
  pv_Entries :: "CatalogRow list"

definition ipStrings :: "ip list \<Rightarrow> string list" where
  "ipStrings ips = sort (map ip_text ips)"

definition staticIPStrings :: "env \<Rightarrow> AGHManagedConfig \<Rightarrow> string list" where
  "staticIPStrings E cfg = ipStrings (List.map_filter (env_parseIP E) (cf_StaticIPv4 cfg @ cf_StaticIPv6 cfg))"

definition feedHistoryNewestFirst :: "FeedGenerationRecord list \<Rightarrow> FeedGenerationRecord list" where
  "feedHistoryNewestFirst history = sort_key (\<lambda>r. - fg_Time r) history"

definition ListFeedHistory :: "Manager \<Rightarrow> FeedGenerationRecord list" where
  "ListFeedHistory m = feedHistoryNewestFirst (mg_feedHistory m)"

text \<open>The snapshot, a set of identifiers in Go, is a list without duplicates.\<close>

definition feedSnapshotFromIDs :: "string list \<Rightarrow> string list" where
  "feedSnapshotFromIDs ids = unique_from {[]} ids"

definition feedSnapshotDelta :: "string list \<Rightarrow> string list \<Rightarrow> int \<times> int" where
  "feedSnapshotDelta prev nextIDs =
     (let nxt = feedSnapshotFromIDs nextIDs in
      (int (length (filter (\<lambda>i. i \<notin> set prev) nxt)), int (length (filter (\<lambda>i. i \<notin> set nxt) prev))))"

definition feed_keep :: nat where "feed_keep = 50"

definition push_generation :: "FeedGenerationRecord \<Rightarrow> Manager \<Rightarrow> Manager" where
  "push_generation r m = m\<lparr>mg_feedHistory := keep_last feed_keep (mg_feedHistory m @ [r])\<rparr>"

definition persistGenerationLocked ::
  "FeedStatus \<Rightarrow> (string, time) gomap \<Rightarrow> string list \<Rightarrow> time \<Rightarrow> bool \<Rightarrow> Manager \<Rightarrow> Manager" where
  "persistGenerationLocked status feedSeen includedIDs generatedAt updateFeedSeen m =
     (case feedSnapshotDelta (mg_feedSnapshot m) includedIDs of
        (added, removed) \<Rightarrow>
          push_generation
            \<lparr>fg_Time = generatedAt, fg_IncludedCount = fs_ItemCount status,
             fg_ExcludedCount = fs_ExcludedCount status, fg_AddedCount = added, fg_RemovedCount = removed,
             fg_ConflictCount = fs_ConflictCount status, fg_TargetMode = fs_TargetMode status,
             fg_EmergencyEmpty = fs_EmergencyEmpty status\<rparr>
            (m\<lparr>mg_lastGenerated := generatedAt,
               mg_feedSeen := (if updateFeedSeen then feedSeen else mg_feedSeen m),
               mg_feedSnapshot := feedSnapshotFromIDs includedIDs\<rparr>))"

subsection \<open>Generation\<close>

definition conflict_keys :: "Conflict list \<Rightarrow> string set" where
  "conflict_keys cs = set (map (\<lambda>c. domainPathKey (cn_Domain c) (cn_Path c)) cs)"

definition entry_order :: "Entry \<Rightarrow> row_key" where
  "entry_order e = RowKey (m_Domain (en_Match e)) (en_ID e)"

definition stale_source_of :: "env \<Rightarrow> time \<Rightarrow> AGHManagedConfig \<Rightarrow> Manager \<Rightarrow> Entry \<Rightarrow> MSource option" where
  "stale_source_of E now cfg m e =
     (let ttl = staleSourceDuration E (sd_StaleSourceTTL (cf_Scheduler cfg)) in
      if ttl \<le> 0 then None
      else case lookup (mg_sources m) (src_Name (en_Source e)) of
             None \<Rightarrow> None
           | Some s \<Rightarrow> if isStaleSource now s ttl then Some s else None)"

text \<open>The item of an entry, with the exclusion of stale sources.\<close>

definition generated_item ::
  "env \<Rightarrow> time \<Rightarrow> AGHManagedConfig \<Rightarrow> ip list \<Rightarrow> string set \<Rightarrow> Manager \<Rightarrow> Entry \<Rightarrow> FeedItem" where
  "generated_item E now cfg ips conflicted m e =
     (let item = feedItem E e (override_of m (en_ID e)) cfg ips (entryKey e \<in> conflicted);
          item1 = item\<lparr>fi_SourceRefs := sourceRefsFromMap (sourceRefMapLocked m) (fi_SourceIDs item)\<rparr>
      in case stale_source_of E now cfg m e of
           None \<Rightarrow> item1
         | Some s \<Rightarrow>
             if staleFeedPolicy s = StaleFeedPolicyExclude
             then item1\<lparr>fi_Included := False, fi_Reason := ''stale source''\<rparr> else item1)"

definition newline1 :: string where "newline1 = [CHR 0x0A]"

definition item_text :: "FeedItem \<Rightarrow> string" where
  "item_text item =
     concat (map (\<lambda>line. ''! entry_id='' @ fi_EntryID item @ '' source='' @ Join (fi_SourceIDs item) '','' @
                   '' category='' @ fi_Category item @ '' confidence='' @ fi_Confidence item @ newline1 @
                   line @ newline1) (fi_Lines item))"

definition feed_head :: "env \<Rightarrow> time \<Rightarrow> FeedStatus \<Rightarrow> target \<Rightarrow> string" where
  "feed_head E now status tg =
     ''! mirage-chaff managed rewrites'' @ newline1 @ ''! generated_at='' @ env_rfc3339 E now @ newline1 @
     ''! target_mode='' @ fs_TargetMode status @ '' target_name='' @ fs_TargetName status @ newline1 @
     (if tg_cache tg
      then ''! target_resolution=stale-cache last_success='' @ env_rfc3339 E (tg_last tg) @ '' error='' @
           tg_err tg @ newline1
      else [])"

definition pending_sources :: "MSource list \<Rightarrow> int" where
  "pending_sources srcs = int (length (filter so_PendingReview srcs))"

definition last_source_sync :: "MSource list \<Rightarrow> time" where
  "last_source_sync srcs = foldl (\<lambda>t s. if so_LastSuccess s > t then so_LastSuccess s else t) 0 srcs"

definition applied_entries :: "Manager \<Rightarrow> Entry list" where
  "applied_entries m = map (applyOverrideLocked m) (map snd (mg_entries m))"

definition base_status :: "env \<Rightarrow> time \<Rightarrow> Manager \<Rightarrow> target \<Rightarrow> FeedStatus" where
  "base_status E now m tg =
     (let cfg = mg_cfg m in
      \<lparr>fs_Enabled = cf_Enabled cfg, fs_FeedPath = cf_FeedPath cfg,
       fs_TargetMode = nonempty (cf_TargetMode cfg) ''resolved_ip'', fs_TargetName = cf_TargetName cfg,
       fs_DefaultPreset = effectivePreset cfg (mg_preset m), fs_ResolvedIPs = ipStrings (tg_ips tg),
       fs_StaticIPs = staticIPStrings E cfg, fs_LastResolve = tg_last tg, fs_LastResolveErr = tg_err tg,
       fs_TargetCacheUsed = tg_cache tg, fs_ItemCount = 0, fs_ExcludedCount = 0,
       fs_ConflictCount = int (length (ListConflicts E m)), fs_EmergencyEmpty = cf_EmergencyEmpty cfg,
       fs_Sources = int (length (mg_sources m)), fs_PendingSources = 0, fs_StaleSources = 0,
       fs_LastSourceSync = 0, fs_LastGenerated = now, fs_History = ListFeedHistory m\<rparr>)"

text \<open>An empty feed: in an emergency, or with the feature off.\<close>

definition emit_empty ::
  "error option \<Rightarrow> bool \<Rightarrow> time \<Rightarrow> bool \<Rightarrow> FeedStatus \<Rightarrow> string \<Rightarrow> MSource list \<Rightarrow> int \<Rightarrow> Manager \<Rightarrow>
   (Preview \<times> error option) \<times> Manager" where
  "emit_empty io recordHistory now emergency status text srcs n m =
     (let text1 = text @ ''! feed empty: enabled='' @ show_bool (fs_Enabled status) @ '' emergency_empty='' @
            show_bool emergency @ newline1;
          st = status\<lparr>fs_ExcludedCount := n\<rparr>;
          pv = (\<lambda>st. \<lparr>pv_Status = st, pv_Items = [], pv_Lines = text1, pv_Sources = srcs, pv_Entries = []\<rparr>)
      in if \<not> recordHistory then ((pv st, None), m)
         else
           (let m1 = persistGenerationLocked st [] [] now False m in
            case persistState io m1 of
              (err, m2) \<Rightarrow> ((pv (st\<lparr>fs_History := ListFeedHistory m1\<rparr>), err), m2)))"

text \<open>The items, the counts and the text of a feed that is not empty.\<close>

definition count_items :: "bool \<Rightarrow> FeedItem list \<Rightarrow> int" where
  "count_items b items = int (length (filter (\<lambda>i. fi_Included i = b) items))"

definition emit_items ::
  "env \<Rightarrow> error option \<Rightarrow> bool \<Rightarrow> bool \<Rightarrow> time \<Rightarrow> FeedStatus \<Rightarrow> string \<Rightarrow> target \<Rightarrow> Manager \<Rightarrow> Manager \<Rightarrow>
   (Preview \<times> error option) \<times> Manager" where
  "emit_items E io includeRows recordHistory now status text tg m0 m =
     (let cfg = effective_cfg m0;
          es = sort_key entry_order (applied_entries m0);
          srcs = map snd (mg_sources m0);
          items = map (generated_item E now cfg (tg_ips tg) (conflict_keys (ListConflicts E m0)) m0) es;
          incl = filter fi_Included items;
          stale = remdups (map so_ID (List.map_filter (stale_source_of E now cfg m0) es));
          st = status\<lparr>fs_PendingSources := pending_sources srcs, fs_LastSourceSync := last_source_sync srcs,
                 fs_ItemCount := count_items True items, fs_ExcludedCount := count_items False items,
                 fs_StaleSources := int (length stale)\<rparr>;
          text1 = text @ concat (map item_text incl);
          seen = foldl (\<lambda>s i. put (fi_EntryID i) now s) (mg_feedSeen m0) incl;
          pv = (\<lambda>st rows. \<lparr>pv_Status = st, pv_Items = items, pv_Lines = text1, pv_Sources = srcs, pv_Entries = rows\<rparr>);
          rows = (\<lambda>m. if includeRows then (case CatalogRows m of Some r \<Rightarrow> r | None \<Rightarrow> []) else [])
      in if \<not> recordHistory then (let m1 = m\<lparr>mg_lastGenerated := now\<rparr> in ((pv st (rows m1), None), m1))
         else
           (let m1 = persistGenerationLocked st seen (map fi_EntryID incl) now True m;
                st1 = st\<lparr>fs_History := ListFeedHistory m1\<rparr>
            in case persistState io m1 of
                 (Some err, m2) \<Rightarrow> ((pv st1 [], Some err), m2)
               | (None, m2) \<Rightarrow> ((pv st1 (rows m2), None), m2)))"

definition generate ::
  "env \<Rightarrow> time \<Rightarrow> time \<Rightarrow> resolver \<Rightarrow> error option \<Rightarrow> bool \<Rightarrow> bool \<Rightarrow> Manager \<Rightarrow>
   (Preview \<times> error option) \<times> Manager" where
  "generate E t1 now res io includeRows recordHistory m0 =
     (case feed_target E t1 res m0 of
        (tg, m1) \<Rightarrow>
          (let cfg = mg_cfg m0;
               no_target = (resolves cfg \<and> tg_ips tg = []);
               status0 = base_status E now m0 tg;
               head0 = feed_head E now status0 tg;
               auto = (no_target \<and> cf_AutoEmergencyEmptyOnTargetFailure cfg \<and> recordHistory);
               status = (if auto then status0\<lparr>fs_EmergencyEmpty := True\<rparr> else status0);
               text = (if auto then head0 @ ''! target_resolution=failed error='' @ tg_err tg @ newline1 @
                         ''! emergency_empty=auto target_resolution_failed=true'' @ newline1 else head0);
               m2 = (if auto then m1\<lparr>mg_cfg := (mg_cfg m1)\<lparr>cf_EmergencyEmpty := True\<rparr>, mg_lastResolveErr := tg_err tg\<rparr>
                     else m1);
               emergency = (auto \<or> cf_EmergencyEmpty cfg);
               srcs = map snd (mg_sources m0)
           in if emergency \<or> \<not> cf_Enabled cfg
              then emit_empty io recordHistory now emergency status text srcs (int (length (mg_entries m0))) m2
              else if no_target
              then ((\<lparr>pv_Status = status, pv_Items = [], pv_Lines = text, pv_Sources = srcs, pv_Entries = []\<rparr>,
                     Some (Err (''target resolution failed: '' @ tg_err tg))), m2)
              else emit_items E io includeRows recordHistory now status text tg m0 m2))"

definition Generate ::
  "env \<Rightarrow> time \<Rightarrow> time \<Rightarrow> resolver \<Rightarrow> error option \<Rightarrow> bool \<Rightarrow> Manager \<Rightarrow> (Preview \<times> error option) \<times> Manager" where
  "Generate E t1 now res io includeRows m = generate E t1 now res io includeRows (\<not> includeRows) m"

definition feed_Status :: "env \<Rightarrow> time \<Rightarrow> time \<Rightarrow> resolver \<Rightarrow> Manager \<Rightarrow> FeedStatus \<times> Manager" where
  "feed_Status E t1 now res m =
     (case generate E t1 now res None False False m of ((p, _), m') \<Rightarrow> (pv_Status p, m'))"

definition RefreshTarget ::
  "env \<Rightarrow> time \<Rightarrow> time \<Rightarrow> time \<Rightarrow> resolver \<Rightarrow> Manager \<Rightarrow> (FeedStatus \<times> error option) \<times> Manager" where
  "RefreshTarget E t0 t1 now res m =
     (if \<not> resolves (mg_cfg m) then (case feed_Status E t1 now res m of (s, m') \<Rightarrow> ((s, None), m'))
      else
        (let r = resolveTarget res (mg_cfg m) in
         case feed_Status E t1 now res (note_resolved t0 r m) of
           (s, m') \<Rightarrow> ((s, (case r of Inl e \<Rightarrow> Some e | Inr _ \<Rightarrow> None)), m')))"

subsection \<open>Pages of feed items\<close>

record FeedPreviewQuery =
  fq_Q :: string
  fq_Included :: "bool option"
  fq_Limit :: int
  fq_Offset :: int

definition feedItemSearchText :: "FeedItem \<Rightarrow> string" where
  "feedItemSearchText item =
     ToLower (Join
       ([fi_Domain item, fi_EntryID item, Join (fi_SourceIDs item) '' '', Join (ref_words (fi_SourceRefs item)) '' '',
         fi_Category item, fi_ResourceType item, fi_ReviewStatus item, fi_Confidence item, fi_Reason item,
         Join (fi_Lines item) '' ''] @
        [if fi_RewriteEnabled item then ''rewrite'' else ''no-rewrite''] @
        [if fi_Included item then ''included'' else ''excluded'']) '' '')"

definition feedItemMatchesQuery :: "FeedItem \<Rightarrow> FeedPreviewQuery \<Rightarrow> bool" where
  "feedItemMatchesQuery item q \<longleftrightarrow>
     opt_ok (fq_Included q) (fi_Included item) \<and> search_ok (fq_Q q) (feedItemSearchText item)"

definition FeedItemsPage :: "FeedItem list \<Rightarrow> FeedPreviewQuery \<Rightarrow> FeedItem page option" where
  "FeedItemsPage items q = page_slice (fq_Limit q) (fq_Offset q) (filter (\<lambda>i. feedItemMatchesQuery i q) items)"

subsection \<open>Previews and pending diffs\<close>

record FeedImpact =
  im_WouldInclude :: bool
  im_Reason :: string
  im_LineCount :: int

record PendingDiffEntry =
  pe_Entry :: Entry
  pe_SourceRefs :: "SourceRef list"
  pe_Previous :: "Entry option"
  pe_ChangedFields :: "string list"
  pe_FeedImpact :: FeedImpact

record PendingDiff =
  pd_Source :: MSource
  pd_Added :: "PendingDiffEntry list"
  pd_Removed :: "PendingDiffEntry list"
  pd_Changed :: "PendingDiffEntry list"

definition replaceSourceEntries :: "Entry list \<Rightarrow> string \<Rightarrow> Entry list \<Rightarrow> Entry list" where
  "replaceSourceEntries entries sid nxt =
     filter (\<lambda>e. \<not> from_source sid e) entries @ map (set_source_name sid) nxt"

definition conflictKeysForEntriesLocked :: "env \<Rightarrow> Manager \<Rightarrow> Entry list \<Rightarrow> string set" where
  "conflictKeysForEntriesLocked E m entries =
     conflict_keys (buildConflicts E (map (applyOverrideLocked m) entries) (mg_overrides m) (effective_cfg m)
       (sourcePrioritiesLocked m) (sourceRefMapLocked m))"

definition feedImpactLocked :: "env \<Rightarrow> Manager \<Rightarrow> Entry \<Rightarrow> string set \<Rightarrow> FeedImpact" where
  "feedImpactLocked E m e0 conflictKeys =
     (let e = applyOverrideLocked m e0;
          item = feedItem E e (override_of m (en_ID e)) (effective_cfg m) (mg_targetIPs m) (entryKey e \<in> conflictKeys)
      in \<lparr>im_WouldInclude = fi_Included item, im_Reason = fi_Reason item, im_LineCount = int (length (fi_Lines item))\<rparr>)"

definition diff_entry :: "env \<Rightarrow> Manager \<Rightarrow> string set \<Rightarrow> Entry option \<Rightarrow> string list \<Rightarrow> Entry \<Rightarrow> PendingDiffEntry" where
  "diff_entry E m keys prev changed e =
     \<lparr>pe_Entry = e, pe_SourceRefs = sourceRefsFromMap (sourceRefMapLocked m) [src_Name (en_Source e)],
      pe_Previous = prev, pe_ChangedFields = changed, pe_FeedImpact = feedImpactLocked E m e keys\<rparr>"

definition pendingDiffChangedFields :: "Entry \<Rightarrow> Entry \<Rightarrow> string list" where
  "pendingDiffChangedFields old new =
     (if en_OriginalRule old \<noteq> en_OriginalRule new then [''original_rule''] else []) @
     (if en_Category old \<noteq> en_Category new then [''category''] else []) @
     (if en_ResourceType old \<noteq> en_ResourceType new then [''resource_type''] else [])"

definition sortPendingDiffEntries :: "PendingDiffEntry list \<Rightarrow> PendingDiffEntry list" where
  "sortPendingDiffEntries es =
     sort_key (\<lambda>x. (m_Domain (en_Match (pe_Entry x)), m_Path (en_Match (pe_Entry x)), en_ID (pe_Entry x))) es"

definition pendingDiffLocked :: "env \<Rightarrow> Manager \<Rightarrow> MSource \<Rightarrow> Entry list \<Rightarrow> Entry list \<Rightarrow> PendingDiff" where
  "pendingDiffLocked E m src prev nxt =
     (let cur = map snd (mg_entries m);
          curKeys = conflictKeysForEntriesLocked E m cur;
          nxtKeys = conflictKeysForEntriesLocked E m (replaceSourceEntries cur (so_ID src) nxt)
      in \<lparr>pd_Source = src,
          pd_Added = sortPendingDiffEntries (map (diff_entry E m nxtKeys None [])
            (filter (\<lambda>e. lookup (by_id prev) (en_ID e) = None) nxt)),
          pd_Removed = sortPendingDiffEntries (map (diff_entry E m curKeys None [])
            (filter (\<lambda>e. lookup (by_id nxt) (en_ID e) = None) prev)),
          pd_Changed = sortPendingDiffEntries (List.map_filter (\<lambda>e.
            (case lookup (by_id prev) (en_ID e) of
               None \<Rightarrow> None
             | Some old \<Rightarrow> if entry_changed old e
                 then Some (diff_entry E m nxtKeys (Some old) (pendingDiffChangedFields old e) e) else None)) nxt)\<rparr>)"

definition PendingDiff_of :: "env \<Rightarrow> Manager \<Rightarrow> string \<Rightarrow> error + PendingDiff" where
  "PendingDiff_of E m sid =
     (case (lookup (mg_sources m) sid, lookup (mg_pending m) sid) of
        (Some src, Some pending) \<Rightarrow> Inr (pendingDiffLocked E m src (entriesForSource (mg_entries m) sid) pending)
      | _ \<Rightarrow> Inl ErrNotExist)"

definition preview_defaults :: "env \<Rightarrow> MSource \<Rightarrow> MSource" where
  "preview_defaults E src =
     (let s1 = src\<lparr>so_Type := nonempty (so_Type src) SourceFilterURL, so_Name := nonempty (so_Name src) (so_URL src)\<rparr>
      in s1\<lparr>so_ID := (if so_ID s1 = [] then sourceID E s1 else so_ID s1)\<rparr>)"

text \<open>\<open>fetched\<close> is the outcome of fetching the source, \<open>ms\<close> how long it took.\<close>

definition PreviewSource ::
  "env \<Rightarrow> Manager \<Rightarrow> error + Entry list \<Rightarrow> int \<Rightarrow> MSource \<Rightarrow> MSource \<times> (error + PendingDiffEntry list)" where
  "PreviewSource E m fetched ms src0 =
     (let src = (preview_defaults E src0)\<lparr>so_LastDurationMS := ms\<rparr> in
      case fetched of
        Inl e \<Rightarrow> (src\<lparr>so_LastError := error_text e\<rparr>, Inl e)
      | Inr es \<Rightarrow>
          (let src1 = (case countImported es of (u, a) \<Rightarrow>
                 src\<lparr>so_Entries := int (length es), so_Unsupported := u, so_AllowExceptions := a\<rparr>);
               keys = conflictKeysForEntriesLocked E m
                 (replaceSourceEntries (map snd (mg_entries m)) (so_ID src1) es)
           in (src1, Inr (sortPendingDiffEntries (map (diff_entry E m keys None []) es)))))"

definition pendingDiffEntrySearchText :: "PendingDiffEntry \<Rightarrow> string" where
  "pendingDiffEntrySearchText x =
     (let e = pe_Entry x; im = pe_FeedImpact x in
      ToLower (Join
        ([en_ID e, m_Domain (en_Match e), m_Path (en_Match e), Join (ref_words (pe_SourceRefs x)) '' '',
          en_Category e, en_ResourceType e, en_ReviewStatus e, en_Risk e, en_Confidence e, en_ExpectedCatalog e,
          en_OriginalRule e, Join (pe_ChangedFields x) '' '', im_Reason im, show_bool (im_WouldInclude im),
          show_int (im_LineCount im)] @
         [if en_Unsupported e then ''unsupported'' else ''supported''] @
         (case pe_Previous x of
            None \<Rightarrow> []
          | Some p \<Rightarrow> [en_ID p, m_Domain (en_Match p), m_Path (en_Match p), en_Category p, en_ResourceType p,
              en_ReviewStatus p, en_Risk p, en_Confidence p, en_ExpectedCatalog p, en_OriginalRule p])) '' ''))"

record PendingDiffEntryQuery =
  dq_Q :: string
  dq_Limit :: int
  dq_Offset :: int

definition pendingDiffEntryMatchesQuery :: "PendingDiffEntry \<Rightarrow> PendingDiffEntryQuery \<Rightarrow> bool" where
  "pendingDiffEntryMatchesQuery x q \<longleftrightarrow> search_ok (dq_Q q) (pendingDiffEntrySearchText x)"

definition PendingDiffEntriesPage :: "PendingDiffEntry list \<Rightarrow> PendingDiffEntryQuery \<Rightarrow> PendingDiffEntry page option" where
  "PendingDiffEntriesPage es q =
     page_slice (dq_Limit q) (dq_Offset q) (filter (\<lambda>x. pendingDiffEntryMatchesQuery x q) es)"

subsection \<open>All operations\<close>

text \<open>One step of the manager: any operation that changes its state, with the outside world's part
  of it.\<close>

datatype manager_op =
    OpSetConfig AGHManagedConfig
  | OpUpsert "error option" MSource
  | OpDelete "error option" string
  | OpSync agh_api time time int "error option" string
  | OpApprove "error option" string
  | OpReject "error option" string
  | OpPatch time time "error option" string CatalogOverride "string option"
  | OpBulk time time "error option" "string list" CatalogOverride "string option"
  | OpResolve time time "error option" string CatalogOverride "string option"
  | OpResolvePriority time time "error option" string "string option"
  | OpRollback "error option" string
  | OpEmergency "error option" bool
  | OpPreset "error option" string
  | OpGenerate time time resolver "error option" bool bool
  | OpRefresh time time time resolver

text \<open>A sync here runs without another operation during its fetch; theory AghSources shows what an
  overlap does.\<close>

fun manager_step :: "env \<Rightarrow> manager_op \<Rightarrow> Manager \<Rightarrow> Manager" where
  "manager_step E (OpSetConfig cfg) m = SetConfig cfg m"
| "manager_step E (OpUpsert io src) m = snd (UpsertSource E io src m)"
| "manager_step E (OpDelete io sid) m = snd (DeleteSource io sid m)"
| "manager_step E (OpSync api start now r io sid) m = snd (SyncSource E api start now r io sid m)"
| "manager_step E (OpApprove io sid) m = snd (ApproveSource io sid m)"
| "manager_step E (OpReject io sid) m = snd (RejectSource io sid m)"
| "manager_step E (OpPatch n1 n io eid ov by') m = snd (PatchEntry E n1 n io eid ov by' m)"
| "manager_step E (OpBulk n1 n io ids ov by') m = snd (BulkPatchEntries E n1 n io ids ov by' m)"
| "manager_step E (OpResolve n1 n io cid ov by') m = snd (ResolveConflict E n1 n io cid ov by' m)"
| "manager_step E (OpResolvePriority n1 n io cid by') m = snd (ResolveConflictByPriority E n1 n io cid by' m)"
| "manager_step E (OpRollback io rid) m = snd (agh_Rollback io rid m)"
| "manager_step E (OpEmergency io on) m = snd (SetEmergencyEmpty io on m)"
| "manager_step E (OpPreset io p) m = snd (SetPreset io p m)"
| "manager_step E (OpGenerate t1 now res io rows rec) m = snd (generate E t1 now res io rows rec m)"
| "manager_step E (OpRefresh t0 t1 now res) m = snd (RefreshTarget E t0 t1 now res m)"

subsection \<open>Facts\<close>

interpretation feed_log: history_log mg_feedHistory push_generation feed_keep
  by unfold_locales (simp_all add: feed_keep_def push_generation_def)

lemma generation_inv:
  assumes "agh_inv m" "wf_map seen"
  shows "agh_inv (persistGenerationLocked st seen ids now upd m)"
  using assms by (auto simp: agh_inv_def persistGenerationLocked_def push_generation_def feed_keep_def
      length_keep_last split: prod.split)

lemma note_resolved_frame [simp]:
  "mg_cfg (note_resolved t r m) = mg_cfg m" "mg_sources (note_resolved t r m) = mg_sources m"
  "mg_entries (note_resolved t r m) = mg_entries m" "mg_pending (note_resolved t r m) = mg_pending m"
  "mg_overrides (note_resolved t r m) = mg_overrides m" "mg_feedSeen (note_resolved t r m) = mg_feedSeen m"
  "mg_rollbacks (note_resolved t r m) = mg_rollbacks m" "mg_feedHistory (note_resolved t r m) = mg_feedHistory m"
  "mg_preset (note_resolved t r m) = mg_preset m" "mg_feedSnapshot (note_resolved t r m) = mg_feedSnapshot m"
  by (simp_all add: note_resolved_def split: sum.splits)

lemma note_resolved_inv: "agh_inv m \<Longrightarrow> agh_inv (note_resolved t r m)"
  by (simp add: agh_inv_def)

lemma feed_target_cases:
  assumes "feed_target E t1 res m = (tg, m1)"
  shows "m1 = m \<or> (\<exists>r. m1 = note_resolved t1 r m)"
  using assms by (auto simp: feed_target_def Let_def split: if_splits)

lemma feed_target_inv: "agh_inv m \<Longrightarrow> feed_target E t1 res m = (tg, m1) \<Longrightarrow> agh_inv m1"
  using feed_target_cases[of E t1 res m tg m1] note_resolved_inv by blast

lemma seen_wf: "wf_map s \<Longrightarrow> wf_map (foldl (\<lambda>s i. put (fi_EntryID i) now s) s incl)"
  by (rule wf_map_fold_put)

lemma emit_empty_inv: "agh_inv m \<Longrightarrow> agh_inv (snd (emit_empty io rec now em st text srcs n m))"
  using generation_inv[of m "[]"] by (auto simp: emit_empty_def Let_def agh_inv_persist split: prod.split)
     (metis agh_inv_persist snd_conv wf_map_Nil)

lemma emit_items_inv:
  assumes "agh_inv m" "agh_inv m0"
  shows "agh_inv (snd (emit_items E io rows rec now st text tg m0 m))"
proof (cases rec)
  case True
  define es where "es = sort_key entry_order (applied_entries m0)"
  define items where "items = map (generated_item E now (effective_cfg m0) (tg_ips tg) (conflict_keys (ListConflicts E m0)) m0) es"
  define seen where "seen = foldl (\<lambda>s i. put (fi_EntryID i) now s) (mg_feedSeen m0) (filter fi_Included items)"
  have "wf_map seen" using assms(2) unfolding seen_def agh_inv_def by (intro seen_wf) blast
  then have "agh_inv (snd (persistState io (persistGenerationLocked st' seen ids now True m)))" for st' ids
    by (intro agh_inv_persist generation_inv assms)
  with True show ?thesis
    by (simp add: emit_items_def Let_def es_def[symmetric] items_def[symmetric] seen_def[symmetric]
        split: prod.split option.split) (metis snd_conv)
next
  case False
  with assms(1) show ?thesis by (simp add: emit_items_def Let_def agh_inv_def)
qed

lemma generate_inv: "agh_inv m \<Longrightarrow> agh_inv (snd (generate E t1 now res io rows rec m))"
proof -
  assume inv: "agh_inv m"
  obtain tg m1 where t: "feed_target E t1 res m = (tg, m1)" by (cases "feed_target E t1 res m")
  have inv1: "agh_inv m1" by (rule feed_target_inv[OF inv t])
  then have inv2: "agh_inv (m1\<lparr>mg_cfg := c, mg_lastResolveErr := e\<rparr>)" for c e by (simp add: agh_inv_def)
  show ?thesis
    unfolding generate_def t Let_def
    using inv1 inv2 emit_empty_inv emit_items_inv[OF _ inv] by auto
qed

lemma RefreshTarget_inv: "agh_inv m \<Longrightarrow> agh_inv (snd (RefreshTarget E t0 t1 now res m))"
  using generate_inv[of m E t1 now res None False False]
    generate_inv[of "note_resolved t0 (resolveTarget res (mg_cfg m)) m" E t1 now res None False False] note_resolved_inv
  by (auto simp: RefreshTarget_def feed_Status_def Let_def split: prod.splits)

text \<open>When an entry is included.\<close>

definition feed_safe :: "Entry \<Rightarrow> bool" where
  "feed_safe e \<longleftrightarrow>
     m_Domain (en_Match e) \<noteq> [] \<and> m_Path (en_Match e) = [] \<and> \<not> en_Unsupported e \<and> en_Layer e \<in> {[], LayerDNS} \<and>
     en_Category e \<noteq> ''allow_exception'' \<and> en_ReviewStatus e \<notin> {ReviewRejected, ReviewDisabled}"

lemma layer_consts: "LayerDOM \<noteq> []" "LayerDOM \<noteq> LayerDNS"
  by (simp_all add: LayerDOM_def LayerDNS_def)

lemma feedItem_included:
  "fi_Included (feedItem E e ov cfg ips conflict) \<longleftrightarrow>
     feed_safe e \<and> \<not> conflict \<and> rewriteEnabled e ov cfg \<and>
     rewriteLines E (m_Domain (en_Match e)) cfg ips = Inr (fi_Lines (feedItem E e ov cfg ips conflict))"
  by (auto simp: feedItem_def feed_safe_def Let_def layer_consts split: sum.split)

lemma feedItem_simps [simp]:
  "fi_EntryID (feedItem E e ov cfg ips c) = en_ID e" "fi_Domain (feedItem E e ov cfg ips c) = m_Domain (en_Match e)"
  by (simp_all add: feedItem_def Let_def split: sum.split)

lemma generated_item_included:
  "fi_Included (generated_item E now cfg ips keys m e) \<longleftrightarrow>
     fi_Included (feedItem E e (override_of m (en_ID e)) cfg ips (entryKey e \<in> keys)) \<and>
     (\<forall>s. stale_source_of E now cfg m e = Some s \<longrightarrow> staleFeedPolicy s \<noteq> StaleFeedPolicyExclude)"
  "fi_EntryID (generated_item E now cfg ips keys m e) = en_ID e"
  "fi_Domain (generated_item E now cfg ips keys m e) = m_Domain (en_Match e)"
  "fi_Lines (generated_item E now cfg ips keys m e) =
     fi_Lines (feedItem E e (override_of m (en_ID e)) cfg ips (entryKey e \<in> keys))"
  by (auto simp: generated_item_def Let_def split: option.split)

text \<open>A line that rewrites the domain and nothing else.\<close>

definition is_rewrite_line :: "string \<Rightarrow> string \<Rightarrow> bool" where
  "is_rewrite_line d l \<longleftrightarrow> (\<exists>t. l \<in> {rewrite_line d ''A'' t, rewrite_line d ''AAAA'' t, rewrite_line d ''CNAME'' t})"

lemma is_rewrite_lineI [intro, simp]:
  "is_rewrite_line d (rewrite_line d ''A'' t)" "is_rewrite_line d (rewrite_line d ''AAAA'' t)"
  "is_rewrite_line d (rewrite_line d ''CNAME'' t)" "is_rewrite_line d (ip_line d x)"
proof -
  show "is_rewrite_line d (rewrite_line d ''A'' t)" "is_rewrite_line d (rewrite_line d ''AAAA'' t)"
    "is_rewrite_line d (rewrite_line d ''CNAME'' t)"
    by (auto simp: is_rewrite_line_def)
  then show "is_rewrite_line d (ip_line d x)" by (cases x) (auto simp: is_rewrite_line_def)
qed

lemma static_line_shape: "static_line E v4 d raw = Some l \<Longrightarrow> is_rewrite_line d l"
  by (auto simp: static_line_def simp del: ip_line.simps split: option.splits ip.splits if_splits)

lemma set_map_filter_iff: "y \<in> set (List.map_filter f xs) \<longleftrightarrow> (\<exists>x\<in>set xs. f x = Some y)"
  by (induction xs) (auto simp: List.map_filter_def split: option.splits)

lemma rewriteLines_shape:
  assumes "rewriteLines E d cfg ips = Inr lines"
  shows "lines \<noteq> [] \<and> (\<forall>l\<in>set lines. is_rewrite_line d l)"
  using assms static_line_shape
  by (auto simp: rewriteLines_def Let_def set_map_filter_iff simp del: ip_line.simps split: if_splits)

lemma conflict_keys_iff:
  assumes "e \<in> set (applied_entries m)"
  shows "entryKey e \<in> conflict_keys (ListConflicts E m) \<longleftrightarrow> conflict_reasons (key_rows m (entryKey e)) \<noteq> []"
proof -
  have key: "domainPathKey (cn_Domain (make_conflict E k rs)) (cn_Path (make_conflict E k rs)) = k"
    if "CHR 0x00 \<in> set k" for k rs
    using rejoin_key[OF that] by (simp add: make_conflict_def prod.case_eq_if)
  have nul: "CHR 0x00 \<in> set k" if "key_rows m k \<noteq> []" for k
  proof -
    from that obtain r where "r \<in> set (key_rows m k)" by (cases "key_rows m k") auto
    then have "entryKey (cr_Entry r) = k" by (simp add: key_rows_def)
    then show ?thesis by (auto simp: entryKey_def domainPathKey_def sep0_def)
  qed
  have none: "conflict_reasons [] = []" by (simp add: conflict_reasons_def participants_def action_reasons_def sortedKeys_def)
  show ?thesis
  proof
    assume "entryKey e \<in> conflict_keys (ListConflicts E m)"
    then obtain k where "key_rows m k \<noteq> []" "conflict_reasons (key_rows m k) \<noteq> []"
        "entryKey e = domainPathKey (cn_Domain (make_conflict E k (key_rows m k))) (cn_Path (make_conflict E k (key_rows m k)))"
      by (auto simp: conflict_keys_def conflict_listed_iff)
    with key nul show "conflict_reasons (key_rows m (entryKey e)) \<noteq> []" by simp
  next
    assume r: "conflict_reasons (key_rows m (entryKey e)) \<noteq> []"
    with none have ne: "key_rows m (entryKey e) \<noteq> []" by auto
    with r have "make_conflict E (entryKey e) (key_rows m (entryKey e)) \<in> set (ListConflicts E m)"
      by (auto simp: conflict_listed_iff)
    with key[OF nul[OF ne]] show "entryKey e \<in> conflict_keys (ListConflicts E m)"
      unfolding conflict_keys_def by (metis (no_types, lifting) image_eqI list.set_map)
  qed
qed

text \<open>What a generation shows: nothing, or the items of all entries.\<close>

definition all_items :: "env \<Rightarrow> time \<Rightarrow> ip list \<Rightarrow> Manager \<Rightarrow> FeedItem list" where
  "all_items E now ips m =
     map (generated_item E now (effective_cfg m) ips (conflict_keys (ListConflicts E m)) m)
       (sort_key entry_order (applied_entries m))"

lemma emit_empty_items: "pv_Items (fst (fst (emit_empty io rec now em st text srcs n m))) = []"
  by (simp add: emit_empty_def Let_def split: prod.split)

lemma emit_items_items:
  "let pv = fst (fst (emit_items E io rows rec now st text tg m m2)) in
   pv_Items pv = all_items E now (tg_ips tg) m \<and>
   fs_ItemCount (pv_Status pv) = count_items True (all_items E now (tg_ips tg) m) \<and>
   fs_ExcludedCount (pv_Status pv) = count_items False (all_items E now (tg_ips tg) m)"
  by (simp add: emit_items_def all_items_def Let_def split: prod.split option.split)

lemma generate_items:
  assumes "generate E t1 now res io rows rec m = ((pv, err), m')" "pv_Items pv \<noteq> []"
  shows "\<not> cf_EmergencyEmpty (mg_cfg m) \<and> cf_Enabled (mg_cfg m) \<and>
    pv_Items pv = all_items E now (tg_ips (fst (feed_target E t1 res m))) m \<and>
    fs_ItemCount (pv_Status pv) = count_items True (pv_Items pv) \<and>
    fs_ExcludedCount (pv_Status pv) = count_items False (pv_Items pv)"
proof -
  obtain tg m1 where t: "feed_target E t1 res m = (tg, m1)" by (cases "feed_target E t1 res m")
  have pv: "pv = fst (fst (generate E t1 now res io rows rec m))" using assms(1) by simp
  let ?stop = "(resolves (mg_cfg m) \<and> tg_ips tg = [] \<and> cf_AutoEmergencyEmptyOnTargetFailure (mg_cfg m) \<and> rec)
      \<or> cf_EmergencyEmpty (mg_cfg m) \<or> \<not> cf_Enabled (mg_cfg m)"
  have run: "\<not> ?stop \<and> \<not> (resolves (mg_cfg m) \<and> tg_ips tg = [])"
    using assms(2) pv emit_empty_items by (auto simp: generate_def t Let_def split: if_splits)
  then obtain st hd2 m2 where "generate E t1 now res io rows rec m = emit_items E io rows rec now st hd2 tg m m2"
    by (auto simp: generate_def t Let_def)
  with pv have "pv = fst (fst (emit_items E io rows rec now st hd2 tg m m2))" by simp
  with emit_items_items[of E io rows rec now st hd2 tg m m2] run t show ?thesis
    by (simp add: Let_def)
qed

text \<open>The status shows the addresses of the target on every path.\<close>

definition shows_target :: "target \<Rightarrow> FeedStatus \<Rightarrow> bool" where
  "shows_target tg st \<longleftrightarrow> fs_ResolvedIPs st = ipStrings (tg_ips tg) \<and> fs_TargetCacheUsed st = tg_cache tg"

lemma emit_empty_target:
  "shows_target tg st \<Longrightarrow> shows_target tg (pv_Status (fst (fst (emit_empty io rec now em st hd2 srcs n m))))"
  by (simp add: shows_target_def emit_empty_def Let_def split: prod.split)

lemma emit_items_target:
  "shows_target tg st \<Longrightarrow> shows_target tg (pv_Status (fst (fst (emit_items E io rows rec now st hd2 tg' m0 m))))"
  by (simp add: shows_target_def emit_items_def Let_def split: prod.split option.split)

lemma generate_target:
  assumes "feed_target E t1 res m = (tg, m1)"
  shows "fs_ResolvedIPs (pv_Status (fst (fst (generate E t1 now res io rows rec m)))) = ipStrings (tg_ips tg) \<and>
    fs_TargetCacheUsed (pv_Status (fst (fst (generate E t1 now res io rows rec m)))) = tg_cache tg"
proof -
  have b: "shows_target tg (base_status E now m tg)" "shows_target tg ((base_status E now m tg)\<lparr>fs_EmergencyEmpty := True\<rparr>)"
    by (simp_all add: shows_target_def base_status_def Let_def)
  have "shows_target tg (pv_Status (fst (fst (generate E t1 now res io rows rec m))))"
    unfolding generate_def assms Let_def by (simp add: b emit_empty_target emit_items_target)
  then show ?thesis by (simp add: shows_target_def)
qed

lemma set_all_items:
  "i \<in> set (all_items E now ips m) \<longleftrightarrow>
     (\<exists>e\<in>set (applied_entries m). i = generated_item E now (effective_cfg m) ips (conflict_keys (ListConflicts E m)) m e)"
  by (auto simp: all_items_def)

lemma applied_entries_iff:
  "e \<in> set (applied_entries m) \<longleftrightarrow> (\<exists>e0\<in>set (map snd (mg_entries m)). e = applyOverrideLocked m e0)"
  by (auto simp: applied_entries_def)

definition valid_op :: "env \<Rightarrow> manager_op \<Rightarrow> Manager \<Rightarrow> bool" where
  "valid_op E a m \<longleftrightarrow>
     (case a of
        OpUpsert io src \<Rightarrow>
          so_PendingReview src \<longrightarrow> lookup (mg_sources m) (so_ID (source_defaults E src)) \<noteq> None
      | _ \<Rightarrow> True)"

lemma manager_step_inv: "agh_inv m \<Longrightarrow> valid_op E a m \<Longrightarrow> agh_inv (manager_step E a m)"
  by (cases a)
    (auto intro: Upsert_source_inv simp: valid_op_def SetConfig_inv DeleteSource_inv SyncSource_inv ApproveSource_inv
      RejectSource_inv PatchEntry_inv BulkPatch_inv Resolve_inv ResolvePriority_inv Rollback_inv
      SetEmergencyEmpty_inv SetPreset_inv generate_inv RefreshTarget_inv)

text \<open>A manager that starts empty and runs any operations.\<close>

inductive manager_reaches :: "env \<Rightarrow> Manager \<Rightarrow> bool" for E where
  start: "manager_reaches E (newManager cfg)"
| step: "manager_reaches E m \<Longrightarrow> valid_op E a m \<Longrightarrow> manager_reaches E (manager_step E a m)"

inductive_cases manager_reachesE: "manager_reaches E m"

lemma reaches_inv: "manager_reaches E m \<Longrightarrow> agh_inv m"
  by (induction rule: manager_reaches.induct) (simp_all add: agh_inv_new manager_step_inv)

text \<open>The feed over any resolver that keeps the contract.\<close>

locale feed_resolver = ip_resolver lookup_ip for lookup_ip :: "string \<Rightarrow> error + ip list"
begin

lemma resolve_gives_target:
  assumes "resolveTarget (Some lookup_ip) cfg = Inr ips"
  shows "ips \<noteq> []"
  using assms success_nonempty by (auto simp: resolveTarget_def split: if_splits)

text \<open>With no name in the state for an error, the addresses of a generation are missing only
  with an error to show.\<close>

lemma missing_target_has_error:
  assumes "feed_target E t1 (Some lookup_ip) m = (tg, m1)" "resolves (mg_cfg m)" "tg_ips tg = []"
  shows "\<exists>e. resolveTarget (Some lookup_ip) (mg_cfg m) = Inl e"
  using assms resolve_gives_target
  by (cases "resolveTarget (Some lookup_ip) (mg_cfg m)") (auto simp: feed_target_def Let_def split: if_splits)

end

interpretation feed_res: feed_resolver "LookupIP E ups"
  by unfold_locales (rule res.success_nonempty)

subsection \<open>Properties\<close>



text \<open>What an included item promises.\<close>

definition safe_item :: "Manager \<Rightarrow> FeedItem \<Rightarrow> bool" where
  "safe_item m item \<longleftrightarrow>
     (\<exists>e0\<in>set (map snd (mg_entries m)). let e = applyOverrideLocked m e0 in
        fi_EntryID item = en_ID e \<and> fi_Domain item = m_Domain (en_Match e) \<and> feed_safe e \<and>
        rewriteEnabled e (override_of m (en_ID e)) (effective_cfg m) \<and>
        fi_Lines item \<noteq> [] \<and> (\<forall>l\<in>set (fi_Lines item). is_rewrite_line (fi_Domain item) l) \<and>
        (\<forall>a0\<in>set (map snd (mg_entries m)). en_Match a0 = en_Match e0 \<longrightarrow>
           en_Category (applyOverrideLocked m a0) \<noteq> ''allow_exception''))"

lemma included_item_safe:
  assumes "item \<in> set (all_items E now ips m)" "fi_Included item"
  shows "safe_item m item"
proof -
  define keys where "keys = conflict_keys (ListConflicts E m)"
  from assms(1) obtain e1 where "e1 \<in> set (applied_entries m)" "item = generated_item E now (effective_cfg m) ips keys m e1"
    unfolding set_all_items keys_def by blast
  then obtain e0 where e0: "e0 \<in> set (map snd (mg_entries m))"
    and i: "item = generated_item E now (effective_cfg m) ips keys m (applyOverrideLocked m e0)"
    unfolding applied_entries_iff by blast
  define e where "e = applyOverrideLocked m e0"
  have inc: "fi_Included (feedItem E e (override_of m (en_ID e)) (effective_cfg m) ips (entryKey e \<in> keys))"
    using assms(2) i by (simp add: generated_item_included e_def)
  then have safe: "feed_safe e" and no: "entryKey e \<notin> keys"
    and on: "rewriteEnabled e (override_of m (en_ID e)) (effective_cfg m)"
    and lines: "rewriteLines E (m_Domain (en_Match e)) (effective_cfg m) ips = Inr (fi_Lines item)"
    by (simp_all add: feedItem_included i generated_item_included e_def)
  have "e \<in> set (applied_entries m)" using e0 by (auto simp: applied_entries_iff e_def)
  with no have quiet: "conflict_reasons (key_rows m (entryKey e)) = []"
    unfolding keys_def by (simp add: conflict_keys_iff)
  have allow: "en_Category (applyOverrideLocked m a0) \<noteq> ''allow_exception''"
    if "a0 \<in> set (map snd (mg_entries m))" "en_Match a0 = en_Match e0" for a0
  proof
    assume "en_Category (applyOverrideLocked m a0) = ''allow_exception''"
    then have "allow_reason \<in> set (conflict_reasons (key_rows m (entryKey a0)))"
      using clash_is_a_reason[of a0 m e0] that e0 safe on by (simp add: feed_safe_def e_def)
    moreover have "entryKey a0 = entryKey e" using that(2) by (simp add: entryKey_def e_def)
    ultimately show False using quiet by simp
  qed
  show ?thesis
    using e0 safe on rewriteLines_shape[OF lines] allow
    unfolding safe_item_def by (intro bexI[of _ e0]) (simp_all add: Let_def i generated_item_included e_def)
qed

text \<open>Whatever the sources listed and however it was reviewed, the feed rewrites a domain only for a
  safe entry: one for the whole domain at the DNS layer, supported, enabled, neither an allow
  exception nor rejected, and with no allow exception for the same domain and path anywhere in
  the catalog. Every line it adds rewrites exactly that domain.\<close>

theorem feed_includes_only_safe_entries:
  assumes "generate E t1 now res io rows rec m = ((pv, err), m')"
    and "item \<in> set (pv_Items pv)" "fi_Included item"
  shows "\<exists>e0\<in>set (map snd (mg_entries m)). let e = applyOverrideLocked m e0 in
    fi_EntryID item = en_ID e \<and> fi_Domain item = m_Domain (en_Match e) \<and> feed_safe e \<and>
    rewriteEnabled e (override_of m (en_ID e)) (effective_cfg m) \<and>
    fi_Lines item \<noteq> [] \<and> (\<forall>l\<in>set (fi_Lines item). is_rewrite_line (fi_Domain item) l) \<and>
    (\<forall>a0\<in>set (map snd (mg_entries m)). en_Match a0 = en_Match e0 \<longrightarrow>
       en_Category (applyOverrideLocked m a0) \<noteq> ''allow_exception'')"
proof -
  have "pv_Items pv \<noteq> []" using assms(2) by auto
  then have "item \<in> set (all_items E now (tg_ips (fst (feed_target E t1 res m))) m)"
    using generate_items[OF assms(1)] assms(2) by simp
  from included_item_safe[OF this assms(3)] show ?thesis by (simp only: safe_item_def)
qed

definition ex_approved :: Manager where
  "ex_approved = ex_manager\<lparr>mg_entries :=
     [(''e1'', (ex_entry_of ''s1'' ''e1'' ''a.b'')\<lparr>en_ReviewStatus := ReviewApproved\<rparr>)],
     mg_overrides := [(''e1'', zero_override\<lparr>ov_Action := ''stub''\<rparr>)]\<rparr>"

definition ex_resolver :: resolver where
  "ex_resolver = Some (\<lambda>_. Inr [IPv4 ''10.0.0.1''])"

theorem feed_includes_only_safe_entries_witness:
  "\<exists>pv err m' item. generate ex_env 3 4 ex_resolver None False True ex_approved = ((pv, err), m') \<and>
     item \<in> set (pv_Items pv) \<and> is_rewrite_line (fi_Domain item) (hd (fi_Lines item))"
proof -
  obtain pv err m' where g: "generate ex_env 3 4 ex_resolver None False True ex_approved = ((pv, err), m')"
    by (metis surj_pair)
  have "map fi_Included (pv_Items (fst (fst (generate ex_env 3 4 ex_resolver None False True ex_approved)))) = [True]"
    by code_simp
  then obtain item where i: "item \<in> set (pv_Items pv)" "fi_Included item"
    using g by (cases "pv_Items pv") auto
  from feed_includes_only_safe_entries[OF g i] have "fi_Lines item \<noteq> []"
    "\<forall>l\<in>set (fi_Lines item). is_rewrite_line (fi_Domain item) l" by (auto simp: Let_def)
  with g i show ?thesis by (metis list.set_sel(1))
qed

text \<open>In an emergency, or with the feature off, a generation emits no item at all. When the target
  cannot be resolved and the automatic emergency is on, the generation switches the emergency on
  for good: later generations stay empty when the target resolves again, until an administrator
  switches it off.\<close>

theorem automatic_emergency_sticks:
  assumes "cf_AutoEmergencyEmptyOnTargetFailure (mg_cfg m)" "resolves (mg_cfg m)"
    and "tg_ips (fst (feed_target E t1 res m)) = []"
    and "generate E t1 now res io False True m = ((pv, err), m')"
  shows "pv_Items pv = [] \<and> cf_EmergencyEmpty (mg_cfg m') \<and>
    (\<forall>t1' now' res' io' rows rec pv' err' m''.
       generate E t1' now' res' io' rows rec m' = ((pv', err'), m'') \<longrightarrow>
       pv_Items pv' = [] \<and> cf_EmergencyEmpty (mg_cfg m''))"
proof -
  have empty_cfg: "mg_cfg (snd (emit_empty io rec now em st hd2 srcs n x)) = mg_cfg x" for io rec now em st hd2 srcs n x
    by (simp add: emit_empty_def Let_def persistGenerationLocked_def push_generation_def persistState_def
        split: prod.split option.split)
  have target_cfg: "mg_cfg (snd (feed_target E a b x)) = mg_cfg x" for a b x
    by (simp add: feed_target_def Let_def)
  obtain tg m1 where t: "feed_target E t1 res m = (tg, m1)" by (cases "feed_target E t1 res m")
  have first: "generate E t1 now res io False True m =
      emit_empty io True now True
        ((base_status E now m tg)\<lparr>fs_EmergencyEmpty := True\<rparr>)
        (feed_head E now (base_status E now m tg) tg @ ''! target_resolution=failed error='' @ tg_err tg @ newline1 @
          ''! emergency_empty=auto target_resolution_failed=true'' @ newline1)
        (map snd (mg_sources m)) (int (length (mg_entries m)))
        (m1\<lparr>mg_cfg := (mg_cfg m1)\<lparr>cf_EmergencyEmpty := True\<rparr>, mg_lastResolveErr := tg_err tg\<rparr>)"
    using assms(1-3) by (simp add: generate_def t Let_def)
  have pv: "pv = fst (fst (generate E t1 now res io False True m))" "m' = snd (generate E t1 now res io False True m)"
    using assms(4) by simp_all
  have p: "pv_Items pv = []" unfolding pv(1) first by (rule emit_empty_items)
  have on: "cf_EmergencyEmpty (mg_cfg m')" unfolding pv(2) first empty_cfg by simp
  have "pv_Items pv' = [] \<and> cf_EmergencyEmpty (mg_cfg m'')"
    if g: "generate E t1' now' res' io' rows rec m' = ((pv', err'), m'')" for t1' now' res' io' rows rec pv' err' m''
  proof -
    have "pv_Items pv' = []" using generate_items[OF g] on by blast
    obtain tg' m2 where t': "feed_target E t1' res' m' = (tg', m2)" by (cases "feed_target E t1' res' m'")
    have "mg_cfg m2 = mg_cfg m'" using target_cfg[of t1' res' m'] t' by simp
    then have "cf_EmergencyEmpty (mg_cfg (snd (generate E t1' now' res' io' rows rec m')))"
      using on by (simp add: generate_def t' Let_def empty_cfg)
    with g \<open>pv_Items pv' = []\<close> show ?thesis by simp
  qed
  with p on show ?thesis by blast
qed

definition ex_auto :: Manager where
  "ex_auto = ex_approved\<lparr>mg_cfg := ex_config\<lparr>cf_AutoEmergencyEmptyOnTargetFailure := True\<rparr>\<rparr>"

theorem automatic_emergency_sticks_witness:
  "pv_Items (fst (fst (generate ex_env 9 9 ex_resolver None True False
     (snd (generate ex_env 3 4 None None False True ex_auto))))) = []"
proof -
  have "tg_ips (fst (feed_target ex_env 3 None ex_auto)) = []" "resolves (mg_cfg ex_auto)"
    "cf_AutoEmergencyEmptyOnTargetFailure (mg_cfg ex_auto)" by code_simp+
  then show ?thesis
    using automatic_emergency_sticks[where E = ex_env and ?t1.0 = 3 and now = 4 and res = None and io = None and m = ex_auto]
    by (metis surj_pair fst_conv snd_conv)
qed

text \<open>The counts of the history add up: a recorded generation's included entries are the previous
  snapshot's, plus those added, minus those removed, and the new snapshot is exactly the set of
  included identifiers.\<close>

theorem generation_counts_add_up:
  assumes "distinct (mg_feedSnapshot m)" "distinct ids" "[] \<notin> set ids" "fs_ItemCount st = int (length ids)"
  shows "let m' = persistGenerationLocked st seen ids now upd m; r = last (mg_feedHistory m') in
    set (mg_feedSnapshot m') = set ids \<and> distinct (mg_feedSnapshot m') \<and> fg_Time r = now \<and>
    fg_IncludedCount r = int (length (mg_feedSnapshot m)) + fg_AddedCount r - fg_RemovedCount r \<and>
    fg_AddedCount r = int (card (set ids - set (mg_feedSnapshot m))) \<and>
    fg_RemovedCount r = int (card (set (mg_feedSnapshot m) - set ids))"
proof -
  let ?old = "mg_feedSnapshot m"
  have new: "feedSnapshotFromIDs ids = ids"
    unfolding feedSnapshotFromIDs_def by (rule unique_from_id) (use assms(2,3) in auto)
  have card_filter: "length (filter (\<lambda>i. i \<notin> B) xs) = card (set xs - B)" if "distinct xs" for xs :: "string list" and B
    using distinct_card[of "filter (\<lambda>i. i \<notin> B) xs"] that by (simp add: set_diff_eq)
  have "card (set ids) + card (set ?old - set ids) = card (set ?old) + card (set ids - set ?old)"
    using card_Un_disjoint[of "set ids" "set ?old - set ids"] card_Un_disjoint[of "set ?old" "set ids - set ?old"]
    by (simp add: Un_commute)
  then have "int (length ids) = int (length ?old) + int (card (set ids - set ?old)) - int (card (set ?old - set ids))"
    using distinct_card[OF assms(1)] distinct_card[OF assms(2)] by linarith
  then show ?thesis
    using assms card_filter[OF assms(1)] card_filter[OF assms(2)]
    by (simp add: persistGenerationLocked_def feedSnapshotDelta_def new push_generation_def Let_def
        last_keep_last_snoc feed_keep_def)
qed

definition ex_status :: FeedStatus where
  "ex_status = (base_status ex_env 4 ex_manager \<lparr>tg_ips = [], tg_last = 0, tg_err = [], tg_cache = False\<rparr>)\<lparr>fs_ItemCount := 2\<rparr>"

theorem generation_counts_add_up_witness:
  "let m' = persistGenerationLocked ex_status [] [''e1'', ''e3''] 4 True (ex_manager\<lparr>mg_feedSnapshot := [''e1'', ''e2'']\<rparr>);
     r = last (mg_feedHistory m') in fg_AddedCount r = 1 \<and> fg_RemovedCount r = 1 \<and> set (mg_feedSnapshot m') = {''e1'', ''e3''}"
  using generation_counts_add_up[of "ex_manager\<lparr>mg_feedSnapshot := [''e1'', ''e2'']\<rparr>" "[''e1'', ''e3'']" ex_status "[]" 4 True]
  by (simp add: Let_def ex_status_def insert_Diff_if)

text \<open>While the resolver fails, the feed keeps the last resolved addresses only until the configured
  time after the last success; after it, or with no address resolved before, a recorded
  generation either fails or empties the feed. It never rewrites to addresses older than that.\<close>

theorem stale_addresses_expire:
  assumes "resolves (mg_cfg m)" "resolveTarget res (mg_cfg m) = Inl e"
    and "generate E t1 now res io rows rec m = ((pv, err), m')"
    and "\<exists>item\<in>set (pv_Items pv). fi_Included item"
  shows "t1 - mg_lastResolve m \<le> durationOr E (cf_StaleTargetTTL (mg_cfg m)) (24 * hour_ns) \<and>
    \<not> IsZero (mg_lastResolve m) \<and> mg_targetIPs m \<noteq> [] \<and>
    fs_ResolvedIPs (pv_Status pv) = ipStrings (mg_targetIPs m) \<and> fs_TargetCacheUsed (pv_Status pv)"
proof -
  obtain tg m1 where t: "feed_target E t1 res m = (tg, m1)" by (cases "feed_target E t1 res m")
  have ne: "pv_Items pv \<noteq> []" using assms(4) by auto
  have tg: "tg_ips tg \<noteq> []"
  proof
    assume none: "tg_ips tg = []"
    have "pv_Items pv = []"
      using assms(1,3) emit_empty_items none
      by (auto simp: generate_def t Let_def split: if_splits) (metis fst_conv)+
    with ne show False by simp
  qed
  have cached: "mg_targetIPs m \<noteq> [] \<and> \<not> IsZero (mg_lastResolve m) \<and>
      t1 - mg_lastResolve m \<le> durationOr E (cf_StaleTargetTTL (mg_cfg m)) (24 * hour_ns) \<and>
      tg_ips tg = mg_targetIPs m \<and> tg_cache tg"
    using t tg assms(1,2) by (auto simp: feed_target_def Let_def split: if_splits)
  have "pv = fst (fst (generate E t1 now res io rows rec m))" using assms(3) by simp
  then have "fs_ResolvedIPs (pv_Status pv) = ipStrings (tg_ips tg) \<and> fs_TargetCacheUsed (pv_Status pv) = tg_cache tg"
    using generate_target[OF t] by simp
  with cached show ?thesis by simp
qed

definition ex_cached :: Manager where
  "ex_cached = ex_approved\<lparr>mg_targetIPs := [IPv4 ''10.0.0.1''], mg_lastResolve := 2\<rparr>"

theorem stale_addresses_expire_witness:
  "3 - mg_lastResolve ex_cached \<le> durationOr ex_env (cf_StaleTargetTTL (mg_cfg ex_cached)) (24 * hour_ns) \<and>
   mg_targetIPs ex_cached \<noteq> []"
proof -
  obtain pv err m' where g: "generate ex_env 3 4 None None False False ex_cached = ((pv, err), m')" by (metis surj_pair)
  have r: "resolves (mg_cfg ex_cached)" by code_simp
  have "cf_TargetName (mg_cfg ex_cached) \<noteq> []" by code_simp
  then have e: "resolveTarget None (mg_cfg ex_cached) = Inl (Err ''resolver unavailable'')" by (simp add: resolveTarget_def)
  have "list_ex fi_Included (pv_Items (fst (fst (generate ex_env 3 4 None None False False ex_cached))))" by code_simp
  then have "\<exists>item\<in>set (pv_Items pv). fi_Included item" by (simp add: g list_ex_iff)
  from stale_addresses_expire[OF r e g this] show ?thesis by simp
qed

text \<open>The pending diff an administrator reviews lists exactly what the sync counted: as many added,
  removed and changed entries, the added ones new to the source, the removed ones gone from the
  fetched list, and each changed one with the entry it replaces and at least one changed field.\<close>

theorem pending_diff_matches_counts:
  assumes "distinct (map en_ID prev)" "distinct (map en_ID nxt)" "diffEntries prev nxt = (added, removed, changed)"
  shows "let d = pendingDiffLocked E m src prev nxt in
    int (length (pd_Added d)) = added \<and> int (length (pd_Removed d)) = removed \<and> int (length (pd_Changed d)) = changed \<and>
    set (map pe_Entry (pd_Added d)) = {e \<in> set nxt. en_ID e \<notin> en_ID ` set prev} \<and>
    set (map pe_Entry (pd_Removed d)) = {e \<in> set prev. en_ID e \<notin> en_ID ` set nxt} \<and>
    (\<forall>x\<in>set (pd_Changed d). \<exists>old\<in>set prev. pe_Previous x = Some old \<and> en_ID old = en_ID (pe_Entry x) \<and>
       pe_ChangedFields x \<noteq> [])"
proof -
  define new_of where "new_of e = (case lookup (by_id prev) (en_ID e) of None \<Rightarrow> None | Some old \<Rightarrow>
      if entry_changed old e then Some (diff_entry E m (conflictKeysForEntriesLocked E m
        (replaceSourceEntries (map snd (mg_entries m)) (so_ID src) nxt)) (Some old) (pendingDiffChangedFields old e) e)
      else None)" for e
  have len: "length (List.map_filter new_of xs) =
      length (filter (\<lambda>e. case lookup (by_id prev) (en_ID e) of None \<Rightarrow> False | Some old \<Rightarrow> entry_changed old e) xs)" for xs
    by (induction xs) (auto simp: List.map_filter_def new_of_def split: option.splits)
  have none: "lookup (by_id es) i = None \<longleftrightarrow> i \<notin> en_ID ` set es" for es i
    by (auto simp: by_id_None)
  have chg: "\<exists>old\<in>set prev. pe_Previous x = Some old \<and> en_ID old = en_ID (pe_Entry x) \<and> pe_ChangedFields x \<noteq> []"
    if "x \<in> set (List.map_filter new_of nxt)" for x
  proof -
    from that obtain e old where "lookup (by_id prev) (en_ID e) = Some old" "entry_changed old e"
      "pe_Previous x = Some old" "pe_Entry x = e" "pe_ChangedFields x = pendingDiffChangedFields old e"
      by (auto simp: set_map_filter_iff new_of_def diff_entry_def split: option.splits if_splits)
    moreover from this(1) have "old \<in> set prev" "en_ID old = en_ID e" by (auto simp: by_id_lookup dest: find_SomeD)
    ultimately show ?thesis by (auto simp: entry_changed_def pendingDiffChangedFields_def)
  qed
  have "removed = int (card (en_ID ` set prev - en_ID ` set nxt))"
    using diff_counts[OF assms(1,2)] assms(3) by simp
  moreover have "card (en_ID ` set prev - en_ID ` set nxt) = length (filter (\<lambda>e. lookup (by_id nxt) (en_ID e) = None) prev)"
  proof -
    have "en_ID ` set prev - en_ID ` set nxt = set (map en_ID (filter (\<lambda>e. lookup (by_id nxt) (en_ID e) = None) prev))"
      by (auto simp: none)
    moreover have "distinct (map en_ID (filter (\<lambda>e. lookup (by_id nxt) (en_ID e) = None) prev))"
      using assms(1) by (rule distinct_map_filter)
    ultimately show ?thesis by (metis distinct_card length_map)
  qed
  ultimately have rem: "removed = int (length (filter (\<lambda>e. lookup (by_id nxt) (en_ID e) = None) prev))" by simp
  have ch: "pd_Changed (pendingDiffLocked E m src prev nxt) = sortPendingDiffEntries (List.map_filter new_of nxt)"
    by (simp add: pendingDiffLocked_def Let_def new_of_def[abs_def])
  show ?thesis
    using assms(3) len[of nxt] chg rem
    by (auto simp: Let_def ch) (auto simp: pendingDiffLocked_def sortPendingDiffEntries_def diffEntries_def Let_def none
        diff_entry_def image_iff)
qed

theorem pending_diff_matches_counts_witness:
  "let d = pendingDiffLocked ex_env ex_manager ex_source [ex_entry_of ''s'' ''e1'' ''a''] [ex_entry_of ''s'' ''e2'' ''b''] in
   length (pd_Added d) = 1 \<and> length (pd_Removed d) = 1 \<and> pd_Changed d = []"
proof -
  have d: "diffEntries [ex_entry_of ''s'' ''e1'' ''a''] [ex_entry_of ''s'' ''e2'' ''b''] = (1, 1, 0)"
    by (simp add: diffEntries_def by_id_def Let_def)
  from pending_diff_matches_counts[OF _ _ d, of ex_env ex_manager ex_source] show ?thesis by (simp add: Let_def)
qed

end
