(* ===== verification/Lifecycle.thy ===== *)
theory Lifecycle
  imports Server AghFeed
begin

text \<open>
  The life of the process in \<^verbatim>\<open>internal/server/server.go\<close>: start, the validate-then-swap
  reload, the endpoint of the managed feed and the configuration helpers; and the states the
  process can reach, with what holds in all of them.

  The files, the decoders, the digest, the list servers and the clock are the record
  \<open>life_env\<close>. Listeners, signals, the drain and the watchdog are not modelled. The admin
  interface keeps the rule store it was started with; here is the one that requests consult.
\<close>

record Process =
  ps_server :: Server
  ps_managed :: Manager

record life_env =
  lf_read :: reader
  lf_toml :: "string \<Rightarrow> Config \<Rightarrow> error + Config"
  lf_yaml_catalog :: "string \<Rightarrow> error + (string \<times> CatEntry option) list"
  lf_dir :: "string \<Rightarrow> error + dir_entry list"
  lf_yaml_policy :: "string \<Rightarrow> error + policyFile"
  lf_json_rules :: "string \<Rightarrow> error + Entry list \<times> Status"
  lf_json_state :: "string \<Rightarrow> error + state"
  lf_mkdir :: "error option"
  lf_digest :: "string \<Rightarrow> string"
  lf_api :: agh_api
  lf_io :: "error option"
  lf_io2 :: "error option"
  lf_parseDuration :: "string \<Rightarrow> duration option"
  lf_parseIP :: "string \<Rightarrow> ip option"
  lf_now :: time

subsection \<open>Helpers\<close>

fun validate_names :: "Catalog \<Rightarrow> string list \<Rightarrow> error option" where
  "validate_names cat [] = None"
| "validate_names cat (n # ns) =
     (if Catalog_Get cat n = None then Some (Err (''policy references unknown catalog entry '' @ quote n))
      else validate_names cat ns)"

definition validateRefs :: "Catalog \<Rightarrow> Ruleset \<Rightarrow> error option" where
  "validateRefs cat rs = validate_names cat (CatalogRefs rs)"

fun equalStrings :: "string list \<Rightarrow> string list \<Rightarrow> bool" where
  "equalStrings [] [] \<longleftrightarrow> True"
| "equalStrings (a # as) (b # bs) \<longleftrightarrow> a = b \<and> equalStrings as bs"
| "equalStrings _ _ \<longleftrightarrow> False"

definition srv_parseDuration :: "(string \<Rightarrow> duration option) \<Rightarrow> string \<Rightarrow> duration option" where
  "srv_parseDuration pd raw =
     (if raw = [] then Some 0
      else if HasSuffix raw ''d'' then
        (case ParseInt (TrimSuffix raw ''d'') of Inl _ \<Rightarrow> None | Inr n \<Rightarrow> Some (wrap64 (n * 24 * hour_ns)))
      else pd raw)"

definition parseDurationDefault :: "(string \<Rightarrow> duration option) \<Rightarrow> string \<Rightarrow> duration \<Rightarrow> duration" where
  "parseDurationDefault pd raw fallback =
     (case srv_parseDuration pd raw of None \<Rightarrow> fallback | Some d \<Rightarrow> if d \<le> 0 then fallback else d)"

definition schedulerInterval :: "(string \<Rightarrow> duration option) \<Rightarrow> string \<Rightarrow> duration" where
  "schedulerInterval pd raw =
     (let i = parseDurationDefault pd raw (12 * hour_ns);
          i1 = (if minute_ns < i then minute_ns else i)
      in if i1 \<le> 0 then minute_ns else i1)"

definition recorderOptions :: "(string \<Rightarrow> duration option) \<Rightarrow> time \<Rightarrow> Config \<Rightarrow> rec_options" where
  "recorderOptions pd now cfg =
     \<lparr>ro_Redact = lg_Redact (c_Log cfg), ro_Mode = lg_Mode (c_Log cfg),
      ro_DebugScopes = map (\<lambda>s. \<lparr>db_Domain = ds_Domain s, db_Client = ds_Client s,
          db_Expires = (case srv_parseDuration pd (ds_TTL s) of None \<Rightarrow> 0 | Some d \<Rightarrow> if 0 < d then now + d else 0)\<rparr>)
        (lg_DebugScope (c_Log cfg)),
      ro_CatalogMetrics = oc_Enabled (oy_Catalog (c_Observability cfg)),
      ro_EmitCatalogLog = oc_EmitSIEMCatalogFields (oy_Catalog (c_Observability cfg))\<rparr>"

definition syncConfig :: "Config \<Rightarrow> SyncConfig" where
  "syncConfig cfg =
     (let a = c_AGHSync cfg in
      \<lparr>sc_Enabled = ag_Enabled a, sc_BaseURL = ag_BaseURL a, sc_SyncFilters = ag_SyncFilters a,
       sc_SyncCustomRules = ag_SyncCustomRules a, sc_SyncAllowDeny = ag_SyncAllowDeny a,
       sc_SyncQueryLog = ag_SyncQueryLog a, sc_CNAMEEnabled = cn_Enabled (ag_CNAME a),
       sc_CNAMEUseQueryLog = cn_UseQueryLog (ag_CNAME a), sc_FilterURLs = ag_FilterURLs a,
       sc_CustomRules = ag_CustomRules a\<rparr>)"

definition mimicOptions :: "Config \<Rightarrow> mimic_options" where
  "mimicOptions cfg =
     \<lparr>mo_MaxBytes = mc_MaxBytes (c_Mimic cfg), mo_Mode = [], mo_AllowVideo = mc_AllowVideo (c_Mimic cfg),
      mo_CacheMax = mc_CacheMax (c_Mimic cfg)\<rparr>"

definition listenersInfo :: "Config \<Rightarrow> bool \<Rightarrow> (string, string) gomap" where
  "listenersInfo cfg issuer =
     (let m1 = (if pr_HTTP1 (c_Protocols cfg) \<and> li_HTTP (c_Listen cfg) \<noteq> [] then put ''http'' (li_HTTP (c_Listen cfg)) [] else []);
          m2 = (if issuer \<and> li_HTTPS (c_Listen cfg) \<noteq> [] then put ''https'' (li_HTTPS (c_Listen cfg)) m1 else m1);
          m3 = (if pr_QUIC (c_Protocols cfg)
                then (if pr_HTTP3 (c_Protocols cfg) then put ''http3'' (li_HTTPS (c_Listen cfg) @ '' (udp)'') m2
                      else put ''quic-passthrough'' (li_HTTPS (c_Listen cfg) @ '' (udp)'') m2)
                else m2)
      in put ''health'' (oy_Listen (c_Observability cfg)) m3)"

subsection \<open>Start\<close>

definition of_sum :: "error + 'a \<Rightarrow> 'a outcome" where
  "of_sum x = (case x of Inl e \<Rightarrow> Fail e | Inr v \<Rightarrow> Ok v)"

definition of_check :: "error option \<Rightarrow> unit outcome" where
  "of_check x = (case x of None \<Rightarrow> Ok () | Some e \<Rightarrow> Fail e)"

definition open_rules :: "life_env \<Rightarrow> Config \<Rightarrow> error + RStore" where
  "open_rules L cfg =
     rc_Open (lf_digest L) (lf_now L) (lf_json_rules L) (rg_Path (c_RuleCatalog cfg)) (lf_read L (rg_Path (c_RuleCatalog cfg)))"

definition sync_rules :: "life_env \<Rightarrow> Config \<Rightarrow> RStore \<Rightarrow> RStore" where
  "sync_rules L cfg rs =
     (if ag_Enabled (c_AGHSync cfg)
      then snd (rc_Sync (lf_digest L) (lf_now L) (lf_api L) (syncConfig cfg) (lf_io L) (lf_io2 L) rs) else rs)"

definition load_refs :: "life_env \<Rightarrow> Config \<Rightarrow> (Catalog \<times> Ruleset) outcome" where
  "load_refs L cfg =
     obind (of_sum (Catalog_Load (lf_read L) (lf_yaml_catalog L) (pa_CatalogDir (c_Paths cfg)))) (\<lambda>cat.
     obind (Load (lf_yaml_policy L) (pa_PolicyDir (c_Paths cfg)) (lf_dir L (pa_PolicyDir (c_Paths cfg)))) (\<lambda>rs.
     obind (of_check (validateRefs cat rs)) (\<lambda>_. Ok (cat, rs))))"

definition server_start :: "life_env \<Rightarrow> Config \<Rightarrow> Process outcome" where
  "server_start L cfg =
     obind (load_refs L cfg) (\<lambda>(cat, rs).
     obind (of_sum (open_rules L cfg)) (\<lambda>rules.
     obind (of_sum (New_Resolver (c_Resolvers cfg))) (\<lambda>res.
     obind (of_sum (agh_Open (lf_mkdir L) (lf_read L (Join2 (pa_StateDir (c_Paths cfg)) ''agh-managed-rewrites.json''))
                     (lf_json_state L) (c_AGHManaged cfg))) (\<lambda>managed.
       Ok \<lparr>ps_server =
             \<lparr>sv_cfg = cfg, sv_engine = NewEngine rs, sv_breaker = newBreaker 5 (30 * second_ns),
              sv_limiter = newRateLimiter (lf_now L) (rc_RateLimit (c_Resources cfg)), sv_cat = cat,
              sv_fwdUA = c_ScrubbedUA cfg, sv_fwdRes = res, sv_mimic = New_Mimic (mimicOptions cfg), sv_mimicRes = res,
              sv_resolver = res, sv_rules = Some (sync_rules L cfg rules),
              sv_recorder = NewRecorderWithOptions (recorderOptions (lf_parseDuration L) (lf_now L) cfg) 4096\<rparr>,
           ps_managed = managed\<rparr>))))"

subsection \<open>Reload\<close>

definition live_config :: "Config \<Rightarrow> Config \<Rightarrow> Config" where
  "live_config new old =
     old\<lparr>c_Mode := c_Mode new, c_Log := c_Log new, c_UnknownProfile := c_UnknownProfile new,
         c_RuleCatalog := c_RuleCatalog new, c_AGHSync := c_AGHSync new, c_AGHManaged := c_AGHManaged new,
         c_Mimic := c_Mimic new,
         c_Resources := (c_Resources old)\<lparr>rc_RateLimit := rc_RateLimit (c_Resources new),
                                          rc_BodyMaxBytes := rc_BodyMaxBytes (c_Resources new)\<rparr>\<rparr>"

definition swap_core :: "life_env \<Rightarrow> Config \<Rightarrow> Catalog \<Rightarrow> Ruleset \<Rightarrow> Server \<Rightarrow> Server" where
  "swap_core L new cat rs s =
     s\<lparr>sv_cat := cat, sv_engine := Swap rs (sv_engine s), sv_cfg := live_config new (sv_cfg s),
       sv_limiter := newRateLimiter (lf_now L) (rc_RateLimit (c_Resources new)),
       sv_mimic := New_Mimic (mimicOptions new), sv_mimicRes := sv_resolver s\<rparr>"

definition swap_resolver :: "Config \<Rightarrow> Server \<Rightarrow> Server" where
  "swap_resolver new s =
     (if equalStrings (c_Resolvers (sv_cfg s)) (c_Resolvers new) then s
      else
        (case New_Resolver (c_Resolvers new) of
           Inl _ \<Rightarrow> s
         | Inr res \<Rightarrow>
             s\<lparr>sv_resolver := res, sv_fwdRes := res, sv_fwdUA := c_ScrubbedUA new,
               sv_cfg := (sv_cfg s)\<lparr>c_Resolvers := c_Resolvers new\<rparr>\<rparr>))"

definition swap_rules :: "life_env \<Rightarrow> Config \<Rightarrow> Server \<Rightarrow> Server" where
  "swap_rules L new s =
     (if sv_rules s \<noteq> None \<and> rg_RefreshOnReload (c_RuleCatalog new)
      then (case open_rules L new of Inl _ \<Rightarrow> s | Inr opened \<Rightarrow> s\<lparr>sv_rules := Some (sync_rules L new opened)\<rparr>)
      else s)"

definition swap_recorder :: "life_env \<Rightarrow> Config \<Rightarrow> Server \<Rightarrow> Server" where
  "swap_recorder L new s =
     s\<lparr>sv_recorder := SetOptions (recorderOptions (lf_parseDuration L) (lf_now L) new) (sv_recorder s)\<rparr>"

definition reload_swap :: "life_env \<Rightarrow> Config \<Rightarrow> Catalog \<Rightarrow> Ruleset \<Rightarrow> Process \<Rightarrow> Process" where
  "reload_swap L new cat rs p =
     \<lparr>ps_server = swap_recorder L new (swap_rules L new (swap_resolver new (swap_core L new cat rs (ps_server p)))),
      ps_managed = SetConfig (c_AGHManaged new) (ps_managed p)\<rparr>"

definition load_checked :: "life_env \<Rightarrow> string \<Rightarrow> (Config \<times> Catalog \<times> Ruleset) outcome" where
  "load_checked L path =
     obind (of_sum (Config_Load (lf_read L) (lf_toml L) path)) (\<lambda>new.
     obind (of_check (Config_Check (lf_parseDuration L) (lf_parseIP L) new)) (\<lambda>_.
     obind (load_refs L new) (\<lambda>(cat, rs). Ok (new, cat, rs))))"

text \<open>\<^verbatim>\<open>None\<close> is a panic.\<close>

definition reload :: "life_env \<Rightarrow> string \<Rightarrow> Process \<Rightarrow> Process option" where
  "reload L path p =
     (case load_checked L path of
        Fail _ \<Rightarrow> Some p
      | Panic \<Rightarrow> None
      | Ok (new, cat, rs) \<Rightarrow> Some (reload_swap L new cat rs p))"

subsection \<open>The endpoint of the managed feed\<close>

definition normalizedManagedFeedPath :: "string \<Rightarrow> string" where
  "normalizedManagedFeedPath path =
     (if path = [] then ''/agh/managed-rewrites.txt'' else if \<not> HasPrefix path ''/'' then ''/'' @ path else path)"

definition plain_error :: "int \<Rightarrow> string \<Rightarrow> http_response" where
  "plain_error code msg =
     write_body (msg @ [CHR 0x0A]) (write_header code
       (set_header ''X-Content-Type-Options'' ''nosniff'' (set_header ''Content-Type'' ''text/plain; charset=utf-8'' blank_response)))"

definition handleManagedRewriteFeed ::
  "env \<Rightarrow> time \<Rightarrow> time \<Rightarrow> resolver \<Rightarrow> error option \<Rightarrow> string \<Rightarrow> string \<Rightarrow> Manager \<Rightarrow> http_response \<times> Manager" where
  "handleManagedRewriteFeed E t1 now res io mtd path m =
     (if mtd \<noteq> ''GET'' then (plain_error 404 ''404 page not found'', m)
      else if path \<noteq> normalizedManagedFeedPath (cf_FeedPath (mg_cfg m)) then (plain_error 404 ''404 page not found'', m)
      else
        (case Generate E t1 now res io False m of
           ((p, Some e), m') \<Rightarrow> (plain_error 503 (error_text e), m')
         | ((p, None), m') \<Rightarrow>
             (write_body (pv_Lines p) (set_header ''Cache-Control'' ''no-store''
                (set_header ''Content-Type'' ''text/plain; charset=utf-8'' blank_response)), m')))"

subsection \<open>Facts\<close>

lemma equalStrings_iff: "equalStrings a b \<longleftrightarrow> a = b"
  by (induction a b rule: equalStrings.induct) auto

lemma validate_names_None: "validate_names cat ns = None \<longleftrightarrow> list_all (\<lambda>n. Catalog_Get cat n \<noteq> None) ns"
  by (induction ns) auto

lemma validateRefs_None: "validateRefs cat rs = None \<longleftrightarrow> refs_ok cat rs"
  by (simp add: validateRefs_def refs_ok_def validate_names_None)

lemma of_sum_Ok [simp]: "of_sum x = Ok v \<longleftrightarrow> x = Inr v"
  by (auto simp: of_sum_def split: sum.split)

lemma of_check_Ok [simp]: "of_check x = Ok u \<longleftrightarrow> x = None"
  by (auto simp: of_check_def split: option.split)

lemma load_refs_Ok: "load_refs L cfg = Ok (cat, rs) \<Longrightarrow> refs_ok cat rs \<and> ruleset_ok rs"
  by (auto simp: load_refs_def obind_Ok_iff validateRefs_None dest: Load_ruleset_ok)

text \<open>What every state of the server satisfies.\<close>

definition server_inv :: "Server \<Rightarrow> bool" where
  "server_inv s \<longleftrightarrow>
     refs_ok (sv_cat s) (e_rs (sv_engine s)) \<and> ruleset_ok (e_rs (sv_engine s)) \<and> engine_inv (sv_engine s) \<and>
     breaker_inv (sv_breaker s) \<and> mimic_ok (sv_mimic s) \<and> ring_ok (sv_recorder s) \<and>
     sv_resolver s \<noteq> [] \<and> sv_fwdRes s \<noteq> [] \<and> sv_mimicRes s \<noteq> [] \<and>
     (\<forall>rs. sv_rules s = Some rs \<longrightarrow> rc_inv rs)"

lemma sync_rules_inv: "rc_inv rs \<Longrightarrow> rc_inv (sync_rules L cfg rs)"
  by (simp add: sync_rules_def rc_Sync_inv)

lemma open_rules_inv: "open_rules L cfg = Inr rs \<Longrightarrow> rc_inv rs"
  unfolding open_rules_def by (rule rc_Open_inv)

lemma New_Resolver_nonempty: "New_Resolver ups = Inr res \<Longrightarrow> res \<noteq> []"
  by (auto simp: New_Resolver_def split: if_splits)

lemma server_start_inv: "server_start L cfg = Ok p \<Longrightarrow> server_inv (ps_server p)"
  unfolding server_start_def server_inv_def
  by (auto simp: obind_Ok_iff engine_inv_new breaker_inv_new New_Mimic_ok New_ring NewEngine_def[THEN arg_cong[where f = e_rs]]
      dest!: load_refs_Ok open_rules_inv New_Resolver_nonempty intro: sync_rules_inv)

lemma SetOptions_ring: "ring_ok r \<Longrightarrow> ring_ok (SetOptions opts r)"
  by (simp add: ring_ok_def SetOptions_def)

lemma Swap_inv: "engine_inv e \<Longrightarrow> engine_inv (Swap rs e)"
  by (simp add: engine_inv_def Swap_def)

lemma reload_swap_inv:
  assumes "server_inv (ps_server p)" "refs_ok cat rs" "ruleset_ok rs"
  shows "server_inv (ps_server (reload_swap L new cat rs p))"
proof -
  have core: "server_inv (swap_core L new cat rs (ps_server p))"
    using assms by (auto simp: server_inv_def swap_core_def Swap_inv New_Mimic_ok) (simp_all add: Swap_def)
  have res: "server_inv (swap_resolver new s)" if "server_inv s" for s
    using that by (auto simp: server_inv_def swap_resolver_def New_Resolver_nonempty split: sum.split)
  have rules: "server_inv (swap_rules L new s)" if "server_inv s" for s
    using that by (auto simp: server_inv_def swap_rules_def dest: open_rules_inv intro: sync_rules_inv split: sum.split)
  have rcd: "server_inv (swap_recorder L new s)" if "server_inv s" for s
    using that by (simp add: server_inv_def swap_recorder_def SetOptions_ring)
  show ?thesis by (simp add: reload_swap_def rcd rules res core)
qed

lemma load_checked_Ok:
  "load_checked L path = Ok (new, cat, rs) \<Longrightarrow>
     Config_Check (lf_parseDuration L) (lf_parseIP L) new = None \<and> refs_ok cat rs \<and> ruleset_ok rs"
  by (auto simp: load_checked_def obind_Ok_iff dest: load_refs_Ok)

lemma reload_inv: "server_inv (ps_server p) \<Longrightarrow> reload L path p = Some p' \<Longrightarrow> server_inv (ps_server p')"
  by (auto simp: reload_def dest!: load_checked_Ok intro: reload_swap_inv split: outcome.splits)

lemma hash_hasher_ok: "mimic_ok h \<Longrightarrow> mimic_ok (snd (hash_hasher E u h))"
  using decoy_Lookup_ok[of h "se_clock E 5"] by (auto simp: hash_hasher_def Let_def split: prod.splits option.splits) (metis snd_conv)+

lemma rewriteHashes_ok: "mimic_ok h \<Longrightarrow> mimic_ok (snd (rewriteHashes E ct body h))"
  using rewriting_state[of mimic_ok "hash_hasher E"] hash_hasher_ok
  by (simp add: rewriteHashes_def split: prod.split) (metis fst_conv snd_conv)

lemma forward_mimic_ok:
  assumes "mimic_ok h" "forward_with (server_forwarder E s) scrub tr oe r w h = (failed, w', h')"
  shows "mimic_ok h'"
proof -
  have "mimic_ok (snd (md ct b h))" if "fw_modifier (server_forwarder E s) = Some md" "mimic_ok h" for md ct b h
    using that rewriteHashes_ok[of h E ct b] by (simp add: server_forwarder_def New_Forwarder_def Let_def)
  then have "mimic_ok (snd (snd (forward_with (server_forwarder E s) scrub tr oe r w h)))"
    using forward_state[of "server_forwarder E s" mimic_ok h scrub tr oe r w] assms(1) by blast
  with assms(2) show ?thesis by simp
qed

lemma Serve_mimic_ok:
  assumes "mimic_ok h" "mimic_Serve M r blank_response h = Some (ok, w, h')"
  shows "mimic_ok h'"
proof -
  have "\<not> hr_Wrote blank_response" by (simp add: blank_response_def)
  then show ?thesis
  proof (cases rule: mimic_Serve_cases[where E = M and r = r and h = h])
    case (declined h1)
    with assms show ?thesis by (auto intro: decoy_Lookup_ok)
  next
    case (served h1 shape full w')
    with assms show ?thesis by (auto intro: decoy_Lookup_ok storeDecoy_ok)
  qed
qed

lemma run_action_mimic_ok:
  assumes "mimic_ok (sv_mimic s)" "run_action E r d blank_response s = Some (failed, w, s')"
  shows "mimic_ok (sv_mimic s')"
  using assms forward_mimic_ok[OF assms(1)] Serve_mimic_ok[OF assms(1)]
  by (auto simp: run_action_def Asis_def Scrubbed_def Let_def split: if_splits prod.splits option.splits bool.splits)

lemma server_record_inv: "server_inv s \<Longrightarrow> server_inv (server_record E host r d w s)"
  unfolding server_inv_def by (simp add: server_record_def Recorder_Log_def ring_ok_store Let_def)

lemma act_on_inv:
  assumes "server_inv s" "\<And>n. 0 < se_clock E n" "act_on E r host d s = Some (w, s')"
  shows "server_inv s'"
proof -
  obtain al b1 where b: "(if contactsUpstream d then br_Allow (se_clock E 2) host (sv_breaker s) else (True, sv_breaker s)) = (al, b1)"
    by (metis surj_pair)
  have b1: "breaker_inv b1"
    using assms(1) b Allow_inv[of "sv_breaker s" "se_clock E 2" host] by (auto simp: server_inv_def split: if_splits)
  then have s1: "server_inv (s\<lparr>sv_breaker := b1\<rparr>)" using assms(1) by (simp add: server_inv_def)
  obtain failed w2 s2 where ra: "run_action E r d blank_response (s\<lparr>sv_breaker := b1\<rparr>) = Some (failed, w2, s2)"
    "sv_recorder s2 = sv_recorder s" "sv_cat s2 = sv_cat s" "sv_engine s2 = sv_engine s" "sv_breaker s2 = b1"
    "sv_rules s2 = sv_rules s" "sv_resolver s2 = sv_resolver s" "sv_fwdRes s2 = sv_fwdRes s" "sv_mimicRes s2 = sv_mimicRes s"
    using run_action_total[of E r d "s\<lparr>sv_breaker := b1\<rparr>"] by auto
  have "mimic_ok (sv_mimic s2)" using run_action_mimic_ok[OF _ ra(1)] s1 by (simp add: server_inv_def)
  then have s2: "server_inv (s2\<lparr>sv_breaker := b2\<rparr>)" if "breaker_inv b2" for b2
    using that s1 ra by (simp add: server_inv_def)
  have s3: "server_inv (s2\<lparr>sv_breaker := RecordFailure (se_clock E 8) host b1\<rparr>)"
    "server_inv (s2\<lparr>sv_breaker := RecordSuccess host b1\<rparr>)" "server_inv (s2\<lparr>sv_breaker := b1\<rparr>)"
    using b1 assms(2) by (auto intro!: s2 RecordFailure_inv RecordSuccess_inv)
  from assms(3) show ?thesis
    unfolding act_on_def b using s1 s3 ra
    by (auto simp: Let_def intro!: server_record_inv split: if_splits)
qed

lemma Decide_engine:
  assumes "Decide now domain path mtd e = (d, e')"
  shows "e_rs e' = e_rs e" "engine_inv e \<Longrightarrow> engine_inv e'"
proof -
  show "e_rs e' = e_rs e"
    using assms by (auto simp: Decide_def tempFor_def Let_def split: option.splits if_splits)
  show "engine_inv e \<Longrightarrow> engine_inv e'"
    using engine_step_inv[of e "OpDecide now domain path mtd"] assms by simp
qed

lemma handle_inv:
  assumes "server_inv s" "\<And>n. 0 < se_clock E n" "handleIntercept E r s = Some (w, s')"
  shows "server_inv s'"
proof -
  obtain al l where l: "rl_Allow (se_clock E 0) (sv_limiter s) = (al, l)" by (metis surj_pair)
  obtain d e where d: "Decide (se_clock E 9) (hostname r) (ir_Path r) (ir_Method r) (sv_engine s) = (d, e)" by (metis surj_pair)
  have "server_inv (s\<lparr>sv_limiter := l, sv_engine := e\<rparr>)" "server_inv (s\<lparr>sv_limiter := l\<rparr>)"
    using assms(1) Decide_engine[OF d] by (simp_all add: server_inv_def)
  with assms(2,3) show ?thesis
    by (cases al) (auto simp: handleIntercept_def l d Let_def intro: act_on_inv)
qed

lemma doPassthrough_inv: "server_inv s \<Longrightarrow> server_inv (doPassthrough E n s)"
  by (simp add: server_inv_def doPassthrough_def Recorder_Log_def ring_ok_store)


subsection \<open>Reachable states\<close>

text \<open>What changes the process: a request, a spliced connection, a temporary rule or a look at the
  temporary rules from the admin interface, a review in the rule catalog, a reload, and a fetch of
  the managed feed. The clocks of a request are positive.\<close>

inductive process_step :: "life_env \<Rightarrow> Process \<Rightarrow> Process \<Rightarrow> bool" where
  request: "\<lbrakk>\<forall>n. 0 < se_clock E n; handleIntercept E r (ps_server p) = Some (w, s')\<rbrakk> \<Longrightarrow>
     process_step L p (p\<lparr>ps_server := s'\<rparr>)"
| splice: "process_step L p (p\<lparr>ps_server := doPassthrough E n (ps_server p)\<rparr>)"
| temp_rule: "process_step L p (p\<lparr>ps_server := (ps_server p)
     \<lparr>sv_engine := AddTempRule now d a c ttl (sv_engine (ps_server p))\<rparr>\<rparr>)"
| temp_list: "process_step L p (p\<lparr>ps_server := (ps_server p)
     \<lparr>sv_engine := snd (TempRules now (sv_engine (ps_server p)))\<rparr>\<rparr>)"
| review: "sv_rules (ps_server p) = Some rs \<Longrightarrow>
     process_step L p (p\<lparr>ps_server := (ps_server p)\<lparr>sv_rules := Some (rc_step (lf_digest L) rs op)\<rparr>\<rparr>)"
| reloaded: "reload L path p = Some p' \<Longrightarrow> process_step L p p'"
| feed: "handleManagedRewriteFeed A t1 now res io mtd path (ps_managed p) = (w, m') \<Longrightarrow>
     process_step L p (p\<lparr>ps_managed := m'\<rparr>)"

inductive process_reaches :: "Process \<Rightarrow> bool" where
  started: "server_start L cfg = Ok p \<Longrightarrow> process_reaches p"
| step: "\<lbrakk>process_reaches p; process_step L p p'\<rbrakk> \<Longrightarrow> process_reaches p'"

inductive_cases process_stepE: "process_step L p p'"

lemma process_step_inv:
  assumes "process_step L p p'" "server_inv (ps_server p)"
  shows "server_inv (ps_server p')"
  using assms
proof (cases rule: process_step.cases)
  case (request E r w s')
  then show ?thesis using handle_inv[of "ps_server p" E r w s'] assms(2) by simp
next
  case (temp_rule now d a c ttl)
  have "e_rs (AddTempRule now d a c ttl e) = e_rs e" for e by (simp add: AddTempRule_def Let_def)
  then show ?thesis
    using temp_rule assms(2) engine_step_inv[of "sv_engine (ps_server p)" "OpAddTemp now d a c ttl"]
    by (simp add: server_inv_def)
next
  case (temp_list now)
  have "e_rs (snd (TempRules now e)) = e_rs e" for e by (simp add: TempRules_def Let_def)
  then show ?thesis
    using temp_list assms(2) engine_step_inv[of "sv_engine (ps_server p)" "OpTempRules now"]
    by (simp add: server_inv_def)
next
  case (review rs op)
  then show ?thesis using assms(2) by (simp add: server_inv_def rc_step_inv)
next
  case (reloaded path)
  then show ?thesis using assms(2) by (blast intro: reload_inv)
qed (use assms(2) in \<open>simp_all add: doPassthrough_inv\<close>)

lemma process_reaches_inv: "process_reaches p \<Longrightarrow> server_inv (ps_server p)"
  by (induction rule: process_reaches.induct) (auto intro: server_start_inv process_step_inv)

definition ex_life :: life_env where
  "ex_life =
     \<lparr>lf_read = (\<lambda>p. if HasSuffix p ''catalog.yaml'' then Inr ''x'' else Inl ErrNotExist), lf_toml = (\<lambda>_ c. Inr c),
      lf_yaml_catalog = (\<lambda>_. Inr [(safeDefaultStub, Some ex_cat_entry)]), lf_dir = (\<lambda>_. Inl ErrNotExist),
      lf_yaml_policy = (\<lambda>_. Inl ErrNotExist), lf_json_rules = (\<lambda>_. Inl ErrNotExist), lf_json_state = (\<lambda>_. Inl ErrNotExist),
      lf_mkdir = None, lf_digest = (\<lambda>s. s), lf_api = ex_api, lf_io = None, lf_io2 = None, lf_parseDuration = ex_durations,
      lf_parseIP = (\<lambda>_. None), lf_now = 5\<rparr>"

subsection \<open>Properties\<close>


lemma ex_started: "\<exists>p. server_start ex_life Defaults = Ok p"
proof -
  have "(case server_start ex_life Defaults of Ok _ \<Rightarrow> True | _ \<Rightarrow> False)" by code_simp
  then show ?thesis by (cases "server_start ex_life Defaults") auto
qed




text \<open>The text of a feed: comments, then the items that are included.\<close>

lemma emit_items_lines:
  "pv_Lines (fst (fst (emit_items E io rows rec now st text tg m0 m))) =
     text @ concat (map item_text (filter fi_Included (all_items E now (tg_ips tg) m0)))"
  by (simp add: emit_items_def all_items_def Let_def split: prod.split option.split)

lemma emit_empty_lines:
  "pv_Lines (fst (fst (emit_empty io rec now em st text srcs n m))) =
     text @ ''! feed empty: enabled='' @ show_bool (fs_Enabled st) @ '' emergency_empty='' @ show_bool em @ newline1"
  by (simp add: emit_empty_def Let_def split: prod.split)

definition feed_off :: "Manager \<Rightarrow> bool" where
  "feed_off m \<longleftrightarrow> cf_EmergencyEmpty (mg_cfg m) \<or> \<not> cf_Enabled (mg_cfg m)"

text \<open>The comments a feed starts with: who made it, when and for which target, and why it is empty.\<close>

definition feed_comments :: "env \<Rightarrow> time \<Rightarrow> string \<Rightarrow> bool" where
  "feed_comments E now h \<longleftrightarrow>
     (\<exists>st tg err on em. h = feed_head E now st tg \<or>
        h = feed_head E now st tg @ ''! feed empty: enabled='' @ show_bool on @ '' emergency_empty='' @ show_bool em @ newline1 \<or>
        h = (feed_head E now st tg @ ''! target_resolution=failed error='' @ err @ newline1 @
              ''! emergency_empty=auto target_resolution_failed=true'' @ newline1) @
            ''! feed empty: enabled='' @ show_bool on @ '' emergency_empty='' @ show_bool em @ newline1)"

lemma feed_commentsI:
  "feed_comments E now (feed_head E now st tg)"
  "feed_comments E now (feed_head E now st tg @ ''! feed empty: enabled='' @ show_bool on @ '' emergency_empty='' @ show_bool em @ newline1)"
  "feed_comments E now ((feed_head E now st tg @ ''! target_resolution=failed error='' @ err @ newline1 @
     ''! emergency_empty=auto target_resolution_failed=true'' @ newline1) @
     ''! feed empty: enabled='' @ show_bool on @ '' emergency_empty='' @ show_bool em @ newline1)"
  unfolding feed_comments_def by blast+

lemma generate_lines:
  assumes "generate E t1 now res io rows rec m = ((pv, None), m')"
  shows "feed_comments E now (pv_Lines pv) \<or>
    \<not> feed_off m \<and> (\<exists>st tg. pv_Lines pv = feed_head E now st tg @
       concat (map item_text (filter fi_Included (all_items E now (tg_ips tg) m))))"
proof -
  obtain tg m1 where t: "feed_target E t1 res m = (tg, m1)" by (cases "feed_target E t1 res m")
  define st where "st = base_status E now m tg"
  define failed where "failed = (resolves (mg_cfg m) \<and> tg_ips tg = [])"
  define auto1 where "auto1 = (failed \<and> cf_AutoEmergencyEmptyOnTargetFailure (mg_cfg m) \<and> rec)"
  note g = assms[unfolded generate_def t, simplified Let_def prod.case, folded st_def failed_def, folded auto1_def]
  show ?thesis
  proof (cases auto1)
    case True
    from g[simplified True simp_thms if_True] show ?thesis
      using emit_empty_lines by (metis feed_commentsI(3) fst_conv)
  next
    case False
    note g = g[simplified False simp_thms if_False]
    show ?thesis
    proof (cases "feed_off m")
      case True
      then have "(cf_EmergencyEmpty (mg_cfg m) \<or> \<not> cf_Enabled (mg_cfg m)) = True" by (simp add: feed_off_def)
      from g[unfolded this if_True] show ?thesis
        using emit_empty_lines by (metis feed_commentsI(2) fst_conv)
    next
      case off: False
      then have no: "(cf_EmergencyEmpty (mg_cfg m) \<or> \<not> cf_Enabled (mg_cfg m)) = False" by (simp add: feed_off_def)
      from g[unfolded no if_False] have "\<not> failed" by (auto split: if_splits)
      with g[unfolded no if_False] off show ?thesis
        using emit_items_lines by (metis (no_types, lifting) fst_conv)
    qed
  qed
qed

text \<open>C10: The endpoint of the managed feed answers 200 only to a GET of exactly the configured path; what it
  then serves, after its comments, are the lines of safe entries and nothing else, and no line at
  all while the feed is switched off or in an emergency.\<close>

theorem served_feed_is_safe:
  assumes "handleManagedRewriteFeed E t1 now res io mtd path m = (w, m')" "hr_Status w = 200"
  shows "mtd = ''GET'' \<and> path = normalizedManagedFeedPath (cf_FeedPath (mg_cfg m)) \<and>
    (\<exists>h items. hr_Body w = h @ concat (map item_text items) \<and> feed_comments E now h \<and>
       (feed_off m \<longrightarrow> items = []) \<and> (\<forall>i\<in>set items. safe_item m i))"
proof -
  have err: "hr_Status (plain_error c x) = c" for c x
    by (simp add: plain_error_def blank_response_def write_body_def write_header_def set_header_def)
  with assms have guard: "mtd = ''GET''" "path = normalizedManagedFeedPath (cf_FeedPath (mg_cfg m))"
    by (auto simp: handleManagedRewriteFeed_def split: if_splits)
  obtain p e m2 where g: "generate E t1 now res io False True m = ((p, e), m2)" by (metis surj_pair)
  from assms guard g err have e: "e = None" and body: "hr_Body w = pv_Lines p"
    by (auto simp: handleManagedRewriteFeed_def Generate_def blank_response_def write_body_def set_header_def
        split: option.splits)
  from generate_lines[OF g[unfolded e]] show ?thesis
  proof
    assume "feed_comments E now (pv_Lines p)"
    then show ?thesis using guard body by (intro conjI exI[of _ "pv_Lines p"] exI[of _ "[]"]) simp_all
  next
    assume "\<not> feed_off m \<and> (\<exists>st tg. pv_Lines p = feed_head E now st tg @
       concat (map item_text (filter fi_Included (all_items E now (tg_ips tg) m))))"
    then obtain st tg where on: "\<not> feed_off m" and p: "pv_Lines p = feed_head E now st tg @
       concat (map item_text (filter fi_Included (all_items E now (tg_ips tg) m)))" by blast
    show ?thesis
      by (intro conjI exI[of _ "feed_head E now st tg"] exI[of _ "filter fi_Included (all_items E now (tg_ips tg) m)"])
        (use guard on body p included_item_safe in \<open>auto simp: feed_commentsI(1)\<close>)
  qed
qed

theorem served_feed_is_safe_witness:
  "\<exists>w m' items h. handleManagedRewriteFeed AghSources.ex_env 3 4 ex_resolver None ''GET'' ''/agh/managed-rewrites.txt'' ex_approved = (w, m') \<and>
     hr_Body w = h @ concat (map item_text items) \<and> (\<forall>i\<in>set items. safe_item ex_approved i)"
proof -
  let ?g = "handleManagedRewriteFeed AghSources.ex_env 3 4 ex_resolver None ''GET'' ''/agh/managed-rewrites.txt'' ex_approved"
  obtain w m' where w: "?g = (w, m')" by (metis surj_pair)
  have "hr_Status (fst ?g) = 200" by code_simp
  with w have "hr_Status w = 200" by simp
  from served_feed_is_safe[OF w this] w show ?thesis by blast
qed

subsection \<open>What a reload forgets\<close>

text \<open>The decoys are built before the resolver is replaced and keep asking the old one.\<close>

lemma reload_leaves_decoys_on_old_resolver:
  assumes "c_Resolvers new \<noteq> c_Resolvers (sv_cfg (ps_server p))" "New_Resolver (c_Resolvers new) = Inr res"
  shows "sv_fwdRes (ps_server (reload_swap L new cat rs p)) = res \<and>
    sv_mimicRes (ps_server (reload_swap L new cat rs p)) = sv_resolver (ps_server p)"
  using assms
  by (auto simp: reload_swap_def swap_core_def swap_resolver_def swap_rules_def swap_recorder_def live_config_def
      equalStrings_iff split: sum.split)

text \<open>A new user agent is taken up only when the resolvers change too.\<close>

lemma reload_may_ignore_user_agent:
  "c_Resolvers new = c_Resolvers (sv_cfg (ps_server p)) \<Longrightarrow>
     sv_fwdUA (ps_server (reload_swap L new cat rs p)) = sv_fwdUA (ps_server p)"
  by (auto simp: reload_swap_def swap_core_def swap_resolver_def swap_rules_def swap_recorder_def live_config_def
      equalStrings_iff split: sum.split)

end
