(* ===== verification/Sni.thy ===== *)
theory Sni
  imports Resolver "HOL-Library.Word"
begin

unbundle bit_operations_syntax

text \<open>
  The peek at a TLS ClientHello and the splice of a connection, from
  \<^verbatim>\<open>internal/passthrough/sni.go\<close> and \<^verbatim>\<open>passthrough.go\<close>.

  Bytes are words of eight bits. A connection is the bytes its peer will still deliver and the
  error a read reports after them (the end of the stream or the deadline of ten seconds): the
  network may deliver them in any pieces, and \<^verbatim>\<open>readFull\<close> collects them. The copying of bytes
  after a splice is I/O.
\<close>

type_synonym byte = "8 word"
type_synonym bytes = "byte list"

definition byte_string :: "bytes \<Rightarrow> string" where
  "byte_string b = map (\<lambda>x. char_of (unat x)) b"

text \<open>\<^verbatim>\<open>binary.BigEndian.Uint16\<close>\<close>

definition be16 :: "byte \<Rightarrow> byte \<Rightarrow> nat" where
  "be16 a b = unat (push_bit 8 (ucast a) OR ucast b :: 16 word)"

subsection \<open>The ClientHello\<close>

text \<open>What a loop over a list of entries ends with: the value the function returns, or the code after it.\<close>

datatype scan = Return bytes | Continue

function name_loop :: "bytes \<Rightarrow> scan" where
  "name_loop ext =
     (if 3 \<le> length ext then
        (let nameType = ext ! 0; nameLen = be16 (ext ! 1) (ext ! 2); ext1 = drop 3 ext in
         if length ext1 < nameLen then Return []
         else if nameType = 0 then Return (take nameLen ext1)
         else name_loop (drop nameLen ext1))
      else Continue)"
  by pat_completeness auto
termination by (relation "measure length") (auto simp: Let_def)

definition server_name :: "bytes \<Rightarrow> scan" where
  "server_name ext =
     (if length ext < 2 then Return []
      else
        (let listLen = be16 (ext ! 0) (ext ! 1); ext1 = drop 2 ext in
         if length ext1 < listLen then Return [] else name_loop (take listLen ext1)))"

function ext_loop :: "bytes \<Rightarrow> bytes" where
  "ext_loop b =
     (if 4 \<le> length b then
        (let extType = be16 (b ! 0) (b ! 1); extLen = be16 (b ! 2) (b ! 3); b1 = drop 4 b in
         if length b1 < extLen then []
         else if extType \<noteq> 0 then ext_loop (drop extLen b1)
         else
           (case server_name (take extLen b1) of
              Return r \<Rightarrow> r
            | Continue \<Rightarrow> ext_loop (drop extLen b1)))
      else [])"
  by pat_completeness auto
termination by (relation "measure length") (auto simp: Let_def)

declare name_loop.simps [simp del] ext_loop.simps [simp del]

text \<open>A vector with a length of one or two bytes, skipped: what follows it, if it is there.\<close>

definition skip8 :: "bytes \<Rightarrow> bytes option" where
  "skip8 b =
     (if length b < 1 then None
      else (let n = unat (b ! 0); b1 = drop 1 b in if length b1 < n then None else Some (drop n b1)))"

definition skip16 :: "bytes \<Rightarrow> bytes option" where
  "skip16 b =
     (if length b < 2 then None
      else (let n = be16 (b ! 0) (b ! 1); b1 = drop 2 b in if length b1 < n then None else Some (drop n b1)))"

definition extensions :: "bytes \<Rightarrow> bytes" where
  "extensions b =
     (if length b < 2 then []
      else (let n = be16 (b ! 0) (b ! 1); b1 = drop 2 b in if length b1 < n then [] else ext_loop (take n b1)))"

definition parseSNI :: "bytes \<Rightarrow> bytes" where
  "parseSNI b =
     (if length b < 4 \<or> b ! 0 \<noteq> 1 then []
      else if length (drop 4 b) < 34 then []
      else
        (case skip8 (drop 34 (drop 4 b)) of
           None \<Rightarrow> []
         | Some b1 \<Rightarrow>
             (case skip16 b1 of
                None \<Rightarrow> []
              | Some b2 \<Rightarrow> (case skip8 b2 of None \<Rightarrow> [] | Some b3 \<Rightarrow> extensions b3))))"

subsection \<open>The peek\<close>

record conn =
  cn_In :: bytes
  cn_End :: error

definition readFull :: "conn \<Rightarrow> nat \<Rightarrow> (error + bytes) \<times> conn" where
  "readFull c k =
     (if k \<le> length (cn_In c) then (Inr (take k (cn_In c)), c\<lparr>cn_In := drop k (cn_In c)\<rparr>)
      else (Inl (cn_End c), c\<lparr>cn_In := []\<rparr>))"

definition maxRecords :: nat where "maxRecords = 8"

definition maxHandshake :: nat where "maxHandshake = 65536"

text \<open>The length a handshake header announces.\<close>

definition hello_total :: "bytes \<Rightarrow> nat" where
  "hello_total hs =
     4 + unat (push_bit 16 (ucast (hs ! 1)) OR push_bit 8 (ucast (hs ! 2)) OR ucast (hs ! 3) :: 64 word)"

text \<open>One step per record; the result is the name, the bytes to replay and the error.\<close>

fun peek_loop :: "nat \<Rightarrow> bool \<Rightarrow> bytes \<Rightarrow> bytes \<Rightarrow> conn \<Rightarrow> (bytes \<times> bytes \<times> error option) \<times> conn" where
  "peek_loop 0 first raw hs c = ((parseSNI hs, raw, None), c)"
| "peek_loop (Suc k) first raw hs c =
     (case readFull c 5 of
        (Inl e, c1) \<Rightarrow> ((parseSNI hs, raw, Some e), c1)
      | (Inr hdr, c1) \<Rightarrow>
          if hdr ! 0 \<noteq> 0x16 then
            (if first then (([], raw @ hdr, Some (Err ''not a TLS handshake record'')), c1)
             else ((parseSNI hs, raw @ hdr, None), c1))
          else
            (let recLen = be16 (hdr ! 3) (hdr ! 4) in
             if recLen \<le> 0 \<or> 65536 < recLen then ((parseSNI hs, raw @ hdr, Some (Err ''bad record length'')), c1)
             else
               (case readFull c1 recLen of
                  (Inl e, c2) \<Rightarrow> ((parseSNI hs, raw @ hdr, Some e), c2)
                | (Inr body, c2) \<Rightarrow>
                    (let raw1 = raw @ hdr @ body; hs1 = hs @ body in
                     if 4 \<le> length hs1 \<and> (hello_total hs1 \<le> length hs1 \<or> maxHandshake \<le> length hs1)
                     then ((parseSNI hs1, raw1, None), c2)
                     else peek_loop k False raw1 hs1 c2))))"

definition PeekClientHello :: "conn \<Rightarrow> (bytes \<times> bytes \<times> error option) \<times> conn" where
  "PeekClientHello c = peek_loop maxRecords True [] [] c"

text \<open>The connection that replays what was read.\<close>

record prefixConn =
  pc_conn :: conn
  pc_buf :: bytes

definition prefix_Read :: "prefixConn \<Rightarrow> nat \<Rightarrow> bytes \<times> prefixConn" where
  "prefix_Read p n =
     (if 0 < length (pc_buf p) then (take n (pc_buf p), p\<lparr>pc_buf := drop n (pc_buf p)\<rparr>)
      else (take n (cn_In (pc_conn p)), p\<lparr>pc_conn := (pc_conn p)\<lparr>cn_In := drop n (cn_In (pc_conn p))\<rparr>\<rparr>))"

subsection \<open>Splicing\<close>

text \<open>The connection to the origin: the first address that can be dialled.\<close>

definition splice_connect ::
  "(string \<Rightarrow> error + 'ip list) \<Rightarrow> ('ip \<Rightarrow> string) \<Rightarrow> (string \<Rightarrow> error + 'c) \<Rightarrow> string \<Rightarrow> string \<Rightarrow>
   'c option \<times> error option" where
  "splice_connect look ip_str dial sni port =
     (case look sni of
        Inl e \<Rightarrow> (None, Some e)
      | Inr ips \<Rightarrow> dial_each dial port (map ip_str ips) None)"

subsection \<open>Numbers of two and three bytes\<close>

lemma unat_ucast8:
  fixes b :: byte
  assumes "8 \<le> LENGTH('a)"
  shows "unat (ucast b :: 'a::len word) = unat b"
proof -
  have "unat b < 2 ^ 8" using unsigned_less[of b] by simp
  also have "(2 :: nat) ^ 8 \<le> 2 ^ LENGTH('a)" using assms by (intro power_increasing) simp_all
  finally show ?thesis by (simp add: unsigned_ucast_eq take_bit_nat_eq_self_iff)
qed

lemma unat_shift_or:
  fixes v :: "'a::len word" and b :: byte
  assumes "8 \<le> LENGTH('a)" "unat v * 256 < 2 ^ LENGTH('a)"
  shows "unat (push_bit 8 v OR ucast b) = unat v * 256 + unat b"
proof -
  have "push_bit 8 v AND (ucast b :: 'a word) = 0"
    by (rule bit_word_eqI) (auto simp: bit_simps dest: bit_imp_le_length)
  then have "push_bit 8 v OR ucast b = push_bit 8 v + (ucast b :: 'a word)" by (rule disjunctive_add_eq_or[symmetric])
  moreover have "unat (push_bit 8 v) = unat v * 256"
  proof -
    have "unat (push_bit 8 v) = take_bit LENGTH('a) (push_bit 8 (unat v))" by (simp only: unsigned_push_bit_eq)
    also have "push_bit 8 (unat v) = unat v * 256" by (simp add: push_bit_eq_mult)
    also have "take_bit LENGTH('a) (unat v * 256) = unat v * 256" using assms(2) by (simp only: take_bit_nat_eq_self)
    finally show ?thesis .
  qed
  moreover have "unat (ucast b :: 'a word) = unat b" by (rule unat_ucast8[OF assms(1)])
  moreover have "unat v * 256 + unat b < 2 ^ LENGTH('a)"
  proof -
    obtain k where k: "LENGTH('a) = 8 + k" using assms(1) le_Suc_ex by blast
    have b: "unat b < 256" using unsigned_less[of b] by simp
    have "unat v < 2 ^ k" using assms(2) by (simp add: k power_add)
    then have "unat v * 256 + 256 \<le> 2 ^ k * 256" by (metis Suc_leI mult_Suc mult_le_mono1 add.commute)
    with b show ?thesis by (simp add: k power_add)
  qed
  ultimately show ?thesis by (simp add: unat_word_ariths)
qed

lemma be16: "be16 a b = unat a * 256 + unat b"
proof -
  have "unat (ucast a :: 16 word) = unat a" by (rule unat_ucast8) simp
  moreover have "unat a < 256" using unsigned_less[of a] by simp
  ultimately show ?thesis unfolding be16_def using unat_shift_or[of "ucast a :: 16 word" b] by simp
qed

lemma byte_less: "unat (b :: byte) < 256" using unsigned_less[of b] by simp

lemma hello_total: "hello_total hs = 4 + (unat (hs ! 1) * 65536 + unat (hs ! 2) * 256 + unat (hs ! 3))"
proof -
  let ?a = "ucast (hs ! 1) :: 64 word"
  have a: "unat ?a = unat (hs ! 1)"
    by (rule unat_ucast8) simp
  have b: "unat (push_bit 8 ?a OR ucast (hs ! 2)) = unat (hs ! 1) * 256 + unat (hs ! 2)"
    using unat_shift_or[of ?a "hs ! 2"] a byte_less[of "hs ! 1"] by simp
  have "push_bit 16 ?a OR push_bit 8 (ucast (hs ! 2)) = push_bit 8 (push_bit 8 ?a OR ucast (hs ! 2))"
    by (rule bit_word_eqI) (auto simp: bit_simps)
  then have eq: "push_bit 16 ?a OR push_bit 8 (ucast (hs ! 2)) OR ucast (hs ! 3) =
      push_bit 8 (push_bit 8 ?a OR ucast (hs ! 2)) OR ucast (hs ! 3)" by (simp only: or.assoc[symmetric])
  have "(unat (hs ! 1) * 256 + unat (hs ! 2)) * 256 < 2 ^ LENGTH(64)"
    using byte_less[of "hs ! 1"] byte_less[of "hs ! 2"] by simp
  then have "unat (push_bit 8 (push_bit 8 ?a OR ucast (hs ! 2)) OR ucast (hs ! 3)) =
      (unat (hs ! 1) * 256 + unat (hs ! 2)) * 256 + unat (hs ! 3)"
    using unat_shift_or[of "push_bit 8 ?a OR ucast (hs ! 2)" "hs ! 3"] unfolding b by simp
  then show ?thesis unfolding hello_total_def eq by (simp only: algebra_simps)
qed

text \<open>Two bytes for a number, and back.\<close>

definition u16 :: "nat \<Rightarrow> bytes" where
  "u16 n = [of_nat (n div 256), of_nat (n mod 256)]"

lemma unat_of_nat8: "n < 256 \<Longrightarrow> unat (of_nat n :: byte) = n"
  by (simp add: unat_of_nat take_bit_nat_eq_self_iff)

lemma be16_u16: "n < 65536 \<Longrightarrow> be16 (of_nat (n div 256)) (of_nat (n mod 256)) = n"
  by (simp add: be16 unat_of_nat8)

lemma length_u16 [simp]: "length (u16 n) = 2"
  by (simp add: u16_def)


subsection \<open>A ClientHello as RFC 8446 lays it out\<close>

definition enc_ext :: "nat \<times> bytes \<Rightarrow> bytes" where
  "enc_ext = (\<lambda>(t, d). u16 t @ u16 (length d) @ d)"

definition enc_name :: "byte \<times> bytes \<Rightarrow> bytes" where
  "enc_name = (\<lambda>(t, n). t # u16 (length n) @ n)"

definition enc_names :: "(byte \<times> bytes) list \<Rightarrow> bytes" where
  "enc_names ns = (let l = concat (map enc_name ns) in u16 (length l) @ l)"

definition client_hello :: "bytes \<Rightarrow> bytes \<Rightarrow> bytes \<Rightarrow> bytes \<Rightarrow> (nat \<times> bytes) list \<Rightarrow> bytes" where
  "client_hello random sid suites meths exts =
     (let e = concat (map enc_ext exts);
          body = [3, 3] @ random @ [of_nat (length sid)] @ sid @ u16 (length suites) @ suites @
            [of_nat (length meths)] @ meths @ u16 (length e) @ e
      in [1, of_nat (length body div 65536)] @ u16 (length body mod 65536) @ body)"

lemma skip8_vector: "length x < 256 \<Longrightarrow> skip8 (of_nat (length x) # x @ rest) = Some rest"
  by (simp add: skip8_def Let_def unat_of_nat8)

lemma skip16_vector: "length x < 65536 \<Longrightarrow> skip16 (u16 (length x) @ x @ rest) = Some rest"
  by (simp add: skip16_def Let_def u16_def be16_u16)

lemma extensions_vector: "length x < 65536 \<Longrightarrow> extensions (u16 (length x) @ x) = ext_loop x"
  by (simp add: extensions_def Let_def u16_def be16_u16)

lemma name_loop_cons:
  "length n < 65536 \<Longrightarrow> name_loop (enc_name (t, n) @ r) = (if t = 0 then Return n else name_loop r)"
  by (subst name_loop.simps) (simp add: enc_name_def u16_def be16_u16 Let_def)

lemma server_name_list:
  "length (concat (map enc_name ns)) < 65536 \<Longrightarrow> server_name (enc_names ns) = name_loop (concat (map enc_name ns))"
  by (simp add: server_name_def enc_names_def Let_def u16_def be16_u16)

lemma ext_loop_cons:
  "t < 65536 \<Longrightarrow> length d < 65536 \<Longrightarrow> ext_loop (enc_ext (t, d) @ r) =
     (if t \<noteq> 0 then ext_loop r else case server_name d of Return x \<Rightarrow> x | Continue \<Rightarrow> ext_loop r)"
  by (subst ext_loop.simps) (cases "server_name d"; simp add: enc_ext_def u16_def be16_u16 Let_def)

lemma ext_loop_skip:
  "list_all (\<lambda>(t, d). t \<noteq> 0 \<and> t < 65536 \<and> length d < 65536) es \<Longrightarrow> ext_loop (concat (map enc_ext es) @ r) = ext_loop r"
  by (induction es) (auto simp: ext_loop_cons)

lemma name_loop_skip:
  "list_all (\<lambda>(t, n). t \<noteq> 0 \<and> length n < 65536) ns \<Longrightarrow> name_loop (concat (map enc_name ns) @ r) = name_loop r"
  by (induction ns) (auto simp: name_loop_cons)

lemma parseSNI_hello:
  assumes "length random = 32" "length sid < 256" "length suites < 65536" "length meths < 256"
    and "length (concat (map enc_ext exts)) < 65536"
  shows "parseSNI (client_hello random sid suites meths exts) = ext_loop (concat (map enc_ext exts))"
proof -
  let ?e = "concat (map enc_ext exts)"
  let ?rest = "of_nat (length sid) # sid @ u16 (length suites) @ suites @ of_nat (length meths) # meths @ u16 (length ?e) @ ?e"
  obtain a b c where hello: "client_hello random sid suites meths exts = [1, a, b, c] @ ([3, 3] @ random) @ ?rest"
    by (simp add: client_hello_def Let_def u16_def)
  have "length ([3, 3] @ random) = 34" using assms(1) by simp
  with hello have "drop 34 (drop 4 (client_hello random sid suites meths exts)) = ?rest"
    "4 \<le> length (client_hello random sid suites meths exts)" "34 \<le> length (drop 4 (client_hello random sid suites meths exts))"
    "client_hello random sid suites meths exts ! 0 = 1"
    by simp_all
  then show ?thesis
    using skip8_vector[OF assms(2)] skip16_vector[OF assms(3)] skip8_vector[OF assms(4)] extensions_vector[OF assms(5)]
    by (simp add: parseSNI_def)
qed

lemma parseSNI_host:
  assumes "length random = 32" "length sid < 256" "length suites < 65536" "length meths < 256"
    and "list_all (\<lambda>(t, d). t \<noteq> 0 \<and> t < 65536 \<and> length d < 65536) before"
    and "list_all (\<lambda>(t, n). t \<noteq> 0 \<and> length n < 65536) others"
    and "exts = before @ (0, enc_names (others @ (0, name) # further)) # after"
    and "length (concat (map enc_ext exts)) < 65536"
  shows "parseSNI (client_hello random sid suites meths exts) = name"
proof -
  let ?ns = "others @ (0, name) # further"
  have "length (enc_names ?ns) \<le> length (concat (map enc_ext exts))"
    unfolding assms(7) by (simp add: enc_ext_def)
  then have l: "length (enc_names ?ns) < 65536" using assms(8) by simp
  then have l1: "length (concat (map enc_name ?ns)) < 65536" by (simp add: enc_names_def Let_def)
  then have n: "length name < 65536" by (simp add: enc_name_def)
  have "server_name (enc_names ?ns) = Return name"
    using server_name_list[OF l1] name_loop_skip[OF assms(6)] n by (simp add: name_loop_cons)
  with parseSNI_hello[OF assms(1-4,8)] l show ?thesis
    unfolding assms(7) by (simp add: ext_loop_skip[OF assms(5)] ext_loop_cons)
qed

text \<open>The name a client asks for is found wherever it stands: in a ClientHello with any random, session,
  cipher suites, compression methods and other extensions before and after, behind names of other
  types, \<open>parseSNI\<close> returns exactly the host name.\<close>

theorem parseSNI_finds_host_name:
  assumes "length random = 32" "length sid < 256" "length suites < 65536" "length meths < 256"
    and "list_all (\<lambda>(t, d). t \<noteq> 0 \<and> t < 65536 \<and> length d < 65536) before"
    and "list_all (\<lambda>(t, n). t \<noteq> 0 \<and> length n < 65536) others"
    and "exts = before @ (0, enc_names (others @ (0, name) # further)) # after"
    and "length (concat (map enc_ext exts)) < 65536"
  shows "parseSNI (client_hello random sid suites meths exts) = name"
  by (rule parseSNI_host[OF assms])

definition ex_exts :: "(nat \<times> bytes) list" where
  "ex_exts = [(43, [2, 3, 4])] @ (0, enc_names ([] @ (0, [97, 46, 98]) # [])) # []"

definition ex_hello :: bytes where
  "ex_hello = client_hello (replicate 32 7) [] [19, 1] [0] ex_exts"

theorem parseSNI_finds_host_name_witness: "parseSNI ex_hello = [97, 46, 98]"
  unfolding ex_hello_def by (rule parseSNI_finds_host_name[OF _ _ _ _ _ _ ex_exts_def])
      (simp_all add: ex_exts_def enc_ext_def enc_names_def enc_name_def Let_def)

lemma ex_hello_name: "parseSNI ex_hello = [97, 46, 98]"
  unfolding ex_hello_def by (rule parseSNI_host[OF _ _ _ _ _ _ ex_exts_def])
      (simp_all add: ex_exts_def enc_ext_def enc_names_def enc_name_def Let_def)

lemma ex_hello_length: "length ex_hello = 66"
  by (simp add: ex_hello_def client_hello_def ex_exts_def enc_ext_def enc_names_def enc_name_def Let_def)

lemma client_hello_total:
  assumes "length (client_hello random sid suites meths exts) < 4 + 65536 * 256"
  shows "hello_total (client_hello random sid suites meths exts) = length (client_hello random sid suites meths exts)"
proof -
  obtain n body where h: "client_hello random sid suites meths exts =
      [1, of_nat (n div 65536)] @ u16 (n mod 65536) @ body" "n = length body"
    by (simp add: client_hello_def Let_def)
  then have "n div 65536 < 256" using assms by simp
  with h show ?thesis
    by (simp add: hello_total u16_def unat_of_nat8)
qed


subsection \<open>Replay and fragmentation\<close>

lemma readFull_bytes:
  "readFull c k = (Inr b, c') \<Longrightarrow> cn_In c = b @ cn_In c' \<and> length b = k \<and> cn_End c' = cn_End c"
  "readFull c k = (Inl e, c') \<Longrightarrow> cn_In c' = [] \<and> e = cn_End c"
  by (auto simp: readFull_def split: if_splits)

lemma peek_loop_bytes:
  "peek_loop k first raw hs c = ((sni, buf, err), c') \<Longrightarrow>
     \<exists>d lost. buf = raw @ d \<and> cn_In c = d @ lost @ cn_In c' \<and> (lost \<noteq> [] \<longrightarrow> err = Some (cn_End c) \<and> cn_In c' = [])"
proof (induction k first raw hs c rule: peek_loop.induct)
  case (2 k first raw hs c)
  show ?case
  proof (cases "readFull c 5")
    case (Pair x c1)
    show ?thesis
    proof (cases x)
      case (Inl e)
      then show ?thesis using 2(2) Pair readFull_bytes(2)[of c 5 e c1] by auto
    next
      case (Inr hdr)
      note h = readFull_bytes(1)[OF Pair[unfolded Inr]]
      define n where "n = be16 (hdr ! 3) (hdr ! 4)"
      show ?thesis
      proof (cases "hdr ! 0 \<noteq> 0x16 \<or> n \<le> 0 \<or> 65536 < n")
        case True
        then show ?thesis using 2(2) Pair Inr h by (auto simp: n_def[symmetric] Let_def split: if_splits)
      next
        case False
        obtain y c2 where r: "readFull c1 n = (y, c2)" by (metis surj_pair)
        show ?thesis
        proof (cases y)
          case (Inl e)
          then show ?thesis
            using 2(2) Pair Inr h False r readFull_bytes(2)[of c1 n e c2] by (auto simp: n_def[symmetric] Let_def)
        next
          case body: (Inr body)
          note b = readFull_bytes(1)[OF r[unfolded body]]
          let ?hs = "hs @ body" and ?raw = "raw @ hdr @ body"
          show ?thesis
          proof (cases "4 \<le> length ?hs \<and> (hello_total ?hs \<le> length ?hs \<or> maxHandshake \<le> length ?hs)")
            case True
            then show ?thesis using 2(2) Pair Inr h False r body b by (auto simp: n_def[symmetric] Let_def)
          next
            case go: False
            from False have "\<not> hdr ! 0 \<noteq> 0x16" "\<not> (n \<le> 0 \<or> 65536 < n)" by auto
            note ih = 2(1)[OF Pair[symmetric] Inr this(1) n_def this(2) r[symmetric] body refl refl go]
            have "peek_loop k False ?raw ?hs c2 = ((sni, buf, err), c')"
              using 2(2) Pair Inr False r body go by (auto simp: n_def[symmetric] Let_def split: if_splits)
            from ih[OF this] obtain d lost where "buf = ?raw @ d" "cn_In c2 = d @ lost @ cn_In c'"
              "lost \<noteq> [] \<longrightarrow> err = Some (cn_End c2) \<and> cn_In c' = []" by blast
            then show ?thesis using h b by (intro exI[of _ "hdr @ body @ d"] exI[of _ lost]) auto
          qed
        qed
      qed
    qed
  qed
qed auto


text \<open>Peeking loses no byte: when it succeeds, the bytes to replay followed by those still in the
  connection are the stream the client sent, so that the origin or the TLS server sees the whole of
  it. Bytes are lost only when a read fails in the middle of a record.\<close>

theorem peek_replays_the_stream:
  "case PeekClientHello c of ((sni, buf, err), c') \<Rightarrow>
     \<exists>lost. cn_In c = buf @ lost @ cn_In c' \<and> (err \<noteq> Some (cn_End c) \<or> cn_In c' \<noteq> [] \<longrightarrow> lost = [])"
proof -
  obtain sni buf err c' where p: "PeekClientHello c = ((sni, buf, err), c')" by (metis surj_pair)
  from peek_loop_bytes[OF p[unfolded PeekClientHello_def]] p show ?thesis by auto
qed

lemma read_failure_loses_bytes:
  "PeekClientHello \<lparr>cn_In = [0x16, 3, 1], cn_End = e\<rparr> = (([], [], Some e), \<lparr>cn_In = [], cn_End = e\<rparr>)"
  by (simp add: PeekClientHello_def maxRecords_def eval_nat_numeral readFull_def parseSNI_def)

text \<open>A handshake message cut into records.\<close>

definition tls_record :: "bytes \<Rightarrow> bytes" where
  "tls_record p = [0x16, 3, 1] @ u16 (length p) @ p"

lemma readFull_append: "length a = k \<Longrightarrow> readFull \<lparr>cn_In = a @ b, cn_End = e\<rparr> k = (Inr a, \<lparr>cn_In = b, cn_End = e\<rparr>)"
  by (simp add: readFull_def)

lemma peek_record:
  assumes "p \<noteq> []" "length p < 65536"
  shows "peek_loop (Suc k) first raw hs \<lparr>cn_In = tls_record p @ b, cn_End = e\<rparr> =
    (if 4 \<le> length (hs @ p) \<and> (hello_total (hs @ p) \<le> length (hs @ p) \<or> maxHandshake \<le> length (hs @ p))
     then ((parseSNI (hs @ p), raw @ tls_record p, None), \<lparr>cn_In = b, cn_End = e\<rparr>)
     else peek_loop k False (raw @ tls_record p) (hs @ p) \<lparr>cn_In = b, cn_End = e\<rparr>)"
proof -
  let ?h = "[0x16, 3, 1] @ u16 (length p)"
  have "readFull \<lparr>cn_In = ?h @ p @ b, cn_End = e\<rparr> 5 = (Inr ?h, \<lparr>cn_In = p @ b, cn_End = e\<rparr>)"
    by (rule readFull_append) simp
  moreover have "be16 (?h ! 3) (?h ! 4) = length p" "?h ! 0 = 0x16"
    using be16_u16[OF assms(2)] by (simp_all add: u16_def)
  moreover have "tls_record p = ?h @ p" by (simp add: tls_record_def)
  ultimately show ?thesis
    using assms readFull_append[of p "length p" b e] by (auto simp: Let_def)
qed

lemma hello_total_prefix: "4 \<le> length hs \<Longrightarrow> hello_total (hs @ r) = hello_total hs"
  by (simp add: hello_total nth_append)

lemma peek_fragments:
  assumes "hs @ concat ps = hello" "ps \<noteq> []" "length ps \<le> k" "\<forall>p\<in>set ps. p \<noteq> [] \<and> length p < 65536"
    and "4 \<le> length hello" "hello_total hello = length hello" "length hello \<le> maxHandshake"
  shows "peek_loop k first raw hs \<lparr>cn_In = concat (map tls_record ps) @ b, cn_End = e\<rparr> =
    ((parseSNI hello, raw @ concat (map tls_record ps), None), \<lparr>cn_In = b, cn_End = e\<rparr>)"
  using assms(1-4)
proof (induction ps arbitrary: k first raw hs)
  case (Cons p ps)
  then obtain k' where k: "k = Suc k'" by (cases k) auto
  have p: "p \<noteq> []" "length p < 65536" using Cons.prems(4) by auto
  show ?case
  proof (cases "ps = []")
    case True
    then have "hs @ p = hello" using Cons.prems(1) by simp
    then show ?thesis using peek_record[OF p, of k' first raw hs b e] assms(5,6) True by (simp add: k)
  next
    case False
    then have "concat ps \<noteq> []" using Cons.prems(4) by (cases ps) auto
    then have less: "length (hs @ p) < length hello" using Cons.prems(1) by auto
    have "4 \<le> length (hs @ p) \<Longrightarrow> hello_total (hs @ p) = length hello"
      using hello_total_prefix[of "hs @ p" "concat ps"] Cons.prems(1) assms(6) by simp
    with less have go: "\<not> (4 \<le> length (hs @ p) \<and> (hello_total (hs @ p) \<le> length (hs @ p) \<or> maxHandshake \<le> length (hs @ p)))"
      using assms(7) by auto
    have "(hs @ p) @ concat ps = hello" "length ps \<le> k'" using Cons.prems(1,3) k by simp_all
    with Cons.IH[of "hs @ p" k' False "raw @ tls_record p"] False Cons.prems(4)
    have "peek_loop k' False (raw @ tls_record p) (hs @ p) \<lparr>cn_In = concat (map tls_record ps) @ b, cn_End = e\<rparr> =
      ((parseSNI hello, (raw @ tls_record p) @ concat (map tls_record ps), None), \<lparr>cn_In = b, cn_End = e\<rparr>)" by simp
    with peek_record[OF p, of k' first raw hs "concat (map tls_record ps) @ b" e] show ?thesis
      unfolding k if_not_P[OF go] by simp
  qed
qed simp

text \<open>Cutting a ClientHello into records does not hide its name: however a message of at most 64 KiB is cut
  into at most eight records, the peek ends after the last of them with the name the whole message
  gives, everything it read is replayed, and what follows is left in the connection.\<close>

theorem fragmentation_does_not_hide_the_name:
  assumes "concat ps = hello" "length ps \<le> maxRecords" "\<forall>p\<in>set ps. p \<noteq> [] \<and> length p < 65536"
    and "4 \<le> length hello" "hello_total hello = length hello" "length hello \<le> maxHandshake"
  shows "PeekClientHello \<lparr>cn_In = concat (map tls_record ps) @ b, cn_End = e\<rparr> =
    ((parseSNI hello, concat (map tls_record ps), None), \<lparr>cn_In = b, cn_End = e\<rparr>)"
proof -
  have "ps \<noteq> []" using assms(1,4) by auto
  from peek_fragments[of "[]", OF _ this assms(2,3,4-6)] assms(1) show ?thesis
    by (simp add: PeekClientHello_def)
qed

theorem fragmentation_does_not_hide_the_name_witness:
  "PeekClientHello \<lparr>cn_In = concat (map tls_record [take 3 ex_hello, drop 3 ex_hello]) @ [9], cn_End = ErrNotExist\<rparr> =
    ((parseSNI ex_hello, concat (map tls_record [take 3 ex_hello, drop 3 ex_hello]), None), \<lparr>cn_In = [9], cn_End = ErrNotExist\<rparr>)"
proof -
  note l = ex_hello_length
  have "hello_total ex_hello = length ex_hello"
    unfolding ex_hello_def by (rule client_hello_total) (use l[unfolded ex_hello_def] in simp)
  moreover have "take 3 ex_hello \<noteq> []" "drop 3 ex_hello \<noteq> []" using l by auto
  ultimately show ?thesis
    by (intro fragmentation_does_not_hide_the_name) (use l in \<open>auto simp: maxRecords_def maxHandshake_def\<close>)
qed

text \<open>Reading through the replay gives the stream in order.\<close>

lemma prefix_Read_stream:
  "prefix_Read p n = (out, p') \<Longrightarrow> pc_buf p @ cn_In (pc_conn p) = out @ pc_buf p' @ cn_In (pc_conn p')"
  by (auto simp: prefix_Read_def split: if_splits)

end
