(* ===== verification/Quic.thy ===== *)
theory Quic
  imports Sni
begin

unbundle bit_operations_syntax

text \<open>
  The relay of QUIC datagrams that are not terminated, from \<^verbatim>\<open>internal/quic\<close>: variable-length
  integers (\<^verbatim>\<open>varint.go\<close>), the SNI of Initial packets and the reassembly of their CRYPTO frames
  (\<^verbatim>\<open>initial.go\<close>), and the table of flows (\<^verbatim>\<open>quic.go\<close>).

  Positions are 64-bit integers whose sums wrap around, an index or a slice out of range is a
  \<open>Panic\<close>. HKDF, AES and GCM are the fields of \<open>quic_crypto\<close>; what they write goes into a buffer
  of the length the code allocates.
\<close>

subsection \<open>Variable-length integers\<close>

definition readVarint :: "bytes \<Rightarrow> 64 word \<times> nat" where
  "readVarint b =
     (if b = [] then (0, 0)
      else
        (let prefix = drop_bit 6 (b ! 0); len = 2 ^ unat prefix in
         if length b < len then (0, 0)
         else (foldl (\<lambda>v x. push_bit 8 v OR ucast x) (ucast (b ! 0 AND 0x3f)) (take (len - 1) (drop 1 b)), len)))"

subsection \<open>Initial packets\<close>

record quic_crypto =
  qc_Extract :: "bytes \<Rightarrow> bytes \<Rightarrow> bytes"
  qc_Expand :: "bytes \<Rightarrow> bytes \<Rightarrow> nat \<Rightarrow> error + bytes"
  qc_Encrypt :: "bytes \<Rightarrow> bytes \<Rightarrow> error + bytes"
  qc_Open :: "bytes \<Rightarrow> bytes \<Rightarrow> bytes \<Rightarrow> bytes \<Rightarrow> error + bytes"

definition quicV1InitialSalt :: bytes where
  "quicV1InitialSalt =
     [0x38, 0x76, 0x2c, 0xf7, 0xf5, 0x59, 0x34, 0xb3, 0x4d, 0x17,
      0x9a, 0xe6, 0xa4, 0xc8, 0x0c, 0xad, 0xcc, 0xbb, 0x7f, 0x0a]"

text \<open>A buffer of a fixed length that a call fills.\<close>

definition into_buffer :: "nat \<Rightarrow> bytes \<Rightarrow> bytes" where
  "into_buffer n b = take n b @ replicate (n - length b) 0"

definition label_bytes :: "string \<Rightarrow> bytes" where
  "label_bytes s = map (\<lambda>c. of_nat (of_char c)) s"

definition hkdfExpandLabel :: "quic_crypto \<Rightarrow> bytes \<Rightarrow> string \<Rightarrow> nat \<Rightarrow> bytes outcome" where
  "hkdfExpandLabel C secret label len =
     (let full = ''tls13 '' @ label;
          info = [of_nat (len div 256), of_nat len, of_nat (length full)] @ label_bytes full @ [0]
      in case qc_Expand C secret info len of Inl e \<Rightarrow> Fail e | Inr out \<Rightarrow> Ok (into_buffer len out))"

definition deriveClientInitialKeys :: "quic_crypto \<Rightarrow> bytes \<Rightarrow> (bytes \<times> bytes \<times> bytes) outcome" where
  "deriveClientInitialKeys C dcid =
     obind (hkdfExpandLabel C (qc_Extract C dcid quicV1InitialSalt) ''client in'' 32) (\<lambda>client.
     obind (hkdfExpandLabel C client ''quic key'' 16) (\<lambda>key.
     obind (hkdfExpandLabel C client ''quic iv'' 12) (\<lambda>iv.
     obind (hkdfExpandLabel C client ''quic hp'' 16) (\<lambda>hp. Ok (key, iv, hp)))))"

record cryptoChunk =
  ck_off :: "64 word"
  ck_data :: bytes

definition idx :: "bytes \<Rightarrow> int \<Rightarrow> byte outcome" where
  "idx b i = (if 0 \<le> i \<and> i < int (length b) then Ok (b ! nat i) else Panic)"

definition slc :: "bytes \<Rightarrow> int \<Rightarrow> int \<Rightarrow> bytes outcome" where
  "slc b i j = (case go_slice i j b of None \<Rightarrow> Panic | Some x \<Rightarrow> Ok x)"

definition len64 :: "bytes \<Rightarrow> int" where "len64 b = int (length b)"

text \<open>\<^verbatim>\<open>int (x)\<close> of an unsigned value.\<close>

definition to_int :: "64 word \<Rightarrow> int" where "to_int x = sint x"

function cryptoFrames :: "bytes \<Rightarrow> int \<Rightarrow> cryptoChunk list \<Rightarrow> cryptoChunk list outcome" where
  "cryptoFrames frames i chunks =
     (if \<not> i < len64 frames then Ok chunks
      else
        (case idx frames i of
           Fail e \<Rightarrow> Fail e
         | Panic \<Rightarrow> Panic
         | Ok ft \<Rightarrow>
             if ft = 0 \<or> ft = 1 then cryptoFrames frames (i + 1) chunks
             else if ft = 6 then
               (case slc frames (i + 1) (len64 frames) of
                  Fail e \<Rightarrow> Fail e
                | Panic \<Rightarrow> Panic
                | Ok b1 \<Rightarrow>
                    (case readVarint b1 of
                       (off, n) \<Rightarrow>
                         if n = 0 then Ok chunks
                         else
                           (let i1 = i + 1 + int n in
                            case slc frames i1 (len64 frames) of
                              Fail e \<Rightarrow> Fail e
                            | Panic \<Rightarrow> Panic
                            | Ok b2 \<Rightarrow>
                                (case readVarint b2 of
                                   (ln, n2) \<Rightarrow>
                                     if n2 = 0 then Ok chunks
                                     else
                                       (let i2 = i1 + int n2; e = wrap64 (i2 + to_int ln) in
                                        if len64 frames < e then Ok chunks
                                        else
                                          (case slc frames i2 e of
                                             Fail er \<Rightarrow> Fail er
                                           | Panic \<Rightarrow> Panic
                                           | Ok d \<Rightarrow> cryptoFrames frames e (chunks @ [\<lparr>ck_off = off, ck_data = d\<rparr>])))))))
             else Ok chunks))"
  by pat_completeness auto
termination
  by (relation "measure (\<lambda>(frames, i, _). nat (len64 frames - i))")
    (auto simp: slc_def go_slice_def len64_def split: option.splits if_splits)

declare cryptoFrames.simps [simp del]

text \<open>The packet number with its header, and the nonce.\<close>

definition be64_bytes :: "64 word \<Rightarrow> bytes" where
  "be64_bytes pn = map (\<lambda>k. ucast (drop_bit (8 * (7 - k)) pn)) [0..<8]"

definition make_nonce :: "bytes \<Rightarrow> 64 word \<Rightarrow> bytes" where
  "make_nonce iv pn = take (length iv - 8) iv @ map2 (XOR) (drop (length iv - 8) iv) (be64_bytes pn)"

text \<open>The rest of the packet once the mask of the header protection is known.\<close>

definition open_masked ::
  "quic_crypto \<Rightarrow> bytes \<Rightarrow> int \<Rightarrow> 64 word \<Rightarrow> bytes \<Rightarrow> bytes \<Rightarrow> bytes \<Rightarrow> cryptoChunk list outcome" where
  "open_masked C data pnOffset payloadLen key iv msk =
     obind (slc data 0 pnOffset) (\<lambda>hdr0.
     obind (idx hdr0 0) (\<lambda>h0.
     (let h = h0 XOR (msk ! 0 AND 0x0f); pnLen = int (unat (h AND 0x03)) + 1 in
     obind (slc data pnOffset (pnOffset + pnLen)) (\<lambda>raw.
     (let pnBytes = map2 (XOR) raw (drop 1 msk);
          hdr = hdr0[0 := h] @ pnBytes;
          pn = foldl (\<lambda>v x. push_bit 8 v OR ucast x) 0 pnBytes;
          ctStart = pnOffset + pnLen;
          ctEnd = wrap64 (pnOffset + to_int payloadLen)
      in if len64 data < ctEnd \<or> ctEnd < ctStart then Fail (Err ''ciphertext bounds out of range'')
         else
           obind (slc data ctStart ctEnd) (\<lambda>ciphertext.
             (case qc_Open C key (make_nonce iv pn) ciphertext hdr of
                Inl e \<Rightarrow> Fail (Err (''decrypt Initial: '' @ error_text e))
              | Inr plain \<Rightarrow> cryptoFrames plain 0 [])))))))"

definition open_packet ::
  "quic_crypto \<Rightarrow> bytes \<Rightarrow> int \<Rightarrow> 64 word \<Rightarrow> bytes \<Rightarrow> bytes \<Rightarrow> bytes \<Rightarrow> cryptoChunk list outcome" where
  "open_packet C data pnOffset payloadLen key iv hp =
     obind (slc data (pnOffset + 4) (pnOffset + 4 + 16)) (\<lambda>sample.
       (case qc_Encrypt C hp sample of
          Inl e \<Rightarrow> Fail e
        | Inr m \<Rightarrow> open_masked C data pnOffset payloadLen key iv (into_buffer 16 m)))"

definition be32 :: "bytes \<Rightarrow> 32 word" where
  "be32 b = foldl (\<lambda>v x. push_bit 8 v OR ucast x) 0 b"

text \<open>A check of the code: the call ends with the error when the condition holds.\<close>

definition guard_not :: "bool \<Rightarrow> string \<Rightarrow> unit outcome" where
  "guard_not c m = (if c then Fail (Err m) else Ok ())"

definition varint_at :: "bytes \<Rightarrow> int \<Rightarrow> string \<Rightarrow> (64 word \<times> int) outcome" where
  "varint_at data pos m =
     obind (slc data pos (len64 data)) (\<lambda>b.
       let (v, n) = readVarint b in if n = 0 then Fail (Err m) else Ok (v, int n))"

definition extractInitialCrypto :: "quic_crypto \<Rightarrow> bytes \<Rightarrow> cryptoChunk list outcome" where
  "extractInitialCrypto C data =
     obind (guard_not (len64 data < 7 \<or> data ! 0 AND 0x80 = 0) ''not a long header'') (\<lambda>_.
     obind (guard_not (data ! 0 AND 0x30 \<noteq> 0) ''not an Initial packet'') (\<lambda>_.
     obind (slc data 1 5) (\<lambda>v.
     obind (guard_not (be32 v \<noteq> 1) ''unsupported QUIC version'') (\<lambda>_.
     obind (idx data 5) (\<lambda>dl.
     obind (guard_not (len64 data < 6 + int (unat dl)) ''truncated DCID'') (\<lambda>_.
     obind (slc data 6 (6 + int (unat dl))) (\<lambda>dcid.
     obind (guard_not (len64 data \<le> 6 + int (unat dl)) ''truncated SCID len'') (\<lambda>_.
     obind (idx data (6 + int (unat dl))) (\<lambda>sl.
     (let pos1 = 6 + int (unat dl) + 1 + int (unat sl) in
     obind (guard_not (len64 data \<le> pos1) ''truncated after SCID'') (\<lambda>_.
     obind (varint_at data pos1 ''bad token length'') (\<lambda>(tokenLen, k).
     (let pos2 = wrap64 (pos1 + wrap64 (k + to_int tokenLen)) in
     obind (guard_not (len64 data \<le> pos2) ''truncated after token'') (\<lambda>_.
     obind (varint_at data pos2 ''bad payload length'') (\<lambda>(payloadLen, k2).
     obind (guard_not (len64 data < pos2 + k2 + 4 + 16) ''packet too short for sampling'') (\<lambda>_.
     obind (deriveClientInitialKeys C dcid) (\<lambda>(key, iv, hp).
       open_packet C data (pos2 + k2) payloadLen key iv hp)))))))))))))))))"

subsection \<open>Reassembly\<close>

text \<open>The inner loop of the sort moves a chunk down past those with a larger offset; the sorted part
  is held in reverse.\<close>

fun sift :: "cryptoChunk \<Rightarrow> cryptoChunk list \<Rightarrow> cryptoChunk list" where
  "sift x [] = [x]"
| "sift x (y # ys) = (if ck_off x < ck_off y then y # sift x ys else x # y # ys)"

definition sort_chunks :: "cryptoChunk list \<Rightarrow> cryptoChunk list" where
  "sort_chunks chunks = rev (foldl (\<lambda>acc x. sift x acc) [] chunks)"

fun join_loop :: "cryptoChunk list \<Rightarrow> 64 word \<Rightarrow> bytes \<Rightarrow> bytes outcome" where
  "join_loop [] nxt out = Ok out"
| "join_loop (c # cs) nxt out =
     (let e = ck_off c + of_nat (length (ck_data c)) in
      if nxt < ck_off c then Ok out
      else if e \<le> nxt then join_loop cs nxt out
      else if length (ck_data c) < unat (nxt - ck_off c) then Panic
      else join_loop cs e (out @ drop (unat (nxt - ck_off c)) (ck_data c)))"

definition joinCryptoChunks :: "cryptoChunk list \<Rightarrow> bytes outcome" where
  "joinCryptoChunks chunks = (if chunks = [] then Ok [] else join_loop (sort_chunks chunks) 0 [])"

definition ParseInitialSNI :: "quic_crypto \<Rightarrow> bytes \<Rightarrow> bytes outcome" where
  "ParseInitialSNI C data =
     obind (extractInitialCrypto C data) (\<lambda>chunks.
     obind (joinCryptoChunks chunks) (\<lambda>hs.
       (let sni = parseSNI hs in
        if sni = [] then Fail (Err ''no SNI in ClientHello (may be fragmented across datagrams)'') else Ok sni)))"

record SNIExtractor =
  sx_chunks :: "cryptoChunk list"
  sx_packets :: int

definition empty_extractor :: SNIExtractor where
  "empty_extractor = \<lparr>sx_chunks = [], sx_packets = 0\<rparr>"

text \<open>The result: the name, whether the extractor is done; \<^verbatim>\<open>None\<close> is a panic.\<close>

definition Feed :: "quic_crypto \<Rightarrow> bytes \<Rightarrow> SNIExtractor \<Rightarrow> ((bytes \<times> bool) \<times> SNIExtractor) option" where
  "Feed C data e0 =
     (let e1 = e0\<lparr>sx_packets := sx_packets e0 + 1\<rparr> in
      case extractInitialCrypto C data of
        Panic \<Rightarrow> None
      | Fail _ \<Rightarrow> Some (([], 8 \<le> sx_packets e1), e1)
      | Ok chunks \<Rightarrow>
          (let e2 = e1\<lparr>sx_chunks := sx_chunks e1 @ chunks\<rparr> in
           case joinCryptoChunks (sx_chunks e2) of
             Ok hs \<Rightarrow>
               if parseSNI hs \<noteq> [] then Some ((parseSNI hs, True), e2) else Some (([], 8 \<le> sx_packets e2), e2)
           | _ \<Rightarrow> None))"

subsection \<open>Facts: variable-length integers\<close>

definition be_val :: "bytes \<Rightarrow> nat" where
  "be_val bs = foldl (\<lambda>n x. n * 256 + unat x) 0 bs"

lemma be_val_foldl: "foldl (\<lambda>n x. n * 256 + unat x) v bs = v * 256 ^ length bs + be_val (bs :: bytes)"
proof (induction bs arbitrary: v)
  case (Cons x bs)
  from Cons[of "v * 256 + unat x"] Cons[of "unat x"] show ?case by (simp add: be_val_def algebra_simps)
qed (simp add: be_val_def)

lemma be_val_simps [simp]: "be_val [] = 0" "be_val (x # bs) = unat x * 256 ^ length bs + be_val bs"
  using be_val_foldl[of "unat x" bs] by (simp_all add: be_val_def)

lemma be_val_less: "be_val bs < 256 ^ length bs"
proof (induction bs)
  case (Cons x bs)
  have "unat x + 1 \<le> 256" using byte_less[of x] by simp
  then have "(unat x + 1) * 256 ^ length bs \<le> 256 * 256 ^ length bs" by (rule mult_le_mono1)
  moreover have "unat x * 256 ^ length bs + be_val bs < (unat x + 1) * 256 ^ length bs" using Cons by simp
  ultimately show ?case by (simp only: be_val_simps list.size power_Suc add_0_right add_Suc_right)
qed simp

lemma fold_be:
  fixes v :: "'a::len word"
  assumes "8 \<le> LENGTH('a)" "(unat v + 1) * 256 ^ length bs \<le> 2 ^ LENGTH('a)"
  shows "unat (foldl (\<lambda>v x. push_bit 8 v OR ucast x) v bs) = unat v * 256 ^ length bs + be_val bs"
  using assms(2)
proof (induction bs arbitrary: v)
  case (Cons x bs)
  let ?v = "push_bit 8 v OR ucast x"
  have "unat v * 256 < (unat v + 1) * 256" by simp
  also have "\<dots> * 1 \<le> (unat v + 1) * 256 * 256 ^ length bs" by (rule mult_le_mono2) simp
  also have "\<dots> \<le> 2 ^ LENGTH('a)" using Cons.prems by (simp add: algebra_simps)
  finally have v: "unat ?v = unat v * 256 + unat x" using unat_shift_or[OF assms(1)] by simp
  have "(unat ?v + 1) * 256 ^ length bs \<le> (unat v + 1) * 256 * 256 ^ length bs"
    unfolding v using byte_less[of x] by (intro mult_le_mono1) simp
  also have "\<dots> \<le> 2 ^ LENGTH('a)" using Cons.prems by (simp add: algebra_simps)
  finally show ?case using Cons.IH[of ?v] v by (simp add: algebra_simps)
qed simp

lemma prefix_bits: "unat (drop_bit 6 (b :: byte)) = unat b div 64" "unat (b AND 0x3f) = unat b mod 64"
proof -
  show "unat (drop_bit 6 b) = unat b div 64"
    using unat_drop_bit_eq[of 6 b] by (simp add: drop_bit_eq_div)
  have "b AND 0x3f = take_bit 6 b"
    by (simp add: take_bit_eq_mask mask_eq_exp_minus_1)
  then have "unat (b AND 0x3f) = take_bit 6 (unat b)" by (simp only: unsigned_take_bit_eq)
  then show "unat (b AND 0x3f) = unat b mod 64" by (simp add: take_bit_eq_mod)
qed

lemma readVarint_val:
  assumes "b \<noteq> []" "k = unat (b ! 0) div 64" "2 ^ k \<le> length b"
  shows "snd (readVarint b) = 2 ^ k"
    "unat (fst (readVarint b)) = (unat (b ! 0) mod 64) * 256 ^ (2 ^ k - 1) + be_val (take (2 ^ k - 1) (drop 1 b))"
    "unat (fst (readVarint b)) < 2 ^ 62"
proof -
  let ?v = "ucast (b ! 0 AND 0x3f) :: 64 word" and ?bs = "take (2 ^ k - 1) (drop 1 b)"
  have u: "unat ?v = unat (b ! 0) mod 64" using unat_ucast8[where 'a = 64, of "b ! 0 AND 0x3f"] by (simp add: prefix_bits)
  have l: "length ?bs = 2 ^ k - 1" using assms(3) by simp
  have "k \<le> 3" using assms(2) byte_less[of "b ! 0"] by simp
  then have "k \<in> {0, 1, 2, 3}" by auto
  then have p: "(64 :: nat) * 256 ^ (2 ^ k - 1) \<le> 2 ^ 62" by (elim insertE) simp_all
  have "(unat ?v + 1) * 256 ^ length ?bs \<le> 64 * 256 ^ (2 ^ k - 1)" unfolding l u by (intro mult_le_mono1) simp
  also note p
  finally have b: "(unat ?v + 1) * 256 ^ length ?bs \<le> 2 ^ 62" .
  then have "(unat ?v + 1) * 256 ^ length ?bs \<le> 2 ^ LENGTH(64)" by (rule order_trans) simp
  from fold_be[OF _ this] have f: "unat (foldl (\<lambda>v x. push_bit 8 v OR ucast x) ?v ?bs) = unat ?v * 256 ^ length ?bs + be_val ?bs" by simp
  have r: "readVarint b = (foldl (\<lambda>v x. push_bit 8 v OR ucast x) ?v ?bs, 2 ^ k)"
    using assms by (simp add: readVarint_def Let_def prefix_bits)
  then show "snd (readVarint b) = 2 ^ k" by simp
  from r f show "unat (fst (readVarint b)) = (unat (b ! 0) mod 64) * 256 ^ (2 ^ k - 1) + be_val ?bs"
    unfolding l u by simp
  have "unat ?v * 256 ^ length ?bs + be_val ?bs < (unat ?v + 1) * 256 ^ length ?bs" using be_val_less[of ?bs] by simp
  with b f r show "unat (fst (readVarint b)) < 2 ^ 62" by simp
qed

lemma readVarint_bounds:
  assumes "readVarint b = (v, n)"
  shows "unat v < 2 ^ 62" "n \<le> length b" "n \<le> 8"
proof -
  have "k < 4 \<Longrightarrow> (2::nat) ^ k \<le> 8" for k by (cases "k \<in> {0,1,2,3}") auto
  moreover have "unat (b ! 0) div 64 < 4" using byte_less[of "b ! 0"] by simp
  ultimately have "unat v < 2 ^ 62 \<and> n \<le> length b \<and> n \<le> 8"
  proof (cases "b \<noteq> [] \<and> 2 ^ (unat (b ! 0) div 64) \<le> length b")
    case True
    then show ?thesis using readVarint_val[of b, OF _ refl] assms \<open>unat (b ! 0) div 64 < 4\<close> \<open>\<And>k. k < 4 \<Longrightarrow> (2::nat) ^ k \<le> 8\<close> by auto
  next
    case False
    then show ?thesis using assms by (auto simp: readVarint_def Let_def prefix_bits split: if_splits)
  qed
  then show "unat v < 2 ^ 62" "n \<le> length b" "n \<le> 8" by auto
qed

text \<open>The encodings of RFC 9000: \<open>n\<close> in \<open>2 ^ k\<close> bytes.\<close>

fun nat_bytes :: "nat \<Rightarrow> nat \<Rightarrow> bytes" where
  "nat_bytes 0 n = []"
| "nat_bytes (Suc l) n = of_nat (n div 256 ^ l mod 256) # nat_bytes l n"

definition enc_varint :: "nat \<Rightarrow> nat \<Rightarrow> bytes" where
  "enc_varint k n = of_nat (k * 64 + n div 256 ^ (2 ^ k - 1)) # nat_bytes (2 ^ k - 1) n"

lemma nat_bytes: "length (nat_bytes l n) = l" "be_val (nat_bytes l n) = n mod 256 ^ l"
proof (induction l)
  case (Suc l)
  have "unat (of_nat (n div 256 ^ l mod 256) :: byte) = n div 256 ^ l mod 256" by (rule unat_of_nat8) simp
  moreover have "n mod (256 * 256 ^ l) = (n div 256 ^ l mod 256) * 256 ^ l + n mod 256 ^ l"
    using mod_mult2_eq[of n "256 ^ l" 256] by (simp add: algebra_simps)
  ultimately show "length (nat_bytes (Suc l) n) = Suc l" "be_val (nat_bytes (Suc l) n) = n mod 256 ^ Suc l"
    using Suc by simp_all
qed simp_all

lemma readVarint_enc:
  assumes "k < 4" "n < 64 * 256 ^ (2 ^ k - 1)"
  shows "readVarint (enc_varint k n @ rest) = (of_nat n, 2 ^ k)"
proof -
  let ?l = "2 ^ k - 1 :: nat" and ?b = "enc_varint k n @ rest"
  have q: "n div 256 ^ ?l < 64" using assms(2) by (simp add: less_mult_imp_div_less)
  then have u: "unat (?b ! 0) = k * 64 + n div 256 ^ ?l"
    using assms(1) unat_of_nat8[of "k * 64 + n div 256 ^ ?l"] by (simp add: enc_varint_def del: of_nat_add of_nat_mult)
  have k: "k = unat (?b ! 0) div 64" unfolding u using q by simp
  have len: "2 ^ k \<le> length ?b" by (simp add: enc_varint_def nat_bytes)
  have "take ?l (drop 1 ?b) = nat_bytes ?l n" by (simp add: enc_varint_def nat_bytes)
  moreover have "unat (?b ! 0) mod 64 = n div 256 ^ ?l" unfolding u using q by simp
  ultimately have "unat (fst (readVarint ?b)) = n"
    using readVarint_val(2)[OF _ k len] by (simp add: nat_bytes enc_varint_def div_mult_mod_eq)
  moreover have "of_nat (unat (fst (readVarint ?b))) = fst (readVarint ?b)" by simp
  ultimately have "fst (readVarint ?b) = of_nat n" by (simp only:)
  moreover have "snd (readVarint ?b) = 2 ^ k" using readVarint_val(1)[OF _ k len] by (simp add: enc_varint_def)
  ultimately show ?thesis by (metis prod.collapse)
qed

text \<open>Every encoding of RFC 9000 is read back: a number of at most 62 bits, written in one, two, four or eight
  bytes with any bytes after it, gives the number and the count of bytes.\<close>

theorem readVarint_decodes:
  assumes "k < 4" "n < 64 * 256 ^ (2 ^ k - 1)"
  shows "readVarint (enc_varint k n @ rest) = (of_nat n, 2 ^ k)"
  by (rule readVarint_enc[OF assms])

theorem readVarint_decodes_witness: "readVarint (enc_varint 1 15293 @ [9]) = (15293, 2)"
  using readVarint_decodes[of 1 15293 "[9]"] by simp


subsection \<open>Facts: no panic\<close>

lemma uint_small: "unat (v :: 64 word) < 2 ^ 62 \<Longrightarrow> uint v < 2 ^ 62"
proof -
  assume "unat v < 2 ^ 62"
  then have "int (unat v) < int (2 ^ 62)" by (simp only: of_nat_less_iff)
  then show ?thesis by simp
qed

lemma to_int_small: "unat v < 2 ^ 62 \<Longrightarrow> to_int v = int (unat v)"
proof -
  assume "unat v < 2 ^ 62"
  moreover have "- (2 ^ 63) \<le> uint v" by (rule order_trans[of _ 0]) simp_all
  ultimately show ?thesis
    using uint_small[of v] unfolding to_int_def sint_uint by (subst signed_take_bit_int_eq_self) simp_all
qed

lemma slc_Ok: "0 \<le> i \<Longrightarrow> i \<le> j \<Longrightarrow> j \<le> len64 b \<Longrightarrow> slc b i j = Ok (take (nat (j - i)) (drop (nat i) b))"
  by (simp add: slc_def go_slice_def len64_def)

lemma idx_Ok: "0 \<le> i \<Longrightarrow> i < len64 b \<Longrightarrow> idx b i = Ok (b ! nat i)"
  by (simp add: idx_def len64_def)

definition chunk_ok :: "cryptoChunk \<Rightarrow> bool" where
  "chunk_ok c \<longleftrightarrow> unat (ck_off c) < 2 ^ 62 \<and> length (ck_data c) < 2 ^ 62"

lemma wrap64_small: "0 \<le> x \<Longrightarrow> x < 2 ^ 63 \<Longrightarrow> wrap64 x = x"
  by (simp add: wrap64_def)

lemma cryptoFrames_Ok:
  assumes "0 \<le> i" "len64 frames < 2 ^ 62" "list_all chunk_ok chunks"
  shows "\<exists>cs. cryptoFrames frames i chunks = Ok cs \<and> list_all chunk_ok cs"
  using assms
proof (induction frames i chunks rule: cryptoFrames.induct)
  case (1 frames i chunks)
  show ?case
  proof (cases "i < len64 frames")
    case False
    then show ?thesis using 1 by (simp add: cryptoFrames.simps[of frames i])
  next
    case i: True
    obtain ft where ft: "idx frames i = Ok ft" using idx_Ok[OF 1(3) i] by blast
    consider "ft = 0 \<or> ft = 1" | "ft = 6" | "ft \<noteq> 0" "ft \<noteq> 1" "ft \<noteq> 6" by blast
    then show ?thesis
    proof cases
      case 1
      note ft1 = 1
      show ?thesis
        using "1.IH"(1)[OF _ ft ft1] "1.prems" i ft ft1 by (subst cryptoFrames.simps) auto
    next
      case 2
      let ?b1 = "drop (nat (i + 1)) frames"
      have b1: "slc frames (i + 1) (len64 frames) = Ok ?b1"
        using slc_Ok[of "i + 1" "len64 frames" frames] i "1.prems"(1) by (simp add: len64_def nat_diff_distrib')
      obtain off n where r1: "readVarint ?b1 = (off, n)" by (metis surj_pair)
      note n = readVarint_bounds[OF r1]
      show ?thesis
      proof (cases "n = 0")
        case True
        then show ?thesis using "1.prems" i ft 2 b1 r1 by (subst cryptoFrames.simps) simp
      next
        case n0: False
        let ?i1 = "i + 1 + int n" and ?b2 = "drop (nat (i + 1 + int n)) frames"
        have i1: "?i1 \<le> len64 frames" using n(2) "1.prems"(1) i by (simp add: len64_def)
        have b2: "slc frames ?i1 (len64 frames) = Ok ?b2"
          using slc_Ok[of ?i1 "len64 frames" frames] i1 "1.prems"(1) by (simp add: len64_def nat_diff_distrib')
        obtain ln n2 where r2: "readVarint ?b2 = (ln, n2)" by (metis surj_pair)
        note n2 = readVarint_bounds[OF r2]
        show ?thesis
        proof (cases "n2 = 0")
          case True
          then show ?thesis using "1.prems" i ft 2 b1 r1 n0 b2 r2 by (subst cryptoFrames.simps) (simp add: Let_def)
        next
          case n20: False
          let ?i2 = "?i1 + int n2"
          have i2: "0 \<le> ?i2" "?i2 \<le> len64 frames" using n2(2) "1.prems"(1) i1 by (simp_all add: len64_def)
          have e: "wrap64 (?i2 + to_int ln) = ?i2 + int (unat ln)"
            unfolding to_int_small[OF n2(1)] using i2 uint_small[OF n2(1)] "1.prems"(2) by (intro wrap64_small) simp_all
          show ?thesis
          proof (cases "len64 frames < ?i2 + int (unat ln)")
            case True
            then show ?thesis
              using "1.prems" i ft 2 b1 r1 n0 b2 r2 n20 e by (subst cryptoFrames.simps) (simp add: Let_def)
          next
            case False
            let ?e = "?i2 + int (unat ln)"
            let ?d = "take (nat (?e - ?i2)) (drop (nat ?i2) frames)"
            have d: "slc frames ?i2 ?e = Ok ?d" using slc_Ok[of ?i2 ?e frames] False i2 by simp
            have ok: "chunk_ok \<lparr>ck_off = off, ck_data = ?d\<rparr>"
              using n(1) n2(1) by (simp add: chunk_ok_def min_def)
            have "\<exists>cs. cryptoFrames frames ?e (chunks @ [\<lparr>ck_off = off, ck_data = ?d\<rparr>]) = Ok cs \<and> list_all chunk_ok cs"
              using "1.IH"(2)[OF _ ft _ 2 b1 r1[symmetric] n0 refl b2 r2[symmetric] n20 refl refl] i 2 e d False ok i2(1) "1.prems"
              by auto
            then show ?thesis
              using "1.prems" i ft 2 b1 r1 n0 b2 r2 n20 e d False by (subst cryptoFrames.simps) (simp add: Let_def)
          qed
        qed
      qed
    next
      case 3
      then show ?thesis using "1.prems" i ft by (subst cryptoFrames.simps) simp
    qed
  qed
qed


text \<open>A call that ends without a panic, with a value that satisfies a predicate if it has one.\<close>

definition safe :: "('a \<Rightarrow> bool) \<Rightarrow> 'a outcome \<Rightarrow> bool" where
  "safe P m \<longleftrightarrow> (case m of Ok x \<Rightarrow> P x | Fail _ \<Rightarrow> True | Panic \<Rightarrow> False)"

lemma safe_Ok [simp]: "safe P (Ok x) = P x" "safe P (Fail e)" "\<not> safe P Panic"
  by (simp_all add: safe_def)

lemma safe_bind: "safe P m \<Longrightarrow> (\<And>x. P x \<Longrightarrow> m = Ok x \<Longrightarrow> safe Q (f x)) \<Longrightarrow> safe Q (obind m f)"
  by (cases m) simp_all

lemma safe_guard: "(\<not> c \<Longrightarrow> safe Q (f ())) \<Longrightarrow> safe Q (obind (guard_not c m) f)"
  by (simp add: guard_not_def)

lemma safe_slc: "0 \<le> i \<Longrightarrow> i \<le> j \<Longrightarrow> j \<le> len64 b \<Longrightarrow> safe (\<lambda>x. len64 x = j - i) (slc b i j)"
  by (simp add: slc_Ok len64_def)

lemma safe_idx: "0 \<le> i \<Longrightarrow> i < len64 b \<Longrightarrow> safe (\<lambda>_. True) (idx b i)"
  by (simp add: idx_Ok)

lemma safe_varint:
  assumes "0 \<le> i" "i \<le> len64 b"
  shows "safe (\<lambda>(v, k). unat v < 2 ^ 62 \<and> 0 < k \<and> k \<le> 8 \<and> i + k \<le> len64 b) (varint_at b i m)"
proof -
  obtain x where x: "slc b i (len64 b) = Ok x" "len64 x = len64 b - i"
    using slc_Ok[OF assms order_refl] assms by (auto simp: len64_def)
  obtain v n where r: "readVarint x = (v, n)" by (metis surj_pair)
  show ?thesis
    using readVarint_bounds[OF r] x by (auto simp: varint_at_def r len64_def)
qed

text \<open>What decrypting guarantees: the plaintext is no longer than the ciphertext.\<close>

definition gcm_shrinks :: "quic_crypto \<Rightarrow> bool" where
  "gcm_shrinks C \<longleftrightarrow> (\<forall>k n c h p. qc_Open C k n c h = Inr p \<longrightarrow> length p \<le> length c)"

lemma low_bits: "unat (h AND 0x03 :: byte) \<le> 3"
proof -
  have "h AND 3 = take_bit 2 h" by (simp add: take_bit_eq_mask mask_eq_exp_minus_1)
  then have "unat (h AND 3) = take_bit 2 (unat h)" by (simp only: unsigned_take_bit_eq)
  moreover have "take_bit 2 (unat h) < 2 ^ 2" by (rule take_bit_nat_less_exp)
  ultimately show ?thesis by simp
qed

lemma low_bits_uint: "uint (h AND 3 :: byte) \<le> 3"
proof -
  have "int (unat (h AND 3)) \<le> int 3" using low_bits[of h] by (simp only: of_nat_le_iff)
  then show ?thesis by simp
qed

lemma open_masked_safe:
  assumes "gcm_shrinks C" "len64 data < 2 ^ 62" "0 < i" "i + 20 \<le> len64 data" "unat pl < 2 ^ 62"
  shows "safe (list_all chunk_ok) (open_masked C data i pl key iv msk)"
proof -
  have w: "wrap64 (i + to_int pl) = i + int (unat pl)"
    unfolding to_int_small[OF assms(5)] using assms uint_small[OF assms(5)] by (intro wrap64_small) simp_all
  have plain: "safe (list_all chunk_ok)
      (case qc_Open C key n c h of Inl e \<Rightarrow> Fail (Err (''decrypt Initial: '' @ error_text e)) | Inr p \<Rightarrow> cryptoFrames p 0 [])"
    if "len64 c \<le> len64 data" for n c h
  proof (cases "qc_Open C key n c h")
    case (Inr p)
    then have "length p \<le> length c" using assms(1) unfolding gcm_shrinks_def by blast
    then have "len64 p < 2 ^ 62" using that assms(2) by (simp add: len64_def)
    then show ?thesis using cryptoFrames_Ok[of 0 p "[]"] Inr by auto
  qed simp
  have rest: "safe (list_all chunk_ok) (if len64 data < j \<or> j < k then Fail e
        else obind (slc data k j) (\<lambda>c. case qc_Open C key n c h of
            Inl e \<Rightarrow> Fail (Err (''decrypt Initial: '' @ error_text e)) | Inr p \<Rightarrow> cryptoFrames p 0 []))"
    if "0 \<le> k" for j k e n h
    using that plain by (auto intro!: safe_bind[OF safe_slc])
  show ?thesis
    unfolding open_masked_def w Let_def
    by (intro safe_bind[OF safe_slc] safe_bind[OF safe_idx] rest)
      (use assms(3,4) in \<open>auto intro: order_trans[OF add_left_mono[OF add_right_mono[OF low_bits_uint]]]\<close>)
qed

lemma open_packet_safe:
  assumes "gcm_shrinks C" "len64 data < 2 ^ 62" "0 < i" "i + 20 \<le> len64 data" "unat pl < 2 ^ 62"
  shows "safe (list_all chunk_ok) (open_packet C data i pl key iv hp)"
  unfolding open_packet_def
  by (rule safe_bind[OF safe_slc]) (use assms in \<open>auto intro: open_masked_safe split: sum.split\<close>)

lemma derive_safe: "safe (\<lambda>_. True) (deriveClientInitialKeys C dcid)"
proof -
  have "safe (\<lambda>_. True) (hkdfExpandLabel C s l n)" for s l n
    by (simp add: hkdfExpandLabel_def Let_def split: sum.split)
  then show ?thesis unfolding deriveClientInitialKeys_def by (intro safe_bind[where P = "\<lambda>_. True"]) auto
qed

lemma safe_bind2:
  "safe (\<lambda>(a, b). P a b) m \<Longrightarrow> (\<And>a b. P a b \<Longrightarrow> safe Q (g a b)) \<Longrightarrow> safe Q (obind m (\<lambda>(a, b). g a b))"
  by (cases m) auto

lemma safe_derive: "(\<And>k i h. safe Q (g k i h)) \<Longrightarrow> safe Q (obind (deriveClientInitialKeys C dcid) (\<lambda>(k, i, h). g k i h))"
  using derive_safe[of C dcid] by (cases "deriveClientInitialKeys C dcid") auto

lemma after_token:
  assumes "unat v < 2 ^ 62" "0 < k" "k \<le> 8" "0 \<le> p" "p < 2 ^ 61"
  shows "wrap64 (p + wrap64 (k + to_int v)) = p + k + int (unat v)"
proof -
  have t: "to_int v = uint v" using to_int_small[OF assms(1)] by simp
  have u: "0 \<le> uint v" "uint v < 2 ^ 62" using uint_small[OF assms(1)] by simp_all
  have "wrap64 (k + uint v) = k + uint v" using u assms(2,3) by (intro wrap64_small) simp_all
  moreover have "wrap64 (p + (k + uint v)) = p + (k + uint v)" using u assms(2-5) by (intro wrap64_small) simp_all
  ultimately show ?thesis unfolding t by simp
qed

lemma extract_safe:
  assumes "gcm_shrinks C" "len64 data < 2 ^ 61"
  shows "safe (list_all chunk_ok) (extractInitialCrypto C data)"
  unfolding extractInitialCrypto_def Let_def
  apply (intro safe_guard safe_bind[OF safe_slc] safe_bind[OF safe_idx] safe_bind2[OF safe_varint] safe_derive open_packet_safe)
  using assms by (auto simp: after_token intro!: add_nonneg_pos add_nonneg_nonneg)

subsection \<open>Facts: reassembly\<close>

lemma mset_sift: "mset (sift x ys) = add_mset x (mset ys)"
  by (induction ys) auto

lemma sorted_sift: "sorted_wrt (\<lambda>a b. ck_off b \<le> ck_off a) ys \<Longrightarrow> sorted_wrt (\<lambda>a b. ck_off b \<le> ck_off a) (sift x ys)"
proof (induction ys)
  case (Cons y ys)
  have "set (sift x ys) = insert x (set ys)" using mset_sift[of x ys] by (metis set_mset_add_mset_insert set_mset_mset)
  with Cons show ?case by auto
qed simp

lemma sort_chunks:
  "mset (sort_chunks cs) = mset cs" "sorted_wrt (\<lambda>a b. ck_off a \<le> ck_off b) (sort_chunks cs)"
proof -
  have "mset (foldl (\<lambda>acc x. sift x acc) [] cs) = mset cs \<and>
      sorted_wrt (\<lambda>a b. ck_off b \<le> ck_off a) (foldl (\<lambda>acc x. sift x acc) [] cs)"
    by (induction cs rule: rev_induct) (simp_all add: mset_sift sorted_sift)
  then show "mset (sort_chunks cs) = mset cs" "sorted_wrt (\<lambda>a b. ck_off a \<le> ck_off b) (sort_chunks cs)"
    by (simp_all add: sort_chunks_def sorted_wrt_rev)
qed

text \<open>The chunk is a piece of the stream; a position is covered when some chunk holds it.\<close>

definition piece_of :: "bytes \<Rightarrow> cryptoChunk \<Rightarrow> bool" where
  "piece_of S c \<longleftrightarrow> ck_data c = take (length (ck_data c)) (drop (unat (ck_off c)) S) \<and>
     unat (ck_off c) + length (ck_data c) \<le> length S"

definition covers :: "cryptoChunk list \<Rightarrow> nat \<Rightarrow> bool" where
  "covers cs i \<longleftrightarrow> (\<exists>c\<in>set cs. unat (ck_off c) \<le> i \<and> i < unat (ck_off c) + length (ck_data c))"

lemma covers_Cons: "covers (c # cs) i \<longleftrightarrow> (unat (ck_off c) \<le> i \<and> i < unat (ck_off c) + length (ck_data c)) \<or> covers cs i"
  by (auto simp: covers_def)

lemma join_loop_prefix:
  assumes "length S < 2 ^ 62" "list_all (piece_of S) cs" "sorted_wrt (\<lambda>a b. ck_off a \<le> ck_off b) cs" "unat nxt \<le> length S"
  shows "\<exists>n. join_loop cs nxt (take (unat nxt) S) = Ok (take n S) \<and> unat nxt \<le> n \<and> n \<le> length S \<and>
    (\<forall>i. unat nxt \<le> i \<and> i < n \<longrightarrow> covers cs i) \<and> \<not> covers cs n"
  using assms(2-4)
proof (induction cs arbitrary: nxt)
  case Nil
  then show ?case by (intro exI[of _ "unat nxt"]) (simp add: covers_def)
next
  case (Cons c cs)
  let ?o = "unat (ck_off c)" and ?l = "length (ck_data c)"
  have piece: "ck_data c = take ?l (drop ?o S)" "?o + ?l \<le> length S" using Cons.prems(1) by (simp_all add: piece_of_def)
  define e where "e = ck_off c + of_nat ?l"
  have e: "unat e = ?o + ?l"
  proof -
    have "?o + ?l < 2 ^ 64" using piece(2) assms(1) by simp
    moreover have "unat (of_nat ?l :: 64 word) = ?l" using piece(2) assms(1) by (simp add: unat_of_nat take_bit_nat_eq_self_iff)
    ultimately show ?thesis unfolding e_def by (simp add: unat_word_ariths)
  qed
  note step = join_loop.simps(2)[of c cs nxt "take (unat nxt) S", folded e_def, unfolded Let_def]
  consider (gap) "nxt < ck_off c" | (old) "\<not> nxt < ck_off c" "e \<le> nxt" | (new) "\<not> nxt < ck_off c" "\<not> e \<le> nxt" by blast
  then show ?case
  proof cases
    case gap
    then have "\<forall>d\<in>set (c # cs). unat nxt < unat (ck_off d)"
      using Cons.prems(2) by (auto simp: word_less_nat_alt word_le_nat_alt)
    then have "\<not> covers (c # cs) (unat nxt)" by (auto simp: covers_def)
    then show ?thesis using gap Cons.prems(3) by (intro exI[of _ "unat nxt"]) (auto simp: step)
  next
    case old
    then have "covers (c # cs) i = covers cs i" if "unat nxt \<le> i" for i
      using that e by (auto simp: covers_Cons word_le_nat_alt)
    moreover obtain n where "join_loop cs nxt (take (unat nxt) S) = Ok (take n S)" "unat nxt \<le> n" "n \<le> length S"
      "\<forall>i. unat nxt \<le> i \<and> i < n \<longrightarrow> covers cs i" "\<not> covers cs n" using Cons.IH[of nxt] Cons.prems by auto
    ultimately show ?thesis using old by (intro exI[of _ n]) (simp add: step del: join_loop.simps)
  next
    case new
    then have o: "?o \<le> unat nxt" "unat nxt < ?o + ?l" using e by (simp_all add: word_less_nat_alt word_le_nat_alt not_less)
    have k: "unat (nxt - ck_off c) = unat nxt - ?o" using o(1) by (simp add: unat_sub word_le_nat_alt)
    have "take (unat nxt) S @ drop (unat nxt - ?o) (ck_data c) = take (unat e) S"
    proof -
      have "drop (unat nxt - ?o) (ck_data c) = take (?o + ?l - unat nxt) (drop (unat nxt) S)"
        using o by (subst piece(1)) (simp add: drop_take add.commute)
      then show ?thesis using o unfolding e by (simp flip: take_add)
    qed
    moreover have "\<not> ?l < unat nxt - ?o" using o by simp
    ultimately have "join_loop (c # cs) nxt (take (unat nxt) S) = join_loop cs e (take (unat e) S)"
      using new k by (simp add: step del: join_loop.simps)
    moreover obtain n where n: "join_loop cs e (take (unat e) S) = Ok (take n S)" "unat e \<le> n" "n \<le> length S"
      "\<forall>i. unat e \<le> i \<and> i < n \<longrightarrow> covers cs i" "\<not> covers cs n" using Cons.IH[of e] Cons.prems(1,2) e piece(2) by auto
    moreover have "covers (c # cs) i" if "unat nxt \<le> i" "i < n" for i
      using that n(4) o(1) e by (cases "i < unat e") (auto simp: covers_Cons)
    moreover have "\<not> covers (c # cs) n" using n(2,5) e by (auto simp: covers_Cons)
    ultimately show ?thesis using o e by (intro exI[of _ n]) auto
  qed
qed

text \<open>Whatever order the frames arrive in and however they overlap, their reassembly is the longest prefix
  of the stream they cover without a gap: if every chunk is a piece of one stream, the result is its
  first \<open>n\<close> bytes, where every position below \<open>n\<close> is held by some chunk and \<open>n\<close> itself by none.\<close>

theorem reassembly_is_the_covered_prefix:
  assumes "length S < 2 ^ 62" "list_all (piece_of S) cs"
  shows "\<exists>n. joinCryptoChunks cs = Ok (take n S) \<and> n \<le> length S \<and> (\<forall>i<n. covers cs i) \<and> \<not> covers cs n"
proof -
  have m: "set (sort_chunks cs) = set cs" using sort_chunks(1)[of cs] by (metis set_mset_mset)
  then have "list_all (piece_of S) (sort_chunks cs)" using assms(2) by (simp add: list_all_iff)
  from join_loop_prefix[OF assms(1) this sort_chunks(2), of 0] obtain n where n:
    "join_loop (sort_chunks cs) 0 [] = Ok (take n S)" "n \<le> length S" "\<forall>i<n. covers (sort_chunks cs) i" "\<not> covers (sort_chunks cs) n"
    by auto
  moreover have "covers (sort_chunks cs) = covers cs" by (simp add: covers_def m fun_eq_iff)
  moreover have "joinCryptoChunks cs = join_loop (sort_chunks cs) 0 []"
    by (simp add: joinCryptoChunks_def sort_chunks_def)
  ultimately show ?thesis by auto
qed


subsection \<open>Facts: the name from several datagrams\<close>

text \<open>A name found in a prefix of a message is the name of the message.\<close>

lemma skip_simps:
  "skip8 [] = None" "skip8 (x # t) = (if length t < unat x then None else Some (drop (unat x) t))"
  "skip16 [] = None" "skip16 [x] = None"
  "skip16 (x # y # t) = (if length t < be16 x y then None else Some (drop (be16 x y) t))"
  by (simp_all add: skip8_def skip16_def Let_def)

lemma skip_append:
  "skip8 b = Some x \<Longrightarrow> skip8 (b @ r) = Some (x @ r)" "skip16 b = Some y \<Longrightarrow> skip16 (b @ r) = Some (y @ r)"
proof -
  show "skip8 b = Some x \<Longrightarrow> skip8 (b @ r) = Some (x @ r)" by (cases b) (auto simp: skip_simps split: if_splits)
  show "skip16 b = Some y \<Longrightarrow> skip16 (b @ r) = Some (y @ r)"
  proof (cases b)
    case (Cons a c)
    then show "skip16 b = Some y \<Longrightarrow> skip16 (b @ r) = Some (y @ r)" by (cases c) (auto simp: skip_simps split: if_splits)
  qed (simp add: skip_simps)
qed

lemma extensions_append: "extensions b \<noteq> [] \<Longrightarrow> extensions (b @ r) = extensions b"
  by (auto simp: extensions_def Let_def nth_append split: if_splits)

lemma parseSNI_append:
  assumes "parseSNI p \<noteq> []"
  shows "parseSNI (p @ r) = parseSNI p"
proof -
  obtain b1 b2 b3 where b: "\<not> (length p < 4 \<or> p ! 0 \<noteq> 1)" "\<not> length (drop 4 p) < 34"
    "skip8 (drop 34 (drop 4 p)) = Some b1" "skip16 b1 = Some b2" "skip8 b2 = Some b3" "parseSNI p = extensions b3"
    using assms by (auto simp: parseSNI_def split: if_splits option.splits)
  have "drop 34 (drop 4 (p @ r)) = drop 34 (drop 4 p) @ r" "(p @ r) ! 0 = p ! 0"
    "\<not> (length (p @ r) < 4)" "\<not> length (drop 4 (p @ r)) < 34" using b(1,2) by (auto simp: nth_append)
  moreover have "extensions (b3 @ r) = extensions b3" using assms b(6) by (intro extensions_append) simp
  ultimately show ?thesis
    using b(1,2,6) skip_append(1)[OF b(3), of r] skip_append(2)[OF b(4), of r] skip_append(1)[OF b(5), of r]
    by (simp add: parseSNI_def)
qed

lemma parseSNI_take: "parseSNI (take n S) = [] \<or> parseSNI (take n S) = parseSNI S"
  using parseSNI_append[of "take n S" "drop n S"] by (metis append_take_drop_id)

text \<open>The datagrams of a flow, until the extractor is done.\<close>

fun feed_all :: "quic_crypto \<Rightarrow> bytes list \<Rightarrow> SNIExtractor \<Rightarrow> bytes option" where
  "feed_all C [] e = Some []"
| "feed_all C (d # ds) e =
     (case Feed C d e of
        None \<Rightarrow> None
      | Some ((sni, fin), e') \<Rightarrow> if fin then Some sni else feed_all C ds e')"

definition chunks_of :: "quic_crypto \<Rightarrow> bytes \<Rightarrow> cryptoChunk list" where
  "chunks_of C d = (case extractInitialCrypto C d of Ok cs \<Rightarrow> cs | _ \<Rightarrow> [])"

lemma Feed_step:
  assumes "gcm_shrinks C" "len64 d < 2 ^ 61" "length S < 2 ^ 62" "list_all (piece_of S) (sx_chunks e @ chunks_of C d)"
    and "parseSNI (take n0 S) = []" "joinCryptoChunks (sx_chunks e) = Ok (take n0 S)"
  shows "\<exists>n sni fin e'. Feed C d e = Some ((sni, fin), e') \<and> sx_chunks e' = sx_chunks e @ chunks_of C d \<and>
    sx_packets e' = sx_packets e + 1 \<and> joinCryptoChunks (sx_chunks e') = Ok (take n S) \<and> sni = parseSNI (take n S) \<and>
    (fin \<longleftrightarrow> sni \<noteq> [] \<or> 8 \<le> sx_packets e') \<and> (\<forall>i<n. covers (sx_chunks e') i) \<and> \<not> covers (sx_chunks e') n \<and> n \<le> length S"
proof -
  obtain n where n: "joinCryptoChunks (sx_chunks e @ chunks_of C d) = Ok (take n S)" "n \<le> length S"
      "\<forall>i<n. covers (sx_chunks e @ chunks_of C d) i" "\<not> covers (sx_chunks e @ chunks_of C d) n"
    using reassembly_is_the_covered_prefix[OF assms(3,4)] by blast
  show ?thesis
  proof (cases "extractInitialCrypto C d")
    case (Fail x)
    then have "chunks_of C d = []" by (simp add: chunks_of_def)
    with n have "take n S = take n0 S" using assms(6) by simp
    then show ?thesis using Fail n \<open>chunks_of C d = []\<close> assms(5)
      by (intro exI[of _ n] exI[of _ "[]"] exI[of _ "8 \<le> sx_packets e + 1"] exI[of _ "e\<lparr>sx_packets := sx_packets e + 1\<rparr>"])
        (simp add: Feed_def Let_def)
  next
    case Panic
    then show ?thesis using extract_safe[OF assms(1,2)] by simp
  next
    case (Ok cs)
    then have "chunks_of C d = cs" by (simp add: chunks_of_def)
    then have "Feed C d e = Some (if parseSNI (take n S) \<noteq> []
          then ((parseSNI (take n S), True), e\<lparr>sx_packets := sx_packets e + 1, sx_chunks := sx_chunks e @ cs\<rparr>)
          else (([], 8 \<le> sx_packets e + 1), e\<lparr>sx_packets := sx_packets e + 1, sx_chunks := sx_chunks e @ cs\<rparr>))"
      using Ok n(1) by (simp add: Feed_def Let_def)
    then show ?thesis using n \<open>chunks_of C d = cs\<close>
      by (intro exI[of _ n] exI[of _ "parseSNI (take n S)"]
          exI[of _ "parseSNI (take n S) \<noteq> [] \<or> 8 \<le> sx_packets e + 1"]
          exI[of _ "e\<lparr>sx_packets := sx_packets e + 1, sx_chunks := sx_chunks e @ cs\<rparr>"]) auto
  qed
qed

lemma feed_all_name:
  assumes "gcm_shrinks C" "length S < 2 ^ 62" "\<forall>d\<in>set ds. len64 d < 2 ^ 61 \<and> list_all (piece_of S) (chunks_of C d)"
    and "list_all (piece_of S) (sx_chunks e)" "sx_packets e + int (length ds) \<le> 8"
    and "joinCryptoChunks (sx_chunks e) = Ok (take n0 S)" "parseSNI (take n0 S) = []"
  shows "\<exists>name. feed_all C ds e = Some name \<and> name \<in> {[], parseSNI S} \<and>
    (ds \<noteq> [] \<and> (\<forall>i<length S. covers (sx_chunks e @ concat (map (chunks_of C) ds)) i) \<longrightarrow> name = parseSNI S)"
  using assms(3-7)
proof (induction ds arbitrary: e n0)
  case (Cons d ds)
  have pieces: "list_all (piece_of S) (sx_chunks e @ chunks_of C d)" "len64 d < 2 ^ 61" using Cons.prems(1,2) by auto
  obtain n sni fin e' where f: "Feed C d e = Some ((sni, fin), e')" "sx_chunks e' = sx_chunks e @ chunks_of C d"
    "sx_packets e' = sx_packets e + 1" "joinCryptoChunks (sx_chunks e') = Ok (take n S)" "sni = parseSNI (take n S)"
    "fin \<longleftrightarrow> sni \<noteq> [] \<or> 8 \<le> sx_packets e'" "\<forall>i<n. covers (sx_chunks e') i" "\<not> covers (sx_chunks e') n" "n \<le> length S"
    using Feed_step[OF assms(1) pieces(2) assms(2) pieces(1) Cons.prems(5,4)] by blast
  show ?case
  proof (cases "ds = []")
    case True
    have "sni = parseSNI S" if "\<forall>i<length S. covers (sx_chunks e') i"
    proof -
      have "n = length S" using that f(8,9) by (cases "n < length S") auto
      then show ?thesis using f(5) by simp
    qed
    then show ?thesis using f parseSNI_take[of n S] True by (cases fin) auto
  next
    case False
    show ?thesis
    proof (cases "sni = []")
      case True
      then have "\<not> fin" using f(3,6) Cons.prems(3) False by (cases ds) auto
      moreover obtain name where "feed_all C ds e' = Some name" "name \<in> {[], parseSNI S}"
        "(\<forall>i<length S. covers (sx_chunks e' @ concat (map (chunks_of C) ds)) i) \<longrightarrow> name = parseSNI S"
        using Cons.IH[of e' n] Cons.prems(1,3) pieces(1) f True False by auto
      ultimately show ?thesis using f by auto
    next
      case False
      then show ?thesis using f parseSNI_take[of n S] by auto
    qed
  qed
qed simp

text \<open>C26: The relay never routes to a name the client did not ask for, and finds the name however the ClientHello is
  spread: if the frames of up to eight datagrams are pieces of one message, the name found is that
  of the message or none, and it is that of the message as soon as they hold all of it, in any
  order. No datagram makes the parsing panic.\<close>

theorem sni_from_datagrams:
  assumes "gcm_shrinks C" "length S < 2 ^ 62" "\<forall>d\<in>set ds. len64 d < 2 ^ 61 \<and> list_all (piece_of S) (chunks_of C d)"
    and "ds \<noteq> []" "length ds \<le> 8"
  shows "\<exists>name. feed_all C ds empty_extractor = Some name \<and> name \<in> {[], parseSNI S} \<and>
    ((\<forall>i<length S. covers (concat (map (chunks_of C) ds)) i) \<longrightarrow> name = parseSNI S)"
  using feed_all_name[OF assms(1-3), of empty_extractor 0] assms(4,5)
  by (auto simp: empty_extractor_def joinCryptoChunks_def parseSNI_def)

definition ex_crypto :: quic_crypto where
  "ex_crypto = \<lparr>qc_Extract = (\<lambda>a b. []), qc_Expand = (\<lambda>s i n. Inr []), qc_Encrypt = (\<lambda>k b. Inr []), qc_Open = (\<lambda>k n c h. Inr c)\<rparr>"

text \<open>A datagram with one CRYPTO frame, under a cipher that does nothing.\<close>

definition ex_frames :: "nat \<Rightarrow> bytes \<Rightarrow> bytes" where
  "ex_frames off d = 6 # enc_varint 0 off @ enc_varint 0 (length d) @ d"

definition ex_datagram :: "bytes \<Rightarrow> bytes" where
  "ex_datagram f = [0x80, 0, 0, 0, 1, 0, 0] @ enc_varint 0 0 @ enc_varint 1 (length f + 1) @ 7 # f"

lemma slc_rest: "i \<le> length b \<Longrightarrow> slc b (int i) (len64 b) = Ok (drop i b)"
  using slc_Ok[of "int i" "len64 b" b] by (simp add: len64_def)

lemma to_int_of_nat: "n < 1000 \<Longrightarrow> to_int (of_nat n) = int n"
proof -
  assume n: "n < 1000"
  then have "unat (of_nat n :: 64 word) = n" by (simp add: unat_of_nat take_bit_nat_eq_self_iff)
  with n show ?thesis using to_int_small[of "of_nat n"] by simp
qed

lemma enc0: "enc_varint 0 n = [of_nat n]" by (simp add: enc_varint_def)

lemma enc1: "n < 256 \<Longrightarrow> enc_varint 1 n = [0x40, of_nat n]" by (simp add: enc_varint_def)

lemma ex_frames_parsed:
  assumes "off < 64" "length d < 64"
  shows "cryptoFrames (ex_frames off d) 0 [] = Ok [\<lparr>ck_off = of_nat off, ck_data = d\<rparr>]"
proof -
  let ?f = "ex_frames off d"
  have l: "len64 ?f = 3 + int (length d)" by (simp add: ex_frames_def enc0 len64_def)
  have "idx ?f 0 = Ok 6" by (simp add: idx_def ex_frames_def)
  moreover have "slc ?f 1 (len64 ?f) = Ok (enc_varint 0 off @ enc_varint 0 (length d) @ d)"
    using slc_Ok[of 1 "len64 ?f" ?f] l by (simp add: ex_frames_def enc0)
  moreover have "readVarint (enc_varint 0 off @ enc_varint 0 (length d) @ d) = (of_nat off, 1)"
    using readVarint_enc[of 0 off "enc_varint 0 (length d) @ d"] assms by simp
  moreover have "slc ?f 2 (len64 ?f) = Ok (enc_varint 0 (length d) @ d)"
    using slc_Ok[of 2 "len64 ?f" ?f] l by (simp add: ex_frames_def enc0)
  moreover have "readVarint (enc_varint 0 (length d) @ d) = (of_nat (length d), 1)"
    using readVarint_enc[of 0 "length d" d] assms by simp
  moreover have "to_int (of_nat (length d)) = int (length d)"
    by (rule to_int_of_nat) (use assms in simp)
  moreover have "wrap64 (3 + int (length d)) = 3 + int (length d)" using assms by (intro wrap64_small) simp_all
  moreover have "slc ?f 3 (3 + int (length d)) = Ok d"
    using slc_Ok[of 3 "3 + int (length d)" ?f] l by (simp add: ex_frames_def enc0)
  moreover have "cryptoFrames ?f (3 + int (length d)) cs = Ok cs" for cs
    using l by (subst cryptoFrames.simps) simp
  ultimately show ?thesis using l by (subst cryptoFrames.simps) (simp add: Let_def)
qed

lemma ex_datagram_parsed:
  assumes "off < 64" "16 \<le> length d" "length d < 60"
  shows "extractInitialCrypto ex_crypto (ex_datagram (ex_frames off d)) = Ok [\<lparr>ck_off = of_nat off, ck_data = d\<rparr>]"
proof -
  let ?f = "ex_frames off d" and ?d = "ex_datagram (ex_frames off d)"
  have lf: "length ?f = length d + 3" by (simp add: ex_frames_def enc0)
  have e1: "enc_varint 1 (length ?f + 1) = [0x40, of_nat (length ?f + 1)]"
    by (rule enc1) (use assms lf in simp)
  have d: "?d = [0x80, 0, 0, 0, 1, 0, 0, 0, 0x40, of_nat (length ?f + 1), 7] @ ?f"
    unfolding ex_datagram_def e1 enc0 by simp
  have l: "len64 ?d = 11 + int (length ?f)" by (simp add: d len64_def)
  have s7: "slc ?d 7 (len64 ?d) = Ok (enc_varint 0 0 @ enc_varint 1 (length ?f + 1) @ 7 # ?f)"
    and s8: "slc ?d 8 (len64 ?d) = Ok (enc_varint 1 (length ?f + 1) @ 7 # ?f)"
    using slc_rest[of 7 ?d] slc_rest[of 8 ?d] unfolding d e1 enc0 by simp_all
  have v1: "varint_at ?d 7 m = Ok (0, 1)" for m
    unfolding varint_at_def s7 using readVarint_enc[of 0 0 "enc_varint 1 (length ?f + 1) @ 7 # ?f"] by simp
  have v2: "varint_at ?d 8 m = Ok (of_nat (length ?f + 1), 2)" for m
    unfolding varint_at_def s8 using readVarint_enc[of 1 "length ?f + 1" "7 # ?f"] assms lf by simp
  have keys: "deriveClientInitialKeys ex_crypto dc = Ok (into_buffer 16 [], into_buffer 12 [], into_buffer 16 [])" for dc
    by (simp add: deriveClientInitialKeys_def hkdfExpandLabel_def ex_crypto_def Let_def)
  have pl: "to_int (of_nat (length ?f + 1)) = int (length ?f + 1)"
    by (rule to_int_of_nat) (use assms lf in simp)
  have "open_packet ex_crypto ?d 10 (of_nat (length ?f + 1)) k i h = cryptoFrames ?f 0 []" for k i h
  proof -
    have "wrap64 (11 + int (length ?f)) = 11 + int (length ?f)" using assms lf by (intro wrap64_small) simp_all
    moreover have "slc ?d 14 30 = Ok (take 16 (drop 14 ?d))" using slc_Ok[of 14 30 ?d] l lf assms by simp
    moreover have "slc ?d 0 10 = Ok (take 10 ?d)" using slc_Ok[of 0 10 ?d] l by simp
    moreover have "slc ?d 10 11 = Ok (take 1 (drop 10 ?d))" using slc_Ok[of 10 11 ?d] l by simp
    moreover have "slc ?d 11 (11 + int (length ?f)) = Ok ?f" using slc_Ok[of 11 "11 + int (length ?f)" ?d] l by (simp add: d)
    moreover have "idx (take 10 ?d) 0 = Ok 0x80" by (simp add: idx_def d)
    moreover have "into_buffer 16 [] ! 0 = 0" by (simp add: into_buffer_def)
    moreover have "(0x80 :: byte) AND 3 = 0" by simp
    ultimately show ?thesis
      using l pl by (simp add: open_packet_def open_masked_def ex_crypto_def Let_def algebra_simps)
  qed
  moreover have "slc ?d 1 5 = Ok [0, 0, 0, 1]" "idx ?d 5 = Ok 0" "slc ?d 6 6 = Ok []" "idx ?d 6 = Ok 0"
    using slc_Ok[of 1 5 ?d] slc_Ok[of 6 6 ?d] l by (simp_all add: idx_def d)
  moreover have "be32 [0, 0, 0, 1] = 1" by (simp add: be32_def)
  moreover have "wrap64 (7 + wrap64 (1 + to_int 0)) = 8" by (simp add: wrap64_def to_int_def)
  moreover have "?d ! 0 = 0x80" by (simp add: d)
  ultimately show ?thesis
    using l lf assms v1 v2 keys ex_frames_parsed[of off d]
    by (simp add: extractInitialCrypto_def guard_not_def Let_def)
qed

text \<open>The two halves of a ClientHello, the second first.\<close>

definition ex_datagrams :: "bytes list" where
  "ex_datagrams = [ex_datagram (ex_frames 33 (drop 33 ex_hello)), ex_datagram (ex_frames 0 (take 33 ex_hello))]"

theorem sni_from_datagrams_witness:
  "feed_all ex_crypto ex_datagrams empty_extractor = Some [97, 46, 98]"
proof -
  note l = ex_hello_length
  have c: "chunks_of ex_crypto (ex_datagram (ex_frames 33 (drop 33 ex_hello))) = [\<lparr>ck_off = 33, ck_data = drop 33 ex_hello\<rparr>]"
    "chunks_of ex_crypto (ex_datagram (ex_frames 0 (take 33 ex_hello))) = [\<lparr>ck_off = 0, ck_data = take 33 ex_hello\<rparr>]"
    using ex_datagram_parsed[of 33 "drop 33 ex_hello"] ex_datagram_parsed[of 0 "take 33 ex_hello"] l
    by (simp_all add: chunks_of_def)
  have len: "len64 (ex_datagram (ex_frames o1 x)) < 2 ^ 61" if "length x < 60" for o1 x
    using that by (simp add: len64_def ex_datagram_def ex_frames_def enc0 enc_varint_def nat_bytes)
  have "\<exists>name. feed_all ex_crypto ex_datagrams empty_extractor = Some name \<and> name \<in> {[], parseSNI ex_hello} \<and>
    ((\<forall>i<length ex_hello. covers (concat (map (chunks_of ex_crypto) ex_datagrams)) i) \<longrightarrow> name = parseSNI ex_hello)"
    by (rule sni_from_datagrams)
      (use l len in \<open>auto simp: gcm_shrinks_def ex_crypto_def ex_datagrams_def c[unfolded ex_crypto_def] piece_of_def\<close>)
  moreover have "\<forall>i<length ex_hello. covers (concat (map (chunks_of ex_crypto) ex_datagrams)) i"
    using l by (auto simp: covers_def ex_datagrams_def c)
  ultimately show ?thesis by (simp add: ex_hello_name)
qed

end
