(* ===== verification/QuicRelay.thy ===== *)
theory QuicRelay
  imports Quic
begin

text \<open>
  The relay of \<^verbatim>\<open>internal/quic/quic.go\<close>: the table of flows of a \<^verbatim>\<open>PassthroughRelay\<close> and what
  changes it: a datagram from a client, the reaper, and the end of the pump that carries the
  answers of an origin. Each is one step under the lock; the datagrams written to an origin are
  logged per connection. Resolving and dialling are the fields of \<open>relay_env\<close>; HTTP/3 termination
  is a library.
\<close>

record udpFlow =
  fl_upstream :: "nat option"
  fl_last :: time
  fl_sniffer :: "SNIExtractor option"
  fl_pending :: "bytes list"

record PassthroughRelay =
  pr_flows :: "(string, udpFlow) gomap"
  pr_sent :: "(nat \<times> bytes) list"
  pr_next :: nat

record relay_env =
  rl_crypto :: quic_crypto
  rl_LookupIP :: "string \<Rightarrow> error + string list"
  rl_Dial :: "string \<Rightarrow> int \<Rightarrow> error option"
  rl_port :: string

definition flowIdleTimeout :: duration where "flowIdleTimeout = 2 * minute_ns"

definition new_relay :: PassthroughRelay where
  "new_relay = \<lparr>pr_flows = [], pr_sent = [], pr_next = 0\<rparr>"

fun port_loop :: "string \<Rightarrow> int \<Rightarrow> int option" where
  "port_loop [] n = Some n"
| "port_loop (c # s) n =
     (if of_char c < (48 :: nat) \<or> (57 :: nat) < of_char c then None
      else port_loop s (wrap64 (n * 10 + (int (of_char c) - 48))))"

definition atoiPort :: "string \<Rightarrow> int" where
  "atoiPort s = (case port_loop s 0 of None \<Rightarrow> 443 | Some n \<Rightarrow> if n = 0 then 443 else n)"

text \<open>\<^verbatim>\<open>up.Write\<close> of datagrams, in order.\<close>

definition write_all :: "nat \<Rightarrow> bytes list \<Rightarrow> PassthroughRelay \<Rightarrow> PassthroughRelay" where
  "write_all u ds p = p\<lparr>pr_sent := pr_sent p @ map (Pair u) ds\<rparr>"

definition routeFlow :: "relay_env \<Rightarrow> time \<Rightarrow> string \<Rightarrow> bytes \<Rightarrow> bytes list \<Rightarrow> PassthroughRelay \<Rightarrow> PassthroughRelay" where
  "routeFlow E now key sni pending p =
     (case rl_LookupIP E (byte_string sni) of
        Inl _ \<Rightarrow> p
      | Inr [] \<Rightarrow> p
      | Inr (ip # _) \<Rightarrow>
          (case rl_Dial E ip (atoiPort (rl_port E)) of
             Some _ \<Rightarrow> p
           | None \<Rightarrow>
               (let u = pr_next p in
                write_all u pending
                  (p\<lparr>pr_next := Suc u,
                     pr_flows := put key \<lparr>fl_upstream = Some u, fl_last = now, fl_sniffer = None, fl_pending = []\<rparr> (pr_flows p)\<rparr>))))"

text \<open>\<^verbatim>\<open>None\<close> is a panic.\<close>

definition continueSniff ::
  "relay_env \<Rightarrow> time \<Rightarrow> string \<Rightarrow> udpFlow \<Rightarrow> bytes \<Rightarrow> PassthroughRelay \<Rightarrow> PassthroughRelay option" where
  "continueSniff E now key flow data p =
     (let flow1 = flow\<lparr>fl_pending := fl_pending flow @ [data]\<rparr> in
      case fl_sniffer flow of
        None \<Rightarrow> None
      | Some x \<Rightarrow>
          (case Feed (rl_crypto E) data x of
             None \<Rightarrow> None
           | Some ((sni, fin), x') \<Rightarrow>
               if sni = [] then
                 (if fin then Some (p\<lparr>pr_flows := del key (pr_flows p)\<rparr>)
                  else Some (p\<lparr>pr_flows := put key (flow1\<lparr>fl_sniffer := Some x'\<rparr>) (pr_flows p)\<rparr>))
               else Some (routeFlow E now key sni (fl_pending flow1) (p\<lparr>pr_flows := del key (pr_flows p)\<rparr>))))"

definition relay_handle :: "relay_env \<Rightarrow> time \<Rightarrow> string \<Rightarrow> bytes \<Rightarrow> PassthroughRelay \<Rightarrow> PassthroughRelay option" where
  "relay_handle E now key data p =
     (case lookup (pr_flows p) key of
        Some flow0 \<Rightarrow>
          (let flow = flow0\<lparr>fl_last := now\<rparr>; p1 = p\<lparr>pr_flows := put key flow (pr_flows p)\<rparr> in
           case fl_upstream flow of
             Some u \<Rightarrow> Some (write_all u [data] p1)
           | None \<Rightarrow> continueSniff E now key flow data p1)
      | None \<Rightarrow>
          (case Feed (rl_crypto E) data empty_extractor of
             None \<Rightarrow> None
           | Some ((sni, fin), x) \<Rightarrow>
               if sni = [] then
                 (if fin then Some p
                  else Some (p\<lparr>pr_flows := put key
                    \<lparr>fl_upstream = None, fl_last = now, fl_sniffer = Some x, fl_pending = [data]\<rparr> (pr_flows p)\<rparr>))
               else Some (routeFlow E now key sni [data] p)))"

definition relay_reap :: "time \<Rightarrow> PassthroughRelay \<Rightarrow> PassthroughRelay" where
  "relay_reap now p = p\<lparr>pr_flows := del_if (\<lambda>_ f. flowIdleTimeout < now - fl_last f) (pr_flows p)\<rparr>"

text \<open>An answer of an origin, and the end of its pump.\<close>

definition pump_answer :: "time \<Rightarrow> string \<Rightarrow> PassthroughRelay \<Rightarrow> PassthroughRelay" where
  "pump_answer now key p =
     (case lookup (pr_flows p) key of
        None \<Rightarrow> p
      | Some f \<Rightarrow> p\<lparr>pr_flows := put key (f\<lparr>fl_last := now\<rparr>) (pr_flows p)\<rparr>)"

definition pump_exit :: "string \<Rightarrow> PassthroughRelay \<Rightarrow> PassthroughRelay" where
  "pump_exit key p = p\<lparr>pr_flows := del key (pr_flows p)\<rparr>"

subsection \<open>Facts\<close>

text \<open>Reassembly does not panic, whatever the offsets.\<close>

text \<open>The loop over datagrams: one longer than the buffer is cut. It ends with the error of the socket, after
  \<^verbatim>\<open>Close\<close> or not; \<open>None\<close> is a panic.\<close>

definition relay_buffer :: nat where "relay_buffer = 2048"

fun relay_Serve :: "relay_env \<Rightarrow> (time \<times> string \<times> bytes) list \<Rightarrow> PassthroughRelay \<Rightarrow> PassthroughRelay option" where
  "relay_Serve E [] p = Some p"
| "relay_Serve E ((now, client, d) # ds) p =
     (case relay_handle E now client (take relay_buffer d) p of None \<Rightarrow> None | Some p' \<Rightarrow> relay_Serve E ds p')"

text \<open>\<^verbatim>\<open>Close\<close> closes the sockets of the flows that have one.\<close>

definition relay_Close :: "PassthroughRelay \<Rightarrow> nat set" where
  "relay_Close p = {u. \<exists>k f. (k, f) \<in> set (pr_flows p) \<and> fl_upstream f = Some u}"

lemma join_loop_safe: "list_all chunk_ok cs \<Longrightarrow> \<exists>b. join_loop cs nxt out = Ok b"
proof (induction cs arbitrary: nxt out)
  case (Cons c cs)
  let ?o = "unat (ck_off c)" and ?l = "length (ck_data c)"
  have ck: "chunk_ok c" and cs: "list_all chunk_ok cs" using Cons.prems by auto
  have ok: "?o < 2 ^ 62" "?l < 2 ^ 62" using ck by (simp_all add: chunk_ok_def)
  have "unat (of_nat ?l :: 64 word) = ?l" using ok by (simp add: unat_of_nat take_bit_nat_eq_self_iff)
  then have e: "unat (ck_off c + of_nat ?l) = ?o + ?l" using ok by (simp add: unat_word_ariths)
  have "\<not> ?l < unat (nxt - ck_off c)" if "\<not> nxt < ck_off c" "\<not> ck_off c + of_nat ?l \<le> nxt"
    using that e by (simp add: unat_sub word_le_nat_alt word_less_nat_alt not_less)
  then show ?case using Cons.IH[OF cs] by (auto simp: Let_def)
qed simp

lemma join_safe: "list_all chunk_ok cs \<Longrightarrow> \<exists>b. joinCryptoChunks cs = Ok b"
proof -
  assume "list_all chunk_ok cs"
  moreover have "set (sort_chunks cs) = set cs" using sort_chunks(1)[of cs] by (metis set_mset_mset)
  ultimately show ?thesis using join_loop_safe[of "sort_chunks cs"] by (simp add: joinCryptoChunks_def list_all_iff)
qed

lemma Feed_safe:
  assumes "gcm_shrinks C" "len64 d < 2 ^ 61" "list_all chunk_ok (sx_chunks e)"
  shows "\<exists>sni fin e'. Feed C d e = Some ((sni, fin), e') \<and> list_all chunk_ok (sx_chunks e') \<and> sx_packets e' = sx_packets e + 1 \<and>
    (sni = [] \<longrightarrow> (fin \<longleftrightarrow> 8 \<le> sx_packets e'))"
proof (cases "extractInitialCrypto C d")
  case (Ok cs)
  then have "list_all chunk_ok (sx_chunks e @ cs)" using extract_safe[OF assms(1,2)] assms(3) by simp
  with Ok join_safe[OF this] show ?thesis by (auto simp: Feed_def Let_def)
next
  case Panic
  then show ?thesis using extract_safe[OF assms(1,2)] by simp
qed (use assms(3) in \<open>auto simp: Feed_def Let_def\<close>)

text \<open>A flow is sniffing, with one to seven datagrams buffered, or routed with none.\<close>

definition flow_ok :: "nat \<Rightarrow> udpFlow \<Rightarrow> bool" where
  "flow_ok n f \<longleftrightarrow>
     (case fl_sniffer f of
        None \<Rightarrow> (\<exists>u<n. fl_upstream f = Some u) \<and> fl_pending f = []
      | Some x \<Rightarrow> fl_upstream f = None \<and> list_all chunk_ok (sx_chunks x) \<and>
          sx_packets x = int (length (fl_pending f)) \<and> fl_pending f \<noteq> [] \<and> length (fl_pending f) < 8)"

definition sent_to :: "nat \<Rightarrow> PassthroughRelay \<Rightarrow> bytes list" where
  "sent_to u p = map snd (filter (\<lambda>(v, _). v = u) (pr_sent p))"

text \<open>The history gives, for each client, the datagrams since its flow began.\<close>

definition relay_inv :: "PassthroughRelay \<Rightarrow> (string \<Rightarrow> bytes list) \<Rightarrow> bool" where
  "relay_inv p h \<longleftrightarrow> wf_map (pr_flows p) \<and>
     (\<forall>k f. lookup (pr_flows p) k = Some f \<longrightarrow> flow_ok (pr_next p) f \<and>
        (fl_upstream f = None \<longrightarrow> fl_pending f = h k) \<and>
        (\<forall>u. fl_upstream f = Some u \<longrightarrow> sent_to u p = h k \<and>
           (\<forall>k' f'. lookup (pr_flows p) k' = Some f' \<and> fl_upstream f' = Some u \<longrightarrow> k' = k))) \<and>
     (\<forall>(u, d)\<in>set (pr_sent p). u < pr_next p)"

definition seen :: "string \<Rightarrow> bytes \<Rightarrow> PassthroughRelay \<Rightarrow> (string \<Rightarrow> bytes list) \<Rightarrow> string \<Rightarrow> bytes list" where
  "seen key data p h = h(key := (if lookup (pr_flows p) key = None then [data] else h key @ [data]))"

lemma relay_invD:
  assumes "relay_inv p h" "lookup (pr_flows p) k = Some f"
  shows "flow_ok (pr_next p) f" "fl_upstream f = None \<Longrightarrow> fl_pending f = h k" "fl_upstream f = Some u \<Longrightarrow> sent_to u p = h k"
    "fl_upstream f = Some u \<Longrightarrow> u < pr_next p"
    "lookup (pr_flows p) k' = Some f' \<Longrightarrow> fl_upstream f = Some u \<Longrightarrow> fl_upstream f' = Some u \<Longrightarrow> k' = k"
proof -
  show ok: "flow_ok (pr_next p) f" using assms by (simp add: relay_inv_def)
  then show "fl_upstream f = Some u \<Longrightarrow> u < pr_next p" by (auto simp: flow_ok_def split: option.splits)
  show "fl_upstream f = None \<Longrightarrow> fl_pending f = h k" "fl_upstream f = Some u \<Longrightarrow> sent_to u p = h k"
    "lookup (pr_flows p) k' = Some f' \<Longrightarrow> fl_upstream f = Some u \<Longrightarrow> fl_upstream f' = Some u \<Longrightarrow> k' = k"
    using assms unfolding relay_inv_def by blast+
qed

lemma relay_invI:
  assumes "wf_map (pr_flows p)" "\<And>u d. (u, d) \<in> set (pr_sent p) \<Longrightarrow> u < pr_next p"
    "\<And>k f. lookup (pr_flows p) k = Some f \<Longrightarrow> flow_ok (pr_next p) f"
    "\<And>k f. lookup (pr_flows p) k = Some f \<Longrightarrow> fl_upstream f = None \<Longrightarrow> fl_pending f = h k"
    "\<And>k f u. lookup (pr_flows p) k = Some f \<Longrightarrow> fl_upstream f = Some u \<Longrightarrow> sent_to u p = h k"
    "\<And>k f u k' f'. lookup (pr_flows p) k = Some f \<Longrightarrow> fl_upstream f = Some u \<Longrightarrow>
       lookup (pr_flows p) k' = Some f' \<Longrightarrow> fl_upstream f' = Some u \<Longrightarrow> k' = k"
  shows "relay_inv p h"
  using assms unfolding relay_inv_def by blast

lemma relay_inv_simps: "relay_inv p h \<Longrightarrow> wf_map (pr_flows p)" "relay_inv p h \<Longrightarrow> (u, d) \<in> set (pr_sent p) \<Longrightarrow> u < pr_next p"
  unfolding relay_inv_def by blast+

lemma relay_inv_new: "relay_inv new_relay h"
  by (simp add: relay_inv_def new_relay_def)

lemma sent_to_simps:
  "sent_to u (write_all v ds p) = sent_to u p @ (if u = v then ds else [])"
  "sent_to u (p\<lparr>pr_flows := fl\<rparr>) = sent_to u p" "sent_to u (p\<lparr>pr_next := n\<rparr>) = sent_to u p"
  "pr_flows (write_all v ds p) = pr_flows p" "pr_next (write_all v ds p) = pr_next p"
  "pr_sent (write_all v ds p) = pr_sent p @ map (Pair v) ds"
  by (auto simp: sent_to_def write_all_def filter_map o_def)

lemma sent_to_new: "relay_inv p h \<Longrightarrow> sent_to (pr_next p) p = []"
  by (auto simp: relay_inv_def sent_to_def filter_empty_conv)

lemma flow_ok_mono: "flow_ok n f \<Longrightarrow> n \<le> m \<Longrightarrow> flow_ok m f"
  by (auto simp: flow_ok_def split: option.splits intro: less_le_trans)

text \<open>A flow that is dropped leaves the others as they are.\<close>

lemma relay_inv_del: "relay_inv p h \<Longrightarrow> relay_inv (p\<lparr>pr_flows := del key (pr_flows p)\<rparr>) (h(key := x))"
  by (rule relay_invI) (auto simp: sent_to_simps dest: relay_invD relay_inv_simps split: if_splits)

lemma relay_inv_sniffing:
  assumes "relay_inv p h" "flow_ok (pr_next p) f" "fl_upstream f = None"
  shows "relay_inv (p\<lparr>pr_flows := put key f (pr_flows p)\<rparr>) (h(key := fl_pending f))"
  using assms
  by (intro relay_invI) (auto simp: sent_to_simps dest: relay_invD relay_inv_simps split: if_splits)

lemma relay_inv_route:
  assumes inv: "relay_inv p h" and free: "lookup (pr_flows p) key = None"
  shows "relay_inv (routeFlow E now key sni ds p) (h(key := ds))"
proof -
  let ?f = "\<lparr>fl_upstream = Some (pr_next p), fl_last = now, fl_sniffer = None, fl_pending = []\<rparr>"
  let ?q = "write_all (pr_next p) ds (p\<lparr>pr_next := Suc (pr_next p), pr_flows := put key ?f (pr_flows p)\<rparr>)"
  have new: "flow_ok (Suc (pr_next p)) ?f" by (simp add: flow_ok_def)
  have "relay_inv ?q (h(key := ds))"
    using new sent_to_new[OF inv] relay_invD(4)[OF inv] relay_inv_simps[OF inv] relay_invD(1,2,3,5)[OF inv] flow_ok_mono[OF _ le_SucI[OF le_refl]]
    by (intro relay_invI) (fastforce simp: sent_to_simps split: if_splits)+
  moreover have "relay_inv p (h(key := ds))"
    using relay_inv_simps[OF inv] relay_invD[OF inv] free by (intro relay_invI) (auto)
  ultimately show ?thesis by (auto simp: routeFlow_def Let_def split: sum.split list.split option.split)
qed

lemma relay_inv_forward:
  assumes inv: "relay_inv p h" and f: "lookup (pr_flows p) key = Some f" "fl_upstream f = Some u"
  shows "relay_inv (write_all u ds p) (h(key := h key @ ds))"
proof -
  have u: "u < pr_next p" and only: "k = key" if "lookup (pr_flows p) k = Some f'" "fl_upstream f' = Some u" for k f'
    using relay_invD(4)[OF inv f] relay_invD(5)[OF inv f(1) that(1) f(2) that(2)] .
  then show ?thesis using relay_inv_simps[OF inv] relay_invD[OF inv] f
    by (intro relay_invI) (auto simp: sent_to_simps split: if_splits)
qed

lemma flow_ok_touch [simp]: "flow_ok n (f\<lparr>fl_last := now\<rparr>) = flow_ok n f"
  by (simp add: flow_ok_def split: option.split)

lemma relay_inv_touch:
  assumes inv: "relay_inv p h" and f: "lookup (pr_flows p) key = Some f"
  shows "relay_inv (p\<lparr>pr_flows := put key (f\<lparr>fl_last := now\<rparr>) (pr_flows p)\<rparr>) h"
  using relay_inv_simps[OF inv] relay_invD[OF inv] f
  by (intro relay_invI) (auto simp: sent_to_simps split: if_splits)

lemma relay_inv_reap: assumes inv: "relay_inv p h" shows "relay_inv (relay_reap now p) h"
  using relay_inv_simps[OF inv] relay_invD[OF inv] unfolding relay_reap_def
  by (intro relay_invI) (auto simp: sent_to_simps lookup_del_if split: if_splits option.splits)

lemma relay_inv_answer: "relay_inv p h \<Longrightarrow> relay_inv (pump_answer now key p) h"
  by (auto simp: pump_answer_def relay_inv_touch split: option.split)

lemma relay_inv_exit: "relay_inv p h \<Longrightarrow> relay_inv (pump_exit key p) h"
  unfolding pump_exit_def using relay_inv_del[of p h key "h key"] by simp

subsection \<open>Runs of the relay\<close>

lemma relay_handle_inv:
  assumes inv: "relay_inv p h" and C: "gcm_shrinks (rl_crypto E)" and d: "len64 d < 2 ^ 61"
  shows "\<exists>p'. relay_handle E now key d p = Some p' \<and> relay_inv p' (seen key d p h)"
proof (cases "lookup (pr_flows p) key")
  case None
  obtain sni fin x where fd: "Feed (rl_crypto E) d empty_extractor = Some ((sni, fin), x)"
      "list_all chunk_ok (sx_chunks x)" "sx_packets x = 1" "sni = [] \<longrightarrow> (fin \<longleftrightarrow> 8 \<le> sx_packets x)"
    using Feed_safe[OF C d, of empty_extractor] by (fastforce simp: empty_extractor_def)
  let ?f = "\<lparr>fl_upstream = None, fl_last = now, fl_sniffer = Some x, fl_pending = [d]\<rparr>"
  have "relay_inv (p\<lparr>pr_flows := put key ?f (pr_flows p)\<rparr>) (h(key := [d]))"
    using relay_inv_sniffing[OF inv, of ?f key] fd by (simp add: flow_ok_def)
  then show ?thesis using None fd relay_inv_route[OF inv None]
    by (auto simp: relay_handle_def seen_def)
next
  case (Some f)
  let ?f = "f\<lparr>fl_last := now\<rparr>" let ?p = "p\<lparr>pr_flows := put key ?f (pr_flows p)\<rparr>"
  have inv1: "relay_inv ?p h" using relay_inv_touch[OF inv Some] .
  show ?thesis
  proof (cases "fl_upstream f")
    case (Some u)
    then show ?thesis using \<open>lookup (pr_flows p) key = Some f\<close> relay_inv_forward[OF inv1, of key ?f u "[d]"]
      by (simp add: relay_handle_def seen_def)
  next
    case None
    then obtain x where x: "fl_sniffer f = Some x" "list_all chunk_ok (sx_chunks x)" "sx_packets x = int (length (fl_pending f))"
      and h: "fl_pending f = h key"
      using relay_invD(1,2)[OF inv Some] by (auto simp: flow_ok_def split: option.splits)
    obtain sni fin y where fd: "Feed (rl_crypto E) d x = Some ((sni, fin), y)"
        "list_all chunk_ok (sx_chunks y)" "sx_packets y = sx_packets x + 1" "sni = [] \<longrightarrow> (fin \<longleftrightarrow> 8 \<le> sx_packets y)"
      using Feed_safe[OF C d x(2)] by auto
    let ?g = "?f\<lparr>fl_pending := h key @ [d], fl_sniffer := Some y\<rparr>"
    have gone: "relay_inv (p\<lparr>pr_flows := del key (put key ?f (pr_flows p))\<rparr>) (h(key := z))" for z
      using relay_inv_del[OF inv1, of key z] by simp
    have "relay_inv (p\<lparr>pr_flows := put key ?g (put key ?f (pr_flows p))\<rparr>) (h(key := h key @ [d]))" if "\<not> fin" "sni = []"
      using relay_inv_sniffing[OF inv1, of ?g key] fd x h that None by (simp add: flow_ok_def)
    then show ?thesis
      using Some None x h fd gone relay_inv_route[OF gone[of "h key"], of key E now sni "h key @ [d]"]
      by (auto simp: relay_handle_def seen_def continueSniff_def Let_def)
  qed
qed

inductive relay_run :: "relay_env \<Rightarrow> PassthroughRelay \<Rightarrow> (string \<Rightarrow> bytes list) \<Rightarrow> bool" for E where
  relay_start: "relay_run E new_relay (\<lambda>_. [])"
| relay_datagram: "relay_run E p h \<Longrightarrow> len64 d < 2 ^ 61 \<Longrightarrow> relay_handle E now key d p = Some p' \<Longrightarrow>
    relay_run E p' (seen key d p h)"
| relay_reaps: "relay_run E p h \<Longrightarrow> relay_run E (relay_reap now p) h"
| relay_answers: "relay_run E p h \<Longrightarrow> relay_run E (pump_answer now key p) h"
| relay_exits: "relay_run E p h \<Longrightarrow> relay_run E (pump_exit key p) h"

lemma relay_Serve_run:
  "relay_run E p h \<Longrightarrow> relay_Serve E ds p = Some p' \<Longrightarrow> \<exists>h'. relay_run E p' h'"
proof (induction ds arbitrary: p h)
  case (Cons a ds)
  obtain now client d where a: "a = (now, client, d)" by (metis prod_cases3)
  with Cons(3) obtain q where q: "relay_handle E now client (take relay_buffer d) p = Some q" "relay_Serve E ds q = Some p'"
    by (auto split: option.splits)
  have "len64 (take relay_buffer d) < 2 ^ 61" by (simp add: len64_def relay_buffer_def)
  from Cons.IH[OF relay_datagram[OF Cons(2) this q(1)] q(2)] show ?case .
qed auto

lemma relay_run_inv: "relay_run E p h \<Longrightarrow> gcm_shrinks (rl_crypto E) \<Longrightarrow> relay_inv p h"
proof (induction rule: relay_run.induct)
  case (relay_datagram p h d now key p')
  then show ?case using relay_handle_inv by (metis option.inject)
qed (simp_all add: relay_inv_new relay_inv_reap relay_inv_answer relay_inv_exit)

text \<open>C25: however datagrams, answers, reaping and the ends of pumps interleave, no datagram makes the
  relay panic, a flow still sniffing has buffered at most seven datagrams, and the origin of a routed
  flow has been sent exactly the datagrams its client sent since the flow began, once each and in order.\<close>

theorem relay_delivers_in_order:
  assumes "gcm_shrinks (rl_crypto E)" "relay_run E p h"
  shows "(len64 d < 2 ^ 61 \<longrightarrow> relay_handle E now key d p \<noteq> None) \<and>
    (lookup (pr_flows p) k = Some f \<longrightarrow>
      (case fl_upstream f of Some u \<Rightarrow> sent_to u p = h k | None \<Rightarrow> fl_pending f = h k \<and> length (h k) \<le> 7))"
proof (intro conjI impI)
  note inv = relay_run_inv[OF assms(2,1)]
  show "relay_handle E now key d p \<noteq> None" if "len64 d < 2 ^ 61"
    using relay_handle_inv[OF inv assms(1)] that by (metis option.distinct(1))
  show "(case fl_upstream f of Some u \<Rightarrow> sent_to u p = h k | None \<Rightarrow> fl_pending f = h k \<and> length (h k) \<le> 7)"
    if "lookup (pr_flows p) k = Some f"
    using relay_invD(1-3)[OF inv] that by (fastforce simp: flow_ok_def split: option.splits)
qed

text \<open>A sample: a client whose ClientHello comes in two datagrams, the second half first, then one more.\<close>

definition ex_relay_env :: relay_env where
  "ex_relay_env = \<lparr>rl_crypto = ex_crypto, rl_LookupIP = (\<lambda>_. Inr [''192.0.2.1'']), rl_Dial = (\<lambda>_ _. None), rl_port = ''443''\<rparr>"

abbreviation ex_first :: bytes where "ex_first \<equiv> ex_datagram (ex_frames 33 (drop 33 ex_hello))"
abbreviation ex_second :: bytes where "ex_second \<equiv> ex_datagram (ex_frames 0 (take 33 ex_hello))"

lemma ex_chunks:
  "extractInitialCrypto ex_crypto ex_first = Ok [\<lparr>ck_off = 33, ck_data = drop 33 ex_hello\<rparr>]"
  "extractInitialCrypto ex_crypto ex_second = Ok [\<lparr>ck_off = 0, ck_data = take 33 ex_hello\<rparr>]"
  using ex_datagram_parsed[of 33 "drop 33 ex_hello"] ex_datagram_parsed[of 0 "take 33 ex_hello"] ex_hello_length by simp_all

lemma ex_joined:
  "joinCryptoChunks [\<lparr>ck_off = 33, ck_data = drop 33 ex_hello\<rparr>] = Ok []"
  "joinCryptoChunks [\<lparr>ck_off = 33, ck_data = drop 33 ex_hello\<rparr>, \<lparr>ck_off = 0, ck_data = take 33 ex_hello\<rparr>] = Ok ex_hello"
  using ex_hello_length by (simp_all add: joinCryptoChunks_def sort_chunks_def Let_def)

abbreviation ex_flow :: "nat option \<Rightarrow> SNIExtractor option \<Rightarrow> bytes list \<Rightarrow> udpFlow" where
  "ex_flow u x ds \<equiv> \<lparr>fl_upstream = u, fl_last = 5, fl_sniffer = x, fl_pending = ds\<rparr>"

definition ex_relay :: PassthroughRelay where
  "ex_relay = \<lparr>pr_flows = [(''c'', ex_flow (Some 0) None [])], pr_sent = [(0, ex_first), (0, ex_second), (0, [7])], pr_next = 1\<rparr>"

lemma ex_feeds:
  "Feed ex_crypto ex_first empty_extractor = Some (([], False), \<lparr>sx_chunks = [\<lparr>ck_off = 33, ck_data = drop 33 ex_hello\<rparr>], sx_packets = 1\<rparr>)"
  "Feed ex_crypto ex_second \<lparr>sx_chunks = [\<lparr>ck_off = 33, ck_data = drop 33 ex_hello\<rparr>], sx_packets = 1\<rparr> =
    Some (([97, 46, 98], True), \<lparr>sx_chunks = [\<lparr>ck_off = 33, ck_data = drop 33 ex_hello\<rparr>, \<lparr>ck_off = 0, ck_data = take 33 ex_hello\<rparr>], sx_packets = 2\<rparr>)"
  using ex_chunks ex_joined ex_hello_name by (simp_all add: Feed_def parseSNI_def empty_extractor_def Let_def)

lemma ex_datagram_len: "length x < 60 \<Longrightarrow> len64 (ex_datagram (ex_frames o1 x)) < 2 ^ 61"
  by (simp add: len64_def ex_datagram_def ex_frames_def enc0 enc_varint_def nat_bytes)

lemma ex_relay_run: "relay_run ex_relay_env ex_relay ((\<lambda>_. [])(''c'' := [ex_first, ex_second, [7]]))"
proof -
  let ?x = "\<lparr>sx_chunks = [\<lparr>ck_off = 33, ck_data = drop 33 ex_hello\<rparr>], sx_packets = 1\<rparr>"
  let ?p1 = "\<lparr>pr_flows = [(''c'', ex_flow None (Some ?x) [ex_first])], pr_sent = [], pr_next = 0\<rparr>"
  let ?p2 = "\<lparr>pr_flows = [(''c'', ex_flow (Some 0) None [])], pr_sent = [(0, ex_first), (0, ex_second)], pr_next = 1\<rparr>"
  have l: "len64 ex_first < 2 ^ 61" "len64 ex_second < 2 ^ 61"
    by (intro ex_datagram_len; simp add: ex_hello_length)+
  have c: "rl_crypto ex_relay_env = ex_crypto" by (simp add: ex_relay_env_def)
  have "relay_handle ex_relay_env 5 ''c'' ex_first new_relay = Some ?p1"
    using ex_feeds(1) by (simp add: relay_handle_def new_relay_def c)
  from relay_datagram[OF relay_start l(1) this]
  have 1: "relay_run ex_relay_env ?p1 ((\<lambda>_. [])(''c'' := [ex_first]))" by (simp add: seen_def new_relay_def)
  have "relay_handle ex_relay_env 5 ''c'' ex_second ?p1 = Some ?p2"
    using ex_feeds(2) by (simp add: relay_handle_def continueSniff_def routeFlow_def ex_relay_env_def write_all_def Let_def)
  from relay_datagram[OF 1 l(2) this]
  have 2: "relay_run ex_relay_env ?p2 ((\<lambda>_. [])(''c'' := [ex_first, ex_second]))" by (simp add: seen_def)
  have "relay_handle ex_relay_env 5 ''c'' [7] ?p2 = Some ex_relay"
    by (simp add: relay_handle_def write_all_def ex_relay_def Let_def)
  from relay_datagram[OF 2 _ this] show ?thesis by (simp add: seen_def len64_def)
qed

lemma ex_crypto_shrinks: "gcm_shrinks (rl_crypto ex_relay_env)"
  by (auto simp: gcm_shrinks_def ex_crypto_def ex_relay_env_def)

theorem relay_delivers_in_order_witness: "sent_to 0 ex_relay = [ex_first, ex_second, [7]]"
  using relay_delivers_in_order[OF ex_crypto_shrinks ex_relay_run, of "[]" _ _ "''c''" "ex_flow (Some 0) None []"]
  by (simp add: ex_relay_def)

text \<open>The pump of a flow that was reaped still deletes the entry of its client when it ends: the flow
  that a new connection of the same client has made by then is dropped from the table.\<close>

lemma stale_pump_drops_new_flow:
  "lookup (pr_flows (pump_exit key (routeFlow E now key sni ds p))) key = None"
  if "wf_map (pr_flows p)"
  using that by (auto simp: pump_exit_def routeFlow_def sent_to_simps Let_def split: sum.split list.split option.split)
end
