(* ===== verification/Transport.thy ===== *)
theory Transport
  imports Server QuicRelay
begin

text \<open>
  What \<^verbatim>\<open>routingListener.route\<close> of \<^verbatim>\<open>internal/server/server.go\<close> does with a connection it accepted: the peek of
  \<^verbatim>\<open>Sni\<close>, the policy of \<^verbatim>\<open>Server\<close>, and the connection handed on, to \<^verbatim>\<open>Splice\<close> or to TLS termination.
\<close>

definition route_conn :: "conn \<Rightarrow> Server \<Rightarrow> routed \<times> prefixConn" where
  "route_conn c s =
     (case PeekClientHello c of
        ((sni, buf, err), c') \<Rightarrow>
          (route (if err = None then Some (byte_string sni) else None) s, \<lparr>pc_conn = c', pc_buf = buf\<rparr>))"

text \<open>The bytes a reader of the connection gets.\<close>

definition conn_stream :: "prefixConn \<Rightarrow> bytes" where
  "conn_stream p = pc_buf p @ cn_In (pc_conn p)"

lemma byte_string_Nil [simp]: "byte_string b = [] \<longleftrightarrow> b = []"
  by (simp add: byte_string_def)

lemma route_cases: "route sni s = Splice n \<longleftrightarrow>
    sni = Some n \<and> n \<noteq> [] \<and> d_Action (Ruleset_Match (e_rs (sv_engine s)) n [] []) = ActionPassthrough"
  by (auto simp: route_def split: option.splits)

text \<open>A connection is spliced exactly to a name its ClientHello carries and the policy says to
  pass through, and then the origin reads every byte the client sent.\<close>

theorem spliced_only_by_policy:
  assumes "route_conn c s = (Splice n, p)"
  shows "d_Action (Ruleset_Match (e_rs (sv_engine s)) n [] []) = ActionPassthrough \<and> n \<noteq> [] \<and> conn_stream p = cn_In c"
proof -
  obtain sni buf err c' where q: "PeekClientHello c = ((sni, buf, err), c')" by (metis surj_pair)
  with assms have r: "route (if err = None then Some (byte_string sni) else None) s = Splice n"
    and p: "p = \<lparr>pc_conn = c', pc_buf = buf\<rparr>" by (simp_all add: route_conn_def)
  from r have "err = None" by (auto simp: route_cases split: if_splits)
  with peek_loop_bytes[OF q[unfolded PeekClientHello_def]] have "buf @ cn_In c' = cn_In c" by auto
  with r p show ?thesis by (auto simp: route_cases conn_stream_def split: if_splits)
qed

text \<open>C24: A name the policy passes through is passed through however its ClientHello is cut into
  records: with any extensions before and after the server name, any names of other types around it,
  and at most eight records, the connection is spliced to the host named, and the origin reads what
  the client sent.\<close>

theorem passthrough_survives_fragmentation:
  assumes "length random = 32" "length sid < 256" "length suites < 65536" "length meths < 256"
    and "list_all (\<lambda>(t, d). t \<noteq> 0 \<and> t < 65536 \<and> length d < 65536) before"
    and "list_all (\<lambda>(t, n). t \<noteq> 0 \<and> length n < 65536) others"
    and "exts = before @ (0, enc_names (others @ (0, name) # further)) # after"
    and "length (concat (map enc_ext exts)) < 65536"
    and hello: "hello = client_hello random sid suites meths exts" "length hello \<le> maxHandshake"
    and cut: "concat ps = hello" "length ps \<le> maxRecords" "\<forall>p\<in>set ps. p \<noteq> [] \<and> length p < 65536"
    and policy: "name \<noteq> []" "d_Action (Ruleset_Match (e_rs (sv_engine s)) (byte_string name) [] []) = ActionPassthrough"
  shows "\<exists>p. route_conn \<lparr>cn_In = concat (map tls_record ps) @ b, cn_End = e\<rparr> s = (Splice (byte_string name), p) \<and>
    conn_stream p = concat (map tls_record ps) @ b"
proof -
  have n: "parseSNI hello = name" unfolding hello by (rule parseSNI_host[OF assms(1-8)])
  have total: "hello_total hello = length hello"
    unfolding hello(1) by (rule client_hello_total) (use hello in \<open>simp add: maxHandshake_def\<close>)
  have "4 \<le> length hello" using hello(1) by (simp add: client_hello_def Let_def)
  moreover from this have "ps \<noteq> []" using cut(1) by auto
  ultimately have "PeekClientHello \<lparr>cn_In = concat (map tls_record ps) @ b, cn_End = e\<rparr> =
    ((name, concat (map tls_record ps), None), \<lparr>cn_In = b, cn_End = e\<rparr>)"
    using peek_fragments[of "[]" ps hello maxRecords True "[]" b e] cut n total hello(2) by (simp add: PeekClientHello_def)
  then show ?thesis using policy by (simp add: route_conn_def route_def conn_stream_def)
qed

text \<open>A sample: a ClientHello for \<^verbatim>\<open>x.example\<close> in three records.\<close>

definition ex_name_exts :: "(nat \<times> bytes) list" where
  "ex_name_exts = [(43, [2, 3, 4])] @ (0, enc_names ([] @ (0, [120, 46, 101, 120, 97, 109, 112, 108, 101]) # [])) # []"

definition ex_name_hello :: bytes where
  "ex_name_hello = client_hello (replicate 32 5) [] [0x13, 1] [0] ex_name_exts"

lemma ex_name_hello_length: "length ex_name_hello = 72"
  by (simp add: ex_name_hello_def client_hello_def ex_name_exts_def enc_ext_def enc_names_def enc_name_def Let_def)

theorem passthrough_survives_fragmentation_witness:
  "\<exists>p. route_conn \<lparr>cn_In = concat (map tls_record [take 3 ex_name_hello, take 40 (drop 3 ex_name_hello), drop 43 ex_name_hello]) @ [9],
       cn_End = ErrNotExist\<rparr> (ex_server ''passthrough'' ''full'') = (Splice (byte_string [120, 46, 101, 120, 97, 109, 112, 108, 101]), p) \<and>
    conn_stream p = concat (map tls_record [take 3 ex_name_hello, take 40 (drop 3 ex_name_hello), drop 43 ex_name_hello]) @ [9]"
proof -
  note l = ex_name_hello_length
  have c: "concat [take 3 ex_name_hello, take 40 (drop 3 ex_name_hello), drop 43 ex_name_hello] = ex_name_hello"
    using append_take_drop_id[of 40 "drop 3 ex_name_hello"] by simp
  have "take 3 ex_name_hello \<noteq> []" "take 40 (drop 3 ex_name_hello) \<noteq> []" "drop 43 ex_name_hello \<noteq> []" using l by auto
  moreover have "d_Action (Ruleset_Match (e_rs (sv_engine (ex_server ''passthrough'' ''full'')))
      (byte_string [120, 46, 101, 120, 97, 109, 112, 108, 101]) [] []) = ActionPassthrough" by code_simp
  ultimately show ?thesis
    by (intro passthrough_survives_fragmentation[OF _ _ _ _ _ _ ex_name_exts_def _ ex_name_hello_def _ c])
      (use l in \<open>auto simp: maxRecords_def maxHandshake_def ex_name_exts_def enc_ext_def enc_names_def enc_name_def\<close>)
qed

theorem spliced_only_by_policy_witness:
  "\<exists>p. route_conn \<lparr>cn_In = tls_record ex_name_hello, cn_End = ErrNotExist\<rparr> (ex_server ''passthrough'' ''full'') = (Splice ''x.example'', p) \<and>
    conn_stream p = tls_record ex_name_hello"
proof -
  have "PeekClientHello \<lparr>cn_In = concat (map tls_record [ex_name_hello]) @ [], cn_End = ErrNotExist\<rparr> =
     ((parseSNI ex_name_hello, concat (map tls_record [ex_name_hello]), None), \<lparr>cn_In = [], cn_End = ErrNotExist\<rparr>)"
    unfolding PeekClientHello_def
  proof (rule peek_fragments[where raw = "[]" and hs = "[]", simplified append_Nil])
    show "hello_total ex_name_hello = length ex_name_hello"
      unfolding ex_name_hello_def by (rule client_hello_total) (use ex_name_hello_length[unfolded ex_name_hello_def] in simp)
    have "ex_name_hello \<noteq> []" using ex_name_hello_length by auto
    then show "\<forall>p\<in>set [ex_name_hello]. p \<noteq> [] \<and> length p < 65536" using ex_name_hello_length by simp
  qed (use ex_name_hello_length in \<open>simp_all add: maxRecords_def maxHandshake_def\<close>)
  moreover have "parseSNI ex_name_hello = [120, 46, 101, 120, 97, 109, 112, 108, 101]"
    unfolding ex_name_hello_def
    by (rule parseSNI_host[OF _ _ _ _ _ _ ex_name_exts_def])
      (simp_all add: ex_name_exts_def enc_ext_def enc_names_def enc_name_def)
  moreover have "byte_string [120, 46, 101, 120, 97, 109, 112, 108, 101] = ''x.example''" by code_simp
  moreover have "d_Action (Ruleset_Match (e_rs (sv_engine (ex_server ''passthrough'' ''full''))) ''x.example'' [] []) = ActionPassthrough"
    by code_simp
  ultimately have "\<exists>p. route_conn \<lparr>cn_In = tls_record ex_name_hello, cn_End = ErrNotExist\<rparr> (ex_server ''passthrough'' ''full'') = (Splice ''x.example'', p)"
    by (simp add: route_conn_def route_def)
  then show ?thesis using spliced_only_by_policy by fastforce
qed

end
