(* ===== verification/Listener.thy ===== *)
theory Listener
  imports Transport
begin

text \<open>
  The routing listener of \<^verbatim>\<open>internal/server/server.go\<close> as a state machine: the goroutine that accepts, one
  goroutine per connection that peeks and routes, the channels between them and \<^verbatim>\<open>Accept\<close>, and \<^verbatim>\<open>Close\<close>
  with its two steps. A step is one event of one goroutine; any order is possible. The lists of what was
  accepted, given to the TLS server, spliced or dropped, and the errors \<^verbatim>\<open>Accept\<close> returned, record the
  history.
\<close>

subsection \<open>State and steps\<close>

datatype acceptor = Accepting | Reporting error | Stopped

record routingListener =
  rl_open :: bool
  rl_acceptor :: acceptor
  rl_peeking :: "nat list"
  rl_offering :: "(nat \<times> prefixConn) list"
  rl_errs :: "error option"
  rl_done :: bool
  rl_in :: "conn list"
  rl_given :: "(nat \<times> prefixConn) list"
  rl_spliced :: "(nat \<times> string) list"
  rl_dropped :: "nat list"
  rl_failed :: "error list"

definition newRoutingListener :: routingListener where
  "newRoutingListener =
     \<lparr>rl_open = True, rl_acceptor = Accepting, rl_peeking = [], rl_offering = [], rl_errs = None, rl_done = False,
      rl_in = [], rl_given = [], rl_spliced = [], rl_dropped = [], rl_failed = []\<rparr>"

text \<open>The inner listener yields a connection only while it is open; it may fail at any time (out of
  descriptors, a reset peer, closed). The channel of errors holds one.\<close>

inductive li_step :: "Server \<Rightarrow> routingListener \<Rightarrow> routingListener \<Rightarrow> bool" for s where
  accept_conn: "rl_open l \<Longrightarrow> rl_acceptor l = Accepting \<Longrightarrow>
     li_step s l (l\<lparr>rl_peeking := rl_peeking l @ [length (rl_in l)], rl_in := rl_in l @ [c]\<rparr>)"
| accept_fails: "rl_acceptor l = Accepting \<Longrightarrow> li_step s l (l\<lparr>rl_acceptor := Reporting e\<rparr>)"
| report: "rl_acceptor l = Reporting e \<Longrightarrow> rl_errs l = None \<Longrightarrow> li_step s l (l\<lparr>rl_errs := Some e, rl_acceptor := Stopped\<rparr>)"
| give_up: "rl_acceptor l = Reporting e \<Longrightarrow> rl_done l \<Longrightarrow> li_step s l (l\<lparr>rl_acceptor := Stopped\<rparr>)"
| terminate: "i \<in> set (rl_peeking l) \<Longrightarrow> route_conn (rl_in l ! i) s = (Terminate, p) \<Longrightarrow>
     li_step s l (l\<lparr>rl_peeking := remove1 i (rl_peeking l), rl_offering := rl_offering l @ [(i, p)]\<rparr>)"
| splice: "i \<in> set (rl_peeking l) \<Longrightarrow> route_conn (rl_in l ! i) s = (Splice n, p) \<Longrightarrow>
     li_step s l (l\<lparr>rl_peeking := remove1 i (rl_peeking l), rl_spliced := rl_spliced l @ [(i, n)]\<rparr>)"
| accept_gives: "(i, p) \<in> set (rl_offering l) \<Longrightarrow>
     li_step s l (l\<lparr>rl_offering := remove1 (i, p) (rl_offering l), rl_given := rl_given l @ [(i, p)]\<rparr>)"
| accept_errs: "rl_errs l = Some e \<Longrightarrow> li_step s l (l\<lparr>rl_errs := None, rl_failed := rl_failed l @ [e]\<rparr>)"
| worker_drops: "(i, p) \<in> set (rl_offering l) \<Longrightarrow> rl_done l \<Longrightarrow>
     li_step s l (l\<lparr>rl_offering := remove1 (i, p) (rl_offering l), rl_dropped := rl_dropped l @ [i]\<rparr>)"
| close_done: "li_step s l (l\<lparr>rl_done := True\<rparr>)"
| close_inner: "rl_done l \<Longrightarrow> li_step s l (l\<lparr>rl_open := False\<rparr>)"

text \<open>The server changes under the listener: a reload swaps its rules.\<close>

inductive li_reach :: "routingListener \<Rightarrow> routingListener \<Rightarrow> bool" where
  li_refl: "li_reach l l"
| li_next: "li_reach l l' \<Longrightarrow> li_step s l' l'' \<Longrightarrow> li_reach l l''"

subsection \<open>Facts\<close>

text \<open>Where each accepted connection is.\<close>

definition places :: "routingListener \<Rightarrow> nat list" where
  "places l = rl_peeking l @ map fst (rl_offering l) @ map fst (rl_given l) @ map fst (rl_spliced l) @ rl_dropped l"

definition errors_left :: "routingListener \<Rightarrow> nat" where
  "errors_left l = length (rl_failed l) + (if rl_errs l = None then 0 else 1) +
     (case rl_acceptor l of Stopped \<Rightarrow> 0 | _ \<Rightarrow> 1)"

definition held_right :: "conn list \<Rightarrow> nat \<times> prefixConn \<Rightarrow> bool" where
  "held_right cs x \<longleftrightarrow> (\<exists>s. route_conn (cs ! fst x) s = (Terminate, snd x))"

definition spliced_right :: "conn list \<Rightarrow> nat \<times> string \<Rightarrow> bool" where
  "spliced_right cs x \<longleftrightarrow> (\<exists>s p. route_conn (cs ! fst x) s = (Splice (snd x), p))"

definition routed_right :: "routingListener \<Rightarrow> bool" where
  "routed_right l \<longleftrightarrow> (\<forall>x \<in> set (rl_offering l) \<union> set (rl_given l). held_right (rl_in l) x) \<and>
     (\<forall>x \<in> set (rl_spliced l). spliced_right (rl_in l) x)"

definition li_inv :: "routingListener \<Rightarrow> bool" where
  "li_inv l \<longleftrightarrow> mset (places l) = mset [0..<length (rl_in l)] \<and> errors_left l \<le> 1 \<and>
     (rl_dropped l \<noteq> [] \<or> \<not> rl_open l \<longrightarrow> rl_done l)"

lemma mset_remove1_fst: "(i, p) \<in> set xs \<Longrightarrow> image_mset fst (mset xs - {#(i, p)#}) = image_mset fst (mset xs) - {#i#}"
  by (simp add: image_mset_Diff)

lemma in_places: "li_inv l \<Longrightarrow> i \<in> set (places l) \<longleftrightarrow> i < length (rl_in l)"
proof -
  assume "li_inv l"
  then have "set (places l) = set [0..<length (rl_in l)]" unfolding li_inv_def by (metis mset_eq_setD)
  then show ?thesis by simp
qed

lemma li_step_inv: "li_step s l l' \<Longrightarrow> li_inv l \<Longrightarrow> li_inv l'"
proof (induction rule: li_step.induct)
  case (terminate i l p)
  then have "i < length (rl_in l)" using in_places[of l i] by (simp add: places_def)
  with terminate show ?case by (auto simp: li_inv_def places_def errors_left_def)
next
  case (splice i l n p)
  then have "i < length (rl_in l)" using in_places[of l i] by (simp add: places_def)
  with splice show ?case by (auto simp: li_inv_def places_def errors_left_def)
next
  case (accept_gives i p l)
  then have "i \<in># image_mset fst (mset (rl_offering l))" "i < length (rl_in l)" 
    using in_places[of l i] by (force simp: places_def)+
  with accept_gives show ?case
    by (auto simp: li_inv_def places_def errors_left_def mset_remove1_fst)
next
  case (worker_drops i p l)
  then have "i \<in># image_mset fst (mset (rl_offering l))" "i < length (rl_in l)"
    using in_places[of l i] by (force simp: places_def)+
  with worker_drops show ?case
    by (auto simp: li_inv_def places_def errors_left_def mset_remove1_fst)
qed (auto simp: li_inv_def places_def errors_left_def split: acceptor.splits if_splits)

lemma held_below:
  assumes "li_inv l" "x \<in> set (rl_offering l) \<union> set (rl_given l)"
  shows "fst x < length (rl_in l)"
proof -
  from assms(2) have "fst x \<in> set (places l)" by (auto simp: places_def)
  with in_places[OF assms(1)] show ?thesis by blast
qed

lemma spliced_below:
  assumes "li_inv l" "x \<in> set (rl_spliced l)"
  shows "fst x < length (rl_in l)"
proof -
  from assms(2) have "fst x \<in> set (places l)" by (auto simp: places_def)
  with in_places[OF assms(1)] show ?thesis by blast
qed

lemma right_append [simp]:
  "fst x < length cs \<Longrightarrow> held_right (cs @ ds) x = held_right cs x"
  "fst y < length cs \<Longrightarrow> spliced_right (cs @ ds) y = spliced_right cs y"
  by (simp_all add: held_right_def spliced_right_def nth_append)

lemma li_step_routed: "li_step s l l' \<Longrightarrow> li_inv l \<Longrightarrow> routed_right l \<Longrightarrow> routed_right l'"
proof (induction rule: li_step.induct)
  case (accept_conn l c)
  then show ?case
    using held_below[OF accept_conn(3)] spliced_below[OF accept_conn(3)] by (simp add: routed_right_def)
next
  case (terminate i l p)
  then have "held_right (rl_in l) (i, p)" by (auto simp: held_right_def)
  with terminate show ?case by (simp add: routed_right_def)
next
  case (splice i l n p)
  then have "spliced_right (rl_in l) (i, n)" by (auto simp: spliced_right_def)
  with splice show ?case by (simp add: routed_right_def)
next
  case (accept_gives i p l)
  then show ?case using set_remove1_subset[of "(i, p)" "rl_offering l"] by (auto simp: routed_right_def)
next
  case (worker_drops i p l)
  then show ?case using set_remove1_subset[of "(i, p)" "rl_offering l"] by (auto simp: routed_right_def)
qed (simp_all add: routed_right_def)

lemma li_reach_inv: "li_reach l l' \<Longrightarrow> li_inv l \<Longrightarrow> routed_right l \<Longrightarrow> li_inv l' \<and> routed_right l'"
  by (induction rule: li_reach.induct) (auto dest: li_step_inv li_step_routed)

lemma new_listener_inv: "li_inv newRoutingListener" "routed_right newRoutingListener"
  by (simp_all add: newRoutingListener_def li_inv_def routed_right_def places_def errors_left_def)


text \<open>A slow handshake delays nobody else: while the listener accepts and is not closed, whatever the other
  connections do, a new connection that the policy terminates can be accepted, peeked at and given to the TLS
  server by steps of its own, and all the others stay where they are.\<close>

theorem slow_handshakes_delay_no_other:
  assumes "li_reach newRoutingListener l" "rl_open l" "rl_acceptor l = Accepting" "route_conn c s = (Terminate, p)"
  shows "li_reach l (l\<lparr>rl_in := rl_in l @ [c], rl_given := rl_given l @ [(length (rl_in l), p)]\<rparr>)"
proof -
  let ?n = "length (rl_in l)"
  from li_reach_inv[OF assms(1) new_listener_inv] have inv: "li_inv l" by auto
  have fresh: "?n \<notin> set (rl_peeking l)" "(?n, p) \<notin> set (rl_offering l)"
    using in_places[OF inv, of ?n] by (auto simp: places_def image_iff) 
  let ?l1 = "l\<lparr>rl_peeking := rl_peeking l @ [?n], rl_in := rl_in l @ [c]\<rparr>"
  let ?l2 = "?l1\<lparr>rl_peeking := remove1 ?n (rl_peeking ?l1), rl_offering := rl_offering ?l1 @ [(?n, p)]\<rparr>"
  let ?l3 = "?l2\<lparr>rl_offering := remove1 (?n, p) (rl_offering ?l2), rl_given := rl_given ?l2 @ [(?n, p)]\<rparr>"
  have "li_step s l ?l1" by (rule accept_conn[OF assms(2,3)])
  moreover have "li_step s ?l1 ?l2" by (rule terminate) (simp_all add: assms(4))
  moreover have "li_step s ?l2 ?l3" by (rule accept_gives) simp
  ultimately have "li_reach l ?l3" by (blast intro: li_reach.intros)
  moreover have "?l3 = l\<lparr>rl_in := rl_in l @ [c], rl_given := rl_given l @ [(?n, p)]\<rparr>"
    using fresh by (simp add: remove1_append)
  ultimately show ?thesis by simp
qed

subsection \<open>Errors and \<^verbatim>\<open>Close\<close>\<close>

lemma stopped_stays: "li_reach l l' \<Longrightarrow> rl_acceptor l \<noteq> Accepting \<Longrightarrow> rl_in l' = rl_in l \<and> rl_acceptor l' \<noteq> Accepting"
proof (induction rule: li_reach.induct)
  case (li_next l l' s l'')
  then show ?case by (auto elim: li_step.cases)
qed simp

lemma li_reach_trans: "li_reach l' l'' \<Longrightarrow> li_reach l l' \<Longrightarrow> li_reach l l''"
  by (induction rule: li_reach.induct) (auto intro: li_reach.intros)

text \<open>C15: \<^verbatim>\<open>Accept\<close> returns an error at most once in the life of the listener, also for an error that would pass
  (no free descriptor, a connection reset before it was accepted): after it the listener, open or not, never
  accepts another connection, so the retry of the HTTP server waits for ever.\<close>

theorem one_error_ends_the_listener:
  assumes "li_reach newRoutingListener l" "rl_failed l \<noteq> []" "li_reach l l'"
  shows "rl_in l' = rl_in l \<and> rl_failed l' = rl_failed l \<and> length (rl_failed l') = 1"
proof -
  from li_reach_inv[OF assms(1) new_listener_inv] have "errors_left l \<le> 1" by (simp add: li_inv_def)
  with assms(2) have 1: "length (rl_failed l) = 1" "rl_acceptor l \<noteq> Accepting" "rl_errs l = None" "rl_acceptor l = Stopped"
    by (auto simp: errors_left_def split: acceptor.splits if_splits) (cases "rl_failed l"; simp)+
  have "rl_failed l'' = rl_failed k \<and> rl_errs l'' = None \<and> rl_acceptor l'' = Stopped"
    if "li_reach k l''" "rl_errs k = None" "rl_acceptor k = Stopped" for k l''
    using that by (induction rule: li_reach.induct) (auto elim: li_step.cases)
  from this[OF assms(3) 1(3,4)] stopped_stays[OF assms(3) 1(2)] 1(1) show ?thesis by simp
qed

definition ex_listener :: routingListener where
  "ex_listener = newRoutingListener\<lparr>rl_acceptor := Stopped, rl_failed := [Err ''accept: too many open files'']\<rparr>"

lemma ex_listener_reached: "li_reach newRoutingListener ex_listener"
proof -
  let ?e = "Err ''accept: too many open files''" and ?n = newRoutingListener and ?s = "ex_server ''stub'' ''full''"
  have "li_step ?s ?n (?n\<lparr>rl_acceptor := Reporting ?e\<rparr>)"
    by (rule accept_fails) (simp add: newRoutingListener_def)
  moreover have "li_step ?s (?n\<lparr>rl_acceptor := Reporting ?e\<rparr>) (?n\<lparr>rl_acceptor := Reporting ?e, rl_errs := Some ?e, rl_acceptor := Stopped\<rparr>)"
    by (rule report) (simp_all add: newRoutingListener_def)
  moreover have "li_step ?s (?n\<lparr>rl_acceptor := Reporting ?e, rl_errs := Some ?e, rl_acceptor := Stopped\<rparr>)
     ((?n\<lparr>rl_acceptor := Reporting ?e, rl_errs := Some ?e, rl_acceptor := Stopped\<rparr>)\<lparr>rl_errs := None, rl_failed := rl_failed ?n @ [?e]\<rparr>)"
    using accept_errs[of "?n\<lparr>rl_acceptor := Reporting ?e, rl_errs := Some ?e, rl_acceptor := Stopped\<rparr>" ?e ?s] by simp
  ultimately have "li_reach ?n ((?n\<lparr>rl_acceptor := Reporting ?e, rl_errs := Some ?e, rl_acceptor := Stopped\<rparr>)\<lparr>rl_errs := None, rl_failed := rl_failed ?n @ [?e]\<rparr>)"
    by (blast intro: li_reach.intros)
  then show ?thesis by (simp add: ex_listener_def newRoutingListener_def)
qed

theorem one_error_ends_the_listener_witness:
  "rl_open ex_listener \<and> \<not> rl_done ex_listener \<and> (\<lambda>l. (rl_in l, length (rl_failed l))) ` {l. li_reach ex_listener l} = {([], 1)}"
proof -
  let ?f = "\<lambda>l. (rl_in l, length (rl_failed l))"
  have "?f l = ([], 1)" if "li_reach ex_listener l" for l
    using one_error_ends_the_listener[OF ex_listener_reached _ that]
    by (simp add: ex_listener_def newRoutingListener_def)
  then have "?f ` {l. li_reach ex_listener l} \<subseteq> {([], 1)}" by (intro image_subsetI) auto
  moreover have "ex_listener \<in> {l. li_reach ex_listener l}" by (simp add: li_refl)
  ultimately have "?f ` {l. li_reach ex_listener l} = {([], 1)}" by (metis image_is_empty empty_iff subset_singletonD)
  then show ?thesis by (simp add: ex_listener_def newRoutingListener_def)
qed

text \<open>\<^verbatim>\<open>Close\<close> closes the channel \<^verbatim>\<open>done\<close> before the inner listener, so the acceptor that the closed listener wakes
  may choose \<^verbatim>\<open>done\<close> and keep the error: then \<^verbatim>\<open>Accept\<close>, and with it the TLS server and the drain, wait for ever.\<close>

theorem close_may_leave_accept_waiting:
  "\<exists>l. li_reach newRoutingListener l \<and> rl_done l \<and> \<not> rl_open l \<and> rl_failed l = [] \<and> (\<forall>s l'. li_step s l l' \<longrightarrow> l' = l)"
proof -
  let ?n = newRoutingListener and ?s = "ex_server ''stub'' ''full''" and ?e = ErrNotExist
  let ?l = "?n\<lparr>rl_done := True, rl_open := False, rl_acceptor := Stopped\<rparr>"
  have "li_step ?s ?n (?n\<lparr>rl_done := True\<rparr>)" by (rule close_done)
  moreover have "li_step ?s (?n\<lparr>rl_done := True\<rparr>) (?n\<lparr>rl_done := True, rl_open := False\<rparr>)" by (rule close_inner) simp
  moreover have "li_step ?s (?n\<lparr>rl_done := True, rl_open := False\<rparr>) (?n\<lparr>rl_done := True, rl_open := False, rl_acceptor := Reporting ?e\<rparr>)"
    by (rule accept_fails) (simp add: newRoutingListener_def)
  moreover have "li_step ?s (?n\<lparr>rl_done := True, rl_open := False, rl_acceptor := Reporting ?e\<rparr>)
     ?l"
    using give_up[of "?n\<lparr>rl_done := True, rl_open := False, rl_acceptor := Reporting ?e\<rparr>" ?e ?s] by simp
  ultimately have "li_reach ?n ?l" by (meson li_refl li_next)
  moreover have "l' = ?l" if "li_step s ?l l'" for s l'
    using that by (auto elim!: li_step.cases simp: newRoutingListener_def)
  ultimately show ?thesis by (intro exI[of _ ?l]) (simp add: newRoutingListener_def)
qed

definition ex_silent :: conn where
  "ex_silent = \<lparr>cn_In = [], cn_End = ErrNotExist\<rparr>"

lemma ex_silent_routed: "\<exists>p. route_conn ex_silent s = (Terminate, p)"
proof -
  obtain sni buf err c' where q: "PeekClientHello ex_silent = ((sni, buf, err), c')" by (metis surj_pair)
  then have "err \<noteq> None" by (auto simp: ex_silent_def PeekClientHello_def maxRecords_def readFull_def eval_nat_numeral)
  with q show ?thesis by (auto simp: route_conn_def route_def)
qed

theorem slow_handshakes_delay_no_other_witness:
  "\<exists>p. li_reach newRoutingListener (newRoutingListener\<lparr>rl_in := [ex_silent], rl_given := [(0, p)]\<rparr>)"
proof -
  obtain p where p: "route_conn ex_silent (ex_server ''stub'' ''full'') = (Terminate, p)" using ex_silent_routed by blast
  from slow_handshakes_delay_no_other[OF li_refl _ _ p] show ?thesis
    by (intro exI[of _ p]) (simp add: newRoutingListener_def)
qed


end
