(* ===== verification/Certgen.thy ===== *)
theory Certgen
  imports Go_Lru Interfaces Config StubCatalog
begin

text \<open>
  The issuer of leaf certificates, \<^verbatim>\<open>internal/certgen/certgen.go\<close>: loading of the intermediate CA, the
  certificate for a name from the memory cache, the disk cache or a new signature, the eviction,
  the files of the disk cache and the check of host names.

  X.509, PEM and key parsing, signing and SHA-256 are the fields of \<open>pki\<close>; \<open>'k\<close> is the type of private
  keys. The clock readings, the generated key, the serial number and the outcome of the write of a
  cache file are arguments. The disk is a map from paths to contents.
\<close>

subsection \<open>Certificates and keys\<close>

record xcert =
  xc_Raw :: string
  xc_IsCA :: bool
  xc_NotBefore :: time
  xc_NotAfter :: time
  xc_DNSNames :: "string list"
  xc_CommonName :: string

record leaf_template =
  lt_Serial :: nat
  lt_CommonName :: string
  lt_DNSNames :: "string list"
  lt_NotBefore :: time
  lt_NotAfter :: time
  lt_KeyUsage :: "string list"
  lt_ExtKeyUsage :: "string list"

record 'k pki =
  pk_decode :: "string \<Rightarrow> ((string \<times> string) \<times> string) option"
  pk_encode :: "string \<Rightarrow> string \<Rightarrow> string"
  pk_ParseCertificate :: "string \<Rightarrow> error + xcert"
  pk_ParsePKCS8 :: "string \<Rightarrow> error + 'k"
  pk_signer :: "'k \<Rightarrow> bool"
  pk_ParseEC :: "string \<Rightarrow> error + 'k"
  pk_ParsePKCS1 :: "string \<Rightarrow> error + 'k"
  pk_MarshalPKCS8 :: "'k \<Rightarrow> error + string"
  pk_Create :: "leaf_template \<Rightarrow> xcert \<Rightarrow> 'k \<Rightarrow> 'k \<Rightarrow> error + string"
  pk_sha256 :: "string \<Rightarrow> string"

record 'k tls_certificate =
  tc_Certificate :: "string list"
  tc_PrivateKey :: 'k
  tc_Leaf :: xcert

record 'k certEntry =
  cn_cert :: "'k tls_certificate"
  cn_expires :: time
  cn_used :: time

record 'k Issuer =
  is_interCert :: xcert
  is_interKey :: 'k
  is_fp :: string
  is_keyType :: string
  is_ttl :: duration
  is_cacheMax :: nat
  is_diskDir :: string
  is_cache :: "(string, 'k certEntry) gomap"

subsection \<open>Loading the intermediate CA\<close>

definition parseCert :: "'k pki \<Rightarrow> string \<Rightarrow> error + xcert" where
  "parseCert K pem =
     (case pk_decode K pem of
        None \<Rightarrow> Inl (Err ''no PEM CERTIFICATE block found'')
      | Some ((ty, der), rest) \<Rightarrow> pk_ParseCertificate K der)"

definition parseKey :: "'k pki \<Rightarrow> string \<Rightarrow> error + 'k" where
  "parseKey K pem =
     (case pk_decode K pem of
        None \<Rightarrow> Inl (Err ''no PEM key block found'')
      | Some ((ty, der), rest) \<Rightarrow>
          (case pk_ParsePKCS8 K der of
             Inr k \<Rightarrow> if pk_signer K k then Inr k else Inl (Err ''PKCS8 key is not a signer'')
           | Inl _ \<Rightarrow>
               (case pk_ParseEC K der of
                  Inr k \<Rightarrow> Inr k
                | Inl _ \<Rightarrow>
                    (case pk_ParsePKCS1 K der of
                       Inr k \<Rightarrow> Inr k
                     | Inl _ \<Rightarrow> Inl (Err ''unsupported private key format (want PKCS8/EC/PKCS1)'')))))"

definition wrap_error :: "string \<Rightarrow> error \<Rightarrow> error" where
  "wrap_error what e = Err (what @ '': '' @ error_text e)"

text \<open>The product of the hours wraps as Go's 64-bit \<^verbatim>\<open>Duration\<close> does.\<close>

definition leaf_ttl :: "int \<Rightarrow> duration" where
  "leaf_ttl hours = (let ttl = wrap64 (hours * hour_ns) in if ttl \<le> 0 then 168 * hour_ns else ttl)"

text \<open>\<open>mkdir\<close> is the outcome of creating the directory of the disk cache.\<close>

definition NewIssuer ::
  "'k pki \<Rightarrow> (string \<Rightarrow> error + string) \<Rightarrow> (string \<Rightarrow> error option) \<Rightarrow> CertConfig \<Rightarrow> error + 'k Issuer" where
  "NewIssuer K rd mkdir cfg =
     (case rd (ct_IntermediateCert cfg) of
        Inl e \<Rightarrow> Inl (wrap_error ''read intermediate cert'' e)
      | Inr certPEM \<Rightarrow>
     (case rd (ct_IntermediateKey cfg) of
        Inl e \<Rightarrow> Inl (wrap_error ''read intermediate key'' e)
      | Inr keyPEM \<Rightarrow>
     (case parseCert K certPEM of
        Inl e \<Rightarrow> Inl (wrap_error ''parse intermediate cert'' e)
      | Inr interCert \<Rightarrow>
     if \<not> xc_IsCA interCert then Inl (Err ''intermediate cert is not a CA (basicConstraints CA:TRUE required)'')
     else
     (case parseKey K keyPEM of
        Inl e \<Rightarrow> Inl (wrap_error ''parse intermediate key'' e)
      | Inr interKey \<Rightarrow>
          (let fp = hex_encode (pk_sha256 K (xc_Raw interCert));
               iss = \<lparr>is_interCert = interCert, is_interKey = interKey, is_fp = fp,
                      is_keyType = (if ct_KeyType cfg = [] then ''ecdsa'' else ToLower (ct_KeyType cfg)),
                      is_ttl = leaf_ttl (ct_CacheTTLHours cfg),
                      is_cacheMax = (if ct_CacheMax cfg \<le> 0 then 2048 else nat (ct_CacheMax cfg)),
                      is_diskDir = [], is_cache = []\<rparr>
           in if ct_CacheDir cfg = [] then Inr iss
              else
                (let dir = Join2 (ct_CacheDir cfg) fp in
                 case mkdir dir of
                   Some e \<Rightarrow> Inl (wrap_error ''create cert cache dir'' e)
                 | None \<Rightarrow> Inr (iss\<lparr>is_diskDir := dir\<rparr>)))))))"

definition Fingerprint :: "'k Issuer \<Rightarrow> string" where
  "Fingerprint iss = is_fp iss"

definition iss_NotAfter :: "'k Issuer \<Rightarrow> time" where
  "iss_NotAfter iss = xc_NotAfter (is_interCert iss)"

subsection \<open>Host names\<close>

definition ldh_char :: "char \<Rightarrow> bool" where
  "ldh_char c \<longleftrightarrow> (let n = (of_char c :: nat) in
     97 \<le> n \<and> n \<le> 122 \<or> 65 \<le> n \<and> n \<le> 90 \<or> 48 \<le> n \<and> n \<le> 57 \<or> c = CHR ''-'' \<or> c = CHR ''_'')"

definition valid_label :: "string \<Rightarrow> bool" where
  "valid_label label \<longleftrightarrow> label \<noteq> [] \<and> length label \<le> 63 \<and> list_all ldh_char label"

definition validHostname :: "string \<Rightarrow> bool" where
  "validHostname h \<longleftrightarrow> h \<noteq> [] \<and> length h \<le> 253 \<and> list_all valid_label (split_on CHR ''.'' [] h)"

subsection \<open>The caches\<close>

definition evictLocked :: "nat \<Rightarrow> (string, 'k certEntry) gomap \<Rightarrow> (string, 'k certEntry) gomap" where
  "evictLocked cacheMax cache = lru_evict cn_used cacheMax cache"

definition iss_store :: "time \<Rightarrow> string \<Rightarrow> 'k tls_certificate \<Rightarrow> time \<Rightarrow> 'k Issuer \<Rightarrow> 'k Issuer" where
  "iss_store now sni cert exp iss =
     iss\<lparr>is_cache := evictLocked (is_cacheMax iss) (put sni \<lparr>cn_cert = cert, cn_expires = exp, cn_used = now\<rparr> (is_cache iss))\<rparr>"

definition diskPath :: "'k Issuer \<Rightarrow> string \<Rightarrow> string" where
  "diskPath iss sni = (if is_diskDir iss = [] then [] else Join2 (is_diskDir iss) (sni @ ''.pem''))"

text \<open>What one call reads from its surroundings: the clock at its start and when it stores, whether the
  cache file can be read, the generated key (RSA or ECDSA), the serial number, and what the write of the file does
  (\<open>None\<close>: it succeeds; \<open>Some None\<close>: it fails and leaves the file; \<open>Some (Some c)\<close>: it fails and
  leaves the text \<open>c\<close>).\<close>

record 'k leaf_call =
  lc_now :: time
  lc_stored :: time
  lc_read_err :: bool
  lc_key :: "bool \<Rightarrow> error + 'k"
  lc_serial :: "error + nat"
  lc_write :: "string option option"

text \<open>The blocks of a file. The loop ends when no block is found; \<open>None\<close> is a loop that does not end.\<close>

partial_function (option) pem_blocks ::
  "(string \<Rightarrow> ((string \<times> string) \<times> string) option) \<Rightarrow> string \<Rightarrow> (string \<times> string) list option" where
  "pem_blocks dec rest =
     (case dec rest of
        None \<Rightarrow> Some []
      | Some (blk, rest') \<Rightarrow> Option.bind (pem_blocks dec rest') (\<lambda>bs. Some (blk # bs)))"

definition chain_of :: "(string \<times> string) list \<Rightarrow> string list" where
  "chain_of bs = map snd (filter (\<lambda>(t, b). t = ''CERTIFICATE'') bs)"

definition key_of :: "'k pki \<Rightarrow> (string \<times> string) list \<Rightarrow> 'k option" where
  "key_of K bs =
     foldl (\<lambda>k (t, b). if t = ''PRIVATE KEY'' then (case pk_ParsePKCS8 K b of Inr k' \<Rightarrow> Some k' | Inl _ \<Rightarrow> k) else k) None bs"

definition read_leaf :: "'k pki \<Rightarrow> string \<Rightarrow> ('k tls_certificate \<times> time) option option" where
  "read_leaf K raw =
     Option.bind (pem_blocks (pk_decode K) raw) (\<lambda>bs.
       Some (case (chain_of bs, key_of K bs) of
           (der # chain, Some key) \<Rightarrow>
             (case pk_ParseCertificate K der of
                Inl _ \<Rightarrow> None
              | Inr leaf \<Rightarrow> Some (\<lparr>tc_Certificate = der # chain, tc_PrivateKey = key, tc_Leaf = leaf\<rparr>, xc_NotAfter leaf))
         | _ \<Rightarrow> None))"

definition loadDisk ::
  "'k pki \<Rightarrow> bool \<Rightarrow> 'k Issuer \<Rightarrow> (string, string) gomap \<Rightarrow> string \<Rightarrow> ('k tls_certificate \<times> time) option option" where
  "loadDisk K read_err iss fs sni =
     (let p = diskPath iss sni in
      if p = [] then Some None
      else (case lookup fs p of
              None \<Rightarrow> Some None
            | Some raw \<Rightarrow> if read_err then Some None else read_leaf K raw))"

definition saved_text :: "'k pki \<Rightarrow> 'k tls_certificate \<Rightarrow> string \<Rightarrow> string" where
  "saved_text K cert keyDER =
     concat (map (pk_encode K ''CERTIFICATE'') (tc_Certificate cert)) @ pk_encode K ''PRIVATE KEY'' keyDER"

definition saveDisk ::
  "'k pki \<Rightarrow> string option option \<Rightarrow> 'k Issuer \<Rightarrow> string \<Rightarrow> 'k tls_certificate \<Rightarrow> (string, string) gomap \<Rightarrow> (string, string) gomap" where
  "saveDisk K wr iss sni cert fs =
     (let p = diskPath iss sni in
      if p = [] then fs
      else (case pk_MarshalPKCS8 K (tc_PrivateKey cert) of
              Inl _ \<Rightarrow> fs
            | Inr keyDER \<Rightarrow>
                (case wr of
                   None \<Rightarrow> put p (saved_text K cert keyDER) fs
                 | Some None \<Rightarrow> fs
                 | Some (Some c) \<Rightarrow> put p c fs)))"

subsection \<open>Issuing\<close>

definition newLeafKey :: "'k leaf_call \<Rightarrow> 'k Issuer \<Rightarrow> error + 'k" where
  "newLeafKey c iss = lc_key c (is_keyType iss = ''rsa'')"

definition leaf_for :: "'k Issuer \<Rightarrow> string \<Rightarrow> time \<Rightarrow> nat \<Rightarrow> leaf_template" where
  "leaf_for iss sni now serial =
     \<lparr>lt_Serial = serial, lt_CommonName = sni, lt_DNSNames = [sni], lt_NotBefore = now - hour_ns,
      lt_NotAfter = (let notAfter = now + is_ttl iss in
        if xc_NotAfter (is_interCert iss) < notAfter then xc_NotAfter (is_interCert iss) else notAfter),
      lt_KeyUsage = [''digitalSignature'', ''keyEncipherment''], lt_ExtKeyUsage = [''serverAuth'']\<rparr>"

definition issue :: "'k pki \<Rightarrow> 'k leaf_call \<Rightarrow> 'k Issuer \<Rightarrow> string \<Rightarrow> error + 'k tls_certificate \<times> time" where
  "issue K c iss sni =
     (case newLeafKey c iss of
        Inl e \<Rightarrow> Inl e
      | Inr leafKey \<Rightarrow>
     (case lc_serial c of
        Inl e \<Rightarrow> Inl e
      | Inr serial \<Rightarrow>
          (let tmpl = leaf_for iss sni (lc_now c) serial in
           case pk_Create K tmpl (is_interCert iss) leafKey (is_interKey iss) of
             Inl e \<Rightarrow> Inl (wrap_error ''create leaf'' e)
           | Inr der \<Rightarrow>
               (case pk_ParseCertificate K der of
                  Inl e \<Rightarrow> Inl e
                | Inr leaf \<Rightarrow>
                    Inr (\<lparr>tc_Certificate = [der, xc_Raw (is_interCert iss)], tc_PrivateKey = leafKey, tc_Leaf = leaf\<rparr>,
                         lt_NotAfter tmpl)))))"

type_synonym 'k issuer_state = "'k Issuer \<times> (string, string) gomap"

text \<open>After a miss of the memory cache: \<open>disk\<close> is what the disk cache gives.\<close>

definition miss ::
  "'k pki \<Rightarrow> 'k leaf_call \<Rightarrow> string \<Rightarrow> 'k Issuer \<Rightarrow> (string, string) gomap \<Rightarrow> ('k tls_certificate \<times> time) option \<Rightarrow>
   ((error + 'k tls_certificate) \<times> 'k issuer_state) option" where
  "miss K c sni iss fs disk =
     (if (case disk of None \<Rightarrow> False | Some (cert, exp) \<Rightarrow> lc_now c < exp)
      then Some (Inr (fst (the disk)), iss_store (lc_stored c) sni (fst (the disk)) (snd (the disk)) iss, fs)
      else (case issue K c iss sni of
              Inl e \<Rightarrow> Some (Inl e, iss, fs)
            | Inr (cert, exp) \<Rightarrow> Some (Inr cert, iss_store (lc_stored c) sni cert exp iss, saveDisk K (lc_write c) iss sni cert fs)))"

definition certFor ::
  "'k pki \<Rightarrow> 'k leaf_call \<Rightarrow> string \<Rightarrow> 'k issuer_state \<Rightarrow> ((error + 'k tls_certificate) \<times> 'k issuer_state) option" where
  "certFor K c sni st =
     (case st of (iss, fs) \<Rightarrow>
      case lookup (is_cache iss) sni of
        Some e \<Rightarrow>
          if lc_now c < cn_expires e
          then Some (Inr (cn_cert e), iss\<lparr>is_cache := put sni (e\<lparr>cn_used := lc_now c\<rparr>) (is_cache iss)\<rparr>, fs)
          else Option.bind (loadDisk K (lc_read_err c) iss fs sni) (miss K c sni iss fs)
      | None \<Rightarrow> Option.bind (loadDisk K (lc_read_err c) iss fs sni) (miss K c sni iss fs))"

definition GetCertificate ::
  "'k pki \<Rightarrow> 'k leaf_call \<Rightarrow> string \<Rightarrow> 'k issuer_state \<Rightarrow> ((error + 'k tls_certificate) \<times> 'k issuer_state) option" where
  "GetCertificate K c serverName st =
     (let sni = ToLower (TrimSuffix serverName ''.'') in
      if sni = [] then Some (Inl (Err ''no SNI in ClientHello''), st)
      else if \<not> validHostname sni then Some (Inl (Err (''invalid SNI '' @ quote sni)), st)
      else certFor K c sni st)"

subsection \<open>Facts: names and paths\<close>

lemma split_on_chars: "x \<in> set s \<Longrightarrow> x = c \<or> (\<exists>l\<in>set (split_on c acc s). x \<in> set l)"
proof (induction s arbitrary: acc)
  case (Cons a s)
  have first: "a \<in> set (hd (split_on c (a # acc) s))"
    using split_on_acc[of c "a # acc" s] by (cases "split_on c [] s") auto
  show ?case
  proof (cases "a = c")
    case False
    show ?thesis
    proof (cases "x = a")
      case True
      then show ?thesis using first False by (auto intro!: bexI[OF _ hd_in_set])
    next
      case xs: False
      with Cons show ?thesis using False by auto
    qed
  next
    case True
    with Cons show ?thesis by auto
  qed
qed simp

lemma ldh_not_slash: "ldh_char c \<Longrightarrow> c \<noteq> CHR ''/''"
  by (auto simp: ldh_char_def)

lemma validHostname_no_slash: "validHostname h \<Longrightarrow> CHR ''/'' \<notin> set h"
proof
  assume v: "validHostname h" and "CHR ''/'' \<in> set h"
  then obtain l where "l \<in> set (split_on CHR ''.'' [] h)" "CHR ''/'' \<in> set l" using split_on_chars[of "CHR ''/''" h "CHR ''.''" "[]"] by auto
  with v have "ldh_char CHR ''/''" by (auto simp: validHostname_def valid_label_def list_all_iff)
  then show False using ldh_not_slash by blast
qed

lemma pem_name_plain: "validHostname h \<Longrightarrow> plain_comp (h @ ''.pem'')"
  using validHostname_no_slash[of h] by (auto simp: plain_comp_def append_eq_Cons_conv)

lemma kept_one: "dir \<noteq> [] \<Longrightarrow> plain_comp c \<Longrightarrow> path_kept (dir @ ''/'' @ c) = path_kept dir @ [c]"
  using path_comps_append[of "[]" dir c] push_plain[of "[c]"]
  by (simp add: path_kept_def path_rooted_append path_comps_noslash plain_comp_def clean_stack_append)

lemma Join2_plain: "dir \<noteq> [] \<Longrightarrow> plain_comp c \<Longrightarrow>
    Join2 dir c = (if path_rooted dir then ''/'' else []) @ Join (path_kept dir @ [c]) ''/''"
  using kept_one[of dir c] path_rooted_append[of dir "''/'' @ c"] by (simp add: Join2_def Clean_def)

lemma kept_no_slash: "c \<in> set (path_kept p) \<Longrightarrow> CHR ''/'' \<notin> set c"
proof -
  assume c: "c \<in> set (path_kept p)"
  have stack: "\<forall>c\<in>set (clean_stack r cs st). CHR ''/'' \<notin> set c" if "\<forall>c\<in>set cs. CHR ''/'' \<notin> set c" "\<forall>c\<in>set st. CHR ''/'' \<notin> set c" for r cs st
    using that
  proof (induction cs arbitrary: st)
    case (Cons c cs)
    have "\<forall>x\<in>set (clean_step r c st). CHR ''/'' \<notin> set x"
      using Cons.prems by (cases st) (auto simp: clean_step_def)
    with Cons show ?case by (simp add: clean_stack_def)
  qed (simp add: clean_stack_def)
  have "\<forall>c\<in>set (path_comps [] p). CHR ''/'' \<notin> set c" using path_comps_no_sep[of _ "[]" p] by simp
  from stack[OF this, of "[]"] c show ?thesis unfolding path_kept_def by simp
qed

lemma Join_comps: "\<forall>c\<in>set p. CHR ''/'' \<notin> set c \<Longrightarrow> \<forall>c\<in>set q. CHR ''/'' \<notin> set c \<Longrightarrow> p \<noteq> [] \<Longrightarrow> q \<noteq> [] \<Longrightarrow>
    Join p ''/'' = Join q ''/'' \<longleftrightarrow> p = q"
  by (metis path_comps_Join)

text \<open>Files of different names, and of different directories, are different.\<close>

lemma Join2_inj: "dir \<noteq> [] \<Longrightarrow> plain_comp a \<Longrightarrow> plain_comp b \<Longrightarrow> Join2 dir a = Join2 dir b \<longleftrightarrow> a = b"
  using kept_no_slash[of _ dir] by (auto simp: Join2_plain Join_comps plain_comp_def)

lemma diskPath_inj: "is_diskDir iss \<noteq> [] \<Longrightarrow> validHostname a \<Longrightarrow> validHostname b \<Longrightarrow> diskPath iss a = diskPath iss b \<longleftrightarrow> a = b"
  by (simp add: diskPath_def Join2_inj pem_name_plain)

lemma Join2_nonempty: "dir \<noteq> [] \<Longrightarrow> plain_comp c \<Longrightarrow> Join2 dir c \<noteq> []"
proof
  assume a: "dir \<noteq> []" "plain_comp c" "Join2 dir c = []"
  then have "Join (path_kept dir @ [c]) ''/'' = []" by (simp add: Join2_plain)
  moreover have "path_comps [] (Join (path_kept dir @ [c]) ''/'') = path_kept dir @ [c]"
    using kept_no_slash[of _ dir] a(2) by (intro path_comps_Join) (auto simp: plain_comp_def)
  ultimately show False using a(2) by (auto simp: plain_comp_def append_eq_Cons_conv)
qed

subsection \<open>Facts: what is cached\<close>

text \<open>The documented behaviour of the libraries the code relies on: a certificate that was created parses
  and has the names and, to the second, the end of its template; PEM blocks are read back as they were
  written, and each takes some of the text; a key is read back as it was written.\<close>

definition pki_ok :: "'k pki \<Rightarrow> bool" where
  "pki_ok K \<longleftrightarrow>
     (\<forall>t parent pub key der. pk_Create K t parent pub key = Inr der \<longrightarrow>
        (\<exists>leaf. pk_ParseCertificate K der = Inr leaf \<and> xc_DNSNames leaf = lt_DNSNames t \<and>
           xc_NotAfter leaf \<le> lt_NotAfter t \<and> lt_NotAfter t < xc_NotAfter leaf + second_ns)) \<and>
     (\<forall>t b rest. pk_decode K (pk_encode K t b @ rest) = Some ((t, b), rest)) \<and> pk_decode K [] = None \<and>
     (\<forall>raw blk rest. pk_decode K raw = Some (blk, rest) \<longrightarrow> length rest < length raw) \<and>
     (\<forall>k der. pk_MarshalPKCS8 K k = Inr der \<longrightarrow> pk_ParsePKCS8 K der = Inr k)"

text \<open>A chain of a leaf for exactly one name, which does not outlive the intermediate, and the
  intermediate.\<close>

definition good_leaf :: "'k pki \<Rightarrow> 'k Issuer \<Rightarrow> string \<Rightarrow> 'k tls_certificate \<Rightarrow> bool" where
  "good_leaf K iss sni cert \<longleftrightarrow>
     (\<exists>der. tc_Certificate cert = [der, xc_Raw (is_interCert iss)] \<and> pk_ParseCertificate K der = Inr (tc_Leaf cert)) \<and>
     xc_DNSNames (tc_Leaf cert) = [sni] \<and> xc_NotAfter (tc_Leaf cert) \<le> xc_NotAfter (is_interCert iss)"

definition good_file :: "'k pki \<Rightarrow> 'k Issuer \<Rightarrow> string \<Rightarrow> string \<Rightarrow> bool" where
  "good_file K iss sni raw \<longleftrightarrow>
     (\<forall>cert exp. read_leaf K raw = Some (Some (cert, exp)) \<longrightarrow> good_leaf K iss sni cert)"

definition disk_ok :: "'k pki \<Rightarrow> 'k Issuer \<Rightarrow> (string, string) gomap \<Rightarrow> bool" where
  "disk_ok K iss fs \<longleftrightarrow>
     (is_diskDir iss \<noteq> [] \<longrightarrow> (\<forall>sni raw. validHostname sni \<longrightarrow> lookup fs (diskPath iss sni) = Some raw \<longrightarrow> good_file K iss sni raw))"

definition good_entry :: "'k pki \<Rightarrow> 'k Issuer \<Rightarrow> string \<Rightarrow> 'k certEntry \<Rightarrow> bool" where
  "good_entry K iss sni e \<longleftrightarrow> validHostname sni \<and> good_leaf K iss sni (cn_cert e) \<and>
     cn_expires e < xc_NotAfter (tc_Leaf (cn_cert e)) + second_ns"

definition issuer_ok :: "'k pki \<Rightarrow> 'k Issuer \<Rightarrow> bool" where
  "issuer_ok K iss \<longleftrightarrow> wf_map (is_cache iss) \<and> 0 < is_cacheMax iss \<and> length (is_cache iss) \<le> is_cacheMax iss \<and>
     0 < is_ttl iss \<and> (\<forall>sni e. lookup (is_cache iss) sni = Some e \<longrightarrow> good_entry K iss sni e)"

lemma same_inter:
  "is_interCert iss' = is_interCert iss \<Longrightarrow> good_leaf K iss' = good_leaf K iss \<and> good_entry K iss' = good_entry K iss \<and> good_file K iss' = good_file K iss"
  by (auto simp: fun_eq_iff good_leaf_def good_entry_def good_file_def)

lemma NewIssuer_facts:
  assumes "NewIssuer K rd mkdir cfg = Inr iss"
  shows "is_cache iss = []" "0 < is_cacheMax iss" "0 < is_ttl iss" "xc_IsCA (is_interCert iss)"
    "is_fp iss = hex_encode (pk_sha256 K (xc_Raw (is_interCert iss)))"
    "is_diskDir iss = (if ct_CacheDir cfg = [] then [] else Join2 (ct_CacheDir cfg) (is_fp iss))"
  using assms by (auto simp: NewIssuer_def Let_def leaf_ttl_def ns_defs split: sum.splits if_splits option.splits)

lemma NewIssuer_ok: "NewIssuer K rd mkdir cfg = Inr iss \<Longrightarrow> issuer_ok K iss"
  using NewIssuer_facts[of K rd mkdir cfg iss] by (simp add: issuer_ok_def)

text \<open>Reading the blocks ends, whatever the file holds.\<close>

lemma pem_blocks_ends: "pki_ok K \<Longrightarrow> \<exists>bs. pem_blocks (pk_decode K) raw = Some bs"
proof (induction raw rule: length_induct)
  case (1 raw)
  show ?case
  proof (cases "pk_decode K raw")
    case None
    then show ?thesis by (subst pem_blocks.simps) simp
  next
    case (Some br)
    obtain blk rest where br: "br = (blk, rest)" by fastforce
    have "length rest < length raw" using 1(2) Some unfolding br pki_ok_def by blast
    with 1 obtain bs where "pem_blocks (pk_decode K) rest = Some bs" by blast
    then show ?thesis using Some br by (subst pem_blocks.simps) simp
  qed
qed

lemma read_leaf_ends: "pki_ok K \<Longrightarrow> \<exists>r. read_leaf K raw = Some r"
  using pem_blocks_ends[of K raw] by (auto simp: read_leaf_def)

lemma loadDisk_ends: "pki_ok K \<Longrightarrow> \<exists>r. loadDisk K re iss fs sni = Some r"
  using read_leaf_ends[of K] by (auto simp: loadDisk_def Let_def split: option.splits)

lemma pem_blocks_saved:
  "pki_ok K \<Longrightarrow> pem_blocks (pk_decode K) (concat (map (pk_encode K t) ders) @ rest) =
     map_option (\<lambda>bs. map (Pair t) ders @ bs) (pem_blocks (pk_decode K) rest)"
proof (induction ders)
  case Nil
  then show ?case by (simp add: map_option.identity option.map_ident)
next
  case (Cons der ders)
  then have d: "pk_decode K (pk_encode K t der @ x) = Some ((t, der), x)" for x by (simp add: pki_ok_def)
  from Cons show ?case
    by (subst pem_blocks.simps) (simp add: d, cases "pem_blocks (pk_decode K) rest", simp_all)
qed

text \<open>A leaf that was saved is read back, with its chain and key.\<close>

lemma read_saved:
  assumes "pki_ok K" "tc_Certificate cert = [der, ca]" "pk_ParseCertificate K der = Inr (tc_Leaf cert)"
    "pk_MarshalPKCS8 K (tc_PrivateKey cert) = Inr kd"
  shows "read_leaf K (saved_text K cert kd) = Some (Some (cert, xc_NotAfter (tc_Leaf cert)))"
proof -
  have key: "pk_decode K (pk_encode K ''PRIVATE KEY'' kd) = Some ((''PRIVATE KEY'', kd), [])" "pk_decode K [] = None"
    using assms(1) by (simp_all add: pki_ok_def) (metis append_Nil2)
  have nil: "pem_blocks (pk_decode K) [] = Some []" using key(2) by (subst pem_blocks.simps) simp
  have last: "pem_blocks (pk_decode K) (pk_encode K ''PRIVATE KEY'' kd) = Some [(''PRIVATE KEY'', kd)]"
    using key(1) nil by (subst pem_blocks.simps) simp
  have "pem_blocks (pk_decode K) (saved_text K cert kd) = Some [(''CERTIFICATE'', der), (''CERTIFICATE'', ca), (''PRIVATE KEY'', kd)]"
    unfolding saved_text_def pem_blocks_saved[OF assms(1)] last assms(2) by simp
  moreover have "pk_ParsePKCS8 K kd = Inr (tc_PrivateKey cert)" using assms(1,4) by (simp add: pki_ok_def)
  ultimately show ?thesis using assms(2,3) by (simp add: read_leaf_def chain_of_def key_of_def)
qed

lemma issue_good:
  assumes "pki_ok K" "issue K c iss sni = Inr (cert, exp)"
  shows "good_leaf K iss sni cert" "exp < xc_NotAfter (tc_Leaf cert) + second_ns"
    "exp = min (lc_now c + is_ttl iss) (xc_NotAfter (is_interCert iss))"
proof -
  from assms(2) obtain k n der leaf where i: "newLeafKey c iss = Inr k" "lc_serial c = Inr n"
      "pk_Create K (leaf_for iss sni (lc_now c) n) (is_interCert iss) k (is_interKey iss) = Inr der"
      "pk_ParseCertificate K der = Inr leaf"
      "cert = \<lparr>tc_Certificate = [der, xc_Raw (is_interCert iss)], tc_PrivateKey = k, tc_Leaf = leaf\<rparr>"
      "exp = lt_NotAfter (leaf_for iss sni (lc_now c) n)"
    by (auto simp: issue_def Let_def split: sum.splits)
  from assms(1) i(3,4) have l: "xc_DNSNames leaf = lt_DNSNames (leaf_for iss sni (lc_now c) n)" "xc_NotAfter leaf \<le> exp" "exp < xc_NotAfter leaf + second_ns"
    unfolding pki_ok_def i(6) by fastforce+
  show "exp = min (lc_now c + is_ttl iss) (xc_NotAfter (is_interCert iss))"
    by (simp add: i(6) leaf_for_def Let_def min_def)
  with l i show "good_leaf K iss sni cert" "exp < xc_NotAfter (tc_Leaf cert) + second_ns"
    by (auto simp: good_leaf_def leaf_for_def)
qed

text \<open>What a call may leave in a cache file when its write fails: a text from which no leaf is read.\<close>

definition torn_ok :: "'k pki \<Rightarrow> 'k leaf_call \<Rightarrow> bool" where
  "torn_ok K c \<longleftrightarrow> (\<forall>t. lc_write c = Some (Some t) \<longrightarrow> read_leaf K t = Some None)"

lemma store_facts:
  "is_interCert (iss_store now sni cert exp iss) = is_interCert iss" "is_cacheMax (iss_store now sni cert exp iss) = is_cacheMax iss"
  "is_ttl (iss_store now sni cert exp iss) = is_ttl iss" "is_diskDir (iss_store now sni cert exp iss) = is_diskDir iss"
  "is_interKey (iss_store now sni cert exp iss) = is_interKey iss" "is_fp (iss_store now sni cert exp iss) = is_fp iss"
  by (simp_all add: iss_store_def)

lemma store_issuer_ok:
  assumes "issuer_ok K iss" "good_entry K iss sni \<lparr>cn_cert = cert, cn_expires = exp, cn_used = now\<rparr>"
  shows "issuer_ok K (iss_store now sni cert exp iss)"
proof -
  let ?m = "put sni \<lparr>cn_cert = cert, cn_expires = exp, cn_used = now\<rparr> (is_cache iss)"
  have wf: "wf_map ?m" using assms(1) by (simp add: issuer_ok_def)
  have "good_entry K iss k e" if "lookup (evictLocked (is_cacheMax iss) ?m) k = Some e" for k e
    using lru_evict_sub[OF wf that[unfolded evictLocked_def]] assms by (auto simp: issuer_ok_def split: if_splits)
  moreover have g: "good_entry K (iss_store now sni cert exp iss) = good_entry K iss" using same_inter store_facts(1) by blast
  moreover have c: "is_cache (iss_store now sni cert exp iss) = evictLocked (is_cacheMax iss) ?m" by (simp add: iss_store_def)
  ultimately show ?thesis
    using assms(1) lru_evict_wf[OF wf] unfolding issuer_ok_def g c store_facts by (simp add: evictLocked_def lru_evict_size)
qed

lemma touch_issuer_ok:
  assumes "issuer_ok K iss" "lookup (is_cache iss) sni = Some e"
  shows "issuer_ok K (iss\<lparr>is_cache := put sni (e\<lparr>cn_used := t\<rparr>) (is_cache iss)\<rparr>)"
proof -
  have "good_entry K (iss\<lparr>is_cache := put sni (e\<lparr>cn_used := t\<rparr>) (is_cache iss)\<rparr>) = good_entry K iss"
    using same_inter[of "iss\<lparr>is_cache := put sni (e\<lparr>cn_used := t\<rparr>) (is_cache iss)\<rparr>" iss K] by simp
  moreover have "good_entry K iss sni (e\<lparr>cn_used := t\<rparr>)" using assms by (simp add: issuer_ok_def good_entry_def)
  ultimately show ?thesis using assms by (simp add: issuer_ok_def length_put)
qed

lemma save_disk_ok:
  assumes "pki_ok K" "disk_ok K iss fs" "validHostname sni" "good_leaf K iss sni cert" "torn_ok K c"
  shows "disk_ok K iss (saveDisk K (lc_write c) iss sni cert fs)"
proof (cases "saveDisk K (lc_write c) iss sni cert fs = fs")
  case False
  then obtain kd where kd: "pk_MarshalPKCS8 K (tc_PrivateKey cert) = Inr kd" "is_diskDir iss \<noteq> []"
    by (auto simp: saveDisk_def diskPath_def Let_def split: sum.splits if_splits)
  from False kd obtain raw where s: "saveDisk K (lc_write c) iss sni cert fs = put (diskPath iss sni) raw fs"
      "lc_write c = None \<and> raw = saved_text K cert kd \<or> lc_write c = Some (Some raw)"
    by (auto simp: saveDisk_def Let_def split: option.splits if_splits)
  from assms(4) obtain der where der: "tc_Certificate cert = [der, xc_Raw (is_interCert iss)]" "pk_ParseCertificate K der = Inr (tc_Leaf cert)"
    by (auto simp: good_leaf_def)
  have "good_file K iss sni raw"
    using s(2) read_saved[OF assms(1) der kd(1)] assms(4,5) by (auto simp: good_file_def torn_ok_def)
  with assms(2,3) kd(2) show ?thesis
    unfolding s(1) disk_ok_def by (auto simp: diskPath_inj split: if_splits)
qed (use assms in simp)

lemma disk_ok_same: "is_interCert iss' = is_interCert iss \<Longrightarrow> is_diskDir iss' = is_diskDir iss \<Longrightarrow> disk_ok K iss' fs = disk_ok K iss fs"
  using same_inter[of iss' iss K] by (simp add: disk_ok_def diskPath_def)

lemma disk_ok_simps:
  "disk_ok K (iss_store now sni cert exp iss) fs = disk_ok K iss fs" "disk_ok K (iss\<lparr>is_cache := m\<rparr>) fs = disk_ok K iss fs"
  by (rule disk_ok_same; simp add: iss_store_def)+

lemma load_good:
  assumes "disk_ok K iss fs" "validHostname sni" "loadDisk K re iss fs sni = Some (Some (cert, exp))"
  shows "good_leaf K iss sni cert" "exp = xc_NotAfter (tc_Leaf cert)"
proof -
  from assms(3) obtain raw where r: "is_diskDir iss \<noteq> []" "lookup fs (diskPath iss sni) = Some raw" "read_leaf K raw = Some (Some (cert, exp))"
    by (auto simp: loadDisk_def diskPath_def Let_def split: option.splits if_splits)
  with assms(1,2) show "good_leaf K iss sni cert" by (auto simp: disk_ok_def good_file_def)
  from r(3) obtain bs where bs: "(case (chain_of bs, key_of K bs) of
           (der # chain, Some key) \<Rightarrow>
             (case pk_ParseCertificate K der of
                Inl _ \<Rightarrow> None
              | Inr leaf \<Rightarrow> Some (\<lparr>tc_Certificate = der # chain, tc_PrivateKey = key, tc_Leaf = leaf\<rparr>, xc_NotAfter leaf))
         | _ \<Rightarrow> None) = Some (cert, exp)"
    by (auto simp: read_leaf_def Option.bind_eq_Some_conv)
  then obtain der chain key where "chain_of bs = der # chain" "key_of K bs = Some key"
    by (cases "chain_of bs"; cases "key_of K bs") auto
  with bs show "exp = xc_NotAfter (tc_Leaf cert)" by (cases "pk_ParseCertificate K der") auto
qed

interpretation leaves: capped_table "\<lambda>iss. length (is_cache iss)" is_cacheMax "\<lambda>iss. wf_map (is_cache iss)"
  "\<lambda>(now, sni, cert, exp). iss_store now sni cert exp"
  by unfold_locales (auto simp: iss_store_def evictLocked_def lru_evict_wf lru_evict_size)

text \<open>One call: it returns, keeps the invariant, and a certificate it gives is good and, unless the
  intermediate itself has expired, was valid when it was asked for.\<close>

definition leaf_answer_ok :: "'k pki \<Rightarrow> 'k leaf_call \<Rightarrow> 'k Issuer \<Rightarrow> string \<Rightarrow> error + 'k tls_certificate \<Rightarrow> bool" where
  "leaf_answer_ok K c iss sni r \<longleftrightarrow>
     (\<forall>cert. r = Inr cert \<longrightarrow> good_leaf K iss sni cert \<and>
        (lc_now c < xc_NotAfter (tc_Leaf cert) + second_ns \<or> xc_NotAfter (is_interCert iss) \<le> lc_now c))"

definition leaf_step_ok :: "'k pki \<Rightarrow> 'k leaf_call \<Rightarrow> string \<Rightarrow> 'k issuer_state \<Rightarrow> (error + 'k tls_certificate) \<times> 'k issuer_state \<Rightarrow> bool" where
  "leaf_step_ok K c sni st x \<longleftrightarrow>
     (case x of (r, iss', fs') \<Rightarrow> leaf_answer_ok K c (fst st) sni r \<and> issuer_ok K iss' \<and> disk_ok K iss' fs' \<and>
        is_interCert iss' = is_interCert (fst st) \<and> is_interKey iss' = is_interKey (fst st) \<and> is_fp iss' = is_fp (fst st) \<and>
        is_cacheMax iss' = is_cacheMax (fst st) \<and> is_ttl iss' = is_ttl (fst st) \<and> is_diskDir iss' = is_diskDir (fst st))"

lemma miss_ok:
  assumes "pki_ok K" "issuer_ok K iss" "disk_ok K iss fs" "validHostname sni" "torn_ok K c"
    "loadDisk K re iss fs sni = Some disk"
  shows "\<exists>x. miss K c sni iss fs disk = Some x \<and> leaf_step_ok K c sni (iss, fs) x"
proof (cases "case disk of None \<Rightarrow> False | Some (cert, exp) \<Rightarrow> lc_now c < exp")
  case True
  then obtain cert exp where d: "disk = Some (cert, exp)" "lc_now c < exp" by (auto split: option.splits)
  note g = load_good[OF assms(3,4) assms(6)[unfolded d(1)]]
  have "good_entry K iss sni \<lparr>cn_cert = cert, cn_expires = exp, cn_used = lc_stored c\<rparr>"
    using g assms(4) by (simp add: good_entry_def second_ns_def)
  from store_issuer_ok[OF assms(2) this] d g assms(3) show ?thesis
    by (simp add: miss_def leaf_step_ok_def leaf_answer_ok_def store_facts disk_ok_simps second_ns_def)
next
  case False
  show ?thesis
  proof (cases "issue K c iss sni")
    case (Inl e)
    with False assms(2,3) show ?thesis by (auto simp: miss_def leaf_step_ok_def leaf_answer_ok_def)
  next
    case (Inr ce)
    then obtain cert exp where i: "issue K c iss sni = Inr (cert, exp)" by (cases ce) auto
    note g = issue_good[OF assms(1) i]
    have e: "good_entry K iss sni \<lparr>cn_cert = cert, cn_expires = exp, cn_used = lc_stored c\<rparr>"
      using g assms(4) by (simp add: good_entry_def)
    have "0 < is_ttl iss" using assms(2) by (simp add: issuer_ok_def)
    then have t: "lc_now c < exp \<or> xc_NotAfter (is_interCert iss) \<le> lc_now c" using g(3) by linarith
    have "miss K c sni iss fs disk = Some (Inr cert, iss_store (lc_stored c) sni cert exp iss, saveDisk K (lc_write c) iss sni cert fs)"
      using False i by (simp add: miss_def)
    then show ?thesis
      using store_issuer_ok[OF assms(2) e] save_disk_ok[OF assms(1,3,4) g(1) assms(5)] g t
      by (auto simp: leaf_step_ok_def leaf_answer_ok_def store_facts disk_ok_simps)
  qed
qed

lemma certFor_ok:
  assumes "pki_ok K" "issuer_ok K iss" "disk_ok K iss fs" "validHostname sni" "torn_ok K c"
  shows "\<exists>x. certFor K c sni (iss, fs) = Some x \<and> leaf_step_ok K c sni (iss, fs) x"
proof -
  obtain disk where d: "loadDisk K (lc_read_err c) iss fs sni = Some disk" using loadDisk_ends[OF assms(1)] by blast
  note m = miss_ok[OF assms d]
  show ?thesis
  proof (cases "lookup (is_cache iss) sni")
    case None
    with m d show ?thesis by (simp add: certFor_def)
  next
    case (Some e)
    show ?thesis
    proof (cases "lc_now c < cn_expires e")
      case True
      have "good_entry K iss sni e" using assms(2) Some by (simp add: issuer_ok_def)
      with True Some touch_issuer_ok[OF assms(2) Some] assms(3) show ?thesis
        by (auto simp: certFor_def leaf_step_ok_def leaf_answer_ok_def good_entry_def disk_ok_simps)
    qed (use m d Some in \<open>simp add: certFor_def\<close>)
  qed
qed

subsection \<open>Runs and properties\<close>

text \<open>The states of an issuer: it is loaded next to a disk cache in which every file that gives a leaf gives
  a good one (an empty directory, or what earlier runs left), and serves one call after the other.\<close>

inductive issuer_reaches :: "'k pki \<Rightarrow> 'k issuer_state \<Rightarrow> bool" for K where
  loaded: "NewIssuer K rd mkdir cfg = Inr iss \<Longrightarrow> disk_ok K iss fs \<Longrightarrow> issuer_reaches K (iss, fs)"
| served: "issuer_reaches K st \<Longrightarrow> torn_ok K c \<Longrightarrow> GetCertificate K c name st = Some (r, st') \<Longrightarrow> issuer_reaches K st'"

definition asked :: "string \<Rightarrow> string" where
  "asked name = ToLower (TrimSuffix name ''.'')"

lemma GetCertificate_ok:
  assumes "pki_ok K" "issuer_ok K iss" "disk_ok K iss fs" "torn_ok K c"
  shows "\<exists>x. GetCertificate K c name (iss, fs) = Some x \<and> leaf_step_ok K c (asked name) (iss, fs) x \<and>
    ((\<exists>cert. fst x = Inr cert) \<longrightarrow> validHostname (asked name)) \<and> (\<not> validHostname (asked name) \<longrightarrow> snd x = (iss, fs))"
proof (cases "asked name \<noteq> [] \<and> validHostname (asked name)")
  case True
  with certFor_ok[OF assms(1-3) _ assms(4), of "asked name"] show ?thesis
    by (auto simp: GetCertificate_def asked_def Let_def)
next
  case False
  with assms(2,3) show ?thesis
    by (auto simp: GetCertificate_def asked_def Let_def leaf_step_ok_def leaf_answer_ok_def validHostname_def)
qed

lemma issuer_reaches_ok:
  assumes "issuer_reaches K st" "pki_ok K"
  shows "issuer_ok K (fst st) \<and> disk_ok K (fst st) (snd st)"
  using assms
proof (induction rule: issuer_reaches.induct)
  case (loaded rd mkdir cfg iss fs)
  then show ?case by (simp add: NewIssuer_ok)
next
  case (served st c name r st')
  obtain iss fs where st: "st = (iss, fs)" by fastforce
  from GetCertificate_ok[of K iss fs c name] served st show ?case by (auto simp: leaf_step_ok_def)
qed


text \<open>C36: A leaf survives a restart: a new issuer of the same intermediate and directory presents, from the
  file, the chain and key that were saved, without a new key or signature, as long as the leaf has not
  ended.\<close>

theorem leaf_survives_restart:
  assumes "pki_ok K" "good_leaf K iss sni cert" "validHostname sni" "sni = asked name" "is_diskDir iss \<noteq> []"
    and "pk_MarshalPKCS8 K (tc_PrivateKey cert) = Inr kd" "is_cache iss' = []" "is_diskDir iss' = is_diskDir iss"
    and "lc_now c < xc_NotAfter (tc_Leaf cert)" "\<not> lc_read_err c"
  shows "\<exists>st. GetCertificate K c name (iss', saveDisk K None iss sni cert fs) = Some (Inr cert, st)"
proof -
  from assms(2) obtain der where der: "tc_Certificate cert = [der, xc_Raw (is_interCert iss)]" "pk_ParseCertificate K der = Inr (tc_Leaf cert)"
    by (auto simp: good_leaf_def)
  have "diskPath iss sni \<noteq> []" using assms(3,5) by (simp add: diskPath_def Join2_nonempty pem_name_plain)
  then have "loadDisk K (lc_read_err c) iss' (saveDisk K None iss sni cert fs) sni = Some (Some (cert, xc_NotAfter (tc_Leaf cert)))"
    using read_saved[OF assms(1) der assms(6)] assms(5,6,8,10) by (simp add: loadDisk_def saveDisk_def diskPath_def Let_def)
  moreover have "asked name \<noteq> []" using assms(3,4) by (auto simp: validHostname_def)
  ultimately show ?thesis
    using assms(3,4,7,9) by (simp add: GetCertificate_def asked_def[symmetric] Let_def certFor_def miss_def)
qed

text \<open>A sample of the libraries: a block is the lengths in unary and the texts; there is one leaf.\<close>

definition ex_encode :: "string \<Rightarrow> string \<Rightarrow> string" where
  "ex_encode t b = replicate (length t) CHR ''x'' @ ''y'' @ t @ replicate (length b) CHR ''x'' @ ''y'' @ b"

definition ex_decode :: "string \<Rightarrow> ((string \<times> string) \<times> string) option" where
  "ex_decode s =
     (let n = length (takeWhile (\<lambda>c. c = CHR ''x'') s); s1 = drop (Suc n) s; s2 = drop n s1;
          m = length (takeWhile (\<lambda>c. c = CHR ''x'') s2); s3 = drop (Suc m) s2
      in if s = [] then None else Some ((take n s1, take m s3), drop m s3))"

definition ex_ca :: xcert where
  "ex_ca = \<lparr>xc_Raw = ''CA'', xc_IsCA = True, xc_NotBefore = 0, xc_NotAfter = 100, xc_DNSNames = [], xc_CommonName = ''ca''\<rparr>"

definition ex_leaf :: xcert where
  "ex_leaf = \<lparr>xc_Raw = ''LEAF'', xc_IsCA = False, xc_NotBefore = 0, xc_NotAfter = 100, xc_DNSNames = [''a.b''], xc_CommonName = ''a.b''\<rparr>"

definition ex_pki :: "string pki" where
  "ex_pki = \<lparr>pk_decode = ex_decode, pk_encode = ex_encode,
     pk_ParseCertificate = (\<lambda>der. if der = ''CA'' then Inr ex_ca else if der = ''LEAF'' then Inr ex_leaf else Inl (Err ''bad'')),
     pk_ParsePKCS8 = Inr, pk_signer = (\<lambda>_. True), pk_ParseEC = (\<lambda>_. Inl (Err ''bad'')), pk_ParsePKCS1 = (\<lambda>_. Inl (Err ''bad'')),
     pk_MarshalPKCS8 = Inr,
     pk_Create = (\<lambda>t parent pub key. if lt_DNSNames t = [''a.b''] \<and> lt_NotAfter t = 100 then Inr ''LEAF'' else Inl (Err ''bad'')),
     pk_sha256 = (\<lambda>_. ''0'')\<rparr>"

lemma take_xs: "takeWhile (\<lambda>c. c = CHR ''x'') (replicate n CHR ''x'' @ CHR ''y'' # s) = replicate n CHR ''x''"
  by (induction n) auto

lemma ex_decode_encode: "ex_decode (ex_encode t b @ rest) = Some ((t, b), rest)"
  by (simp add: ex_decode_def ex_encode_def take_xs Let_def)

lemma ex_pki_ok: "pki_ok ex_pki"
proof -
  have "length rest < length raw" if "ex_decode raw = Some (blk, rest)" for raw blk rest
    using that by (cases raw) (auto simp: ex_decode_def Let_def split: if_splits)
  moreover have "ex_decode [] = None" by (simp add: ex_decode_def)
  ultimately show ?thesis
    unfolding pki_ok_def by (auto simp: ex_pki_def ex_decode_encode ex_leaf_def second_ns_def split: if_splits)
qed

definition ex_cert_cfg :: CertConfig where
  "ex_cert_cfg = \<lparr>ct_IntermediateCert = ''ca.pem'', ct_IntermediateKey = ''ca.key'', ct_KeyType = [], ct_CacheMax = 0,
     ct_CacheTTLHours = 1, ct_CacheDir = ''/c''\<rparr>"

definition ex_issuer :: "string Issuer" where
  "ex_issuer = projr (NewIssuer ex_pki (\<lambda>p. Inr (ex_encode ''T'' (if p = ''ca.pem'' then ''CA'' else ''KEY''))) (\<lambda>_. None) ex_cert_cfg)"

definition ex_leaf_call :: "string leaf_call" where
  "ex_leaf_call = \<lparr>lc_now = 50, lc_stored = 51, lc_read_err = False, lc_key = (\<lambda>_. Inr ''K''), lc_serial = Inr 7, lc_write = None\<rparr>"

lemma ex_issuer_new:
  "NewIssuer ex_pki (\<lambda>p. Inr (ex_encode ''T'' (if p = ''ca.pem'' then ''CA'' else ''KEY''))) (\<lambda>_. None) ex_cert_cfg = Inr ex_issuer"
proof -
  have "case NewIssuer ex_pki (\<lambda>p. Inr (ex_encode ''T'' (if p = ''ca.pem'' then ''CA'' else ''KEY''))) (\<lambda>_. None) ex_cert_cfg of Inr _ \<Rightarrow> True | Inl _ \<Rightarrow> False"
    by code_simp
  then show ?thesis by (auto simp: ex_issuer_def split: sum.splits)
qed

lemma ex_torn: "torn_ok ex_pki ex_leaf_call" by (simp add: torn_ok_def ex_leaf_call_def)


theorem leaf_survives_restart_witness:
  "\<exists>st. GetCertificate ex_pki ex_leaf_call ''a.b''
     (ex_issuer, saveDisk ex_pki None ex_issuer ''a.b'' \<lparr>tc_Certificate = [''LEAF'', ''CA''], tc_PrivateKey = ''K'', tc_Leaf = ex_leaf\<rparr> []) =
     Some (Inr \<lparr>tc_Certificate = [''LEAF'', ''CA''], tc_PrivateKey = ''K'', tc_Leaf = ex_leaf\<rparr>, st)"
proof -
  note n = NewIssuer_facts[OF ex_issuer_new]
  have i: "is_interCert ex_issuer = ex_ca" "is_diskDir ex_issuer \<noteq> []" by code_simp+
  have v: "validHostname ''a.b''" "''a.b'' = asked ''a.b''" by code_simp+
  have g: "good_leaf ex_pki ex_issuer ''a.b'' \<lparr>tc_Certificate = [''LEAF'', ''CA''], tc_PrivateKey = ''K'', tc_Leaf = ex_leaf\<rparr>"
    by (simp add: good_leaf_def i ex_pki_def ex_leaf_def ex_ca_def)
  show ?thesis
    by (rule leaf_survives_restart[OF ex_pki_ok g v(1,2) i(2) _ n(1)])
      (simp_all add: ex_pki_def ex_leaf_call_def ex_leaf_def)
qed

end
