(* ===== verification/Sessions.thy ===== *)
theory Sessions
  imports Interfaces
begin

text \<open>
  Server-side sessions and login lockouts, \<^verbatim>\<open>internal/admin/session.go\<close>: creating, reading
  and destroying sessions, and the failure counters per user name and per client address.

  The manager's mutex makes each operation one step. The clock reading is an argument (the
  operations that read the clock more than once take one reading); random tokens are arguments.
\<close>

subsection \<open>State\<close>

record session =
  s_id :: string
  s_username :: string
  s_role :: string
  s_csrf :: string
  s_expires :: time

record lockState =
  l_failures :: int
  l_lockUntil :: time
  l_lastSeen :: time

record ipState =
  i_failures :: int
  i_lockUntil :: time

record sessionManager =
  sm_idleTimeout :: duration
  sm_sessions :: "(string, session) gomap"
  sm_locks :: "(string, lockState) gomap"
  sm_ipLocks :: "(string, ipState) gomap"

definition lockThreshold :: int where "lockThreshold = 5"
definition lockDuration :: duration where "lockDuration = 5 * minute_ns"
definition lockSweepAge :: duration where "lockSweepAge = 30 * minute_ns"
definition ipLockThreshold :: int where "ipLockThreshold = 20"
definition ipLockDuration :: duration where "ipLockDuration = 15 * minute_ns"
definition ipLockMapMax :: nat where "ipLockMapMax = 500"

lemmas lock_consts = lockThreshold_def lockDuration_def lockSweepAge_def ipLockThreshold_def
  ipLockDuration_def ipLockMapMax_def ns_defs

definition newSessionManager :: "duration \<Rightarrow> sessionManager" where
  "newSessionManager idle =
     \<lparr>sm_idleTimeout = (if idle \<le> 0 then 30 * minute_ns else idle),
      sm_sessions = [], sm_locks = [], sm_ipLocks = []\<rparr>"

subsection \<open>Sessions\<close>

definition sess_create ::
  "time \<Rightarrow> string \<Rightarrow> string \<Rightarrow> string \<Rightarrow> string \<Rightarrow> sessionManager \<Rightarrow> session \<times> sessionManager" where
  "sess_create now token1 token2 username role m =
     (let s = \<lparr>s_id = token1, s_username = username, s_role = role, s_csrf = token2,
               s_expires = now + sm_idleTimeout m\<rparr>
      in (s, m\<lparr>sm_sessions := put (s_id s) s (sm_sessions m)\<rparr>))"

definition sess_get :: "time \<Rightarrow> string \<Rightarrow> sessionManager \<Rightarrow> session option \<times> sessionManager" where
  "sess_get now sid m =
     (case lookup (sm_sessions m) sid of
        None \<Rightarrow> (None, m)
      | Some s \<Rightarrow>
          if now > s_expires s then (None, m\<lparr>sm_sessions := del sid (sm_sessions m)\<rparr>)
          else (let s' = s\<lparr>s_expires := now + sm_idleTimeout m\<rparr>
                in (Some s', m\<lparr>sm_sessions := put sid s' (sm_sessions m)\<rparr>)))"

definition sess_destroy :: "string \<Rightarrow> sessionManager \<Rightarrow> sessionManager" where
  "sess_destroy sid m = m\<lparr>sm_sessions := del sid (sm_sessions m)\<rparr>"

definition destroyUser :: "string \<Rightarrow> sessionManager \<Rightarrow> sessionManager" where
  "destroyUser username m =
     m\<lparr>sm_sessions := del_if (\<lambda>sid s. s_username s = username) (sm_sessions m)\<rparr>"

subsection \<open>Lockouts\<close>

definition locked :: "time \<Rightarrow> sessionManager \<Rightarrow> string \<Rightarrow> bool" where
  "locked now m username \<longleftrightarrow>
     (case lookup (sm_locks m) username of None \<Rightarrow> False | Some l \<Rightarrow> now < l_lockUntil l)"

definition lock_zero :: lockState where
  "lock_zero = \<lparr>l_failures = 0, l_lockUntil = 0, l_lastSeen = 0\<rparr>"

definition lock_stale :: "time \<Rightarrow> lockState \<Rightarrow> bool" where
  "lock_stale now ls \<longleftrightarrow> IsZero (l_lockUntil ls) \<and> now - l_lastSeen ls > lockSweepAge"

definition recordFailure :: "time \<Rightarrow> string \<Rightarrow> sessionManager \<Rightarrow> sessionManager" where
  "recordFailure now username m =
     (let swept = del_if (\<lambda>k ls. lock_stale now ls) (sm_locks m);
          l = get_or lock_zero swept username;
          l1 = l\<lparr>l_lastSeen := now, l_failures := l_failures l + 1\<rparr>;
          l2 = (if l_failures l1 \<ge> lockThreshold
                then l1\<lparr>l_lockUntil := now + lockDuration, l_failures := 0\<rparr> else l1)
      in m\<lparr>sm_locks := put username l2 swept\<rparr>)"

definition recordSuccess :: "string \<Rightarrow> sessionManager \<Rightarrow> sessionManager" where
  "recordSuccess username m = m\<lparr>sm_locks := del username (sm_locks m)\<rparr>"

definition ipLocked :: "time \<Rightarrow> sessionManager \<Rightarrow> string \<Rightarrow> bool" where
  "ipLocked now m ip \<longleftrightarrow>
     (case lookup (sm_ipLocks m) ip of None \<Rightarrow> False | Some s \<Rightarrow> now < i_lockUntil s)"

definition ip_zero :: ipState where
  "ip_zero = \<lparr>i_failures = 0, i_lockUntil = 0\<rparr>"

definition recordIPFailure :: "time \<Rightarrow> string \<Rightarrow> sessionManager \<Rightarrow> sessionManager" where
  "recordIPFailure now ip m =
     (if lookup (sm_ipLocks m) ip = None \<and> length (sm_ipLocks m) \<ge> ipLockMapMax then m
      else (let s = get_or ip_zero (sm_ipLocks m) ip;
                s1 = s\<lparr>i_failures := i_failures s + 1\<rparr>;
                s2 = (if i_failures s1 \<ge> ipLockThreshold
                      then s1\<lparr>i_lockUntil := now + ipLockDuration, i_failures := 0\<rparr> else s1)
            in m\<lparr>sm_ipLocks := put ip s2 (sm_ipLocks m)\<rparr>))"

subsection \<open>The contracts the lockouts provide\<close>

definition user_fails :: "sessionManager \<Rightarrow> string \<Rightarrow> int" where
  "user_fails m u = l_failures (get_or lock_zero (sm_locks m) u)"

definition user_fresh :: "time \<Rightarrow> sessionManager \<Rightarrow> string \<Rightarrow> bool" where
  "user_fresh t m u \<longleftrightarrow>
     (case lookup (sm_locks m) u of None \<Rightarrow> True | Some ls \<Rightarrow> \<not> lock_stale t ls)"

definition within_sweep :: "time \<Rightarrow> time \<Rightarrow> bool" where
  "within_sweep t t' \<longleftrightarrow> t' - t \<le> lockSweepAge"

lemma user_fresh_get_or:
  "wf_map (sm_locks m) \<Longrightarrow> user_fresh t m u \<Longrightarrow>
   get_or lock_zero (del_if (\<lambda>k. lock_stale t) (sm_locks m)) u = get_or lock_zero (sm_locks m) u"
  by (auto simp: user_fresh_def get_or_def lookup_del_if split: option.splits)

interpretation user_lock: failure_gate user_fails locked user_fresh within_sweep
    "\<lambda>m. wf_map (sm_locks m)" recordFailure "\<lambda>_. lockThreshold" "\<lambda>_. lockDuration"
proof
  fix t t' :: time and m :: sessionManager and u u' :: string
  show "0 < t \<Longrightarrow> wf_map (sm_locks m) \<Longrightarrow> wf_map (sm_locks (recordFailure t u m))"
    by (simp add: recordFailure_def Let_def)
  show "wf_map (sm_locks m) \<Longrightarrow> user_fresh t m u \<Longrightarrow> user_fails m u + 1 < lockThreshold \<Longrightarrow>
      user_fails (recordFailure t u m) u = user_fails m u + 1"
    by (simp add: user_fails_def recordFailure_def Let_def user_fresh_get_or)
  show "wf_map (sm_locks m) \<Longrightarrow> user_fresh t m u \<Longrightarrow> user_fails m u + 1 < lockThreshold \<Longrightarrow>
      within_sweep t t' \<Longrightarrow> user_fresh t' (recordFailure t u m) u"
    by (simp add: user_fails_def recordFailure_def Let_def user_fresh_get_or user_fresh_def[of t']
        lock_stale_def within_sweep_def)
  show "wf_map (sm_locks m) \<Longrightarrow> user_fresh t m u \<Longrightarrow> user_fails m u + 1 = lockThreshold \<Longrightarrow>
      t \<le> t' \<Longrightarrow> t' < t + lockDuration \<Longrightarrow> locked t' (recordFailure t u m) u"
    by (simp add: user_fails_def recordFailure_def Let_def user_fresh_get_or locked_def)
  show "wf_map (sm_locks m) \<Longrightarrow> u' \<noteq> u \<Longrightarrow> 0 < t' \<Longrightarrow>
      locked t' (recordFailure t u m) u' = locked t' m u'"
    by (auto simp: recordFailure_def Let_def locked_def lookup_del_if lock_stale_def IsZero_def
        split: option.splits)
qed simp_all

definition ip_fails :: "sessionManager \<Rightarrow> string \<Rightarrow> int" where
  "ip_fails m ip = i_failures (get_or ip_zero (sm_ipLocks m) ip)"

definition ip_tracked :: "time \<Rightarrow> sessionManager \<Rightarrow> string \<Rightarrow> bool" where
  "ip_tracked t m ip \<longleftrightarrow> lookup (sm_ipLocks m) ip \<noteq> None \<or> length (sm_ipLocks m) < ipLockMapMax"

interpretation ip_lock: failure_gate ip_fails ipLocked ip_tracked "\<lambda>_ _. True"
    "\<lambda>m. wf_map (sm_ipLocks m)" recordIPFailure "\<lambda>_. ipLockThreshold" "\<lambda>_. ipLockDuration"
  by unfold_locales
    (auto simp: recordIPFailure_def Let_def ip_fails_def ip_tracked_def ipLocked_def)

interpretation ip_table: capped_table "\<lambda>m. length (sm_ipLocks m)" "\<lambda>_. ipLockMapMax" "\<lambda>_. True"
    "\<lambda>(t, ip). recordIPFailure t ip"
  by unfold_locales (auto simp: recordIPFailure_def Let_def length_put)

subsection \<open>The life of a session\<close>

datatype sess_op =
    SCreate time string string string string
  | SGet time string
  | SDestroy string
  | SDestroyUser string
  | SFail time string
  | SSucc string
  | SIPFail time string

fun sess_step :: "sessionManager \<Rightarrow> sess_op \<Rightarrow> sessionManager" where
  "sess_step m (SCreate t tok1 tok2 u r) = snd (sess_create t tok1 tok2 u r m)"
| "sess_step m (SGet t sid) = snd (sess_get t sid m)"
| "sess_step m (SDestroy sid) = sess_destroy sid m"
| "sess_step m (SDestroyUser u) = destroyUser u m"
| "sess_step m (SFail t u) = recordFailure t u m"
| "sess_step m (SSucc u) = recordSuccess u m"
| "sess_step m (SIPFail t ip) = recordIPFailure t ip m"

text \<open>The time a session was last used: when it was created, or last read since.\<close>

definition last_use :: "string \<Rightarrow> time \<Rightarrow> sess_op list \<Rightarrow> time" where
  "last_use sid = foldl (\<lambda>t op. case op of SGet t' sid' \<Rightarrow> if sid' = sid then t' else t | _ \<Rightarrow> t)"

lemma last_use_simps [simp]:
  "last_use sid t [] = t"
  "last_use sid t (ops @ [op]) =
     (case op of SGet t' sid' \<Rightarrow> if sid' = sid then t' else last_use sid t ops | _ \<Rightarrow> last_use sid t ops)"
  by (simp add: last_use_def, cases op) (simp_all add: last_use_def)

definition alive_since :: "duration \<Rightarrow> sess_op list \<Rightarrow> string \<Rightarrow> session \<Rightarrow> bool" where
  "alive_since idle ops sid s \<longleftrightarrow> s_id s = sid \<and>
     (\<exists>pre t post. ops = pre @ SCreate t sid (s_csrf s) (s_username s) (s_role s) # post \<and>
        SDestroy sid \<notin> set post \<and> SDestroyUser (s_username s) \<notin> set post \<and>
        s_expires s = last_use sid t post + idle)"

lemma alive_snoc:
  assumes "alive_since idle ops sid s" "op \<noteq> SDestroy sid" "op \<noteq> SDestroyUser (s_username s)"
    and "\<And>t'. op \<noteq> SGet t' sid"
  shows "alive_since idle (ops @ [op]) sid s"
proof -
  obtain pre t post where
    "ops = pre @ SCreate t sid (s_csrf s) (s_username s) (s_role s) # post"
    "SDestroy sid \<notin> set post" "SDestroyUser (s_username s) \<notin> set post"
    "s_expires s = last_use sid t post + idle" and s: "s_id s = sid"
    using assms(1) by (auto simp: alive_since_def)
  then have "ops @ [op] = pre @ SCreate t sid (s_csrf s) (s_username s) (s_role s) # (post @ [op])"
    "SDestroy sid \<notin> set (post @ [op])" "SDestroyUser (s_username s) \<notin> set (post @ [op])"
    "s_expires s = last_use sid t (post @ [op]) + idle"
    using assms(2-4) by (auto split: sess_op.splits)
  with s show ?thesis unfolding alive_since_def by blast
qed

lemma alive_touch:
  assumes "alive_since idle ops sid s"
  shows "alive_since idle (ops @ [SGet now sid]) sid (s\<lparr>s_expires := now + idle\<rparr>)"
proof -
  obtain pre t post where
    "ops = pre @ SCreate t sid (s_csrf s) (s_username s) (s_role s) # post"
    "SDestroy sid \<notin> set post" "SDestroyUser (s_username s) \<notin> set post" and s: "s_id s = sid"
    using assms by (auto simp: alive_since_def)
  then show ?thesis
    unfolding alive_since_def
    by (intro conjI exI[of _ pre] exI[of _ t] exI[of _ "post @ [SGet now sid]"]) auto
qed

lemma alive_create:
  "alive_since (sm_idleTimeout m) (ops @ [SCreate t sid csrf u r]) sid (fst (sess_create t sid csrf u r m))"
  unfolding alive_since_def sess_create_def Let_def by (intro conjI exI[of _ ops] exI[of _ t] exI[of _ "[]"]) auto

definition sess_inv :: "duration \<Rightarrow> sess_op list \<Rightarrow> sessionManager \<Rightarrow> bool" where
  "sess_inv idle ops m \<longleftrightarrow> wf_map (sm_sessions m) \<and> sm_idleTimeout m = idle \<and>
     (\<forall>sid s. lookup (sm_sessions m) sid = Some s \<longrightarrow> alive_since idle ops sid s)"

lemma sess_inv_same:
  assumes "sess_inv idle ops m" "sm_sessions m' = sm_sessions m" "sm_idleTimeout m' = sm_idleTimeout m"
    and "\<And>sid. op \<noteq> SDestroy sid" "\<And>u. op \<noteq> SDestroyUser u" "\<And>t sid. op \<noteq> SGet t sid"
  shows "sess_inv idle (ops @ [op]) m'"
proof -
  have "alive_since idle (ops @ [op]) sid s" if "lookup (sm_sessions m) sid = Some s" for sid s
    using assms(1) that by (intro alive_snoc assms(4-6)) (simp add: sess_inv_def)
  with assms(1-3) show ?thesis by (simp add: sess_inv_def)
qed

lemma sess_inv_get:
  assumes inv: "sess_inv idle ops m"
  shows "sess_inv idle (ops @ [SGet now sid]) (snd (sess_get now sid m))"
proof -
  have keep: "alive_since idle (ops @ [SGet now sid]) sid' s"
    if "lookup (sm_sessions m) sid' = Some s" "sid' \<noteq> sid" for sid' s
    using inv that by (auto simp: sess_inv_def intro: alive_snoc)
  have touch: "alive_since idle (ops @ [SGet now sid]) sid (s\<lparr>s_expires := now + idle\<rparr>)"
    if "lookup (sm_sessions m) sid = Some s" for s
    using inv that by (auto simp: sess_inv_def intro: alive_touch)
  show ?thesis
  proof (cases "lookup (sm_sessions m) sid")
    case None
    then have "alive_since idle (ops @ [SGet now sid]) sid' s"
      if "lookup (sm_sessions m) sid' = Some s" for sid' s
      using keep[OF that] that by (cases "sid' = sid") auto
    with None inv show ?thesis by (simp add: sess_inv_def sess_get_def)
  next
    case (Some s)
    then show ?thesis
      using inv keep touch by (auto simp: sess_inv_def sess_get_def Let_def split: if_splits)
  qed
qed

lemma sess_step_inv: "sess_inv idle ops m \<Longrightarrow> sess_inv idle (ops @ [op]) (sess_step m op)"
proof (cases op)
  case (SCreate t tok1 tok2 u r)
  assume inv: "sess_inv idle ops m"
  then have "alive_since idle (ops @ [op]) sid s" if "lookup (sm_sessions m) sid = Some s" for sid s
    using that SCreate by (auto simp: sess_inv_def intro: alive_snoc)
  moreover have "alive_since idle (ops @ [op]) tok1 (fst (sess_create t tok1 tok2 u r m))"
    using alive_create[of m ops t tok1 tok2 u r] inv SCreate by (simp add: sess_inv_def)
  ultimately show ?thesis
    using inv SCreate by (auto simp: sess_inv_def sess_create_def Let_def)
next
  case (SGet t sid)
  assume "sess_inv idle ops m"
  with SGet show ?thesis by (simp add: sess_inv_get)
next
  case (SDestroy sid)
  assume "sess_inv idle ops m"
  with SDestroy show ?thesis
    by (auto simp: sess_inv_def sess_destroy_def intro: alive_snoc split: if_splits)
next
  case (SDestroyUser u)
  assume "sess_inv idle ops m"
  with SDestroyUser show ?thesis
    by (auto simp: sess_inv_def destroyUser_def lookup_del_if intro: alive_snoc
        split: option.splits if_splits)
qed (auto intro!: sess_inv_same simp: recordFailure_def recordSuccess_def recordIPFailure_def Let_def)

lemma sess_run_inv:
  "sess_inv (sm_idleTimeout (newSessionManager d)) ops (foldl sess_step (newSessionManager d) ops)"
proof (induction ops rule: rev_induct)
  case Nil
  then show ?case by (simp add: sess_inv_def newSessionManager_def)
qed (simp add: sess_step_inv)

subsection \<open>Properties\<close>

text \<open>A session the manager returns was created, with the same user, role and CSRF token,
  by an earlier \<^verbatim>\<open>create\<close>, after which neither the session nor its user's sessions were
  destroyed, and it was last used no longer ago than the idle timeout.\<close>

theorem session_get_sound:
  assumes "fst (sess_get now sid (foldl sess_step (newSessionManager d) ops)) = Some s"
  shows "\<exists>pre t post. ops = pre @ SCreate t sid (s_csrf s) (s_username s) (s_role s) # post \<and>
    SDestroy sid \<notin> set post \<and> SDestroyUser (s_username s) \<notin> set post \<and>
    now \<le> last_use sid t post + sm_idleTimeout (newSessionManager d)"
proof -
  let ?m = "foldl sess_step (newSessionManager d) ops"
  have inv: "sess_inv (sm_idleTimeout (newSessionManager d)) ops ?m" by (rule sess_run_inv)
  obtain s0 where s0: "lookup (sm_sessions ?m) sid = Some s0" "now \<le> s_expires s0"
    "s = s0\<lparr>s_expires := now + sm_idleTimeout ?m\<rparr>"
    using assms by (auto simp: sess_get_def Let_def split: option.splits if_splits)
  then have "alive_since (sm_idleTimeout (newSessionManager d)) ops sid s0"
    using inv by (simp add: sess_inv_def)
  then obtain pre t post where
    "ops = pre @ SCreate t sid (s_csrf s0) (s_username s0) (s_role s0) # post"
    "SDestroy sid \<notin> set post" "SDestroyUser (s_username s0) \<notin> set post"
    "s_expires s0 = last_use sid t post + sm_idleTimeout (newSessionManager d)"
    unfolding alive_since_def by blast
  with s0(2,3) show ?thesis
    by (intro exI[of _ pre] exI[of _ t] exI[of _ post]) simp
qed

theorem session_get_sound_witness:
  "\<exists>pre t post. [SCreate 5 ''id'' ''csrf'' ''bob'' ''viewer'', SGet 9 ''id''] =
     pre @ SCreate t ''id'' ''csrf'' ''bob'' ''viewer'' # post \<and>
     11 \<le> last_use ''id'' t post + 4"
proof -
  have "fst (sess_get 11 ''id'' (foldl sess_step (newSessionManager 4)
      [SCreate 5 ''id'' ''csrf'' ''bob'' ''viewer'', SGet 9 ''id'']))
    = Some \<lparr>s_id = ''id'', s_username = ''bob'', s_role = ''viewer'', s_csrf = ''csrf'', s_expires = 15\<rparr>"
    by (simp add: sess_get_def sess_create_def newSessionManager_def Let_def)
  note h = session_get_sound[OF this]
  have "sm_idleTimeout (newSessionManager 4) = 4" by (simp add: newSessionManager_def)
  with h show ?thesis by (simp only: session.simps) blast
qed

text \<open>Five failed logins of a user, none more than 30 minutes after the one before, lock the
  user out for the five minutes after the last, and change nothing for other users.\<close>

theorem five_failures_lock_user:
  assumes "wf_map (sm_locks m)" "lookup (sm_locks m) u = None"
    and "\<forall>t\<in>set [t1, t2, t3, t4, t5]. 0 < t"
    and "successively (\<lambda>t t'. t' - t \<le> 30 * minute_ns) [t1, t2, t3, t4, t5]"
    and "t5 \<le> now" "now < t5 + 5 * minute_ns"
  shows "let m' = fold (\<lambda>t. recordFailure t u) [t1, t2, t3, t4, t5] m in
    locked now m' u \<and> (\<forall>u'. u' \<noteq> u \<longrightarrow> locked now m' u' = locked now m u')"
proof -
  have near: "successively within_sweep ([t1, t2, t3, t4] @ [t5])"
    using assms(4) by (simp add: within_sweep_def lockSweepAge_def)
  have pos: "\<forall>t\<in>set ([t1, t2, t3, t4] @ [t5]). 0 < t" using assms(3) by simp
  have "locked now (user_lock.run u ([t1, t2, t3, t4] @ [t5]) m) u"
    using assms by (intro user_lock.run_blocks[OF pos _ near])
      (auto simp: user_fresh_def user_fails_def get_or_def lock_zero_def lock_consts)
  moreover have "locked now (user_lock.run u ([t1, t2, t3, t4] @ [t5]) m) u' = locked now m u'"
    if "u' \<noteq> u" for u'
    using assms(3,5) by (intro user_lock.run_frame[OF pos assms(1) that]) simp
  ultimately show ?thesis by (simp add: Let_def)
qed

theorem five_failures_lock_user_witness:
  "locked 9 (fold (\<lambda>t. recordFailure t ''eve'') [1, 2, 3, 4, 5] (newSessionManager 0)) ''eve''"
proof -
  have "wf_map (sm_locks (newSessionManager 0))" "lookup (sm_locks (newSessionManager 0)) ''eve'' = None"
    "\<forall>t\<in>set [1, 2, 3, 4, 5]. (0::int) < t"
    "successively (\<lambda>t t'. t' - t \<le> 30 * minute_ns) [1, 2, 3, 4, 5]" "(5::int) \<le> 9"
    "9 < 5 + 5 * minute_ns"
    by (simp_all add: newSessionManager_def ns_defs)
  from five_failures_lock_user[OF this] show ?thesis by (simp add: Let_def)
qed

text \<open>Twenty failures from one address, at whatever times, block the address for 15 minutes
  if the table of addresses has room when the first arrives.\<close>

theorem twenty_failures_lock_ip:
  assumes "wf_map (sm_ipLocks m)" "lookup (sm_ipLocks m) ip = None" "length (sm_ipLocks m) < 500"
    and "length ts = 19" "\<forall>t\<in>set (ts @ [t]). 0 < t" "t \<le> now" "now < t + 15 * minute_ns"
  shows "ipLocked now (fold (\<lambda>t. recordIPFailure t ip) (ts @ [t]) m) ip"
  using assms
  by (intro ip_lock.run_blocks)
    (auto simp: successively_conv_nth ip_tracked_def ip_fails_def get_or_def ip_zero_def lock_consts)

theorem twenty_failures_lock_ip_witness:
  "ipLocked 50 (fold (\<lambda>t. recordIPFailure t ''10.0.0.1'') (replicate 19 7 @ [8]) (newSessionManager 0)) ''10.0.0.1''"
  by (rule twenty_failures_lock_ip) (simp_all add: newSessionManager_def ns_defs)

text \<open>The table of addresses never exceeds 500 entries; but nothing ever leaves it, so once
  500 addresses have failed, no number of failures from another address blocks it.\<close>

theorem full_ip_table_limits_no_new_ip:
  assumes "length (sm_ipLocks m) = 500" "lookup (sm_ipLocks m) ip = None" "ops = map (\<lambda>t. SIPFail t ip) ts"
  shows "\<not> ipLocked now (foldl sess_step m ops) ip \<and>
    (\<forall>ops'. sm_ipLocks (foldl sess_step m (filter (\<lambda>op. case op of SIPFail _ _ \<Rightarrow> False | _ \<Rightarrow> True) ops')) = sm_ipLocks m)"
proof -
  have "foldl sess_step m (map (\<lambda>t. SIPFail t ip) ts) = m"
    using assms(1,2) by (induction ts) (auto simp: recordIPFailure_def ipLockMapMax_def)
  moreover have "sm_ipLocks (sess_step m' op) = sm_ipLocks m'"
    if "case op of SIPFail _ _ \<Rightarrow> False | _ \<Rightarrow> True" for m' op
    using that by (cases op) (auto simp: sess_create_def sess_get_def sess_destroy_def destroyUser_def
        recordFailure_def recordSuccess_def Let_def split: option.splits)
  then have "sm_ipLocks (foldl sess_step m' (filter (\<lambda>op. case op of SIPFail _ _ \<Rightarrow> False | _ \<Rightarrow> True) ops'))
    = sm_ipLocks m'" for m' ops'
    by (induction ops' arbitrary: m') auto
  ultimately show ?thesis using assms by (simp add: ipLocked_def)
qed

definition ex_full_table :: sessionManager where
  "ex_full_table = (newSessionManager 0)\<lparr>sm_ipLocks :=
     map (\<lambda>n. (replicate n CHR ''x'', \<lparr>i_failures = 1, i_lockUntil = 0\<rparr>)) [0..<500]\<rparr>"

theorem full_ip_table_limits_no_new_ip_witness:
  "\<not> ipLocked 99 (foldl sess_step ex_full_table (map (\<lambda>t. SIPFail t ''10.0.0.1'') [1..100])) ''10.0.0.1''"
proof -
  have a: "length (sm_ipLocks ex_full_table) = 500" by (simp add: ex_full_table_def)
  have "\<forall>k \<in> set (map fst (sm_ipLocks ex_full_table)). set k \<subseteq> {CHR ''x''}"
    by (auto simp: ex_full_table_def)
  then have "''10.0.0.1'' \<notin> set (map fst (sm_ipLocks ex_full_table))" by fastforce
  then have "lookup (sm_ipLocks ex_full_table) ''10.0.0.1'' = None"
    by (simp add: map_of_eq_None_iff)
  from full_ip_table_limits_no_new_ip[OF a this refl] show ?thesis by blast
qed

end
