(* ===== verification/UserStore.thy ===== *)
theory UserStore
  imports Interfaces
begin

text \<open>
  The admin account store and audit log of \<^verbatim>\<open>internal/admin/store.go\<close>, with the role
  capabilities, and the mapping of OIDC groups to roles of \<^verbatim>\<open>internal/admin/oidc.go\<close>.

  The store is the data in memory and the contents of its file. Every save takes the outcome of
  the two file operations as the argument \<open>io\<close> (\<open>None\<close>: both succeeded): a failed save
  leaves the file as it was and the memory changed. A password hash is a string; the hash of a
  new password is an argument, since it depends on a random salt.
\<close>

subsection \<open>Roles and capabilities\<close>

definition RoleAdmin :: string where "RoleAdmin = ''admin''"
definition RoleEditor :: string where "RoleEditor = ''editor''"
definition RoleViewer :: string where "RoleViewer = ''viewer''"

lemmas role_defs = RoleAdmin_def RoleEditor_def RoleViewer_def

definition roleCaps :: "(string, string list) gomap" where
  "roleCaps =
     [(RoleAdmin,
        [''dashboard.view'', ''traffic.view'', ''traffic.view_full'', ''policy.view'', ''policy.edit'',
         ''catalog.view'', ''catalog.edit'', ''mimic.view'', ''mimic.edit'', ''config.view'',
         ''config.edit'', ''apply.reload'', ''agh.manage'', ''killswitch.execute'', ''users.manage'',
         ''audit.view'', ''allow.temp'']),
      (RoleEditor,
        [''dashboard.view'', ''traffic.view'', ''policy.view'', ''policy.edit'', ''catalog.view'',
         ''catalog.edit'', ''mimic.view'', ''mimic.edit'', ''config.view'', ''apply.reload'',
         ''allow.temp'']),
      (RoleViewer,
        [''dashboard.view'', ''traffic.view'', ''policy.view'', ''catalog.view'', ''mimic.view'',
         ''config.view'', ''audit.view''])]"

definition Can :: "string \<Rightarrow> string \<Rightarrow> bool" where
  "Can role capability \<longleftrightarrow>
     (case lookup roleCaps role of None \<Rightarrow> False | Some caps \<Rightarrow> capability \<in> set caps)"

definition capList :: "string \<Rightarrow> string list" where
  "capList role = get_or [] roleCaps role"

definition role_rank :: "string \<Rightarrow> int" where
  "role_rank r = get_or 0 [(RoleViewer, 1), (RoleEditor, 2), (RoleAdmin, 3)] r"

fun MapGroups_loop ::
  "(string, string) gomap \<Rightarrow> string list \<Rightarrow> string \<times> bool \<Rightarrow> string \<times> bool" where
  "MapGroups_loop roleMap [] (best, found) = (best, found)"
| "MapGroups_loop roleMap (g # gs) (best, found) =
     MapGroups_loop roleMap gs
       (case lookup roleMap g of
          None \<Rightarrow> (best, found)
        | Some r \<Rightarrow> if \<not> found \<or> role_rank r > role_rank best then (r, True) else (best, found))"

definition MapGroupsToRole :: "string list \<Rightarrow> (string, string) gomap \<Rightarrow> string \<times> bool" where
  "MapGroupsToRole groups roleMap = MapGroups_loop roleMap groups ([], False)"

subsection \<open>The store\<close>

record User =
  usr_Username :: string
  usr_Hash :: string
  usr_Role :: string
  usr_Disabled :: bool
  usr_MustChange :: bool
  usr_Created :: time

record AuditEntry =
  ae_Time :: time
  ae_Actor :: string
  ae_Action :: string
  ae_Detail :: string

record storeData =
  sd_Users :: "User list"
  sd_Audit :: "AuditEntry list"

record Store =
  st_data :: storeData
  st_file :: "storeData option"

type_synonym io_result = "error option"

definition OpenStore :: "io_result \<Rightarrow> error + string \<Rightarrow> (string \<Rightarrow> error + storeData) \<Rightarrow> error + Store" where
  "OpenStore mkdir file unmarshal =
     (case mkdir of
        Some e \<Rightarrow> Inl e
      | None \<Rightarrow>
          (case file of
             Inr raw \<Rightarrow>
               (case unmarshal raw of
                  Inl e \<Rightarrow> Inl (Err (''parse admin store: '' @ error_text e))
                | Inr d \<Rightarrow> Inr \<lparr>st_data = d, st_file = Some d\<rparr>)
           | Inl e \<Rightarrow>
               if e \<noteq> ErrNotExist then Inl e
               else Inr \<lparr>st_data = \<lparr>sd_Users = [], sd_Audit = []\<rparr>, st_file = None\<rparr>))"

definition store_save :: "io_result \<Rightarrow> Store \<Rightarrow> io_result \<times> Store" where
  "store_save io st =
     (case io of Some e \<Rightarrow> (Some e, st) | None \<Rightarrow> (None, st\<lparr>st_file := Some (st_data st)\<rparr>))"

definition UserCount :: "Store \<Rightarrow> nat" where
  "UserCount st = length (sd_Users (st_data st))"

definition users_of :: "Store \<Rightarrow> User list" where
  "users_of st = sd_Users (st_data st)"

definition set_users :: "User list \<Rightarrow> Store \<Rightarrow> Store" where
  "set_users us st = st\<lparr>st_data := (st_data st)\<lparr>sd_Users := us\<rparr>\<rparr>"

definition store_Get :: "Store \<Rightarrow> string \<Rightarrow> User option" where
  "store_Get st username = find (\<lambda>u. usr_Username u = username) (users_of st)"

definition store_List :: "Store \<Rightarrow> User list" where
  "store_List st = sort_key usr_Username (map (\<lambda>u. u\<lparr>usr_Hash := []\<rparr>) (users_of st))"

text \<open>The first account of that name, replaced.\<close>

fun replace_user :: "string \<Rightarrow> (User \<Rightarrow> User) \<Rightarrow> User list \<Rightarrow> User list option" where
  "replace_user name f [] = None"
| "replace_user name f (e # us) =
     (if usr_Username e = name then Some (f e # us)
      else (case replace_user name f us of None \<Rightarrow> None | Some us' \<Rightarrow> Some (e # us')))"

definition store_Upsert :: "time \<Rightarrow> io_result \<Rightarrow> User \<Rightarrow> Store \<Rightarrow> io_result \<times> Store" where
  "store_Upsert now io u st =
     (case replace_user (usr_Username u) (\<lambda>e. if usr_Hash u = [] then u\<lparr>usr_Hash := usr_Hash e\<rparr> else u)
             (users_of st) of
        Some us \<Rightarrow> store_save io (set_users us st)
      | None \<Rightarrow>
          (let u' = (if IsZero (usr_Created u) then u\<lparr>usr_Created := now\<rparr> else u)
           in store_save io (set_users (users_of st @ [u']) st)))"

definition store_Delete :: "io_result \<Rightarrow> string \<Rightarrow> Store \<Rightarrow> io_result \<times> Store" where
  "store_Delete io username st =
     store_save io (set_users (filter (\<lambda>u. usr_Username u \<noteq> username) (users_of st)) st)"

definition store_SetPassword :: "io_result \<Rightarrow> string \<Rightarrow> string \<Rightarrow> Store \<Rightarrow> io_result \<times> Store" where
  "store_SetPassword io username hash st =
     (case replace_user username (\<lambda>e. e\<lparr>usr_Hash := hash, usr_MustChange := False\<rparr>) (users_of st) of
        Some us \<Rightarrow> store_save io (set_users us st)
      | None \<Rightarrow> (Some (Err (''user '' @ quote username @ '' not found'')), st))"

definition audit_keep :: nat where "audit_keep = 5000"

definition store_Audit ::
  "time \<Rightarrow> io_result \<Rightarrow> string \<Rightarrow> string \<Rightarrow> string \<Rightarrow> Store \<Rightarrow> Store" where
  "store_Audit now io actor action detail st =
     (let e = \<lparr>ae_Time = now, ae_Actor = actor, ae_Action = action, ae_Detail = detail\<rparr>;
          d = (st_data st)\<lparr>sd_Audit := keep_last audit_keep (sd_Audit (st_data st) @ [e])\<rparr>
      in snd (store_save io (st\<lparr>st_data := d\<rparr>)))"

definition AuditLog :: "int \<Rightarrow> Store \<Rightarrow> AuditEntry list" where
  "AuditLog n st =
     (let out = rev (sd_Audit (st_data st))
      in if n > 0 \<and> int (length out) > n then take (nat n) out else out)"

subsection \<open>Facts about the store\<close>

lemma save_data [simp]: "st_data (snd (store_save io st)) = st_data st"
  by (cases io) (auto simp: store_save_def)

lemma save_result [simp]: "fst (store_save io st) = io"
  by (cases io) (auto simp: store_save_def)

lemma users_set [simp]: "users_of (set_users us st) = us"
  "users_of (snd (store_save io st)) = users_of st"
  "sd_Audit (st_data (set_users us st)) = sd_Audit (st_data st)"
  by (simp_all add: users_of_def set_users_def)

lemma Audit_users [simp]: "users_of (store_Audit now io a b c st) = users_of st"
  by (simp add: users_of_def store_Audit_def Let_def)

lemma Audit_log: "sd_Audit (st_data (store_Audit now io a b c st)) =
    keep_last audit_keep (sd_Audit (st_data st) @ [\<lparr>ae_Time = now, ae_Actor = a, ae_Action = b, ae_Detail = c\<rparr>])"
  by (simp add: store_Audit_def Let_def)

lemma audit_eta [simp]:
  "\<lparr>ae_Time = ae_Time r, ae_Actor = ae_Actor r, ae_Action = ae_Action r, ae_Detail = ae_Detail r\<rparr> = r"
  by (cases r) simp

interpretation audit: history_log "\<lambda>st. sd_Audit (st_data st)"
    "\<lambda>r. store_Audit (ae_Time r) io (ae_Actor r) (ae_Action r) (ae_Detail r)" audit_keep for io
  by unfold_locales (simp_all add: Audit_log audit_eta, simp add: audit_keep_def)

text \<open>Replacing the account of a name keeps the other accounts and the order of the names.\<close>

lemma replace_user_None: "replace_user n f us = None \<longleftrightarrow> n \<notin> usr_Username ` set us"
  by (induction us) (auto split: option.splits)

lemma replace_user_names:
  assumes "replace_user n f us = Some us'" "\<And>e. usr_Username e = n \<Longrightarrow> usr_Username (f e) = n"
  shows "map usr_Username us' = map usr_Username us"
  using assms by (induction us arbitrary: us') (auto split: if_splits option.splits)

lemma replace_user_find:
  assumes "replace_user n f us = Some us'" "\<And>e. usr_Username e = n \<Longrightarrow> usr_Username (f e) = n"
  shows "find (\<lambda>u. usr_Username u = k) us' =
    (if k = n then map_option f (find (\<lambda>u. usr_Username u = k) us)
     else find (\<lambda>u. usr_Username u = k) us)"
  using assms by (induction us arbitrary: us') (auto split: if_splits option.splits)

lemma find_filter_name:
  "find (\<lambda>u. usr_Username u = k) (filter (\<lambda>u. usr_Username u \<noteq> n) us) =
     (if k = n then None else find (\<lambda>u. usr_Username u = k) us)"
  by (induction us) auto

lemma find_append_name:
  "find P (us @ [u]) = (case find P us of None \<Rightarrow> if P u then Some u else None | Some x \<Rightarrow> Some x)"
  by (induction us) auto

lemma Get_Upsert:
  "store_Get (snd (store_Upsert now io u st)) k =
     (if k \<noteq> usr_Username u then store_Get st k
      else (case store_Get st k of
              Some e \<Rightarrow> Some (if usr_Hash u = [] then u\<lparr>usr_Hash := usr_Hash e\<rparr> else u)
            | None \<Rightarrow> Some (if IsZero (usr_Created u) then u\<lparr>usr_Created := now\<rparr> else u)))"
proof (cases "replace_user (usr_Username u) (\<lambda>e. if usr_Hash u = [] then u\<lparr>usr_Hash := usr_Hash e\<rparr> else u) (users_of st)")
  case None
  then have "usr_Username u \<notin> usr_Username ` set (users_of st)" by (rule replace_user_None[THEN iffD1])
  then have "find (\<lambda>x. usr_Username x = usr_Username u) (users_of st) = None"
    by (auto simp: find_None_iff image_iff)
  with None show ?thesis
    by (auto simp: store_Upsert_def store_Get_def Let_def find_append_name split: option.splits)
next
  case (Some us)
  then have "replace_user (usr_Username u) (\<lambda>e. if usr_Hash u = [] then u\<lparr>usr_Hash := usr_Hash e\<rparr> else u) (users_of st) \<noteq> None"
    by simp
  then have "usr_Username u \<in> usr_Username ` set (users_of st)" unfolding replace_user_None by simp
  then have "find (\<lambda>x. usr_Username x = usr_Username u) (users_of st) \<noteq> None"
    unfolding find_None_iff by auto
  with Some replace_user_find[OF Some, of k] show ?thesis
    by (auto simp: store_Upsert_def store_Get_def split: option.splits)
qed

lemma Get_Delete:
  "store_Get (snd (store_Delete io n st)) k = (if k = n then None else store_Get st k)"
  by (simp add: store_Delete_def store_Get_def find_filter_name)

lemma Get_SetPassword:
  "store_Get (snd (store_SetPassword io n h st)) k =
     (if k = n then map_option (\<lambda>e. e\<lparr>usr_Hash := h, usr_MustChange := False\<rparr>) (store_Get st k)
      else store_Get st k)"
proof (cases "replace_user n (\<lambda>e. e\<lparr>usr_Hash := h, usr_MustChange := False\<rparr>) (users_of st)")
  case None
  then have "n \<notin> usr_Username ` set (users_of st)" by (rule replace_user_None[THEN iffD1])
  then have "find (\<lambda>x. usr_Username x = n) (users_of st) = None" by (auto simp: find_None_iff)
  with None show ?thesis by (simp add: store_SetPassword_def store_Get_def)
next
  case (Some us)
  with replace_user_find[OF Some, of k] show ?thesis
    by (simp add: store_SetPassword_def store_Get_def)
qed

lemma Get_Audit [simp]: "store_Get (store_Audit now io a b c st) k = store_Get st k"
  by (simp add: store_Get_def)

subsection \<open>The life of the store\<close>

datatype store_op =
    UUpsert time io_result User
  | UDelete io_result string
  | USetPassword io_result string string
  | UAudit time io_result string string string

fun store_step :: "Store \<Rightarrow> store_op \<Rightarrow> Store" where
  "store_step st (UUpsert t io u) = snd (store_Upsert t io u st)"
| "store_step st (UDelete io n) = snd (store_Delete io n st)"
| "store_step st (USetPassword io n h) = snd (store_SetPassword io n h st)"
| "store_step st (UAudit t io a b c) = store_Audit t io a b c st"

definition store_inv :: "Store \<Rightarrow> bool" where
  "store_inv st \<longleftrightarrow> distinct (map usr_Username (users_of st)) \<and> length (sd_Audit (st_data st)) \<le> audit_keep"

lemma Upsert_inv: "store_inv st \<Longrightarrow> store_inv (snd (store_Upsert t io u st))"
proof (cases "replace_user (usr_Username u) (\<lambda>e. if usr_Hash u = [] then u\<lparr>usr_Hash := usr_Hash e\<rparr> else u) (users_of st)")
  case None
  assume inv: "store_inv st"
  from None have "usr_Username u \<notin> usr_Username ` set (users_of st)"
    by (rule replace_user_None[THEN iffD1])
  with None inv show ?thesis by (auto simp: store_inv_def store_Upsert_def Let_def)
next
  case (Some us)
  assume "store_inv st"
  with Some replace_user_names[OF Some] show ?thesis
    by (simp add: store_inv_def store_Upsert_def)
qed

lemma SetPassword_inv: "store_inv st \<Longrightarrow> store_inv (snd (store_SetPassword io n h st))"
  using replace_user_names[of n "\<lambda>e. e\<lparr>usr_Hash := h, usr_MustChange := False\<rparr>" "users_of st"]
  by (auto simp: store_inv_def store_SetPassword_def split: option.splits)

lemma store_step_inv: "store_inv st \<Longrightarrow> store_inv (store_step st op)"
proof (cases op)
  case (UDelete io n)
  assume "store_inv st"
  with UDelete show ?thesis by (simp add: store_inv_def store_Delete_def distinct_map_filter)
qed (simp_all add: Upsert_inv SetPassword_inv, simp add: store_inv_def Audit_log)

lemma store_run_inv: "store_inv st \<Longrightarrow> store_inv (foldl store_step st ops)"
  by (induction ops arbitrary: st) (auto simp: store_step_inv)

text \<open>The loop over the groups keeps the best role seen so far.\<close>

definition mapped_roles :: "(string, string) gomap \<Rightarrow> string list \<Rightarrow> string list" where
  "mapped_roles roleMap groups = List.map_filter (lookup roleMap) groups"

lemma MapGroups_loop_best:
  assumes "MapGroups_loop roleMap groups (b0, f0) = (b, f)"
  shows "(f \<longleftrightarrow> f0 \<or> mapped_roles roleMap groups \<noteq> []) \<and>
    (f \<longrightarrow> b \<in> set (mapped_roles roleMap groups) \<or> f0 \<and> b = b0) \<and>
    (f0 \<longrightarrow> role_rank b0 \<le> role_rank b) \<and>
    (\<forall>r\<in>set (mapped_roles roleMap groups). role_rank r \<le> role_rank b)"
  using assms
proof (induction groups arbitrary: b0 f0)
  case (Cons g gs)
  show ?case
  proof (cases "lookup roleMap g")
    case None
    with Cons show ?thesis by (simp add: mapped_roles_def map_filter_simps)
  next
    case (Some r)
    show ?thesis
    proof (cases "\<not> f0 \<or> role_rank r > role_rank b0")
      case True
      with Cons.prems Some Cons.IH[of r True] show ?thesis
        by (auto simp: mapped_roles_def map_filter_simps)
    next
      case False
      with Cons.prems Some Cons.IH[of b0 f0] show ?thesis
        by (auto simp: mapped_roles_def map_filter_simps)
    qed
  qed
qed (simp add: mapped_roles_def map_filter_simps)

subsection \<open>Properties\<close>

text \<open>Whatever operations run on a store and whichever of its saves fail, user names stay
  unique and the audit log stays within 5000 entries.\<close>

theorem store_reachable_inv:
  assumes "store_inv st"
  shows "store_inv (foldl store_step st ops)"
  by (rule store_run_inv[OF assms])

definition ex_user :: User where
  "ex_user = \<lparr>usr_Username = ''ann'', usr_Hash = ''h1'', usr_Role = ''admin'', usr_Disabled = False,
     usr_MustChange = True, usr_Created = 3\<rparr>"

definition ex_store :: Store where
  "ex_store = \<lparr>st_data = \<lparr>sd_Users = [ex_user, ex_user\<lparr>usr_Username := ''abe'', usr_Role := ''viewer''\<rparr>],
     sd_Audit = []\<rparr>, st_file = None\<rparr>"

theorem store_reachable_inv_witness:
  "store_inv (foldl store_step ex_store [UUpsert 5 (Some (Err ''disk full'')) (ex_user\<lparr>usr_Username := ''bob''\<rparr>)])"
proof -
  have "store_inv ex_store" by code_simp
  then show ?thesis by (rule store_reachable_inv)
qed

text \<open>Upsert, Delete and SetPassword behave as map operations on the user names: reading any
  name afterwards gives the written account (with the old hash when none is supplied, and the
  creation time when new), no account for the deleted name, the new hash and no forced change
  for the reset one, and every other account unchanged.\<close>

theorem store_is_a_user_map:
  "store_Get (snd (store_Upsert now io u st)) k =
     (if k \<noteq> usr_Username u then store_Get st k
      else (case store_Get st k of
              Some e \<Rightarrow> Some (if usr_Hash u = [] then u\<lparr>usr_Hash := usr_Hash e\<rparr> else u)
            | None \<Rightarrow> Some (if IsZero (usr_Created u) then u\<lparr>usr_Created := now\<rparr> else u))) \<and>
   store_Get (snd (store_Delete io n st)) k = (if k = n then None else store_Get st k) \<and>
   store_Get (snd (store_SetPassword io n h st)) k =
     (if k = n then map_option (\<lambda>e. e\<lparr>usr_Hash := h, usr_MustChange := False\<rparr>) (store_Get st k)
      else store_Get st k)"
  by (intro conjI Get_Upsert Get_Delete Get_SetPassword)

text \<open>The account list shown to an administrator holds every account once, in name order, and
  no password hash.\<close>

theorem List_hides_hashes:
  "sorted (map usr_Username (store_List st)) \<and>
   mset (store_List st) = image_mset (\<lambda>u. u\<lparr>usr_Hash := []\<rparr>) (mset (users_of st)) \<and>
   set (map usr_Hash (store_List st)) \<subseteq> {[]}"
  by (auto simp: store_List_def)

text \<open>The audit log is the newest 5000 records of everything audited, oldest first, and its
  listing returns the newest records first, as many as asked for.\<close>

theorem audit_log_keeps_newest:
  assumes "length (sd_Audit (st_data st)) \<le> 5000"
  shows "let st' = fold (\<lambda>r. store_Audit (ae_Time r) io (ae_Actor r) (ae_Action r) (ae_Detail r)) rs st;
             all = sd_Audit (st_data st) @ rs
    in sd_Audit (st_data st') = keep_last 5000 all \<and>
       (0 < n \<and> n \<le> 5000 \<longrightarrow> AuditLog n st' = take (nat n) (rev all))"
proof -
  have log: "sd_Audit (st_data (fold (\<lambda>r. store_Audit (ae_Time r) io (ae_Actor r) (ae_Action r) (ae_Detail r)) rs st))
      = keep_last 5000 (sd_Audit (st_data st) @ rs)"
    using audit.log_run[of st io rs] assms by (simp add: audit_keep_def)
  have cut: "take k (rev (keep_last 5000 xs)) = take k (rev xs)" if "k \<le> 5000" for k :: nat and xs :: "AuditEntry list"
    using that by (simp add: keep_last_drop rev_drop min_def)
  have "AuditLog n st' = take (nat n) (rev (sd_Audit (st_data st')))" if "0 < n" for st'
    using that by (auto simp: AuditLog_def Let_def)
  then show ?thesis unfolding Let_def
    using cut[of "nat n" "sd_Audit (st_data st) @ rs"] by (simp add: log nat_le_iff del: rev_append take_append)
qed

theorem audit_log_keeps_newest_witness:
  "AuditLog 1 (fold (\<lambda>r. store_Audit (ae_Time r) None (ae_Actor r) (ae_Action r) (ae_Detail r))
     [\<lparr>ae_Time = 1, ae_Actor = ''a'', ae_Action = ''login'', ae_Detail = []\<rparr>,
      \<lparr>ae_Time = 2, ae_Actor = ''b'', ae_Action = ''reload'', ae_Detail = []\<rparr>] ex_store) =
   [\<lparr>ae_Time = 2, ae_Actor = ''b'', ae_Action = ''reload'', ae_Detail = []\<rparr>]"
proof -
  have "length (sd_Audit (st_data ex_store)) \<le> 5000" "sd_Audit (st_data ex_store) = []"
    by (simp_all add: ex_store_def)
  then show ?thesis
    using audit_log_keeps_newest[of ex_store None "[\<lparr>ae_Time = 1, ae_Actor = ''a'', ae_Action = ''login'', ae_Detail = []\<rparr>,
      \<lparr>ae_Time = 2, ae_Actor = ''b'', ae_Action = ''reload'', ae_Detail = []\<rparr>]" 1]
    by (simp add: Let_def)
qed

text \<open>The role given to an OIDC user is one that some group of the user is mapped to, and none
  of the user's groups is mapped to a role of higher rank; no role is given exactly when no
  group is mapped.\<close>

theorem MapGroupsToRole_best:
  "case MapGroupsToRole groups roleMap of
     (r, found) \<Rightarrow>
       (found \<longleftrightarrow> mapped_roles roleMap groups \<noteq> []) \<and>
       (found \<longrightarrow> r \<in> set (mapped_roles roleMap groups) \<and>
          (\<forall>r'\<in>set (mapped_roles roleMap groups). role_rank r' \<le> role_rank r))"
  using MapGroups_loop_best[of roleMap groups "[]" False] unfolding MapGroupsToRole_def
  by (auto split: prod.split)

theorem MapGroupsToRole_best_witness:
  "fst (MapGroupsToRole [''dev'', ''ops''] [(''ops'', ''admin''), (''dev'', ''viewer'')]) \<in> {''viewer'', ''admin''}"
proof -
  have m: "mapped_roles [(''ops'', ''admin''), (''dev'', ''viewer'')] [''dev'', ''ops''] = [''viewer'', ''admin'']"
    by code_simp
  show ?thesis
    using MapGroupsToRole_best[where groups = "[''dev'', ''ops'']"
        and roleMap = "[(''ops'', ''admin''), (''dev'', ''viewer'')]"]
    by (simp only: m split: prod.splits) auto
qed

end
