(* ===== verification/Admin.thy ===== *)
theory Admin
  imports Sessions UserStore
begin

text \<open>
  The admin HTTP backend of \<^verbatim>\<open>internal/admin\<close>: the route table and the \<^verbatim>\<open>withAuth\<close>
  guard of \<^verbatim>\<open>admin.go\<close>, login, logout and password change, the user management of
  \<^verbatim>\<open>handlers.go\<close> and the OIDC callback of \<^verbatim>\<open>oidc.go\<close>, composed over the session
  manager and the account store.

  A request is its method, path, session cookie, CSRF header and peer address; the decoded body
  (or the status of the decoding failure) is an argument of the handler, and so are the outcomes
  of the store's saves. A response is its status, message and the session cookie it sets.
  Password verification (argon2id, third-party) is the argument \<open>verify\<close>; the OIDC provider's
  token exchange and verification are arguments of the callback.
\<close>

subsection \<open>Requests, responses, state\<close>

record request =
  rq_Method :: string
  rq_Path :: string
  rq_Cookie :: "string option"
  rq_CSRF :: string
  rq_IP :: string

record response =
  rp_status :: int
  rp_msg :: string
  rp_cookie :: "string option"

record AdminServer =
  as_store :: Store
  as_sess :: sessionManager

type_synonym 'a handler =
  "session \<Rightarrow> 'a AdminServer_scheme \<Rightarrow> response \<times> 'a AdminServer_scheme"

definition http_error :: "int \<Rightarrow> string \<Rightarrow> response" where
  "http_error code msg = \<lparr>rp_status = code, rp_msg = msg, rp_cookie = None\<rparr>"

definition unauthorized :: response where
  "unauthorized = http_error 401 ''unauthorized''"

definition writeOK :: "string \<Rightarrow> response" where
  "writeOK msg = \<lparr>rp_status = 200, rp_msg = msg, rp_cookie = None\<rparr>"

definition newAdminServer :: "Store \<Rightarrow> AdminServer" where
  "newAdminServer st = \<lparr>as_store = st, as_sess = newSessionManager (30 * minute_ns)\<rparr>"

definition audit_srv ::
  "time \<Rightarrow> io_result \<Rightarrow> string \<Rightarrow> string \<Rightarrow> string \<Rightarrow> 'a AdminServer_scheme \<Rightarrow>
   'a AdminServer_scheme" where
  "audit_srv now io actor action detail srv =
     srv\<lparr>as_store := store_Audit now io actor action detail (as_store srv)\<rparr>"

text \<open>The answer when the body does not decode (413: over the limit).\<close>

definition decode_error :: "int \<Rightarrow> response" where
  "decode_error code =
     (if code = 413 then http_error 413 ''request body too large'' else http_error 400 ''bad request'')"

text \<open>\<^verbatim>\<open>bootstrap\<close>: the first account, when there is none.\<close>

definition BootstrapInitialAdmin ::
  "time \<Rightarrow> io_result \<Rightarrow> io_result \<Rightarrow> string \<Rightarrow> string \<Rightarrow> Store \<Rightarrow> (error + (string \<times> bool)) \<times> Store" where
  "BootstrapInitialAdmin now io io' token hash st =
     (if UserCount st > 0 then (Inr ([], False), st)
      else
        (let tempPW = take 16 token in
         case store_Upsert now io
                \<lparr>usr_Username = ''admin'', usr_Hash = hash, usr_Role = RoleAdmin, usr_Disabled = False,
                 usr_MustChange = True, usr_Created = now\<rparr> st of
           (Some e, st1) \<Rightarrow> (Inl e, st1)
         | (None, st1) \<Rightarrow>
             (Inr (tempPW, True),
              store_Audit now io' ''system'' ''bootstrap'' ''created initial admin account'' st1)))"

subsection \<open>The guard\<close>

definition mustChangeBlocked :: "'a AdminServer_scheme \<Rightarrow> session \<Rightarrow> request \<Rightarrow> bool" where
  "mustChangeBlocked srv sess r =
     (case store_Get (as_store srv) (s_username sess) of
        None \<Rightarrow> False
      | Some u \<Rightarrow>
          if \<not> usr_MustChange u then False
          else if rq_Method r = ''GET'' \<and> rq_Path r = ''/api/me'' then False
          else if rq_Method r = ''POST'' \<and> rq_Path r = ''/api/me/password'' then False
          else if rq_Method r = ''POST'' \<and> rq_Path r = ''/api/logout'' then False
          else True)"

definition withAuth ::
  "string \<Rightarrow> 'a handler \<Rightarrow> time \<Rightarrow> request \<Rightarrow> 'a AdminServer_scheme \<Rightarrow>
   response \<times> 'a AdminServer_scheme" where
  "withAuth capability h now r srv =
     (case rq_Cookie r of
        None \<Rightarrow> (unauthorized, srv)
      | Some c \<Rightarrow>
          (case sess_get now c (as_sess srv) of
             (None, m) \<Rightarrow> (unauthorized, srv\<lparr>as_sess := m\<rparr>)
           | (Some sess, m) \<Rightarrow>
               (let srv1 = srv\<lparr>as_sess := m\<rparr> in
                if rq_Method r \<noteq> ''GET'' \<and> rq_Method r \<noteq> ''HEAD'' \<and> rq_CSRF r \<noteq> s_csrf sess
                then (http_error 403 ''bad CSRF token'', srv1)
                else if mustChangeBlocked srv1 sess r
                then (http_error 403 ''password change required'', srv1)
                else if capability \<noteq> [] \<and> \<not> Can (s_role sess) capability
                then (http_error 403 (''forbidden: missing capability '' @ capability), srv1)
                else h sess srv1)))"

definition adminMaxBodyBytes :: int where
  "adminMaxBodyBytes = 4 * 2 ^ 20"

definition limitBody ::
  "string \<Rightarrow> int \<Rightarrow> ('s \<Rightarrow> response \<times> 's) \<Rightarrow> 's \<Rightarrow> response \<times> 's" where
  "limitBody path contentLength next srv =
     (if HasPrefix path ''/api/'' \<and> contentLength > adminMaxBodyBytes
      then (http_error 413 ''request body too large'', srv) else next srv)"

definition normalizedFeedPath :: "string \<Rightarrow> string" where
  "normalizedFeedPath path =
     (if path = [] then ''/agh/managed-rewrites.txt''
      else if \<not> HasPrefix path ''/'' then CHR ''/'' # path else path)"

subsection \<open>Login and password change\<close>

record LoginReq =
  lr_Username :: string
  lr_Password :: string

text \<open>Two tokens (session id and CSRF) are drawn per login.\<close>

definition handleLogin ::
  "(string \<Rightarrow> string \<Rightarrow> bool) \<Rightarrow> string \<Rightarrow> time \<Rightarrow> io_result \<Rightarrow> string \<Rightarrow> string \<Rightarrow> request \<Rightarrow>
   int + LoginReq \<Rightarrow> 'a AdminServer_scheme \<Rightarrow> response \<times> 'a AdminServer_scheme" where
  "handleLogin verify dummyHash now io tok1 tok2 r body srv =
     (case body of
        Inl code \<Rightarrow> (decode_error code, srv)
      | Inr req \<Rightarrow>
          (let ip = rq_IP r; m = as_sess srv in
           if ipLocked now m ip then (http_error 429 ''too many requests'', srv)
           else if locked now m (lr_Username req) then (http_error 429 ''account temporarily locked'', srv)
           else
             (let ou = store_Get (as_store srv) (lr_Username req);
                  bad = (case ou of None \<Rightarrow> True | Some u \<Rightarrow> usr_Disabled u);
                  hash = (case ou of None \<Rightarrow> dummyHash | Some u \<Rightarrow> if usr_Disabled u then dummyHash else usr_Hash u)
              in case (if \<not> verify (lr_Password req) hash \<or> bad then None else ou) of
                   None \<Rightarrow>
                     (let m1 = (if ou \<noteq> None then recordFailure now (lr_Username req) m else m);
                          m2 = recordIPFailure now ip m1
                      in (http_error 401 ''invalid credentials'',
                          audit_srv now io (lr_Username req) ''login.fail'' ''invalid credentials''
                            (srv\<lparr>as_sess := m2\<rparr>)))
                 | Some u \<Rightarrow>
                     (let m1 = recordSuccess (lr_Username req) m;
                          (s, m2) = sess_create now tok1 tok2 (usr_Username u) (usr_Role u) m1
                      in (\<lparr>rp_status = 200, rp_msg = s_csrf s, rp_cookie = Some (s_id s)\<rparr>,
                          audit_srv now io (usr_Username u) ''login'' ''success'' (srv\<lparr>as_sess := m2\<rparr>))))))"

definition handleLogout :: "'a handler" where
  "handleLogout sess srv =
     (\<lparr>rp_status = 200, rp_msg = ''ok'', rp_cookie = Some []\<rparr>,
      srv\<lparr>as_sess := sess_destroy (s_id sess) (as_sess srv)\<rparr>)"

record PasswordReq =
  pr_Old :: string
  pr_New :: string

definition handleChangePassword ::
  "(string \<Rightarrow> string \<Rightarrow> bool) \<Rightarrow> (string \<Rightarrow> string) \<Rightarrow> time \<Rightarrow> io_result \<Rightarrow> io_result \<Rightarrow>
   int + PasswordReq \<Rightarrow> 'a handler" where
  "handleChangePassword verify hash now io io' body sess srv =
     (case body of
        Inl code \<Rightarrow> (decode_error code, srv)
      | Inr req \<Rightarrow>
          if length (pr_New req) < 8 then (http_error 400 ''new password must be at least 8 chars'', srv)
          else
            (let h = (case store_Get (as_store srv) (s_username sess) of None \<Rightarrow> [] | Some u \<Rightarrow> usr_Hash u) in
             if \<not> verify (pr_Old req) h then (http_error 401 ''old password incorrect'', srv)
             else
               (case store_SetPassword io (s_username sess) (hash (pr_New req)) (as_store srv) of
                  (Some e, st) \<Rightarrow> (http_error 500 (error_text e), srv\<lparr>as_store := st\<rparr>)
                | (None, st) \<Rightarrow>
                    (writeOK ''ok'', audit_srv now io' (s_username sess) ''password.change'' ''self''
                       (srv\<lparr>as_store := st\<rparr>)))))"

subsection \<open>User management\<close>

record CreateReq =
  cq_Username :: string
  cq_Password :: string
  cq_Role :: string

definition handleUserCreate ::
  "(string \<Rightarrow> string) \<Rightarrow> time \<Rightarrow> io_result \<Rightarrow> io_result \<Rightarrow> int + CreateReq \<Rightarrow> 'a handler" where
  "handleUserCreate hash now io io' body sess srv =
     (case body of
        Inl code \<Rightarrow> (decode_error code, srv)
      | Inr req \<Rightarrow>
          if cq_Username req = [] \<or> length (cq_Password req) < 8
          then (http_error 400 ''username and password (>=8 chars) required'', srv)
          else if lookup roleCaps (cq_Role req) = None then (http_error 400 ''invalid role'', srv)
          else if store_Get (as_store srv) (cq_Username req) \<noteq> None then (http_error 409 ''user exists'', srv)
          else
            (case store_Upsert now io
                    \<lparr>usr_Username = cq_Username req, usr_Hash = hash (cq_Password req), usr_Role = cq_Role req,
                     usr_Disabled = False, usr_MustChange = False, usr_Created = now\<rparr> (as_store srv) of
               (Some e, st) \<Rightarrow> (http_error 500 (error_text e), srv\<lparr>as_store := st\<rparr>)
             | (None, st) \<Rightarrow>
                 (writeOK ''ok'', audit_srv now io' (s_username sess) ''users.create''
                    (cq_Username req @ '' ('' @ cq_Role req @ '')'') (srv\<lparr>as_store := st\<rparr>))))"

definition handleUserDelete :: "time \<Rightarrow> io_result \<Rightarrow> io_result \<Rightarrow> string \<Rightarrow> 'a handler" where
  "handleUserDelete now io io' name sess srv =
     (if name = s_username sess then (http_error 400 ''cannot delete yourself'', srv)
      else
        (case store_Delete io name (as_store srv) of
           (Some e, st) \<Rightarrow> (http_error 500 (error_text e), srv\<lparr>as_store := st\<rparr>)
         | (None, st) \<Rightarrow>
             (writeOK ''ok'', audit_srv now io' (s_username sess) ''users.delete'' name
                (srv\<lparr>as_store := st, as_sess := destroyUser name (as_sess srv)\<rparr>))))"

definition handleUserSetPassword ::
  "(string \<Rightarrow> string) \<Rightarrow> time \<Rightarrow> io_result \<Rightarrow> io_result \<Rightarrow> string \<Rightarrow> int + string \<Rightarrow> 'a handler" where
  "handleUserSetPassword hash now io io' name body sess srv =
     (case body of
        Inl code \<Rightarrow> (decode_error code, srv)
      | Inr pw \<Rightarrow>
          if length pw < 8 then (http_error 400 ''password must be at least 8 chars'', srv)
          else
            (case store_SetPassword io name (hash pw) (as_store srv) of
               (Some e, st) \<Rightarrow> (http_error 404 (error_text e), srv\<lparr>as_store := st\<rparr>)
             | (None, st) \<Rightarrow>
                 (writeOK ''ok'', audit_srv now io' (s_username sess) ''users.setpassword'' name
                    (srv\<lparr>as_store := st, as_sess := destroyUser name (as_sess srv)\<rparr>))))"

subsection \<open>Single sign-on\<close>

text \<open>A claim of the verified token: what \<^verbatim>\<open>encoding/json\<close> decodes into \<^verbatim>\<open>any\<close>.\<close>

datatype claim = CString string | CStrings "string list" | CList "claim list" | COther

type_synonym claims = "(string, claim) gomap"

fun stringClaim :: "claims \<Rightarrow> string list \<Rightarrow> string" where
  "stringClaim cs [] = ''oidc-user''"
| "stringClaim cs (k # ks) =
     (case lookup cs k of
        Some (CString v) \<Rightarrow> if v \<noteq> [] then v else stringClaim cs ks
      | _ \<Rightarrow> stringClaim cs ks)"

fun claim_string :: "claim \<Rightarrow> string list" where
  "claim_string (CString s) = [s]"
| "claim_string c = []"

definition claimGroups :: "claims \<Rightarrow> string \<Rightarrow> string list" where
  "claimGroups cs key =
     (case lookup cs key of
        None \<Rightarrow> []
      | Some (CStrings v) \<Rightarrow> v
      | Some (CList v) \<Rightarrow> concat (map claim_string v)
      | Some (CString v) \<Rightarrow> [v]
      | Some COther \<Rightarrow> [])"

record oidcAuth =
  oa_groupsClaim :: string
  oa_roleMap :: "(string, string) gomap"

record oidcRequest =
  oq_stateCookie :: "string option"
  oq_state :: string
  oq_code :: string
  oq_nonceCookie :: "string option"

text \<open>
  The provider is two functions: the exchange of the code for a raw ID token (\<open>None\<close> when the
  answer holds none) and the verification of the token, giving its nonce and decoded claims.
\<close>

definition handleOIDCCallback ::
  "oidcAuth \<Rightarrow> (string \<Rightarrow> error + string option) \<Rightarrow> (string \<Rightarrow> error + string \<times> (error + claims)) \<Rightarrow>
   time \<Rightarrow> io_result \<Rightarrow> string \<Rightarrow> string \<Rightarrow> oidcRequest \<Rightarrow> 'a AdminServer_scheme \<Rightarrow>
   response \<times> 'a AdminServer_scheme" where
  "handleOIDCCallback oa exchange verifyID now io tok1 tok2 r srv =
     (if oq_stateCookie r = None \<or> oq_stateCookie r = Some [] \<or> Some (oq_state r) \<noteq> oq_stateCookie r
      then (http_error 400 ''invalid OIDC state'', srv)
      else
        (case exchange (oq_code r) of
           Inl e \<Rightarrow> (http_error 401 ''token exchange failed'', srv)
         | Inr None \<Rightarrow> (http_error 401 ''no id_token'', srv)
         | Inr (Some rawID) \<Rightarrow>
             (case verifyID rawID of
                Inl e \<Rightarrow> (http_error 401 ''id_token verify failed'', srv)
              | Inr (nonce, ecs) \<Rightarrow>
                  if oq_nonceCookie r = None \<or> oq_nonceCookie r = Some [] \<or> oq_nonceCookie r \<noteq> Some nonce
                  then (http_error 400 ''invalid OIDC nonce'', srv)
                  else
                    (case ecs of
                       Inl e \<Rightarrow> (http_error 401 ''claims decode failed'', srv)
                     | Inr cs \<Rightarrow>
                         (let username = stringClaim cs [''preferred_username'', ''email'', ''sub''] in
                          case MapGroupsToRole (claimGroups cs (oa_groupsClaim oa)) (oa_roleMap oa) of
                            (role, False) \<Rightarrow>
                              (http_error 403 ''no role for your groups'',
                               audit_srv now io username ''oidc.login.deny'' ''no group mapped to a role'' srv)
                          | (role, True) \<Rightarrow>
                              (let (s, m) = sess_create now tok1 tok2 username role (as_sess srv) in
                               (\<lparr>rp_status = 302, rp_msg = ''/'', rp_cookie = Some (s_id s)\<rparr>,
                                audit_srv now io username ''oidc.login'' (''role='' @ role)
                                  (srv\<lparr>as_sess := m\<rparr>))))))))"

subsection \<open>Facts about the guard\<close>

definition authorised :: "string \<Rightarrow> time \<Rightarrow> request \<Rightarrow> 'a AdminServer_scheme \<Rightarrow> session \<Rightarrow> bool" where
  "authorised capability now r srv sess \<longleftrightarrow>
     (\<exists>c. rq_Cookie r = Some c \<and> fst (sess_get now c (as_sess srv)) = Some sess) \<and>
     (rq_Method r \<in> {''GET'', ''HEAD''} \<or> rq_CSRF r = s_csrf sess) \<and>
     (capability = [] \<or> Can (s_role sess) capability) \<and>
     (\<forall>u. store_Get (as_store srv) (s_username sess) = Some u \<and> usr_MustChange u \<longrightarrow>
        (rq_Method r, rq_Path r) \<in> {(''GET'', ''/api/me''), (''POST'', ''/api/me/password''), (''POST'', ''/api/logout'')})"

definition after_get :: "time \<Rightarrow> request \<Rightarrow> 'a AdminServer_scheme \<Rightarrow> 'a AdminServer_scheme" where
  "after_get now r srv =
     (case rq_Cookie r of None \<Rightarrow> srv
      | Some c \<Rightarrow> srv\<lparr>as_sess := snd (sess_get now c (as_sess srv))\<rparr>)"

lemma mustChangeBlocked_iff:
  "mustChangeBlocked srv sess r \<longleftrightarrow>
     (\<exists>u. store_Get (as_store srv) (s_username sess) = Some u \<and> usr_MustChange u \<and>
        (rq_Method r, rq_Path r) \<notin> {(''GET'', ''/api/me''), (''POST'', ''/api/me/password''), (''POST'', ''/api/logout'')})"
  by (auto simp: mustChangeBlocked_def split: option.splits)

lemma withAuth_cases:
  obtains (run) sess where "authorised capability now r srv sess"
      "withAuth capability h now r srv = h sess (after_get now r srv)"
  | (refuse) "\<And>sess. \<not> authorised capability now r srv sess"
      "rp_status (fst (withAuth capability h now r srv)) \<in> {401, 403}"
      "rp_cookie (fst (withAuth capability h now r srv)) = None"
      "snd (withAuth capability h now r srv) = after_get now r srv"
proof (cases "rq_Cookie r")
  case None
  then show ?thesis
    by (intro refuse) (simp_all add: authorised_def withAuth_def after_get_def unauthorized_def http_error_def)
next
  case (Some c)
  obtain os m where g: "sess_get now c (as_sess srv) = (os, m)" by fastforce
  show ?thesis
  proof (cases os)
    case None
    with Some g show ?thesis
      by (intro refuse) (simp_all add: authorised_def withAuth_def after_get_def unauthorized_def http_error_def)
  next
    case os: (Some sess)
    let ?srv = "srv\<lparr>as_sess := m\<rparr>"
    have auth: "authorised capability now r srv sess' \<longleftrightarrow> sess' = sess \<and>
      (rq_Method r \<in> {''GET'', ''HEAD''} \<or> rq_CSRF r = s_csrf sess) \<and> \<not> mustChangeBlocked ?srv sess r \<and>
      (capability = [] \<or> Can (s_role sess) capability)" for sess'
      using Some g os by (auto simp: authorised_def mustChangeBlocked_iff)
    show ?thesis
    proof (cases "authorised capability now r srv sess")
      case True
      with auth Some g os show ?thesis
        by (intro run[of sess]) (auto simp: withAuth_def after_get_def Let_def)
    next
      case False
      with auth Some g os show ?thesis
        by (intro refuse) (auto simp: withAuth_def after_get_def http_error_def Let_def)
    qed
  qed
qed

lemma after_get_store [simp]: "as_store (after_get now r srv) = as_store srv"
  by (simp add: after_get_def split: option.splits)

subsection \<open>The life of the backend\<close>

text \<open>
  One request at a time, with local accounts only: \<open>verify\<close>, \<open>dummy\<close> and \<open>hash\<close> as
  above. The saves of an account removal and of a password reset succeed; every other save may
  fail.
\<close>

inductive admin_step ::
  "(string \<Rightarrow> string \<Rightarrow> bool) \<Rightarrow> string \<Rightarrow> (string \<Rightarrow> string) \<Rightarrow> AdminServer \<Rightarrow> AdminServer \<Rightarrow> bool"
  for verify dummy hash where
  login: "admin_step verify dummy hash srv (snd (handleLogin verify dummy now io tok1 tok2 r body srv))"
| logout: "admin_step verify dummy hash srv (snd (withAuth [] handleLogout now r srv))"
| change_password: "admin_step verify dummy hash srv
    (snd (withAuth [] (handleChangePassword verify hash now io io' pbody) now r srv))"
| user_create: "admin_step verify dummy hash srv
    (snd (withAuth ''users.manage'' (handleUserCreate hash now io io' cbody) now r srv))"
| user_delete: "admin_step verify dummy hash srv
    (snd (withAuth ''users.manage'' (handleUserDelete now None io' name) now r srv))"
| user_password: "admin_step verify dummy hash srv
    (snd (withAuth ''users.manage'' (handleUserSetPassword hash now None io' name sbody) now r srv))"

inductive_cases admin_stepE: "admin_step verify dummy hash srv srv'"

definition sessions_backed :: "AdminServer \<Rightarrow> bool" where
  "sessions_backed srv \<longleftrightarrow> wf_map (sm_sessions (as_sess srv)) \<and>
     (\<forall>sid s. lookup (sm_sessions (as_sess srv)) sid = Some s \<longrightarrow>
        (\<exists>u. store_Get (as_store srv) (s_username s) = Some u \<and> usr_Role u = s_role s))"

definition has_admin :: "AdminServer \<Rightarrow> bool" where
  "has_admin srv \<longleftrightarrow> (\<exists>n u. store_Get (as_store srv) n = Some u \<and> usr_Role u = RoleAdmin)"

lemma audit_srv_simps [simp]:
  "as_sess (audit_srv now io a b c srv) = as_sess srv"
  "store_Get (as_store (audit_srv now io a b c srv)) k = store_Get (as_store srv) k"
  by (simp_all add: audit_srv_def)

lemma Get_name: "store_Get st n = Some u \<Longrightarrow> usr_Username u = n"
  by (auto simp: store_Get_def find_Some_iff)

lemma backed_frame:
  assumes "sessions_backed srv" "sm_sessions (as_sess srv') = sm_sessions (as_sess srv)"
    and "\<And>n u. store_Get (as_store srv) n = Some u \<Longrightarrow>
      \<exists>u'. store_Get (as_store srv') n = Some u' \<and> usr_Role u' = usr_Role u"
  shows "sessions_backed srv'"
  using assms unfolding sessions_backed_def by (auto, metis)

lemma admin_frame:
  assumes "has_admin srv"
    and "\<And>n u. store_Get (as_store srv) n = Some u \<Longrightarrow>
      \<exists>u'. store_Get (as_store srv') n = Some u' \<and> usr_Role u' = usr_Role u"
  shows "has_admin srv'"
  using assms unfolding has_admin_def by metis

lemma after_get_backed: "sessions_backed srv \<Longrightarrow> sessions_backed (after_get now r srv)"
  by (auto simp: sessions_backed_def after_get_def sess_get_def Let_def split: option.splits if_splits)

lemma authorised_backed:
  assumes "sessions_backed srv" "authorised cap now r srv sess"
  obtains u where "store_Get (as_store srv) (s_username sess) = Some u" "usr_Role u = s_role sess"
proof -
  obtain c s0 where "lookup (sm_sessions (as_sess srv)) c = Some s0" "s_username s0 = s_username sess"
    "s_role s0 = s_role sess"
    using assms(2) by (auto simp: authorised_def sess_get_def Let_def split: option.splits if_splits)
  with assms(1) that show ?thesis unfolding sessions_backed_def by metis
qed

lemma lock_ops_sessions [simp]:
  "sm_sessions (recordFailure t u m) = sm_sessions m"
  "sm_sessions (recordIPFailure t ip m) = sm_sessions m"
  "sm_sessions (recordSuccess u m) = sm_sessions m"
  by (simp_all add: recordFailure_def recordIPFailure_def recordSuccess_def Let_def)

lemma login_result:
  obtains (refused) "sm_sessions (as_sess (snd (handleLogin verify dummy now io tok1 tok2 r body srv))) =
      sm_sessions (as_sess srv)"
    "rp_cookie (fst (handleLogin verify dummy now io tok1 tok2 r body srv)) = None"
  | (accepted) req u where "body = Inr req" "\<not> ipLocked now (as_sess srv) (rq_IP r)"
    "\<not> locked now (as_sess srv) (lr_Username req)"
    "store_Get (as_store srv) (lr_Username req) = Some u" "\<not> usr_Disabled u"
    "verify (lr_Password req) (usr_Hash u)"
    "sm_sessions (as_sess (snd (handleLogin verify dummy now io tok1 tok2 r body srv))) =
      put tok1 \<lparr>s_id = tok1, s_username = usr_Username u, s_role = usr_Role u, s_csrf = tok2,
                s_expires = now + sm_idleTimeout (as_sess srv)\<rparr> (sm_sessions (as_sess srv))"
    "rp_cookie (fst (handleLogin verify dummy now io tok1 tok2 r body srv)) = Some tok1"
proof (cases body)
  case (Inl code)
  then show ?thesis
    by (intro refused) (simp_all add: handleLogin_def decode_error_def http_error_def)
next
  case body: (Inr req)
  show ?thesis
  proof (cases "ipLocked now (as_sess srv) (rq_IP r) \<or> locked now (as_sess srv) (lr_Username req)")
    case True
    with body show ?thesis by (intro refused) (auto simp: handleLogin_def Let_def http_error_def)
  next
    case unlocked: False
    show ?thesis
    proof (cases "\<exists>u. store_Get (as_store srv) (lr_Username req) = Some u \<and> \<not> usr_Disabled u \<and>
        verify (lr_Password req) (usr_Hash u)")
      case True
      then obtain u where "store_Get (as_store srv) (lr_Username req) = Some u" "\<not> usr_Disabled u"
        "verify (lr_Password req) (usr_Hash u)" by blast
      with body unlocked show ?thesis
        by (intro accepted[of req u])
          (simp_all add: handleLogin_def sess_create_def recordSuccess_def Let_def)
    next
      case False
      with body unlocked show ?thesis
        by (intro refused) (auto simp: handleLogin_def Let_def http_error_def split: option.splits)
    qed
  qed
qed

lemma login_store [simp]:
  "store_Get (as_store (snd (handleLogin verify dummy now io tok1 tok2 r body srv))) k =
     store_Get (as_store srv) k"
  by (auto simp: handleLogin_def Let_def split: sum.splits option.splits prod.splits)

lemma login_backed:
  "sessions_backed srv \<Longrightarrow> sessions_backed (snd (handleLogin verify dummy now io tok1 tok2 r body srv))"
proof -
  assume b: "sessions_backed srv"
  show ?thesis
  proof (cases rule: login_result[of verify dummy now io tok1 tok2 r body srv])
    case refused
    with b show ?thesis by (auto simp: sessions_backed_def)
  next
    case (accepted req u)
    then have "usr_Username u = lr_Username req" by (auto dest: Get_name)
    with accepted b show ?thesis by (auto simp: sessions_backed_def)
  qed
qed

text \<open>The guarded handlers: a removed account loses its sessions, a new one has none.\<close>

lemma logout_backed: "sessions_backed srv \<Longrightarrow> sessions_backed (snd (handleLogout sess srv))"
  by (auto simp: sessions_backed_def handleLogout_def sess_destroy_def split: if_splits)

lemma change_password_frame:
  "store_Get (as_store srv) n = Some u \<Longrightarrow>
     \<exists>u'. store_Get (as_store (snd (handleChangePassword verify hash now io io' body sess srv))) n = Some u' \<and>
       usr_Role u' = usr_Role u"
  "as_sess (snd (handleChangePassword verify hash now io io' body sess srv)) = as_sess srv"
  using Get_SetPassword[of io "s_username sess" "hash (pr_New (projr body))" "as_store srv" n]
  by (auto simp: handleChangePassword_def Let_def split: sum.splits option.splits prod.splits if_splits)

lemma create_frame:
  "store_Get (as_store srv) n = Some u \<Longrightarrow>
     store_Get (as_store (snd (handleUserCreate hash now io io' body sess srv))) n = Some u"
  "as_sess (snd (handleUserCreate hash now io io' body sess srv)) = as_sess srv"
  by (auto simp: handleUserCreate_def split: sum.splits option.splits prod.splits)
    (metis Get_Upsert User.select_convs(1) option.distinct(1) snd_conv)+

lemma set_password_frame:
  "store_Get (as_store srv) n = Some u \<Longrightarrow>
     \<exists>u'. store_Get (as_store (snd (handleUserSetPassword hash now io io' name body sess srv))) n = Some u' \<and>
       usr_Role u' = usr_Role u"
  using Get_SetPassword[of io name "hash (projr body)" "as_store srv" n]
  by (auto simp: handleUserSetPassword_def split: sum.splits option.splits prod.splits if_splits)

lemma set_password_backed:
  assumes "sessions_backed srv"
  shows "sessions_backed (snd (handleUserSetPassword hash now io io' name body sess srv))"
proof -
  let ?srv = "snd (handleUserSetPassword hash now io io' name body sess srv)"
  have "as_sess ?srv = as_sess srv \<or> as_sess ?srv = destroyUser name (as_sess srv)"
    by (auto simp: handleUserSetPassword_def split: sum.splits option.splits prod.splits)
  then show ?thesis
  proof
    assume "as_sess ?srv = as_sess srv"
    then show ?thesis using assms set_password_frame by (intro backed_frame[OF assms]) simp_all
  next
    assume d: "as_sess ?srv = destroyUser name (as_sess srv)"
    have "sessions_backed (srv\<lparr>as_sess := destroyUser name (as_sess srv)\<rparr>)"
      using assms by (auto simp: sessions_backed_def destroyUser_def lookup_del_if split: option.splits if_splits)
    then show ?thesis
    proof (rule backed_frame)
      show "\<exists>u'. store_Get (as_store ?srv) n = Some u' \<and> usr_Role u' = usr_Role u"
        if "store_Get (as_store (srv\<lparr>as_sess := destroyUser name (as_sess srv)\<rparr>)) n = Some u" for n u
        using that by (intro set_password_frame) simp
    qed (simp add: d)
  qed
qed

lemma delete_result:
  "snd (handleUserDelete now None io' name sess srv) = srv \<and> name = s_username sess \<or>
   name \<noteq> s_username sess \<and>
   as_sess (snd (handleUserDelete now None io' name sess srv)) = destroyUser name (as_sess srv) \<and>
   (\<forall>k. store_Get (as_store (snd (handleUserDelete now None io' name sess srv))) k =
      (if k = name then None else store_Get (as_store srv) k))"
  using Get_Delete[of None name "as_store srv"]
  by (auto simp: handleUserDelete_def store_Delete_def store_save_def)

lemma delete_backed:
  assumes "sessions_backed srv"
  shows "sessions_backed (snd (handleUserDelete now None io' name sess srv))"
  using delete_result[of now io' name sess srv] assms
  by (auto simp: sessions_backed_def destroyUser_def lookup_del_if split: option.splits if_splits)

lemma guarded_backed:
  assumes "sessions_backed srv" "\<And>sess s. sessions_backed s \<Longrightarrow> sessions_backed (snd (h sess s))"
  shows "sessions_backed (snd (withAuth cap h now r srv))"
  using after_get_backed[OF assms(1), of now r] assms(2)
  by (cases rule: withAuth_cases[of cap now r srv h]) auto

lemma admin_step_backed: "admin_step verify dummy hash srv srv' \<Longrightarrow> sessions_backed srv \<Longrightarrow> sessions_backed srv'"
proof (induction rule: admin_step.induct)
  case (change_password srv now io io' pbody r)
  have "sessions_backed (snd (handleChangePassword verify hash now io io' pbody sess s))"
    if "sessions_backed s" for sess s
    using that by (rule backed_frame) (simp_all add: change_password_frame)
  with change_password show ?case by (intro guarded_backed)
next
  case (user_create srv now io io' cbody r)
  have "sessions_backed (snd (handleUserCreate hash now io io' cbody sess s))"
    if "sessions_backed s" for sess s
    using that by (rule backed_frame) (simp_all add: create_frame)
  with user_create show ?case by (intro guarded_backed)
qed (auto intro!: guarded_backed intro: login_backed logout_backed delete_backed set_password_backed)

lemma guarded_admin:
  assumes "has_admin srv"
    and "\<And>sess s. authorised cap now r srv sess \<Longrightarrow> s = after_get now r srv \<Longrightarrow> has_admin s \<Longrightarrow>
      has_admin (snd (h sess s))"
  shows "has_admin (snd (withAuth cap h now r srv))"
proof -
  have "has_admin (after_get now r srv)" using assms(1) by (simp add: has_admin_def)
  then show ?thesis using assms(2) by (cases rule: withAuth_cases[of cap now r srv h]) auto
qed

lemma users_manage_admin: "Can role ''users.manage'' \<Longrightarrow> role = RoleAdmin"
  by (auto simp: Can_def roleCaps_def split: if_splits)

lemma admin_step_admin:
  "admin_step verify dummy hash srv srv' \<Longrightarrow> sessions_backed srv \<Longrightarrow> has_admin srv \<Longrightarrow> has_admin srv'"
proof (induction rule: admin_step.induct)
  case (user_delete srv now io' name r)
  show ?case
  proof (rule guarded_admin[OF user_delete(2)])
    fix sess s assume a: "authorised ''users.manage'' now r srv sess" and s: "s = after_get now r srv" "has_admin s"
    obtain u where "store_Get (as_store srv) (s_username sess) = Some u" "usr_Role u = s_role sess"
      using authorised_backed[OF user_delete(1) a] by blast
    moreover have "s_role sess = RoleAdmin"
      using a users_manage_admin by (simp add: authorised_def)
    ultimately have u: "store_Get (as_store s) (s_username sess) = Some u" "usr_Role u = RoleAdmin"
      by (simp_all add: s(1))
    have "store_Get (as_store (snd (handleUserDelete now None io' name sess s))) (s_username sess) = Some u"
      using delete_result[of now io' name sess s] u(1) by auto
    with u(2) show "has_admin (snd (handleUserDelete now None io' name sess s))"
      unfolding has_admin_def by blast
  qed
qed (auto simp: has_admin_def[of "snd (handleLogin _ _ _ _ _ _ _ _ _)"] intro!: guarded_admin
      intro: admin_frame change_password_frame create_frame set_password_frame,
    auto simp: has_admin_def handleLogout_def)

lemma admin_run:
  "(admin_step verify dummy hash)\<^sup>*\<^sup>* srv srv' \<Longrightarrow> sessions_backed srv \<Longrightarrow> has_admin srv \<Longrightarrow>
   sessions_backed srv' \<and> has_admin srv'"
  by (induction rule: rtranclp_induct) (auto intro: admin_step_backed admin_step_admin)

subsection \<open>Properties\<close>

text \<open>C6: A guarded handler runs only for a request whose cookie names a live session, whose CSRF
  token is that session's unless the method is GET or HEAD, whose role has the capability, and
  whose account is not waiting for a password change (three paths excepted); any other request is
  answered 401 or 403 with no cookie set, and changes neither accounts nor audit log.\<close>

theorem withAuth_guards:
  "(\<exists>sess. authorised capability now r srv sess \<and>
      withAuth capability h now r srv = h sess (after_get now r srv)) \<or>
   (\<forall>sess. \<not> authorised capability now r srv sess) \<and>
   rp_status (fst (withAuth capability h now r srv)) \<in> {401, 403} \<and>
   rp_cookie (fst (withAuth capability h now r srv)) = None \<and>
   as_store (snd (withAuth capability h now r srv)) = as_store srv"
  by (cases rule: withAuth_cases[of capability now r srv h]) auto

definition ex_srv :: AdminServer where
  "ex_srv = \<lparr>as_store = ex_store,
     as_sess = (newSessionManager 10)\<lparr>sm_sessions :=
       [(''sid'', \<lparr>s_id = ''sid'', s_username = ''abe'', s_role = ''viewer'', s_csrf = ''tok'', s_expires = 9\<rparr>),
        (''adm'', \<lparr>s_id = ''adm'', s_username = ''ann'', s_role = ''admin'', s_csrf = ''t2'', s_expires = 9\<rparr>)]\<rparr>\<rparr>"

definition ex_req :: request where
  "ex_req = \<lparr>rq_Method = ''POST'', rq_Path = ''/api/users'', rq_Cookie = Some ''sid'', rq_CSRF = ''tok'', rq_IP = ''::1''\<rparr>"

text \<open>C34: A login succeeds, setting a session cookie, only for an existing, enabled account whose
  password verifies, from an address and for a name that are not locked; the new session carries
  the account's name and role. Otherwise no session appears.\<close>

theorem login_sound:
  "let (resp, srv') = handleLogin verify dummy now io tok1 tok2 r body srv in
    (rp_cookie resp = None \<and> sm_sessions (as_sess srv') = sm_sessions (as_sess srv)) \<or>
    (\<exists>req u. body = Inr req \<and> \<not> ipLocked now (as_sess srv) (rq_IP r) \<and>
       \<not> locked now (as_sess srv) (lr_Username req) \<and>
       store_Get (as_store srv) (lr_Username req) = Some u \<and> \<not> usr_Disabled u \<and>
       verify (lr_Password req) (usr_Hash u) \<and> rp_cookie resp = Some tok1 \<and>
       sm_sessions (as_sess srv') =
         put tok1 \<lparr>s_id = tok1, s_username = usr_Username u, s_role = usr_Role u, s_csrf = tok2,
                   s_expires = now + sm_idleTimeout (as_sess srv)\<rparr> (sm_sessions (as_sess srv)))"
  by (cases rule: login_result[of verify dummy now io tok1 tok2 r body srv])
    (auto simp: Let_def split: prod.splits)

text \<open>C7: With local accounts and successful account saves, in every state reachable from one where
  it holds, each session belongs to an existing account and has that account's role, and some
  account has the administrator role: no sequence of requests, whoever sends them, removes the
  last administrator or leaves a session of a removed account.\<close>

theorem sessions_backed_and_admin_remains:
  assumes "sessions_backed srv" "has_admin srv" "(admin_step verify dummy hash)\<^sup>*\<^sup>* srv srv'"
  shows "sessions_backed srv' \<and> has_admin srv'"
  using admin_run[OF assms(3,1,2)] .

theorem sessions_backed_and_admin_remains_witness:
  "has_admin (snd (withAuth ''users.manage'' (handleUserDelete 5 None None ''abe'') 5 ex_req ex_srv))"
proof -
  have "sessions_backed ex_srv"
    by (auto simp: sessions_backed_def ex_srv_def newSessionManager_def wf_map_def ex_store_def ex_user_def
        store_Get_def users_of_def)
  moreover have "store_Get (as_store ex_srv) ''ann'' = Some ex_user" "usr_Role ex_user = RoleAdmin"
    by code_simp+
  then have "has_admin ex_srv" unfolding has_admin_def by blast
  moreover have "admin_step (\<lambda>_ _. True) [] id ex_srv
      (snd (withAuth ''users.manage'' (handleUserDelete 5 None None ''abe'') 5 ex_req ex_srv))"
    by (rule admin_step.user_delete)
  ultimately show ?thesis
    using sessions_backed_and_admin_remains r_into_rtranclp by metis
qed

text \<open>When the save of an account removal fails, the account is gone from memory but its
  sessions are not destroyed: a request with such a session still passes the guard with the role
  the removed account had.\<close>

theorem failed_delete_leaves_sessions:
  assumes "name \<noteq> s_username sess"
    and "authorised cap now r srv s" "s_username s = name"
  shows "let srv' = snd (handleUserDelete t (Some e) io' name sess srv) in
    store_Get (as_store srv') name = None \<and> authorised cap now r srv' s"
proof -
  have d: "as_sess (snd (handleUserDelete t (Some e) io' name sess srv)) = as_sess srv"
    "store_Get (as_store (snd (handleUserDelete t (Some e) io' name sess srv))) name = None"
    using assms(1) Get_Delete[of "Some e" name "as_store srv" name]
    by (auto simp: handleUserDelete_def store_Delete_def store_save_def)
  then show ?thesis using assms(2,3) by (auto simp: authorised_def Let_def)
qed

theorem failed_delete_leaves_sessions_witness:
  "let viewer = \<lparr>s_id = ''v'', s_username = ''zoe'', s_role = ''admin'', s_csrf = ''t9'', s_expires = 9\<rparr>;
       srv = ex_srv\<lparr>as_store := set_users [ex_user\<lparr>usr_MustChange := False\<rparr>] ex_store\<rparr>;
       srv' = snd (handleUserDelete 4 (Some (Err ''disk full'')) None ''ann'' viewer srv)
   in store_Get (as_store srv') ''ann'' = None"
proof -
  let ?srv = "ex_srv\<lparr>as_store := set_users [ex_user\<lparr>usr_MustChange := False\<rparr>] ex_store\<rparr>"
  let ?s = "\<lparr>s_id = ''adm'', s_username = ''ann'', s_role = ''admin'', s_csrf = ''t2'', s_expires = 15\<rparr>"
  let ?r = "\<lparr>rq_Method = ''GET'', rq_Path = ''/api/users'', rq_Cookie = Some ''adm'', rq_CSRF = [], rq_IP = ''::1''\<rparr>"
  let ?v = "\<lparr>s_id = ''v'', s_username = ''zoe'', s_role = ''admin'', s_csrf = ''t9'', s_expires = 9\<rparr>"
  have "authorised ''users.manage'' 5 ?r ?srv ?s"
    by (auto simp: authorised_def ex_srv_def newSessionManager_def sess_get_def Let_def Can_def roleCaps_def
        role_defs store_Get_def set_users_def users_of_def ex_store_def ex_user_def)
  moreover have "''ann'' \<noteq> s_username ?v" "s_username ?s = ''ann''" by simp_all
  ultimately show ?thesis
    using failed_delete_leaves_sessions[of "''ann''" ?v "''users.manage''" 5 ?r ?srv ?s 4 "Err ''disk full''" None]
    unfolding Let_def by blast
qed

text \<open>Removals that two administrators make of each other, each past the guard before the other
  acts, leave neither account: the rule that nobody removes their own account does not keep an
  administrator when requests overlap.\<close>

theorem concurrent_deletes_remove_both:
  assumes "a \<noteq> b" "s_username sa = a" "s_username sb = b"
  shows "let srv1 = snd (handleUserDelete t io i b sa srv); srv2 = snd (handleUserDelete t' io2 i2 a sb srv1) in
    store_Get (as_store srv2) a = None \<and> store_Get (as_store srv2) b = None \<and>
    (\<forall>k. k \<notin> {a, b} \<longrightarrow> store_Get (as_store srv2) k = store_Get (as_store srv) k)"
proof -
  have del: "store_Get (as_store (snd (handleUserDelete t io i n s srv))) k =
      (if k = n then None else store_Get (as_store srv) k)" if "n \<noteq> s_username s" for t io i n s srv k
    using that Get_Delete[of io n "as_store srv" k]
    by (auto simp: handleUserDelete_def store_Delete_def store_save_def split: option.splits)
  show ?thesis using assms by (auto simp: Let_def del)
qed

theorem concurrent_deletes_remove_both_witness:
  "store_Get (as_store (snd (handleUserDelete 4 None None ''abe'' (snd (sm_sessions (as_sess ex_srv) ! 1))
     (snd (handleUserDelete 4 None None ''ann'' (snd (sm_sessions (as_sess ex_srv) ! 0)) ex_srv))))) ''ann'' = None"
  using concurrent_deletes_remove_both[of "''abe''" "''ann''" "snd (sm_sessions (as_sess ex_srv) ! 0)"
      "snd (sm_sessions (as_sess ex_srv) ! 1)" 4 None None ex_srv 4 None None]
  by (simp add: Let_def ex_srv_def)



end
