(* ===== verification/Startup.thy ===== *)
theory Startup
  imports Lifecycle Listener Certgen Admin
begin

text \<open>
  The life of the process around the parts of the other theories: the rest of \<^verbatim>\<open>Run\<close> of
  \<^verbatim>\<open>internal/server/server.go\<close> (the listeners it binds, the loop over signals and failures, the gauges it adds
  to the metrics, the kill switch, the recorder around the answer), the health endpoints of
  \<^verbatim>\<open>internal/observability/observability.go\<close>, \<^verbatim>\<open>internal/sdnotify\<close>, and the commands of
  \<^verbatim>\<open>cmd/mirage-chaff/main.go\<close>. Binding of sockets, running of scripts and the clock are arguments.
\<close>

subsection \<open>Listeners\<close>

datatype service = InterceptHTTP | InterceptHTTPS | HTTP3 | QUICRelay | AdminUI

record bound =
  bd_service :: service
  bd_network :: string
  bd_addr :: string
  bd_limit :: int

definition listen_network :: "Config \<Rightarrow> string" where
  "listen_network cfg = (if \<not> li_IPv6 (c_Listen cfg) then ''tcp4'' else ''tcp'')"

text \<open>A limit of zero or less is none.\<close>

definition limitedListen :: "Config \<Rightarrow> service \<Rightarrow> string \<Rightarrow> bound" where
  "limitedListen cfg svc addr =
     \<lparr>bd_service = svc, bd_network = listen_network cfg, bd_addr = addr,
      bd_limit = (let n = rc_MaxConns (c_Resources cfg) in if n > 0 then n else 0)\<rparr>"

definition srv_serve :: "Config \<Rightarrow> service \<Rightarrow> string \<Rightarrow> bool \<Rightarrow> bound" where
  "srv_serve cfg svc addr limit =
     (if limit then limitedListen cfg svc addr
      else \<lparr>bd_service = svc, bd_network = listen_network cfg, bd_addr = addr, bd_limit = 0\<rparr>)"

definition startQUIC :: "Config \<Rightarrow> bound" where
  "startQUIC cfg =
     \<lparr>bd_service = (if pr_HTTP3 (c_Protocols cfg) then HTTP3 else QUICRelay), bd_network = ''udp'',
      bd_addr = li_HTTPS (c_Listen cfg), bd_limit = 0\<rparr>"

text \<open>What \<^verbatim>\<open>Run\<close> binds, in its order; \<open>issuer\<close> says whether the intermediate CA was usable.\<close>

definition wanted :: "Config \<Rightarrow> bool \<Rightarrow> bound list" where
  "wanted cfg issuer =
     (if pr_HTTP1 (c_Protocols cfg) \<and> li_HTTP (c_Listen cfg) \<noteq> []
      then [srv_serve cfg InterceptHTTP (li_HTTP (c_Listen cfg)) True] else []) @
     (if issuer \<and> li_HTTPS (c_Listen cfg) \<noteq> [] then [limitedListen cfg InterceptHTTPS (li_HTTPS (c_Listen cfg))] else []) @
     (if pr_QUIC (c_Protocols cfg) \<and> issuer \<and> li_HTTPS (c_Listen cfg) \<noteq> [] then [startQUIC cfg] else []) @
     (if ad_Enabled (c_Admin cfg) then [srv_serve cfg AdminUI (ad_Listen (c_Admin cfg)) False] else [])"

text \<open>The first that cannot be bound ends the start.\<close>

fun bind_all :: "(bound \<Rightarrow> error option) \<Rightarrow> bound list \<Rightarrow> bound list \<times> error option" where
  "bind_all bind [] = ([], None)"
| "bind_all bind (b # bs) =
     (case bind b of
        Some e \<Rightarrow> ([], Some e)
      | None \<Rightarrow> (case bind_all bind bs of (opened, r) \<Rightarrow> (b # opened, r)))"

text \<open>The goroutines that send their end on the channel \<^verbatim>\<open>fatal\<close> and block until it takes it: the health
  listener and the TCP servers. Those of UDP give up when the channel is full.\<close>

definition fatal_capacity :: nat where "fatal_capacity = 4"

definition blocking_senders :: "Config \<Rightarrow> bool \<Rightarrow> nat" where
  "blocking_senders cfg issuer =
     1 + length (filter (\<lambda>b. bd_service b \<notin> {HTTP3, QUICRelay}) (wanted cfg issuer))"

subsection \<open>The loop\<close>

datatype loop_event = Shutdown | Hangup life_env | Failed "error option"

record running =
  rn_process :: Process
  rn_ready :: bool
  rn_drained :: bool
  rn_returned :: "error option option"

definition ready_state :: "Process \<Rightarrow> running" where
  "ready_state p = \<lparr>rn_process = p, rn_ready = True, rn_drained = False, rn_returned = None\<rparr>"

definition drain :: "running \<Rightarrow> running" where
  "drain r = r\<lparr>rn_ready := False, rn_drained := True\<rparr>"

text \<open>The events in the order the loop takes them; a reload that panics ends the process (\<open>None\<close>).\<close>

fun main_loop :: "string \<Rightarrow> loop_event list \<Rightarrow> running \<Rightarrow> running option" where
  "main_loop path [] r = Some r"
| "main_loop path (Shutdown # es) r = Some ((drain r)\<lparr>rn_returned := Some None\<rparr>)"
| "main_loop path (Hangup L # es) r =
     (case reload L path (rn_process r) of None \<Rightarrow> None | Some p \<Rightarrow> main_loop path es (r\<lparr>rn_process := p\<rparr>))"
| "main_loop path (Failed None # es) r = main_loop path es r"
| "main_loop path (Failed (Some e) # es) r = Some ((drain r)\<lparr>rn_returned := Some (Some e)\<rparr>)"

text \<open>The scheduler of the managed feeds: a sync of what is due at the start and at each tick until the process
  ends. Each has its time and its clock.\<close>

definition runManagedRewriteScheduler ::
  "env \<Rightarrow> agh_api \<Rightarrow> (time \<times> (string \<Rightarrow> time \<times> time \<times> int \<times> error option)) list \<Rightarrow> Manager \<Rightarrow> Manager" where
  "runManagedRewriteScheduler E api ticks m = fold (\<lambda>(now, clock). SyncDue E api clock now) ticks m"

definition displayPath :: "string \<Rightarrow> string" where
  "displayPath p = (if p = [] then ''(defaults)'' else p)"

definition logUnmatched :: "Engine \<Rightarrow> UnmatchedEntry list" where
  "logUnmatched e = UnmatchedTop 10 e"

subsection \<open>Metrics and health\<close>

definition gauge :: "string \<Rightarrow> string \<Rightarrow> int \<Rightarrow> string" where
  "gauge name help n =
     ''# HELP '' @ name @ '' '' @ help @ nl @ ''# TYPE '' @ name @ '' gauge'' @ nl @ name @ '' '' @ show_int n @ nl"

text \<open>Reading the temporary rules removes the expired ones.\<close>

definition extraMetrics :: "time \<Rightarrow> 'k Issuer option \<Rightarrow> Engine \<Rightarrow> string \<times> Engine" where
  "extraMetrics now issuer e =
     (case TempRules now e of
        (temps, e') \<Rightarrow>
          (gauge ''mirage_chaff_policy_rules'' ''Loaded policy rules.'' (int (length (rs_rules (e_rs e)))) @
           gauge ''mirage_chaff_temp_allows'' ''Active temporary allow overrides.'' (int (length temps)) @
           gauge ''mirage_chaff_unmatched_domains'' ''Distinct unmatched domain/path pairs seen.'' (int (length (UnmatchedTop 0 e'))) @
           (case issuer of
              None \<Rightarrow> []
            | Some iss \<Rightarrow>
                gauge ''mirage_chaff_intermediate_ca_not_after_seconds'' ''Intermediate CA expiry (unix seconds).''
                  (iss_NotAfter iss div second_ns)), e'))"

definition ExecKillSwitch :: "(string \<Rightarrow> bool) \<Rightarrow> (string \<Rightarrow> error option \<times> string) \<Rightarrow> string \<Rightarrow> error option" where
  "ExecKillSwitch exists run env =
     (let path = (if env = [] then ''/usr/local/bin/mirage-chaff-killswitch'' else env) in
      if \<not> exists path then Some (Err (''kill-switch script not found at '' @ path @ '' (set MC_KILLSWITCH)''))
      else (case run path of (Some e, out) \<Rightarrow> Some (Err (error_text e @ '': '' @ out)) | (None, out) \<Rightarrow> None))"

record obs_server =
  os_ready :: bool
  os_metricsOn :: bool
  os_rec :: "Recorder option"
  os_routes :: "(string, string \<Rightarrow> http_response) gomap"

definition obs_Handle :: "string \<Rightarrow> (string \<Rightarrow> http_response) \<Rightarrow> obs_server \<Rightarrow> obs_server" where
  "obs_Handle pattern h s = (if pattern = [] then s else s\<lparr>os_routes := put pattern h (os_routes s)\<rparr>)"

definition registerManagedRewriteFeed :: "Config \<Rightarrow> (string \<Rightarrow> http_response) \<Rightarrow> obs_server \<Rightarrow> obs_server" where
  "registerManagedRewriteFeed cfg feed s =
     (if \<not> cf_Enabled (c_AGHManaged cfg) then s else obs_Handle ''/'' feed s)"

definition plain :: "int \<Rightarrow> string \<Rightarrow> http_response" where
  "plain code body = write_body (body @ nl) (write_header code blank_response)"

definition metrics_text :: "Recorder option \<Rightarrow> string \<Rightarrow> string" where
  "metrics_text rec extra =
     ''# HELP mirage_chaff_up 1 if the server is up.'' @ nl @ ''# TYPE mirage_chaff_up gauge'' @ nl @ ''mirage_chaff_up 1'' @ nl @
     (case rec of None \<Rightarrow> [] | Some r \<Rightarrow> WriteMetrics r) @ extra"

text \<open>The routes of the mux: an exact pattern before the one for everything.\<close>

definition obs_Handler :: "obs_server \<Rightarrow> string \<Rightarrow> string \<Rightarrow> http_response" where
  "obs_Handler s extra path =
     (if path = ''/-/healthy'' then plain 200 ''healthy''
      else if path = ''/ready'' then (if \<not> os_ready s then plain 503 ''not ready'' else plain 200 ''ready'')
      else if path = ''/metrics'' \<and> os_metricsOn s
        then write_body (metrics_text (os_rec s) extra) (set_header ''Content-Type'' ''text/plain; version=0.0.4'' blank_response)
      else
        (case lookup (os_routes s) path of
           Some h \<Rightarrow> h path
         | None \<Rightarrow> (case lookup (os_routes s) ''/'' of Some h \<Rightarrow> h path | None \<Rightarrow> plain_error 404 ''404 page not found'')))"

subsection \<open>The recorder around an answer\<close>

text \<open>The writer below sends an informational status at once and goes on waiting for the final one.\<close>

definition net_write_header :: "int \<Rightarrow> http_response \<Rightarrow> http_response" where
  "net_write_header code w = (if 100 \<le> code \<and> code < 200 \<and> code \<noteq> 101 then w else write_header code w)"

record respRecorder =
  rr_w :: http_response
  rr_status :: int
  rr_n :: int
  rr_wroteHeader :: bool

definition new_rr :: respRecorder where
  "new_rr = \<lparr>rr_w = blank_response, rr_status = 200, rr_n = 0, rr_wroteHeader = False\<rparr>"

definition rr_WriteHeader :: "int \<Rightarrow> respRecorder \<Rightarrow> respRecorder" where
  "rr_WriteHeader code rw =
     (let rw1 = (if \<not> rr_wroteHeader rw then rw\<lparr>rr_status := code, rr_wroteHeader := True\<rparr> else rw)
      in rw1\<lparr>rr_w := net_write_header code (rr_w rw1)\<rparr>)"

definition rr_Write :: "string \<Rightarrow> respRecorder \<Rightarrow> respRecorder" where
  "rr_Write p rw =
     (let rw1 = (if \<not> rr_wroteHeader rw then rw\<lparr>rr_wroteHeader := True\<rparr> else rw)
      in rw1\<lparr>rr_w := write_body p (rr_w rw1), rr_n := rr_n rw1 + int (length p)\<rparr>)"

datatype rr_op = RHeader int | RBody string

fun rr_step :: "rr_op \<Rightarrow> respRecorder \<Rightarrow> respRecorder" where
  "rr_step (RHeader code) = rr_WriteHeader code"
| "rr_step (RBody p) = rr_Write p"

subsection \<open>Notices to systemd\<close>

text \<open>The address a notice is sent to (\<open>None\<close>: not run under systemd); a leading \<^verbatim>\<open>@\<close> is the abstract
  namespace.\<close>

definition Notify :: "string \<Rightarrow> string \<Rightarrow> (string \<times> string) option" where
  "Notify NOTIFY_SOCKET state =
     (case NOTIFY_SOCKET of
        [] \<Rightarrow> None
      | c # rest \<Rightarrow> Some (if c = CHR ''@'' then CHR 0x00 # rest else NOTIFY_SOCKET, state))"

definition Ready :: "string \<Rightarrow> (string \<times> string) option" where "Ready sock = Notify sock ''READY=1''"

definition Stopping :: "string \<Rightarrow> (string \<times> string) option" where "Stopping sock = Notify sock ''STOPPING=1''"

text \<open>\<open>None\<close>: no watchdog. The product is a 64-bit duration in nanoseconds; division truncates.\<close>

definition WatchdogInterval :: "string \<Rightarrow> string \<Rightarrow> int \<Rightarrow> duration option" where
  "WatchdogInterval usec wpid pid =
     (if usec = [] then None
      else if wpid \<noteq> [] \<and> (case ParseInt wpid of Inl _ \<Rightarrow> False | Inr p \<Rightarrow> p \<noteq> pid) then None
      else
        (case ParseInt usec of
           Inl _ \<Rightarrow> None
         | Inr n \<Rightarrow> if n \<le> 0 then None else (let d = wrap64 (n * 1000) in Some (if d < 0 then - ((- d) div 2) else d div 2))))"

datatype wd_event = WdTick | WdStop

fun wd_loop :: "string \<Rightarrow> wd_event list \<Rightarrow> (string \<times> string) option list" where
  "wd_loop sock [] = []"
| "wd_loop sock (WdStop # es) = []"
| "wd_loop sock (WdTick # es) = Notify sock ''WATCHDOG=1'' # wd_loop sock es"

text \<open>A ticker panics for an interval that is not positive.\<close>

definition RunWatchdog :: "string \<Rightarrow> string \<Rightarrow> int \<Rightarrow> string \<Rightarrow> wd_event list \<Rightarrow> (string \<times> string) option list outcome" where
  "RunWatchdog usec wpid pid sock es =
     (case WatchdogInterval usec wpid pid of
        None \<Rightarrow> Ok []
      | Some i \<Rightarrow> if i \<le> 0 then Panic else Ok (wd_loop sock es))"

subsection \<open>Commands\<close>

text \<open>The flags of a command (\<^verbatim>\<open>flag.FlagSet\<close> with the one flag \<^verbatim>\<open>config\<close>); \<open>None\<close> is a usage error or \<^verbatim>\<open>-help\<close>.\<close>

definition defaultConfigPath :: string where
  "defaultConfigPath = ''/etc/mirage-chaff/mirage-chaff.conf''"

fun parse_flags :: "string list \<Rightarrow> string \<Rightarrow> string option" where
  "parse_flags [] path = Some path"
| "parse_flags (a # rest) path =
     (if length a < 2 \<or> hd a \<noteq> CHR ''-'' then Some path
      else if a = ''--'' then Some path
      else
        (let name = (if a ! 1 = CHR ''-'' then drop 2 a else drop 1 a) in
         if name = [] \<or> hd name = CHR ''-'' \<or> hd name = CHR ''='' then None
         else if name = ''config'' then (case rest of [] \<Rightarrow> None | v # rest' \<Rightarrow> parse_flags rest' v)
         else if HasPrefix name ''config='' then parse_flags rest (drop 7 name)
         else None))"

record cmd_end =
  cx_exit :: int
  cx_out :: string
  cx_err :: string

abbreviation ends :: "int \<Rightarrow> string \<Rightarrow> string \<Rightarrow> cmd_end" where
  "ends code out err \<equiv> \<lparr>cx_exit = code, cx_out = out, cx_err = err\<rparr>"

text \<open>\<open>cm_run\<close> is \<^verbatim>\<open>Run\<close> of the server with the configuration and the path.\<close>

record cmd_env =
  cm_life :: life_env
  cm_stat :: "string \<Rightarrow> error option"
  cm_run :: "Config \<Rightarrow> string \<Rightarrow> error option"
  cm_mkdir :: io_result
  cm_unmarshal :: "string \<Rightarrow> error + storeData"
  cm_save :: io_result
  cm_audit :: io_result
  cm_token :: string
  cm_hash :: "string \<Rightarrow> string"

definition load_and_check :: "life_env \<Rightarrow> string \<Rightarrow> cmd_end + Config" where
  "load_and_check L path =
     (case Config_Load (lf_read L) (lf_toml L) path of
        Inl e \<Rightarrow> Inl (ends 1 [] (''config load failed: '' @ error_text e @ nl))
      | Inr cfg \<Rightarrow>
          (case Config_Check (lf_parseDuration L) (lf_parseIP L) cfg of
             Some e \<Rightarrow> Inl (ends 1 [] (''config invalid: '' @ error_text e @ nl))
           | None \<Rightarrow> Inr cfg))"

definition cmdCheck :: "cmd_env \<Rightarrow> string list \<Rightarrow> cmd_end" where
  "cmdCheck E args =
     (case parse_flags args defaultConfigPath of
        None \<Rightarrow> ends 2 [] []
      | Some path \<Rightarrow>
          (case cm_stat E path of
             Some e \<Rightarrow> ends 1 [] (if e = ErrNotExist then ''config load failed: '' @ path @ '' does not exist'' @ nl
                 else ''config load failed: stat '' @ path @ '': '' @ error_text e @ nl)
           | None \<Rightarrow>
               (case load_and_check (cm_life E) path of
                  Inl r \<Rightarrow> r
                | Inr cfg \<Rightarrow> ends 0 (''ok: '' @ path @ '' is valid'' @ nl) [])))"

definition cmdRun :: "cmd_env \<Rightarrow> string list \<Rightarrow> cmd_end" where
  "cmdRun E args =
     (case parse_flags args defaultConfigPath of
        None \<Rightarrow> ends 2 [] []
      | Some path \<Rightarrow>
          (case load_and_check (cm_life E) path of
             Inl r \<Rightarrow> r
           | Inr cfg \<Rightarrow>
               (case cm_run E cfg path of
                  Some e \<Rightarrow> ends 1 [] (''server exited with error: '' @ error_text e @ nl)
                | None \<Rightarrow> ends 0 [] [])))"

definition bootstrap_store :: "cmd_env \<Rightarrow> Store \<Rightarrow> cmd_end \<times> Store" where
  "bootstrap_store E st =
     (case BootstrapInitialAdmin (lf_now (cm_life E)) (cm_save E) (cm_audit E) (cm_token E) (cm_hash E (take 16 (cm_token E))) st of
        (Inl e, st1) \<Rightarrow> (ends 1 [] (''admin bootstrap failed: '' @ error_text e @ nl), st1)
      | (Inr (password, False), st1) \<Rightarrow> (ends 0 (''admin users already exist; bootstrap skipped'' @ nl) [], st1)
      | (Inr (password, True), st1) \<Rightarrow>
          (ends 0 (''created initial admin account '' @ [CHR 0x27] @ ''admin'' @ [CHR 0x27] @ nl @ ''TEMPORARY PASSWORD: '' @ password @ nl @
             ''change on first login'' @ nl) [], st1))"

text \<open>The store afterwards is \<open>None\<close> when it was not opened.\<close>

definition cmdAdminBootstrap :: "cmd_env \<Rightarrow> string list \<Rightarrow> cmd_end \<times> Store option" where
  "cmdAdminBootstrap E args =
     (case parse_flags args defaultConfigPath of
        None \<Rightarrow> (ends 2 [] [], None)
      | Some path \<Rightarrow>
          (case load_and_check (cm_life E) path of
             Inl r \<Rightarrow> (r, None)
           | Inr cfg \<Rightarrow>
               if \<not> ad_Enabled (c_Admin cfg) then (ends 0 (''admin disabled; bootstrap skipped'' @ nl) [], None)
               else
                 (case OpenStore (cm_mkdir E) (lf_read (cm_life E) (Join2 (Join2 (pa_StateDir (c_Paths cfg)) ''admin'') ''admin.json''))
                         (cm_unmarshal E) of
                    Inl e \<Rightarrow> (ends 1 [] (''admin bootstrap failed: '' @ error_text e @ nl), None)
                  | Inr st \<Rightarrow> (case bootstrap_store E st of (r, st1) \<Rightarrow> (r, Some st1)))))"

definition main_command :: "cmd_env \<Rightarrow> string \<Rightarrow> string \<Rightarrow> string list \<Rightarrow> cmd_end" where
  "main_command E version usage args =
     (case args of
        [] \<Rightarrow> ends 2 [] usage
      | c # rest \<Rightarrow>
          if c = ''run'' then cmdRun E rest
          else if c = ''check'' then cmdCheck E rest
          else if c = ''admin-bootstrap'' then fst (cmdAdminBootstrap E rest)
          else if c \<in> {''version'', ''-v'', ''--version''} then ends 0 (''mirage-chaff '' @ version @ nl) []
          else if c \<in> {''help'', ''-h'', ''--help''} then ends 0 [] usage
          else ends 2 [] (''mirage-chaff: unknown command '' @ quote c @ nl @ nl @ usage))"

subsection \<open>Facts about the listeners and the loop\<close>

lemma bind_all_result:
  "\<exists>rest. bs = fst (bind_all bind bs) @ rest \<and> (\<forall>b \<in> set (fst (bind_all bind bs)). bind b = None) \<and>
     (snd (bind_all bind bs) = None \<longleftrightarrow> rest = [])"
proof (induction bs)
  case (Cons b bs)
  then show ?case by (cases "bind b"; cases "bind_all bind bs") auto
qed simp

text \<open>The channel for failures never holds up a goroutine: whatever the configuration, there are at most as
  many goroutines that block on it as it has room, each sends once, and so the wait of the drain does not hang on
  it even when the loop has stopped reading.\<close>

theorem fatal_senders_fit: "blocking_senders cfg issuer \<le> fatal_capacity"
  by (simp add: blocking_senders_def fatal_capacity_def wanted_def srv_serve_def limitedListen_def startQUIC_def)

text \<open>The events that end the loop.\<close>

fun ending :: "loop_event \<Rightarrow> error option option" where
  "ending Shutdown = Some None"
| "ending (Failed (Some e)) = Some (Some e)"
| "ending _ = None"

fun reloads :: "string \<Rightarrow> loop_event list \<Rightarrow> Process \<Rightarrow> Process option" where
  "reloads path [] p = Some p"
| "reloads path (Hangup L # es) p = (case reload L path p of None \<Rightarrow> None | Some p' \<Rightarrow> reloads path es p')"
| "reloads path (_ # es) p = reloads path es p"

lemma main_loop_cases:
  "main_loop path es r = Some r' \<Longrightarrow>
    (\<exists>pre post p. es = pre @ post \<and> list_all (\<lambda>e. ending e = None) pre \<and> reloads path pre (rn_process r) = Some p \<and>
       (post = [] \<and> r' = r\<lparr>rn_process := p\<rparr> \<or>
        (\<exists>e rest x. post = e # rest \<and> ending e = Some x \<and> r' = (drain (r\<lparr>rn_process := p\<rparr>))\<lparr>rn_returned := Some x\<rparr>)))"
proof (induction path es r rule: main_loop.induct)
  case (3 path L es r)
  then obtain p where p: "reload L path (rn_process r) = Some p" "main_loop path es (r\<lparr>rn_process := p\<rparr>) = Some r'"
    by (auto split: option.splits)
  from 3(1)[OF p] obtain pre post q where q: "es = pre @ post" "list_all (\<lambda>e. ending e = None) pre"
    "reloads path pre p = Some q"
    "post = [] \<and> r' = r\<lparr>rn_process := q\<rparr> \<or>
        (\<exists>e rest x. post = e # rest \<and> ending e = Some x \<and> r' = (drain (r\<lparr>rn_process := q\<rparr>))\<lparr>rn_returned := Some x\<rparr>)"
    by auto
  then show ?case using p(1)
    by (intro exI[of _ "Hangup L # pre"] exI[of _ post] exI[of _ q]) simp
next
  case (4 path es r)
  then obtain pre post q where q: "es = pre @ post" "list_all (\<lambda>e. ending e = None) pre"
    "reloads path pre (rn_process r) = Some q"
    "post = [] \<and> r' = r\<lparr>rn_process := q\<rparr> \<or>
        (\<exists>e rest x. post = e # rest \<and> ending e = Some x \<and> r' = (drain (r\<lparr>rn_process := q\<rparr>))\<lparr>rn_returned := Some x\<rparr>)"
    by auto
  then show ?case by (intro exI[of _ "Failed None # pre"] exI[of _ post] exI[of _ q]) simp
next
  case (2 path es r)
  then show ?case by (intro exI[of _ "[]"] exI[of _ "Shutdown # es"] exI[of _ "rn_process r"]) simp
next
  case (5 path e es r)
  then show ?case by (intro exI[of _ "[]"] exI[of _ "Failed (Some e) # es"] exI[of _ "rn_process r"]) simp
qed simp

definition health_server :: "Config \<Rightarrow> (string \<Rightarrow> http_response) \<Rightarrow> running \<Rightarrow> obs_server" where
  "health_server cfg feed r =
     registerManagedRewriteFeed cfg feed
       \<lparr>os_ready = rn_ready r, os_metricsOn = oy_Metrics (c_Observability cfg),
        os_rec = Some (sv_recorder (ps_server (rn_process r))), os_routes = []\<rparr>"


text \<open>The dashboard lists the UDP listener that the configuration asks for, also when the process did not open it.\<close>

theorem dashboard_lists_closed_quic:
  assumes "pr_QUIC (c_Protocols cfg)" "\<not> issuer"
  shows "(\<exists>k \<in> {''http3'', ''quic-passthrough''}. lookup (listenersInfo cfg issuer) k \<noteq> None) \<and>
    (\<forall>b \<in> set (wanted cfg issuer). bd_service b \<notin> {HTTP3, QUICRelay})"
  using assms
  by (auto simp: listenersInfo_def wanted_def srv_serve_def limitedListen_def Let_def)


theorem dashboard_lists_closed_quic_witness:
  "\<exists>k \<in> {''http3'', ''quic-passthrough''}.
     lookup (listenersInfo (Defaults\<lparr>c_Protocols := (c_Protocols Defaults)\<lparr>pr_QUIC := True\<rparr>\<rparr>) False) k \<noteq> None"
  using dashboard_lists_closed_quic[of "Defaults\<lparr>c_Protocols := (c_Protocols Defaults)\<lparr>pr_QUIC := True\<rparr>\<rparr>" False] by simp

subsection \<open>Facts about the recorder\<close>

definition informational :: "rr_op \<Rightarrow> bool" where
  "informational op = (case op of RHeader code \<Rightarrow> 100 \<le> code \<and> code < 200 \<and> code \<noteq> 101 | RBody p \<Rightarrow> False)"

definition rr_true :: "respRecorder \<Rightarrow> bool" where
  "rr_true rw \<longleftrightarrow> rr_status rw = hr_Status (rr_w rw) \<and> rr_n rw = int (length (hr_Body (rr_w rw))) \<and> rr_wroteHeader rw = hr_Wrote (rr_w rw)"

lemma rr_step_true: "rr_true rw \<Longrightarrow> \<not> informational op \<Longrightarrow> rr_true (rr_step op rw)"
  by (cases op) (auto simp: rr_true_def rr_WriteHeader_def rr_Write_def net_write_header_def write_header_def write_body_def
      informational_def Let_def)

text \<open>What the recorder around an answer notes, the status and the number of bytes, is what the client gets,
  however the handler writes, as long as it writes no informational status.\<close>

theorem recorder_notes_the_answer:
  assumes "list_all (\<lambda>op. \<not> informational op) ops"
  shows "rr_status (fold rr_step ops new_rr) = hr_Status (rr_w (fold rr_step ops new_rr)) \<and>
    rr_n (fold rr_step ops new_rr) = int (length (hr_Body (rr_w (fold rr_step ops new_rr))))"
proof -
  have "rr_true rw \<Longrightarrow> rr_true (fold rr_step ops rw)" for rw
    using assms by (induction ops arbitrary: rw) (auto simp: rr_step_true)
  moreover have "rr_true new_rr" by (simp add: rr_true_def new_rr_def blank_response_def)
  ultimately show ?thesis by (simp add: rr_true_def)
qed

theorem recorder_notes_the_answer_witness:
  "rr_status (fold rr_step [RHeader 404, RHeader 200, RBody ''x''] new_rr) =
     hr_Status (rr_w (fold rr_step [RHeader 404, RHeader 200, RBody ''x''] new_rr))"
  using recorder_notes_the_answer[of "[RHeader 404, RHeader 200, RBody ''x'']"] by (simp add: informational_def)

text \<open>A reverse proxy hands on informational answers of the origin, and then the recorder keeps that status.\<close>

lemma early_hints_hide_the_status:
  "let rw = fold rr_step [RHeader 103, RHeader 200, RBody ''x''] new_rr in rr_status rw = 103 \<and> hr_Status (rr_w rw) = 200"
  by code_simp

subsection \<open>Facts about the watchdog\<close>

text \<open>The interval is half of what systemd allows for every value up to 292 years; above that the product wraps, and
  the ticker may get an interval that is not positive.\<close>

theorem watchdog_pings_twice:
  assumes "ParseInt usec = Inr n" "0 < n" "n * 1000 < 2 ^ 63" "usec \<noteq> []" "wpid = []"
  shows "\<exists>i. WatchdogInterval usec wpid pid = Some i \<and> 0 < i \<and> 2 * i = n * 1000"
proof -
  have "wrap64 (n * 1000) = n * 1000" using assms(2,3) by (intro wrap64_id) (simp add: is_int64_def)
  with assms show ?thesis by (auto simp: WatchdogInterval_def Let_def intro!: exI[of _ "n * 500"])
qed

theorem watchdog_pings_twice_witness: "WatchdogInterval ''30000000'' [] 7 = Some (15 * second_ns)"
proof -
  have "ParseInt ''30000000'' = Inr 30000000" by (simp add: ParseInt_def dec_value_def is_digit_def digit_value_def)
  from watchdog_pings_twice[OF this, of "[]" 7] show ?thesis by (auto simp: second_ns_def)
qed

lemma watchdog_overflow_panics: "RunWatchdog ''9300000000000000'' [] 7 ''s'' [] = Panic"
proof -
  have "ParseInt ''9300000000000000'' = Inr 9300000000000000" by (simp add: ParseInt_def dec_value_def is_digit_def digit_value_def)
  then show ?thesis by (simp add: RunWatchdog_def WatchdogInterval_def wrap64_def Let_def)
qed

subsection \<open>Facts about the commands\<close>

lemma load_and_check_Inr:
  "load_and_check L path = Inr cfg \<longleftrightarrow>
     Config_Load (lf_read L) (lf_toml L) path = Inr cfg \<and> Config_Check (lf_parseDuration L) (lf_parseIP L) cfg = None"
  by (auto simp: load_and_check_def split: sum.split option.split)

lemma checked_resolvers: "Config_Check pd ip cfg = None \<Longrightarrow> \<exists>ups. New_Resolver (c_Resolvers cfg) = Inr ups"
proof -
  assume "Config_Check pd ip cfg = None"
  then have "check_head cfg = None" by (simp add: Config_Check_def Let_def)
  then have "c_Resolvers cfg \<noteq> []" unfolding check_head_None by blast
  then show ?thesis by (simp add: New_Resolver_def)
qed


definition ex_cmd :: "life_env \<Rightarrow> cmd_env" where
  "ex_cmd L = \<lparr>cm_life = L, cm_stat = (\<lambda>_. None), cm_run = (\<lambda>cfg path. case server_start L cfg of Ok _ \<Rightarrow> None | Fail e \<Rightarrow> Some e | Panic \<Rightarrow> Some (Err ''panic'')),
     cm_mkdir = None, cm_unmarshal = (\<lambda>_. Inr \<lparr>sd_Users = [], sd_Audit = []\<rparr>), cm_save = None, cm_audit = None,
     cm_token = ''0123456789abcdef0123'', cm_hash = id\<rparr>"

lemma ex_checked: "cx_exit (cmdCheck (ex_cmd ex_life) [''-config'', ''x'']) = 0"
  by code_simp


text \<open>The usage text says that \<^verbatim>\<open>check\<close> validates the policy and the catalog too; it does not read them.\<close>

theorem check_passes_a_missing_catalog:
  "let E = ex_cmd (ex_life\<lparr>lf_read := (\<lambda>p. Inl ErrNotExist)\<rparr>) in
     cx_exit (cmdCheck E [''-config'', ''x'']) = 0 \<and> cx_exit (cmdRun E [''-config'', ''x'']) = 1"
  by code_simp

text \<open>The bootstrap makes an account only in a store that has none, so a second run changes nothing.\<close>

theorem bootstrap_makes_one_account:
  "UserCount (snd (bootstrap_store E st)) = (if UserCount st = 0 then 1 else UserCount st) \<and>
   (let st1 = snd (bootstrap_store E st) in
      bootstrap_store E' st1 = (ends 0 (''admin users already exist; bootstrap skipped'' @ nl) [], st1))"
proof -
  have 1: "UserCount (snd (bootstrap_store E st)) = (if UserCount st = 0 then 1 else UserCount st)"
    by (cases "cm_save E")
      (auto simp: bootstrap_store_def BootstrapInitialAdmin_def Let_def UserCount_def store_Upsert_def store_Audit_def
        users_of_def set_users_def store_save_def split: option.splits)
  then have "UserCount (snd (bootstrap_store E st)) > 0" by (simp split: if_splits)
  then have "bootstrap_store E' (snd (bootstrap_store E st)) =
      (ends 0 (''admin users already exist; bootstrap skipped'' @ nl) [], snd (bootstrap_store E st))"
    by (simp add: bootstrap_store_def[of E'] BootstrapInitialAdmin_def)
  with 1 show ?thesis by (simp add: Let_def)
qed

end
