(* ===== verification/AdminPolicy.thy ===== *)
theory AdminPolicy
  imports Admin Engine
begin

text \<open>
  A part of the admin backend: the route table of \<^verbatim>\<open>Handler\<close> and its
  dispatch, and the handlers of \<^verbatim>\<open>handlers.go\<close> that edit policy files or install
  temporary rules, over the account store, the policy engine and the policy directory.

  The directory is a map from file names to contents. A failed write of a file gives the error
  and, since \<^verbatim>\<open>os.WriteFile\<close> truncates first, what the file holds afterwards.
\<close>

subsection \<open>Routes\<close>

text \<open>Method, pattern, capability (\<open>None\<close>: no guard; \<open>Some []\<close>: any session) and handler.\<close>

type_synonym route = "string \<times> string \<times> string option \<times> string"

definition base_routes :: "route list" where
  "base_routes =
     [(''GET'', ''/api/authinfo'', None, ''handleAuthInfo''),
      (''POST'', ''/api/login'', None, ''handleLogin''),
      (''POST'', ''/api/logout'', Some [], ''handleLogout''),
      (''GET'', ''/api/me'', Some [], ''handleMe''),
      (''POST'', ''/api/me/password'', Some [], ''handleChangePassword''),
      (''GET'', ''/api/dashboard'', Some ''dashboard.view'', ''handleDashboard''),
      (''GET'', ''/api/traffic'', Some ''traffic.view'', ''handleTraffic''),
      (''GET'', ''/api/traffic/stream'', Some ''traffic.view'', ''handleTrafficStream''),
      (''GET'', ''/api/curation'', Some ''policy.view'', ''handleCuration''),
      (''GET'', ''/api/policy'', Some ''policy.view'', ''handlePolicyList''),
      (''GET'', ''/api/policy/{name}'', Some ''policy.view'', ''handlePolicyGet''),
      (''GET'', ''/api/catalog'', Some ''catalog.view'', ''handleCatalogList''),
      (''GET'', ''/api/rule-catalog'', Some ''catalog.view'', ''handleRuleCatalogList''),
      (''GET'', ''/api/rule-catalog/{id}'', Some ''catalog.view'', ''handleRuleCatalogGet''),
      (''GET'', ''/api/rule-catalog/cname-candidates'', Some ''catalog.view'', ''handleAnalyticsCNAMECandidates''),
      (''GET'', ''/api/agh-sync/status'', Some ''catalog.view'', ''handleAGHSyncStatus''),
      (''GET'', ''/api/agh/sources'', Some ''catalog.view'', ''handleAGHManagedSources''),
      (''GET'', ''/api/agh/sources/{id}/entries'', Some ''catalog.view'', ''handleAGHManagedSourceEntries''),
      (''GET'', ''/api/agh/sources/{id}/pending-diff'', Some ''catalog.view'', ''handleAGHManagedSourcePendingDiff''),
      (''GET'', ''/api/agh/rewrite-feed/status'', Some ''catalog.view'', ''handleAGHManagedFeedStatus''),
      (''GET'', ''/api/agh/rewrite-feed/target'', Some ''catalog.view'', ''handleAGHManagedTargetConfig''),
      (''GET'', ''/api/agh/rewrite-feed/scheduler'', Some ''catalog.view'', ''handleAGHManagedSchedulerConfig''),
      (''GET'', ''/api/agh/rewrite-feed/agh-status'', Some ''catalog.view'', ''handleAGHManagedAGHStatus''),
      (''GET'', ''/api/agh/rewrite-feed/preview'', Some ''catalog.view'', ''handleAGHManagedFeedPreview''),
      (''GET'', ''/api/agh/rewrite-feed/export'', Some ''catalog.view'', ''handleAGHManagedFeedExport''),
      (''GET'', ''/api/agh/history'', Some ''catalog.view'', ''handleAGHManagedHistory''),
      (''GET'', ''/api/agh/managed-catalog/facets'', Some ''catalog.view'', ''handleAGHManagedCatalogFacets''),
      (''GET'', ''/api/agh/managed-catalog'', Some ''catalog.view'', ''handleAGHManagedCatalog''),
      (''GET'', ''/api/agh/managed-catalog/conflicts'', Some ''catalog.view'', ''handleAGHManagedConflicts''),
      (''GET'', ''/api/agh/managed-catalog/rollbacks'', Some ''catalog.view'', ''handleAGHManagedRollbacks''),
      (''GET'', ''/api/triage/context'', Some ''traffic.view'', ''handleTriageContext''),
      (''GET'', ''/api/analytics/summary'', Some ''traffic.view'', ''handleAnalyticsSummary''),
      (''GET'', ''/api/analytics/domains'', Some ''traffic.view'', ''handleAnalyticsDomains''),
      (''GET'', ''/api/analytics/rules'', Some ''traffic.view'', ''handleAnalyticsRules''),
      (''GET'', ''/api/analytics/catalog'', Some ''catalog.view'', ''handleAnalyticsCatalog''),
      (''GET'', ''/api/analytics/js-stubs'', Some ''catalog.view'', ''handleAnalyticsJSStubs''),
      (''GET'', ''/api/analytics/false-positive-candidates'', Some ''catalog.view'', ''handleAnalyticsFalsePositiveCandidates''),
      (''GET'', ''/api/analytics/cname-candidates'', Some ''catalog.view'', ''handleAnalyticsCNAMECandidates''),
      (''GET'', ''/api/config'', Some ''config.view'', ''handleConfigGet''),
      (''GET'', ''/api/audit'', Some ''audit.view'', ''handleAudit''),
      (''PUT'', ''/api/policy/{name}'', Some ''policy.edit'', ''handlePolicyPut''),
      (''PUT'', ''/api/config'', Some ''config.edit'', ''handleConfigPut''),
      (''POST'', ''/api/reload'', Some ''apply.reload'', ''handleReload''),
      (''POST'', ''/api/allow'', Some ''allow.temp'', ''handleTempAllow''),
      (''POST'', ''/api/triage/temp-allow'', Some ''allow.temp'', ''handleTempAllow''),
      (''POST'', ''/api/triage/permanent-allow'', Some ''policy.edit'', ''handlePermanentAllow''),
      (''POST'', ''/api/triage/site-override'', Some ''policy.edit'', ''handleSiteOverride''),
      (''POST'', ''/api/rule-catalog/{id}/review'', Some ''catalog.edit'', ''handleRuleCatalogReview''),
      (''POST'', ''/api/rule-catalog/{id}/promote'', Some ''catalog.edit'', ''handleRuleCatalogPromote''),
      (''POST'', ''/api/rule-catalog/{id}/downgrade'', Some ''catalog.edit'', ''handleRuleCatalogDowngrade''),
      (''POST'', ''/api/rule-catalog/{id}/mark-cname'', Some ''catalog.edit'', ''handleRuleCatalogMarkCNAME''),
      (''POST'', ''/api/agh/rewrite-candidate'', Some ''agh.manage'', ''handleAGHRewriteCandidate''),
      (''POST'', ''/api/agh-sync/run'', Some ''agh.manage'', ''handleAGHSyncRun''),
      (''POST'', ''/api/agh/sources'', Some ''agh.manage'', ''handleAGHManagedSourceUpsert''),
      (''POST'', ''/api/agh/sources/preview'', Some ''agh.manage'', ''handleAGHManagedSourcePreview''),
      (''PUT'', ''/api/agh/sources/{id}'', Some ''agh.manage'', ''handleAGHManagedSourceUpsert''),
      (''DELETE'', ''/api/agh/sources/{id}'', Some ''agh.manage'', ''handleAGHManagedSourceDelete''),
      (''POST'', ''/api/agh/sources/{id}/sync'', Some ''agh.manage'', ''handleAGHManagedSourceSync''),
      (''POST'', ''/api/agh/sources/{id}/approve'', Some ''agh.manage'', ''handleAGHManagedSourceApprove''),
      (''POST'', ''/api/agh/sources/{id}/reject'', Some ''agh.manage'', ''handleAGHManagedSourceReject''),
      (''POST'', ''/api/agh/managed-catalog/bulk'', Some ''agh.manage'', ''handleAGHManagedCatalogBulkPatch''),
      (''PATCH'', ''/api/agh/managed-catalog/{id}'', Some ''agh.manage'', ''handleAGHManagedCatalogPatch''),
      (''POST'', ''/api/agh/managed-catalog/conflicts/{id}/resolve'', Some ''agh.manage'', ''handleAGHManagedConflictResolve''),
      (''POST'', ''/api/agh/managed-catalog/rollbacks/{id}/apply'', Some ''agh.manage'', ''handleAGHManagedRollbackApply''),
      (''PUT'', ''/api/agh/rewrite-feed/target'', Some ''config.edit'', ''handleAGHManagedTargetConfigPut''),
      (''PUT'', ''/api/agh/rewrite-feed/scheduler'', Some ''config.edit'', ''handleAGHManagedSchedulerConfigPut''),
      (''POST'', ''/api/agh/rewrite-feed/refresh-target'', Some ''agh.manage'', ''handleAGHManagedRefreshTarget''),
      (''POST'', ''/api/agh/rewrite-feed/emergency-empty'', Some ''agh.manage'', ''handleAGHManagedEmergencyEmpty''),
      (''POST'', ''/api/agh/rewrite-feed/preset'', Some ''agh.manage'', ''handleAGHManagedPreset''),
      (''POST'', ''/api/agh/rewrite-feed/refresh-agh'', Some ''agh.manage'', ''handleAGHManagedRefreshAGH''),
      (''POST'', ''/api/agh/rewrite-feed/register-agh'', Some ''agh.manage'', ''handleAGHManagedRegisterAGH''),
      (''POST'', ''/api/allow/permanent'', Some ''policy.edit'', ''handlePermanentAllow''),
      (''POST'', ''/api/site-override'', Some ''policy.edit'', ''handleSiteOverride''),
      (''POST'', ''/api/killswitch'', Some ''killswitch.execute'', ''handleKillSwitch''),
      (''GET'', ''/api/users'', Some ''users.manage'', ''handleUserList''),
      (''POST'', ''/api/users'', Some ''users.manage'', ''handleUserCreate''),
      (''DELETE'', ''/api/users/{name}'', Some ''users.manage'', ''handleUserDelete''),
      (''POST'', ''/api/users/{name}/password'', Some ''users.manage'', ''handleUserSetPassword'')]"

definition oidc_routes :: "route list" where
  "oidc_routes =
     [(''GET'', ''/api/oidc/login'', None, ''handleOIDCLogin''),
      (''GET'', ''/api/oidc/callback'', None, ''handleOIDCCallback'')]"

definition admin_routes :: "bool \<Rightarrow> route list" where
  "admin_routes oidc = base_routes @ (if oidc then oidc_routes else [])"

text \<open>
  A pattern matches a path segment by segment; a segment in braces matches any nonempty segment.
  \<^verbatim>\<open>http.ServeMux\<close> takes the most specific matching pattern: here, the one with the fewest
  wildcards. GET patterns also match HEAD.
\<close>

definition segments :: "string \<Rightarrow> string list" where
  "segments s = split_on CHR ''/'' [] s"

definition is_wild :: "string \<Rightarrow> bool" where
  "is_wild seg \<longleftrightarrow> HasPrefix seg ''{'' \<and> HasSuffix seg ''}''"

definition seg_match :: "string \<Rightarrow> string \<Rightarrow> bool" where
  "seg_match pat seg \<longleftrightarrow> (if is_wild pat then seg \<noteq> [] else pat = seg)"

definition pattern_match :: "string \<Rightarrow> string \<Rightarrow> bool" where
  "pattern_match pat path \<longleftrightarrow> list_all2 seg_match (segments pat) (segments path)"

definition method_match :: "string \<Rightarrow> string \<Rightarrow> bool" where
  "method_match pat meth \<longleftrightarrow> pat = meth \<or> pat = ''GET'' \<and> meth = ''HEAD''"

definition wildcards :: "string \<Rightarrow> nat" where
  "wildcards pat = length (filter is_wild (segments pat))"

definition find_route :: "route list \<Rightarrow> string \<Rightarrow> string \<Rightarrow> route option" where
  "find_route rts meth path =
     (case sort_key (\<lambda>(m, p, c, h). wildcards p)
             (filter (\<lambda>(m, p, c, h). method_match m meth \<and> pattern_match p path) rts) of
        [] \<Rightarrow> None
      | r # _ \<Rightarrow> Some r)"

text \<open>
  Serving a request: \<open>feed\<close> is the path of the rewrite feed when there is a managed catalog,
  \<open>public\<close> gives the unguarded handlers and everything outside the table
  (the embedded files), \<open>guarded\<close> the handlers behind the guard.
\<close>

definition serve_admin ::
  "bool \<Rightarrow> string option \<Rightarrow> (string \<Rightarrow> 'a AdminServer_scheme \<Rightarrow> response \<times> 'a AdminServer_scheme) \<Rightarrow>
   (string \<Rightarrow> 'a handler) \<Rightarrow> time \<Rightarrow> int \<Rightarrow> request \<Rightarrow> 'a AdminServer_scheme \<Rightarrow>
   response \<times> 'a AdminServer_scheme" where
  "serve_admin oidc feed public guarded now contentLength r srv =
     limitBody (rq_Path r) contentLength
       (\<lambda>srv.
         if rq_Method r = ''GET'' \<and> feed = Some (rq_Path r) then public ''handleAGHManagedFeed'' srv
         else
           (case find_route (admin_routes oidc) (rq_Method r) (rq_Path r) of
              None \<Rightarrow> public [] srv
            | Some (m, p, None, h) \<Rightarrow> public h srv
            | Some (m, p, Some cap, h) \<Rightarrow> withAuth cap (guarded h) now r srv)) srv"

subsection \<open>Policy files\<close>

record PolicyAdmin = AdminServer +
  pa_engine :: Engine
  pa_files :: "(string, string) gomap"

type_synonym write_result = "(error \<times> string option) option"

definition write_file :: "write_result \<Rightarrow> string \<Rightarrow> string \<Rightarrow> 'a PolicyAdmin_scheme \<Rightarrow> 'a PolicyAdmin_scheme" where
  "write_file wr name content srv =
     srv\<lparr>pa_files :=
       (case wr of
          None \<Rightarrow> put name content (pa_files srv)
        | Some (e, None) \<Rightarrow> pa_files srv
        | Some (e, Some c) \<Rightarrow> put name c (pa_files srv))\<rparr>"

definition ContainsAny :: "string \<Rightarrow> string \<Rightarrow> bool" where
  "ContainsAny s chars \<longleftrightarrow> list_ex (\<lambda>c. c \<in> set chars) s"

definition safeName :: "string \<Rightarrow> bool" where
  "safeName name \<longleftrightarrow> name \<noteq> [] \<and> \<not> ContainsAny name [CHR ''/'', CHR 0x5C] \<and> \<not> Contains name ''..'' \<and>
     (HasSuffix name ''.yaml'' \<or> HasSuffix name ''.yml'')"

definition slug_char :: "char \<Rightarrow> bool" where
  "slug_char c \<longleftrightarrow> (let n = (of_char c :: nat) in 97 \<le> n \<and> n \<le> 122 \<or> 48 \<le> n \<and> n \<le> 57 \<or> n = 45)"

definition safeSlug :: "string \<Rightarrow> string" where
  "safeSlug s =
     (let out = Trim (map (\<lambda>c. if slug_char c then c else CHR ''-'') (ToLower s)) ''-''
      in if out = [] then ''rule'' else out)"

definition nl :: string where "nl = [CHR 0x0A]"

definition allowPolicyYAML :: "string \<Rightarrow> string \<Rightarrow> string \<Rightarrow> string" where
  "allowPolicyYAML domain path action =
     ''rules:'' @ nl @ ''  - name: allow-'' @ safeSlug domain @ nl @ ''    priority: 1'' @ nl @
     ''    match:'' @ nl @ ''      domain: '' @ quote domain @ nl @
     (if path \<noteq> [] then ''      path: '' @ quote path @ nl else []) @
     ''    action: '' @ quote action @ nl"

definition validation_error :: "int \<Rightarrow> string \<Rightarrow> error \<Rightarrow> response" where
  "validation_error code prefix e = http_error code (prefix @ error_text e)"

text \<open>
  A panic of the validation (a null list item) is recovered by \<^verbatim>\<open>net/http\<close>, which drops the
  connection: status 0, and the state as it is.
\<close>

definition aborted :: response where
  "aborted = http_error 0 ''connection closed''"

definition handlePolicyPut ::
  "(string \<Rightarrow> error + policyFile) \<Rightarrow> time \<Rightarrow> write_result \<Rightarrow> io_result \<Rightarrow> string \<Rightarrow> int + string \<Rightarrow>
   session \<Rightarrow> 'a PolicyAdmin_scheme \<Rightarrow> response \<times> 'a PolicyAdmin_scheme" where
  "handlePolicyPut u now wr io name body sess srv =
     (if \<not> safeName name then (http_error 400 ''bad name'', srv)
      else
        (case body of
           Inl code \<Rightarrow> (decode_error code, srv)
         | Inr content \<Rightarrow>
             (case ValidateBytes u content of
                Panic \<Rightarrow> (aborted, srv)
              | Fail e \<Rightarrow> (validation_error 400 ''invalid policy: '' e, srv)
              | Ok _ \<Rightarrow>
                  (let srv1 = write_file wr name content srv in
                   case wr of
                     Some (e, _) \<Rightarrow> (http_error 500 (error_text e), srv1)
                   | None \<Rightarrow> (writeOK ''ok'', audit_srv now io (s_username sess) ''policy.edit'' name srv1)))))"

record AllowReq =
  al_Domain :: string
  al_Path :: string
  al_Action :: string
  al_Catalog :: string
  al_Profile :: string
  al_Minutes :: int

definition allow_action :: "AllowReq \<Rightarrow> string" where
  "allow_action req = (if al_Action req = [] then ActionForwardAsis else al_Action req)"

definition temp_minutes :: "AllowReq \<Rightarrow> int" where
  "temp_minutes req = (if al_Minutes req \<le> 0 \<or> al_Minutes req > 240 then 15 else al_Minutes req)"

definition handleTempAllow ::
  "time \<Rightarrow> io_result \<Rightarrow> int + AllowReq \<Rightarrow> session \<Rightarrow> 'a PolicyAdmin_scheme \<Rightarrow> response \<times> 'a PolicyAdmin_scheme" where
  "handleTempAllow now io body sess srv =
     (case body of
        Inl code \<Rightarrow> (decode_error code, srv)
      | Inr req \<Rightarrow>
          if al_Domain req = [] then (http_error 400 ''bad request'', srv)
          else
            (let mins = temp_minutes req; action = allow_action req;
                 e = AddTempRule now (al_Domain req) action [] (mins * minute_ns) (pa_engine srv)
             in (writeOK ''ok'',
                 audit_srv now io (s_username sess) ''allow.temp''
                   (al_Domain req @ '' for '' @ show_int mins @ ''m ('' @ action @ '')'')
                   (srv\<lparr>pa_engine := e\<rparr>))))"

text \<open>Writing a generated policy file: the two triage handlers differ in name, text and status.\<close>

definition put_generated ::
  "(string \<Rightarrow> error + policyFile) \<Rightarrow> time \<Rightarrow> write_result \<Rightarrow> io_result \<Rightarrow> int \<Rightarrow> string \<Rightarrow> string \<Rightarrow>
   string \<Rightarrow> string \<Rightarrow> session \<Rightarrow> 'a PolicyAdmin_scheme \<Rightarrow> response \<times> 'a PolicyAdmin_scheme" where
  "put_generated u now wr io code name content action detail sess srv =
     (case ValidateBytes u content of
        Panic \<Rightarrow> (aborted, srv)
      | Fail e \<Rightarrow> (validation_error code ''invalid generated policy: '' e, srv)
      | Ok _ \<Rightarrow>
          (let srv1 = write_file wr name content srv in
           case wr of
             Some (e, _) \<Rightarrow> (http_error 500 (error_text e), srv1)
           | None \<Rightarrow> (writeOK ''ok'', audit_srv now io (s_username sess) action detail srv1)))"

definition handlePermanentAllow ::
  "(string \<Rightarrow> error + policyFile) \<Rightarrow> time \<Rightarrow> write_result \<Rightarrow> io_result \<Rightarrow> int + AllowReq \<Rightarrow>
   session \<Rightarrow> 'a PolicyAdmin_scheme \<Rightarrow> response \<times> 'a PolicyAdmin_scheme" where
  "handlePermanentAllow u now wr io body sess srv =
     (case body of
        Inl code \<Rightarrow> (decode_error code, srv)
      | Inr req \<Rightarrow>
          if al_Domain req = [] then (http_error 400 ''bad request'', srv)
          else put_generated u now wr io 500 (''allow-'' @ safeSlug (al_Domain req) @ ''.yaml'')
                 (allowPolicyYAML (al_Domain req) (al_Path req) (allow_action req))
                 ''allow.permanent'' (al_Domain req) sess srv)"

definition site_override_yaml :: "AllowReq \<Rightarrow> string" where
  "site_override_yaml req =
     ''rules:'' @ nl @ ''  - name: site-override-'' @ safeSlug (al_Domain req) @ nl @
     ''    priority: 5'' @ nl @ ''    match:'' @ nl @ ''      domain: '' @ quote (al_Domain req) @ nl @
     ''    action: '' @ quote (allow_action req) @ nl @
     (if allow_action req = ActionStub \<and> al_Catalog req \<noteq> []
      then ''    catalog: '' @ quote (al_Catalog req) @ nl else [])"

definition handleSiteOverride ::
  "(string \<Rightarrow> error + policyFile) \<Rightarrow> time \<Rightarrow> write_result \<Rightarrow> io_result \<Rightarrow> int + AllowReq \<Rightarrow>
   session \<Rightarrow> 'a PolicyAdmin_scheme \<Rightarrow> response \<times> 'a PolicyAdmin_scheme" where
  "handleSiteOverride u now wr io body sess srv =
     (case body of
        Inl code \<Rightarrow> (decode_error code, srv)
      | Inr req \<Rightarrow>
          if al_Domain req = [] then (http_error 400 ''bad request'', srv)
          else put_generated u now wr io 400 (''site-override-'' @ safeSlug (al_Domain req) @ ''.yaml'')
                 (site_override_yaml req) ''site_override.write''
                 (al_Domain req @ '' '' @ al_Profile req) sess srv)"

subsection \<open>Facts\<close>

lemma set_trim_while: "set (trim_while P s) \<subseteq> set s"
proof -
  have "set (dropWhile P xs) \<subseteq> set xs" for xs :: string by (auto dest: set_dropWhileD)
  from this[of "rev (dropWhile P s)"] this[of s] show ?thesis unfolding trim_while_def by auto
qed

lemma slug_char_lower: "slug_char CHR ''-''"
  by (simp add: slug_char_def)

lemma safeSlug_chars: "safeSlug s \<noteq> [] \<and> list_all slug_char (safeSlug s)"
proof -
  let ?t = "map (\<lambda>c. if slug_char c then c else CHR ''-'') (ToLower s)"
  have "\<forall>c\<in>set ?t. slug_char c" by (auto simp: slug_char_lower)
  moreover have "set (Trim ?t ''-'') \<subseteq> set ?t" unfolding Trim_def by (rule set_trim_while)
  ultimately have "\<forall>c\<in>set (Trim ?t ''-''). slug_char c" by blast
  moreover have "list_all slug_char ''rule''" by (simp add: slug_char_def)
  ultimately show ?thesis by (simp add: safeSlug_def Let_def list_all_iff)
qed

lemma slug_char_not_sep: "slug_char c \<Longrightarrow> c \<noteq> CHR ''/'' \<and> c \<noteq> CHR 0x5C \<and> c \<noteq> CHR ''.''"
  by (auto simp: slug_char_def)

lemma no_dot_not_Contains:
  assumes "CHR ''.'' \<notin> set a" "CHR ''.'' \<notin> set b"
  shows "\<not> Contains (a @ CHR ''.'' # b) ''..''"
proof
  assume "Contains (a @ CHR ''.'' # b) ''..''"
  then obtain p q where "a @ CHR ''.'' # b = p @ ''..'' @ q" unfolding Contains_iff by blast
  then have "count_list (a @ CHR ''.'' # b) CHR ''.'' = count_list (p @ ''..'' @ q) CHR ''.''" by simp
  then show False by (simp add: count_notin[OF assms(1)] count_notin[OF assms(2)])
qed

lemma generated_name_safe:
  assumes "list_all slug_char pre" "list_all slug_char slug" "slug \<noteq> []"
  shows "safeName (pre @ slug @ ''.yaml'')"
proof -
  have a: "\<forall>c\<in>set (pre @ slug). c \<noteq> CHR ''/'' \<and> c \<noteq> CHR 0x5C \<and> c \<noteq> CHR ''.''"
    using assms slug_char_not_sep by (auto simp: list_all_iff)
  have "\<not> Contains ((pre @ slug) @ CHR ''.'' # ''yaml'') ''..''"
    using a by (intro no_dot_not_Contains) fastforce+
  moreover have "\<not> ContainsAny (pre @ slug @ ''.yaml'') [CHR ''/'', CHR 0x5C]"
    using a by (auto simp: ContainsAny_def list_ex_iff)
  moreover have "HasSuffix (pre @ slug @ ''.yaml'') ''.yaml''"
    using HasSuffix_append[of "pre @ slug" "''.yaml''"] by simp
  ultimately show ?thesis using assms(3) by (simp add: safeName_def)
qed

subsection \<open>Properties\<close>



text \<open>Every file the policy handlers write has a safe name: it is not empty, holds no path
  separator and no double dot, and is one the policy loader reads; and a policy edit is stored
  only if the document validates.\<close>

theorem policy_writes_are_safe:
  assumes "pa_files srv' \<noteq> pa_files srv"
    and "srv' \<in> {snd (handlePolicyPut u now wr io name body sess srv),
                 snd (handlePermanentAllow u now wr io abody sess srv),
                 snd (handleSiteOverride u now wr io abody sess srv)}"
  shows "\<exists>name content. safeName name \<and> ValidateBytes u content = Ok () \<and>
    pa_files srv' = pa_files (write_file wr name content srv)"
proof -
  have slug: "safeName (''allow-'' @ safeSlug d @ ''.yaml'')" "safeName (''site-override-'' @ safeSlug d @ ''.yaml'')" for d
    using safeSlug_chars[of d] generated_name_safe[of "''allow-''" "safeSlug d"]
      generated_name_safe[of "''site-override-''" "safeSlug d"] by (simp_all add: slug_char_def)
  have gen: "pa_files (snd (put_generated u now wr io code n content a b sess srv)) \<noteq> pa_files srv \<Longrightarrow>
      ValidateBytes u content = Ok () \<and>
      pa_files (snd (put_generated u now wr io code n content a b sess srv)) = pa_files (write_file wr n content srv)"
    for code n content a b
    by (auto simp: put_generated_def audit_srv_def Let_def split: outcome.splits option.splits)
  from assms(2) consider
      "srv' = snd (handlePolicyPut u now wr io name body sess srv)"
    | "srv' = snd (handlePermanentAllow u now wr io abody sess srv)"
    | "srv' = snd (handleSiteOverride u now wr io abody sess srv)" by blast
  then show ?thesis
  proof cases
    case 1
    with assms(1) show ?thesis
      by (auto simp: handlePolicyPut_def audit_srv_def Let_def split: if_splits sum.splits outcome.splits option.splits)
  next
    case 2
    with assms(1) gen slug show ?thesis
      by (auto simp: handlePermanentAllow_def split: if_splits sum.splits) blast
  next
    case 3
    with assms(1) gen slug show ?thesis
      by (auto simp: handleSiteOverride_def split: if_splits sum.splits) blast
  qed
qed

definition ex_panel :: PolicyAdmin where
  "ex_panel = \<lparr>as_store = ex_store, as_sess = newSessionManager 0, pa_engine = NewEngine ex_ruleset, pa_files = []\<rparr>"

definition ex_accept :: "string \<Rightarrow> error + policyFile" where
  "ex_accept raw = Inr \<lparr>pf_Rules = [], pf_Default = None\<rparr>"

definition ex_sess :: session where
  "ex_sess = \<lparr>s_id = ''adm'', s_username = ''ann'', s_role = ''admin'', s_csrf = ''t2'', s_expires = 9\<rparr>"

definition ex_allow :: "string \<Rightarrow> AllowReq" where
  "ex_allow d = \<lparr>al_Domain = d, al_Path = [], al_Action = [], al_Catalog = [], al_Profile = [], al_Minutes = 0\<rparr>"

theorem policy_writes_are_safe_witness:
  "\<exists>name content. safeName name \<and>
     pa_files (snd (handlePermanentAllow ex_accept 5 None None (Inr (ex_allow ''a.b'')) ex_sess ex_panel)) =
     pa_files (write_file None name content ex_panel)"
proof -
  have "pa_files (snd (handlePermanentAllow ex_accept 5 None None (Inr (ex_allow ''a.b'')) ex_sess ex_panel)) \<noteq>
      pa_files ex_panel"
    by (simp add: handlePermanentAllow_def put_generated_def ex_allow_def ex_accept_def ValidateBytes_def
        audit_srv_def write_file_def Let_def ex_panel_def)
  from policy_writes_are_safe[OF this, where name = "[]" and body = "Inl 400"
      and u = ex_accept and now = 5 and wr = None and io = None and abody = "Inr (ex_allow ''a.b'')" and sess = ex_sess]
  show ?thesis by blast
qed

text \<open>The file of a permanent allow is named after a slug in which every character but letters,
  digits and hyphens becomes a hyphen: two domains with the same slug write the same file, and the
  second allow replaces the first.\<close>

theorem permanent_allow_slug_collision:
  assumes "safeSlug (al_Domain q1) = safeSlug (al_Domain q2)" "al_Domain q1 \<noteq> []" "al_Domain q2 \<noteq> []"
    and "ValidateBytes u (allowPolicyYAML (al_Domain q2) (al_Path q2) (allow_action q2)) = Ok ()"
    and "ValidateBytes u (allowPolicyYAML (al_Domain q1) (al_Path q1) (allow_action q1)) = Ok ()"
  shows "let srv1 = snd (handlePermanentAllow u t None io (Inr q1) sess srv);
             srv2 = snd (handlePermanentAllow u t' None io (Inr q2) sess srv1)
    in lookup (pa_files srv2) (''allow-'' @ safeSlug (al_Domain q1) @ ''.yaml'') =
         Some (allowPolicyYAML (al_Domain q2) (al_Path q2) (allow_action q2)) \<and>
       (\<forall>f. f \<noteq> ''allow-'' @ safeSlug (al_Domain q1) @ ''.yaml'' \<longrightarrow>
          lookup (pa_files srv2) f = lookup (pa_files srv) f)"
  using assms
  by (simp add: handlePermanentAllow_def put_generated_def write_file_def audit_srv_def Let_def)

theorem permanent_allow_slug_collision_witness:
  "lookup (pa_files (snd (handlePermanentAllow ex_accept 6 None None (Inr (ex_allow ''a-b'')) ex_sess
     (snd (handlePermanentAllow ex_accept 5 None None (Inr (ex_allow ''a.b'')) ex_sess ex_panel)))))
     ''allow-a-b.yaml'' = Some (allowPolicyYAML ''a-b'' [] ActionForwardAsis)"
proof -
  have s: "safeSlug ''a.b'' = ''a-b''" "safeSlug ''a-b'' = ''a-b''" by code_simp+
  have v: "ValidateBytes ex_accept c = Ok ()" for c by (simp add: ValidateBytes_def ex_accept_def)
  show ?thesis
    using permanent_allow_slug_collision[of "ex_allow ''a.b''" "ex_allow ''a-b''" ex_accept, where srv = ex_panel] v s
    by (simp add: ex_allow_def allow_action_def Let_def)
qed

text \<open>A temporary allow lasts at least one minute and at most four hours, whatever the request
  asks for, and decides requests for its domain until then.\<close>

theorem temp_allow_is_bounded:
  assumes "fst (handleTempAllow now io (Inr req) sess srv) = writeOK ''ok''"
  shows "\<exists>m. 1 \<le> m \<and> m \<le> 240 \<and>
    lookup (e_temps (pa_engine (snd (handleTempAllow now io (Inr req) sess srv)))) (al_Domain req) =
      Some \<lparr>t_dec = \<lparr>d_Action = allow_action req, d_Catalog = [], d_Rule = ''temp:'' @ al_Domain req, d_Matched = True\<rparr>,
            t_expires = now + m * minute_ns\<rparr> \<and>
    (t \<le> now + m * minute_ns \<longrightarrow>
      d_Action (fst (Decide t (al_Domain req) path method (pa_engine (snd (handleTempAllow now io (Inr req) sess srv))))) =
      allow_action req)"
proof -
  have "al_Domain req \<noteq> []"
    using assms by (auto simp: handleTempAllow_def http_error_def writeOK_def)
  then show ?thesis
    by (intro exI[of _ "temp_minutes req"])
      (auto simp: handleTempAllow_def audit_srv_def Let_def AddTempRule_def temp_minutes_def Decide_def tempFor_def)
qed

theorem temp_allow_is_bounded_witness:
  "d_Action (fst (Decide 6 ''a.b'' ''/'' ''GET''
     (pa_engine (snd (handleTempAllow 5 None (Inr (ex_allow ''a.b'')) ex_sess ex_panel))))) = ActionForwardAsis"
proof -
  have "fst (handleTempAllow 5 None (Inr (ex_allow ''a.b'')) ex_sess ex_panel) = writeOK ''ok''"
    by (simp add: handleTempAllow_def ex_allow_def Let_def)
  from temp_allow_is_bounded[OF this, of 6 "''/''" "''GET''"]
  show ?thesis by (auto simp: ex_allow_def allow_action_def minute_ns_def second_ns_def)
qed

end
