(* ===== verification/ConfigPatch.thy ===== *)
theory ConfigPatch
  imports AdminPolicy Config
begin

text \<open>
  The settings of the managed feed that the admin interface edits in the TOML file itself, from
  \<^verbatim>\<open>internal/admin/agh_managed_handlers.go\<close>: the search for a section, the patch of its lines, and the update that
  checks the new file before it is written. A file is the list of its lines; the files are a map
  from paths to texts; the TOML decoder is an argument, as in \<^verbatim>\<open>Config\<close>.
\<close>

subsection \<open>Lines, sections and keys\<close>

definition Split_nl :: "string \<Rightarrow> string list" where
  "Split_nl s = split_on CHR 0x0A [] s"

definition stringDefault :: "string \<Rightarrow> string \<Rightarrow> string" where
  "stringDefault v fallback = (if TrimSpace v = [] then fallback else v)"

definition cleanStringList :: "string list \<Rightarrow> string list" where
  "cleanStringList values = filter (\<lambda>v. v \<noteq> []) (map TrimSpace values)"

definition tomlString :: "string \<Rightarrow> string" where
  "tomlString v = quote v"

definition tomlBool :: "bool \<Rightarrow> string" where
  "tomlBool v = (if v then ''true'' else ''false'')"

definition tomlStringArray :: "string list \<Rightarrow> string" where
  "tomlStringArray values = (if values = [] then ''[]'' else ''['' @ Join (map tomlString values) '', '' @ '']'')"

definition tomlKey :: "string \<Rightarrow> string" where
  "tomlKey line =
     (let trimmed = TrimSpace line in
      if HasPrefix trimmed ''#'' \<or> \<not> Contains trimmed ''='' then [] else TrimSpace (cut_before CHR ''='' trimmed))"

definition preserveIndent :: "string \<Rightarrow> string" where
  "preserveIndent line = takeWhile (\<lambda>c. c = CHR '' '' \<or> c = CHR 0x09) line"

text \<open>The key of a line the patch writes.\<close>

definition update_key :: "string \<Rightarrow> string" where
  "update_key line = TrimSpace (cut_before CHR ''='' line)"

text \<open>The loop over the lines; \<^verbatim>\<open>None\<close> for the index -1.\<close>

fun section_loop :: "string \<Rightarrow> string list \<Rightarrow> nat \<Rightarrow> nat option \<Rightarrow> (nat \<times> nat) option" where
  "section_loop sec [] i start = (case start of None \<Rightarrow> None | Some s \<Rightarrow> Some (s, i))"
| "section_loop sec (line # ls) i start =
     (let trimmed = TrimSpace line in
      if trimmed = sec then section_loop sec ls (Suc i) (Some i)
      else if start \<noteq> None \<and> HasPrefix trimmed ''['' \<and> HasSuffix trimmed '']'' then Some (the start, i)
      else section_loop sec ls (Suc i) start)"

definition tomlSection :: "string list \<Rightarrow> string \<Rightarrow> (nat \<times> nat) option" where
  "tomlSection lines sec = section_loop sec lines 0 None"

subsection \<open>The patch\<close>

definition updates_of :: "string list \<Rightarrow> (string, string) gomap" where
  "updates_of replacement = foldl (\<lambda>m line. put (update_key line) line m) [] replacement"

definition patch_line :: "(string, string) gomap \<Rightarrow> string \<Rightarrow> string" where
  "patch_line ups line =
     (case lookup ups (tomlKey line) of Some next \<Rightarrow> preserveIndent line @ next | None \<Rightarrow> line)"

text \<open>What the section becomes: each line with a key of the update replaced, and the keys that were not
  there at the end.\<close>

definition patch_body :: "string list \<Rightarrow> string list \<Rightarrow> string list" where
  "patch_body replacement body =
     (let ups = updates_of replacement; seen = filter (\<lambda>k. lookup ups k \<noteq> None) (map tomlKey body)
      in map (patch_line ups) body @ filter (\<lambda>line. update_key line \<notin> set seen) replacement)"

definition end_line :: "bool \<Rightarrow> string \<Rightarrow> string" where
  "end_line add s = (if add \<and> \<not> HasSuffix s nl then s @ nl else s)"

definition patchTomlSectionLines :: "string list \<Rightarrow> nat \<Rightarrow> nat \<Rightarrow> string list \<Rightarrow> bool \<Rightarrow> string" where
  "patchTomlSectionLines lines s e replacement hadTrailingNewline =
     end_line hadTrailingNewline
       (Join (take (Suc s) lines @ patch_body replacement (take (e - Suc s) (drop (Suc s) lines)) @ drop e lines) nl)"

definition append_section :: "string list \<Rightarrow> string \<Rightarrow> string list \<Rightarrow> bool \<Rightarrow> string" where
  "append_section lines header replacement hadTrailingNewline =
     (let kept = (if lines = [[]] then [] else lines);
          out = Join (kept @ header # replacement) nl
      in if hadTrailingNewline \<or> \<not> HasSuffix out nl then out @ nl else out)"

definition patch_section :: "string \<Rightarrow> string \<Rightarrow> string list \<Rightarrow> string" where
  "patch_section raw header replacement =
     (let lines = Split_nl raw; hadTrailingNewline = HasSuffix raw nl in
      case tomlSection lines header of
        None \<Rightarrow> append_section lines header replacement hadTrailingNewline
      | Some (s, e) \<Rightarrow> patchTomlSectionLines lines s e replacement hadTrailingNewline)"

definition target_lines :: "AGHManagedConfig \<Rightarrow> string list" where
  "target_lines cfg =
     [''target_mode = '' @ tomlString (stringDefault (cf_TargetMode cfg) ''resolved_ip''),
      ''target_name = '' @ tomlString (cf_TargetName cfg),
      ''static_ipv4 = '' @ tomlStringArray (cf_StaticIPv4 cfg),
      ''static_ipv6 = '' @ tomlStringArray (cf_StaticIPv6 cfg),
      ''auto_emergency_empty_on_target_failure = '' @ tomlBool (cf_AutoEmergencyEmptyOnTargetFailure cfg),
      ''stale_target_ttl = '' @ tomlString (stringDefault (cf_StaleTargetTTL cfg) ''24h'')]"

definition patchAGHManagedTargetConfig :: "string \<Rightarrow> AGHManagedConfig \<Rightarrow> string" where
  "patchAGHManagedTargetConfig raw cfg = patch_section raw ''[agh_managed_rewrites]'' (target_lines cfg)"

definition scheduler_lines :: "AGHManagedScheduler \<Rightarrow> string list" where
  "scheduler_lines cfg =
     [''enabled = '' @ tomlBool (sd_Enabled cfg),
      ''default_sync_interval = '' @ tomlString (stringDefault (sd_DefaultSyncInterval cfg) ''12h''),
      ''sync_timeout = '' @ tomlString (stringDefault (sd_SyncTimeout cfg) ''30s''),
      ''max_parallel_syncs = '' @ show_int (sd_MaxParallelSyncs cfg),
      ''jitter = '' @ tomlString (stringDefault (sd_Jitter cfg) ''10m''),
      ''stale_source_ttl = '' @ tomlString (stringDefault (sd_StaleSourceTTL cfg) ''72h''),
      ''large_change_threshold_percent = '' @ show_int (sd_LargeChangeThresholdPercent cfg),
      ''large_change_threshold_count = '' @ show_int (sd_LargeChangeThresholdCount cfg),
      ''large_change_requires_review = '' @ tomlBool (sd_LargeChangeRequiresReview cfg)]"

definition patchAGHManagedSchedulerConfig :: "string \<Rightarrow> AGHManagedScheduler \<Rightarrow> string" where
  "patchAGHManagedSchedulerConfig raw cfg = patch_section raw ''[agh_managed_rewrites.scheduler]'' (scheduler_lines cfg)"

subsection \<open>The update of the file\<close>

record target_request =
  tr_TargetMode :: string
  tr_TargetName :: string
  tr_StaticIPv4 :: "string list"
  tr_StaticIPv6 :: "string list"
  tr_StaleTargetTTL :: string
  tr_AutoEmergency :: bool

type_synonym scheduler_request = AGHManagedScheduler

text \<open>The decoder and the checks, and what the file system does: the error of a read that is not of a
  missing file, the outcome of the write of the file under check, the error of its removal.\<close>

record config_env =
  ce_unmarshal :: "string \<Rightarrow> Config \<Rightarrow> error + Config"
  ce_parseDuration :: "string \<Rightarrow> duration option"
  ce_parseIP :: "string \<Rightarrow> ip option"
  ce_read_err :: "string \<Rightarrow> error option"
  ce_check_write :: write_result
  ce_remove :: "error option"
  ce_write :: write_result

type_synonym files = "(string, string) gomap"

definition file_read :: "config_env \<Rightarrow> files \<Rightarrow> string \<Rightarrow> error + string" where
  "file_read E fs path =
     (case ce_read_err E path of
        Some e \<Rightarrow> Inl e
      | None \<Rightarrow> (case lookup fs path of None \<Rightarrow> Inl ErrNotExist | Some c \<Rightarrow> Inr c))"

definition file_write :: "write_result \<Rightarrow> string \<Rightarrow> string \<Rightarrow> files \<Rightarrow> files" where
  "file_write wr path content fs =
     (case wr of None \<Rightarrow> put path content fs | Some (e, None) \<Rightarrow> fs | Some (e, Some c) \<Rightarrow> put path c fs)"

definition apply_target :: "target_request \<Rightarrow> AGHManagedConfig \<Rightarrow> AGHManagedConfig" where
  "apply_target req m =
     m\<lparr>cf_TargetMode := TrimSpace (tr_TargetMode req), cf_TargetName := TrimSpace (tr_TargetName req),
       cf_StaticIPv4 := cleanStringList (tr_StaticIPv4 req), cf_StaticIPv6 := cleanStringList (tr_StaticIPv6 req),
       cf_StaleTargetTTL := TrimSpace (tr_StaleTargetTTL req),
       cf_AutoEmergencyEmptyOnTargetFailure := tr_AutoEmergency req\<rparr>"

definition apply_scheduler :: "scheduler_request \<Rightarrow> AGHManagedConfig \<Rightarrow> AGHManagedConfig" where
  "apply_scheduler req m =
     m\<lparr>cf_Scheduler :=
        \<lparr>sd_Enabled = sd_Enabled req, sd_DefaultSyncInterval = TrimSpace (sd_DefaultSyncInterval req),
         sd_SyncTimeout = TrimSpace (sd_SyncTimeout req), sd_MaxParallelSyncs = sd_MaxParallelSyncs req,
         sd_Jitter = TrimSpace (sd_Jitter req), sd_StaleSourceTTL = TrimSpace (sd_StaleSourceTTL req),
         sd_LargeChangeThresholdPercent = sd_LargeChangeThresholdPercent req,
         sd_LargeChangeThresholdCount = sd_LargeChangeThresholdCount req,
         sd_LargeChangeRequiresReview = sd_LargeChangeRequiresReview req\<rparr>\<rparr>"

definition with_prefix :: "string \<Rightarrow> error \<Rightarrow> error" where
  "with_prefix p e = Err (p @ error_text e)"

text \<open>The file under check: written, loaded, removed, and judged.\<close>

definition check_content :: "config_env \<Rightarrow> string \<Rightarrow> string \<Rightarrow> files \<Rightarrow> error option \<times> files" where
  "check_content E path content fs =
     (let p = path @ ''.check''; fs1 = file_write (ce_check_write E) p content fs in
      case ce_check_write E of
        Some (e, _) \<Rightarrow> (Some e, fs1)
      | None \<Rightarrow>
          (let checked = Config_Load (file_read E fs1) (ce_unmarshal E) p;
               fs2 = (if ce_remove E \<in> {None, Some ErrNotExist} then del p fs1 else fs1);
               checkErr = (case checked of Inl e \<Rightarrow> Some e | Inr c \<Rightarrow> Config_Check (ce_parseDuration E) (ce_parseIP E) c)
           in case checkErr of
                Some e \<Rightarrow> (Some (with_prefix ''invalid generated config: '' e), fs2)
              | None \<Rightarrow>
                  ((case ce_remove E of None \<Rightarrow> None | Some e \<Rightarrow> if e = ErrNotExist then None else Some e), fs2)))"

definition update_config_file ::
  "config_env \<Rightarrow> string \<Rightarrow> (Config \<Rightarrow> Config) \<Rightarrow> (string \<Rightarrow> Config \<Rightarrow> string) \<Rightarrow> string \<Rightarrow> files \<Rightarrow>
   (error + Config \<times> string) \<times> files" where
  "update_config_file E what change patch path fs =
     (case file_read E fs path of
        Inl e \<Rightarrow> (Inl (if e = ErrNotExist then with_prefix (''config file required for '' @ what @ '' settings: '') e else e), fs)
      | Inr raw \<Rightarrow>
          (case Config_Load (file_read E fs) (ce_unmarshal E) path of
             Inl e \<Rightarrow> (Inl e, fs)
           | Inr cfg0 \<Rightarrow>
               (let cfg = change cfg0 in
                case Config_Check (ce_parseDuration E) (ce_parseIP E) cfg of
                  Some e \<Rightarrow> (Inl (with_prefix ''invalid config: '' e), fs)
                | None \<Rightarrow>
                    (let content = patch raw cfg in
                     case check_content E path content fs of
                       (Some e, fs2) \<Rightarrow> (Inl e, fs2)
                     | (None, fs2) \<Rightarrow> (Inr (cfg, content), fs2)))))"

definition updateAGHManagedTargetConfigFile ::
  "config_env \<Rightarrow> string \<Rightarrow> target_request \<Rightarrow> files \<Rightarrow> (error + Config \<times> string) \<times> files" where
  "updateAGHManagedTargetConfigFile E path req fs =
     update_config_file E ''target'' (\<lambda>c. c\<lparr>c_AGHManaged := apply_target req (c_AGHManaged c)\<rparr>)
       (\<lambda>raw c. patchAGHManagedTargetConfig raw (c_AGHManaged c)) path fs"

definition updateAGHManagedSchedulerConfigFile ::
  "config_env \<Rightarrow> string \<Rightarrow> scheduler_request \<Rightarrow> files \<Rightarrow> (error + Config \<times> string) \<times> files" where
  "updateAGHManagedSchedulerConfigFile E path req fs =
     update_config_file E ''scheduler'' (\<lambda>c. c\<lparr>c_AGHManaged := apply_scheduler req (c_AGHManaged c)\<rparr>)
       (\<lambda>raw c. patchAGHManagedSchedulerConfig raw (cf_Scheduler (c_AGHManaged c))) path fs"

subsection \<open>Facts: lines\<close>

lemma Split_nl_ne [simp]: "Split_nl s \<noteq> []"
  by (simp add: Split_nl_def)

lemma Split_nl_simps:
  "Split_nl [] = [[]]" "Split_nl (CHR 0x0A # s) = [] # Split_nl s"
  "a \<noteq> CHR 0x0A \<Longrightarrow> Split_nl (a # s) = (case Split_nl s of [] \<Rightarrow> [] | x # xs \<Rightarrow> (a # x) # xs)"
  using split_on_acc[of "CHR 0x0A" "[a]" s] by (simp_all add: Split_nl_def split: list.split)

lemma Join_Split_nl: "Join (Split_nl s) nl = s"
proof (induction s)
  case (Cons a s)
  obtain x xs where s: "Split_nl s = x # xs" by (cases "Split_nl s") auto
  show ?case
  proof (cases "a = CHR 0x0A")
    case True
    then show ?thesis using Cons s by (simp add: Split_nl_simps nl_def)
  next
    case False
    then show ?thesis using Cons s by (cases xs) (simp_all add: Split_nl_simps)
  qed
qed (simp add: Split_nl_simps)

lemma Split_nl_lines: "l \<in> set (Split_nl s) \<Longrightarrow> CHR 0x0A \<notin> set l"
proof (induction s arbitrary: l)
  case (Cons a s)
  obtain x xs where s: "Split_nl s = x # xs" by (cases "Split_nl s") auto
  show ?case using Cons s by (cases "a = CHR 0x0A") (auto simp: Split_nl_simps)
qed (simp add: Split_nl_simps)

lemma Split_nl_line: "CHR 0x0A \<notin> set l \<Longrightarrow> Split_nl l = [l]"
  by (induction l) (auto simp: Split_nl_simps)

lemma Split_nl_append: "CHR 0x0A \<notin> set l \<Longrightarrow> Split_nl (l @ CHR 0x0A # s) = l # Split_nl s"
  by (induction l) (auto simp: Split_nl_simps)

lemma Split_nl_Join: "ls \<noteq> [] \<Longrightarrow> \<forall>l\<in>set ls. CHR 0x0A \<notin> set l \<Longrightarrow> Split_nl (Join ls nl) = ls"
proof (induction ls rule: induct_list012)
  case (3 x y zs)
  then show ?case using Split_nl_append[of x "Join (y # zs) nl"] by (simp add: nl_def)
qed (simp_all add: Split_nl_line)

lemma Join_snoc_empty: "ls \<noteq> [] \<Longrightarrow> Join (ls @ [[]]) sep = Join ls sep @ sep"
  by (induction ls rule: induct_list012) auto

lemma end_line_lines:
  assumes "R \<noteq> []" "\<forall>l\<in>set R. CHR 0x0A \<notin> set l"
  shows "Split_nl (end_line had (Join R nl)) \<in> {R, R @ [[]]}"
    and "had \<Longrightarrow> HasSuffix (end_line had (Join R nl)) nl"
  using assms Split_nl_Join[of R] Split_nl_Join[of "R @ [[]]"] by (auto simp: end_line_def Join_snoc_empty)

subsection \<open>Facts: the section\<close>

definition bracketed :: "string \<Rightarrow> bool" where
  "bracketed line \<longleftrightarrow> HasPrefix (TrimSpace line) ''['' \<and> HasSuffix (TrimSpace line) '']''"

definition plain :: "string \<Rightarrow> string \<Rightarrow> bool" where
  "plain sec line \<longleftrightarrow> \<not> bracketed line \<and> TrimSpace line \<noteq> sec"

definition stops :: "string \<Rightarrow> string list \<Rightarrow> bool" where
  "stops sec post \<longleftrightarrow> post = [] \<or> bracketed (hd post) \<and> TrimSpace (hd post) \<noteq> sec"

lemma section_loop_step:
  "section_loop sec (line # ls) i start =
     (if TrimSpace line = sec then section_loop sec ls (Suc i) (Some i)
      else if start \<noteq> None \<and> bracketed line then Some (the start, i) else section_loop sec ls (Suc i) start)"
  by (simp add: bracketed_def Let_def)

declare section_loop.simps(2) [simp del]

lemma section_loop_plain:
  "list_all (plain sec) body \<Longrightarrow> stops sec post \<Longrightarrow> section_loop sec (body @ post) i (Some s) = Some (s, i + length body)"
proof (induction body arbitrary: i)
  case Nil
  then show ?case by (cases post) (auto simp: stops_def section_loop_step)
qed (auto simp: plain_def section_loop_step)

lemma section_loop_found:
  "section_loop sec lines i start = Some (s, e) \<Longrightarrow>
     (\<exists>body post. start = Some s \<and> lines = body @ post \<and> list_all (plain sec) body \<and> stops sec post \<and> e = i + length body) \<or>
     (\<exists>pre h body post. lines = pre @ h # body @ post \<and> s = i + length pre \<and> e = Suc s + length body \<and>
        list_all (plain sec) body \<and> stops sec post \<and> TrimSpace h = sec \<and>
        (\<forall>ls. section_loop sec (pre @ h # ls) i start = section_loop sec ls (Suc s) (Some s)))"
proof (induction lines arbitrary: i start)
  case (Cons line ls)
  consider (hit) "TrimSpace line = sec" | (stop) "TrimSpace line \<noteq> sec" "start \<noteq> None" "bracketed line"
    | (go) "TrimSpace line \<noteq> sec" "\<not> (start \<noteq> None \<and> bracketed line)" by blast
  then show ?case
  proof cases
    case hit
    with Cons.prems have "section_loop sec ls (Suc i) (Some i) = Some (s, e)" by (simp add: section_loop_step)
    from Cons.IH[OF this] show ?thesis
    proof (elim disjE exE conjE)
      fix body post assume "Some i = Some s" "ls = body @ post" "list_all (plain sec) body" "stops sec post" "e = Suc i + length body"
      note a = this
      show ?thesis by (rule disjI2, rule exI[of _ "[]"], rule exI[of _ line], rule exI[of _ body], rule exI[of _ post]) (use a hit in \<open>auto simp: section_loop_step\<close>)
    next
      fix pre h body post
      assume "ls = pre @ h # body @ post" "s = Suc i + length pre" "e = Suc s + length body" "list_all (plain sec) body" "stops sec post"
        "TrimSpace h = sec" "\<forall>ls. section_loop sec (pre @ h # ls) (Suc i) (Some i) = section_loop sec ls (Suc s) (Some s)"
      note a = this
      show ?thesis by (rule disjI2, rule exI[of _ "line # pre"], rule exI[of _ h], rule exI[of _ body], rule exI[of _ post]) (use a hit in \<open>auto simp: section_loop_step\<close>)
    qed
  next
    case stop
    show ?thesis
      by (rule disjI1, rule exI[of _ "[]"], rule exI[of _ "line # ls"])
        (use stop Cons.prems in \<open>auto simp: section_loop_step stops_def\<close>)
  next
    case go
    then have step: "section_loop sec (line # xs) i start = section_loop sec xs (Suc i) start" for xs
      by (auto simp: section_loop_step)
    from Cons.IH[OF Cons.prems[unfolded step]] show ?thesis
    proof (elim disjE exE conjE)
      fix body post assume "start = Some s" "ls = body @ post" "list_all (plain sec) body" "stops sec post" "e = Suc i + length body"
      note a = this
      show ?thesis by (rule disjI1, rule exI[of _ "line # body"], rule exI[of _ post]) (use a go in \<open>auto simp: plain_def[of sec line]\<close>)
    next
      fix pre h body post
      assume "ls = pre @ h # body @ post" "s = Suc i + length pre" "e = Suc s + length body" "list_all (plain sec) body" "stops sec post"
        "TrimSpace h = sec" "\<forall>ls. section_loop sec (pre @ h # ls) (Suc i) start = section_loop sec ls (Suc s) (Some s)"
      note a = this
      show ?thesis by (rule disjI2, rule exI[of _ "line # pre"], rule exI[of _ h], rule exI[of _ body], rule exI[of _ post]) (use a step in auto)
    qed
  qed
qed (auto simp: stops_def split: option.splits)

lemma section_loop_absent:
  "section_loop sec lines i None = None \<Longrightarrow> section_loop sec (lines @ ls) i None = section_loop sec ls (i + length lines) None"
proof (induction lines arbitrary: i)
  case (Cons line lines)
  have "section_loop sec xs j (Some k) \<noteq> None" for xs j k
    by (induction xs arbitrary: j k) (auto simp: section_loop_step)
  then have never: "section_loop sec xs j (Some k) \<noteq> None" for xs j k .
  have "TrimSpace line \<noteq> sec" "section_loop sec lines (Suc i) None = None"
    using Cons.prems never[of lines "Suc i" i] by (auto simp: section_loop_step split: if_splits)
  with Cons.IH[of "Suc i"] show ?case by (simp add: section_loop_step)
qed simp

text \<open>A section found is its header and the lines up to the next header; another body in its place is
  found again.\<close>

lemma tomlSection_split:
  assumes "tomlSection lines sec = Some (s, e)"
  obtains pre h body post where "lines = pre @ h # body @ post" "s = length pre" "e = Suc s + length body"
    "list_all (plain sec) body" "stops sec post" "TrimSpace h = sec"
    "\<And>B Q. list_all (plain sec) B \<Longrightarrow> stops sec Q \<Longrightarrow> tomlSection (pre @ h # B @ Q) sec = Some (s, Suc s + length B)"
proof -
  from section_loop_found[OF assms[unfolded tomlSection_def]] obtain pre h body post where
    p: "lines = pre @ h # body @ post" "s = 0 + length pre" "e = Suc s + length body" "list_all (plain sec) body" "stops sec post"
      "TrimSpace h = sec" "\<forall>ls. section_loop sec (pre @ h # ls) 0 None = section_loop sec ls (Suc s) (Some s)" by blast
  have "tomlSection (pre @ h # B @ Q) sec = Some (s, Suc s + length B)" if "list_all (plain sec) B" "stops sec Q" for B Q
    using p(7) section_loop_plain[OF that, of "Suc s" s] by (simp add: tomlSection_def)
  with p show thesis by (intro that[of pre h body post]) simp_all
qed


subsection \<open>Facts: the lines of an update\<close>

definition key_char :: "char \<Rightarrow> bool" where
  "key_char c \<longleftrightarrow> (97 \<le> (of_char c :: nat) \<and> (of_char c :: nat) \<le> 122) \<or> c = CHR ''_'' \<or> is_digit c"

definition update_line :: "string \<Rightarrow> string \<Rightarrow> string \<Rightarrow> bool" where
  "update_line k v line \<longleftrightarrow> line = k @ '' = '' @ v \<and> k \<noteq> [] \<and> list_all key_char k \<and> CHR 0x0A \<notin> set v"

definition good_update :: "string \<Rightarrow> bool" where
  "good_update line \<longleftrightarrow> (\<exists>k v. update_line k v line)"

lemma key_char_props: "key_char c \<Longrightarrow> \<not> is_space c \<and> c \<notin> {CHR ''#'', CHR ''['', CHR ''='', CHR 0x0A, CHR '' '', CHR 0x09}"
  by (auto simp: key_char_def is_space_def is_digit_def)

lemma trim_front: "list_all is_space i \<Longrightarrow> k = [] \<or> \<not> is_space (hd k) \<Longrightarrow> dropWhile is_space (i @ k) = k"
  by (induction i) (cases k; auto)+

lemma trim_back: "\<not> is_space c \<Longrightarrow> \<exists>w. rev (dropWhile is_space (rev (a @ c # x))) = a @ c # w"
proof (induction x rule: rev_induct)
  case (snoc d x)
  then show ?case by (cases "is_space d") auto
qed simp

lemma TrimSpace_update:
  assumes "update_line k v line" "list_all is_space i"
  shows "\<exists>w. TrimSpace (i @ line) = k @ '' ='' @ w"
proof -
  have "dropWhile is_space (i @ k @ '' ='' @ '' '' @ v) = k @ '' ='' @ '' '' @ v"
    using assms key_char_props by (intro trim_front) (auto simp: update_line_def list_all_iff neq_Nil_conv)
  moreover have "\<not> is_space CHR ''=''" by (simp add: is_space_def)
  from trim_back[OF this, of "k @ '' ''" "'' '' @ v"] obtain w where
    "rev (dropWhile is_space (rev ((k @ '' '') @ CHR ''='' # '' '' @ v))) = (k @ '' '') @ CHR ''='' # w" by blast
  ultimately show ?thesis using assms(1) by (simp add: TrimSpace_def trim_while_def update_line_def)
qed

lemma TrimSpace_key: "k \<noteq> [] \<Longrightarrow> list_all key_char k \<Longrightarrow> TrimSpace (k @ '' '') = k"
proof -
  assume k: "k \<noteq> []" "list_all key_char k"
  then have "dropWhile is_space (k @ '' '') = k @ '' ''"
    using key_char_props by (cases k) auto
  moreover have "dropWhile is_space (rev k) = rev k"
    using k key_char_props by (cases "rev k") (auto simp: list_all_iff dest: arg_cong[of _ _ set])
  ultimately show ?thesis by (simp add: TrimSpace_def trim_while_def is_space_def)
qed

lemma update_line_facts:
  assumes u: "update_line k v line" and i: "set i \<subseteq> {CHR '' '', CHR 0x09}"
  shows "update_key line = k" "tomlKey (i @ line) = k" "preserveIndent (i @ line) = i" "\<not> bracketed (i @ line)"
    "HasPrefix sec ''['' \<Longrightarrow> TrimSpace (i @ line) \<noteq> sec" "CHR 0x0A \<notin> set (i @ line)"
proof -
  have k: "k \<noteq> []" "list_all key_char k" and line: "line = k @ '' = '' @ v" and v: "CHR 0x0A \<notin> set v"
    using u by (auto simp: update_line_def)
  have c: "key_char c" if "c \<in> set k" for c using k that by (simp add: list_all_iff)
  have neq: "\<forall>c\<in>set k. c \<noteq> CHR ''=''" using c key_char_props by blast
  have cut: "cut_before CHR ''='' (k @ '' ='' @ w) = k @ '' ''" for w
    using neq by (simp add: cut_before_def takeWhile_append)
  have sp: "list_all is_space i" using i by (auto simp: list_all_iff is_space_def)
  from TrimSpace_update[OF u sp] obtain w where w: "TrimSpace (i @ line) = k @ '' ='' @ w" by blast
  obtain h t where ht: "k = h # t" using k by (cases k) auto
  have h: "h \<notin> {CHR ''#'', CHR ''['', CHR '' '', CHR 0x09}" using key_char_props[OF c[of h]] ht by auto
  show "update_key line = k" using cut[of "'' '' @ v"] TrimSpace_key[OF k] by (simp add: update_key_def line)
  have "Contains (k @ '' ='' @ w) ''=''" by (auto simp: Contains_iff intro: exI[of _ "k @ '' ''"])
  then show "tomlKey (i @ line) = k"
    using cut[of w] TrimSpace_key[OF k] h ht by (simp add: tomlKey_def w Let_def HasPrefix_def)
  show "preserveIndent (i @ line) = i"
    using i h by (auto simp: preserveIndent_def line ht takeWhile_append)
  show "\<not> bracketed (i @ line)" using h by (simp add: bracketed_def w ht HasPrefix_def)
  show "HasPrefix sec ''['' \<Longrightarrow> TrimSpace (i @ line) \<noteq> sec" using h by (auto simp: w ht HasPrefix_def)
  show "CHR 0x0A \<notin> set (i @ line)" using i v key_char_props[OF c] by (auto simp: line)
qed

lemma preserveIndent_set: "set (preserveIndent line) \<subseteq> {CHR '' '', CHR 0x09}"
  by (auto simp: preserveIndent_def dest: set_takeWhileD)

text \<open>An update has distinct keys.\<close>

definition good_updates :: "string list \<Rightarrow> bool" where
  "good_updates rep \<longleftrightarrow> list_all good_update rep \<and> distinct (map update_key rep)"

lemma updates_of_lookup:
  "distinct (map update_key rep) \<Longrightarrow> lookup (updates_of rep) k = Some l \<longleftrightarrow> l \<in> set rep \<and> update_key l = k"
  unfolding updates_of_def
proof (induction rep rule: rev_induct)
  case (snoc x rep)
  then have "update_key l \<noteq> update_key x" if "l \<in> set rep" for l using that by (auto simp: image_iff)
  with snoc show ?case by auto
qed simp

lemma patch_line_facts:
  assumes "good_updates rep"
  shows "tomlKey (patch_line (updates_of rep) line) = tomlKey line"
    and "patch_line (updates_of rep) (patch_line (updates_of rep) line) = patch_line (updates_of rep) line"
    and "HasPrefix sec ''['' \<Longrightarrow> plain sec line \<Longrightarrow> plain sec (patch_line (updates_of rep) line)"
    and "CHR 0x0A \<notin> set line \<Longrightarrow> CHR 0x0A \<notin> set (patch_line (updates_of rep) line)"
    and "l \<in> set rep \<Longrightarrow> tomlKey line = update_key l \<Longrightarrow>
      patch_line (updates_of rep) line = preserveIndent line @ l"
proof -
  note d = updates_of_lookup[OF conjunct2[OF assms[unfolded good_updates_def]]]
  have l: "\<exists>k v. update_line k v l" if "l \<in> set rep" for l
    using that assms by (auto simp: good_updates_def good_update_def list_all_iff)
  show "l \<in> set rep \<Longrightarrow> tomlKey line = update_key l \<Longrightarrow> patch_line (updates_of rep) line = preserveIndent line @ l"
    using d[of "tomlKey line" l] by (simp add: patch_line_def)
  have "tomlKey (patch_line (updates_of rep) line) = tomlKey line \<and>
      patch_line (updates_of rep) (patch_line (updates_of rep) line) = patch_line (updates_of rep) line \<and>
      (HasPrefix sec ''['' \<longrightarrow> plain sec line \<longrightarrow> plain sec (patch_line (updates_of rep) line)) \<and>
      (CHR 0x0A \<notin> set line \<longrightarrow> CHR 0x0A \<notin> set (patch_line (updates_of rep) line))" for sec
  proof (cases "lookup (updates_of rep) (tomlKey line)")
    case (Some u)
    then have u: "u \<in> set rep" "update_key u = tomlKey line" using d by auto
    from l[OF u(1)] obtain k v where k: "update_line k v u" by blast
    note f = update_line_facts[OF k preserveIndent_set[of line]]
    show ?thesis using Some u f by (auto simp: patch_line_def plain_def)
  qed (simp add: patch_line_def)
  then show "tomlKey (patch_line (updates_of rep) line) = tomlKey line"
    "patch_line (updates_of rep) (patch_line (updates_of rep) line) = patch_line (updates_of rep) line"
    "HasPrefix sec ''['' \<Longrightarrow> plain sec line \<Longrightarrow> plain sec (patch_line (updates_of rep) line)"
    "CHR 0x0A \<notin> set line \<Longrightarrow> CHR 0x0A \<notin> set (patch_line (updates_of rep) line)" by blast+
qed

subsection \<open>Facts: the patch\<close>

definition section_body :: "string list \<Rightarrow> nat \<times> nat \<Rightarrow> string list" where
  "section_body lines se = take (snd se - Suc (fst se)) (drop (Suc (fst se)) lines)"

definition stable :: "string list \<Rightarrow> string list \<Rightarrow> bool" where
  "stable rep body \<longleftrightarrow> (\<forall>l\<in>set body. patch_line (updates_of rep) l = l) \<and> (\<forall>u\<in>set rep. update_key u \<in> tomlKey ` set body)"

definition others :: "string list \<Rightarrow> string list \<Rightarrow> string list" where
  "others rep body = filter (\<lambda>l. l \<noteq> [] \<and> tomlKey l \<notin> set (map update_key rep)) body"

abbreviation nonblank :: "string list \<Rightarrow> string list" where
  "nonblank ls \<equiv> filter (\<lambda>l. l \<noteq> []) ls"

lemma section_body_split: "section_body (pre @ h # B @ Q) (length pre, Suc (length pre) + length B) = B"
  by (simp add: section_body_def)

lemma good_update_facts:
  assumes "good_updates rep" "u \<in> set rep"
  shows "tomlKey u = update_key u" "preserveIndent u = []" "update_key u \<noteq> []" "CHR 0x0A \<notin> set u" "u \<noteq> []"
    "HasPrefix sec ''['' \<Longrightarrow> plain sec u"
proof -
  obtain k v where k: "update_line k v u" using assms by (auto simp: good_updates_def good_update_def list_all_iff)
  from update_line_facts[OF k, of "[]"] k
  show "tomlKey u = update_key u" "preserveIndent u = []" "update_key u \<noteq> []" "CHR 0x0A \<notin> set u" "u \<noteq> []"
    "HasPrefix sec ''['' \<Longrightarrow> plain sec u"
    by (auto simp: plain_def update_line_def)
qed

lemma blank_line: "tomlKey [] = []" "patch_line ups [] = (case lookup ups [] of None \<Rightarrow> [] | Some u \<Rightarrow> u)" "HasPrefix sec ''['' \<Longrightarrow> plain sec []"
  by (auto simp: tomlKey_def patch_line_def preserveIndent_def plain_def bracketed_def TrimSpace_def trim_while_def HasPrefix_def split: option.split)

lemma stable_patch_body:
  assumes "good_updates rep" "stable rep body"
  shows "patch_body rep body = body"
proof -
  have "update_key u \<in> set (filter (\<lambda>k. lookup (updates_of rep) k \<noteq> None) (map tomlKey body))" if "u \<in> set rep" for u
    using that assms updates_of_lookup[of rep "update_key u" u] by (auto simp: stable_def good_updates_def)
  then have "filter (\<lambda>line. update_key line \<notin> set (filter (\<lambda>k. lookup (updates_of rep) k \<noteq> None) (map tomlKey body))) rep = []"
    by (simp add: filter_empty_conv)
  then show ?thesis using assms(2) by (simp add: patch_body_def Let_def stable_def map_idI)
qed

lemma stable_blank: "good_updates rep \<Longrightarrow> stable rep body \<Longrightarrow> stable rep (body @ [[]])"
proof -
  assume g: "good_updates rep" and s: "stable rep body"
  have "lookup (updates_of rep) [] = None"
  proof (cases "lookup (updates_of rep) []")
    case (Some u)
    then show ?thesis using updates_of_lookup[of rep "[]" u] good_update_facts(3)[OF g, of u] g by (auto simp: good_updates_def)
  qed
  then show ?thesis using s by (auto simp: stable_def blank_line)
qed

lemma patch_body_facts:
  assumes g: "good_updates rep"
  shows "stable rep (patch_body rep body)"
    and "HasPrefix sec ''['' \<Longrightarrow> list_all (plain sec) body \<Longrightarrow> list_all (plain sec) (patch_body rep body)"
    and "\<forall>l\<in>set body. CHR 0x0A \<notin> set l \<Longrightarrow> \<forall>l\<in>set (patch_body rep body). CHR 0x0A \<notin> set l"
    and "others rep (patch_body rep body) = others rep body"
proof -
  let ?ups = "updates_of rep"
  note p = patch_line_facts[OF g] and u = good_update_facts[OF g]
  note look = updates_of_lookup[OF conjunct2[OF g[unfolded good_updates_def]]]
  have own: "patch_line ?ups l = l" if "l \<in> set rep" for l
    using p(5)[OF that, of l] u(1,2)[OF that] by simp
  have "update_key l \<in> tomlKey ` set (patch_body rep body)" if l: "l \<in> set rep" for l
  proof (cases "update_key l \<in> set (filter (\<lambda>k. lookup ?ups k \<noteq> None) (map tomlKey body))")
    case True
    then obtain b where "b \<in> set body" "tomlKey b = update_key l" by auto
    then have "tomlKey (patch_line ?ups b) = update_key l" "patch_line ?ups b \<in> set (patch_body rep body)"
      using p(1) by (auto simp: patch_body_def Let_def)
    then show ?thesis by force
  next
    case False
    then have "l \<in> set (patch_body rep body)" using l unfolding patch_body_def Let_def by (auto simp del: set_filter simp: set_filter)
    with u(1)[OF l] show ?thesis by force
  qed
  then show "stable rep (patch_body rep body)"
    using p(2) own by (auto simp: stable_def patch_body_def Let_def)
  show "HasPrefix sec ''['' \<Longrightarrow> list_all (plain sec) body \<Longrightarrow> list_all (plain sec) (patch_body rep body)"
    using p(3) u(6) by (auto simp: patch_body_def Let_def list_all_iff)
  show "\<forall>l\<in>set body. CHR 0x0A \<notin> set l \<Longrightarrow> \<forall>l\<in>set (patch_body rep body). CHR 0x0A \<notin> set l"
    using p(4) u(4) by (auto simp: patch_body_def Let_def)
  have "others rep (map (patch_line ?ups) body) = others rep body"
  proof (induction body)
    case (Cons b body)
    show ?case
    proof (cases "lookup ?ups (tomlKey b)")
      case None
      then have "patch_line ?ups b = b" by (simp add: patch_line_def)
      with Cons show ?thesis by (simp add: others_def)
    next
      case (Some l)
      then have "tomlKey b \<in> set (map update_key rep)" using look by force
      with Cons p(1) show ?thesis by (simp add: others_def)
    qed
  qed (simp add: others_def)
  moreover have "others rep (filter P rep) = []" for P
    using u(1) by (auto simp: others_def filter_empty_conv)
  ultimately show "others rep (patch_body rep body) = others rep body"
    by (simp add: patch_body_def Let_def others_def)
qed

lemma patch_section_stable:
  assumes "good_updates rep" "tomlSection (Split_nl raw) sec = Some se" "stable rep (section_body (Split_nl raw) se)"
  shows "patch_section raw sec rep = raw"
proof -
  obtain s e where se: "se = (s, e)" by (cases se)
  from assms(2)[unfolded se] obtain pre h body post where
    p: "Split_nl raw = pre @ h # body @ post" "s = length pre" "e = Suc s + length body"
    by (rule tomlSection_split) auto
  then have b: "section_body (Split_nl raw) se = body" using section_body_split[of pre h body post] by (simp add: se)
  have "patchTomlSectionLines (Split_nl raw) s e rep had = end_line had (Join (Split_nl raw) nl)" for had
    using stable_patch_body[OF assms(1) assms(3)[unfolded b]] p by (simp add: patchTomlSectionLines_def)
  then show ?thesis using assms(2) Join_Split_nl[of raw] by (simp add: patch_section_def se Let_def end_line_def)
qed

text \<open>What the patch leaves: the section with all the keys of the update, the other lines of the section, and
  the lines before and after it, up to a blank line at the end of the file.\<close>

lemma patch_section_result:
  assumes g: "good_updates rep" and sec: "HasPrefix sec ''[''" "CHR 0x0A \<notin> set sec" "TrimSpace sec = sec"
  shows "\<exists>s e. tomlSection (Split_nl (patch_section raw sec rep)) sec = Some (s, e) \<and>
     stable rep (section_body (Split_nl (patch_section raw sec rep)) (s, e)) \<and>
     (case tomlSection (Split_nl raw) sec of
        None \<Rightarrow> nonblank (take s (Split_nl (patch_section raw sec rep))) = nonblank (Split_nl raw) \<and>
          others rep (section_body (Split_nl (patch_section raw sec rep)) (s, e)) = [] \<and>
          nonblank (drop e (Split_nl (patch_section raw sec rep))) = []
      | Some se \<Rightarrow> take (Suc s) (Split_nl (patch_section raw sec rep)) = take (Suc (fst se)) (Split_nl raw) \<and>
          others rep (section_body (Split_nl (patch_section raw sec rep)) (s, e)) = others rep (section_body (Split_nl raw) se) \<and>
          nonblank (drop e (Split_nl (patch_section raw sec rep))) = nonblank (drop (snd se) (Split_nl raw)))"
proof (cases "tomlSection (Split_nl raw) sec")
  case (Some se)
  obtain s e where se: "se = (s, e)" by (cases se)
  from Some[unfolded se] obtain pre h body post where
    p: "Split_nl raw = pre @ h # body @ post" "s = length pre" "e = Suc s + length body" "list_all (plain sec) body" "stops sec post"
    and re: "\<And>B Q. list_all (plain sec) B \<Longrightarrow> stops sec Q \<Longrightarrow> tomlSection (pre @ h # B @ Q) sec = Some (s, Suc s + length B)"
    by (rule tomlSection_split) auto
  let ?B = "patch_body rep body" and ?had = "HasSuffix raw nl"
  have R: "patch_section raw sec rep = end_line ?had (Join (pre @ h # ?B @ post) nl)"
    using Some p by (simp add: patch_section_def se patchTomlSectionLines_def)
  have lines: "\<forall>l\<in>set (pre @ h # body @ post). CHR 0x0A \<notin> set l" using Split_nl_lines[of _ raw] by (simp add: p(1))
  then have nonl: "\<forall>l\<in>set (pre @ h # ?B @ post). CHR 0x0A \<notin> set l" using patch_body_facts(3)[OF g, of body] by auto
  note B = patch_body_facts(1)[OF g, of body] patch_body_facts(2)[OF g sec(1) p(4)] patch_body_facts(4)[OF g, of body]
  consider "Split_nl (patch_section raw sec rep) = pre @ h # ?B @ post"
    | "Split_nl (patch_section raw sec rep) = pre @ h # ?B @ post @ [[]]"
    using end_line_lines(1)[OF _ nonl, of ?had] unfolding R by auto
  then show ?thesis
  proof cases
    case 1
    then show ?thesis using re[OF B(2) p(5)] B(1,3) Some se p
      by (intro exI[of _ s] exI[of _ "Suc s + length ?B"]) (simp add: section_body_def)
  next
    case 2
    show ?thesis
    proof (cases post)
      case Nil
      have b: "list_all (plain sec) (?B @ [[]])" using B(2) blank_line(3)[OF sec(1)] by simp
      have "tomlSection (pre @ h # (?B @ [[]]) @ []) sec = Some (s, Suc s + length (?B @ [[]]))"
        by (rule re[OF b]) (simp add: stops_def)
      moreover have "others rep (?B @ [[]]) = others rep body" using B(3) by (simp add: others_def)
      ultimately show ?thesis using 2 Nil Some se p stable_blank[OF g B(1)]
        by (intro exI[of _ s] exI[of _ "Suc s + length (?B @ [[]])"]) (simp add: section_body_def)
    next
      case (Cons x xs)
      then have "stops sec (post @ [[]])" using p(5) by (simp add: stops_def)
      from re[OF B(2) this] show ?thesis using 2 B(1,3) Some se p
        by (intro exI[of _ s] exI[of _ "Suc s + length ?B"]) (simp add: section_body_def)
    qed
  qed
next
  case None
  let ?L = "Split_nl raw" let ?K = "if ?L = [[]] then [] else ?L" let ?R = "?K @ sec # rep"
  have nl_free: "\<forall>l\<in>set ?R. CHR 0x0A \<notin> set l"
    using Split_nl_lines[of _ raw] sec(2) good_update_facts(4)[OF g] by auto
  have snoc: "Join (?R @ [[]]) nl = Join ?R nl @ nl" by (rule Join_snoc_empty) simp
  have fin: "\<not> HasSuffix (Join ?R nl) nl"
  proof
    assume "HasSuffix (Join ?R nl) nl"
    then obtain t where t: "Join ?R nl = t @ nl" by (auto simp: HasSuffix_iff)
    have "Split_nl (t @ nl) = Split_nl t @ [[]]"
    proof -
      have "t @ nl = Join (Split_nl t @ [[]]) nl" using Join_snoc_empty[of "Split_nl t" nl] Join_Split_nl[of t] by simp
      moreover have "Split_nl (Join (Split_nl t @ [[]]) nl) = Split_nl t @ [[]]"
        by (rule Split_nl_Join) (use Split_nl_lines[of _ t] in auto)
      ultimately show ?thesis by simp
    qed
    moreover have "Split_nl (Join ?R nl) = ?R" by (rule Split_nl_Join) (use nl_free in auto)
    ultimately have "?K @ sec # rep = Split_nl t @ [[]]" using t by simp
    then have "last (sec # rep) = []" by (metis last_appendR last_snoc list.distinct(1))
    moreover have "last (sec # rep) \<noteq> []"
      using good_update_facts(5)[OF g] sec(1) by (cases rep rule: rev_cases) (auto simp: HasPrefix_def)
    ultimately show False by simp
  qed
  have out: "patch_section raw sec rep = Join (?R @ [[]]) nl"
    using None fin snoc by (simp add: patch_section_def append_section_def Let_def)
  have split: "Split_nl (patch_section raw sec rep) = ?R @ [[]]"
    unfolding out by (rule Split_nl_Join) (use nl_free in auto)
  have "section_loop sec ?K 0 None = None" using None by (simp add: tomlSection_def)
  from section_loop_absent[OF this] have abs: "tomlSection (?K @ ls) sec = section_loop sec ls (length ?K) None" for ls
    by (simp add: tomlSection_def)
  have plain: "list_all (plain sec) (rep @ [[]])"
    using good_update_facts(6)[OF g _ sec(1)] blank_line(3)[OF sec(1)] by (auto simp: list_all_iff)
  have found: "tomlSection (?R @ [[]]) sec = Some (length ?K, Suc (length ?K) + length (rep @ [[]]))"
    using abs[of "sec # rep @ [[]]"] section_loop_plain[OF plain, of "[]" "Suc (length ?K)" "length ?K"]
    by (simp add: section_loop_step sec(3) stops_def)
  have "stable rep rep"
    using patch_line_facts(5)[OF g] good_update_facts(1,2)[OF g] by (auto simp: stable_def)
  then have st: "stable rep (rep @ [[]])" by (rule stable_blank[OF g])
  have oth: "others rep (rep @ [[]]) = []"
    using good_update_facts(1)[OF g] by (auto simp: others_def filter_empty_conv)
  have body: "section_body (?R @ [[]]) (length ?K, Suc (length ?K) + length (rep @ [[]])) = rep @ [[]]"
    using section_body_split[of ?K sec "rep @ [[]]" "[]"] by simp
  show ?thesis
    unfolding split None
    by (rule exI[of _ "length ?K"], rule exI[of _ "Suc (length ?K) + length (rep @ [[]])"])
      (use found st oth body in simp)
qed

subsection \<open>Properties\<close>

lemma nibble: "n < 16 \<Longrightarrow> hex_digit n \<noteq> CHR 0x0A"
proof -
  assume "n < 16"
  then have "(of_char (hex_digit n) :: nat) \<noteq> 10" by (simp add: hex_digit_def)
  then show ?thesis by auto
qed

lemma quote_no_newline: "CHR 0x0A \<notin> set (quote s)"
proof -
  have "CHR 0x0A \<notin> set (quote_char c)" for c
  proof -
    have "(of_char c :: nat) div 16 < 16" by (rule less_mult_imp_div_less) (use byte_lt[of c] in simp)
    with nibble[of "of_char c div 16"] nibble[of "of_char c mod 16"] show ?thesis
      by (auto simp: quote_char_def Let_def)
  qed
  then show ?thesis by (auto simp: quote_def)
qed

lemma Join_no_newline: "CHR 0x0A \<notin> set sep \<Longrightarrow> \<forall>l\<in>set ls. CHR 0x0A \<notin> set l \<Longrightarrow> CHR 0x0A \<notin> set (Join ls sep)"
  by (induction ls rule: induct_list012) auto

lemma toml_value_no_newline:
  "CHR 0x0A \<notin> set (tomlString v)" "CHR 0x0A \<notin> set (tomlBool b)" "CHR 0x0A \<notin> set (tomlStringArray vs)" "CHR 0x0A \<notin> set (show_int i)"
proof -
  show "CHR 0x0A \<notin> set (tomlString v)" by (simp add: tomlString_def quote_no_newline)
  show "CHR 0x0A \<notin> set (tomlBool b)" by (simp add: tomlBool_def)
  show "CHR 0x0A \<notin> set (tomlStringArray vs)"
    using Join_no_newline[of "'', ''" "map tomlString vs"] by (auto simp: tomlStringArray_def tomlString_def quote_no_newline)
  have "CHR 0x0A \<notin> set (show_nat n)" for n using show_nat_dec[of n] by (auto simp: list_all_iff is_digit_def)
  then show "CHR 0x0A \<notin> set (show_int i)" by (simp add: show_int_def)
qed

lemma good_updates_lines:
  assumes "\<And>k v. (k, v) \<in> set kvs \<Longrightarrow> k \<noteq> [] \<and> list_all key_char k \<and> CHR 0x0A \<notin> set v" "distinct (map fst kvs)"
  shows "good_updates (map (\<lambda>(k, v). k @ '' = '' @ v) kvs)"
proof -
  have u: "update_line k v (k @ '' = '' @ v)" if "(k, v) \<in> set kvs" for k v
    using assms(1)[OF that] by (simp add: update_line_def)
  then have key: "update_key (k @ '' = '' @ v) = k" if "(k, v) \<in> set kvs" for k v
    using that by (intro update_line_facts(1)[where i = "[]"]) auto
  then have "map update_key (map (\<lambda>(k, v). k @ '' = '' @ v) kvs) = map fst kvs" by (auto intro!: map_cong)
  moreover have "list_all good_update (map (\<lambda>(k, v). k @ '' = '' @ v) kvs)"
    using u unfolding list_all_iff good_update_def by fastforce
  ultimately show ?thesis using assms(2) by (simp only: good_updates_def)
qed

lemma target_lines_good: "good_updates (target_lines cfg)"
proof -
  let ?kvs = "[(''target_mode'', tomlString (stringDefault (cf_TargetMode cfg) ''resolved_ip'')),
    (''target_name'', tomlString (cf_TargetName cfg)), (''static_ipv4'', tomlStringArray (cf_StaticIPv4 cfg)),
    (''static_ipv6'', tomlStringArray (cf_StaticIPv6 cfg)),
    (''auto_emergency_empty_on_target_failure'', tomlBool (cf_AutoEmergencyEmptyOnTargetFailure cfg)),
    (''stale_target_ttl'', tomlString (stringDefault (cf_StaleTargetTTL cfg) ''24h''))]"
  have "good_updates (map (\<lambda>(k, v). k @ '' = '' @ v) ?kvs)"
    by (rule good_updates_lines) (auto simp: toml_value_no_newline key_char_def is_digit_def)
  then show ?thesis by (simp add: target_lines_def)
qed

lemma scheduler_lines_good: "good_updates (scheduler_lines cfg)"
proof -
  let ?kvs = "[(''enabled'', tomlBool (sd_Enabled cfg)),
    (''default_sync_interval'', tomlString (stringDefault (sd_DefaultSyncInterval cfg) ''12h'')),
    (''sync_timeout'', tomlString (stringDefault (sd_SyncTimeout cfg) ''30s'')),
    (''max_parallel_syncs'', show_int (sd_MaxParallelSyncs cfg)),
    (''jitter'', tomlString (stringDefault (sd_Jitter cfg) ''10m'')),
    (''stale_source_ttl'', tomlString (stringDefault (sd_StaleSourceTTL cfg) ''72h'')),
    (''large_change_threshold_percent'', show_int (sd_LargeChangeThresholdPercent cfg)),
    (''large_change_threshold_count'', show_int (sd_LargeChangeThresholdCount cfg)),
    (''large_change_requires_review'', tomlBool (sd_LargeChangeRequiresReview cfg))]"
  have "good_updates (map (\<lambda>(k, v). k @ '' = '' @ v) ?kvs)"
    by (rule good_updates_lines) (auto simp: toml_value_no_newline key_char_def is_digit_def)
  then show ?thesis by (simp add: scheduler_lines_def)
qed

lemma headers:
  "HasPrefix ''[agh_managed_rewrites]'' ''[''" "CHR 0x0A \<notin> set ''[agh_managed_rewrites]''"
  "TrimSpace ''[agh_managed_rewrites]'' = ''[agh_managed_rewrites]''"
  "HasPrefix ''[agh_managed_rewrites.scheduler]'' ''[''" "CHR 0x0A \<notin> set ''[agh_managed_rewrites.scheduler]''"
  "TrimSpace ''[agh_managed_rewrites.scheduler]'' = ''[agh_managed_rewrites.scheduler]''"
  by (simp_all add: HasPrefix_def TrimSpace_def trim_while_def is_space_def)

lemma patch_section_idem:
  assumes "good_updates rep" "HasPrefix sec ''[''" "CHR 0x0A \<notin> set sec" "TrimSpace sec = sec"
  shows "patch_section (patch_section raw sec rep) sec rep = patch_section raw sec rep"
  using patch_section_result[OF assms, of raw] patch_section_stable[OF assms(1)] by blast

text \<open>Saving the same settings twice is saving them once: patching a file that was patched with the same values
  gives the file back byte for byte, whatever it held, for the target and the scheduler settings.\<close>

theorem patch_is_idempotent:
  "patchAGHManagedTargetConfig (patchAGHManagedTargetConfig raw cfg) cfg = patchAGHManagedTargetConfig raw cfg \<and>
   patchAGHManagedSchedulerConfig (patchAGHManagedSchedulerConfig raw sch) sch = patchAGHManagedSchedulerConfig raw sch"
  unfolding patchAGHManagedTargetConfig_def patchAGHManagedSchedulerConfig_def
  by (rule conjI, rule patch_section_idem[OF target_lines_good headers(1-3)], rule patch_section_idem[OF scheduler_lines_good headers(4-6)])


definition ex_file :: string where
  "ex_file = Join [''[agh_managed_rewrites]'', ''target_mode = 1'', ''extra = 1''] nl"


text \<open>A header with a comment after it is not seen as one: the section goes on past it, and a key of the
  next section is overwritten.\<close>

lemma commented_header_leaks:
  "patchAGHManagedSchedulerConfig
     (Join [''[agh_managed_rewrites.scheduler]'', ''[cname] # off'', ''enabled = false''] nl)
     \<lparr>sd_Enabled = True, sd_DefaultSyncInterval = [], sd_SyncTimeout = [], sd_MaxParallelSyncs = 1, sd_Jitter = [], sd_StaleSourceTTL = [],
      sd_LargeChangeThresholdPercent = 0, sd_LargeChangeThresholdCount = 0, sd_LargeChangeRequiresReview = False\<rparr> =
   Join [''[agh_managed_rewrites.scheduler]'', ''[cname] # off'', ''enabled = true'',
     ''default_sync_interval = '' @ quote ''12h'', ''sync_timeout = '' @ quote ''30s'', ''max_parallel_syncs = 1'', ''jitter = '' @ quote ''10m'',
     ''stale_source_ttl = '' @ quote ''72h'', ''large_change_threshold_percent = 0'', ''large_change_threshold_count = 0'',
     ''large_change_requires_review = false''] nl"
  by code_simp

text \<open>The update: what it accepts and what it leaves on disk.\<close>

lemma check_content_None:
  assumes "check_content E path content fs = (None, fs2)"
  shows "\<exists>c. Config_Load (file_read E (put (path @ ''.check'') content fs)) (ce_unmarshal E) (path @ ''.check'') = Inr c \<and>
    Config_Check (ce_parseDuration E) (ce_parseIP E) c = None" "fs2 = del (path @ ''.check'') (put (path @ ''.check'') content fs)"
  using assms by (auto simp: check_content_def file_write_def Let_def split: option.splits if_splits sum.splits prod.splits)

lemma check_content_other: "check_content E path content fs = (r, fs2) \<Longrightarrow> k \<noteq> path @ ''.check'' \<Longrightarrow> lookup fs2 k = lookup fs k"
  by (auto simp: check_content_def file_write_def Let_def split: option.splits if_splits sum.splits prod.splits)

lemma update_ok:
  assumes "update_config_file E what change patch path fs = (Inr (cfg, content), fs2)"
  shows "\<exists>raw cfg0. file_read E fs path = Inr raw \<and> Config_Load (file_read E fs) (ce_unmarshal E) path = Inr cfg0 \<and>
    cfg = change cfg0 \<and> content = patch raw cfg \<and> Config_Check (ce_parseDuration E) (ce_parseIP E) cfg = None \<and>
    check_content E path content fs = (None, fs2)"
  using assms by (auto simp: update_config_file_def Let_def split: sum.splits option.splits prod.splits)

lemma update_other: "update_config_file E what change patch path fs = (r, fs2) \<Longrightarrow> k \<noteq> path @ ''.check'' \<Longrightarrow> lookup fs2 k = lookup fs k"
  by (auto simp: update_config_file_def Let_def dest: check_content_other split: sum.splits option.splits prod.splits)

end
