(* ===== verification/AghApi.thy ===== *)
theory AghApi
  imports ConfigPatch RuleCatalog
begin

text \<open>
  The calls of the admin backend to the API of AdGuard Home, \<^verbatim>\<open>internal/admin/agh_api.go\<close>: the credentials
  from the configuration and the env file, the requests, and what is made of the answers. The
  other side is a state \<open>'w\<close> that a request reads and changes; the JSON decoder is an argument.
\<close>

subsection \<open>Credentials\<close>

record aghAPIConfig =
  ac_BaseURL :: string
  ac_User :: string
  ac_Pass :: string

definition unquote :: "string \<Rightarrow> string" where
  "unquote v =
     (if 2 \<le> length v \<and> (hd v = CHR 0x27 \<or> hd v = CHR 0x22) \<and> last v = hd v then butlast (tl v) else v)"

definition env_line :: "string \<Rightarrow> (string, string) gomap \<Rightarrow> (string, string) gomap" where
  "env_line raw m =
     (let line = TrimSpace raw in
      if line = [] \<or> HasPrefix line ''#'' then m
      else
        (let l = TrimPrefix line ''export '' in
         if CHR ''='' \<notin> set l then m
         else put (TrimSpace (cut_before CHR ''='' l)) (unquote (TrimSpace (cut_after CHR ''='' l))) m))"

definition parseAGHEnv :: "string \<Rightarrow> (string, string) gomap" where
  "parseAGHEnv raw = fold env_line (Split_nl raw) []"

definition base_url_required :: error where "base_url_required = Err ''agh api base_url required''"

definition credentials_required :: error where "credentials_required = Err ''agh api credentials required''"

text \<open>\<open>rd\<close> reads a file.\<close>

definition loadAGHAPIConfig :: "(string \<Rightarrow> error + string) \<Rightarrow> AGHSyncConfig \<Rightarrow> error + aghAPIConfig" where
  "loadAGHAPIConfig rd cfg =
     (let out0 = \<lparr>ac_BaseURL = TrimSpace (ag_BaseURL cfg), ac_User = [], ac_Pass = []\<rparr>;
          read = (if ag_EnvFile cfg = [] then Inr out0
                  else
                    (case rd (ag_EnvFile cfg) of
                       Inl e \<Rightarrow> if e = ErrNotExist then Inr out0 else Inl (with_prefix ''read AGH env file: '' e)
                     | Inr raw \<Rightarrow>
                         (let env = parseAGHEnv raw; v = TrimSpace (get_or [] env ''AGH_API_URL'') in
                          Inr \<lparr>ac_BaseURL = (if v \<noteq> [] then v else ac_BaseURL out0),
                               ac_User = get_or [] env ''AGH_API_USER'', ac_Pass = get_or [] env ''AGH_API_PASS''\<rparr>)))
      in case read of
           Inl e \<Rightarrow> Inl e
         | Inr out \<Rightarrow>
             if ac_BaseURL out = [] then Inl base_url_required
             else if ac_User out = [] \<or> ac_Pass out = [] then Inl credentials_required
             else Inr out)"

subsection \<open>Requests\<close>

datatype agh_body = NoBody | RefreshBody bool | AddURLBody string string

record agh_request =
  aq_Method :: string
  aq_URL :: string
  aq_User :: string
  aq_Pass :: string
  aq_Body :: agh_body

record aghFilterMatch =
  fm_ID :: int
  fm_Name :: string
  fm_URL :: string
  fm_Enabled :: bool

text \<open>The client: whether a request can be built for a URL, the exchange, the decoders of the answers.\<close>

record 'w agh_client =
  cl_new_request :: "string \<Rightarrow> error option"
  cl_do :: "agh_request \<Rightarrow> 'w \<Rightarrow> (error + int \<times> string) \<times> 'w"
  cl_filters :: "string \<Rightarrow> error + aghFilterMatch list"
  cl_object :: "string \<Rightarrow> error + string"
  cl_read :: "string \<Rightarrow> error + string"

definition status_failed :: "int \<Rightarrow> string \<Rightarrow> string" where
  "status_failed code body = ''status '' @ show_int code @ '': '' @ TrimSpace (take 512 body)"

definition doAGHJSON ::
  "'w agh_client \<Rightarrow> aghAPIConfig \<Rightarrow> string \<Rightarrow> string \<Rightarrow> agh_body \<Rightarrow> 'w \<Rightarrow> (error + string) \<times> 'w" where
  "doAGHJSON C cfg meth path body w =
     (let url = TrimRight (ac_BaseURL cfg) CHR ''/'' @ path in
      case cl_new_request C url of
        Some e \<Rightarrow> (Inl e, w)
      | None \<Rightarrow>
          (case cl_do C \<lparr>aq_Method = meth, aq_URL = url, aq_User = ac_User cfg, aq_Pass = ac_Pass cfg, aq_Body = body\<rparr> w of
             (Inl e, w1) \<Rightarrow> (Inl e, w1)
           | (Inr (code, answer), w1) \<Rightarrow>
               if code < 200 \<or> 300 \<le> code then (Inl (Err (status_failed code answer)), w1) else (Inr answer, w1)))"

record aghRefreshResult =
  rr_BaseURL :: string
  rr_Force :: bool

definition refreshAGHFilters :: "'w agh_client \<Rightarrow> AGHSyncConfig \<Rightarrow> bool \<Rightarrow> 'w \<Rightarrow> (error + aghRefreshResult) \<times> 'w" where
  "refreshAGHFilters C cfg force w =
     (case loadAGHAPIConfig (cl_read C) cfg of
        Inl e \<Rightarrow> (Inl e, w)
      | Inr api \<Rightarrow>
          (let url = TrimRight (ac_BaseURL api) CHR ''/'' @ ''/control/filtering/refresh'' in
           case cl_new_request C url of
             Some e \<Rightarrow> (Inl e, w)
           | None \<Rightarrow>
               (case cl_do C \<lparr>aq_Method = ''POST'', aq_URL = url, aq_User = ac_User api, aq_Pass = ac_Pass api, aq_Body = RefreshBody force\<rparr> w of
                  (Inl e, w1) \<Rightarrow> (Inl (with_prefix ''refresh AGH filters: '' e), w1)
                | (Inr (code, answer), w1) \<Rightarrow>
                    if code < 200 \<or> 300 \<le> code
                    then (Inl (Err (''refresh AGH filters: '' @ status_failed code answer)), w1)
                    else (Inr \<lparr>rr_BaseURL = ac_BaseURL api, rr_Force = force\<rparr>, w1))))"

subsection \<open>Registration of the feed\<close>

definition normalizeAGHURL :: "string \<Rightarrow> string" where
  "normalizeAGHURL raw = TrimRight (TrimSpace raw) CHR ''/''"

record aghRegistrationStatus =
  rs_BaseURL :: string
  rs_FeedURL :: string
  rs_Registered :: bool
  rs_Enabled :: bool
  rs_MatchedFilter :: "aghFilterMatch option"

definition checkAGHFeedRegistration ::
  "'w agh_client \<Rightarrow> AGHSyncConfig \<Rightarrow> string \<Rightarrow> 'w \<Rightarrow> (error + aghRegistrationStatus) \<times> 'w" where
  "checkAGHFeedRegistration C cfg feedURL w =
     (case loadAGHAPIConfig (cl_read C) cfg of
        Inl e \<Rightarrow> (Inl e, w)
      | Inr api \<Rightarrow>
          (case doAGHJSON C api ''GET'' ''/control/filtering/status'' NoBody w of
             (Inl e, w1) \<Rightarrow> (Inl (with_prefix ''check AGH feed registration: '' e), w1)
           | (Inr answer, w1) \<Rightarrow>
               (case cl_filters C answer of
                  Inl e \<Rightarrow> (Inl (with_prefix ''check AGH feed registration: '' e), w1)
                | Inr filters \<Rightarrow>
                    (let out = \<lparr>rs_BaseURL = ac_BaseURL api, rs_FeedURL = feedURL, rs_Registered = False,
                                rs_Enabled = False, rs_MatchedFilter = None\<rparr>
                     in (Inr (case find (\<lambda>f. normalizeAGHURL (fm_URL f) = normalizeAGHURL feedURL) filters of
                                None \<Rightarrow> out
                              | Some f \<Rightarrow> out\<lparr>rs_Registered := True, rs_Enabled := fm_Enabled f, rs_MatchedFilter := Some f\<rparr>), w1)))))"

record aghRegisterResult =
  rg_Status :: aghRegistrationStatus
  rg_AlreadyRegistered :: bool
  rg_Refreshed :: bool

definition registerAGHFeed ::
  "'w agh_client \<Rightarrow> AGHSyncConfig \<Rightarrow> string \<Rightarrow> string \<Rightarrow> 'w \<Rightarrow> (error + aghRegisterResult) \<times> 'w" where
  "registerAGHFeed C cfg feedURL name w =
     (case loadAGHAPIConfig (cl_read C) cfg of
        Inl e \<Rightarrow> (Inl e, w)
      | Inr api \<Rightarrow>
          (case checkAGHFeedRegistration C cfg feedURL w of
             (Inl e, w1) \<Rightarrow> (Inl e, w1)
           | (Inr st, w1) \<Rightarrow>
               if rs_Registered st then (Inr \<lparr>rg_Status = st, rg_AlreadyRegistered = True, rg_Refreshed = False\<rparr>, w1)
               else
                 (let name1 = (if TrimSpace name = [] then ''mirage-chaff managed rewrites'' else name) in
                  case doAGHJSON C api ''POST'' ''/control/filtering/add_url'' (AddURLBody name1 feedURL) w1 of
                    (Inl e, w2) \<Rightarrow> (Inl (with_prefix ''register AGH feed: '' e), w2)
                  | (Inr _, w2) \<Rightarrow>
                      (case refreshAGHFilters C cfg False w2 of
                         (Inl e, w3) \<Rightarrow> (Inl e, w3)
                       | (Inr _, w3) \<Rightarrow>
                           (case checkAGHFeedRegistration C cfg feedURL w3 of
                              (Inl e, w4) \<Rightarrow> (Inl e, w4)
                            | (Inr st1, w4) \<Rightarrow>
                                (Inr \<lparr>rg_Status = st1, rg_AlreadyRegistered = False, rg_Refreshed = True\<rparr>, w4))))))"

record aghCheckHostResult =
  ch_Domain :: string
  ch_Raw :: string

definition checkAGHHost :: "'w agh_client \<Rightarrow> AGHSyncConfig \<Rightarrow> string \<Rightarrow> 'w \<Rightarrow> (error + aghCheckHostResult) \<times> 'w" where
  "checkAGHHost C cfg domain w =
     (case loadAGHAPIConfig (cl_read C) cfg of
        Inl e \<Rightarrow> (Inl e, w)
      | Inr api \<Rightarrow>
          (case doAGHJSON C api ''GET'' (''/control/filtering/check_host?name='' @ QueryEscape domain) NoBody w of
             (Inl e, w1) \<Rightarrow> (Inl (with_prefix ''check AGH host: '' e), w1)
           | (Inr answer, w1) \<Rightarrow>
               (case cl_object C answer of
                  Inl e \<Rightarrow> (Inl (with_prefix ''check AGH host: '' e), w1)
                | Inr raw \<Rightarrow> (Inr \<lparr>ch_Domain = domain, ch_Raw = raw\<rparr>, w1))))"

subsection \<open>Facts\<close>

text \<open>How AdGuard Home answers, with the credentials of \<open>api\<close>: the status lists its filters, the URL is
  one of them once it is added, a refresh leaves them.\<close>

definition agh_request_to :: "aghAPIConfig \<Rightarrow> string \<Rightarrow> string \<Rightarrow> agh_body \<Rightarrow> agh_request" where
  "agh_request_to api meth path body =
     \<lparr>aq_Method = meth, aq_URL = TrimRight (ac_BaseURL api) CHR ''/'' @ path, aq_User = ac_User api, aq_Pass = ac_Pass api, aq_Body = body\<rparr>"

definition agh_behaves :: "'w agh_client \<Rightarrow> aghAPIConfig \<Rightarrow> ('w \<Rightarrow> aghFilterMatch list) \<Rightarrow> string \<Rightarrow> bool" where
  "agh_behaves C api filters url \<longleftrightarrow>
     (\<forall>u. cl_new_request C u = None) \<and>
     (\<forall>w. \<exists>body. cl_do C (agh_request_to api ''GET'' ''/control/filtering/status'' NoBody) w = (Inr (200, body), w) \<and>
        cl_filters C body = Inr (filters w)) \<and>
     (\<forall>w name. \<exists>body w' f. cl_do C (agh_request_to api ''POST'' ''/control/filtering/add_url'' (AddURLBody name url)) w = (Inr (200, body), w') \<and>
        filters w' = filters w @ [f] \<and> fm_URL f = url) \<and>
     (\<forall>w f. \<exists>body w'. cl_do C (agh_request_to api ''POST'' ''/control/filtering/refresh'' (RefreshBody f)) w = (Inr (200, body), w') \<and>
        filters w' = filters w)"

definition is_feed :: "string \<Rightarrow> aghFilterMatch \<Rightarrow> bool" where
  "is_feed url f \<longleftrightarrow> normalizeAGHURL (fm_URL f) = normalizeAGHURL url"

lemma check_behaves:
  assumes "loadAGHAPIConfig (cl_read C) cfg = Inr api" "agh_behaves C api filters url"
  shows "\<exists>st. checkAGHFeedRegistration C cfg url w = (Inr st, w) \<and> (rs_Registered st \<longleftrightarrow> filter (is_feed url) (filters w) \<noteq> []) \<and>
    rs_MatchedFilter st = find (is_feed url) (filters w)"
proof -
  obtain body where "cl_do C (agh_request_to api ''GET'' ''/control/filtering/status'' NoBody) w = (Inr (200, body), w)"
    "cl_filters C body = Inr (filters w)" "cl_new_request C (TrimRight (ac_BaseURL api) CHR ''/'' @ ''/control/filtering/status'') = None"
    using assms(2) unfolding agh_behaves_def by metis
  moreover have "find (\<lambda>f. normalizeAGHURL (fm_URL f) = normalizeAGHURL url) (filters w) = find (is_feed url) (filters w)"
    by (rule find_cong) (simp_all add: is_feed_def)
  moreover have "find (is_feed url) (filters w) = None \<longleftrightarrow> filter (is_feed url) (filters w) = []"
    by (auto simp: find_None_iff filter_empty_conv)
  ultimately show ?thesis using assms(1)
    by (auto simp: checkAGHFeedRegistration_def doAGHJSON_def agh_request_to_def split: option.split)
qed

lemma refresh_behaves:
  assumes "loadAGHAPIConfig (cl_read C) cfg = Inr api" "agh_behaves C api filters url"
  shows "\<exists>r w'. refreshAGHFilters C cfg force w = (Inr r, w') \<and> filters w' = filters w"
proof -
  obtain body w' where "cl_do C (agh_request_to api ''POST'' ''/control/filtering/refresh'' (RefreshBody force)) w = (Inr (200, body), w')"
    "filters w' = filters w" "cl_new_request C (TrimRight (ac_BaseURL api) CHR ''/'' @ ''/control/filtering/refresh'') = None"
    using assms(2) unfolding agh_behaves_def by metis
  then show ?thesis using assms(1) by (auto simp: refreshAGHFilters_def agh_request_to_def)
qed

lemma add_behaves:
  assumes "agh_behaves C api filters url"
  shows "\<exists>a w' f. doAGHJSON C api ''POST'' ''/control/filtering/add_url'' (AddURLBody name url) w = (Inr a, w') \<and>
    filters w' = filters w @ [f] \<and> is_feed url f"
proof -
  obtain body w' f where "cl_do C (agh_request_to api ''POST'' ''/control/filtering/add_url'' (AddURLBody name url)) w = (Inr (200, body), w')"
    "filters w' = filters w @ [f]" "fm_URL f = url"
    "cl_new_request C (TrimRight (ac_BaseURL api) CHR ''/'' @ ''/control/filtering/add_url'') = None"
    using assms unfolding agh_behaves_def by metis
  then show ?thesis by (auto simp: doAGHJSON_def agh_request_to_def is_feed_def)
qed

subsection \<open>Properties\<close>

text \<open>Registering the feed with AdGuard Home adds it once: afterwards it is registered, a list that did not have
  the URL, up to trailing slashes, has it exactly once and one that had it is as it was, and
  registering it again changes nothing.\<close>

theorem register_adds_once:
  assumes "loadAGHAPIConfig (cl_read C) cfg = Inr api" "agh_behaves C api filters url"
  shows "\<exists>r w1 r2. registerAGHFeed C cfg url name w = (Inr r, w1) \<and> rs_Registered (rg_Status r) \<and>
    (rg_AlreadyRegistered r \<longleftrightarrow> filter (is_feed url) (filters w) \<noteq> []) \<and>
    length (filter (is_feed url) (filters w1)) = max 1 (length (filter (is_feed url) (filters w))) \<and>
    filter (\<lambda>f. \<not> is_feed url f) (filters w1) = filter (\<lambda>f. \<not> is_feed url f) (filters w) \<and>
    registerAGHFeed C cfg url name w1 = (Inr r2, w1) \<and> rg_AlreadyRegistered r2"
proof -
  note chk = check_behaves[OF assms]
  have again: "\<exists>r2. registerAGHFeed C cfg url n v = (Inr r2, v) \<and> rs_Registered (rg_Status r2) \<and> rg_AlreadyRegistered r2"
    if "filter (is_feed url) (filters v) \<noteq> []" for v n
    using chk[of v] that assms(1) by (auto simp: registerAGHFeed_def)
  show ?thesis
  proof (cases "filter (is_feed url) (filters w) = []")
    case False
    then obtain r2 where "registerAGHFeed C cfg url name w = (Inr r2, w)" "rs_Registered (rg_Status r2)" "rg_AlreadyRegistered r2"
      using again by blast
    moreover have "1 \<le> length (filter (is_feed url) (filters w))" using False by (cases "filter (is_feed url) (filters w)") auto
    ultimately show ?thesis using False by (intro exI[of _ r2] exI[of _ w]) (simp add: max_def)
  next
    case True
    let ?n = "if TrimSpace name = [] then ''mirage-chaff managed rewrites'' else name"
    obtain st where st: "checkAGHFeedRegistration C cfg url w = (Inr st, w)" "\<not> rs_Registered st" using chk[of w] True by auto
    obtain a w2 f where a: "doAGHJSON C api ''POST'' ''/control/filtering/add_url'' (AddURLBody ?n url) w = (Inr a, w2)"
      "filters w2 = filters w @ [f]" "is_feed url f" using add_behaves[OF assms(2), of ?n w] by blast
    obtain rr w3 where rr: "refreshAGHFilters C cfg False w2 = (Inr rr, w3)" "filters w3 = filters w2"
      using refresh_behaves[OF assms, of False w2] by blast
    have one: "filter (is_feed url) (filters w3) = [f]" "filter (\<lambda>f. \<not> is_feed url f) (filters w3) = filter (\<lambda>f. \<not> is_feed url f) (filters w)"
      using a rr True by simp_all
    then obtain st1 where st1: "checkAGHFeedRegistration C cfg url w3 = (Inr st1, w3)" "rs_Registered st1" using chk[of w3] by auto
    obtain r2 where r2: "registerAGHFeed C cfg url name w3 = (Inr r2, w3)" "rg_AlreadyRegistered r2" using again[of w3] one by auto
    let ?r = "\<lparr>rg_Status = st1, rg_AlreadyRegistered = False, rg_Refreshed = True\<rparr>"
    have "registerAGHFeed C cfg url name w = (Inr ?r, w3)"
      using assms(1) st a(1) rr(1) st1(1) by (simp add: registerAGHFeed_def Let_def)
    with one st1 r2 True show ?thesis by (intro exI[of _ ?r] exI[of _ w3] exI[of _ r2]) simp
  qed
qed

text \<open>A sample: the state is how often the feed was added.\<close>

abbreviation ex_filter :: aghFilterMatch where
  "ex_filter \<equiv> \<lparr>fm_ID = 1, fm_Name = ''n'', fm_URL = ''http://m/f.txt'', fm_Enabled = True\<rparr>"

definition ex_agh :: "nat agh_client" where
  "ex_agh = \<lparr>cl_new_request = (\<lambda>_. None),
     cl_do = (\<lambda>r w. case aq_Body r of AddURLBody n u \<Rightarrow> (Inr (200, []), Suc w) | _ \<Rightarrow> (Inr (200, replicate w CHR ''x''), w)),
     cl_filters = (\<lambda>b. Inr (replicate (length b) ex_filter)), cl_object = (\<lambda>b. Inr b),
     cl_read = (\<lambda>p. Inr (''AGH_API_USER=u'' @ nl @ ''AGH_API_PASS=p''))\<rparr>"

definition ex_agh_cfg :: AGHSyncConfig where
  "ex_agh_cfg = (c_AGHSync Defaults)\<lparr>ag_BaseURL := ''http://agh'', ag_EnvFile := ''env''\<rparr>"

lemma ex_agh_behaves: "agh_behaves ex_agh api (\<lambda>w. replicate w ex_filter) ''http://m/f.txt''"
  by (auto simp: agh_behaves_def ex_agh_def agh_request_to_def replicate_append_same intro!: exI[of _ ex_filter])

theorem register_adds_once_witness:
  "\<exists>r w1 r2. registerAGHFeed ex_agh ex_agh_cfg ''http://m/f.txt'' ''n'' 0 = (Inr r, w1) \<and> rs_Registered (rg_Status r) \<and>
    (rg_AlreadyRegistered r \<longleftrightarrow> filter (is_feed ''http://m/f.txt'') (replicate 0 ex_filter) \<noteq> []) \<and>
    length (filter (is_feed ''http://m/f.txt'') (replicate w1 ex_filter)) = max 1 (length (filter (is_feed ''http://m/f.txt'') (replicate 0 ex_filter))) \<and>
    filter (\<lambda>f. \<not> is_feed ''http://m/f.txt'' f) (replicate w1 ex_filter) = filter (\<lambda>f. \<not> is_feed ''http://m/f.txt'' f) (replicate 0 ex_filter) \<and>
    registerAGHFeed ex_agh ex_agh_cfg ''http://m/f.txt'' ''n'' w1 = (Inr r2, w1) \<and> rg_AlreadyRegistered r2"
proof -
  have "loadAGHAPIConfig (cl_read ex_agh) ex_agh_cfg = Inr \<lparr>ac_BaseURL = ''http://agh'', ac_User = ''u'', ac_Pass = ''p''\<rparr>"
    by code_simp
  from register_adds_once[OF this ex_agh_behaves] show ?thesis .
qed

text \<open>What the requests carry: nothing is sent without both credentials.\<close>

lemma no_request_without_credentials:
  "loadAGHAPIConfig (cl_read C) cfg = Inl e \<Longrightarrow>
     refreshAGHFilters C cfg force w = (Inl e, w) \<and> checkAGHFeedRegistration C cfg url w = (Inl e, w) \<and>
     registerAGHFeed C cfg url name w = (Inl e, w) \<and> checkAGHHost C cfg domain w = (Inl e, w)"
  by (simp add: refreshAGHFilters_def checkAGHFeedRegistration_def registerAGHFeed_def checkAGHHost_def)

lemma credentials_present:
  "loadAGHAPIConfig rd cfg = Inr api \<Longrightarrow> ac_BaseURL api \<noteq> [] \<and> ac_User api \<noteq> [] \<and> ac_Pass api \<noteq> []"
  by (auto simp: loadAGHAPIConfig_def Let_def split: if_splits sum.splits)

end
