(* ===== verification/AghHandlers.thy ===== *)
theory AghHandlers
  imports AghFeed AghApi Go_Http RuleStore Observability
begin

text \<open>
  The handlers of \<^verbatim>\<open>internal/admin/agh_managed_handlers.go\<close> around the manager of the feeds, the account
  store with its audit log, the configuration file and the API of AdGuard Home. A handler takes
  the request, its decoded body (or the status of a decoding failure) and the session the guard
  found; its answer is a value of \<open>agh_answer\<close>, which says what the JSON or text is made of.
  The clock, the resolver, the outcome of saving the manager's state and of the audit log's save
  are the fields of \<open>agh_call\<close>.
\<close>

subsection \<open>Requests and answers\<close>

record agh_http =
  ah_Query :: query_values
  ah_ID :: string
  ah_TLS :: bool
  ah_Host :: string
  ah_Headers :: headers

record agh_call =
  ak_env :: env
  ak_t0 :: time
  ak_t1 :: time
  ak_now :: time
  ak_res :: resolver
  ak_io :: "error option"
  ak_audit :: io_result
  ak_audit_time :: time

record AghAdmin = PolicyAdmin +
  aa_mgr :: "Manager option"
  aa_configPath :: string
  aa_cfgFiles :: files
  aa_rules :: "RStore option"
  aa_rec :: Recorder

record aghManagedHistoryEvent =
  ev_Time :: time
  ev_Kind :: string
  ev_Actor :: string
  ev_Action :: string
  ev_Detail :: string
  ev_Summary :: string
  ev_IncludedCount :: int
  ev_ExcludedCount :: int
  ev_AddedCount :: int
  ev_RemovedCount :: int
  ev_ConflictCount :: int
  ev_EntryCount :: int
  ev_TargetMode :: string
  ev_EmergencyEmpty :: bool

datatype agh_answer =
    HttpError int string
  | Aborted
  | OkAnswer
  | FeedText string
  | FeedFile string string
  | SourceList "MSource list"
  | SourceAnswer MSource
  | SourcePreview MSource "PendingDiffEntry page"
  | DiffAnswer PendingDiff
  | DiffPage string "MSource" "PendingDiffEntry page"
  | SourceEntries MSource "CatalogRow page"
  | CatalogAnswer "CatalogRow page"
  | FacetsAnswer CatalogFacets
  | ConflictList "Conflict list"
  | RollbackList "RollbackRecord list"
  | HistoryAnswer "aghManagedHistoryEvent list" "AuditEntry list" "FeedGenerationRecord list" "RollbackRecord list"
  | RowAnswer CatalogRow
  | RowsAnswer int "CatalogRow list"
  | StatusAnswer string FeedStatus
  | TargetAnswer AGHManagedConfig string FeedStatus
  | SchedulerAnswer AGHManagedScheduler "(string, int) gomap" time
  | SchedulerSaved AGHManagedScheduler
  | PreviewAnswer Preview "FeedItem page"
  | RefreshAnswer FeedStatus string
  | EmergencyAnswer bool
  | AghRefreshed aghRefreshResult
  | AghRegistered aghRegisterResult
  | AghStatus aghRegistrationStatus "(string \<times> aghCheckHostResult) option" string

definition answer_status :: "agh_answer \<Rightarrow> int" where
  "answer_status a = (case a of HttpError code _ \<Rightarrow> code | Aborted \<Rightarrow> 0 | _ \<Rightarrow> 200)"

definition unavailable :: agh_answer where
  "unavailable = HttpError 503 ''managed rewrites unavailable''"

definition decode_answer :: "int \<Rightarrow> agh_answer" where
  "decode_answer code =
     (if code = 413 then HttpError 413 ''request body too large'' else HttpError 400 ''bad request'')"

text \<open>The manager, when there is one; the operation's error among its results.\<close>

definition with_mgr :: "AghAdmin \<Rightarrow> (Manager \<Rightarrow> agh_answer \<times> AghAdmin) \<Rightarrow> agh_answer \<times> AghAdmin" where
  "with_mgr srv k = (case aa_mgr srv of None \<Rightarrow> (unavailable, srv) | Some m \<Rightarrow> k m)"

definition with_body :: "int + 'b \<Rightarrow> AghAdmin \<Rightarrow> ('b \<Rightarrow> agh_answer \<times> AghAdmin) \<Rightarrow> agh_answer \<times> AghAdmin" where
  "with_body body srv k = (case body of Inl code \<Rightarrow> (decode_answer code, srv) | Inr req \<Rightarrow> k req)"

abbreviation set_mgr :: "Manager \<Rightarrow> AghAdmin \<Rightarrow> AghAdmin" where
  "set_mgr m srv \<equiv> srv\<lparr>aa_mgr := Some m\<rparr>"

definition as_err :: "error + 'a \<times> error option \<Rightarrow> error + 'a" where
  "as_err r = (case r of Inl e \<Rightarrow> Inl e | Inr (x, Some e) \<Rightarrow> Inl e | Inr (x, None) \<Rightarrow> Inr x)"

definition agh_audit :: "agh_call \<Rightarrow> session \<Rightarrow> string \<Rightarrow> string \<Rightarrow> AghAdmin \<Rightarrow> AghAdmin" where
  "agh_audit C sess action detail srv = audit_srv (ak_audit_time C) (ak_audit C) (s_username sess) action detail srv"

text \<open>The end of a handler that changes the manager: an error is answered with \<open>code\<close>; a success is
  written to the audit log.\<close>

definition conclude ::
  "agh_call \<Rightarrow> session \<Rightarrow> int \<Rightarrow> string \<Rightarrow> ('a \<Rightarrow> string) \<Rightarrow> ('a \<Rightarrow> agh_answer) \<Rightarrow> error + 'a \<Rightarrow> AghAdmin \<Rightarrow> agh_answer \<times> AghAdmin" where
  "conclude C sess code action detail ans r srv =
     (case r of Inl e \<Rightarrow> (HttpError code (error_text e), srv) | Inr x \<Rightarrow> (ans x, agh_audit C sess action (detail x) srv))"

subsection \<open>Query parameters\<close>

definition values_get :: "query_values \<Rightarrow> string \<Rightarrow> string" where
  "values_get q k = (case get_or [] q k of [] \<Rightarrow> [] | v # _ \<Rightarrow> v)"

definition param :: "agh_http \<Rightarrow> string \<Rightarrow> string" where
  "param r k = TrimSpace (values_get (ah_Query r) k)"

definition ParseBool :: "string \<Rightarrow> bool option" where
  "ParseBool s =
     (if s \<in> {''1'', ''t'', ''T'', ''true'', ''TRUE'', ''True''} then Some True
      else if s \<in> {''0'', ''f'', ''F'', ''false'', ''FALSE'', ''False''} then Some False else None)"

definition int_param :: "agh_http \<Rightarrow> string \<Rightarrow> int" where
  "int_param r k = (let v = param r k in if v = [] then 0 else (case ParseInt v of Inl _ \<Rightarrow> 0 | Inr n \<Rightarrow> n))"

definition bool_param :: "agh_http \<Rightarrow> string \<Rightarrow> bool option" where
  "bool_param r k = (let v = param r k in if v = [] then None else ParseBool v)"

definition aghManagedPendingDiffEntryQuery :: "agh_http \<Rightarrow> PendingDiffEntryQuery" where
  "aghManagedPendingDiffEntryQuery r = \<lparr>dq_Q = param r ''q'', dq_Limit = int_param r ''limit'', dq_Offset = int_param r ''offset''\<rparr>"

definition aghManagedCatalogQuery :: "agh_http \<Rightarrow> CatalogQuery" where
  "aghManagedCatalogQuery r =
     \<lparr>q_Q = param r ''q'', q_Source = param r ''source'', q_Category = param r ''category'',
      q_ResourceType = param r ''resource_type'', q_ReviewStatus = param r ''review_status'',
      q_RewriteEnabled = bool_param r ''rewrite_enabled'', q_Unsupported = bool_param r ''unsupported'',
      q_Limit = int_param r ''limit'', q_Offset = int_param r ''offset''\<rparr>"

definition aghManagedFeedPreviewQuery :: "agh_http \<Rightarrow> FeedPreviewQuery" where
  "aghManagedFeedPreviewQuery r =
     \<lparr>fq_Q = param r ''q'', fq_Included = bool_param r ''included'', fq_Limit = int_param r ''limit'', fq_Offset = int_param r ''offset''\<rparr>"

definition aghManagedFeedURL :: "agh_http \<Rightarrow> string \<Rightarrow> string" where
  "aghManagedFeedURL r feedPath0 =
     (let feedPath = (if feedPath0 = [] then ''/agh/managed-rewrites.txt'' else feedPath0);
          proto = TrimSpace (header_get ''X-Forwarded-Proto'' (ah_Headers r));
          scheme = (if proto \<noteq> [] then cut_before CHR '','' proto else if ah_TLS r then ''https'' else ''http'');
          fhost = TrimSpace (header_get ''X-Forwarded-Host'' (ah_Headers r));
          host = (if fhost \<noteq> [] then cut_before CHR '','' fhost else ah_Host r)
      in if host = [] then feedPath
         else scheme @ ''://'' @ host @ (if HasPrefix feedPath ''/'' then feedPath else CHR ''/'' # feedPath))"

subsection \<open>Details of the audit log\<close>

definition mapBool :: "bool \<Rightarrow> string" where
  "mapBool v = (if v then ''true'' else ''false'')"

definition errString :: "error option \<Rightarrow> string" where
  "errString e = (case e of None \<Rightarrow> [] | Some e \<Rightarrow> error_text e)"

definition mapErr :: "error option \<Rightarrow> string" where
  "mapErr e = (case e of None \<Rightarrow> ''ok'' | Some e \<Rightarrow> error_text e)"

definition aghManagedSourceAuditDetail :: "MSource \<Rightarrow> string" where
  "aghManagedSourceAuditDetail src =
     ''id='' @ so_ID src @ '' type='' @ so_Type src @ '' enabled='' @ mapBool (so_Enabled src) @ '' pending='' @ mapBool (so_PendingReview src) @
     '' entries='' @ show_int (so_Entries src) @ '' unsupported='' @ show_int (so_Unsupported src) @
     '' allow_exceptions='' @ show_int (so_AllowExceptions src) @ '' priority='' @ show_int (so_Priority src) @
     '' stale_feed_policy='' @ so_StaleFeedPolicy src"

definition aghManagedSourceSyncAuditDetail :: "MSource \<Rightarrow> string" where
  "aghManagedSourceSyncAuditDetail src =
     ''id='' @ so_ID src @ '' entries='' @ show_int (so_Entries src) @ '' added='' @ show_int (so_Added src) @
     '' removed='' @ show_int (so_Removed src) @ '' changed='' @ show_int (so_Changed src) @ '' pending='' @ mapBool (so_PendingReview src) @
     '' unsupported='' @ show_int (so_Unsupported src) @ '' allow_exceptions='' @ show_int (so_AllowExceptions src)"

definition aghManagedOverrideFields :: "CatalogOverride \<Rightarrow> string list" where
  "aghManagedOverrideFields ov = map snd (filter fst
     [(ov_Category ov \<noteq> [], ''category''), (ov_ResourceType ov \<noteq> [], ''resource_type''), (ov_Risk ov \<noteq> [], ''risk''),
      (ov_Confidence ov \<noteq> [], ''confidence''), (ov_ReviewStatus ov \<noteq> [], ''review_status''), (ov_Verified ov \<noteq> None, ''verified''),
      (ov_ExpectedCatalog ov \<noteq> [], ''expected_catalog''), (ov_Action ov \<noteq> [], ''action''),
      (ov_RewriteEnabled ov \<noteq> None, ''rewrite_enabled''), (ov_RewriteReason ov \<noteq> [], ''rewrite_reason''), (ov_Notes ov \<noteq> [], ''notes'')])"

definition aghManagedCatalogAuditDetail :: "string \<Rightarrow> CatalogOverride \<Rightarrow> string" where
  "aghManagedCatalogAuditDetail i ov =
     (let fields = aghManagedOverrideFields ov in
      if fields = [] then ''id='' @ i else ''id='' @ i @ '' fields='' @ Join fields '','')"

definition aghManagedBulkAuditDetail :: "int \<Rightarrow> CatalogOverride \<Rightarrow> string" where
  "aghManagedBulkAuditDetail updated ov =
     (let fields = aghManagedOverrideFields ov in
      if fields = [] then ''updated='' @ show_int updated else ''updated='' @ show_int updated @ '' fields='' @ Join fields '','')"

definition aghManagedTargetConfigAuditDetail :: "AGHManagedConfig \<Rightarrow> string" where
  "aghManagedTargetConfigAuditDetail cfg =
     ''target_mode='' @ stringDefault (cf_TargetMode cfg) ''resolved_ip'' @ '' target_name='' @ cf_TargetName cfg @
     '' static_ipv4='' @ Join (cf_StaticIPv4 cfg) '','' @ '' static_ipv6='' @ Join (cf_StaticIPv6 cfg) '','' @
     '' stale_target_ttl='' @ stringDefault (cf_StaleTargetTTL cfg) ''24h'' @
     '' auto_emergency_empty_on_target_failure='' @ show_bool (cf_AutoEmergencyEmptyOnTargetFailure cfg)"

definition aghManagedSchedulerConfigAuditDetail :: "AGHManagedScheduler \<Rightarrow> string" where
  "aghManagedSchedulerConfigAuditDetail cfg =
     ''enabled='' @ mapBool (sd_Enabled cfg) @ '' default_sync_interval='' @ sd_DefaultSyncInterval cfg @
     '' sync_timeout='' @ sd_SyncTimeout cfg @ '' max_parallel_syncs='' @ show_int (sd_MaxParallelSyncs cfg) @
     '' jitter='' @ sd_Jitter cfg @ '' stale_source_ttl='' @ sd_StaleSourceTTL cfg @
     '' large_change_threshold_percent='' @ show_int (sd_LargeChangeThresholdPercent cfg) @
     '' large_change_threshold_count='' @ show_int (sd_LargeChangeThresholdCount cfg) @
     '' large_change_requires_review='' @ mapBool (sd_LargeChangeRequiresReview cfg)"

definition aghManagedSourceHealthSummary :: "MSource list \<Rightarrow> (string, int) gomap" where
  "aghManagedSourceHealthSummary sources =
     foldl (\<lambda>m src. let h = (if so_Health src = [] then ''unknown'' else so_Health src) in put h (get_or 0 m h + 1) m)
       [(''total'', int (length sources))] sources"

definition aghManagedNextSourceSync :: "MSource list \<Rightarrow> time" where
  "aghManagedNextSourceSync sources =
     foldl (\<lambda>next src. if IsZero (so_NextSync src) then next
                       else if IsZero next \<or> so_NextSync src < next then so_NextSync src else next) 0 sources"


subsection \<open>Sources\<close>

definition handleAGHManagedFeed :: "agh_call \<Rightarrow> AghAdmin \<Rightarrow> agh_answer \<times> AghAdmin" where
  "handleAGHManagedFeed C srv =
     (case aa_mgr srv of
        None \<Rightarrow> (HttpError 404 ''404 page not found'', srv)
      | Some m \<Rightarrow>
          (case Generate (ak_env C) (ak_t1 C) (ak_now C) (ak_res C) (ak_io C) False m of
             ((p, Some e), m') \<Rightarrow> (HttpError 503 (error_text e), set_mgr m' srv)
           | ((p, None), m') \<Rightarrow> (FeedText (pv_Lines p), set_mgr m' srv)))"

definition handleAGHManagedSources :: "agh_call \<Rightarrow> AghAdmin \<Rightarrow> agh_answer \<times> AghAdmin" where
  "handleAGHManagedSources C srv = with_mgr srv (\<lambda>m. (SourceList (ListSources (ak_env C) (ak_now C) m), srv))"

definition handleAGHManagedSourceUpsert :: "agh_call \<Rightarrow> agh_http \<Rightarrow> int + MSource \<Rightarrow> session \<Rightarrow> AghAdmin \<Rightarrow> agh_answer \<times> AghAdmin" where
  "handleAGHManagedSourceUpsert C r body sess srv = with_mgr srv (\<lambda>m. with_body body srv (\<lambda>req0.
     (let req = (if ah_ID r \<noteq> [] then req0\<lparr>so_ID := ah_ID r\<rparr> else req0) in
      case UpsertSource (ak_env C) (ak_io C) req m of
        (x, m') \<Rightarrow> conclude C sess 400 ''agh_managed.source.upsert'' aghManagedSourceAuditDetail SourceAnswer (as_err x) (set_mgr m' srv))))"

text \<open>\<open>fetched\<close> is the outcome of fetching the source of the body.\<close>

definition handleAGHManagedSourcePreview ::
  "agh_call \<Rightarrow> agh_http \<Rightarrow> (MSource \<Rightarrow> error + Entry list) \<Rightarrow> int \<Rightarrow> int + MSource \<Rightarrow> AghAdmin \<Rightarrow> agh_answer \<times> AghAdmin" where
  "handleAGHManagedSourcePreview C r fetched ms body srv = with_mgr srv (\<lambda>m. with_body body srv (\<lambda>req.
     (case PreviewSource (ak_env C) m (fetched (preview_defaults (ak_env C) req)) ms req of
        (src, Inl e) \<Rightarrow> (HttpError 400 (error_text e), srv)
      | (src, Inr entries) \<Rightarrow>
          (case PendingDiffEntriesPage entries (aghManagedPendingDiffEntryQuery r) of
             None \<Rightarrow> (Aborted, srv) | Some page \<Rightarrow> (SourcePreview src page, srv)))))"

definition handleAGHManagedSourceDelete :: "agh_call \<Rightarrow> agh_http \<Rightarrow> session \<Rightarrow> AghAdmin \<Rightarrow> agh_answer \<times> AghAdmin" where
  "handleAGHManagedSourceDelete C r sess srv = with_mgr srv (\<lambda>m.
     if ah_ID r = [] then (HttpError 400 ''source id required'', srv)
     else
       (case DeleteSource (ak_io C) (ah_ID r) m of
          (Some e, m') \<Rightarrow> (HttpError 500 (error_text e), set_mgr m' srv)
        | (None, m') \<Rightarrow> (OkAnswer, agh_audit C sess ''agh_managed.source.delete'' (''id='' @ ah_ID r) (set_mgr m' srv))))"

text \<open>A sync: \<open>api\<close> fetches, \<open>jit\<close> is the random jitter.\<close>

definition handleAGHManagedSourceSync ::
  "agh_call \<Rightarrow> agh_http \<Rightarrow> agh_api \<Rightarrow> int \<Rightarrow> session \<Rightarrow> AghAdmin \<Rightarrow> agh_answer \<times> AghAdmin" where
  "handleAGHManagedSourceSync C r api jit sess srv = with_mgr srv (\<lambda>m.
     (case SyncSource (ak_env C) api (ak_t0 C) (ak_now C) jit (ak_io C) (ah_ID r) m of
        (x, m') \<Rightarrow> conclude C sess 400 ''agh_managed.source.sync'' aghManagedSourceSyncAuditDetail SourceAnswer (as_err x) (set_mgr m' srv)))"

definition handleAGHManagedSourceApprove :: "agh_call \<Rightarrow> agh_http \<Rightarrow> session \<Rightarrow> AghAdmin \<Rightarrow> agh_answer \<times> AghAdmin" where
  "handleAGHManagedSourceApprove C r sess srv = with_mgr srv (\<lambda>m.
     (case ApproveSource (ak_io C) (ah_ID r) m of
        (x, m') \<Rightarrow> conclude C sess 400 ''agh_managed.source.approve'' aghManagedSourceAuditDetail SourceAnswer (as_err x) (set_mgr m' srv)))"

definition handleAGHManagedSourceReject :: "agh_call \<Rightarrow> agh_http \<Rightarrow> session \<Rightarrow> AghAdmin \<Rightarrow> agh_answer \<times> AghAdmin" where
  "handleAGHManagedSourceReject C r sess srv = with_mgr srv (\<lambda>m.
     (case RejectSource (ak_io C) (ah_ID r) m of
        (x, m') \<Rightarrow> conclude C sess 400 ''agh_managed.source.reject'' aghManagedSourceAuditDetail SourceAnswer (as_err x) (set_mgr m' srv)))"

definition handleAGHManagedSourcePendingDiff :: "agh_call \<Rightarrow> agh_http \<Rightarrow> AghAdmin \<Rightarrow> agh_answer \<times> AghAdmin" where
  "handleAGHManagedSourcePendingDiff C r srv = with_mgr srv (\<lambda>m.
     (case PendingDiff_of (ak_env C) m (ah_ID r) of
        Inl e \<Rightarrow> (HttpError 400 (error_text e), srv)
      | Inr diff \<Rightarrow>
          (let kind = param r ''kind'' in
           if kind \<in> {''added'', ''removed'', ''changed''}
           then
             (let entries = (if kind = ''added'' then pd_Added diff else if kind = ''removed'' then pd_Removed diff else pd_Changed diff) in
              case PendingDiffEntriesPage entries (aghManagedPendingDiffEntryQuery r) of
                None \<Rightarrow> (Aborted, srv) | Some page \<Rightarrow> (DiffPage kind (pd_Source diff) page, srv))
           else (DiffAnswer diff, srv))))"

definition handleAGHManagedSourceEntries :: "agh_call \<Rightarrow> agh_http \<Rightarrow> AghAdmin \<Rightarrow> agh_answer \<times> AghAdmin" where
  "handleAGHManagedSourceEntries C r srv = with_mgr srv (\<lambda>m.
     (case SourceEntriesPage m (ah_ID r) (aghManagedCatalogQuery r) of
        Inl e \<Rightarrow> (HttpError (if e = ErrNotExist then 404 else 400) (error_text e), srv)
      | Inr None \<Rightarrow> (Aborted, srv)
      | Inr (Some page) \<Rightarrow>
          (case find (\<lambda>src. so_ID src = ah_ID r) (ListSources (ak_env C) (ak_now C) m) of
             Some src \<Rightarrow> (SourceEntries src page, srv)
           | None \<Rightarrow> (HttpError 404 (error_text ErrNotExist), srv))))"

subsection \<open>Catalog, conflicts, rollbacks, history\<close>

definition handleAGHManagedCatalog :: "agh_http \<Rightarrow> AghAdmin \<Rightarrow> agh_answer \<times> AghAdmin" where
  "handleAGHManagedCatalog r srv = with_mgr srv (\<lambda>m.
     (case CatalogPage m (aghManagedCatalogQuery r) of None \<Rightarrow> (Aborted, srv) | Some page \<Rightarrow> (CatalogAnswer page, srv)))"

definition handleAGHManagedCatalogFacets :: "agh_http \<Rightarrow> AghAdmin \<Rightarrow> agh_answer \<times> AghAdmin" where
  "handleAGHManagedCatalogFacets r srv = with_mgr srv (\<lambda>m. (FacetsAnswer (agh_CatalogFacets m (aghManagedCatalogQuery r)), srv))"

definition handleAGHManagedConflicts :: "agh_call \<Rightarrow> AghAdmin \<Rightarrow> agh_answer \<times> AghAdmin" where
  "handleAGHManagedConflicts C srv = with_mgr srv (\<lambda>m. (ConflictList (ListConflicts (ak_env C) m), srv))"

definition handleAGHManagedRollbacks :: "AghAdmin \<Rightarrow> agh_answer \<times> AghAdmin" where
  "handleAGHManagedRollbacks srv = with_mgr srv (\<lambda>m. (RollbackList (ListRollbacks m), srv))"

definition zero_event :: aghManagedHistoryEvent where
  "zero_event = \<lparr>ev_Time = 0, ev_Kind = [], ev_Actor = [], ev_Action = [], ev_Detail = [], ev_Summary = [], ev_IncludedCount = 0,
     ev_ExcludedCount = 0, ev_AddedCount = 0, ev_RemovedCount = 0, ev_ConflictCount = 0, ev_EntryCount = 0, ev_TargetMode = [], ev_EmergencyEmpty = False\<rparr>"

definition audit_event :: "AuditEntry \<Rightarrow> aghManagedHistoryEvent" where
  "audit_event e = zero_event\<lparr>ev_Time := ae_Time e, ev_Kind := ''audit'', ev_Actor := ae_Actor e, ev_Action := ae_Action e, ev_Detail := ae_Detail e\<rparr>"

definition feed_event :: "FeedGenerationRecord \<Rightarrow> aghManagedHistoryEvent" where
  "feed_event rec = zero_event\<lparr>ev_Time := fg_Time rec, ev_Kind := ''feed_generation'', ev_Action := ''feed generation'',
     ev_IncludedCount := fg_IncludedCount rec, ev_ExcludedCount := fg_ExcludedCount rec, ev_AddedCount := fg_AddedCount rec,
     ev_RemovedCount := fg_RemovedCount rec, ev_ConflictCount := fg_ConflictCount rec, ev_TargetMode := fg_TargetMode rec,
     ev_EmergencyEmpty := fg_EmergencyEmpty rec\<rparr>"

definition rollback_event :: "RollbackRecord \<Rightarrow> aghManagedHistoryEvent" where
  "rollback_event rec = zero_event\<lparr>ev_Time := rb_Time rec, ev_Kind := ''rollback_candidate'', ev_Action := rb_Action rec,
     ev_Summary := rb_Summary rec, ev_EntryCount := int (length (rb_EntryIDs rec))\<rparr>"

text \<open>\<^verbatim>\<open>sort.Slice\<close> is not stable; the order of events with the same time is one it may give.\<close>

definition handleAGHManagedHistory :: "AghAdmin \<Rightarrow> agh_answer \<times> AghAdmin" where
  "handleAGHManagedHistory srv = with_mgr srv (\<lambda>m.
     (let audit = filter (\<lambda>e. HasPrefix (ae_Action e) ''agh_managed.'') (AuditLog 500 (as_store srv));
          events = map audit_event audit @ map feed_event (ListFeedHistory m) @ map rollback_event (ListRollbacks m)
      in (HistoryAnswer (take 200 (sort_key (\<lambda>e. - ev_Time e) events)) audit (ListFeedHistory m) (ListRollbacks m), srv)))"

definition handleAGHManagedCatalogPatch :: "agh_call \<Rightarrow> agh_http \<Rightarrow> int + CatalogOverride \<Rightarrow> session \<Rightarrow> AghAdmin \<Rightarrow> agh_answer \<times> AghAdmin" where
  "handleAGHManagedCatalogPatch C r body sess srv = with_mgr srv (\<lambda>m. with_body body srv (\<lambda>req.
     (case PatchEntry (ak_env C) (ak_t1 C) (ak_now C) (ak_io C) (ah_ID r) req (Some (s_username sess)) m of
        (x, m') \<Rightarrow> conclude C sess 400 ''agh_managed.catalog.patch'' (\<lambda>row. aghManagedCatalogAuditDetail (en_ID (cr_Entry row)) req)
          RowAnswer (as_err x) (set_mgr m' srv))))"

definition handleAGHManagedCatalogBulkPatch ::
  "agh_call \<Rightarrow> int + string list \<times> CatalogOverride \<Rightarrow> session \<Rightarrow> AghAdmin \<Rightarrow> agh_answer \<times> AghAdmin" where
  "handleAGHManagedCatalogBulkPatch C body sess srv = with_mgr srv (\<lambda>m. with_body body srv (\<lambda>(ids, ov).
     (case BulkPatchEntries (ak_env C) (ak_t1 C) (ak_now C) (ak_io C) ids ov (Some (s_username sess)) m of
        (x, m') \<Rightarrow> conclude C sess 400 ''agh_managed.catalog.bulk_patch'' (\<lambda>rows. aghManagedBulkAuditDetail (int (length rows)) ov)
          (\<lambda>rows. RowsAnswer (int (length rows)) rows) (as_err x) (set_mgr m' srv))))"

definition handleAGHManagedConflictResolve ::
  "agh_call \<Rightarrow> agh_http \<Rightarrow> int + string \<times> CatalogOverride \<Rightarrow> session \<Rightarrow> AghAdmin \<Rightarrow> agh_answer \<times> AghAdmin" where
  "handleAGHManagedConflictResolve C r body sess srv = with_mgr srv (\<lambda>m. with_body body srv (\<lambda>(strategy, ov).
     if strategy = ''source_priority''
     then
       (case ResolveConflictByPriority (ak_env C) (ak_t1 C) (ak_now C) (ak_io C) (ah_ID r) (Some (s_username sess)) m of
          (x, m') \<Rightarrow> conclude C sess 400 ''agh_managed.conflict.resolve''
            (\<lambda>rows. ''id='' @ ah_ID r @ '' strategy=source_priority updated='' @ show_int (int (length rows)))
            (\<lambda>rows. RowsAnswer (int (length rows)) rows) (as_err x) (set_mgr m' srv))
     else
       (case ResolveConflict (ak_env C) (ak_t1 C) (ak_now C) (ak_io C) (ah_ID r) ov (Some (s_username sess)) m of
          (x, m') \<Rightarrow> conclude C sess 400 ''agh_managed.conflict.resolve'' (\<lambda>row. aghManagedCatalogAuditDetail (en_ID (cr_Entry row)) ov)
            RowAnswer (as_err x) (set_mgr m' srv))))"

definition handleAGHManagedRollbackApply :: "agh_call \<Rightarrow> agh_http \<Rightarrow> session \<Rightarrow> AghAdmin \<Rightarrow> agh_answer \<times> AghAdmin" where
  "handleAGHManagedRollbackApply C r sess srv = with_mgr srv (\<lambda>m.
     (case agh_Rollback (ak_io C) (ah_ID r) m of
        (x, m') \<Rightarrow> conclude C sess 400 ''agh_managed.rollback''
          (\<lambda>rows. ''rollback_id='' @ ah_ID r @ '' updated='' @ show_int (int (length rows)))
          (\<lambda>rows. RowsAnswer (int (length rows)) rows) (as_err x) (set_mgr m' srv)))"


subsection \<open>The feed, its target and its settings\<close>

text \<open>The status with the URL of the feed; reading it resolves the target.\<close>

definition status_with_url :: "agh_call \<Rightarrow> agh_http \<Rightarrow> Manager \<Rightarrow> (string \<times> FeedStatus) \<times> Manager" where
  "status_with_url C r m =
     (case feed_Status (ak_env C) (ak_t1 C) (ak_now C) (ak_res C) m of
        (st, m') \<Rightarrow> ((aghManagedFeedURL r (fs_FeedPath st), st), m'))"

definition handleAGHManagedFeedStatus :: "agh_call \<Rightarrow> agh_http \<Rightarrow> AghAdmin \<Rightarrow> agh_answer \<times> AghAdmin" where
  "handleAGHManagedFeedStatus C r srv = with_mgr srv (\<lambda>m.
     (case status_with_url C r m of ((url, st), m') \<Rightarrow> (StatusAnswer url st, set_mgr m' srv)))"

definition handleAGHManagedTargetConfig :: "agh_call \<Rightarrow> agh_http \<Rightarrow> AghAdmin \<Rightarrow> agh_answer \<times> AghAdmin" where
  "handleAGHManagedTargetConfig C r srv = with_mgr srv (\<lambda>m.
     (case status_with_url C r m of ((url, st), m') \<Rightarrow> (TargetAnswer (mg_cfg m) url st, set_mgr m' srv)))"

definition handleAGHManagedTargetConfigPut ::
  "config_env \<Rightarrow> agh_call \<Rightarrow> agh_http \<Rightarrow> int + target_request \<Rightarrow> session \<Rightarrow> AghAdmin \<Rightarrow> agh_answer \<times> AghAdmin" where
  "handleAGHManagedTargetConfigPut E C r body sess srv = with_mgr srv (\<lambda>m. with_body body srv (\<lambda>req.
     (case updateAGHManagedTargetConfigFile E (aa_configPath srv) req (aa_cfgFiles srv) of
        (Inl e, fs) \<Rightarrow> (HttpError 400 (error_text e), srv\<lparr>aa_cfgFiles := fs\<rparr>)
      | (Inr (cfg, content), fs) \<Rightarrow>
          (let srv1 = srv\<lparr>aa_cfgFiles := file_write (ce_write E) (aa_configPath srv) content fs\<rparr> in
           case ce_write E of
             Some (e, _) \<Rightarrow> (HttpError 500 (error_text e), srv1)
           | None \<Rightarrow>
               (let srv2 = agh_audit C sess ''agh_managed.target_config'' (aghManagedTargetConfigAuditDetail (c_AGHManaged cfg)) srv1 in
                case status_with_url C r m of
                  ((url, st), m') \<Rightarrow> (TargetAnswer (c_AGHManaged cfg) url st, set_mgr m' srv2))))))"

definition handleAGHManagedSchedulerConfig :: "agh_call \<Rightarrow> AghAdmin \<Rightarrow> agh_answer \<times> AghAdmin" where
  "handleAGHManagedSchedulerConfig C srv = with_mgr srv (\<lambda>m.
     (let sources = ListSources (ak_env C) (ak_now C) m in
      (SchedulerAnswer (cf_Scheduler (mg_cfg m)) (aghManagedSourceHealthSummary sources) (aghManagedNextSourceSync sources), srv)))"

definition handleAGHManagedSchedulerConfigPut ::
  "config_env \<Rightarrow> agh_call \<Rightarrow> int + scheduler_request \<Rightarrow> session \<Rightarrow> AghAdmin \<Rightarrow> agh_answer \<times> AghAdmin" where
  "handleAGHManagedSchedulerConfigPut E C body sess srv = with_mgr srv (\<lambda>m. with_body body srv (\<lambda>req.
     (case updateAGHManagedSchedulerConfigFile E (aa_configPath srv) req (aa_cfgFiles srv) of
        (Inl e, fs) \<Rightarrow> (HttpError 400 (error_text e), srv\<lparr>aa_cfgFiles := fs\<rparr>)
      | (Inr (cfg, content), fs) \<Rightarrow>
          (let srv1 = srv\<lparr>aa_cfgFiles := file_write (ce_write E) (aa_configPath srv) content fs\<rparr>;
               sch = cf_Scheduler (c_AGHManaged cfg) in
           case ce_write E of
             Some (e, _) \<Rightarrow> (HttpError 500 (error_text e), srv1)
           | None \<Rightarrow> (SchedulerSaved sch,
               agh_audit C sess ''agh_managed.scheduler_config'' (aghManagedSchedulerConfigAuditDetail sch) srv1)))))"

definition firstIncludedManagedDomain :: "Preview \<Rightarrow> string" where
  "firstIncludedManagedDomain preview =
     (case find (\<lambda>i. fi_Included i \<and> fi_Domain i \<noteq> []) (pv_Items preview) of None \<Rightarrow> [] | Some i \<Rightarrow> fi_Domain i)"

definition handleAGHManagedFeedPreview :: "agh_call \<Rightarrow> agh_http \<Rightarrow> AghAdmin \<Rightarrow> agh_answer \<times> AghAdmin" where
  "handleAGHManagedFeedPreview C r srv = with_mgr srv (\<lambda>m.
     (case Generate (ak_env C) (ak_t1 C) (ak_now C) (ak_res C) (ak_io C) True m of
        ((p, Some e), m') \<Rightarrow> (HttpError 503 (error_text e), set_mgr m' srv)
      | ((p, None), m') \<Rightarrow>
          (case FeedItemsPage (pv_Items p) (aghManagedFeedPreviewQuery r) of
             None \<Rightarrow> (Aborted, set_mgr m' srv)
           | Some page \<Rightarrow> (PreviewAnswer (p\<lparr>pv_Items := pg_Entries page\<rparr>) page, set_mgr m' srv))))"

text \<open>\<open>stamp\<close> is the time formatted for the name of the file.\<close>

definition handleAGHManagedFeedExport :: "agh_call \<Rightarrow> string \<Rightarrow> AghAdmin \<Rightarrow> agh_answer \<times> AghAdmin" where
  "handleAGHManagedFeedExport C stamp srv = with_mgr srv (\<lambda>m.
     (case Generate (ak_env C) (ak_t1 C) (ak_now C) (ak_res C) (ak_io C) False m of
        ((p, Some e), m') \<Rightarrow> (HttpError 503 (error_text e), set_mgr m' srv)
      | ((p, None), m') \<Rightarrow>
          (FeedFile (''mirage-chaff-managed-rewrites-'' @ stamp @ ''.txt'') (pv_Lines p), set_mgr m' srv)))"

definition handleAGHManagedRefreshTarget :: "agh_call \<Rightarrow> session \<Rightarrow> AghAdmin \<Rightarrow> agh_answer \<times> AghAdmin" where
  "handleAGHManagedRefreshTarget C sess srv = with_mgr srv (\<lambda>m.
     (case RefreshTarget (ak_env C) (ak_t0 C) (ak_t1 C) (ak_now C) (ak_res C) m of
        ((st, err), m') \<Rightarrow> (RefreshAnswer st (errString err), agh_audit C sess ''agh_managed.refresh_target'' (mapErr err) (set_mgr m' srv))))"

definition handleAGHManagedEmergencyEmpty :: "agh_call \<Rightarrow> int + bool \<Rightarrow> session \<Rightarrow> AghAdmin \<Rightarrow> agh_answer \<times> AghAdmin" where
  "handleAGHManagedEmergencyEmpty C body sess srv = with_mgr srv (\<lambda>m. with_body body srv (\<lambda>on.
     (case SetEmergencyEmpty (ak_io C) on m of
        (Some e, m') \<Rightarrow> (HttpError 500 (error_text e), set_mgr m' srv)
      | (None, m') \<Rightarrow> (EmergencyAnswer on, agh_audit C sess ''agh_managed.emergency_empty'' (mapBool on) (set_mgr m' srv)))))"

definition handleAGHManagedPreset :: "agh_call \<Rightarrow> agh_http \<Rightarrow> int + string \<Rightarrow> session \<Rightarrow> AghAdmin \<Rightarrow> agh_answer \<times> AghAdmin" where
  "handleAGHManagedPreset C r body sess srv = with_mgr srv (\<lambda>m. with_body body srv (\<lambda>preset.
     (case SetPreset (ak_io C) preset m of
        (Some e, m') \<Rightarrow> (HttpError 400 (error_text e), set_mgr m' srv)
      | (None, m') \<Rightarrow>
          (case status_with_url C r m' of
             ((url, st), m'') \<Rightarrow> (StatusAnswer url st, set_mgr m'' (agh_audit C sess ''agh_managed.preset'' preset srv))))))"

subsection \<open>AdGuard Home\<close>

definition isAGHRefreshConfigError :: "error \<Rightarrow> bool" where
  "isAGHRefreshConfigError e \<longleftrightarrow>
     Contains (error_text e) ''base_url required'' \<or> Contains (error_text e) ''credentials required'' \<or> Contains (error_text e) ''env file''"

definition agh_error :: "error \<Rightarrow> agh_answer" where
  "agh_error e = HttpError (if isAGHRefreshConfigError e then 400 else 502) (error_text e)"

definition handleAGHManagedRefreshAGH ::
  "'w agh_client \<Rightarrow> AGHSyncConfig \<Rightarrow> agh_call \<Rightarrow> int + bool \<Rightarrow> session \<Rightarrow> 'w \<times> AghAdmin \<Rightarrow> agh_answer \<times> 'w \<times> AghAdmin" where
  "handleAGHManagedRefreshAGH A cfg C body sess ws =
     (case ws of (w, srv) \<Rightarrow>
      case body of
        Inl code \<Rightarrow> (decode_answer code, w, srv)
      | Inr force \<Rightarrow>
          (case refreshAGHFilters A cfg force w of
             (Inl e, w1) \<Rightarrow> (agh_error e, w1, agh_audit C sess ''agh_managed.agh_refresh''
                (''force='' @ mapBool force @ '' result='' @ error_text e) srv)
           | (Inr res, w1) \<Rightarrow> (AghRefreshed res, w1, agh_audit C sess ''agh_managed.agh_refresh''
                (''base_url='' @ rr_BaseURL res @ '' force='' @ mapBool (rr_Force res) @ '' result=ok'') srv)))"

definition handleAGHManagedRegisterAGH ::
  "'w agh_client \<Rightarrow> AGHSyncConfig \<Rightarrow> agh_call \<Rightarrow> agh_http \<Rightarrow> session \<Rightarrow> 'w \<times> AghAdmin \<Rightarrow> agh_answer \<times> 'w \<times> AghAdmin" where
  "handleAGHManagedRegisterAGH A cfg C r sess ws =
     (case ws of (w, srv) \<Rightarrow>
      case aa_mgr srv of
        None \<Rightarrow> (unavailable, w, srv)
      | Some m \<Rightarrow>
          (case status_with_url C r m of
             ((feedURL, st), m') \<Rightarrow>
               (case registerAGHFeed A cfg feedURL ''mirage-chaff managed rewrites'' w of
                  (Inl e, w1) \<Rightarrow> (agh_error e, w1, agh_audit C sess ''agh_managed.agh_register''
                     (''feed_url='' @ feedURL @ '' result='' @ error_text e) (set_mgr m' srv))
                | (Inr res, w1) \<Rightarrow> (AghRegistered res, w1, agh_audit C sess ''agh_managed.agh_register''
                     (''base_url='' @ rs_BaseURL (rg_Status res) @ '' feed_url='' @ rs_FeedURL (rg_Status res) @
                      '' already_registered='' @ mapBool (rg_AlreadyRegistered res) @ '' refreshed='' @ mapBool (rg_Refreshed res) @
                      '' result=ok'') (set_mgr m' srv)))))"

definition handleAGHManagedAGHStatus ::
  "'w agh_client \<Rightarrow> AGHSyncConfig \<Rightarrow> agh_call \<Rightarrow> agh_http \<Rightarrow> 'w \<times> AghAdmin \<Rightarrow> agh_answer \<times> 'w \<times> AghAdmin" where
  "handleAGHManagedAGHStatus A cfg C r ws =
     (case ws of (w, srv) \<Rightarrow>
      case aa_mgr srv of
        None \<Rightarrow> (unavailable, w, srv)
      | Some m \<Rightarrow>
          (case status_with_url C r m of
             ((feedURL, st), m1) \<Rightarrow>
               (case checkAGHFeedRegistration A cfg feedURL w of
                  (Inl e, w1) \<Rightarrow> (agh_error e, w1, set_mgr m1 srv)
                | (Inr reg, w1) \<Rightarrow>
                    (case Generate (ak_env C) (ak_t1 C) (ak_now C) (ak_res C) (ak_io C) True m1 of
                       ((p, Some e), m2) \<Rightarrow> (AghStatus reg None (''feed preview unavailable: '' @ error_text e), w1, set_mgr m2 srv)
                     | ((p, None), m2) \<Rightarrow>
                         (let domain = firstIncludedManagedDomain p in
                          if domain = [] then (AghStatus reg None ''no included feed item to check'', w1, set_mgr m2 srv)
                          else
                            (case checkAGHHost A cfg domain w1 of
                               (Inl e, w2) \<Rightarrow> (agh_error e, w2, set_mgr m2 srv)
                             | (Inr res, w2) \<Rightarrow> (AghStatus reg (Some (domain, res)) [], w2, set_mgr m2 srv)))))))"

subsection \<open>Behind the guard\<close>

text \<open>The decoded body of a request, for each type a handler decodes it to, and what else the world gives
  a handler.\<close>

record agh_bodies =
  bd_source :: "int + MSource"
  bd_override :: "int + CatalogOverride"
  bd_bulk :: "int + string list \<times> CatalogOverride"
  bd_resolve :: "int + string \<times> CatalogOverride"
  bd_target :: "int + target_request"
  bd_scheduler :: "int + scheduler_request"
  bd_flag :: "int + bool"
  bd_preset :: "int + string"

record 'w agh_world =
  aw_config :: config_env
  aw_call :: agh_call
  aw_api :: agh_api
  aw_jitter :: int
  aw_fetched :: "MSource \<Rightarrow> error + Entry list"
  aw_ms :: int
  aw_stamp :: string
  aw_client :: "'w agh_client"
  aw_sync :: AGHSyncConfig
  aw_state :: 'w

definition drop_world :: "agh_answer \<times> 'w \<times> AghAdmin \<Rightarrow> agh_answer \<times> AghAdmin" where
  "drop_world x = (fst x, snd (snd x))"

text \<open>The handlers by name: those that change the curated state and the others.\<close>

definition agh_changes ::
  "'w agh_world \<Rightarrow> agh_http \<Rightarrow> agh_bodies \<Rightarrow> session \<Rightarrow> (string \<times> (AghAdmin \<Rightarrow> agh_answer \<times> AghAdmin)) list" where
  "agh_changes W r b sess =
     (let C = aw_call W in
     [(''handleAGHManagedSourceUpsert'', handleAGHManagedSourceUpsert C r (bd_source b) sess),
      (''handleAGHManagedSourceDelete'', handleAGHManagedSourceDelete C r sess),
      (''handleAGHManagedSourceSync'', handleAGHManagedSourceSync C r (aw_api W) (aw_jitter W) sess),
      (''handleAGHManagedSourceApprove'', handleAGHManagedSourceApprove C r sess),
      (''handleAGHManagedSourceReject'', handleAGHManagedSourceReject C r sess),
      (''handleAGHManagedCatalogBulkPatch'', handleAGHManagedCatalogBulkPatch C (bd_bulk b) sess),
      (''handleAGHManagedCatalogPatch'', handleAGHManagedCatalogPatch C r (bd_override b) sess),
      (''handleAGHManagedConflictResolve'', handleAGHManagedConflictResolve C r (bd_resolve b) sess),
      (''handleAGHManagedRollbackApply'', handleAGHManagedRollbackApply C r sess),
      (''handleAGHManagedPreset'', handleAGHManagedPreset C r (bd_preset b) sess)])"

definition agh_others ::
  "'w agh_world \<Rightarrow> agh_http \<Rightarrow> agh_bodies \<Rightarrow> session \<Rightarrow> (string \<times> (AghAdmin \<Rightarrow> agh_answer \<times> AghAdmin)) list" where
  "agh_others W r b sess =
     (let E = aw_config W; C = aw_call W; A = aw_client W; cfg = aw_sync W in
     [(''handleAGHManagedSources'', handleAGHManagedSources C),
      (''handleAGHManagedSourceEntries'', handleAGHManagedSourceEntries C r),
      (''handleAGHManagedSourcePendingDiff'', handleAGHManagedSourcePendingDiff C r),
      (''handleAGHManagedFeedStatus'', handleAGHManagedFeedStatus C r),
      (''handleAGHManagedTargetConfig'', handleAGHManagedTargetConfig C r),
      (''handleAGHManagedSchedulerConfig'', handleAGHManagedSchedulerConfig C),
      (''handleAGHManagedAGHStatus'', \<lambda>s. drop_world (handleAGHManagedAGHStatus A cfg C r (aw_state W, s))),
      (''handleAGHManagedFeedPreview'', handleAGHManagedFeedPreview C r),
      (''handleAGHManagedFeedExport'', handleAGHManagedFeedExport C (aw_stamp W)),
      (''handleAGHManagedHistory'', handleAGHManagedHistory),
      (''handleAGHManagedCatalogFacets'', handleAGHManagedCatalogFacets r),
      (''handleAGHManagedCatalog'', handleAGHManagedCatalog r),
      (''handleAGHManagedConflicts'', handleAGHManagedConflicts C),
      (''handleAGHManagedRollbacks'', handleAGHManagedRollbacks),
      (''handleAGHManagedSourcePreview'', handleAGHManagedSourcePreview C r (aw_fetched W) (aw_ms W) (bd_source b)),
      (''handleAGHManagedTargetConfigPut'', handleAGHManagedTargetConfigPut E C r (bd_target b) sess),
      (''handleAGHManagedSchedulerConfigPut'', handleAGHManagedSchedulerConfigPut E C (bd_scheduler b) sess),
      (''handleAGHManagedRefreshTarget'', handleAGHManagedRefreshTarget C sess),
      (''handleAGHManagedEmergencyEmpty'', handleAGHManagedEmergencyEmpty C (bd_flag b) sess),
      (''handleAGHManagedRefreshAGH'', \<lambda>s. drop_world (handleAGHManagedRefreshAGH A cfg C (bd_flag b) sess (aw_state W, s))),
      (''handleAGHManagedRegisterAGH'', \<lambda>s. drop_world (handleAGHManagedRegisterAGH A cfg C r sess (aw_state W, s)))])"

definition agh_handlers ::
  "'w agh_world \<Rightarrow> agh_http \<Rightarrow> agh_bodies \<Rightarrow> session \<Rightarrow> (string \<times> (AghAdmin \<Rightarrow> agh_answer \<times> AghAdmin)) list" where
  "agh_handlers W r b sess = agh_changes W r b sess @ agh_others W r b sess"

definition run_agh :: "'w agh_world \<Rightarrow> agh_http \<Rightarrow> agh_bodies \<Rightarrow> string \<Rightarrow> session \<Rightarrow> AghAdmin \<Rightarrow> agh_answer \<times> AghAdmin" where
  "run_agh W r b h sess srv =
     (case lookup (agh_handlers W r b sess) h of None \<Rightarrow> (HttpError 404 ''404 page not found'', srv) | Some f \<Rightarrow> f srv)"

subsection \<open>Facts\<close>

text \<open>What the people who manage the feeds decide: not the cache of the target, the history of the feed or the
  record of what it held.\<close>

definition curated :: "Manager \<Rightarrow> (string, MSource) gomap \<times> (string, Entry) gomap \<times> (string, Entry list) gomap \<times>
    (string, CatalogOverride) gomap \<times> RollbackRecord list \<times> string" where
  "curated m = (mg_sources m, mg_entries m, mg_pending m, mg_overrides m, mg_rollbacks m, mg_preset m)"

lemma curated_simps [simp]:
  "curated (m\<lparr>mg_cfg := a\<rparr>) = curated m" "curated (m\<lparr>mg_feedSeen := b\<rparr>) = curated m" "curated (m\<lparr>mg_feedSnapshot := c\<rparr>) = curated m"
  "curated (m\<lparr>mg_feedHistory := d\<rparr>) = curated m" "curated (m\<lparr>mg_targetIPs := f\<rparr>) = curated m" "curated (m\<lparr>mg_lastResolve := g\<rparr>) = curated m"
  "curated (m\<lparr>mg_lastResolveErr := h\<rparr>) = curated m" "curated (m\<lparr>mg_lastGenerated := i\<rparr>) = curated m"
  by (simp_all add: curated_def)

lemma persist_curated [simp]: "curated (snd (persistState io m)) = curated m"
  by (simp add: persistState_def curated_def split: option.split)

lemma note_resolved_curated [simp]: "curated (note_resolved t r m) = curated m"
  by (simp add: curated_def)

lemma feed_target_curated: "feed_target E t1 res m = (tg, m1) \<Longrightarrow> curated m1 = curated m"
  using feed_target_cases[of E t1 res m tg m1] by auto

lemma push_generation_curated [simp]: "curated (push_generation rec m) = curated m"
  by (simp add: push_generation_def)

lemma persistGeneration_curated [simp]: "curated (persistGenerationLocked st seen ids now upd m) = curated m"
  by (simp add: persistGenerationLocked_def Let_def split: prod.split)

lemma emit_curated [simp]:
  "curated (snd (emit_empty io rec now em st txt srcs n m)) = curated m"
  "curated (snd (emit_items E io rows rec now st txt tg m0 m)) = curated m"
  using persist_curated
  by (simp_all add: emit_empty_def emit_items_def Let_def split: prod.split option.split) (metis persist_curated persistGeneration_curated snd_conv)+

lemma generate_curated [simp]: "curated (snd (generate E t1 now res io rows rec m)) = curated m"
  by (auto simp: generate_def Let_def feed_target_curated split: prod.split)


lemma status_curated: "status_with_url C r m = (x, m') \<Longrightarrow> curated m' = curated m"
proof -
  assume a: "status_with_url C r m = (x, m')"
  have "m' = snd (feed_Status (ak_env C) (ak_t1 C) (ak_now C) (ak_res C) m)"
    using a by (auto simp: status_with_url_def split: prod.splits)
  also have "\<dots> = snd (generate (ak_env C) (ak_t1 C) (ak_now C) (ak_res C) None False False m)"
    by (simp add: feed_Status_def split: prod.split)
  finally show ?thesis by simp
qed

lemma Generate_curated: "Generate E t1 now res io rows m = (x, m') \<Longrightarrow> curated m' = curated m"
  using generate_curated[of E t1 now res io rows "\<not> rows" m] by (simp add: Generate_def del: generate_curated)

lemma RefreshTarget_curated: "RefreshTarget E t0 t1 now res m = (x, m') \<Longrightarrow> curated m' = curated m"
proof -
  assume a: "RefreshTarget E t0 t1 now res m = (x, m')"
  have st: "curated (snd (feed_Status E t1 now res n)) = curated n" for n
  proof -
    have "snd (feed_Status E t1 now res n) = snd (generate E t1 now res None False False n)"
      by (simp add: feed_Status_def split: prod.split)
    then show ?thesis by simp
  qed
  from a show ?thesis
    using st[of m] st[of "note_resolved t0 (resolveTarget res (mg_cfg m)) m"]
    by (auto simp: RefreshTarget_def Let_def split: if_splits prod.splits)
qed

definition keeps_curated :: "AghAdmin \<Rightarrow> AghAdmin \<Rightarrow> bool" where
  "keeps_curated s t \<longleftrightarrow> map_option curated (aa_mgr t) = map_option curated (aa_mgr s)"

lemma keeps_curated_refl [simp]: "keeps_curated s s" by (simp add: keeps_curated_def)

lemma keeps_set_mgr: "aa_mgr s = Some m \<Longrightarrow> curated m' = curated m \<Longrightarrow> keeps_curated s (set_mgr m' s)"
  by (simp add: keeps_curated_def)

lemma audit_mgr [simp]: "aa_mgr (agh_audit C sess a d s) = aa_mgr s" "keeps_curated t (agh_audit C sess a d s) = keeps_curated t s"
  "agh_audit C sess a d (set_mgr m s) = set_mgr m (agh_audit C sess a d s)"
  by (simp_all add: agh_audit_def audit_srv_def keeps_curated_def)

lemma keeps_files [simp]: "keeps_curated s (t\<lparr>aa_cfgFiles := x\<rparr>) = keeps_curated s t"
  by (simp add: keeps_curated_def)

lemma persist_keeps: "persistState io m = (x, m') \<Longrightarrow> curated m' = curated m"
  using persist_curated[of io m] by simp

lemmas curated_reads = persist_keeps status_curated Generate_curated RefreshTarget_curated

definition managing :: "string list" where
  "managing = [''handleAGHManagedSourceUpsert'', ''handleAGHManagedSourceDelete'', ''handleAGHManagedSourceSync'',
     ''handleAGHManagedSourceApprove'', ''handleAGHManagedSourceReject'', ''handleAGHManagedCatalogBulkPatch'',
     ''handleAGHManagedCatalogPatch'', ''handleAGHManagedConflictResolve'', ''handleAGHManagedRollbackApply'', ''handleAGHManagedPreset'']"

lemma with_mgr_keeps:
  assumes "\<And>m. aa_mgr srv = Some m \<Longrightarrow> keeps_curated srv (snd (k m))"
  shows "keeps_curated srv (snd (with_mgr srv k))"
  using assms by (auto simp: with_mgr_def split: option.split)

lemma with_body_keeps:
  assumes "\<And>x. body = Inr x \<Longrightarrow> keeps_curated srv (snd (k x))"
  shows "keeps_curated srv (snd (with_body body srv k))"
  using assms by (auto simp: with_body_def split: sum.split)

lemma reads_keep:
  "keeps_curated srv (snd (handleAGHManagedSources C srv))"
  "keeps_curated srv (snd (handleAGHManagedSourceEntries C r srv))"
  "keeps_curated srv (snd (handleAGHManagedSourcePendingDiff C r srv))"
  "keeps_curated srv (snd (handleAGHManagedFeedStatus C r srv))"
  "keeps_curated srv (snd (handleAGHManagedTargetConfig C r srv))"
  "keeps_curated srv (snd (handleAGHManagedSchedulerConfig C srv))"
  "keeps_curated srv (snd (handleAGHManagedFeedPreview C r srv))"
  "keeps_curated srv (snd (handleAGHManagedFeedExport C st srv))"
  "keeps_curated srv (snd (handleAGHManagedHistory srv))"
  "keeps_curated srv (snd (handleAGHManagedCatalogFacets r srv))"
  "keeps_curated srv (snd (handleAGHManagedCatalog r srv))"
  "keeps_curated srv (snd (handleAGHManagedConflicts C srv))"
  "keeps_curated srv (snd (handleAGHManagedRollbacks srv))"
  "keeps_curated srv (snd (handleAGHManagedSourcePreview C r f ms b1 srv))"
  unfolding handleAGHManagedSources_def handleAGHManagedSourceEntries_def handleAGHManagedSourcePendingDiff_def
    handleAGHManagedFeedStatus_def handleAGHManagedTargetConfig_def handleAGHManagedSchedulerConfig_def
    handleAGHManagedFeedPreview_def handleAGHManagedFeedExport_def handleAGHManagedHistory_def handleAGHManagedCatalogFacets_def
    handleAGHManagedCatalog_def handleAGHManagedConflicts_def handleAGHManagedRollbacks_def handleAGHManagedSourcePreview_def
  by (intro with_mgr_keeps with_body_keeps; auto simp: Let_def split: prod.split option.split sum.split intro!: keeps_set_mgr dest: curated_reads)+

lemma feed_keeps: "keeps_curated srv (snd (handleAGHManagedFeed C srv))"
  by (auto simp: handleAGHManagedFeed_def split: prod.split option.split intro!: keeps_set_mgr dest: curated_reads)

lemma writes_keep:
  "keeps_curated srv (snd (handleAGHManagedTargetConfigPut E C r b1 sess srv))"
  "keeps_curated srv (snd (handleAGHManagedSchedulerConfigPut E C b2 sess srv))"
  "keeps_curated srv (snd (handleAGHManagedRefreshTarget C sess srv))"
  "keeps_curated srv (snd (handleAGHManagedEmergencyEmpty C b3 sess srv))"
proof -
  note defs = handleAGHManagedTargetConfigPut_def handleAGHManagedSchedulerConfigPut_def handleAGHManagedRefreshTarget_def
    handleAGHManagedEmergencyEmpty_def SetEmergencyEmpty_def
  show "keeps_curated srv (snd (handleAGHManagedTargetConfigPut E C r b1 sess srv))"
    unfolding defs
    by (intro with_mgr_keeps with_body_keeps) (auto simp: Let_def keeps_curated_def split: prod.split option.split sum.split dest: curated_reads)
  show "keeps_curated srv (snd (handleAGHManagedSchedulerConfigPut E C b2 sess srv))"
    unfolding defs
    by (intro with_mgr_keeps with_body_keeps) (auto simp: Let_def keeps_curated_def split: prod.split option.split sum.split)
  show "keeps_curated srv (snd (handleAGHManagedRefreshTarget C sess srv))"
    unfolding defs
    by (intro with_mgr_keeps) (auto simp: keeps_curated_def split: prod.split dest: curated_reads)
  show "keeps_curated srv (snd (handleAGHManagedEmergencyEmpty C b3 sess srv))"
    unfolding defs
    by (intro with_mgr_keeps with_body_keeps) (auto simp: keeps_curated_def split: prod.split option.split dest: curated_reads)
qed

lemma agh_keep:
  "keeps_curated srv (snd (drop_world (handleAGHManagedRefreshAGH A cfg C b1 sess (w, srv))))"
  "keeps_curated srv (snd (drop_world (handleAGHManagedRegisterAGH A cfg C r sess (w, srv))))"
  "keeps_curated srv (snd (drop_world (handleAGHManagedAGHStatus A cfg C r (w, srv))))"
  unfolding handleAGHManagedRefreshAGH_def handleAGHManagedRegisterAGH_def handleAGHManagedAGHStatus_def drop_world_def
  by (auto simp: Let_def keeps_curated_def split: prod.split option.split sum.split dest!: curated_reads)


lemma managing_names: "map fst (agh_changes W r b sess) = managing"
  by (simp add: agh_changes_def managing_def Let_def)

lemma others_keep: "(h, f) \<in> set (agh_others W r b sess) \<Longrightarrow> keeps_curated srv (snd (f srv))"
  unfolding agh_others_def Let_def list.set insert_iff prod.inject empty_iff
  by (elim disjE conjE; simp only: reads_keep writes_keep agh_keep)

lemma run_agh_keeps: "h \<notin> set managing \<Longrightarrow> keeps_curated srv (snd (run_agh W r b h sess srv))"
proof (cases "lookup (agh_handlers W r b sess) h")
  case None
  then show ?thesis by (simp add: run_agh_def)
next
  case (Some f)
  assume "h \<notin> set managing"
  then have "(h, f) \<notin> set (agh_changes W r b sess)" 
    using arg_cong[OF managing_names[of W r b sess], of set] by (metis fst_conv image_eqI set_map)
  with map_of_SomeD[OF Some] have "(h, f) \<in> set (agh_others W r b sess)" by (simp add: agh_handlers_def)
  from others_keep[OF this] Some show ?thesis by (simp add: run_agh_def)
qed

definition audited :: "session \<Rightarrow> AghAdmin \<Rightarrow> AghAdmin \<Rightarrow> bool" where
  "audited sess srv srv' \<longleftrightarrow>
     (\<exists>e. ae_Actor e = s_username sess \<and> HasPrefix (ae_Action e) ''agh_managed.'' \<and>
        sd_Audit (st_data (as_store srv')) = keep_last audit_keep (sd_Audit (st_data (as_store srv)) @ [e]))"

lemma agh_audit_audited:
  assumes "HasPrefix action ''agh_managed.''" "as_store srv1 = as_store srv"
  shows "audited sess srv (agh_audit C sess action detail srv1)"
  unfolding audited_def
  by (rule exI[of _ "\<lparr>ae_Time = ak_audit_time C, ae_Actor = s_username sess, ae_Action = action, ae_Detail = detail\<rparr>"])
    (simp add: assms agh_audit_def audit_srv_def store_Audit_def Let_def)

lemma audited_set_mgr [simp]: "audited sess srv (set_mgr m srv1) = audited sess srv srv1"
  by (simp add: audited_def)

lemma conclude_audited:
  assumes "answer_status (fst (conclude C sess code action detail ans r srv1)) = 200" "code \<noteq> 200"
    "HasPrefix action ''agh_managed.''" "as_store srv1 = as_store srv"
  shows "audited sess srv (snd (conclude C sess code action detail ans r srv1))"
  using assms agh_audit_audited by (auto simp: conclude_def answer_status_def split: sum.splits)

lemma with_mgr_200: "answer_status (fst (with_mgr srv k)) = 200 \<Longrightarrow> \<exists>m. aa_mgr srv = Some m \<and> with_mgr srv k = k m"
  by (auto simp: with_mgr_def unavailable_def answer_status_def split: option.splits)

lemma with_body_200: "answer_status (fst (with_body body srv k)) = 200 \<Longrightarrow> \<exists>x. body = Inr x \<and> with_body body srv k = k x"
  by (auto simp: with_body_def decode_answer_def answer_status_def split: sum.splits if_splits)

lemma with_mgr_audited:
  assumes "answer_status (fst (with_mgr srv k)) = 200" "\<And>m. answer_status (fst (k m)) = 200 \<Longrightarrow> audited sess srv (snd (k m))"
  shows "audited sess srv (snd (with_mgr srv k))"
  using with_mgr_200[OF assms(1)] assms by auto

lemma with_body_audited:
  assumes "answer_status (fst (with_body body srv k)) = 200" "\<And>x. answer_status (fst (k x)) = 200 \<Longrightarrow> audited sess srv (snd (k x))"
  shows "audited sess srv (snd (with_body body srv k))"
  using with_body_200[OF assms(1)] assms by auto

lemma managing_audited:
  assumes "answer_status (fst (f srv)) = 200" "(h, f) \<in> set (agh_changes W r b sess)"
  shows "audited sess srv (snd (f srv))"
proof -
  note defs = handleAGHManagedSourceUpsert_def handleAGHManagedSourceDelete_def handleAGHManagedSourceSync_def
    handleAGHManagedSourceApprove_def handleAGHManagedSourceReject_def handleAGHManagedCatalogBulkPatch_def
    handleAGHManagedCatalogPatch_def handleAGHManagedConflictResolve_def handleAGHManagedRollbackApply_def handleAGHManagedPreset_def
  let ?C = "aw_call W"
  have "f \<in> snd ` set (agh_changes W r b sess)" using assms(2) by force
  then consider
      "f = handleAGHManagedSourceUpsert ?C r (bd_source b) sess" | "f = handleAGHManagedSourceDelete ?C r sess"
    | "f = handleAGHManagedSourceSync ?C r (aw_api W) (aw_jitter W) sess" | "f = handleAGHManagedSourceApprove ?C r sess"
    | "f = handleAGHManagedSourceReject ?C r sess" | "f = handleAGHManagedCatalogBulkPatch ?C (bd_bulk b) sess"
    | "f = handleAGHManagedCatalogPatch ?C r (bd_override b) sess" | "f = handleAGHManagedConflictResolve ?C r (bd_resolve b) sess"
    | "f = handleAGHManagedRollbackApply ?C r sess" | "f = handleAGHManagedPreset ?C r (bd_preset b) sess"
    unfolding agh_changes_def Let_def list.set image_insert snd_conv insert_iff image_empty empty_iff by blast
  then show ?thesis
    using assms(1)
    by cases
      (simp only: defs; (erule with_mgr_audited with_body_audited)+;
        (auto simp: Let_def answer_status_def HasPrefix_def intro!: conclude_audited agh_audit_audited split: prod.splits option.splits if_splits))+
qed


subsection \<open>The route table in front\<close>

text \<open>A response as the guard sees it: its status, and the message of an error.\<close>

definition agh_response :: "agh_answer \<Rightarrow> response" where
  "agh_response a = (case a of HttpError code msg \<Rightarrow> http_error code msg | Aborted \<Rightarrow> aborted | _ \<Rightarrow> writeOK ''ok'')"

lemma agh_response_status: "rp_status (agh_response a) = answer_status a"
  by (simp add: agh_response_def answer_status_def http_error_def aborted_def writeOK_def split: agh_answer.split)

definition agh_public ::
  "agh_call \<Rightarrow> (string \<Rightarrow> AghAdmin \<Rightarrow> response \<times> AghAdmin) \<Rightarrow> string \<Rightarrow> AghAdmin \<Rightarrow> response \<times> AghAdmin" where
  "agh_public C rest h srv =
     (if h = ''handleAGHManagedFeed'' then (case handleAGHManagedFeed C srv of (a, s) \<Rightarrow> (agh_response a, s)) else rest h srv)"

definition agh_guarded ::
  "'w agh_world \<Rightarrow> agh_http \<Rightarrow> agh_bodies \<Rightarrow> (string \<Rightarrow> session \<Rightarrow> AghAdmin \<Rightarrow> response \<times> AghAdmin) \<Rightarrow>
   string \<Rightarrow> session \<Rightarrow> AghAdmin \<Rightarrow> response \<times> AghAdmin" where
  "agh_guarded W r b rest h sess srv =
     (if lookup (agh_handlers W r b sess) h = None then rest h sess srv
      else (case run_agh W r b h sess srv of (a, s) \<Rightarrow> (agh_response a, s)))"

lemma managing_routes:
  "(m, p, c, h) \<in> set (admin_routes oidc) \<Longrightarrow> h \<in> set managing \<Longrightarrow> c = Some ''agh.manage'' \<and> m \<noteq> ''GET'' \<and> m \<noteq> ''HEAD''"
proof -
  have "\<forall>oidc. list_all (\<lambda>(m, p, c, h). h \<in> set managing \<longrightarrow> c = Some ''agh.manage'' \<and> m \<noteq> ''GET'' \<and> m \<noteq> ''HEAD'') (admin_routes oidc)"
    by code_simp
  then show "(m, p, c, h) \<in> set (admin_routes oidc) \<Longrightarrow> h \<in> set managing \<Longrightarrow> c = Some ''agh.manage'' \<and> m \<noteq> ''GET'' \<and> m \<noteq> ''HEAD''"
    unfolding list_all_iff by fastforce
qed

lemma find_route_Some:
  "find_route rts meth path = Some (m, p, c, h) \<Longrightarrow> (m, p, c, h) \<in> set rts \<and> method_match m meth"
proof -
  assume a: "find_route rts meth path = Some (m, p, c, h)"
  let ?k = "\<lambda>(m, p, c, h). wildcards p" let ?P = "\<lambda>(m, p, c, h). method_match m meth \<and> pattern_match p path"
  from a obtain rest where "sort_key ?k (filter ?P rts) = (m, p, c, h) # rest"
    unfolding find_route_def by (auto split: list.splits)
  then have "(m, p, c, h) \<in> set (filter ?P rts)" by (metis list.set_intros(1) set_sort)
  then show ?thesis by simp
qed

lemma guarded_keeps:
  assumes "\<And>h sess s. keeps_curated s (snd (rest h sess s))" "\<not> keeps_curated s (snd (agh_guarded W r b rest h sess s))"
  shows "h \<in> set managing \<and> (rp_status (fst (agh_guarded W r b rest h sess s)) = 200 \<longrightarrow> audited sess s (snd (agh_guarded W r b rest h sess s)))"
proof -
  obtain f where f: "lookup (agh_handlers W r b sess) h = Some f"
    using assms by (cases "lookup (agh_handlers W r b sess) h") (auto simp: agh_guarded_def)
  then have g: "agh_guarded W r b rest h sess s = (agh_response (fst (f s)), snd (f s))"
    by (simp add: agh_guarded_def run_agh_def split: prod.split)
  then have "\<not> keeps_curated s (snd (run_agh W r b h sess s))" using assms(2) f by (simp add: run_agh_def)
  then have h: "h \<in> set managing" using run_agh_keeps by blast
  have "(h, f) \<notin> set (agh_others W r b sess)" using others_keep assms(2) g by force
  with map_of_SomeD[OF f] have "(h, f) \<in> set (agh_changes W r b sess)" by (simp add: agh_handlers_def)
  with h g managing_audited[of f s h W r b sess] show ?thesis by (simp add: agh_response_status)
qed

text \<open>Whatever request reaches the admin server, the sources, rules, reviews, overrides, rollbacks and the
  preset of the managed feeds change only for a request with a live session whose role may manage the
  feeds and with the CSRF token of that session, and when the answer is 200 the audit log has gained an
  entry in the name of the session's user.\<close>

theorem only_managers_change_the_feeds:
  assumes "serve_admin oidc feed (agh_public C pub) (agh_guarded W r b rest) now n rq srv = (resp, srv')"
    and "\<And>h s. keeps_curated s (snd (pub h s))" "\<And>h sess s. keeps_curated s (snd (rest h sess s))"
    and "\<not> keeps_curated srv srv'"
  shows "\<exists>cookie sess. rq_Cookie rq = Some cookie \<and> fst (sess_get now cookie (as_sess srv)) = Some sess \<and>
    Can (s_role sess) ''agh.manage'' \<and> rq_CSRF rq = s_csrf sess \<and> (rp_status resp = 200 \<longrightarrow> audited sess srv srv')"
proof -
  have pub: "keeps_curated s (snd (agh_public C pub h s))" for h s
    using assms(2) feed_keeps[of s C] by (cases "handleAGHManagedFeed C s") (simp add: agh_public_def)
  have sess_only: "keeps_curated srv (srv\<lparr>as_sess := x\<rparr>)" for x by (simp add: keeps_curated_def)
  have "\<exists>m p cap h. find_route (admin_routes oidc) (rq_Method rq) (rq_Path rq) = Some (m, p, Some cap, h) \<and>
      withAuth cap (agh_guarded W r b rest h) now rq srv = (resp, srv')"
    using assms(1,4) pub[of srv]
    by (auto simp: serve_admin_def limitBody_def split: if_splits option.splits prod.splits) (metis snd_conv)+
  then obtain m p cap h where rt: "find_route (admin_routes oidc) (rq_Method rq) (rq_Path rq) = Some (m, p, Some cap, h)"
    and auth: "withAuth cap (agh_guarded W r b rest h) now rq srv = (resp, srv')" by blast
  from auth assms(4) sess_only obtain cookie sess mm where
    c: "rq_Cookie rq = Some cookie" "sess_get now cookie (as_sess srv) = (Some sess, mm)"
      "\<not> (rq_Method rq \<noteq> ''GET'' \<and> rq_Method rq \<noteq> ''HEAD'' \<and> rq_CSRF rq \<noteq> s_csrf sess)"
      "\<not> (cap \<noteq> [] \<and> \<not> Can (s_role sess) cap)"
      "agh_guarded W r b rest h sess (srv\<lparr>as_sess := mm\<rparr>) = (resp, srv')"
    by (auto simp: withAuth_def Let_def split: option.splits prod.splits if_splits)
  have "\<not> keeps_curated (srv\<lparr>as_sess := mm\<rparr>) srv'" using assms(4) by (simp add: keeps_curated_def)
  with guarded_keeps[of rest "srv\<lparr>as_sess := mm\<rparr>" W r b h sess] assms(3) c(5)
  have h: "h \<in> set managing" "rp_status resp = 200 \<longrightarrow> audited sess (srv\<lparr>as_sess := mm\<rparr>) srv'" by auto
  from managing_routes[OF conjunct1[OF find_route_Some[OF rt]] h(1)] find_route_Some[OF rt]
  have "cap = ''agh.manage''" "rq_Method rq \<noteq> ''GET''" "rq_Method rq \<noteq> ''HEAD''"
    by (auto simp: method_match_def)
  with c h(2) show ?thesis by (auto simp: audited_def)
qed


definition ex_call :: agh_call where
  "ex_call = \<lparr>ak_env = ex_env, ak_t0 = 5, ak_t1 = 5, ak_now = 5, ak_res = None, ak_io = None, ak_audit = None, ak_audit_time = 5\<rparr>"

definition ex_config_env :: config_env where
  "ex_config_env = \<lparr>ce_unmarshal = (\<lambda>s c. Inr c), ce_parseDuration = (\<lambda>s. Some 1), ce_parseIP = (\<lambda>s. None), ce_read_err = (\<lambda>s. None),
     ce_check_write = None, ce_remove = None, ce_write = None\<rparr>"

definition ex_world :: "nat agh_world" where
  "ex_world = \<lparr>aw_config = ex_config_env, aw_call = ex_call, aw_api = ex_api', aw_jitter = 0, aw_fetched = (\<lambda>s. Inr []), aw_ms = 0,
     aw_stamp = [], aw_client = ex_agh, aw_sync = ex_agh_cfg, aw_state = 0\<rparr>"

definition ex_bodies :: agh_bodies where
  "ex_bodies = \<lparr>bd_source = Inl 400, bd_override = Inl 400, bd_bulk = Inl 400, bd_resolve = Inl 400, bd_target = Inl 400,
     bd_scheduler = Inl 400, bd_flag = Inl 400, bd_preset = Inl 400\<rparr>"

definition ex_http :: agh_http where
  "ex_http = \<lparr>ah_Query = [], ah_ID = ''s1'', ah_TLS = False, ah_Host = ''m'', ah_Headers = []\<rparr>"

definition ex_admin :: AghAdmin where
  "ex_admin = AdminServer.extend
     (ex_srv\<lparr>as_store := ex_store\<lparr>st_data := \<lparr>sd_Users = [ex_user\<lparr>usr_MustChange := False\<rparr>], sd_Audit = []\<rparr>\<rparr>\<rparr>)
     \<lparr>pa_engine = NewEngine \<lparr>rs_rules = [], rs_def = safe_default\<rparr>, pa_files = [], aa_mgr = Some ex_manager, aa_configPath = ''c'',
      aa_cfgFiles = [], aa_rules = None, aa_rec = NewRecorderWithOptions
        \<lparr>ro_Redact = True, ro_Mode = [], ro_DebugScopes = [], ro_CatalogMetrics = False, ro_EmitCatalogLog = False\<rparr> 8\<rparr>"

definition ex_delete :: request where
  "ex_delete = \<lparr>rq_Method = ''DELETE'', rq_Path = ''/api/agh/sources/s1'', rq_Cookie = Some ''adm'', rq_CSRF = ''t2'', rq_IP = ''::1''\<rparr>"

lemma ex_route: "find_route (admin_routes False) ''DELETE'' ''/api/agh/sources/s1'' =
    Some (''DELETE'', ''/api/agh/sources/{id}'', Some ''agh.manage'', ''handleAGHManagedSourceDelete'')"
  by code_simp

lemma ex_found: "lookup (agh_handlers ex_world ex_http ex_bodies sess) ''handleAGHManagedSourceDelete'' =
    Some (handleAGHManagedSourceDelete ex_call ex_http sess)"
  by (simp add: agh_handlers_def agh_changes_def ex_world_def)


abbreviation ex_reply :: "response \<times> AghAdmin" where
  "ex_reply \<equiv> serve_admin False None (agh_public ex_call (\<lambda>_ s. (unauthorized, s)))
     (agh_guarded ex_world ex_http ex_bodies (\<lambda>_ _ s. (unauthorized, s))) 5 0 ex_delete ex_admin"

lemma ex_session: "\<exists>m. sess_get 5 ''adm'' (as_sess ex_admin) =
    (Some \<lparr>s_id = ''adm'', s_username = ''ann'', s_role = ''admin'', s_csrf = ''t2'', s_expires = 15\<rparr>, m) \<and> \<not> mustChangeBlocked (ex_admin\<lparr>as_sess := m\<rparr>) \<lparr>s_id = ''adm'', s_username = ''ann'', s_role = ''admin'', s_csrf = ''t2'', s_expires = 15\<rparr> ex_delete"
  by (simp add: ex_admin_def ex_srv_def AdminServer.defs sess_get_def newSessionManager_def mustChangeBlocked_def ex_delete_def Let_def store_Get_def ex_store_def ex_user_def users_of_def split: option.split)

lemma ex_deletes: "rp_status (fst ex_reply) = 200 \<and> \<not> keeps_curated ex_admin (snd ex_reply)"
proof -
  obtain m where m: "sess_get 5 ''adm'' (as_sess ex_admin) =
    (Some \<lparr>s_id = ''adm'', s_username = ''ann'', s_role = ''admin'', s_csrf = ''t2'', s_expires = 15\<rparr>, m)"
    "\<not> mustChangeBlocked (ex_admin\<lparr>as_sess := m\<rparr>) \<lparr>s_id = ''adm'', s_username = ''ann'', s_role = ''admin'', s_csrf = ''t2'', s_expires = 15\<rparr> ex_delete"
    using ex_session by blast
  have can: "Can ''admin'' ''agh.manage''" by code_simp
  have mgr: "aa_mgr (ex_admin\<lparr>as_sess := m\<rparr>) = Some ex_manager" "aa_mgr ex_admin = Some ex_manager"
    by (simp_all add: ex_admin_def AdminServer.defs)
  have src: "mg_sources ex_manager = [(''s1'', ex_source)]" by (simp add: ex_manager_def)
  have c: "ah_ID ex_http = ''s1''" "ak_io ex_call = None" by (simp_all add: ex_http_def ex_call_def)
  show ?thesis
    using m can mgr src c
    by (simp add: serve_admin_def limitBody_def ex_delete_def ex_route withAuth_def agh_guarded_def run_agh_def ex_found
        handleAGHManagedSourceDelete_def with_mgr_def DeleteSource_def persistState_def Let_def
        agh_response_def writeOK_def keeps_curated_def curated_def adminMaxBodyBytes_def HasPrefix_def)
qed

theorem only_managers_change_the_feeds_witness:
  "\<exists>cookie sess. rq_Cookie ex_delete = Some cookie \<and> fst (sess_get 5 cookie (as_sess ex_admin)) = Some sess \<and>
    Can (s_role sess) ''agh.manage'' \<and> rq_CSRF ex_delete = s_csrf sess \<and> audited sess ex_admin (snd ex_reply)"
proof -
  have "ex_reply = (fst ex_reply, snd ex_reply)" by simp
  from only_managers_change_the_feeds[OF this] ex_deletes show ?thesis by fastforce
qed

subsection \<open>The settings on disk\<close>

text \<open>The decoder does not look at the path the configuration was loaded from (the field has no TOML name).\<close>

definition path_blind :: "config_env \<Rightarrow> bool" where
  "path_blind E \<longleftrightarrow> (\<forall>raw c p q d. ce_unmarshal E raw (c\<lparr>c_path := p\<rparr>) = Inr d \<longrightarrow>
     (\<exists>d'. ce_unmarshal E raw (c\<lparr>c_path := q\<rparr>) = Inr d' \<and> d'\<lparr>c_path := p\<rparr> = d\<lparr>c_path := p\<rparr>))"

definition usable_config :: "config_env \<Rightarrow> files \<Rightarrow> string \<Rightarrow> bool" where
  "usable_config E fs path \<longleftrightarrow>
     (\<exists>c. Config_Load (file_read E fs) (ce_unmarshal E) path = Inr c \<and> Config_Check (ce_parseDuration E) (ce_parseIP E) c = None)"

lemma Check_path: "Config_Check pd ip (c\<lparr>c_path := p\<rparr>) = Config_Check pd ip c"
  by (simp add: Config_Check_def check_head_def check_rest_def)

lemma usable_other_path:
  assumes "path_blind E" "ce_read_err E p = None" "ce_read_err E q = None" "lookup fs p = Some raw" "lookup fs' q = Some raw"
    and "usable_config E fs p"
  shows "usable_config E fs' q"
proof -
  obtain c where c: "Config_Load (file_read E fs) (ce_unmarshal E) p = Inr c" "Config_Check (ce_parseDuration E) (ce_parseIP E) c = None"
    using assms(6) by (auto simp: usable_config_def)
  then obtain d where d: "ce_unmarshal E raw (Defaults\<lparr>c_path := p\<rparr>) = Inr d" "c = d\<lparr>c_path := p\<rparr>"
    using assms(2,4) by (auto simp: Config_Load_def file_read_def Let_def split: sum.splits)
  from assms(1) d(1) obtain d' where d': "ce_unmarshal E raw (Defaults\<lparr>c_path := q\<rparr>) = Inr d'" "d'\<lparr>c_path := p\<rparr> = d\<lparr>c_path := p\<rparr>"
    unfolding path_blind_def by blast
  have "Config_Check pd ip d' = Config_Check pd ip c" for pd ip
    using arg_cong[OF d'(2), of "Config_Check pd ip"] d(2) by (simp add: Check_path)
  with c(2) d'(1) assms(3,5) show ?thesis
    by (auto simp: usable_config_def Config_Load_def file_read_def Check_path)
qed

lemma check_path_neq: "path @ ''.check'' \<noteq> path" by simp

lemma saved_ok:
  assumes "path_blind E" "\<And>p. ce_read_err E p = None" "ce_write E = None"
    and u: "update_config_file E what change patch path fs = (Inr (cfg, content), fs2)"
  shows "usable_config E (put path content fs2) path"
proof -
  from update_ok[OF u] have "check_content E path content fs = (None, fs2)" by blast
  from check_content_None[OF this] have "usable_config E (put (path @ ''.check'') content fs) (path @ ''.check'')"
    by (auto simp: usable_config_def)
  then show ?thesis
    by (rule usable_other_path[OF assms(1) assms(2) assms(2), rotated 2]) simp_all
qed

lemma file_write_other: "k \<noteq> path \<Longrightarrow> lookup (file_write wr path content fs) k = lookup fs k"
  by (simp add: file_write_def split: option.split)

text \<open>The ends of a handler that saves settings: \<open>u\<close> is the outcome of the update.\<close>

definition save_ends :: "config_env \<Rightarrow> session \<Rightarrow> AghAdmin \<Rightarrow> (error + Config \<times> string) \<times> files \<Rightarrow> agh_answer \<times> AghAdmin \<Rightarrow> bool" where
  "save_ends E sess srv u res \<longleftrightarrow>
     (case res of (ans, srv') \<Rightarrow>
        answer_status ans \<noteq> 200 \<and> srv' = srv \<or>
        answer_status ans = 400 \<and> (\<exists>e. fst u = Inl e) \<and> aa_cfgFiles srv' = snd u \<or>
        (\<exists>cfg content. fst u = Inr (cfg, content) \<and> aa_cfgFiles srv' = file_write (ce_write E) (aa_configPath srv) content (snd u) \<and>
          answer_status ans = (if ce_write E = None then 200 else 500) \<and> (ce_write E = None \<longrightarrow> audited sess srv srv')))"

lemma target_put_ends:
  "save_ends E sess srv (updateAGHManagedTargetConfigFile E (aa_configPath srv) (projr body) (aa_cfgFiles srv))
     (handleAGHManagedTargetConfigPut E C r body sess srv)"
  unfolding handleAGHManagedTargetConfigPut_def with_mgr_def with_body_def
  by (auto simp: save_ends_def answer_status_def unavailable_def decode_answer_def Let_def HasPrefix_def intro!: agh_audit_audited
      split: option.split sum.split prod.split)
    (simp_all add: agh_audit_def audit_srv_def)

lemma scheduler_put_ends:
  "save_ends E sess srv (updateAGHManagedSchedulerConfigFile E (aa_configPath srv) (projr body) (aa_cfgFiles srv))
     (handleAGHManagedSchedulerConfigPut E C body sess srv)"
  unfolding handleAGHManagedSchedulerConfigPut_def with_mgr_def with_body_def
  by (auto simp: save_ends_def answer_status_def unavailable_def decode_answer_def Let_def HasPrefix_def intro!: agh_audit_audited
      split: option.split sum.split prod.split)
    (simp_all add: agh_audit_def audit_srv_def)

lemma save_ends_usable:
  assumes "save_ends E sess srv (update_config_file E what change patch (aa_configPath srv) (aa_cfgFiles srv)) (ans, srv')"
    and "path_blind E" "\<And>p. ce_read_err E p = None"
  shows "answer_status ans = 200 \<Longrightarrow> usable_config E (aa_cfgFiles srv') (aa_configPath srv) \<and> audited sess srv srv' \<and>
      (\<exists>raw cfg. lookup (aa_cfgFiles srv) (aa_configPath srv) = Some raw \<and> lookup (aa_cfgFiles srv') (aa_configPath srv) = Some (patch raw cfg))"
    and "answer_status ans \<notin> {200, 500} \<Longrightarrow> lookup (aa_cfgFiles srv') (aa_configPath srv) = lookup (aa_cfgFiles srv) (aa_configPath srv)"
    and "k \<noteq> aa_configPath srv \<Longrightarrow> k \<noteq> aa_configPath srv @ ''.check'' \<Longrightarrow> lookup (aa_cfgFiles srv') k = lookup (aa_cfgFiles srv) k"
proof -
  let ?p = "aa_configPath srv" and ?fs = "aa_cfgFiles srv"
  obtain u fs2 where u: "update_config_file E what change patch ?p ?fs = (u, fs2)" by fastforce
  have same: "lookup fs2 ?p = lookup ?fs ?p" using update_other[OF u] check_path_neq[of ?p] by metis
  note ends = assms(1)[unfolded save_ends_def u prod.case fst_conv snd_conv]
  show "usable_config E (aa_cfgFiles srv') ?p \<and> audited sess srv srv' \<and>
      (\<exists>raw cfg. lookup ?fs ?p = Some raw \<and> lookup (aa_cfgFiles srv') ?p = Some (patch raw cfg))" if ok: "answer_status ans = 200"
  proof -
    from ends ok obtain cfg content where c: "u = Inr (cfg, content)" "ce_write E = None" "aa_cfgFiles srv' = put ?p content fs2" "audited sess srv srv'"
      by (auto simp: file_write_def split: if_splits)
    have "\<exists>raw. lookup ?fs ?p = Some raw \<and> content = patch raw cfg"
      using update_ok[OF u[unfolded c(1)]] assms(3) by (auto simp: file_read_def split: option.splits)
    with saved_ok[OF assms(2,3) c(2) u[unfolded c(1)]] c show ?thesis by auto
  qed
  show "lookup (aa_cfgFiles srv') ?p = lookup ?fs ?p" if "answer_status ans \<notin> {200, 500}"
    using ends that same by (auto split: if_splits)
  show "lookup (aa_cfgFiles srv') k = lookup ?fs k" if "k \<noteq> ?p" "k \<noteq> ?p @ ''.check''"
    using ends file_write_other[OF that(1)] update_other[OF u that(2)] by auto
qed


definition ex_configured :: AghAdmin where
  "ex_configured = ex_admin\<lparr>aa_cfgFiles := [(''c'', ''mode = 1'')]\<rparr>"

definition ex_sess :: session where
  "ex_sess = \<lparr>s_id = ''adm'', s_username = ''ann'', s_role = ''admin'', s_csrf = ''t2'', s_expires = 15\<rparr>"

definition ex_target :: target_request where
  "ex_target = \<lparr>tr_TargetMode = ''resolved_ip'', tr_TargetName = ''m.example'', tr_StaticIPv4 = [], tr_StaticIPv6 = [], tr_StaleTargetTTL = [],
     tr_AutoEmergency = False\<rparr>"


end
