(* ===== verification/AdminApi.thy ===== *)
theory AdminApi
  imports AghHandlers
begin

text \<open>
  The rest of the handlers of \<^verbatim>\<open>internal/admin\<close>: the views of \<^verbatim>\<open>handlers.go\<close> (dashboard, traffic,
  policies, rule catalog, triage, analytics, audit log, users), the operations on the rule catalog, the
  editor of the configuration file, reload and kill switch, and the sign-in information. With them every
  handler of the route table is a definition, and a request is served by the model of all of them.

  What the running server hands in (\<^verbatim>\<open>Deps\<close>) and what the file system answers are the fields of
  \<open>api_world\<close>. An answer says what its JSON is made of.
\<close>

subsection \<open>Answers and surroundings\<close>

record triage_answer =
  tq_domain :: string
  tq_path :: string
  tq_temp_allows :: "(string, time) gomap"
  tq_recent :: "LogRecord list"
  tq_rule :: "Entry option"
  tq_decision :: Decision
  tq_suggestions :: "string list"

record dashboard =
  db_version :: string
  db_listeners :: "(string, string) gomap"
  db_rules :: nat
  db_fingerprint :: string
  db_keyType :: string
  db_temps :: "(string, time) gomap"
  db_users :: nat

datatype api_answer =
    ApiError int string
  | StatusText string string
  | DashboardAnswer dashboard
  | RecordList "LogRecord list"
  | UnmatchedList "UnmatchedEntry list"
  | FileNames "string list"
  | FileContent string string
  | EntryList "Entry list"
  | EntryAnswer Entry
  | CandidateAnswer rewriteCandidate
  | SyncStatus Status
  | TriageAnswer triage_answer
  | SummaryAnswer rec_analytics "Analytics option"
  | CountList "(string \<times> int) list"
  | CatalogSummary "Analytics option"
  | AuditList "AuditEntry list"
  | UserList "User list"
  | MeAnswer string string string bool "string list"
  | AuthInfo bool
  | OIDCRedirect string string

record api_world =
  ap_now :: time
  ap_audit :: io_result
  ap_audit_time :: time
  ap_version :: string
  ap_listeners :: "(string, string) gomap option"
  ap_fingerprint :: "string option"
  ap_keyType :: string
  ap_policy_dir :: "error option"
  ap_read_err :: bool
  ap_catalog_dir :: "error + (string \<times> bool) list"
  ap_saved :: "error option"
  ap_sync :: "(RStore \<Rightarrow> Status \<times> RStore) option"
  ap_reload :: "(AghAdmin \<Rightarrow> error option \<times> AghAdmin) option"
  ap_kill :: "error option option"
  ap_config :: config_env
  ap_config_read :: "error option"
  ap_temp :: "error + string \<times> (string \<Rightarrow> string)"

definition api_audit :: "api_world \<Rightarrow> session \<Rightarrow> string \<Rightarrow> string \<Rightarrow> AghAdmin \<Rightarrow> AghAdmin" where
  "api_audit W sess action detail srv = audit_srv (ap_audit_time W) (ap_audit W) (s_username sess) action detail srv"

definition api_body :: "int + 'b \<Rightarrow> AghAdmin \<Rightarrow> ('b \<Rightarrow> api_answer \<times> AghAdmin) \<Rightarrow> api_answer \<times> AghAdmin" where
  "api_body body srv k =
     (case body of
        Inl code \<Rightarrow> (if code = 413 then ApiError 413 ''request body too large'' else ApiError 400 ''bad request'', srv)
      | Inr req \<Rightarrow> k req)"

definition with_rules :: "AghAdmin \<Rightarrow> (RStore \<Rightarrow> api_answer \<times> AghAdmin) \<Rightarrow> api_answer \<times> AghAdmin" where
  "with_rules srv k =
     (case aa_rules srv of None \<Rightarrow> (ApiError 503 ''rule catalog unavailable'', srv) | Some c \<Rightarrow> k c)"

subsection \<open>Status and traffic\<close>

definition handleDashboard :: "api_world \<Rightarrow> AghAdmin \<Rightarrow> api_answer \<times> AghAdmin" where
  "handleDashboard W srv =
     (case TempRules (ap_now W) (pa_engine srv) of
        (temps, e) \<Rightarrow>
          (DashboardAnswer
             \<lparr>db_version = ap_version W, db_listeners = (case ap_listeners W of None \<Rightarrow> [] | Some l \<Rightarrow> l),
              db_rules = length (rs_rules (e_rs (pa_engine srv))),
              db_fingerprint = (case ap_fingerprint W of None \<Rightarrow> [] | Some f \<Rightarrow> f), db_keyType = ap_keyType W,
              db_temps = temps, db_users = UserCount (as_store srv)\<rparr>,
           srv\<lparr>pa_engine := e\<rparr>))"

definition handleTraffic :: "api_world \<Rightarrow> AghAdmin \<Rightarrow> api_answer \<times> AghAdmin" where
  "handleTraffic W srv = (RecordList (Snapshot (ap_now W) 500 (aa_rec srv)), srv)"

text \<open>The event stream: at each tick of the clock, with the recorder as it is then, the records since the
  last tick.\<close>

fun stream_ticks :: "int \<Rightarrow> (time \<times> Recorder) list \<Rightarrow> LogRecord list list" where
  "stream_ticks seq [] = []"
| "stream_ticks seq ((now, r) # ticks) =
     (case SnapshotSince now seq r of (recs, next) \<Rightarrow> recs # stream_ticks next ticks)"

definition handleTrafficStream :: "Recorder \<Rightarrow> (time \<times> Recorder) list \<Rightarrow> LogRecord list list" where
  "handleTrafficStream r ticks = stream_ticks (Seq r) ticks"

definition handleCuration :: "AghAdmin \<Rightarrow> api_answer \<times> AghAdmin" where
  "handleCuration srv = (UnmatchedList (UnmatchedTop 100 (pa_engine srv)), srv)"

subsection \<open>Files\<close>

text \<open>The files of the policy directory with one of the two suffixes.\<close>

definition readDirFiles :: "error option \<Rightarrow> string \<Rightarrow> string \<Rightarrow> (string, string) gomap \<Rightarrow> error + (string, string) gomap" where
  "readDirFiles err suffixA suffixB files =
     (case err of
        Some e \<Rightarrow> Inl e
      | None \<Rightarrow> Inr (filter (\<lambda>(n, c). HasSuffix n suffixA \<or> HasSuffix n suffixB) files))"

definition handlePolicyList :: "api_world \<Rightarrow> AghAdmin \<Rightarrow> api_answer \<times> AghAdmin" where
  "handlePolicyList W srv =
     (case readDirFiles (ap_policy_dir W) ''.yaml'' ''.yml'' (pa_files srv) of
        Inl e \<Rightarrow> (ApiError 500 (error_text e), srv)
      | Inr files \<Rightarrow> (FileNames (map fst files), srv))"

definition handlePolicyGet :: "api_world \<Rightarrow> string \<Rightarrow> AghAdmin \<Rightarrow> api_answer \<times> AghAdmin" where
  "handlePolicyGet W name srv =
     (if \<not> safeName name then (ApiError 400 ''bad name'', srv)
      else if ap_read_err W then (ApiError 404 ''not found'', srv)
      else (case lookup (pa_files srv) name of
              None \<Rightarrow> (ApiError 404 ''not found'', srv)
            | Some c \<Rightarrow> (FileContent name c, srv)))"

definition handleCatalogList :: "api_world \<Rightarrow> AghAdmin \<Rightarrow> api_answer \<times> AghAdmin" where
  "handleCatalogList W srv =
     (case ap_catalog_dir W of
        Inl e \<Rightarrow> (ApiError 500 (error_text e), srv)
      | Inr es \<Rightarrow> (FileNames (map fst (filter (\<lambda>(n, isDir). \<not> isDir) es)), srv))"

subsection \<open>The rule catalog\<close>

definition handleRuleCatalogList :: "agh_http \<Rightarrow> AghAdmin \<Rightarrow> api_answer \<times> AghAdmin" where
  "handleRuleCatalogList r srv =
     (case aa_rules srv of
        None \<Rightarrow> (EntryList [], srv)
      | Some c \<Rightarrow>
          (EntryList (rc_List
             (map (\<lambda>k. (k, values_get (ah_Query r) k))
                [''domain'', ''category'', ''risk'', ''verified'', ''review_status'', ''source_type'']) c), srv))"

definition handleRuleCatalogGet :: "agh_http \<Rightarrow> AghAdmin \<Rightarrow> api_answer \<times> AghAdmin" where
  "handleRuleCatalogGet r srv = with_rules srv (\<lambda>c.
     (case rc_Get (ah_ID r) c of None \<Rightarrow> (ApiError 404 ''not found'', srv) | Some e \<Rightarrow> (EntryAnswer e, srv)))"

text \<open>The end of an operation on the catalog.\<close>

definition rule_changed ::
  "api_world \<Rightarrow> session \<Rightarrow> string \<Rightarrow> AghAdmin \<Rightarrow> (error + Entry) \<times> RStore \<Rightarrow> api_answer \<times> AghAdmin" where
  "rule_changed W sess action srv res =
     (case res of
        (Inl e, c) \<Rightarrow> (ApiError 400 (error_text e), srv\<lparr>aa_rules := Some c\<rparr>)
      | (Inr e, c) \<Rightarrow> (EntryAnswer e, api_audit W sess action (en_ID e) (srv\<lparr>aa_rules := Some c\<rparr>)))"

definition handleRuleCatalogReview ::
  "api_world \<Rightarrow> agh_http \<Rightarrow> int + string \<times> bool option \<Rightarrow> session \<Rightarrow> AghAdmin \<Rightarrow> api_answer \<times> AghAdmin" where
  "handleRuleCatalogReview W r body sess srv = with_rules srv (\<lambda>c. api_body body srv (\<lambda>(status, verified).
     rule_changed W sess ''rule_catalog.review'' srv (rc_Review (ap_now W) (ap_saved W) (ah_ID r) status verified c)))"

definition handleRuleCatalogPromote :: "api_world \<Rightarrow> agh_http \<Rightarrow> session \<Rightarrow> AghAdmin \<Rightarrow> api_answer \<times> AghAdmin" where
  "handleRuleCatalogPromote W r sess srv = with_rules srv (\<lambda>c.
     rule_changed W sess ''rule_catalog.promote'' srv (rc_Promote (ap_now W) (ap_saved W) (ah_ID r) c))"

definition handleRuleCatalogDowngrade :: "api_world \<Rightarrow> agh_http \<Rightarrow> session \<Rightarrow> AghAdmin \<Rightarrow> api_answer \<times> AghAdmin" where
  "handleRuleCatalogDowngrade W r sess srv = with_rules srv (\<lambda>c.
     rule_changed W sess ''rule_catalog.downgrade'' srv (rc_Downgrade (ap_now W) (ap_saved W) (ah_ID r) c))"

record cname_request =
  cr_chain :: "string list"
  cr_target :: string
  cr_vendor :: string
  cr_confidence :: string
  cr_queryRef :: string

definition handleRuleCatalogMarkCNAME ::
  "api_world \<Rightarrow> agh_http \<Rightarrow> int + cname_request \<Rightarrow> session \<Rightarrow> AghAdmin \<Rightarrow> api_answer \<times> AghAdmin" where
  "handleRuleCatalogMarkCNAME W r body sess srv = with_rules srv (\<lambda>c. api_body body srv (\<lambda>req.
     rule_changed W sess ''rule_catalog.mark_cname'' srv
       (rc_MarkCNAME (ap_now W) (ap_saved W) (ah_ID r) (cr_chain req) (cr_target req) (cr_vendor req) (cr_confidence req)
          (cr_queryRef req) c)))"

definition handleAGHRewriteCandidate :: "api_world \<Rightarrow> int + string \<Rightarrow> session \<Rightarrow> AghAdmin \<Rightarrow> api_answer \<times> AghAdmin" where
  "handleAGHRewriteCandidate W body sess srv = with_rules srv (\<lambda>c. api_body body srv (\<lambda>i.
     if i = [] then (ApiError 400 ''bad request'', srv)
     else (case rc_RewriteCandidate i c of
             Inl e \<Rightarrow> (ApiError 400 (error_text e), srv)
           | Inr cand \<Rightarrow> (CandidateAnswer cand, api_audit W sess ''agh.rewrite_candidate'' i srv))))"

definition handleAGHSyncStatus :: "AghAdmin \<Rightarrow> api_answer \<times> AghAdmin" where
  "handleAGHSyncStatus srv = with_rules srv (\<lambda>c. (SyncStatus (rc_Status c), srv))"

text \<open>The sync the server hands in runs on its rule store; without one there is nothing to sync.\<close>

definition handleAGHSyncRun :: "api_world \<Rightarrow> session \<Rightarrow> AghAdmin \<Rightarrow> api_answer \<times> AghAdmin" where
  "handleAGHSyncRun W sess srv =
     (case (ap_sync W, aa_rules srv) of
        (Some run, Some c) \<Rightarrow>
          (case run c of
             (st, c') \<Rightarrow> (SyncStatus st, api_audit W sess ''agh_sync.run'' (ss_LastError st) (srv\<lparr>aa_rules := Some c'\<rparr>)))
      | _ \<Rightarrow> (ApiError 503 ''AGH sync unavailable'', srv))"

subsection \<open>Triage and analytics\<close>

text \<open>The records of the last five minutes of a domain and its subdomains, newest first, at most fifty.\<close>

definition recentByDomain :: "time \<Rightarrow> LogRecord list \<Rightarrow> string \<Rightarrow> LogRecord list" where
  "recentByDomain now records domain =
     take 50 (filter (\<lambda>rec. \<not> (\<not> IsZero (lr_Time rec) \<and> lr_Time rec < now - 5 * minute_ns) \<and>
         (lr_Domain rec = domain \<or> HasSuffix (lr_Domain rec) (CHR ''.'' # domain)))
       (rev records))"

definition triageSuggestions :: "bool \<Rightarrow> LogRecord list \<Rightarrow> string list" where
  "triageSuggestions hasRule recs =
     (if hasRule then [''review catalog entry before changing global policy''] else []) @
     (if list_ex (\<lambda>rec. lr_Action rec \<in> {ActionStub, ActionForwardMimic}) recs
      then [''try temporary allow; if it fixes the site, create a permanent allow or site override''] else []) @
     [''use passthrough for pinned TLS domains'']"

definition handleTriageContext :: "api_world \<Rightarrow> agh_http \<Rightarrow> AghAdmin \<Rightarrow> api_answer \<times> AghAdmin" where
  "handleTriageContext W r srv =
     (let domain = values_get (ah_Query r) ''domain''; path = values_get (ah_Query r) ''path'' in
      if domain = [] then (ApiError 400 ''domain required'', srv)
      else
        (case TempRules (ap_now W) (pa_engine srv) of
           (temps, e) \<Rightarrow>
             (let recs = recentByDomain (ap_now W) (Snapshot (ap_now W) 500 (aa_rec srv)) domain;
                  rule = (case aa_rules srv of None \<Rightarrow> None | Some c \<Rightarrow> rc_Lookup domain path c)
              in (TriageAnswer
                    \<lparr>tq_domain = domain, tq_path = path, tq_temp_allows = temps, tq_recent = recs, tq_rule = rule,
                     tq_decision = Ruleset_Match (e_rs e) domain path ''GET'',
                     tq_suggestions = triageSuggestions (rule \<noteq> None) recs\<rparr>,
                  srv\<lparr>pa_engine := e\<rparr>))))"

definition handleAnalyticsSummary :: "AghAdmin \<Rightarrow> api_answer \<times> AghAdmin" where
  "handleAnalyticsSummary srv =
     (SummaryAnswer (Recorder_Analytics (aa_rec srv)) (map_option rc_Analytics (aa_rules srv)), srv)"

definition handleAnalyticsDomains :: "AghAdmin \<Rightarrow> api_answer \<times> AghAdmin" where
  "handleAnalyticsDomains srv = (CountList (ra_top_domains (Recorder_Analytics (aa_rec srv))), srv)"

definition handleAnalyticsRules :: "AghAdmin \<Rightarrow> api_answer \<times> AghAdmin" where
  "handleAnalyticsRules srv = (CountList (ra_top_rules (Recorder_Analytics (aa_rec srv))), srv)"

text \<open>\<open>None\<close> stands for the answer with a total of zero.\<close>

definition handleAnalyticsCatalog :: "AghAdmin \<Rightarrow> api_answer \<times> AghAdmin" where
  "handleAnalyticsCatalog srv = (CatalogSummary (map_option rc_Analytics (aa_rules srv)), srv)"

definition writeCatalogAnalyticsSlice :: "(Analytics \<Rightarrow> Entry list) \<Rightarrow> AghAdmin \<Rightarrow> api_answer \<times> AghAdmin" where
  "writeCatalogAnalyticsSlice key srv =
     (EntryList (case aa_rules srv of None \<Rightarrow> [] | Some c \<Rightarrow> key (rc_Analytics c)), srv)"

definition handleAnalyticsJSStubs :: "AghAdmin \<Rightarrow> api_answer \<times> AghAdmin" where
  "handleAnalyticsJSStubs = writeCatalogAnalyticsSlice an_js_stub_candidates"

definition handleAnalyticsFalsePositiveCandidates :: "AghAdmin \<Rightarrow> api_answer \<times> AghAdmin" where
  "handleAnalyticsFalsePositiveCandidates = writeCatalogAnalyticsSlice an_high_unverified"

definition handleAnalyticsCNAMECandidates :: "AghAdmin \<Rightarrow> api_answer \<times> AghAdmin" where
  "handleAnalyticsCNAMECandidates = writeCatalogAnalyticsSlice an_cname_candidates"

subsection \<open>The configuration file, reload, kill switch\<close>

text \<open>The reload the server hands in works on what it shares with the admin server: the engine, the recorder,
  the manager of the feeds.\<close>

definition handleConfigGet :: "api_world \<Rightarrow> AghAdmin \<Rightarrow> api_answer \<times> AghAdmin" where
  "handleConfigGet W srv =
     (case file_read ((ap_config W)\<lparr>ce_read_err := (\<lambda>_. ap_config_read W)\<rparr>) (aa_cfgFiles srv) (aa_configPath srv) of
        Inl e \<Rightarrow> (ApiError 500 (error_text e), srv)
      | Inr c \<Rightarrow> (FileContent (aa_configPath srv) c, srv))"

text \<open>The text is loaded and checked from a temporary file, which holds what its write stored: the error of
  that write is not looked at.\<close>

definition handleConfigPut :: "api_world \<Rightarrow> int + string \<Rightarrow> session \<Rightarrow> AghAdmin \<Rightarrow> api_answer \<times> AghAdmin" where
  "handleConfigPut W body sess srv = api_body body srv (\<lambda>content.
     (case ap_temp W of
        Inl e \<Rightarrow> (ApiError 500 (error_text e), srv)
      | Inr (tmp, held) \<Rightarrow>
          (let E = ap_config W;
               err = (case Config_Load (file_read E (put tmp (held content) (aa_cfgFiles srv))) (ce_unmarshal E) tmp of
                  Inl e \<Rightarrow> Some e
                | Inr cfg \<Rightarrow> Config_Check (ce_parseDuration E) (ce_parseIP E) cfg)
           in case err of
                Some e \<Rightarrow> (ApiError 400 (''invalid config: '' @ error_text e), srv)
              | None \<Rightarrow>
                  (let srv1 = srv\<lparr>aa_cfgFiles := file_write (ce_write E) (aa_configPath srv) content (aa_cfgFiles srv)\<rparr> in
                   case ce_write E of
                     Some (e, _) \<Rightarrow> (ApiError 500 (error_text e), srv1)
                   | None \<Rightarrow> (StatusText ''ok'' ''restart-required fields need a service restart'',
                       api_audit W sess ''config.edit'' (aa_configPath srv) srv1)))))"

definition handleReload :: "api_world \<Rightarrow> session \<Rightarrow> AghAdmin \<Rightarrow> api_answer \<times> AghAdmin" where
  "handleReload W sess srv =
     (case ap_reload W of
        None \<Rightarrow> (ApiError 503 ''reload unavailable'', srv)
      | Some run \<Rightarrow>
          (case run srv of
             (Some e, srv1) \<Rightarrow> (ApiError 500 (error_text e), srv1)
           | (None, srv1) \<Rightarrow> (StatusText ''reloaded'' [], api_audit W sess ''reload'' ''SIGHUP'' srv1)))"

definition handleKillSwitch :: "api_world \<Rightarrow> session \<Rightarrow> AghAdmin \<Rightarrow> api_answer \<times> AghAdmin" where
  "handleKillSwitch W sess srv =
     (case ap_kill W of
        None \<Rightarrow> (ApiError 503 ''kill-switch unavailable'', srv)
      | Some (Some e) \<Rightarrow> (ApiError 500 (error_text e), srv)
      | Some None \<Rightarrow> (StatusText ''kill-switch executed'' [], api_audit W sess ''killswitch.execute'' ''AGH rewrites removed'' srv))"

definition handleAudit :: "AghAdmin \<Rightarrow> api_answer \<times> AghAdmin" where
  "handleAudit srv = (AuditList (AuditLog 500 (as_store srv)), srv)"

definition handleUserList :: "AghAdmin \<Rightarrow> api_answer \<times> AghAdmin" where
  "handleUserList srv = (UserList (store_List (as_store srv)), srv)"

definition handleMe :: "session \<Rightarrow> AghAdmin \<Rightarrow> api_answer \<times> AghAdmin" where
  "handleMe sess srv =
     (MeAnswer (s_username sess) (s_role sess) (s_csrf sess)
        (case store_Get (as_store srv) (s_username sess) of None \<Rightarrow> False | Some u \<Rightarrow> usr_MustChange u)
        (capList (s_role sess)), srv)"

definition handleAuthInfo :: "bool \<Rightarrow> AghAdmin \<Rightarrow> api_answer \<times> AghAdmin" where
  "handleAuthInfo oidc srv = (AuthInfo oidc, srv)"

text \<open>The sign-in redirect: the two tokens are set as cookies and sent to the provider.\<close>

definition handleOIDCLogin :: "string \<Rightarrow> string \<Rightarrow> AghAdmin \<Rightarrow> api_answer \<times> AghAdmin" where
  "handleOIDCLogin state nonce srv = (OIDCRedirect state nonce, srv)"

end
