(* ===== verification/AdminAccess.thy ===== *)
theory AdminAccess
  imports AdminApi
begin

text \<open>
  The admin server as a whole: every route of the table with the handler behind it, and what a request can
  change. The state falls into areas (accounts, policy files, configuration file, rule catalog, managed
  feeds, temporary rules); each area changes only through the handlers of \<open>touches\<close>, and the route table
  puts those behind the capabilities of \<open>needs\<close>.
\<close>

subsection \<open>Dispatch\<close>

text \<open>The decoded body, for each type a handler decodes it to.\<close>

record api_bodies = agh_bodies +
  bo_login :: "int + LoginReq"
  bo_own_password :: "int + PasswordReq"
  bo_create :: "int + CreateReq"
  bo_password :: "int + string"
  bo_content :: "int + string"
  bo_allow :: "int + AllowReq"
  bo_review :: "int + string \<times> bool option"
  bo_cname :: "int + cname_request"
  bo_id :: "int + string"

text \<open>What else the world gives the handlers: hashing, the YAML decoder, the outcome of writes, the random
  tokens, the single sign-on.\<close>

record 'w admin_world = "'w agh_world" +
  ow_api :: api_world
  ow_verify :: "string \<Rightarrow> string \<Rightarrow> bool"
  ow_hash :: "string \<Rightarrow> string"
  ow_dummy :: string
  ow_policy :: "string \<Rightarrow> error + policyFile"
  ow_write :: write_result
  ow_save :: io_result
  ow_tok1 :: string
  ow_tok2 :: string
  ow_oidc :: oidcAuth
  ow_exchange :: "string \<Rightarrow> error + string option"
  ow_verifyID :: "string \<Rightarrow> error + string \<times> (error + claims)"
  ow_callback :: oidcRequest
  ow_ticks :: "(time \<times> Recorder) list"

definition api_response :: "api_answer \<Rightarrow> response" where
  "api_response a =
     (case a of
        ApiError code msg \<Rightarrow> http_error code msg
      | OIDCRedirect state nonce \<Rightarrow> \<lparr>rp_status = 302, rp_msg = [], rp_cookie = None\<rparr>
      | _ \<Rightarrow> writeOK ''ok'')"

definition api_answered :: "(AghAdmin \<Rightarrow> api_answer \<times> AghAdmin) \<Rightarrow> AghAdmin \<Rightarrow> response \<times> AghAdmin" where
  "api_answered f srv = (case f srv of (a, s) \<Rightarrow> (api_response a, s))"

definition agh_answered :: "(AghAdmin \<Rightarrow> agh_answer \<times> AghAdmin) \<Rightarrow> AghAdmin \<Rightarrow> response \<times> AghAdmin" where
  "agh_answered f srv = (case f srv of (a, s) \<Rightarrow> (agh_response a, s))"

text \<open>The handlers that change an area, those that do not, and those of the managed feeds.\<close>

definition api_changes ::
  "'w admin_world \<Rightarrow> agh_http \<Rightarrow> api_bodies \<Rightarrow> session \<Rightarrow> (string \<times> (AghAdmin \<Rightarrow> response \<times> AghAdmin)) list" where
  "api_changes X r b sess =
     (let W = ow_api X; now = ap_now W; io = ow_save X; io' = ap_audit W; u = ow_policy X; wr = ow_write X in
     [(''handleChangePassword'', handleChangePassword (ow_verify X) (ow_hash X) now io io' (bo_own_password b) sess),
      (''handlePolicyPut'', handlePolicyPut u now wr io' (ah_ID r) (bo_content b) sess),
      (''handleConfigPut'', api_answered (handleConfigPut W (bo_content b) sess)),
      (''handleTempAllow'', handleTempAllow now io' (bo_allow b) sess),
      (''handlePermanentAllow'', handlePermanentAllow u now wr io' (bo_allow b) sess),
      (''handleSiteOverride'', handleSiteOverride u now wr io' (bo_allow b) sess),
      (''handleRuleCatalogReview'', api_answered (handleRuleCatalogReview W r (bo_review b) sess)),
      (''handleRuleCatalogPromote'', api_answered (handleRuleCatalogPromote W r sess)),
      (''handleRuleCatalogDowngrade'', api_answered (handleRuleCatalogDowngrade W r sess)),
      (''handleRuleCatalogMarkCNAME'', api_answered (handleRuleCatalogMarkCNAME W r (bo_cname b) sess)),
      (''handleAGHSyncRun'', api_answered (handleAGHSyncRun W sess)),
      (''handleUserCreate'', handleUserCreate (ow_hash X) now io io' (bo_create b) sess),
      (''handleUserDelete'', handleUserDelete now io io' (ah_ID r) sess),
      (''handleUserSetPassword'', handleUserSetPassword (ow_hash X) now io io' (ah_ID r) (bo_password b) sess)])"

definition api_others ::
  "'w admin_world \<Rightarrow> agh_http \<Rightarrow> api_bodies \<Rightarrow> session \<Rightarrow> (string \<times> (AghAdmin \<Rightarrow> response \<times> AghAdmin)) list" where
  "api_others X r b sess =
     (let W = ow_api X in
     (''handleLogout'', handleLogout sess) # map (\<lambda>(h, f). (h, api_answered f))
     [(''handleMe'', handleMe sess),
      (''handleDashboard'', handleDashboard W),
      (''handleTraffic'', handleTraffic W),
      (''handleTrafficStream'', \<lambda>s. (RecordList (concat (handleTrafficStream (aa_rec s) (ow_ticks X))), s)),
      (''handleCuration'', handleCuration),
      (''handlePolicyList'', handlePolicyList W),
      (''handlePolicyGet'', handlePolicyGet W (ah_ID r)),
      (''handleCatalogList'', handleCatalogList W),
      (''handleRuleCatalogList'', handleRuleCatalogList r),
      (''handleRuleCatalogGet'', handleRuleCatalogGet r),
      (''handleAnalyticsCNAMECandidates'', handleAnalyticsCNAMECandidates),
      (''handleAGHSyncStatus'', handleAGHSyncStatus),
      (''handleTriageContext'', handleTriageContext W r),
      (''handleAnalyticsSummary'', handleAnalyticsSummary),
      (''handleAnalyticsDomains'', handleAnalyticsDomains),
      (''handleAnalyticsRules'', handleAnalyticsRules),
      (''handleAnalyticsCatalog'', handleAnalyticsCatalog),
      (''handleAnalyticsJSStubs'', handleAnalyticsJSStubs),
      (''handleAnalyticsFalsePositiveCandidates'', handleAnalyticsFalsePositiveCandidates),
      (''handleConfigGet'', handleConfigGet W),
      (''handleAudit'', handleAudit),
      (''handleReload'', handleReload W sess),
      (''handleAGHRewriteCandidate'', handleAGHRewriteCandidate W (bo_id b) sess),
      (''handleKillSwitch'', handleKillSwitch W sess),
      (''handleUserList'', handleUserList)])"

definition feed_handlers ::
  "'w admin_world \<Rightarrow> agh_http \<Rightarrow> api_bodies \<Rightarrow> session \<Rightarrow> (string \<times> (AghAdmin \<Rightarrow> response \<times> AghAdmin)) list" where
  "feed_handlers X r b sess =
     map (\<lambda>(h, f). (h, agh_answered f)) (agh_handlers (agh_world.truncate X) r (agh_bodies.truncate b) sess)"

definition all_handlers ::
  "'w admin_world \<Rightarrow> agh_http \<Rightarrow> api_bodies \<Rightarrow> session \<Rightarrow> (string \<times> (AghAdmin \<Rightarrow> response \<times> AghAdmin)) list" where
  "all_handlers X r b sess = api_changes X r b sess @ api_others X r b sess @ feed_handlers X r b sess"

definition guarded_handler ::
  "'w admin_world \<Rightarrow> agh_http \<Rightarrow> api_bodies \<Rightarrow> string \<Rightarrow> session \<Rightarrow> AghAdmin \<Rightarrow> response \<times> AghAdmin" where
  "guarded_handler X r b h sess srv =
     (case lookup (all_handlers X r b sess) h of
        None \<Rightarrow> (http_error 404 ''404 page not found'', srv)
      | Some f \<Rightarrow> f srv)"

text \<open>The handlers outside the guard; everything else is the embedded page.\<close>

definition public_handler ::
  "'w admin_world \<Rightarrow> request \<Rightarrow> api_bodies \<Rightarrow> bool \<Rightarrow> string \<Rightarrow> AghAdmin \<Rightarrow> response \<times> AghAdmin" where
  "public_handler X rq b oidc h srv =
     (let W = ow_api X; now = ap_now W; io = ap_audit W in
      if h = ''handleAGHManagedFeed'' then agh_answered (handleAGHManagedFeed (aw_call X)) srv
      else if h = ''handleAuthInfo'' then api_answered (handleAuthInfo oidc) srv
      else if h = ''handleLogin''
        then handleLogin (ow_verify X) (ow_dummy X) now io (ow_tok1 X) (ow_tok2 X) rq (bo_login b) srv
      else if h = ''handleOIDCLogin'' then api_answered (handleOIDCLogin (ow_tok1 X) (ow_tok2 X)) srv
      else if h = ''handleOIDCCallback''
        then handleOIDCCallback (ow_oidc X) (ow_exchange X) (ow_verifyID X) now io (ow_tok1 X) (ow_tok2 X) (ow_callback X) srv
      else (writeOK ''page'', srv))"

text \<open>A request to the admin server. The feed is served at the normalized path of its configuration.\<close>

definition isAGHManagedFeedPath :: "AghAdmin \<Rightarrow> string option" where
  "isAGHManagedFeedPath srv =
     (case aa_mgr srv of None \<Rightarrow> None | Some m \<Rightarrow> Some (normalizedFeedPath (cf_FeedPath (mg_cfg m))))"

definition admin_serve ::
  "'w admin_world \<Rightarrow> bool \<Rightarrow> agh_http \<Rightarrow> api_bodies \<Rightarrow> int \<Rightarrow> request \<Rightarrow> AghAdmin \<Rightarrow> response \<times> AghAdmin" where
  "admin_serve X oidc r b n rq srv =
     serve_admin oidc (isAGHManagedFeedPath srv) (public_handler X rq b oidc) (guarded_handler X r b)
       (ap_now (ow_api X)) n rq srv"

text \<open>What every answer carries, and the flag of the cookies.\<close>

definition securityHeaders :: "http_response \<Rightarrow> http_response" where
  "securityHeaders w = fold (\<lambda>(k, v). set_header k v)
     [(''X-Frame-Options'', ''DENY''), (''X-Content-Type-Options'', ''nosniff''), (''Referrer-Policy'', ''no-referrer''),
      (''Content-Security-Policy'', ''default-src '' @ [CHR 0x27] @ ''self'' @ [CHR 0x27] @ ''; script-src '' @ [CHR 0x27] @ ''self'' @ [CHR 0x27] @ '' '' @
         [CHR 0x27] @ ''unsafe-inline'' @ [CHR 0x27] @ ''; style-src '' @ [CHR 0x27] @ ''self'' @ [CHR 0x27] @ '' '' @ [CHR 0x27] @ ''unsafe-inline'' @
         [CHR 0x27] @ ''; img-src '' @ [CHR 0x27] @ ''self'' @ [CHR 0x27] @ '' data:; connect-src '' @ [CHR 0x27] @ ''self'' @ [CHR 0x27] @
         ''; frame-ancestors '' @ [CHR 0x27] @ ''none'' @ [CHR 0x27])] w"

definition secureCookie :: "bool \<Rightarrow> bool \<Rightarrow> bool" where
  "secureCookie SecureCookies tls \<longleftrightarrow> SecureCookies \<or> tls"

definition clientIP :: "string \<Rightarrow> string" where
  "clientIP RemoteAddr = (case SplitHostPort RemoteAddr of Inl _ \<Rightarrow> RemoteAddr | Inr (host, _) \<Rightarrow> host)"

lemma framing_denied: "\<not> hr_Wrote w \<Longrightarrow> header_get ''X-Frame-Options'' (hr_Headers (securityHeaders w)) = ''DENY''"
proof -
  assume w: "\<not> hr_Wrote w"
  have "CanonicalHeaderKey ''X-Frame-Options'' = ''X-Frame-Options''" "CanonicalHeaderKey ''X-Content-Type-Options'' = ''X-Content-Type-Options''"
    "CanonicalHeaderKey ''Referrer-Policy'' = ''Referrer-Policy''" "CanonicalHeaderKey ''Content-Security-Policy'' = ''Content-Security-Policy''"
    by code_simp+
  then show ?thesis using w by (simp add: securityHeaders_def set_header_def header_get_def header_set_def)
qed

subsection \<open>Areas of the state\<close>

datatype area = Accounts | Policies | Settings | Rules | Feeds | Temps

text \<open>A temporary rule may expire; it may not appear or change.\<close>

fun same :: "area \<Rightarrow> AghAdmin \<Rightarrow> AghAdmin \<Rightarrow> bool" where
  "same Accounts s t = (users_of (as_store t) = users_of (as_store s))"
| "same Policies s t = (pa_files t = pa_files s)"
| "same Settings s t = (aa_cfgFiles t = aa_cfgFiles s)"
| "same Rules s t = (aa_rules t = aa_rules s)"
| "same Feeds s t = keeps_curated s t"
| "same Temps s t = (set (e_temps (pa_engine t)) \<subseteq> set (e_temps (pa_engine s)))"

fun needs :: "area \<Rightarrow> string list" where
  "needs Accounts = [''users.manage'']"
| "needs Policies = [''policy.edit'']"
| "needs Settings = [''config.edit'']"
| "needs Rules = [''catalog.edit'', ''agh.manage'']"
| "needs Feeds = [''agh.manage'']"
| "needs Temps = [''allow.temp'']"

definition touch_table :: "(string \<times> area) list" where
  "touch_table =
     [(''handleChangePassword'', Accounts), (''handleUserCreate'', Accounts), (''handleUserDelete'', Accounts),
      (''handleUserSetPassword'', Accounts), (''handlePolicyPut'', Policies), (''handlePermanentAllow'', Policies),
      (''handleSiteOverride'', Policies), (''handleConfigPut'', Settings), (''handleAGHManagedTargetConfigPut'', Settings),
      (''handleAGHManagedSchedulerConfigPut'', Settings), (''handleTempAllow'', Temps), (''handleRuleCatalogReview'', Rules),
      (''handleRuleCatalogPromote'', Rules), (''handleRuleCatalogDowngrade'', Rules), (''handleRuleCatalogMarkCNAME'', Rules),
      (''handleAGHSyncRun'', Rules)] @ map (\<lambda>h. (h, Feeds)) managing"

definition touches :: "string \<Rightarrow> area \<Rightarrow> bool" where
  "touches h a \<longleftrightarrow> (h, a) \<in> set touch_table"

lemma same_refl [simp]: "same a s s" by (cases a) simp_all

definition frame :: "AghAdmin \<Rightarrow> User list \<times> (string, string) gomap \<times> Engine \<times> RStore option" where
  "frame s = (users_of (as_store s), pa_files s, pa_engine s, aa_rules s)"

lemma frame_same: "frame t = frame s \<Longrightarrow> a \<in> {Accounts, Policies, Rules, Temps} \<Longrightarrow> same a s t"
  by (auto simp: frame_def)

lemma frame_simps [simp]:
  "frame (s\<lparr>aa_mgr := m\<rparr>) = frame s" "frame (s\<lparr>aa_cfgFiles := fs\<rparr>) = frame s" "frame (s\<lparr>as_sess := ss\<rparr>) = frame s"
  "frame (agh_audit C sess x d s) = frame s" "aa_cfgFiles (agh_audit C sess x d s) = aa_cfgFiles s"
  by (simp_all add: frame_def agh_audit_def audit_srv_def)

definition framed :: "AghAdmin \<Rightarrow> AghAdmin \<Rightarrow> bool" where
  "framed s t \<longleftrightarrow> frame t = frame s \<and> aa_cfgFiles t = aa_cfgFiles s"

lemma framed_simps [simp]:
  "framed s s" "framed s (t\<lparr>aa_mgr := m\<rparr>) = framed s t" "framed s (agh_audit C sess x d t) = framed s t"
  by (simp_all add: framed_def)

lemma with_mgr_frame:
  "(\<And>m. aa_mgr srv = Some m \<Longrightarrow> framed srv (snd (k m))) \<Longrightarrow> framed srv (snd (with_mgr srv k))"
  "(\<And>m. aa_mgr srv = Some m \<Longrightarrow> frame (snd (k m)) = frame srv) \<Longrightarrow> frame (snd (with_mgr srv k)) = frame srv"
  by (auto simp: with_mgr_def split: option.split)

lemma with_body_frame:
  "(\<And>x. body = Inr x \<Longrightarrow> framed srv (snd (k x))) \<Longrightarrow> framed srv (snd (with_body body srv k))"
  "(\<And>x. body = Inr x \<Longrightarrow> frame (snd (k x)) = frame srv) \<Longrightarrow> frame (snd (with_body body srv k)) = frame srv"
  by (auto simp: with_body_def split: sum.split)

lemma conclude_frame [simp]: "framed s (snd (conclude C sess code x d ans r t)) = framed s t"
  by (simp add: conclude_def split: sum.split)

lemmas agh_read_defs = handleAGHManagedSources_def handleAGHManagedSourceEntries_def handleAGHManagedSourcePendingDiff_def
  handleAGHManagedFeedStatus_def handleAGHManagedTargetConfig_def handleAGHManagedSchedulerConfig_def
  handleAGHManagedFeedPreview_def handleAGHManagedFeedExport_def handleAGHManagedHistory_def handleAGHManagedCatalogFacets_def
  handleAGHManagedCatalog_def handleAGHManagedConflicts_def handleAGHManagedRollbacks_def handleAGHManagedSourcePreview_def
  handleAGHManagedRefreshTarget_def handleAGHManagedEmergencyEmpty_def

lemmas agh_change_defs = handleAGHManagedSourceUpsert_def handleAGHManagedSourceDelete_def handleAGHManagedSourceSync_def
  handleAGHManagedSourceApprove_def handleAGHManagedSourceReject_def handleAGHManagedCatalogBulkPatch_def
  handleAGHManagedCatalogPatch_def handleAGHManagedConflictResolve_def handleAGHManagedRollbackApply_def handleAGHManagedPreset_def

lemma agh_reads_frame:
  "framed srv (snd (handleAGHManagedSources C srv))"
  "framed srv (snd (handleAGHManagedSourceEntries C r srv))"
  "framed srv (snd (handleAGHManagedSourcePendingDiff C r srv))"
  "framed srv (snd (handleAGHManagedFeedStatus C r srv))"
  "framed srv (snd (handleAGHManagedTargetConfig C r srv))"
  "framed srv (snd (handleAGHManagedSchedulerConfig C srv))"
  "framed srv (snd (handleAGHManagedFeedPreview C r srv))"
  "framed srv (snd (handleAGHManagedFeedExport C st srv))"
  "framed srv (snd (handleAGHManagedHistory srv))"
  "framed srv (snd (handleAGHManagedCatalogFacets r srv))"
  "framed srv (snd (handleAGHManagedCatalog r srv))"
  "framed srv (snd (handleAGHManagedConflicts C srv))"
  "framed srv (snd (handleAGHManagedRollbacks srv))"
  "framed srv (snd (handleAGHManagedSourcePreview C r f ms b1 srv))"
  "framed srv (snd (handleAGHManagedRefreshTarget C sess srv))"
  "framed srv (snd (handleAGHManagedEmergencyEmpty C b3 sess srv))"
  unfolding agh_read_defs
  by (intro with_mgr_frame with_body_frame; auto simp: Let_def split: prod.split option.split sum.split)+

lemma agh_changes_frame:
  "framed srv (snd (handleAGHManagedSourceUpsert C r b1 sess srv))"
  "framed srv (snd (handleAGHManagedSourceDelete C r sess srv))"
  "framed srv (snd (handleAGHManagedSourceSync C r api j sess srv))"
  "framed srv (snd (handleAGHManagedSourceApprove C r sess srv))"
  "framed srv (snd (handleAGHManagedSourceReject C r sess srv))"
  "framed srv (snd (handleAGHManagedCatalogBulkPatch C b2 sess srv))"
  "framed srv (snd (handleAGHManagedCatalogPatch C r b3 sess srv))"
  "framed srv (snd (handleAGHManagedConflictResolve C r b4 sess srv))"
  "framed srv (snd (handleAGHManagedRollbackApply C r sess srv))"
  "framed srv (snd (handleAGHManagedPreset C r b5 sess srv))"
  unfolding agh_change_defs
  by (intro with_mgr_frame with_body_frame; auto simp: Let_def split: prod.split option.split sum.split)+

lemma agh_client_frame:
  "framed srv (snd (drop_world (handleAGHManagedRefreshAGH A cfg C b1 sess (w, srv))))"
  "framed srv (snd (drop_world (handleAGHManagedRegisterAGH A cfg C r sess (w, srv))))"
  "framed srv (snd (drop_world (handleAGHManagedAGHStatus A cfg C r (w, srv))))"
  unfolding handleAGHManagedRefreshAGH_def handleAGHManagedRegisterAGH_def handleAGHManagedAGHStatus_def drop_world_def
  by (auto simp: Let_def split: prod.split option.split sum.split)

lemma agh_puts_frame:
  "frame (snd (handleAGHManagedTargetConfigPut E C r b1 sess srv)) = frame srv"
  "frame (snd (handleAGHManagedSchedulerConfigPut E C b2 sess srv)) = frame srv"
  unfolding handleAGHManagedTargetConfigPut_def handleAGHManagedSchedulerConfigPut_def
  by (intro with_mgr_frame with_body_frame; auto simp: Let_def split: prod.split option.split sum.split)+

lemma framed_same: "framed s t \<Longrightarrow> a \<noteq> Feeds \<Longrightarrow> same a s t"
  by (cases a) (auto simp: framed_def frame_def)

definition settings_puts :: "string list" where
  "settings_puts = [''handleAGHManagedTargetConfigPut'', ''handleAGHManagedSchedulerConfigPut'']"

lemma agh_handlers_frame:
  assumes "(h, f) \<in> set (agh_handlers W r b sess)"
  shows "frame (snd (f srv)) = frame srv \<and> (h \<notin> set settings_puts \<longrightarrow> framed srv (snd (f srv)))"
proof -
  have "(h, f) \<in> set (agh_changes W r b sess) \<or> (h, f) \<in> set (agh_others W r b sess)"
    using assms by (auto simp: agh_handlers_def)
  then show ?thesis
  proof
    assume "(h, f) \<in> set (agh_changes W r b sess)"
    then have "framed srv (snd (f srv))"
      unfolding agh_changes_def Let_def list.set insert_iff prod.inject empty_iff
      by (elim disjE conjE; simp only: agh_changes_frame)
    then show ?thesis by (simp add: framed_def)
  next
    assume o: "(h, f) \<in> set (agh_others W r b sess)"
    show ?thesis
    proof (cases "h \<in> set settings_puts")
      case True
      with o show ?thesis
        by (auto simp: agh_others_def Let_def settings_puts_def agh_puts_frame)
    next
      case False
      with o have "framed srv (snd (f srv))"
        unfolding agh_others_def Let_def list.set insert_iff prod.inject empty_iff settings_puts_def
        by (elim disjE conjE; simp only: agh_reads_frame agh_client_frame) simp_all
      then show ?thesis by (simp add: framed_def)
    qed
  qed
qed

lemma touches_feeds: "h \<in> set managing \<Longrightarrow> touches h Feeds" "h \<in> set settings_puts \<Longrightarrow> touches h Settings"
  by (auto simp: touches_def touch_table_def settings_puts_def)

lemma feed_handlers_same:
  assumes "(h, f) \<in> set (feed_handlers X r b sess)" "\<not> touches h a"
  shows "same a srv (snd (f srv))"
proof -
  let ?W = "agh_world.truncate X" and ?b = "agh_bodies.truncate b"
  obtain g where g: "(h, g) \<in> set (agh_handlers ?W r ?b sess)" "f = agh_answered g"
    using assms(1) by (auto simp: feed_handlers_def)
  have s: "snd (f srv) = snd (g srv)" by (simp add: g agh_answered_def split: prod.split)
  have fr: "frame (snd (g srv)) = frame srv" "h \<notin> set settings_puts \<longrightarrow> framed srv (snd (g srv))"
    using agh_handlers_frame[OF g(1)] by auto
  show ?thesis
  proof (cases "a = Feeds")
    case True
    with assms(2) touches_feeds have "h \<notin> set managing" by blast
    then have "(h, g) \<notin> set (agh_changes ?W r ?b sess)"
      using arg_cong[OF managing_names[of ?W r ?b sess], of set] by (metis fst_conv image_eqI set_map)
    with g(1) have "(h, g) \<in> set (agh_others ?W r ?b sess)" by (simp add: agh_handlers_def)
    from others_keep[OF this] True s show ?thesis by simp
  next
    case False
    show ?thesis
    proof (cases "h \<in> set settings_puts")
      case True
      with assms(2) touches_feeds have "a \<noteq> Settings" by blast
      with False have "a \<in> {Accounts, Policies, Rules, Temps}" by (cases a) auto
      with fr(1) s frame_same show ?thesis by simp
    next
      case n: False
      with fr(2) s framed_same[OF _ False] show ?thesis by simp
    qed
  qed
qed

subsection \<open>The other handlers\<close>

lemma audit_fields [simp]:
  "users_of (as_store (audit_srv now io a x d s)) = users_of (as_store s)" "as_sess (audit_srv now io a x d s) = as_sess s"
  by (simp_all add: audit_srv_def)

lemma audit_agh_fields [simp]:
  fixes s :: AghAdmin
  shows "pa_files (audit_srv now io a x d s) = pa_files s" "pa_engine (audit_srv now io a x d s) = pa_engine s"
    "aa_rules (audit_srv now io a x d s) = aa_rules s" "aa_cfgFiles (audit_srv now io a x d s) = aa_cfgFiles s"
    "aa_mgr (audit_srv now io a x d s) = aa_mgr s"
  by (simp_all add: audit_srv_def)

lemma same_after:
  fixes s t :: AghAdmin
  shows "same a s (audit_srv now io ac x d t) = same a s t" "same a s (t\<lparr>as_sess := m\<rparr>) = same a s t"
    "a \<noteq> Rules \<Longrightarrow> same a s (t\<lparr>aa_rules := c\<rparr>) = same a s t" "a \<noteq> Accounts \<Longrightarrow> same a s (t\<lparr>as_store := st\<rparr>) = same a s t"
    "a \<noteq> Policies \<Longrightarrow> same a s (write_file wr n content t) = same a s t" "a \<noteq> Temps \<Longrightarrow> same a s (t\<lparr>pa_engine := e\<rparr>) = same a s t"
    "a \<noteq> Settings \<Longrightarrow> same a s (t\<lparr>aa_cfgFiles := fs\<rparr>) = same a s t"
  by (cases a; simp add: keeps_curated_def write_file_def)+

lemma TempRules_same: "TempRules now (pa_engine s) = (temps, e) \<Longrightarrow> same a s (s\<lparr>pa_engine := e\<rparr>)"
  by (cases a) (auto simp: TempRules_def keeps_curated_def del_if_def)

lemma with_rules_same: "(\<And>c. same a srv (snd (k c))) \<Longrightarrow> same a srv (snd (with_rules srv k))"
  by (simp add: with_rules_def split: option.split)

lemma api_body_same: "(\<And>x. same a srv (snd (k x))) \<Longrightarrow> same a srv (snd (api_body body srv k))"
  by (simp add: api_body_def split: sum.split)

lemma rule_changed_same: "a \<noteq> Rules \<Longrightarrow> same a srv (snd (rule_changed W sess x srv res))"
  by (auto simp: rule_changed_def api_audit_def same_after split: prod.split sum.split)

lemma snd_answered [simp]: "snd (api_answered f s) = snd (f s)" "snd (agh_answered g s) = snd (g s)"
  by (simp_all add: api_answered_def agh_answered_def split: prod.split)

lemma api_writes_same:
  "a \<noteq> Accounts \<Longrightarrow> same a srv (snd (handleChangePassword v hs now io io' b1 sess srv))"
  "a \<noteq> Policies \<Longrightarrow> same a srv (snd (handlePolicyPut u now wr io name b2 sess srv))"
  "a \<noteq> Settings \<Longrightarrow> same a srv (snd (handleConfigPut W b2 sess srv))"
  "a \<noteq> Temps \<Longrightarrow> same a srv (snd (handleTempAllow now io b3 sess srv))"
  "a \<noteq> Policies \<Longrightarrow> same a srv (snd (handlePermanentAllow u now wr io b3 sess srv))"
  "a \<noteq> Policies \<Longrightarrow> same a srv (snd (handleSiteOverride u now wr io b3 sess srv))"
  "a \<noteq> Rules \<Longrightarrow> same a srv (snd (handleRuleCatalogReview W r b4 sess srv))"
  "a \<noteq> Rules \<Longrightarrow> same a srv (snd (handleRuleCatalogPromote W r sess srv))"
  "a \<noteq> Rules \<Longrightarrow> same a srv (snd (handleRuleCatalogDowngrade W r sess srv))"
  "a \<noteq> Rules \<Longrightarrow> same a srv (snd (handleRuleCatalogMarkCNAME W r b5 sess srv))"
  "a \<noteq> Rules \<Longrightarrow> same a srv (snd (handleAGHSyncRun W sess srv))"
  "a \<noteq> Accounts \<Longrightarrow> same a srv (snd (handleUserCreate hs now io io' b6 sess srv))"
  "a \<noteq> Accounts \<Longrightarrow> same a srv (snd (handleUserDelete now io io' name sess srv))"
  "a \<noteq> Accounts \<Longrightarrow> same a srv (snd (handleUserSetPassword hs now io io' name b2 sess srv))"
  unfolding handleChangePassword_def handlePolicyPut_def handleConfigPut_def handleTempAllow_def handlePermanentAllow_def
    handleSiteOverride_def handleRuleCatalogReview_def handleRuleCatalogPromote_def handleRuleCatalogDowngrade_def
    handleRuleCatalogMarkCNAME_def handleAGHSyncRun_def handleUserCreate_def handleUserDelete_def handleUserSetPassword_def
  by (auto simp: Let_def same_after put_generated_def api_audit_def
      intro!: with_rules_same api_body_same rule_changed_same split: sum.split prod.split option.split outcome.split)

text \<open>The reload the server hands in swaps the rules of the engine and the options of the recorder; it leaves
  the areas alone.\<close>

definition reload_keeps :: "api_world \<Rightarrow> bool" where
  "reload_keeps W \<longleftrightarrow> (\<forall>run s a. ap_reload W = Some run \<longrightarrow> same a s (snd (run s)))"

lemma reload_same: "reload_keeps W \<Longrightarrow> same a srv (snd (handleReload W sess srv))"
  unfolding handleReload_def reload_keeps_def
  by (auto simp: api_audit_def same_after split: option.split prod.split) (metis snd_conv)+

lemma api_reads_same:
  "same a srv (snd (handleLogout sess srv))"
  "same a srv (snd (handleMe sess srv))"
  "same a srv (snd (handleDashboard W srv))"
  "same a srv (snd (handleTraffic W srv))"
  "same a srv (snd (handleCuration srv))"
  "same a srv (snd (handlePolicyList W srv))"
  "same a srv (snd (handlePolicyGet W name srv))"
  "same a srv (snd (handleCatalogList W srv))"
  "same a srv (snd (handleRuleCatalogList r srv))"
  "same a srv (snd (handleRuleCatalogGet r srv))"
  "same a srv (snd (handleAnalyticsCNAMECandidates srv))"
  "same a srv (snd (handleAGHSyncStatus srv))"
  "same a srv (snd (handleTriageContext W r srv))"
  "same a srv (snd (handleAnalyticsSummary srv))"
  "same a srv (snd (handleAnalyticsDomains srv))"
  "same a srv (snd (handleAnalyticsRules srv))"
  "same a srv (snd (handleAnalyticsCatalog srv))"
  "same a srv (snd (handleAnalyticsJSStubs srv))"
  "same a srv (snd (handleAnalyticsFalsePositiveCandidates srv))"
  "same a srv (snd (handleConfigGet W srv))"
  "same a srv (snd (handleAudit srv))"
  "same a srv (snd (handleAGHRewriteCandidate W b sess srv))"
  "same a srv (snd (handleKillSwitch W sess srv))"
  "same a srv (snd (handleUserList srv))"
  unfolding handleLogout_def handleMe_def handleDashboard_def handleTraffic_def handleCuration_def handlePolicyList_def
    handlePolicyGet_def handleCatalogList_def handleRuleCatalogList_def handleRuleCatalogGet_def handleAGHSyncStatus_def
    handleTriageContext_def handleAnalyticsSummary_def handleAnalyticsDomains_def handleAnalyticsRules_def
    handleAnalyticsCatalog_def handleAnalyticsJSStubs_def handleAnalyticsFalsePositiveCandidates_def
    handleAnalyticsCNAMECandidates_def writeCatalogAnalyticsSlice_def handleConfigGet_def handleAudit_def
    handleAGHRewriteCandidate_def handleKillSwitch_def handleUserList_def
  by (auto simp: Let_def same_after api_audit_def TempRules_same
      intro!: with_rules_same api_body_same split: sum.split prod.split option.split)

lemma api_others_same:
  assumes "(h, f) \<in> set (api_others X r b sess)" "reload_keeps (ow_api X)"
  shows "same a srv (snd (f srv))"
  using assms
  unfolding api_others_def Let_def list.map list.set insert_iff prod.inject empty_iff prod.case
  by (elim disjE conjE; simp only: snd_answered api_reads_same reload_same) (simp_all add: api_reads_same)

lemma api_changes_same:
  assumes "(h, f) \<in> set (api_changes X r b sess)" "\<not> touches h a"
  shows "same a srv (snd (f srv))"
proof -
  have names: "touches ''handleChangePassword'' Accounts" "touches ''handlePolicyPut'' Policies" "touches ''handleConfigPut'' Settings"
    "touches ''handleTempAllow'' Temps" "touches ''handlePermanentAllow'' Policies" "touches ''handleSiteOverride'' Policies"
    "touches ''handleRuleCatalogReview'' Rules" "touches ''handleRuleCatalogPromote'' Rules" "touches ''handleRuleCatalogDowngrade'' Rules"
    "touches ''handleRuleCatalogMarkCNAME'' Rules" "touches ''handleAGHSyncRun'' Rules" "touches ''handleUserCreate'' Accounts"
    "touches ''handleUserDelete'' Accounts" "touches ''handleUserSetPassword'' Accounts"
    by (simp_all add: touches_def touch_table_def)
  show ?thesis
    using assms names
    unfolding api_changes_def Let_def list.set insert_iff prod.inject empty_iff
    by (elim disjE conjE; simp only: snd_answered) (metis api_writes_same)+
qed

lemma handlers_same:
  assumes "lookup (all_handlers X r b sess) h = Some f" "\<not> touches h a" "reload_keeps (ow_api X)"
  shows "same a srv (snd (f srv))"
  using map_of_SomeD[OF assms(1)] assms(2,3) api_changes_same api_others_same feed_handlers_same
  by (auto simp: all_handlers_def)

subsection \<open>The audit log\<close>

definition logged :: "session \<Rightarrow> AghAdmin \<Rightarrow> AghAdmin \<Rightarrow> bool" where
  "logged sess s t \<longleftrightarrow>
     (\<exists>e. ae_Actor e = s_username sess \<and>
        sd_Audit (st_data (as_store t)) = keep_last audit_keep (sd_Audit (st_data (as_store s)) @ [e]))"

lemma audit_logged:
  assumes "sd_Audit (st_data (as_store t)) = sd_Audit (st_data (as_store s))"
  shows "logged sess s (audit_srv now io (s_username sess) x d t)"
  unfolding logged_def
  by (rule exI[of _ "\<lparr>ae_Time = now, ae_Actor = s_username sess, ae_Action = x, ae_Detail = d\<rparr>"])
    (simp add: audit_srv_def Audit_log assms)

lemma store_ops_audit:
  "store_Upsert now io u st = (e, st') \<Longrightarrow> sd_Audit (st_data st') = sd_Audit (st_data st)"
  "store_Delete io n st = (e, st') \<Longrightarrow> sd_Audit (st_data st') = sd_Audit (st_data st)"
  "store_SetPassword io n hs st = (e, st') \<Longrightarrow> sd_Audit (st_data st') = sd_Audit (st_data st)"
  by (auto simp: store_Upsert_def store_Delete_def store_SetPassword_def Let_def split: option.splits dest!: arg_cong[of _ _ snd])

lemma with_rules_logged:
  assumes "rp_status (api_response (fst (with_rules srv k))) = 200"
    "\<And>c. rp_status (api_response (fst (k c))) = 200 \<Longrightarrow> logged sess srv (snd (k c))"
  shows "logged sess srv (snd (with_rules srv k))"
  using assms by (auto simp: with_rules_def api_response_def http_error_def split: option.splits)

lemma api_body_logged:
  assumes "rp_status (api_response (fst (api_body body srv k))) = 200"
    "\<And>x. rp_status (api_response (fst (k x))) = 200 \<Longrightarrow> logged sess srv (snd (k x))"
  shows "logged sess srv (snd (api_body body srv k))"
  using assms by (auto simp: api_body_def api_response_def http_error_def split: sum.splits if_splits)

lemma rule_changed_logged:
  assumes "rp_status (api_response (fst (rule_changed W sess x srv res))) = 200"
  shows "logged sess srv (snd (rule_changed W sess x srv res))"
  using assms by (auto simp: rule_changed_def api_response_def http_error_def api_audit_def intro!: audit_logged split: prod.splits sum.splits)

lemma rp_status_simps [simp]:
  "rp_status (http_error c m) = c" "rp_status (writeOK m) = 200" "rp_status aborted = 0"
  "rp_status (decode_error c) = (if c = 413 then 413 else 400)" "rp_status (validation_error c p e) = c"
  by (simp_all add: http_error_def writeOK_def aborted_def decode_error_def validation_error_def)

lemma write_file_store [simp]: "as_store (write_file wr n c srv) = as_store srv"
  by (simp add: write_file_def)

lemma account_changes_logged:
  "rp_status (fst (handleChangePassword v hs now io io' b1 sess srv)) = 200 \<Longrightarrow>
     logged sess srv (snd (handleChangePassword v hs now io io' b1 sess srv))"
  "rp_status (fst (handleUserCreate hs now io io' b6 sess srv)) = 200 \<Longrightarrow>
     logged sess srv (snd (handleUserCreate hs now io io' b6 sess srv))"
  "rp_status (fst (handleUserDelete now io io' name sess srv)) = 200 \<Longrightarrow>
     logged sess srv (snd (handleUserDelete now io io' name sess srv))"
  "rp_status (fst (handleUserSetPassword hs now io io' name b2 sess srv)) = 200 \<Longrightarrow>
     logged sess srv (snd (handleUserSetPassword hs now io io' name b2 sess srv))"
  unfolding handleChangePassword_def handleUserCreate_def handleUserDelete_def handleUserSetPassword_def
  by (auto simp: Let_def intro!: audit_logged dest: store_ops_audit split: sum.splits prod.splits option.splits if_splits)

lemma policy_changes_logged:
  "rp_status (fst (handlePolicyPut u now wr io name b2 sess srv)) = 200 \<Longrightarrow>
     logged sess srv (snd (handlePolicyPut u now wr io name b2 sess srv))"
  "rp_status (fst (handleTempAllow now io b3 sess srv)) = 200 \<Longrightarrow>
     logged sess srv (snd (handleTempAllow now io b3 sess srv))"
  "rp_status (fst (handlePermanentAllow u now wr io b3 sess srv)) = 200 \<Longrightarrow>
     logged sess srv (snd (handlePermanentAllow u now wr io b3 sess srv))"
  "rp_status (fst (handleSiteOverride u now wr io b3 sess srv)) = 200 \<Longrightarrow>
     logged sess srv (snd (handleSiteOverride u now wr io b3 sess srv))"
  unfolding handlePolicyPut_def handleTempAllow_def handlePermanentAllow_def handleSiteOverride_def put_generated_def
  by (auto simp: Let_def intro!: audit_logged split: sum.splits prod.splits option.splits if_splits outcome.splits)

lemma answered_status: "rp_status (fst (api_answered f s)) = rp_status (api_response (fst (f s)))"
  "rp_status (fst (agh_answered g s)) = answer_status (fst (g s))"
  by (simp_all add: api_answered_def agh_answered_def agh_response_status split: prod.split)

lemma rule_changes_logged:
  "rp_status (fst (api_answered (handleRuleCatalogReview W r b4 sess) srv)) = 200 \<Longrightarrow>
     logged sess srv (snd (handleRuleCatalogReview W r b4 sess srv))"
  "rp_status (fst (api_answered (handleRuleCatalogPromote W r sess) srv)) = 200 \<Longrightarrow>
     logged sess srv (snd (handleRuleCatalogPromote W r sess srv))"
  "rp_status (fst (api_answered (handleRuleCatalogDowngrade W r sess) srv)) = 200 \<Longrightarrow>
     logged sess srv (snd (handleRuleCatalogDowngrade W r sess srv))"
  "rp_status (fst (api_answered (handleRuleCatalogMarkCNAME W r b5 sess) srv)) = 200 \<Longrightarrow>
     logged sess srv (snd (handleRuleCatalogMarkCNAME W r b5 sess srv))"
  unfolding answered_status handleRuleCatalogReview_def handleRuleCatalogPromote_def handleRuleCatalogDowngrade_def
    handleRuleCatalogMarkCNAME_def
  by ((erule with_rules_logged | erule api_body_logged | erule rule_changed_logged | simp only: case_prod_beta)+)

lemma other_changes_logged:
  "rp_status (fst (api_answered (handleConfigPut W b2 sess) srv)) = 200 \<Longrightarrow>
     logged sess srv (snd (handleConfigPut W b2 sess srv))"
  "rp_status (fst (api_answered (handleAGHSyncRun W sess) srv)) = 200 \<Longrightarrow>
     logged sess srv (snd (handleAGHSyncRun W sess srv))"
  unfolding answered_status handleConfigPut_def handleAGHSyncRun_def api_body_def
  by (auto simp: Let_def api_response_def api_audit_def intro!: audit_logged
      split: sum.splits prod.splits option.splits if_splits)

lemma api_changes_logged:
  assumes "(h, f) \<in> set (api_changes X r b sess)" "rp_status (fst (f srv)) = 200"
  shows "logged sess srv (snd (f srv))"
  using assms
  unfolding api_changes_def Let_def list.set insert_iff prod.inject empty_iff
  by (elim disjE conjE)
    (simp_all only: snd_answered account_changes_logged policy_changes_logged rule_changes_logged other_changes_logged)

lemma logged_mgr [simp]: "logged sess s (set_mgr m t) = logged sess s t"
  by (simp add: logged_def)

lemma settings_logged:
  "answer_status (fst (handleAGHManagedTargetConfigPut E C r b1 sess srv)) = 200 \<Longrightarrow>
     logged sess srv (snd (handleAGHManagedTargetConfigPut E C r b1 sess srv))"
  "answer_status (fst (handleAGHManagedSchedulerConfigPut E C b2 sess srv)) = 200 \<Longrightarrow>
     logged sess srv (snd (handleAGHManagedSchedulerConfigPut E C b2 sess srv))"
  unfolding handleAGHManagedTargetConfigPut_def handleAGHManagedSchedulerConfigPut_def with_mgr_def with_body_def
  by (auto simp: Let_def agh_audit_def answer_status_def unavailable_def decode_answer_def intro!: audit_logged
      split: sum.splits prod.splits option.splits if_splits)

lemma audited_logged: "audited sess s t \<Longrightarrow> logged sess s t"
  by (auto simp: audited_def logged_def)

lemma feed_handlers_logged:
  assumes "(h, f) \<in> set (feed_handlers X r b sess)" "touches h a" "rp_status (fst (f srv)) = 200"
  shows "logged sess srv (snd (f srv))"
proof -
  let ?W = "agh_world.truncate X" and ?b = "agh_bodies.truncate b"
  obtain g where g: "(h, g) \<in> set (agh_handlers ?W r ?b sess)" "f = agh_answered g"
    using assms(1) by (auto simp: feed_handlers_def)
  have st: "answer_status (fst (g srv)) = 200" using assms(3) g(2) by (simp add: answered_status)
  from g(1) have "(h, g) \<in> set (agh_changes ?W r ?b sess) \<or> (h, g) \<in> set (agh_others ?W r ?b sess)"
    by (auto simp: agh_handlers_def)
  then have "logged sess srv (snd (g srv))"
  proof
    assume "(h, g) \<in> set (agh_changes ?W r ?b sess)"
    from managing_audited[OF st this] show ?thesis by (rule audited_logged)
  next
    assume o: "(h, g) \<in> set (agh_others ?W r ?b sess)"
    then have "h \<in> fst ` set (agh_others ?W r ?b sess)" by force
    then have "h \<in> set settings_puts"
      using assms(2) by (auto simp: agh_others_def Let_def touches_def touch_table_def managing_def settings_puts_def)
    with o st show ?thesis by (auto simp: agh_others_def Let_def settings_puts_def settings_logged)
  qed
  then show ?thesis by (simp add: g(2))
qed

lemma others_touch_nothing: "(h, f) \<in> set (api_others X r b sess) \<Longrightarrow> \<not> touches h a"
proof -
  assume "(h, f) \<in> set (api_others X r b sess)"
  then have "h \<in> fst ` set (api_others X r b sess)" by force
  then show "\<not> touches h a"
    by (auto simp: api_others_def Let_def touches_def touch_table_def managing_def)
qed

lemma handlers_logged:
  assumes "lookup (all_handlers X r b sess) h = Some f" "touches h a" "rp_status (fst (f srv)) = 200"
  shows "logged sess srv (snd (f srv))"
proof -
  from map_of_SomeD[OF assms(1)] assms(2) others_touch_nothing[of h f X r b sess a]
  have "(h, f) \<in> set (api_changes X r b sess) \<or> (h, f) \<in> set (feed_handlers X r b sess)"
    by (auto simp: all_handlers_def)
  with assms(2,3) api_changes_logged[of h f X r b sess srv] feed_handlers_logged[of h f X r b sess a srv] show ?thesis by blast
qed

subsection \<open>The route table in front\<close>

text \<open>A change of the own password: no other account is touched.\<close>

definition own_account :: "session \<Rightarrow> AghAdmin \<Rightarrow> AghAdmin \<Rightarrow> bool" where
  "own_account sess s t \<longleftrightarrow>
     (\<forall>n. n \<noteq> s_username sess \<longrightarrow> store_Get (as_store t) n = store_Get (as_store s) n)"

lemma sess_store: "as_store (s\<lparr>as_sess := x\<rparr>) = as_store (s :: AghAdmin)" by simp

lemma SetPassword_other:
  "store_SetPassword io n hs st = (e, st') \<Longrightarrow> k \<noteq> n \<Longrightarrow> store_Get st' k = store_Get st k"
  using Get_SetPassword[of io n hs st k] by simp

lemma change_password_own: "own_account sess srv (snd (handleChangePassword v hs now io io' b sess srv))"
  unfolding own_account_def handleChangePassword_def
  by (auto simp: Let_def audit_srv_def SetPassword_other split: sum.split prod.split option.split)

lemma touching_routes:
  assumes "(m, p, c, h) \<in> set (admin_routes oidc)" "touches h a"
  shows "m \<noteq> ''GET'' \<and> m \<noteq> ''HEAD'' \<and>
    (c \<in> Some ` set (needs a) \<or> h = ''handleChangePassword'' \<and> a = Accounts \<and> c = Some [])"
proof -
  have "\<forall>oidc. list_all (\<lambda>(m, p, c, h). list_all (\<lambda>(h', a). h' = h \<longrightarrow> m \<noteq> ''GET'' \<and> m \<noteq> ''HEAD'' \<and>
      (list_ex (\<lambda>cap. c = Some cap) (needs a) \<or> h = ''handleChangePassword'' \<and> a = Accounts \<and> c = Some [])) touch_table)
      (admin_routes oidc)"
    by code_simp
  then show ?thesis using assms unfolding touches_def list_all_iff list_ex_iff by fastforce
qed

lemma public_same: "same a srv (snd (public_handler X rq b oidc h srv))"
proof -
  have feed: "same a srv (snd (handleAGHManagedFeed C srv))" for C
    using feed_keeps[of srv C] unfolding handleAGHManagedFeed_def
    by (cases a) (auto split: prod.split option.split sum.split)
  have login: "same a srv (snd (handleLogin v d now io t1 t2 rq body srv))" for v d now io t1 t2 body
    by (auto simp: handleLogin_def Let_def same_after split: sum.split option.split prod.split)
  have oidc: "same a srv (snd (handleOIDCCallback oa ex ve now io t1 t2 cb srv))" for oa ex ve now io t1 t2 cb
    by (auto simp: handleOIDCCallback_def Let_def same_after split: sum.split option.split prod.split bool.split)
  show ?thesis
    by (simp add: public_handler_def Let_def feed login oidc handleAuthInfo_def handleOIDCLogin_def)
qed

text \<open>C19: Whatever request reaches the admin server, an area of its state (the accounts, the policy files, the
  configuration file, the rule catalog, the managed feeds, the temporary rules) changes only for a request that is
  neither GET nor HEAD, with a live session, with the CSRF token of that session, and with a role that has a
  capability of that area; the one exception is the change of the own password, which leaves every other account
  as it was. And when the answer is 200 the audit log has gained an entry in the name of the session's user.\<close>

theorem changes_need_capabilities:
  assumes "admin_serve X oidc r b n rq srv = (resp, srv')" "reload_keeps (ow_api X)" "\<not> same a srv srv'"
  shows "\<exists>cookie sess. rq_Cookie rq = Some cookie \<and> fst (sess_get (ap_now (ow_api X)) cookie (as_sess srv)) = Some sess \<and>
    rq_Method rq \<notin> {''GET'', ''HEAD''} \<and> rq_CSRF rq = s_csrf sess \<and>
    ((\<exists>cap \<in> set (needs a). Can (s_role sess) cap) \<or> a = Accounts \<and> own_account sess srv srv') \<and>
    (rp_status resp = 200 \<longrightarrow> logged sess srv srv')"
proof -
  let ?now = "ap_now (ow_api X)"
  obtain m p cap h where rt: "find_route (admin_routes oidc) (rq_Method rq) (rq_Path rq) = Some (m, p, Some cap, h)"
    and auth: "withAuth cap (guarded_handler X r b h) ?now rq srv = (resp, srv')"
  proof -
    have "\<exists>m p cap h. find_route (admin_routes oidc) (rq_Method rq) (rq_Path rq) = Some (m, p, Some cap, h) \<and>
        withAuth cap (guarded_handler X r b h) ?now rq srv = (resp, srv')"
      using assms(1,3) public_same[of a srv X rq b oidc]
      by (auto simp: admin_serve_def serve_admin_def limitBody_def split: if_splits option.splits prod.splits) (metis snd_conv)+
    then show ?thesis using that by blast
  qed
  have sess_only: "same a srv (srv\<lparr>as_sess := x\<rparr>)" for x by (simp add: same_after)
  from auth assms(3) sess_only obtain cookie sess mm where
    c: "rq_Cookie rq = Some cookie" "sess_get ?now cookie (as_sess srv) = (Some sess, mm)"
      "\<not> (rq_Method rq \<noteq> ''GET'' \<and> rq_Method rq \<noteq> ''HEAD'' \<and> rq_CSRF rq \<noteq> s_csrf sess)"
      "\<not> (cap \<noteq> [] \<and> \<not> Can (s_role sess) cap)"
      "guarded_handler X r b h sess (srv\<lparr>as_sess := mm\<rparr>) = (resp, srv')"
    by (auto simp: withAuth_def Let_def split: option.splits prod.splits if_splits)
  let ?s = "srv\<lparr>as_sess := mm\<rparr>"
  have ch: "\<not> same a ?s srv'" using assms(3) by (cases a) (auto simp: keeps_curated_def)
  then obtain f where f: "lookup (all_handlers X r b sess) h = Some f" and res: "f ?s = (resp, srv')"
    using c(5) by (auto simp: guarded_handler_def split: option.splits)
  have t: "touches h a" using handlers_same[OF f _ assms(2)] ch res by (metis snd_conv)
  have log: "rp_status resp = 200 \<longrightarrow> logged sess srv srv'"
    using handlers_logged[OF f t, of ?s] res by (auto simp: logged_def)
  from find_route_Some[OF rt] have r: "(m, p, Some cap, h) \<in> set (admin_routes oidc)" "method_match m (rq_Method rq)" by auto
  from touching_routes[OF r(1) t] r(2) have meth: "rq_Method rq \<notin> {''GET'', ''HEAD''}" by (auto simp: method_match_def)
  have "(\<exists>cap \<in> set (needs a). Can (s_role sess) cap) \<or> a = Accounts \<and> own_account sess srv srv'"
  proof (cases "cap \<in> set (needs a)")
    case True
    moreover from True have "cap \<noteq> []" by (cases a) auto
    ultimately show ?thesis using c(4) by blast
  next
    case False
    with touching_routes[OF r(1) t] have h: "h = ''handleChangePassword''" "a = Accounts" by auto
    then have "f = handleChangePassword (ow_verify X) (ow_hash X) ?now (ow_save X) (ap_audit (ow_api X)) (bo_own_password b) sess"
      using f by (simp add: all_handlers_def api_changes_def Let_def)
    with change_password_own res h(2) show ?thesis by (metis own_account_def snd_conv sess_store)
  qed
  with c meth log show ?thesis by auto
qed

definition ex_api :: api_world where
  "ex_api = \<lparr>ap_now = 5, ap_audit = None, ap_audit_time = 5, ap_version = ''dev'', ap_listeners = None, ap_fingerprint = None,
     ap_keyType = [], ap_policy_dir = None, ap_read_err = False, ap_catalog_dir = Inr [], ap_saved = None, ap_sync = None,
     ap_reload = Some (\<lambda>s. (None, s\<lparr>pa_engine := Swap \<lparr>rs_rules = [], rs_def = safe_default\<rparr> (pa_engine s)\<rparr>)), ap_kill = None,
     ap_config = ex_config_env, ap_config_read = None, ap_temp = Inr (''t'', id)\<rparr>"

definition ex_api_bodies :: api_bodies where
  "ex_api_bodies = agh_bodies.extend ex_bodies
     \<lparr>bo_login = Inl 400, bo_own_password = Inl 400, bo_create = Inl 400, bo_password = Inl 400, bo_content = Inl 400,
      bo_allow = Inr (ex_allow ''a.b''), bo_review = Inl 400, bo_cname = Inl 400, bo_id = Inl 400\<rparr>"

definition ex_admin_world :: "nat admin_world" where
  "ex_admin_world = agh_world.extend ex_world
     \<lparr>ow_api = ex_api, ow_verify = (=), ow_hash = id, ow_dummy = [], ow_policy = ex_accept, ow_write = None, ow_save = None,
      ow_tok1 = ''t1'', ow_tok2 = ''t2'', ow_oidc = \<lparr>oa_groupsClaim = [], oa_roleMap = []\<rparr>, ow_exchange = (\<lambda>_. Inr None),
      ow_verifyID = (\<lambda>_. Inr ([], Inr [])),
      ow_callback = \<lparr>oq_stateCookie = None, oq_state = [], oq_code = [], oq_nonceCookie = None\<rparr>, ow_ticks = []\<rparr>"

definition ex_post :: request where
  "ex_post = \<lparr>rq_Method = ''POST'', rq_Path = ''/api/allow'', rq_Cookie = Some ''adm'', rq_CSRF = ''t2'', rq_IP = ''::1''\<rparr>"

abbreviation ex_outcome :: "response \<times> AghAdmin" where
  "ex_outcome \<equiv> admin_serve ex_admin_world False ex_http ex_api_bodies 0 ex_post ex_admin"

lemma ex_post_route: "find_route (admin_routes False) ''POST'' ''/api/allow'' =
    Some (''POST'', ''/api/allow'', Some ''allow.temp'', ''handleTempAllow'')"
  by code_simp

lemma ex_post_changes: "rp_status (fst ex_outcome) = 200 \<and> \<not> same Temps ex_admin (snd ex_outcome)"
proof -
  obtain m where m: "sess_get 5 ''adm'' (as_sess ex_admin) =
    (Some \<lparr>s_id = ''adm'', s_username = ''ann'', s_role = ''admin'', s_csrf = ''t2'', s_expires = 15\<rparr>, m)"
    using ex_session by blast
  have must: "\<not> mustChangeBlocked (ex_admin\<lparr>as_sess := m\<rparr>) \<lparr>s_id = ''adm'', s_username = ''ann'', s_role = ''admin'', s_csrf = ''t2'', s_expires = 15\<rparr> ex_post"
    by (simp add: ex_admin_def ex_srv_def AdminServer.defs mustChangeBlocked_def ex_post_def store_Get_def ex_store_def ex_user_def users_of_def split: option.split)
  have can: "Can ''admin'' ''allow.temp''" by code_simp
  have e: "pa_engine ex_admin = NewEngine \<lparr>rs_rules = [], rs_def = safe_default\<rparr>" by (simp add: ex_admin_def AdminServer.defs)
  have h: "lookup (all_handlers ex_admin_world ex_http ex_api_bodies sess) ''handleTempAllow'' =
      Some (handleTempAllow 5 None (Inr (ex_allow ''a.b'')) sess)" for sess
    by (simp add: all_handlers_def api_changes_def Let_def ex_admin_world_def ex_api_def ex_api_bodies_def agh_world.defs agh_bodies.defs)
  have now: "ap_now (ow_api ex_admin_world) = 5" by (simp add: ex_admin_world_def ex_api_def agh_world.defs)
  have d: "al_Domain (ex_allow ''a.b'') = ''a.b''" by (simp add: ex_allow_def)
  have put: "put k v [] = [(k, v)]" for k :: string and v :: tempRule by simp
  show ?thesis
    using m must can e d
    by (simp add: admin_serve_def serve_admin_def limitBody_def ex_post_def ex_post_route withAuth_def guarded_handler_def h now
        handleTempAllow_def Let_def adminMaxBodyBytes_def HasPrefix_def AddTempRule_def NewEngine_def put)
qed

theorem changes_need_capabilities_witness:
  "\<exists>cookie sess. rq_Cookie ex_post = Some cookie \<and> fst (sess_get 5 cookie (as_sess ex_admin)) = Some sess \<and>
    rq_CSRF ex_post = s_csrf sess \<and> Can (s_role sess) ''allow.temp'' \<and> logged sess ex_admin (snd ex_outcome)"
proof -
  have keeps: "reload_keeps (ow_api ex_admin_world)"
  proof (unfold reload_keeps_def, intro allI impI)
    fix run s a assume "ap_reload (ow_api ex_admin_world) = Some run"
    then have "run = (\<lambda>s. (None, s\<lparr>pa_engine := Swap \<lparr>rs_rules = [], rs_def = safe_default\<rparr> (pa_engine s)\<rparr>))"
      by (simp add: ex_admin_world_def ex_api_def agh_world.defs)
    then show "same a s (snd (run s))" by (cases a) (simp_all add: Swap_def keeps_curated_def)
  qed
  have now: "ap_now (ow_api ex_admin_world) = 5" by (simp add: ex_admin_world_def ex_api_def agh_world.defs)
  have "ex_outcome = (fst ex_outcome, snd ex_outcome)" by simp
  from changes_need_capabilities[OF this keeps conjunct2[OF ex_post_changes]] ex_post_changes
  show ?thesis by (auto simp: now)
qed

end
