(* ===== verification/Passwords.thy ===== *)
theory Passwords
  imports Go_Codec
begin

text \<open>
  The encoding of passwords in \<^verbatim>\<open>internal/admin/store.go\<close>: \<^verbatim>\<open>HashPassword\<close> and \<^verbatim>\<open>VerifyPassword\<close> around Argon2id,
  which is an argument (password, salt, time, memory, threads, length of the key; \<open>None\<close> is a panic, as for a
  time of zero). The unpadded standard base64 of the salt and the key is defined here with its decoder.
\<close>

type_synonym argon2 = "string \<Rightarrow> string \<Rightarrow> nat \<Rightarrow> nat \<Rightarrow> nat \<Rightarrow> nat \<Rightarrow> string option"

definition argonTime :: nat where "argonTime = 2"
definition argonMemory :: nat where "argonMemory = 65536"
definition argonThreads :: nat where "argonThreads = 2"
definition argonKeyLen :: nat where "argonKeyLen = 32"
definition argonSaltLen :: nat where "argonSaltLen = 16"

subsection \<open>Base64\<close>

definition std_alphabet :: string where
  "std_alphabet = ''ABCDEFGHIJKLMNOPQRSTUVWXYZabcdefghijklmnopqrstuvwxyz0123456789+/''"

definition std_char :: "nat \<Rightarrow> char" where
  "std_char n = std_alphabet ! (n mod 64)"

definition std_value :: "char \<Rightarrow> nat option" where
  "std_value c = map_of (zip std_alphabet [0..<64]) c"

fun std_encode :: "nat list \<Rightarrow> string" where
  "std_encode (a # b # c # s) =
     std_char (a div 4) # std_char ((a mod 4) * 16 + b div 16) # std_char ((b mod 16) * 4 + c div 64) #
     std_char (c mod 64) # std_encode s"
| "std_encode [a, b] = [std_char (a div 4), std_char ((a mod 4) * 16 + b div 16), std_char ((b mod 16) * 4)]"
| "std_encode [a] = [std_char (a div 4), std_char ((a mod 4) * 16)]"
| "std_encode [] = []"

definition RawStdEncode :: "string \<Rightarrow> string" where
  "RawStdEncode s = std_encode (map of_char s)"

text \<open>Groups of six bits; what is left of a last byte is not looked at, and one character alone is an error.\<close>

fun std_decode :: "nat list \<Rightarrow> nat list option" where
  "std_decode (w # x # y # z # s) =
     map_option (\<lambda>r. (w * 4 + x div 16) # ((x mod 16) * 16 + y div 4) # ((y mod 4) * 64 + z) # r) (std_decode s)"
| "std_decode [w, x, y] = Some [w * 4 + x div 16, (x mod 16) * 16 + y div 4]"
| "std_decode [w, x] = Some [w * 4 + x div 16]"
| "std_decode [w] = None"
| "std_decode [] = Some []"

text \<open>The decoder passes over line ends.\<close>

definition RawStdDecode :: "string \<Rightarrow> string option" where
  "RawStdDecode s =
     (let vs = map std_value (filter (\<lambda>c. c \<notin> {CHR 0x0A, CHR 0x0D}) s) in
      if None \<in> set vs then None else map_option (map char_of) (std_decode (map the vs)))"

subsection \<open>Hashing and verifying\<close>

definition HashPassword :: "argon2 \<Rightarrow> string \<Rightarrow> string \<Rightarrow> string option" where
  "HashPassword IDKey salt password =
     (case IDKey password salt argonTime argonMemory argonThreads argonKeyLen of
        None \<Rightarrow> None
      | Some key \<Rightarrow>
          Some (''argon2id$'' @ show_nat argonMemory @ ''$'' @ show_nat argonTime @ ''$'' @ show_nat argonThreads @ ''$'' @
                RawStdEncode salt @ ''$'' @ RawStdEncode key))"

text \<open>One \<^verbatim>\<open>%d\<close> of \<^verbatim>\<open>Sscanf\<close>: blanks, a sign, digits that fit 64 bits; the rest is left.\<close>

definition scan_d :: "string \<Rightarrow> (int \<times> string) option" where
  "scan_d s =
     (let s1 = dropWhile (\<lambda>c. c = CHR '' '') s;
          neg = (s1 \<noteq> [] \<and> hd s1 = CHR ''-'');
          s2 = (if s1 \<noteq> [] \<and> (hd s1 = CHR ''-'' \<or> hd s1 = CHR ''+'') then tl s1 else s1);
          ds = takeWhile is_digit s2; n = int (dec_value ds); v = (if neg then - n else n)
      in if ds = [] \<or> \<not> is_int64 v then None else Some (v, dropWhile is_digit s2))"

definition scan_ddd :: "string \<Rightarrow> (int \<times> int \<times> int) option" where
  "scan_ddd s =
     (case scan_d s of None \<Rightarrow> None | Some (a, s1) \<Rightarrow>
     (case scan_d s1 of None \<Rightarrow> None | Some (b, s2) \<Rightarrow>
     (case scan_d s2 of None \<Rightarrow> None | Some (c, _) \<Rightarrow> Some (a, b, c))))"

text \<open>\<open>None\<close> is a panic of Argon2.\<close>

definition VerifyPassword :: "argon2 \<Rightarrow> string \<Rightarrow> string \<Rightarrow> bool option" where
  "VerifyPassword IDKey password encoded =
     (case split_on CHR ''$'' [] encoded of
        [alg, m, t, th, esalt, ekey] \<Rightarrow>
          if alg \<noteq> ''argon2id'' then Some False
          else
            (case (scan_ddd (m @ '' '' @ t @ '' '' @ th), RawStdDecode esalt, RawStdDecode ekey) of
               (Some (mem, tm, ths), Some salt, Some want) \<Rightarrow>
                 map_option (\<lambda>got. got = want)
                   (IDKey password salt (nat (tm mod 2 ^ 32)) (nat (mem mod 2 ^ 32)) (nat (ths mod 2 ^ 8)) (length want mod 2 ^ 32))
             | _ \<Rightarrow> Some False)
      | _ \<Rightarrow> Some False)"

subsection \<open>Facts\<close>

lemma std_alphabet_facts: "length std_alphabet = 64" "distinct std_alphabet"
  by (simp_all add: std_alphabet_def)

lemma std_value_char [simp]: "n < 64 \<Longrightarrow> std_value (std_char n) = Some n"
  using map_of_zip_nth[of std_alphabet "[0..<64]" n] by (simp add: std_alphabet_facts std_value_def std_char_def)

lemma std_char_in: "std_char n \<in> set std_alphabet"
  unfolding std_char_def by (rule nth_mem) (simp add: std_alphabet_facts)

lemma set_std_encode: "set (std_encode s) \<subseteq> set std_alphabet"
  by (induction s rule: std_encode.induct) (auto simp: std_char_in)

lemma no_separator: "c \<in> {CHR ''$'', CHR 0x0A, CHR 0x0D} \<Longrightarrow> c \<notin> set (std_encode s)"
proof -
  assume "c \<in> {CHR ''$'', CHR 0x0A, CHR 0x0D}"
  then have "c \<notin> set std_alphabet" by (auto simp: std_alphabet_def)
  then show ?thesis using set_std_encode by blast
qed

lemma sextets:
  fixes a b c :: nat
  assumes "a < 256" "b < 256" "c < 256"
  shows "a div 4 < 64" "a mod 4 * 16 + b div 16 < 64" "b mod 16 * 4 + c div 64 < 64" "a mod 4 * 16 < 64" "b mod 16 * 4 < 64"
    "b div 16 < 16" "c div 64 < 4"
proof -
  have m: "a mod 4 < 4" "b mod 16 < 16" by simp_all
  show d: "a div 4 < 64" "b div 16 < 16" "c div 64 < 4" using assms by (simp_all add: less_mult_imp_div_less)
  show "a mod 4 * 16 + b div 16 < 64" "b mod 16 * 4 + c div 64 < 64" "a mod 4 * 16 < 64" "b mod 16 * 4 < 64"
    using m d by linarith+
qed

lemma values_of_encode:
  "list_all (\<lambda>n. n < 256) s \<Longrightarrow> \<exists>vs. map std_value (std_encode s) = map Some vs \<and> std_decode vs = Some s"
proof (induction s rule: std_encode.induct)
  case (1 a b c s)
  then obtain vs where vs: "map std_value (std_encode s) = map Some vs" "std_decode vs = Some s" by auto
  note x = sextets[of a b c]
  from 1(2) vs x show ?case
    by (intro exI[of _ "a div 4 # (a mod 4 * 16 + b div 16) # (b mod 16 * 4 + c div 64) # c mod 64 # vs"]) simp
next
  case (2 a b)
  with sextets[of a b 0] show ?case
    by (intro exI[of _ "[a div 4, a mod 4 * 16 + b div 16, b mod 16 * 4]"]) simp
next
  case (3 a)
  with sextets[of a 0 0] show ?case by (intro exI[of _ "[a div 4, a mod 4 * 16]"]) simp
qed simp

theorem RawStd_roundtrip: "RawStdDecode (RawStdEncode s) = Some s"
proof -
  let ?n = "map of_char s :: nat list"
  have "list_all (\<lambda>n. n < 256) ?n" by (simp add: list_all_iff)
  from values_of_encode[OF this] obtain vs where vs: "map std_value (std_encode ?n) = map Some vs" "std_decode vs = Some ?n" by blast
  have "filter (\<lambda>c. c \<notin> {CHR 0x0A, CHR 0x0D}) (std_encode ?n) = std_encode ?n"
    using no_separator by (intro filter_True) auto
  with vs have "RawStdDecode (RawStdEncode s) = map_option (map char_of) (std_decode vs)"
    by (simp add: RawStdDecode_def RawStdEncode_def comp_def)
  then show ?thesis by (simp add: vs(2) comp_def)
qed

lemma split_on_sep: "c \<notin> set a \<Longrightarrow> split_on c acc (a @ c # b) = (rev acc @ a) # split_on c [] b"
  by (induction a arbitrary: acc) auto

lemma split_on_none: "c \<notin> set a \<Longrightarrow> split_on c acc a = [rev acc @ a]"
  by (induction a arbitrary: acc) auto

lemma scan_d_digits:
  assumes "n < 2 ^ 62" "rest = [] \<or> \<not> is_digit (hd rest)"
  shows "scan_d (show_nat n @ rest) = Some (int n, rest)" "scan_d (CHR '' '' # show_nat n @ rest) = Some (int n, rest)"
proof -
  have d: "list_all is_digit (show_nat n)" "show_nat n \<noteq> []" "dec_value (show_nat n) = n" using show_nat_dec[of n] by auto
  then obtain x xs where x: "show_nat n = x # xs" "is_digit x" by (cases "show_nat n") auto
  then have h: "x \<noteq> CHR '' ''" "x \<noteq> CHR ''-''" "x \<noteq> CHR ''+''" by (auto simp: is_digit_def)
  have tw: "takeWhile is_digit (show_nat n @ rest) = show_nat n" "dropWhile is_digit (show_nat n @ rest) = rest"
    using d(1) assms(2) by (cases rest; auto simp: list_all_iff takeWhile_append dropWhile_append)+
  have i: "is_int64 (int n)" using assms(1) by (simp add: is_int64_def)
  from tw i d(2,3) h x show "scan_d (show_nat n @ rest) = Some (int n, rest)" "scan_d (CHR '' '' # show_nat n @ rest) = Some (int n, rest)"
    by (simp_all add: scan_d_def Let_def)
qed

lemma scan_costs: "scan_ddd (show_nat argonMemory @ '' '' @ show_nat argonTime @ '' '' @ show_nat argonThreads) = Some (65536, 2, 2)"
proof -
  have sp: "\<not> is_digit CHR '' ''" by (simp add: is_digit_def)
  have 1: "scan_d (show_nat argonMemory @ CHR '' '' # show_nat argonTime @ CHR '' '' # show_nat argonThreads) =
      Some (int argonMemory, CHR '' '' # show_nat argonTime @ CHR '' '' # show_nat argonThreads)"
    by (rule scan_d_digits) (simp_all add: sp argonMemory_def)
  have 2: "scan_d (CHR '' '' # show_nat argonTime @ CHR '' '' # show_nat argonThreads) =
      Some (int argonTime, CHR '' '' # show_nat argonThreads)"
    by (rule scan_d_digits) (simp_all add: sp argonTime_def)
  have 3: "scan_d (CHR '' '' # show_nat argonThreads) = Some (int argonThreads, [])"
    using scan_d_digits(2)[of argonThreads "[]"] by (simp add: argonThreads_def)
  from 1 2 3 show ?thesis by (simp add: scan_ddd_def argonMemory_def argonTime_def argonThreads_def)
qed

lemma split_hashed:
  "split_on CHR ''$'' [] (''argon2id$'' @ show_nat argonMemory @ ''$'' @ show_nat argonTime @ ''$'' @ show_nat argonThreads @ ''$'' @
     RawStdEncode salt @ ''$'' @ RawStdEncode key) =
   [''argon2id'', show_nat argonMemory, show_nat argonTime, show_nat argonThreads, RawStdEncode salt, RawStdEncode key]"
proof -
  have n: "CHR ''$'' \<notin> set (show_nat k)" for k using show_nat_dec[of k] by (auto simp: list_all_iff is_digit_def)
  have e: "CHR ''$'' \<notin> set (RawStdEncode s)" for s by (simp add: RawStdEncode_def no_separator)
  show ?thesis using n e by (simp add: split_on_sep split_on_none)
qed

text \<open>C33: A stored hash verifies exactly the passwords that Argon2 sends to the key of the password it was made
  from, with the salt it was made with: the password itself verifies, and another one only by a collision of keys.
  The hypothesis is what the documentation of Argon2 says: the key has the length asked for.\<close>

theorem stored_hash_verifies_its_password:
  assumes "HashPassword IDKey salt password = Some encoded"
    and "\<And>p s t m h n k. IDKey p s t m h n = Some k \<Longrightarrow> length k = n"
  shows "VerifyPassword IDKey password encoded = Some True \<and>
    (\<forall>other. VerifyPassword IDKey other encoded =
       map_option (\<lambda>k. Some k = IDKey password salt argonTime argonMemory argonThreads argonKeyLen)
         (IDKey other salt argonTime argonMemory argonThreads argonKeyLen))"
proof -
  obtain key where key: "IDKey password salt argonTime argonMemory argonThreads argonKeyLen = Some key"
    and enc: "encoded = ''argon2id$'' @ show_nat argonMemory @ ''$'' @ show_nat argonTime @ ''$'' @ show_nat argonThreads @ ''$'' @
       RawStdEncode salt @ ''$'' @ RawStdEncode key"
    using assms(1) by (auto simp: HashPassword_def split: option.splits)
  have len: "length key = 32" using assms(2)[OF key] by (simp add: argonKeyLen_def)
  have "VerifyPassword IDKey p encoded =
      map_option (\<lambda>got. got = key) (IDKey p salt argonTime argonMemory argonThreads argonKeyLen)" for p
    unfolding VerifyPassword_def enc split_hashed
    using scan_costs by (simp add: RawStd_roundtrip len argonTime_def argonMemory_def argonThreads_def argonKeyLen_def)
  then show ?thesis using key by simp
qed

definition ex_argon :: argon2 where
  "ex_argon p s t m h n = (if t = 0 \<or> h = 0 then None else Some (take n (p @ s @ replicate n CHR ''x'')))"

theorem stored_hash_verifies_its_password_witness:
  "\<exists>encoded. HashPassword ex_argon ''0123456789abcdef'' ''secret'' = Some encoded \<and>
     VerifyPassword ex_argon ''secret'' encoded = Some True \<and> VerifyPassword ex_argon ''secrets'' encoded = Some False"
proof -
  have "HashPassword ex_argon ''0123456789abcdef'' ''secret'' \<noteq> None"
    by (simp add: HashPassword_def ex_argon_def argonTime_def argonThreads_def)
  then obtain encoded where e: "HashPassword ex_argon ''0123456789abcdef'' ''secret'' = Some encoded" by blast
  have "length k = n" if "ex_argon p s t m h n = Some k" for p s t m h n k
    using that by (auto simp: ex_argon_def split: if_splits)
  from stored_hash_verifies_its_password[OF e this] e show ?thesis
    by (intro exI[of _ encoded]) (simp add: ex_argon_def argonTime_def argonThreads_def argonKeyLen_def)
qed

end
