(* ===== verification/Spec2Isabelle.thy ===== *)
theory Spec2Isabelle
  imports Startup AdminAccess Passwords
begin

text \<open>
  Mirage-chaff is a server behind AdGuard Home. Names that AdGuard Home rewrites to it arrive at its listeners:
  it terminates TLS with leaf certificates made on the spot, asks a policy what to do with a request (a stub, a
  decoy of the shape of the original, the original with identifying parts removed, the original as it is, or the
  connection passed through unopened), and answers. Beside it run the manager of the rewrite lists that AdGuard
  Home fetches, an admin server, and endpoints for health and metrics. This development models the Go code under
  \<^verbatim>\<open>src/internal\<close> and \<^verbatim>\<open>src/cmd\<close>; a definition has the name of the function or type it translates, with a prefix
  where two packages or HOL use the same name (\<^verbatim>\<open>br_Allow\<close>, \<^verbatim>\<open>rl_Allow\<close>, \<^verbatim>\<open>rc_Open\<close>, \<^verbatim>\<open>agh_Open\<close>).

  \<^bold>\<open>How the code is read.\<close> A struct is a record, an enumeration of string constants stays strings, a Go map an
  association list with distinct keys (type \<open>gomap\<close>), a slice a list. A method with a pointer receiver takes
  the state and returns it changed. An error result is a sum or an option; a function that can panic returns
  \<open>outcome\<close> (\<open>Ok\<close>, \<open>Fail\<close>, \<open>Panic\<close>) or an option whose \<open>None\<close> is the panic. Times and durations are integers of
  nanoseconds, with \<open>wrap64\<close> where a product or sum of outside values can overflow; the packet parsers work on
  lists of naturals below 256. Every clock reading, random token and answer of a file, socket, decoder or library outside the
  repository is an argument, so that one definition covers every run. A mutex makes the operation it guards one
  step; where the code lets go of it in between, as a sync does around its fetch, the operation is split there.

  \<^bold>\<open>Theories.\<close>

  \<^item> Shared: \<open>Go_Prelude\<close> (time, errors, strings, maps and the lemmas and hints on them), \<open>Go_Codec\<close> (decimal, hex,
    base64, URL queries, with their laws), \<open>Go_Http\<close> (headers, the response writer), \<open>Go_Lru\<close> (the eviction that two caches
    share) and \<open>Interfaces\<close>, the contracts as locales: a table with a capacity, a gate that counts failures, a log that keeps
    the newest, a resolver. Each is interpreted on the code's own definitions by the component that provides it.
  \<^item> Decision: \<open>Policy\<close> (\<^verbatim>\<open>policy.go\<close>: rules, globs as regular expressions, loading, matching), \<open>Engine\<close>
    (\<^verbatim>\<open>engine.go\<close>: temporary rules, the bounded list of unmatched requests), \<open>RuleCatalog\<close> and \<open>RuleStore\<close>
    (\<^verbatim>\<open>rulecatalog\<close>: parsers of filter lists, the store of reviewed rules).
  \<^item> Answering: \<open>StubCatalog\<close> (\<^verbatim>\<open>catalog\<close>, \<^verbatim>\<open>stub\<close>), \<open>Mimic\<close> (\<^verbatim>\<open>mimic\<close>), \<open>Forward\<close> (\<^verbatim>\<open>forward\<close>),
    \<open>HashRewrite\<close>, \<open>Resolver\<close>, \<open>Breaker\<close> (breaker and limiter), \<open>Observability\<close> (\<^verbatim>\<open>record.go\<close>), put together by
    \<open>Server\<close>: \<open>handleIntercept\<close> is limiter, decision, gate, breaker, action, record, in the order of the code.
  \<^item> Connections: \<open>Certgen\<close> (leaf certificates), \<open>Sni\<close> (the ClientHello and the peek over TLS records), \<open>Quic\<close> and
    \<open>QuicRelay\<close> (initial packets and the relay of flows), \<open>Transport\<close> (peek and policy together), \<open>Listener\<close> (the
    goroutines and channels of the routing listener as a step relation).
  \<^item> Feeds: \<open>AghTypes\<close>, \<open>AghSources\<close>, \<open>AghCatalog\<close>, \<open>AghFeed\<close> (\<^verbatim>\<open>aghmanaged/manager.go\<close>: sources and syncs, the editable
    catalog with its conflicts and rollbacks, the generated feed).
  \<^item> Admin: \<open>UserStore\<close>, \<open>Passwords\<close>, \<open>Sessions\<close>, \<open>Admin\<close> (guard, sign-in, accounts), \<open>AdminPolicy\<close> (route table, policy files),
    \<open>ConfigPatch\<close> (the line patch of the TOML file), \<open>AghApi\<close> (the client of AdGuard Home), \<open>AghHandlers\<close>, \<open>AdminApi\<close> (all other
    handlers) and \<open>AdminAccess\<close>, where a request meets the route table with every handler behind it.
  \<^item> Process: \<open>Config\<close>, \<open>Lifecycle\<close> (start, reload, the feed endpoint) and \<open>Startup\<close> (listeners, the loop over signals,
    health, systemd, the commands).

  \<^bold>\<open>State and interaction.\<close> \<open>Process\<close> is the server's state with the manager of the feeds; \<open>process_reaches\<close> gives the
  states that requests, spliced connections, temporary rules, reviews, reloads and feed fetches in any order lead to. \<open>AghAdmin\<close>
  extends the admin server (accounts, sessions) by the engine, policy files, configuration file, manager, rule store and recorder it
  shares with the server. \<open>routingListener\<close>, \<open>PassthroughRelay\<close> and \<open>running\<close> are the states of the concurrent parts.

  \<^bold>\<open>What the lemmas show.\<close>

  \<^item> Invariants of reachable states: the process (catalog references resolve, rules in order, caches and rings within bounds),
    the manager, the rule store, sessions and accounts, the QUIC flows, the decoy cache, the listener.
  \<^item> Refinement and equivalence: the aggregator is a bounded most-recently-used list, the ring a log cut to its newest records, the
    globs the language of their pattern, the name found in QUIC datagrams the one of the ClientHello in them.
  \<^item> Safety: stub-only mode asks no origin for a request, no admin state changes without session, token and capability,
    a leaf names only the host asked for, a scrubbed request carries no identity, feeds hold only approved, unconflicted entries, large
    changes wait for review.
  \<^item> Round trips: rollbacks, certificates on disk, stored passwords. Errors: a reload is all or nothing, the settings on disk stay
    usable, what the listener does after an error. Bounds: ranges, the rate of the limiter. Termination and answers: every request is
    answered, a stream delivers each record once, a shutdown is seen at the health endpoints.
  \<^item> Lemmas that show where the code does something else than it means to stand beside the definitions they are about; a text
    before each says what happens.

  \<^bold>\<open>Bounds and fuel.\<close> No property rests on fuel that could run out. The peek reads at most eight TLS records and the
  relay cuts datagrams at 2048 bytes, as the code does; \<open>stream_loop\<close> and the loops over packets and frames end by a measure, and
  their definitions are total. Offsets in QUIC packets are assumed below \<open>2 ^ 61\<close> only where the length of a datagram is.

  \<^bold>\<open>Arguments.\<close> Not under \<^verbatim>\<open>src\<close>, and therefore arguments: decoders of YAML, TOML and JSON, SHA-256, HKDF, AES-GCM, X.509
  and PEM, Argon2, the DNS message parser, the OIDC provider, the QUIC and HTTP/3 libraries. Their hypotheses are named
  (\<open>pki_ok\<close>, \<open>gcm_shrinks\<close>, \<open>path_blind\<close>, \<open>reload_keeps\<close> and the like) and each has an instance in a witness.

  \<^bold>\<open>Not modelled.\<close> The reading and writing of sockets and the copy loops of a spliced connection, HTTP framing, TLS records
  after the ClientHello, the embedded page, log lines other than those of the recorder, the time a shutdown may take.
  The rate limiter computes over the reals, not IEEE doubles. Regular expressions are translated to matchers by hand. Of the memory model of Go
  only the points where a lock is released or a channel is used are modelled: a data race shows as an order of steps. Routes are
  matched by exact segments, without the redirects of the standard mux for unclean paths.
\<close>

end
